(* ===== verification/Prelude.thy ===== *)
theory Prelude
  imports
    Main
    "HOL-Library.Word"
    "HOL-Library.Sublist"
    "HOL-Library.Char_ord"
    "HOL-Library.List_Lexorder"
    "HOL-Library.Finite_Map"
begin

text \<open>
  Shared base of the development: the action type that models Rust functions taking
  \<open>&mut self\<close> and returning a \<open>Result\<close>, the relations such actions keep, and the parts of
  the Rust standard library's string and number handling the crates use.

  A Rust \<open>String\<close> is a sequence of UTF-8 bytes, and an Isabelle \<open>char\<close> is one byte, so
  \<open>string\<close> stands for \<open>String\<close>, \<open>&str\<close>, \<open>Path\<close> and \<open>Vec<u8>\<close> alike and
  \<open>length\<close> counts bytes as \<open>str::len\<close> does.
\<close>

named_theorems act_simps \<open>evaluation of the action combinators\<close>
named_theorems act_results \<open>what a successful or failed action went through\<close>
named_theorems moves_intros \<open>which actions move the state along a relation\<close>

type_synonym bytes = string
type_synonym u16 = "16 word"
type_synonym u32 = "32 word"
type_synonym u64 = "64 word"

section \<open>Actions: state passing with an error result\<close>

text \<open>
  \<open>('s, 'e, 'a) act\<close> is a Rust method \<open>fn f(&mut self) -> Result<A, E>\<close>: the state
  after the call is returned on both outcomes, because Rust keeps the mutations made before
  an early return.
\<close>

type_synonym ('s, 'e, 'a) act = "'s \<Rightarrow> ('e + 'a) \<times> 's"

definition okA :: "'a \<Rightarrow> ('s, 'e, 'a) act" where
  "okA x = (\<lambda>s. (Inr x, s))"

definition errA :: "'e \<Rightarrow> ('s, 'e, 'a) act" where
  "errA e = (\<lambda>s. (Inl e, s))"

text \<open>\<open>bindA m f\<close> is \<open>let x = m?; f(x)\<close>.\<close>

definition bindA :: "('s, 'e, 'a) act \<Rightarrow> ('a \<Rightarrow> ('s, 'e, 'b) act) \<Rightarrow> ('s, 'e, 'b) act" where
  "bindA m f = (\<lambda>s. case m s of (Inl e, s') \<Rightarrow> (Inl e, s') | (Inr x, s') \<Rightarrow> f x s')"

text \<open>\<open>tryA m\<close> runs \<open>m\<close> and hands its \<open>Result\<close> on as a value, for code that matches on it.\<close>

definition tryA :: "('s, 'e, 'a) act \<Rightarrow> ('s, 'e2, 'e + 'a) act" where
  "tryA m = (\<lambda>s. case m s of (r, s') \<Rightarrow> (Inr r, s'))"

definition mapErrA :: "('e \<Rightarrow> 'f) \<Rightarrow> ('s, 'e, 'a) act \<Rightarrow> ('s, 'f, 'a) act" where
  "mapErrA g m = (\<lambda>s. case m s of (Inl e, s') \<Rightarrow> (Inl (g e), s') | (Inr x, s') \<Rightarrow> (Inr x, s'))"

definition getA :: "('s \<Rightarrow> 'a) \<Rightarrow> ('s, 'e, 'a) act" where
  "getA f = (\<lambda>s. (Inr (f s), s))"

definition modA :: "('s \<Rightarrow> 's) \<Rightarrow> ('s, 'e, unit) act" where
  "modA f = (\<lambda>s. (Inr (), f s))"

definition liftA :: "'e + 'a \<Rightarrow> ('s, 'e, 'a) act" where
  "liftA r = (\<lambda>s. (r, s))"

text \<open>\<open>zoomA get put m\<close> runs \<open>m\<close> on a component of the state (\<open>&mut self.field\<close>).\<close>

definition zoomA :: "('s \<Rightarrow> 't) \<Rightarrow> ('t \<Rightarrow> 's \<Rightarrow> 's) \<Rightarrow> ('t, 'e, 'a) act \<Rightarrow> ('s, 'e, 'a) act" where
  "zoomA get put m = (\<lambda>s. case m (get s) of (r, t) \<Rightarrow> (r, put t s))"

lemmas act_defs = okA_def errA_def bindA_def tryA_def mapErrA_def getA_def modA_def liftA_def
  zoomA_def

lemma okA_apply [act_simps]: "okA x s = (Inr x, s)"
  by (simp add: okA_def)

lemma errA_apply [act_simps]: "errA e s = (Inl e, s)"
  by (simp add: errA_def)

lemma getA_apply [act_simps]: "getA f s = (Inr (f s), s)"
  by (simp add: getA_def)

lemma modA_apply [act_simps]: "modA f s = (Inr (), f s)"
  by (simp add: modA_def)

lemma liftA_apply [act_simps]: "liftA r s = (r, s)"
  by (simp add: liftA_def)

lemma bindA_ok [act_simps]: "m s = (Inr x, s') \<Longrightarrow> bindA m f s = f x s'"
  by (simp add: bindA_def)

lemma bindA_err [act_simps]: "m s = (Inl e, s') \<Longrightarrow> bindA m f s = (Inl e, s')"
  by (simp add: bindA_def)

lemma bindA_okA [act_simps]: "bindA (okA x) f s = f x s"
  by (simp add: bindA_def okA_def)

lemma bindA_errA [act_simps]: "bindA (errA e) f s = (Inl e, s)"
  by (simp add: bindA_def errA_def)

lemma bindA_getA [act_simps]: "bindA (getA g) f s = f (g s) s"
  by (simp add: bindA_def getA_def)

lemma bindA_modA [act_simps]: "bindA (modA g) f s = f () (g s)"
  by (simp add: bindA_def modA_def)

lemma bindA_liftA_ok [act_simps]: "bindA (liftA (Inr x)) f s = f x s"
  by (simp add: bindA_def liftA_def)

lemma bindA_liftA_err [act_simps]: "bindA (liftA (Inl e)) f s = (Inl e, s)"
  by (simp add: bindA_def liftA_def)

lemma bindA_tryA [act_simps]: "bindA (tryA m) f s = f (fst (m s)) (snd (m s))"
  by (simp add: bindA_def tryA_def split: prod.splits)

lemma bindA_eq_ok [act_results]:
  "bindA m f s = (Inr y, s') \<longleftrightarrow> (\<exists>x s1. m s = (Inr x, s1) \<and> f x s1 = (Inr y, s'))"
  by (auto simp: bindA_def split: prod.splits sum.splits)

lemma bindA_eq_err [act_results]:
  "bindA m f s = (Inl e, s') \<longleftrightarrow>
     m s = (Inl e, s') \<or> (\<exists>x s1. m s = (Inr x, s1) \<and> f x s1 = (Inl e, s'))"
  by (auto simp: bindA_def split: prod.splits sum.splits)

lemma mapErrA_eq_ok [act_results]: "mapErrA g m s = (Inr x, s') \<longleftrightarrow> m s = (Inr x, s')"
  by (auto simp: mapErrA_def split: prod.splits sum.splits)

lemma mapErrA_eq_err [act_results]:
  "mapErrA g m s = (Inl e, s') \<longleftrightarrow> (\<exists>e0. m s = (Inl e0, s') \<and> e = g e0)"
  by (auto simp: mapErrA_def split: prod.splits sum.splits)

lemma zoomA_eq [act_results]:
  "zoomA get put m s = (r, s') \<longleftrightarrow> (\<exists>t. m (get s) = (r, t) \<and> s' = put t s)"
  by (auto simp: zoomA_def split: prod.splits)

text \<open>Pure results, for functions without state: \<open>andThen r f\<close> is \<open>f(r?)\<close>.\<close>

definition andThen :: "'e + 'a \<Rightarrow> ('a \<Rightarrow> 'e + 'b) \<Rightarrow> 'e + 'b" where
  "andThen r f = (case r of Inl e \<Rightarrow> Inl e | Inr x \<Rightarrow> f x)"

definition guardE :: "bool \<Rightarrow> 'e \<Rightarrow> 'e + unit" where
  "guardE b e = (if b then Inr () else Inl e)"

definition of_option :: "'e \<Rightarrow> 'a option \<Rightarrow> 'e + 'a" where
  "of_option e x = (case x of None \<Rightarrow> Inl e | Some y \<Rightarrow> Inr y)"

lemma andThen_Inr [simp]: "andThen r f = Inr y \<longleftrightarrow> (\<exists>x. r = Inr x \<and> f x = Inr y)"
  by (auto simp: andThen_def split: sum.splits)

lemma andThen_simps [simp]: "andThen (Inr x) f = f x" "andThen (Inl e) f = Inl e"
  by (simp_all add: andThen_def)

lemma guardE_Inr [simp]: "guardE b e = Inr u \<longleftrightarrow> b"
  by (simp add: guardE_def)

lemma guardE_True [simp]: "guardE True e = Inr ()"
  by (simp add: guardE_def)

lemma of_option_Inr [simp]: "of_option e x = Inr y \<longleftrightarrow> x = Some y"
  by (simp add: of_option_def split: option.splits)

lemma of_option_Some [simp]: "of_option e (Some y) = Inr y"
  by (simp add: of_option_def)

section \<open>Relations an action moves the state along\<close>

text \<open>
  \<open>moves R m\<close>: whatever \<open>m\<close> returns, the state after it is \<open>R\<close>-related to the state
  before it. For a reflexive and transitive \<open>R\<close> (an invariant kept, a ledger that only
  grows, a field never written) it is closed under the combinators, so that it needs to be
  checked for primitive actions only.
\<close>

definition moves :: "('s \<Rightarrow> 's \<Rightarrow> bool) \<Rightarrow> ('s, 'e, 'a) act \<Rightarrow> bool" where
  "moves R m \<longleftrightarrow> (\<forall>s. R s (snd (m s)))"

lemma movesD: "moves R m \<Longrightarrow> m s = (r, s') \<Longrightarrow> R s s'"
  by (metis moves_def snd_conv)

lemma movesI: "(\<And>s r s'. m s = (r, s') \<Longrightarrow> R s s') \<Longrightarrow> moves R m"
  by (metis moves_def prod.collapse)

lemma moves_if: "(b \<Longrightarrow> moves R m) \<Longrightarrow> (\<not> b \<Longrightarrow> moves R n) \<Longrightarrow> moves R (if b then m else n)"
  by simp

lemma moves_prod: "(\<And>a b. moves R (f a b)) \<Longrightarrow> moves R (case x of (a, b) \<Rightarrow> f a b)"
  by (cases x) simp

lemma moves_option:
  "moves R m \<Longrightarrow> (\<And>y. moves R (f y)) \<Longrightarrow> moves R (case x of None \<Rightarrow> m | Some y \<Rightarrow> f y)"
  by (cases x) simp_all

lemma moves_sum:
  "(\<And>e. moves R (g e)) \<Longrightarrow> (\<And>y. moves R (f y)) \<Longrightarrow> moves R (case x of Inl e \<Rightarrow> g e | Inr y \<Rightarrow> f y)"
  by (cases x) simp_all

lemmas moves_cases = moves_if moves_prod moves_option moves_sum

locale step_order =
  fixes R :: "'s \<Rightarrow> 's \<Rightarrow> bool"
  assumes step_refl: "R s s"
    and step_trans: "R s t \<Longrightarrow> R t u \<Longrightarrow> R s u"
begin

lemma ok: "moves R (okA x)"
  by (simp add: moves_def okA_def step_refl)

lemma err: "moves R (errA e)"
  by (simp add: moves_def errA_def step_refl)

lemma get: "moves R (getA f)"
  by (simp add: moves_def getA_def step_refl)

lemma lift: "moves R (liftA r)"
  by (simp add: moves_def liftA_def step_refl)

lemma bind: "moves R m \<Longrightarrow> (\<And>x. moves R (f x)) \<Longrightarrow> moves R (bindA m f)"
  unfolding moves_def bindA_def
  by (auto split: prod.splits sum.splits) (metis snd_conv step_trans)+

lemma reify: "moves R m \<Longrightarrow> moves R (tryA m)"
  by (auto simp: moves_def tryA_def split: prod.splits) (metis snd_conv)

lemma map_err: "moves R m \<Longrightarrow> moves R (mapErrA g m)"
  unfolding moves_def mapErrA_def
  by (auto split: prod.splits sum.splits) (metis snd_conv)+

lemma get_bind: "(\<And>s. R s (snd (f (g s) s))) \<Longrightarrow> moves R (bindA (getA g) f)"
  by (simp add: moves_def bindA_def getA_def)

lemmas basics = ok err get lift bind reify map_err

end

section \<open>Standard library: UTF-8, digits, splitting\<close>

text \<open>\<open>std::str::from_utf8\<close> succeeds exactly on well-formed UTF-8 (RFC 3629, no overlong forms
  and no surrogates).\<close>

abbreviation byte_val :: "char \<Rightarrow> nat" where
  "byte_val \<equiv> of_char"

definition cont_byte :: "char \<Rightarrow> bool" where
  "cont_byte c \<longleftrightarrow> 128 \<le> byte_val c \<and> byte_val c < 192"

fun utf8_ok :: "bytes \<Rightarrow> bool" where
  "utf8_ok [] = True"
| "utf8_ok (a # s) =
     (let n = byte_val a in
      if n < 128 then utf8_ok s
      else if 194 \<le> n \<and> n < 224 then
        (case s of b # r \<Rightarrow> cont_byte b \<and> utf8_ok r | _ \<Rightarrow> False)
      else if 224 \<le> n \<and> n < 240 then
        (case s of b # c # r \<Rightarrow>
           cont_byte b \<and> cont_byte c \<and> (n = 224 \<longrightarrow> 160 \<le> byte_val b) \<and>
           (n = 237 \<longrightarrow> byte_val b < 160) \<and> utf8_ok r
         | _ \<Rightarrow> False)
      else if 240 \<le> n \<and> n < 245 then
        (case s of b # c # d # r \<Rightarrow>
           cont_byte b \<and> cont_byte c \<and> cont_byte d \<and> (n = 240 \<longrightarrow> 144 \<le> byte_val b) \<and>
           (n = 244 \<longrightarrow> byte_val b < 144) \<and> utf8_ok r
         | _ \<Rightarrow> False)
      else False)"

definition is_ascii_char :: "char \<Rightarrow> bool" where
  "is_ascii_char c \<longleftrightarrow> byte_val c < 128"

lemma utf8_ok_ascii: "list_all is_ascii_char s \<Longrightarrow> utf8_ok s"
  by (induction s) (auto simp: is_ascii_char_def)

lemma ascii_set_utf8: "(\<And>c. c \<in> set s \<Longrightarrow> is_ascii_char c) \<Longrightarrow> utf8_ok s"
  by (rule utf8_ok_ascii) (simp add: list_all_iff)

lemma utf8_ok_append_ascii: "list_all is_ascii_char p \<Longrightarrow> utf8_ok (p @ s) = utf8_ok s"
  by (induction p) (auto simp: is_ascii_char_def)

lemma utf8_ok_append_line: "utf8_ok s \<Longrightarrow> is_ascii_char c \<Longrightarrow> utf8_ok (s @ [c])"
proof (induction s rule: utf8_ok.induct)
  case 1
  then show ?case by (simp add: is_ascii_char_def)
next
  case (2 a s)
  then show ?case
    by (auto simp: Let_def split: if_splits list.splits)
qed

lemma utf8_ok_append: "utf8_ok s \<Longrightarrow> utf8_ok t \<Longrightarrow> utf8_ok (s @ t)"
proof (induction s rule: utf8_ok.induct)
  case 1 then show ?case by simp
next
  case (2 a s)
  define n where "n = byte_val a"
  note u = utf8_ok.simps(2) [of a, unfolded Let_def, folded n_def]
  consider "n < 128" | "194 \<le> n \<and> n < 224" | "224 \<le> n \<and> n < 240" | "240 \<le> n \<and> n < 245"
    using 2(5) [unfolded u] by (simp split: if_splits)
  then show ?case
  proof cases
    case 1 then show ?thesis using 2 by (simp add: Let_def n_def)
  next
    case c: 2
    then obtain b r where "s = b # r" using 2(5) [unfolded u] by (auto split: list.splits)
    then show ?thesis using 2 c by (simp add: Let_def n_def)
  next
    case c: 3
    then obtain b d r where "s = b # d # r" using 2(5) [unfolded u] by (auto split: list.splits)
    then show ?thesis using 2 c by (simp add: Let_def n_def)
  next
    case c: 4
    then obtain b d e r where "s = b # d # e # r" using 2(5) [unfolded u] by (auto split: list.splits)
    then show ?thesis using 2 c by (simp add: Let_def n_def)
  qed
qed

lemma is_ascii_newline [simp]: "is_ascii_char (CHR 0x0A)"
  by (simp add: is_ascii_char_def)

definition is_digit :: "char \<Rightarrow> bool" where
  "is_digit c \<longleftrightarrow> 48 \<le> byte_val c \<and> byte_val c \<le> 57"

definition is_lower :: "char \<Rightarrow> bool" where
  "is_lower c \<longleftrightarrow> 97 \<le> byte_val c \<and> byte_val c \<le> 122"

definition is_upper :: "char \<Rightarrow> bool" where
  "is_upper c \<longleftrightarrow> 65 \<le> byte_val c \<and> byte_val c \<le> 90"

definition is_hexdigit :: "char \<Rightarrow> bool" where
  "is_hexdigit c \<longleftrightarrow> is_digit c \<or> 65 \<le> byte_val c \<and> byte_val c \<le> 70
     \<or> 97 \<le> byte_val c \<and> byte_val c \<le> 102"

definition digit_char :: "nat \<Rightarrow> char" where
  "digit_char n = char_of (48 + n)"

lemma digit_char_numerals [simp]:
  "digit_char 0 = CHR ''0''" "digit_char (Suc 0) = CHR ''1''" "digit_char 1 = CHR ''1''"
  "digit_char 2 = CHR ''2''"
  "digit_char 3 = CHR ''3''" "digit_char 4 = CHR ''4''" "digit_char 5 = CHR ''5''"
  "digit_char 6 = CHR ''6''" "digit_char 7 = CHR ''7''" "digit_char 8 = CHR ''8''"
  "digit_char 9 = CHR ''9''"
  by code_simp+

definition digit_val :: "char \<Rightarrow> nat" where
  "digit_val c = byte_val c - 48"

lemma digit_char_inverse:
  assumes "n < 10"
  shows "is_digit (digit_char n)" and "digit_val (digit_char n) = n"
  using assms by (simp_all add: is_digit_def digit_val_def digit_char_def)

text \<open>Decimal rendering of an unsigned integer (\<open>Display\<close> of \<open>u16\<close>, \<open>u32\<close>, \<open>u64\<close>, \<open>usize\<close>).\<close>

fun show_nat :: "nat \<Rightarrow> string" where
  "show_nat n = (if n < 10 then [digit_char n] else show_nat (n div 10) @ [digit_char (n mod 10)])"

declare show_nat.simps [simp del]

text \<open>\<open>str::parse\<close> for an unsigned integer: an optional \<open>+\<close>, at least one digit, no overflow.\<close>

definition digits_val :: "string \<Rightarrow> nat" where
  "digits_val s = foldl (\<lambda>a c. 10 * a + digit_val c) 0 s"

definition all_digits :: "string \<Rightarrow> bool" where
  "all_digits s \<longleftrightarrow> s \<noteq> [] \<and> list_all is_digit s"

definition parse_unsigned :: "nat \<Rightarrow> string \<Rightarrow> nat option" where
  "parse_unsigned bound s =
     (let d = (case s of CHR ''+'' # r \<Rightarrow> r | _ \<Rightarrow> s) in
      if all_digits d \<and> digits_val d < bound then Some (digits_val d) else None)"

text \<open>\<open>str::parse::<i64>\<close>: an optional sign, digits, and the value in range.\<close>

definition parse_i64 :: "string \<Rightarrow> int option" where
  "parse_i64 s =
     (case s of
        CHR ''-'' # r \<Rightarrow>
          if all_digits r \<and> digits_val r \<le> 2 ^ 63 then Some (- int (digits_val r)) else None
      | CHR ''+'' # r \<Rightarrow>
          if all_digits r \<and> digits_val r < 2 ^ 63 then Some (int (digits_val r)) else None
      | _ \<Rightarrow> if all_digits s \<and> digits_val s < 2 ^ 63 then Some (int (digits_val s)) else None)"

lemma digits_val_snoc: "digits_val (s @ [c]) = 10 * digits_val s + digit_val c"
  by (simp add: digits_val_def)

lemma show_nat_digits: "all_digits (show_nat n)"
proof (induction n rule: show_nat.induct)
  case (1 n)
  then show ?case
    by (subst show_nat.simps) (auto simp: all_digits_def digit_char_inverse)
qed

lemma digits_val_show_nat: "digits_val (show_nat n) = n"
proof (induction n rule: show_nat.induct)
  case (1 n)
  show ?case
  proof (cases "n < 10")
    case True
    then show ?thesis
      by (subst show_nat.simps) (simp add: digits_val_def digit_char_inverse)
  next
    case False
    with 1 show ?thesis
      by (subst show_nat.simps) (simp add: digits_val_snoc digit_char_inverse)
  qed
qed

lemma show_nat_inject [simp]: "show_nat m = show_nat n \<longleftrightarrow> m = n"
  by (metis digits_val_show_nat)

lemma show_nat_chars: "c \<in> set (show_nat n) \<Longrightarrow> is_digit c"
  using show_nat_digits [of n] by (auto simp: all_digits_def list_all_iff)

lemma show_nat_not_Nil [simp]: "show_nat n \<noteq> []"
  using show_nat_digits [of n] by (simp add: all_digits_def)

lemma parse_unsigned_show: "n < b \<Longrightarrow> parse_unsigned b (show_nat n) = Some n"
proof -
  assume "n < b"
  have "(case show_nat n of CHR ''+'' # r \<Rightarrow> r | _ \<Rightarrow> show_nat n) = show_nat n"
  proof (cases "show_nat n")
    case (Cons c r)
    then have "is_digit c" using show_nat_chars [of c n] by simp
    then have "c \<noteq> CHR ''+''" by (auto simp: is_digit_def)
    with Cons show ?thesis by (auto split: char.splits bool.splits)
  qed simp
  then show ?thesis
    using \<open>n < b\<close> by (simp add: parse_unsigned_def Let_def show_nat_digits digits_val_show_nat)
qed

lemma show_nat_Cons: "\<exists>c r. show_nat n = c # r \<and> is_digit c"
  using show_nat_chars [of _ n] by (cases "show_nat n") auto

lemma parse_i64_show: "n < 2 ^ 63 \<Longrightarrow> parse_i64 (show_nat n) = Some (int n)"
proof -
  assume n: "n < 2 ^ 63"
  obtain c r where c: "show_nat n = c # r" "is_digit c" using show_nat_Cons by blast
  then have "c \<noteq> CHR ''-''" "c \<noteq> CHR ''+''" by (auto simp: is_digit_def)
  with c(1) have "parse_i64 (show_nat n) =
      (if all_digits (show_nat n) \<and> digits_val (show_nat n) < 2 ^ 63
       then Some (int (digits_val (show_nat n))) else None)"
    by (auto simp: parse_i64_def split: char.splits bool.splits)
  with n show ?thesis by (simp add: show_nat_digits digits_val_show_nat)
qed

text \<open>\<open>str::strip_prefix\<close>, \<open>strip_suffix\<close>, \<open>split_once\<close>, \<open>rsplit_once\<close>, \<open>find\<close> and \<open>join\<close>.\<close>

definition strip_prefix :: "'a list \<Rightarrow> 'a list \<Rightarrow> 'a list option" where
  "strip_prefix p s = (if prefix p s then Some (drop (length p) s) else None)"

definition strip_suffix :: "'a list \<Rightarrow> 'a list \<Rightarrow> 'a list option" where
  "strip_suffix p s = (if suffix p s then Some (take (length s - length p) s) else None)"

lemma strip_prefix_Some: "strip_prefix p s = Some r \<longleftrightarrow> s = p @ r"
  by (auto simp: strip_prefix_def prefix_def)

lemma strip_suffix_Some: "strip_suffix p s = Some r \<longleftrightarrow> s = r @ p"
  by (auto simp: strip_suffix_def suffix_def)

definition split_at :: "'a \<Rightarrow> 'a list \<Rightarrow> ('a list \<times> 'a list) option" where
  "split_at c s =
     (if c \<in> set s then Some (takeWhile (\<lambda>x. x \<noteq> c) s, tl (dropWhile (\<lambda>x. x \<noteq> c) s)) else None)"

definition rsplit_at :: "'a \<Rightarrow> 'a list \<Rightarrow> ('a list \<times> 'a list) option" where
  "rsplit_at c s = map_option (\<lambda>(a, b). (rev b, rev a)) (split_at c (rev s))"

lemma split_at_Some: "split_at c s = Some (a, b) \<longleftrightarrow> s = a @ c # b \<and> c \<notin> set a"
proof
  assume "split_at c s = Some (a, b)"
  then have c: "c \<in> set s" and a: "a = takeWhile (\<lambda>x. x \<noteq> c) s"
    and b: "b = tl (dropWhile (\<lambda>x. x \<noteq> c) s)"
    by (auto simp: split_at_def split: if_splits)
  from c have ne: "dropWhile (\<lambda>x. x \<noteq> c) s \<noteq> []" by simp
  with hd_dropWhile [OF ne] have "dropWhile (\<lambda>x. x \<noteq> c) s = c # b"
    using b by (cases "dropWhile (\<lambda>x. x \<noteq> c) s") auto
  with a have "s = a @ c # b" by (metis takeWhile_dropWhile_id)
  moreover have "c \<notin> set a" using a set_takeWhileD by fastforce
  ultimately show "s = a @ c # b \<and> c \<notin> set a" ..
next
  assume "s = a @ c # b \<and> c \<notin> set a"
  then show "split_at c s = Some (a, b)"
    by (auto simp: split_at_def takeWhile_append dropWhile_append)
qed

lemma split_at_first [simp]: "c \<notin> set a \<Longrightarrow> split_at c (a @ c # b) = Some (a, b)"
  by (simp add: split_at_Some)

lemma split_at_None: "split_at c s = None \<longleftrightarrow> c \<notin> set s"
  by (auto simp: split_at_def)

lemma rsplit_at_Some: "rsplit_at c s = Some (a, b) \<longleftrightarrow> s = a @ c # b \<and> c \<notin> set b"
proof -
  have "rsplit_at c s = Some (a, b) \<longleftrightarrow> split_at c (rev s) = Some (rev b, rev a)"
    by (auto simp: rsplit_at_def)
  also have "\<dots> \<longleftrightarrow> rev s = rev b @ c # rev a \<and> c \<notin> set b"
    by (simp add: split_at_Some)
  also have "rev s = rev b @ c # rev a \<longleftrightarrow> s = a @ c # b"
  proof -
    have "rev b @ c # rev a = rev (a @ c # b)" by simp
    then show ?thesis by (metis rev_rev_ident)
  qed
  finally show ?thesis .
qed

lemma rsplit_at_None: "rsplit_at c s = None \<longleftrightarrow> c \<notin> set s"
  by (simp add: rsplit_at_def split_at_None)

text \<open>Splitting at the first occurrence of a non-empty pattern, and global replacement
  (\<open>str::replace\<close>), both scanning from the left.\<close>

fun split_on :: "'a list \<Rightarrow> 'a list \<Rightarrow> ('a list \<times> 'a list) option" where
  "split_on p [] = (if p = [] then Some ([], []) else None)"
| "split_on p (c # s) =
     (if prefix p (c # s) then Some ([], drop (length p) (c # s))
      else map_option (\<lambda>(a, b). (c # a, b)) (split_on p s))"

lemma split_on_append: "split_on p s = Some (a, b) \<Longrightarrow> s = a @ p @ b"
proof (induction s arbitrary: a)
  case Nil
  then show ?case by (simp split: if_splits)
next
  case (Cons c s)
  show ?case
  proof (cases "prefix p (c # s)")
    case True
    with Cons.prems show ?thesis by (auto simp: prefix_def)
  next
    case False
    with Cons show ?thesis by auto
  qed
qed

lemma split_on_None: "split_on p s = None \<longleftrightarrow> \<not> sublist p s"
  by (induction s) (auto simp: sublist_Cons_right prefix_def)

function replace_all :: "'a list \<Rightarrow> 'a list \<Rightarrow> 'a list \<Rightarrow> 'a list" where
  "replace_all p q [] = []"
| "replace_all p q (c # s) =
     (if p \<noteq> [] \<and> prefix p (c # s) then q @ replace_all p q (drop (length p) (c # s))
      else c # replace_all p q s)"
  by pat_completeness auto
termination
  by (relation "measure (\<lambda>(p, q, s). length s)") (auto simp: neq_Nil_conv)

fun join :: "'a list \<Rightarrow> 'a list list \<Rightarrow> 'a list" where
  "join sep [] = []"
| "join sep [x] = x"
| "join sep (x # y # zs) = x @ sep @ join sep (y # zs)"

text \<open>\<open>str::trim\<close>: the characters of Unicode's \<open>White_Space\<close> property, as UTF-8.\<close>

definition whitespace :: "string list" where
  "whitespace =
     map (\<lambda>n. [char_of (n :: nat)]) [9, 10, 11, 12, 13, 32] @
     map (map char_of)
       ([[194, 133], [194, 160], [225, 154, 128], [226, 128, 168], [226, 128, 169],
         [226, 128, 175], [226, 129, 159], [227, 128, 128 :: nat]] @
        map (\<lambda>n. [226, 128, 128 + n]) [0..<11])"

lemma whitespace_nonempty: "w \<in> set whitespace \<Longrightarrow> w \<noteq> []"
  by (auto simp: whitespace_def)

function trim_start :: "string \<Rightarrow> string" where
  "trim_start s = (case find (\<lambda>w. prefix w s) whitespace of
     Some w \<Rightarrow> trim_start (drop (length w) s) | None \<Rightarrow> s)"
  by pat_completeness auto
termination
proof (relation "measure length")
  fix s w assume "find (\<lambda>w. prefix w s) whitespace = Some w"
  then have "prefix w s" "w \<noteq> []"
    using whitespace_nonempty by (auto simp: find_Some_iff)
  then show "(drop (length w) s, s) \<in> measure length"
    by (auto simp: prefix_def)
qed simp

declare trim_start.simps [simp del]

text \<open>The same from the end, on the reversed text.\<close>

function trim_rev :: "string \<Rightarrow> string" where
  "trim_rev s = (case find (\<lambda>w. prefix (rev w) s) whitespace of
     Some w \<Rightarrow> trim_rev (drop (length w) s) | None \<Rightarrow> s)"
  by pat_completeness auto
termination
proof (relation "measure length")
  fix s w assume "find (\<lambda>w. prefix (rev w) s) whitespace = Some w"
  then have "prefix (rev w) s" "w \<noteq> []"
    using whitespace_nonempty by (auto simp: find_Some_iff)
  then show "(drop (length w) s, s) \<in> measure length"
    by (auto simp: prefix_def)
qed simp

declare trim_rev.simps [simp del]

definition trim :: "string \<Rightarrow> string" where
  "trim s = rev (trim_rev (rev (trim_start s)))"

lemma hd_whitespace:
  assumes "w \<in> set whitespace" and "c \<in> set w"
  shows "byte_val c \<le> 32 \<or> 128 \<le> byte_val c"
  using assms by (auto simp: whitespace_def)

lemma trim_printable:
  assumes "list_all (\<lambda>c. 32 < byte_val c \<and> byte_val c < 128) s"
  shows "trim s = s"
proof -
  have no: "\<not> prefix v t" if "set v \<subseteq> set w" "v \<noteq> []" "w \<in> set whitespace" "set t \<subseteq> set s" for v w t
  proof
    assume "prefix v t"
    with that obtain c where "c \<in> set w" "c \<in> set s" by (cases v) (auto simp: prefix_def)
    then show False using hd_whitespace [OF that(3)] assms by (fastforce simp: list_all_iff)
  qed
  have "trim_start s = s"
    using no [of w w s for w] whitespace_nonempty
    by (subst trim_start.simps) (auto split: option.splits simp: find_Some_iff)
  moreover have "trim_rev (rev s) = rev s"
    using no [of "rev w" w "rev s" for w] whitespace_nonempty
    by (subst trim_rev.simps) (auto split: option.splits simp: find_Some_iff)
  ultimately show ?thesis by (simp add: trim_def)
qed

definition opt_list :: "'a option \<Rightarrow> 'a list" where
  "opt_list v = (case v of None \<Rightarrow> [] | Some x \<Rightarrow> [x])"

text \<open>\<open>u64::saturating_add\<close>.\<close>

definition saturating_add64 :: "u64 \<Rightarrow> u64 \<Rightarrow> u64" where
  "saturating_add64 a b = (if unat a + unat b < 2 ^ 64 then a + b else - 1)"

lemma unat_saturating_add64: "unat (saturating_add64 a b) = min (unat a + unat b) (2 ^ 64 - 1)"
proof (cases "unat a + unat b < 2 ^ 64")
  case True
  then show ?thesis
    by (simp add: saturating_add64_def unat_word_ariths)
next
  case False
  moreover have "unat (- 1 :: u64) = 2 ^ 64 - 1"
    by (simp add: unsigned_minus_1_eq_mask mask_eq_exp_minus_1)
  ultimately show ?thesis
    by (simp add: saturating_add64_def)
qed

end
