(* ===== verification/Json.thy ===== *)
theory Json
  imports Prelude "HOL-Library.Countable"
begin

text \<open>
  \<open>serde_json::Value\<close>. Numbers keep the three representations of \<open>serde_json::Number\<close>:
  a non-negative integer is a \<open>u64\<close>, a negative one an \<open>i64\<close>, anything else an IEEE double (its
  64 bits). An object is a \<open>BTreeMap\<close>: a finite map from keys to values, listed in key order.

  The parser and printer of JSON text are library code: \<open>json_lib\<close> collects them as parameters,
  and \<open>json_laws\<close> states what the crates rely on.
\<close>

datatype json =
    JNull
  | JBool bool
  | JU64 u64
  | JI64 "64 word"
  | JFloat "64 word"
  | JString string
  | JArray "json list"
  | JObject "(string, json) fmap"

type_synonym jmap = "(string, json) fmap"

text \<open>\<open>Map::insert\<close> is \<open>fmupd\<close>, \<open>Map::new\<close> is \<open>fmempty\<close>; \<open>keys()\<close> iterates in order.\<close>

definition jkeys :: "jmap \<Rightarrow> string list" where
  "jkeys m = sorted_list_of_fset (fmdom m)"

lemma set_jkeys [simp]: "set (jkeys m) = fset (fmdom m)"
  by (simp add: jkeys_def)

lemma sorted_jkeys: "sorted (jkeys m)"
  by (simp add: jkeys_def sorted_list_of_fset.rep_eq)

lemma distinct_jkeys: "distinct (jkeys m)"
  by (simp add: jkeys_def sorted_list_of_fset.rep_eq)

definition jobj :: "(string \<times> json) list \<Rightarrow> json" where
  "jobj kvs = JObject (fmap_of_list (rev kvs))"

text \<open>\<open>Value::get\<close>, \<open>as_str\<close>, \<open>as_u64\<close>, \<open>as_object\<close>, \<open>as_array\<close>, \<open>as_bool\<close>.\<close>

fun jget :: "json \<Rightarrow> string \<Rightarrow> json option" where
  "jget (JObject m) k = fmlookup m k"
| "jget _ _ = None"

fun as_str :: "json \<Rightarrow> string option" where
  "as_str (JString s) = Some s"
| "as_str _ = None"

fun as_u64 :: "json \<Rightarrow> u64 option" where
  "as_u64 (JU64 n) = Some n"
| "as_u64 _ = None"

fun as_array :: "json \<Rightarrow> json list option" where
  "as_array (JArray xs) = Some xs"
| "as_array _ = None"

fun as_object :: "json \<Rightarrow> jmap option" where
  "as_object (JObject m) = Some m"
| "as_object _ = None"

lemma jget_Some_iff: "jget v k = Some x \<longleftrightarrow> (\<exists>m. v = JObject m \<and> fmlookup m k = Some x)"
  by (cases v) auto

lemma as_str_Some_iff [simp]: "as_str v = Some s \<longleftrightarrow> v = JString s"
  by (cases v) auto

lemma as_u64_Some_iff [simp]: "as_u64 v = Some n \<longleftrightarrow> v = JU64 n"
  by (cases v) auto

section \<open>The JSON text library\<close>

record json_lib =
  json_to_string :: "json \<Rightarrow> string"
  json_from_str :: "string \<Rightarrow> string + json"

text \<open>
  What \<open>serde_json\<close> documents: the printer emits compact one-line UTF-8 text at any depth, control characters escaped; the
  parser refuses more than 127 nested arrays and objects, and otherwise reads back what the
  printer wrote. Only floating-point numbers may come back different (the default parser is not
  exact on them), so the law speaks of the fields of an object that hold a string, a flag or an
  unsigned integer, which are the only ones the crates read back.
\<close>

fun exact_field :: "json \<Rightarrow> bool" where
  "exact_field (JString s) = utf8_ok s"
| "exact_field (JU64 _) = True"
| "exact_field (JBool _) = True"
| "exact_field _ = False"

primrec json_depth :: "json \<Rightarrow> nat" where
  "json_depth JNull = 0"
| "json_depth (JBool b) = 0"
| "json_depth (JU64 n) = 0"
| "json_depth (JI64 n) = 0"
| "json_depth (JFloat n) = 0"
| "json_depth (JString s) = 0"
| "json_depth (JArray xs) = Suc (Max (insert 0 (set (map json_depth xs))))"
| "json_depth (JObject m) = Suc (Max (insert 0 (fmran' (fmmap json_depth m))))"

definition json_laws :: "json_lib \<Rightarrow> bool" where
  "json_laws L \<longleftrightarrow>
     (\<forall>o1. json_depth (JObject o1) \<le> 127 \<longrightarrow>
        (\<exists>o2. json_from_str L (json_to_string L (JObject o1)) = Inr (JObject o2) \<and>
           (\<forall>k v. fmlookup o1 k = Some v \<and> exact_field v \<longrightarrow> fmlookup o2 k = Some v))) \<and>
     (\<forall>v. 127 < json_depth v \<longrightarrow> (\<exists>e. json_from_str L (json_to_string L v) = Inl e)) \<and>
     (\<forall>v. CHR 0x0A \<notin> set (json_to_string L v)) \<and>
     (\<forall>v. utf8_ok (json_to_string L v)) \<and>
     (\<forall>v. json_to_string L v \<noteq> [] \<and> CHR 0x0D \<notin> set (json_to_string L v))"

lemma json_lawsD:
  assumes "json_laws L"
  shows "json_depth (JObject o1) \<le> 127 \<Longrightarrow>
      \<exists>o2. json_from_str L (json_to_string L (JObject o1)) = Inr (JObject o2) \<and>
           (\<forall>k v. fmlookup o1 k = Some v \<and> exact_field v \<longrightarrow> fmlookup o2 k = Some v)"
    and "127 < json_depth v \<Longrightarrow> \<exists>e. json_from_str L (json_to_string L v) = Inl e"
    and "CHR 0x0A \<notin> set (json_to_string L v)"
    and "utf8_ok (json_to_string L v)"
    and "json_to_string L v \<noteq> []" and "CHR 0x0D \<notin> set (json_to_string L v)"
  using assms unfolding json_laws_def by auto

lemma finite_fmran' [simp]: "finite (fmran' m)"
  by (simp add: fmran'_alt_def)

lemma fmran'_fmmap [simp]: "fmran' (fmmap f m) = f ` fmran' m"
  by (auto simp: fmran'_def)

lemma fmran'_empty [simp]: "fmran' fmempty = {}"
  by (auto simp: fmran'_def)

lemma json_depth_field: "fmlookup m k = Some v \<Longrightarrow> json_depth v < json_depth (JObject m)"
  by (auto simp: less_Suc_eq_le intro!: Max_ge intro: fmran'I)

lemma json_depth_add_ge: "json_depth (JObject n) \<le> json_depth (JObject (m ++\<^sub>f n))"
proof -
  have "fmran' n \<subseteq> fmran' (m ++\<^sub>f n)"
  proof
    fix x assume "x \<in> fmran' n"
    then obtain k where "fmlookup n k = Some x" by (rule fmran'E)
    then have "fmlookup (m ++\<^sub>f n) k = Some x" by (simp add: fmdomI)
    then show "x \<in> fmran' (m ++\<^sub>f n)" by (rule fmran'I)
  qed
  then show ?thesis
    by (simp del: fmmap_add) (auto intro!: Max_ge)
qed

lemma json_depth_nest: "json_depth (((\<lambda>v. JArray [v]) ^^ n) JNull) = n"
  by (induction n) auto

lemma json_depth_object_le:
  "(\<And>k v. fmlookup m k = Some v \<Longrightarrow> json_depth v \<le> n) \<Longrightarrow> json_depth (JObject m) \<le> Suc n"
  by (auto elim!: fmran'E)

text \<open>A concrete library that satisfies the laws, for evaluation on examples: values are
  enumerated, and the text of a value is its number in unary.\<close>

instance json :: countable
  by countable_datatype

definition json_unary :: json_lib where
  "json_unary = \<lparr> json_to_string = (\<lambda>v. replicate (Suc (to_nat v)) CHR ''x''),
                  json_from_str = (\<lambda>s. let v = from_nat (length s - 1) in
                     if s = [] then Inl ''EOF while parsing a value'' else if json_depth v \<le> 127 then Inr v else Inl ''recursion limit exceeded'') \<rparr>"

lemma json_unary_laws: "json_laws json_unary"
proof -
  have "utf8_ok (replicate n CHR ''x'')" for n
    by (rule ascii_set_utf8) (simp add: is_ascii_char_def)
  then show ?thesis
    by (simp add: json_laws_def json_unary_def del: json_depth.simps replicate_Suc)
qed

end
