(* ===== verification/Libs.thy ===== *)
theory Libs
  imports Json
begin

text \<open>
  The third-party crates behind the core: \<open>serde_json\<close>, \<open>sha2\<close>, \<open>hex\<close>, \<open>chrono\<close>, \<open>hmac\<close>. Their
  code is not part of the repository, so they are the fields of a record that every operation
  using them takes as an argument, and the properties name the documented laws they rest on.

  An instant (\<open>DateTime<Utc>\<close>) is its number of nanoseconds since the Unix epoch.
\<close>

type_synonym time = int

record libs = json_lib +
  sha256 :: "bytes \<Rightarrow> bytes"
  hex_encode :: "bytes \<Rightarrow> string"
  hex_decode :: "string \<Rightarrow> bytes option"
  rfc3339_nanos :: "time \<Rightarrow> string"
  parse_datetime :: "string \<Rightarrow> time option"
  rfc3339 :: "time \<Rightarrow> string"
  duration_of_secs :: "int \<Rightarrow> time option"
  duration_add :: "time \<Rightarrow> time \<Rightarrow> time option"
  hmac_sha256 :: "bytes \<Rightarrow> bytes \<Rightarrow> bytes"
  str_debug :: "string \<Rightarrow> string"

definition hex_laws :: "'a libs_scheme \<Rightarrow> bool" where
  "hex_laws L \<longleftrightarrow> (\<forall>b. hex_decode L (hex_encode L b) = Some b \<and> utf8_ok (hex_encode L b))"

definition sha_laws :: "'a libs_scheme \<Rightarrow> bool" where
  "sha_laws L \<longleftrightarrow> (\<forall>b. length (sha256 L b) = 32)"

text \<open>Instants of the years 0 to 9999 have an RFC 3339 rendering that parses back.\<close>

definition time_in_range :: "time \<Rightarrow> bool" where
  "time_in_range t \<longleftrightarrow>
     - 62167219200 * 1000000000 \<le> t \<and> t < 253402300800 * 1000000000"

definition time_laws :: "'a libs_scheme \<Rightarrow> bool" where
  "time_laws L \<longleftrightarrow>
     (\<forall>t. time_in_range t \<longrightarrow> parse_datetime L (rfc3339_nanos L t) = Some t) \<and>
     (\<forall>t. utf8_ok (rfc3339_nanos L t))"

text \<open>\<open>chrono::Duration\<close> holds up to \<open>i64::MAX\<close> milliseconds: the constructors panic beyond that
  (\<open>None\<close>), \<open>checked_add\<close> reports it.\<close>

definition duration_max :: time where
  "duration_max = (2 ^ 63 - 1) * 1000000"

definition duration_laws :: "'a libs_scheme \<Rightarrow> bool" where
  "duration_laws L \<longleftrightarrow>
     (\<forall>n \<ge> 0. duration_of_secs L n =
        (if n * 1000000000 \<le> duration_max then Some (n * 1000000000) else None)) \<and>
     (\<forall>a \<ge> 0. \<forall>b \<ge> 0. duration_add L a b = (if a + b \<le> duration_max then Some (a + b) else None))"

definition lib_laws :: "'a libs_scheme \<Rightarrow> bool" where
  "lib_laws L \<longleftrightarrow> json_laws (json_lib.truncate L) \<and> hex_laws L \<and> sha_laws L \<and> time_laws L \<and>
     duration_laws L"

lemma hex_encode_inj: "hex_laws L \<Longrightarrow> hex_encode L a = hex_encode L b \<Longrightarrow> a = b"
  by (metis hex_laws_def option.inject)

lemma lib_laws_json:
  assumes "lib_laws L"
  shows "json_depth (JObject o1) \<le> 127 \<Longrightarrow>
      \<exists>o2. json_from_str L (json_to_string L (JObject o1)) = Inr (JObject o2) \<and>
           (\<forall>k v. fmlookup o1 k = Some v \<and> exact_field v \<longrightarrow> fmlookup o2 k = Some v)"
    and "127 < json_depth v \<Longrightarrow> \<exists>e. json_from_str L (json_to_string L v) = Inl e"
    and "CHR 0x0A \<notin> set (json_to_string L v)"
    and "utf8_ok (json_to_string L v)"
    and "json_to_string L v \<noteq> []" and "CHR 0x0D \<notin> set (json_to_string L v)"
  using json_lawsD [of "json_lib.truncate L"] assms
  by (simp_all add: lib_laws_def json_lib.defs del: json_depth.simps)

text \<open>
  A concrete instance of the libraries for evaluation on examples: the digest folds the bytes
  into 32 counters, hexadecimal digits are lower case, an instant is rendered in decimal with
  its sign.
\<close>

definition hex_digit :: "nat \<Rightarrow> char" where
  "hex_digit n = (if n < 10 then char_of (48 + n) else char_of (87 + n))"

definition hex_digit_val :: "char \<Rightarrow> nat" where
  "hex_digit_val c = (if byte_val c < 58 then byte_val c - 48 else byte_val c - 87)"

definition hex_encode0 :: "bytes \<Rightarrow> string" where
  "hex_encode0 b = concat (map (\<lambda>c. [hex_digit (byte_val c div 16), hex_digit (byte_val c mod 16)]) b)"

fun hex_decode0 :: "string \<Rightarrow> bytes option" where
  "hex_decode0 [] = Some []"
| "hex_decode0 [_] = None"
| "hex_decode0 (a # b # s) =
     map_option ((#) (char_of (16 * hex_digit_val a + hex_digit_val b))) (hex_decode0 s)"

lemma hex_digit_val_digit: "n < 16 \<Longrightarrow> hex_digit_val (hex_digit n) = n"
  by (simp add: hex_digit_val_def hex_digit_def)

lemma byte_val_less: "byte_val c < 256"
  by (rule nat_of_char_less_256)

lemma byte_val_div: "byte_val c div 16 < 16"
  using byte_val_less [of c] by (simp add: less_mult_imp_div_less)

lemma hex_decode0_encode0: "hex_decode0 (hex_encode0 b) = Some b"
proof (induction b)
  case (Cons c b)
  then show ?case
    by (simp add: hex_encode0_def hex_digit_val_digit byte_val_div)
qed (simp add: hex_encode0_def)

lemma hex_encode0_ascii: "utf8_ok (hex_encode0 b)"
proof (rule ascii_set_utf8)
  fix c assume "c \<in> set (hex_encode0 b)"
  then obtain n where "c = hex_digit n" "n < 16"
    using byte_val_div by (auto simp: hex_encode0_def)
  then show "is_ascii_char c"
    by (simp add: is_ascii_char_def hex_digit_def)
qed

definition sha0 :: "bytes \<Rightarrow> bytes" where
  "sha0 b = map (\<lambda>i. char_of (sum_list (map byte_val b) + length b + i)) [0..<32]"

definition time_text0 :: "time \<Rightarrow> string" where
  "time_text0 t = (if t < 0 then CHR ''-'' else CHR ''+'') # show_nat (nat \<bar>t\<bar>)"

definition time_parse0 :: "string \<Rightarrow> time option" where
  "time_parse0 s = (case s of c # r \<Rightarrow> Some (if c = CHR ''-'' then - int (digits_val r) else int (digits_val r))
                    | [] \<Rightarrow> None)"

definition libs0 :: libs where
  "libs0 = json_lib.extend json_unary
     (libs.fields sha0 hex_encode0 hex_decode0 time_text0 time_parse0 time_text0
       (\<lambda>n. if n * 1000000000 \<le> duration_max then Some (n * 1000000000) else None)
       (\<lambda>a b. if a + b \<le> duration_max then Some (a + b) else None)
       (\<lambda>k m. sha0 (k @ m)) (\<lambda>s. CHR 0x22 # s @ [CHR 0x22]))"

lemma libs0_simps [simp]:
  "json_to_string libs0 = json_to_string json_unary"
  "json_from_str libs0 = json_from_str json_unary"
  "sha256 libs0 = sha0" "hex_encode libs0 = hex_encode0" "hex_decode libs0 = hex_decode0"
  "rfc3339_nanos libs0 = time_text0" "parse_datetime libs0 = time_parse0"
  "rfc3339 libs0 = time_text0"
  "duration_of_secs libs0 =
     (\<lambda>n. if n * 1000000000 \<le> duration_max then Some (n * 1000000000) else None)"
  "duration_add libs0 = (\<lambda>a b. if a + b \<le> duration_max then Some (a + b) else None)"
  "str_debug libs0 = (\<lambda>s. CHR 0x22 # s @ [CHR 0x22])"
  "hmac_sha256 libs0 = (\<lambda>k m. sha0 (k @ m))"
  by (simp_all add: libs0_def libs.defs json_lib.defs)

lemma time_text0_utf8: "utf8_ok (time_text0 t)"
proof (rule ascii_set_utf8)
  fix c assume "c \<in> set (time_text0 t)"
  then show "is_ascii_char c"
    using show_nat_chars [of c "nat \<bar>t\<bar>"]
    by (auto simp: time_text0_def is_ascii_char_def is_digit_def split: if_splits)
qed

lemma libs0_laws: "lib_laws libs0"
proof -
  have "json_lib.truncate libs0 = json_unary"
    by (simp add: json_lib.defs)
  moreover have "sha_laws libs0" by (simp add: sha_laws_def sha0_def)
  moreover have "hex_laws libs0"
    by (simp add: hex_laws_def hex_decode0_encode0 hex_encode0_ascii)
  moreover have "time_laws libs0"
    by (simp add: time_laws_def time_text0_utf8)
       (simp add: time_text0_def time_parse0_def digits_val_show_nat)
  moreover have "duration_laws libs0" by (simp add: duration_laws_def)
  ultimately show ?thesis
    by (simp add: lib_laws_def json_unary_laws)
qed

end
