(* ===== verification/Ledger.thy ===== *)
theory Ledger
  imports Libs
begin

text \<open>
  The Trajectory Ledger writer, \<open>crates/ledger-writer/src/lib.rs\<close>: the entry data model, the
  buffered file under the writer, and the operations of \<open>LedgerWriter\<close>.

  \<open>w_log\<close> is a history variable that no operation reads: the entries whose append returned
  \<open>Ok\<close>, with the id each was given. \<open>chain_lines\<close> is the specification the writer refines.
\<close>

section \<open>Data\<close>

definition LEDGER_CONTEXT :: string where
  "LEDGER_CONTEXT = ''https://aegis-node.dev/schemas/ledger/v1''"

definition LEDGER_CONTEXT_V2 :: string where
  "LEDGER_CONTEXT_V2 = ''https://aegis-node.dev/schemas/ledger/v2''"

datatype LedgerSchemaVersion = V1 | V2

fun context_url :: "LedgerSchemaVersion \<Rightarrow> string" where
  "context_url V1 = LEDGER_CONTEXT"
| "context_url V2 = LEDGER_CONTEXT_V2"

definition GENESIS_PREV_HASH :: bytes where
  "GENESIS_PREV_HASH = replicate 32 (CHR 0x00)"

definition RESERVED_KEYS :: "string list" where
  "RESERVED_KEYS =
     [''@context'', ''entryId'', ''sessionId'', ''sequenceNumber'', ''entryType'', ''timestamp'',
      ''agentIdentityHash'', ''prevHash'']"

datatype EntryType =
    SessionStart | SessionEnd | ReasoningStep | Access
  | ApprovalRequest | ApprovalGranted | ApprovalRejected | ApprovalTimedOut
  | Violation | NetworkAttestation
  | TurnStart | TurnEnd | ToolCall | ToolResult | ApprovalDecision

text \<open>\<open>#[serde(rename_all = "snake_case")]\<close>.\<close>

fun entry_type_name :: "EntryType \<Rightarrow> string" where
  "entry_type_name SessionStart = ''session_start''"
| "entry_type_name SessionEnd = ''session_end''"
| "entry_type_name ReasoningStep = ''reasoning_step''"
| "entry_type_name Access = ''access''"
| "entry_type_name ApprovalRequest = ''approval_request''"
| "entry_type_name ApprovalGranted = ''approval_granted''"
| "entry_type_name ApprovalRejected = ''approval_rejected''"
| "entry_type_name ApprovalTimedOut = ''approval_timed_out''"
| "entry_type_name Violation = ''violation''"
| "entry_type_name NetworkAttestation = ''network_attestation''"
| "entry_type_name TurnStart = ''turn_start''"
| "entry_type_name TurnEnd = ''turn_end''"
| "entry_type_name ToolCall = ''tool_call''"
| "entry_type_name ToolResult = ''tool_result''"
| "entry_type_name ApprovalDecision = ''approval_decision''"

record entry =
  e_session_id :: string
  e_entry_type :: EntryType
  e_identity_hash :: bytes
  e_timestamp :: time
  e_payload :: jmap

record entry_record =
  r_entry_id :: string
  r_sequence_number :: u64
  r_entry_hash :: bytes

datatype ledger_error =
    LIo
  | LSessionIdMismatch string string
  | LPayloadKeyConflict string

section \<open>The file under the writer\<close>

text \<open>
  \<open>BufWriter<File>\<close>: \<open>b_disk\<close> is what the file holds, \<open>b_buf\<close> what is still in the buffer. The
  environment decides each call's outcome: how many of the bytes on the way reach the file, and
  whether the call succeeds. On an error the buffer keeps the bytes that did not reach the file;
  bytes of the failing call itself that were not taken over are lost.
\<close>

record bufwriter =
  b_disk :: bytes
  b_buf :: bytes
  b_calls :: nat
  b_outcome :: "nat \<Rightarrow> nat \<times> bool"

definition write_all :: "bytes \<Rightarrow> (bufwriter, ledger_error, unit) act" where
  "write_all bs = (\<lambda>b.
     let (k, ok) = b_outcome b (b_calls b);
         all = b_buf b @ bs;
         kept = (if ok then drop k all else drop k (b_buf b)) in
     (if ok then Inr () else Inl LIo,
      b\<lparr> b_disk := b_disk b @ take k all, b_buf := kept, b_calls := Suc (b_calls b) \<rparr>))"

definition flush :: "(bufwriter, ledger_error, unit) act" where
  "flush = (\<lambda>b.
     let (k, ok) = b_outcome b (b_calls b);
         n = (if ok then length (b_buf b) else k) in
     (if ok then Inr () else Inl LIo,
      b\<lparr> b_disk := b_disk b @ take n (b_buf b), b_buf := drop n (b_buf b),
         b_calls := Suc (b_calls b) \<rparr>))"

definition sync_all :: "(bufwriter, ledger_error, unit) act" where
  "sync_all = (\<lambda>b. (if snd (b_outcome b (b_calls b)) then Inr () else Inl LIo,
                    b\<lparr> b_calls := Suc (b_calls b) \<rparr>))"

lemma write_all_ok:
  "write_all bs b = (Inr x, b') \<Longrightarrow>
     b_disk b' @ b_buf b' = b_disk b @ b_buf b @ bs \<and> b_outcome b' = b_outcome b"
  by (auto simp: write_all_def Let_def split: prod.splits if_splits simp flip: take_append drop_append)

lemma flush_ok:
  "flush b = (Inr x, b') \<Longrightarrow>
     b_disk b' = b_disk b @ b_buf b \<and> b_buf b' = [] \<and> b_outcome b' = b_outcome b"
  by (auto simp: flush_def Let_def split: prod.splits if_splits)

lemma sync_all_ok:
  "sync_all b = (Inr x, b') \<Longrightarrow>
     b_disk b' = b_disk b \<and> b_buf b' = b_buf b \<and> b_outcome b' = b_outcome b"
  by (auto simp: sync_all_def Let_def split: prod.splits if_splits)

section \<open>The writer\<close>

record writer =
  w_file :: bufwriter
  w_session_id :: string
  w_next_sequence :: u64
  w_prev_hash :: bytes
  w_uuid_next :: nat
  w_uuid_generator :: "nat \<Rightarrow> string"
  w_schema_version :: LedgerSchemaVersion
  w_log :: "(string \<times> entry) list"

text \<open>\<open>create_with_uuid_generator\<close>: \<open>create_new(true)\<close> fails when the path exists.\<close>

definition create_with_uuid_generator ::
  "bool \<Rightarrow> (nat \<Rightarrow> nat \<times> bool) \<Rightarrow> string \<Rightarrow> (nat \<Rightarrow> string) \<Rightarrow> LedgerSchemaVersion
     \<Rightarrow> ledger_error + writer" where
  "create_with_uuid_generator path_exists io sid gen ver =
     (if path_exists then Inl LIo
      else Inr \<lparr> w_file = \<lparr> b_disk = [], b_buf = [], b_calls = 0, b_outcome = io \<rparr>,
                 w_session_id = sid, w_next_sequence = 0, w_prev_hash = GENESIS_PREV_HASH,
                 w_uuid_next = 0, w_uuid_generator = gen, w_schema_version = ver, w_log = [] \<rparr>)"

definition create_ledger where
  "create_ledger path_exists io sid now_v7 = create_with_uuid_generator path_exists io sid now_v7 V1"

definition create_with_version where
  "create_with_version path_exists io sid now_v7 ver =
     create_with_uuid_generator path_exists io sid now_v7 ver"

text \<open>The object the writer builds: the chain fields, then the payload on top.\<close>

definition base_obj :: "'a libs_scheme \<Rightarrow> LedgerSchemaVersion \<Rightarrow> string \<Rightarrow> u64 \<Rightarrow> bytes \<Rightarrow> string
     \<Rightarrow> entry \<Rightarrow> jmap" where
  "base_obj L ver sid n prev uid e = fmap_of_list
     [(''@context'', JString (context_url ver)),
      (''entryId'', JString uid),
      (''sessionId'', JString sid),
      (''sequenceNumber'', JU64 n),
      (''entryType'', JString (entry_type_name (e_entry_type e))),
      (''timestamp'', JString (rfc3339_nanos L (e_timestamp e))),
      (''agentIdentityHash'', JString (hex_encode L (e_identity_hash e))),
      (''prevHash'', JString (hex_encode L prev))]"

definition entry_line :: "'a libs_scheme \<Rightarrow> LedgerSchemaVersion \<Rightarrow> string \<Rightarrow> u64 \<Rightarrow> bytes \<Rightarrow> string
     \<Rightarrow> entry \<Rightarrow> string" where
  "entry_line L ver sid n prev uid e =
     json_to_string L (JObject (base_obj L ver sid n prev uid e ++\<^sub>f e_payload e))"

abbreviation on_file :: "(bufwriter, 'e, 'a) act \<Rightarrow> (writer, 'e, 'a) act" where
  "on_file \<equiv> zoomA w_file (\<lambda>b w. w\<lparr> w_file := b \<rparr>)"

definition next_uuid :: "(writer, 'e, string) act" where
  "next_uuid = (\<lambda>w. (Inr (w_uuid_generator w (w_uuid_next w)), w\<lparr> w_uuid_next := Suc (w_uuid_next w) \<rparr>))"

text \<open>The four calls that put a line on disk: the line, its newline, a flush and an fsync.\<close>

definition persist_line :: "bytes \<Rightarrow> (bufwriter, ledger_error, unit) act" where
  "persist_line line =
     bindA (write_all line) (\<lambda>_.
     bindA (write_all [CHR 0x0A]) (\<lambda>_.
     bindA flush (\<lambda>_. sync_all)))"

text \<open>\<open>LedgerWriter::append\<close>. \<open>sequence + 1\<close> wraps in a release build.\<close>

definition append_entry :: "'a libs_scheme \<Rightarrow> entry \<Rightarrow> (writer, ledger_error, entry_record) act" where
  "append_entry L e =
     bindA (getA (\<lambda>w. w)) (\<lambda>w0.
     if e_session_id e \<noteq> w_session_id w0 then
       errA (LSessionIdMismatch (w_session_id w0) (e_session_id e))
     else case find (\<lambda>k. k \<in> set RESERVED_KEYS) (jkeys (e_payload e)) of
       Some k \<Rightarrow> errA (LPayloadKeyConflict k)
     | None \<Rightarrow>
         bindA next_uuid (\<lambda>uid.
         let n = w_next_sequence w0;
             line = entry_line L (w_schema_version w0) (w_session_id w0) n (w_prev_hash w0) uid e in
         bindA (on_file (persist_line line)) (\<lambda>_.
         bindA (modA (\<lambda>w. w\<lparr> w_prev_hash := sha256 L line, w_next_sequence := n + 1,
                              w_log := w_log w @ [(uid, e)] \<rparr>)) (\<lambda>_.
         okA \<lparr> r_entry_id = uid, r_sequence_number = n, r_entry_hash = sha256 L line \<rparr>))))"

definition close_ledger :: "(writer, ledger_error, bytes) act" where
  "close_ledger =
     bindA (on_file flush) (\<lambda>_. bindA (on_file sync_all) (\<lambda>_. getA w_prev_hash))"

definition current_head :: "writer \<Rightarrow> bytes" where
  "current_head w = w_prev_hash w"

definition entry_count :: "writer \<Rightarrow> u64" where
  "entry_count w = w_next_sequence w"

section \<open>The interface clients rely on\<close>

text \<open>
  What an appender promises: a successful call adds exactly its entry at the end of the log, a
  failed one adds nothing. The lemmas of the locale are what the emitters and the mediator use.
\<close>

locale append_log =
  fixes append :: "'x \<Rightarrow> ('s, 'err, 'r) act"
    and log :: "'s \<Rightarrow> 'x list"
  assumes append_adds: "append x s = (Inr r, s') \<Longrightarrow> log s' = log s @ [x]"
    and append_fails: "append x s = (Inl e, s') \<Longrightarrow> log s' = log s"
begin

definition grows :: "'s \<Rightarrow> 's \<Rightarrow> bool" where
  "grows s s' \<longleftrightarrow> prefix (log s) (log s')"

lemma append_moves: "moves grows (append x)"
  by (rule movesI) (metis append_adds append_fails grows_def old.sum.exhaust prefix_order.refl prefix_def)

fun append_all :: "'x list \<Rightarrow> ('s, 'err, unit) act" where
  "append_all [] = okA ()"
| "append_all (x # xs) = bindA (append x) (\<lambda>_. append_all xs)"

lemma append_all_log:
  "append_all xs s = (r, s') \<Longrightarrow>
     \<exists>n \<le> length xs. log s' = log s @ take n xs \<and> (isl r \<longleftrightarrow> n < length xs)"
proof (induction xs arbitrary: s)
  case Nil
  then show ?case by (auto simp: okA_def)
next
  case (Cons x xs)
  obtain r1 s1 where 1: "append x s = (r1, s1)" by fastforce
  show ?case
  proof (cases r1)
    case (Inl e)
    then have "r = Inl e" "s' = s1" using 1 Cons.prems by (simp_all add: bindA_err)
    then show ?thesis using append_fails 1 Inl by (intro exI [of _ 0]) auto
  next
    case (Inr y)
    then have l: "log s1 = log s @ [x]" using append_adds 1 by blast
    from Inr 1 Cons.prems have "append_all xs s1 = (r, s')" by (simp add: bindA_ok)
    from Cons.IH [OF this] obtain n where "n \<le> length xs" "log s' = log s1 @ take n xs"
      "isl r \<longleftrightarrow> n < length xs" by blast
    then show ?thesis using l by (intro exI [of _ "Suc n"]) auto
  qed
qed

end

sublocale append_log \<subseteq> step_order grows
  by unfold_locales (auto simp: grows_def)

section \<open>The chain the writer refines\<close>

text \<open>\<open>chain_lines L ver sid n prev es\<close> are the lines of the entries \<open>es\<close>, numbered from \<open>n\<close>, each
  carrying the digest of the line before it; \<open>chain_head\<close> is the digest of the last one.\<close>

fun chain_lines :: "'a libs_scheme \<Rightarrow> LedgerSchemaVersion \<Rightarrow> string \<Rightarrow> u64 \<Rightarrow> bytes
    \<Rightarrow> (string \<times> entry) list \<Rightarrow> string list" where
  "chain_lines L ver sid n prev [] = []"
| "chain_lines L ver sid n prev ((uid, e) # es) =
     (let l = entry_line L ver sid n prev uid e in
      l # chain_lines L ver sid (n + 1) (sha256 L l) es)"

definition chain_head :: "'a libs_scheme \<Rightarrow> bytes \<Rightarrow> string list \<Rightarrow> bytes" where
  "chain_head L prev ls = (if ls = [] then prev else sha256 L (last ls))"

definition render_lines :: "string list \<Rightarrow> bytes" where
  "render_lines ls = concat (map (\<lambda>l. l @ [CHR 0x0A]) ls)"

lemma length_chain_lines [simp]: "length (chain_lines L ver sid n prev es) = length es"
  by (induction L ver sid n prev es rule: chain_lines.induct) (auto simp: Let_def)

lemma chain_head_Cons: "chain_head L prev (l # ls) = chain_head L (sha256 L l) ls"
  by (simp add: chain_head_def)

lemma chain_head_snoc [simp]: "chain_head L prev (ls @ [l]) = sha256 L l"
  by (simp add: chain_head_def)

lemma chain_lines_snoc:
  "chain_lines L ver sid n prev (es @ [(uid, e)]) =
     (let ls = chain_lines L ver sid n prev es in
      ls @ [entry_line L ver sid (n + of_nat (length es)) (chain_head L prev ls) uid e])"
proof (induction es arbitrary: n prev)
  case Nil
  then show ?case by (simp add: chain_head_def Let_def)
next
  case (Cons a es)
  obtain u x where a: "a = (u, x)" by fastforce
  have "n + 1 + of_nat (length es) = n + of_nat (length (a # es))" by simp
  then show ?case
    unfolding a append_Cons chain_lines.simps Let_def Cons.IH chain_head_Cons by metis
qed

lemma render_lines_snoc: "render_lines (ls @ [l]) = render_lines ls @ l @ [CHR 0x0A]"
  by (simp add: render_lines_def)

abbreviation writer_lines :: "'a libs_scheme \<Rightarrow> writer \<Rightarrow> string list" where
  "writer_lines L w \<equiv>
     chain_lines L (w_schema_version w) (w_session_id w) 0 GENESIS_PREV_HASH (w_log w)"

definition entry_valid :: "string \<Rightarrow> entry \<Rightarrow> bool" where
  "entry_valid sid e \<longleftrightarrow> e_session_id e = sid \<and>
     (\<forall>k \<in> set RESERVED_KEYS. k |\<notin>| fmdom (e_payload e))"

text \<open>The writer's invariant while no I/O call has failed.\<close>

definition writer_ok :: "'a libs_scheme \<Rightarrow> writer \<Rightarrow> bool" where
  "writer_ok L w \<longleftrightarrow>
     b_disk (w_file w) = render_lines (writer_lines L w) \<and> b_buf (w_file w) = [] \<and>
     w_prev_hash w = chain_head L GENESIS_PREV_HASH (writer_lines L w) \<and>
     w_next_sequence w = of_nat (length (w_log w)) \<and>
     (\<forall>(uid, e) \<in> set (w_log w). entry_valid (w_session_id w) e)"

definition same_writer :: "writer \<Rightarrow> writer \<Rightarrow> bool" where
  "same_writer w w' \<longleftrightarrow> w_session_id w' = w_session_id w \<and>
     w_schema_version w' = w_schema_version w \<and> w_uuid_generator w' = w_uuid_generator w"

lemma find_reserved_None:
  "find (\<lambda>k. k \<in> set RESERVED_KEYS) (jkeys p) = None \<longleftrightarrow> (\<forall>k \<in> set RESERVED_KEYS. k |\<notin>| fmdom p)"
  by (auto simp: find_None_iff)

lemma find_reserved_Some:
  "find (\<lambda>k. k \<in> set RESERVED_KEYS) (jkeys p) = Some k \<Longrightarrow> k \<in> set RESERVED_KEYS \<and> k |\<in>| fmdom p"
  by (metis (mono_tags, lifting) find_Some_iff nth_mem set_jkeys)

lemma persist_line_ok:
  assumes "persist_line l b = (Inr x, b')"
  shows "b_disk b' = b_disk b @ b_buf b @ l @ [CHR 0x0A]" and "b_buf b' = []"
    and "b_outcome b' = b_outcome b"
proof -
  from assms obtain b1 b2 b3 where 1: "write_all l b = (Inr (), b1)"
    and 2: "write_all [CHR 0x0A] b1 = (Inr (), b2)" and 3: "flush b2 = (Inr (), b3)"
    and 4: "sync_all b3 = (Inr x, b')"
    by (auto simp: persist_line_def act_results)
  show "b_disk b' = b_disk b @ b_buf b @ l @ [CHR 0x0A]" and "b_buf b' = []"
    and "b_outcome b' = b_outcome b"
    using write_all_ok [OF 1] write_all_ok [OF 2] flush_ok [OF 3] sync_all_ok [OF 4]
    by simp_all
qed

lemma io_errors:
  "write_all bs b = (Inl e, b') \<Longrightarrow> e = LIo"
  "flush b = (Inl e, b') \<Longrightarrow> e = LIo"
  "sync_all b = (Inl e, b') \<Longrightarrow> e = LIo"
  by (simp_all add: write_all_def flush_def sync_all_def Let_def split: prod.splits if_splits)

lemma persist_line_err: "persist_line l b = (Inl e, b') \<Longrightarrow> e = LIo"
  unfolding persist_line_def bindA_eq_err using io_errors by blast

text \<open>Every way \<open>append\<close> can end.\<close>

lemma append_entry_cases:
  "append_entry L e w = (r, w') \<longleftrightarrow>
     (if e_session_id e \<noteq> w_session_id w then
        r = Inl (LSessionIdMismatch (w_session_id w) (e_session_id e)) \<and> w' = w
      else case find (\<lambda>k. k \<in> set RESERVED_KEYS) (jkeys (e_payload e)) of
        Some k \<Rightarrow> r = Inl (LPayloadKeyConflict k) \<and> w' = w
      | None \<Rightarrow>
          (let uid = w_uuid_generator w (w_uuid_next w);
               n = w_next_sequence w;
               line = entry_line L (w_schema_version w) (w_session_id w) n (w_prev_hash w) uid e in
           case persist_line line (w_file w) of
             (Inl x, b) \<Rightarrow> r = Inl x \<and>
               w' = w\<lparr> w_file := b, w_uuid_next := Suc (w_uuid_next w) \<rparr>
           | (Inr _, b) \<Rightarrow>
               r = Inr \<lparr> r_entry_id = uid, r_sequence_number = n, r_entry_hash = sha256 L line \<rparr> \<and>
               w' = w\<lparr> w_file := b, w_uuid_next := Suc (w_uuid_next w), w_prev_hash := sha256 L line,
                       w_next_sequence := n + 1, w_log := w_log w @ [(uid, e)] \<rparr>))"
  by (auto simp: append_entry_def bindA_def zoomA_def getA_def errA_def okA_def modA_def
        next_uuid_def Let_def split: option.splits prod.splits sum.splits)

lemma append_entry_ok:
  assumes "append_entry L e w = (Inr r, w')"
  shows "entry_valid (w_session_id w) e"
    and "w_log w' = w_log w @ [(r_entry_id r, e)]"
    and "same_writer w w'"
    and "r_sequence_number r = w_next_sequence w" and "w_next_sequence w' = w_next_sequence w + 1"
    and "r_entry_hash r = w_prev_hash w'" and "r_entry_id r = w_uuid_generator w (w_uuid_next w)"
    and "w_prev_hash w' = sha256 L (entry_line L (w_schema_version w) (w_session_id w)
           (w_next_sequence w) (w_prev_hash w) (r_entry_id r) e)"
    and "b_disk (w_file w') = b_disk (w_file w) @ b_buf (w_file w) @
           entry_line L (w_schema_version w) (w_session_id w)
             (w_next_sequence w) (w_prev_hash w) (r_entry_id r) e @ [CHR 0x0A]"
    and "b_buf (w_file w') = []"
  using assms
  by (auto simp: append_entry_cases Let_def entry_valid_def same_writer_def find_reserved_None
      split: if_splits option.splits prod.splits sum.splits dest: persist_line_ok)

lemma append_entry_ok_writer:
  assumes "writer_ok L w" and "append_entry L e w = (Inr r, w')"
  shows "writer_ok L w'"
  using append_entry_ok [OF assms(2)] assms(1)
  by (auto simp: writer_ok_def same_writer_def chain_lines_snoc Let_def render_lines_snoc)

lemma append_entry_err:
  assumes "append_entry L e w = (Inl err, w')"
  shows "w_log w' = w_log w" and "same_writer w w'"
    and "w_next_sequence w' = w_next_sequence w" and "w_prev_hash w' = w_prev_hash w"
    and "err \<noteq> LIo \<Longrightarrow> w' = w"
  using assms
  by (auto simp: append_entry_cases Let_def same_writer_def
      split: if_splits option.splits prod.splits sum.splits dest: persist_line_err)

interpretation writer_log: append_log "append_entry L" "\<lambda>w. map snd (w_log w)" for L
  by unfold_locales (auto dest: append_entry_ok(2) append_entry_err(1))

text \<open>A disk that never fails takes every valid entry.\<close>

definition disk_works :: "writer \<Rightarrow> bool" where
  "disk_works w \<longleftrightarrow> (\<forall>n. snd (b_outcome (w_file w) n))"

lemma io_succeeds:
  assumes "\<forall>n. snd (b_outcome b n)"
  shows "\<exists>b'. write_all bs b = (Inr (), b')" and "\<exists>b'. flush b = (Inr (), b')"
    and "\<exists>b'. sync_all b = (Inr (), b')"
  using assms by (simp_all add: write_all_def flush_def sync_all_def Let_def split: prod.splits)
     (metis snd_conv)+

lemma persist_line_succeeds:
  assumes "\<forall>n. snd (b_outcome b n)"
  shows "\<exists>b'. persist_line l b = (Inr (), b')"
proof -
  from io_succeeds(1) [OF assms] obtain b1 where 1: "write_all l b = (Inr (), b1)" by blast
  with assms have w1: "\<forall>n. snd (b_outcome b1 n)" using write_all_ok by metis
  from io_succeeds(1) [OF this] obtain b2 where 2: "write_all [CHR 0x0A] b1 = (Inr (), b2)" by blast
  with w1 have w2: "\<forall>n. snd (b_outcome b2 n)" using write_all_ok by metis
  from io_succeeds(2) [OF this] obtain b3 where 3: "flush b2 = (Inr (), b3)" by blast
  with w2 have "\<forall>n. snd (b_outcome b3 n)" using flush_ok by metis
  from io_succeeds(3) [OF this] 1 2 3 show ?thesis
    by (auto simp: persist_line_def act_simps)
qed

lemma append_entry_succeeds:
  assumes "entry_valid (w_session_id w) e" and "disk_works w"
  shows "\<exists>r w'. append_entry L e w = (Inr r, w') \<and> disk_works w'"
proof -
  have "find (\<lambda>k. k \<in> set RESERVED_KEYS) (jkeys (e_payload e)) = None"
    using assms(1) unfolding find_reserved_None entry_valid_def by blast
  moreover obtain b' where b': "persist_line (entry_line L (w_schema_version w) (w_session_id w)
      (w_next_sequence w) (w_prev_hash w) (w_uuid_generator w (w_uuid_next w)) e) (w_file w)
      = (Inr (), b')"
    using persist_line_succeeds assms(2) unfolding disk_works_def by blast
  moreover have "b_outcome b' = b_outcome (w_file w)"
    using persist_line_ok(3) [OF b'] .
  ultimately show ?thesis
    using assms by (simp add: append_entry_cases entry_valid_def Let_def disk_works_def)
qed

text \<open>The file only ever grows, whatever fails.\<close>

definition disk_grows :: "bufwriter \<Rightarrow> bufwriter \<Rightarrow> bool" where
  "disk_grows b b' \<longleftrightarrow> prefix (b_disk b) (b_disk b')"

interpretation disk_order: step_order disk_grows
  by unfold_locales (auto simp: disk_grows_def)

lemma io_moves [moves_intros]:
  "moves disk_grows (write_all bs)" "moves disk_grows flush" "moves disk_grows sync_all"
  by (auto simp: moves_def disk_grows_def write_all_def flush_def sync_all_def Let_def
      split: prod.splits)

lemma persist_line_moves: "moves disk_grows (persist_line l)"
  unfolding persist_line_def by (intro disk_order.bind moves_intros)

lemma append_entry_file: "append_entry L e w = (r, w') \<Longrightarrow> disk_grows (w_file w) (w_file w')"
  using movesD [OF persist_line_moves] disk_order.step_refl
  by (auto simp: append_entry_cases Let_def split: if_splits option.splits prod.splits sum.splits)

end
