(* ===== verification/Verify.thy ===== *)
theory Verify
  imports Ledger
begin

text \<open>
  The ledger verifier, \<open>crates/ledger-writer/src/verify.rs\<close>: one step per line, the loop over
  the bytes of the file, and what acceptance means. \<open>accepts\<close> is the abstract description of
  an accepted ledger; the loop is shown to decide it.
\<close>

section \<open>Results\<close>

record VerifySummary =
  vs_session_id :: "string option"
  vs_entry_count :: u64
  vs_root_hash_hex :: string
  vs_first_timestamp :: "time option"
  vs_last_timestamp :: "time option"
  vs_schema_version :: "LedgerSchemaVersion option"

datatype VerifyBreak =
    InvalidJson u64 string
  | MissingField u64 string
  | BadContext u64 string
  | SequenceMismatch u64 u64 u64
  | PrevHashMismatch u64 string string
  | SessionIdMismatch u64 string string
  | BadTimestamp u64 string
  | BadHexField u64 string string

datatype VerifyError = VIo | VBreak VerifyBreak

fun break_line :: "VerifyBreak \<Rightarrow> u64" where
  "break_line (InvalidJson l _) = l"
| "break_line (MissingField l _) = l"
| "break_line (BadContext l _) = l"
| "break_line (SequenceMismatch l _ _) = l"
| "break_line (PrevHashMismatch l _ _) = l"
| "break_line (SessionIdMismatch l _ _) = l"
| "break_line (BadTimestamp l _) = l"
| "break_line (BadHexField l _ _) = l"

section \<open>The loop's variables and one turn of it\<close>

record vstate =
  v_prev_hash :: bytes
  v_next_seq :: u64
  v_session_id :: "string option"
  v_first_ts :: "time option"
  v_last_ts :: "time option"
  v_version :: "LedgerSchemaVersion option"

definition vinit :: vstate where
  "vinit = \<lparr> v_prev_hash = GENESIS_PREV_HASH, v_next_seq = 0, v_session_id = None,
             v_first_ts = None, v_last_ts = None, v_version = None \<rparr>"

definition required_str :: "json \<Rightarrow> string \<Rightarrow> u64 \<Rightarrow> VerifyError + string" where
  "required_str v field line =
     (case Option.bind (jget v field) as_str of
        Some s \<Rightarrow> Inr s
      | None \<Rightarrow> Inl (VBreak (MissingField line field)))"

definition context_version :: "string \<Rightarrow> LedgerSchemaVersion option" where
  "context_version ctx =
     (if ctx = LEDGER_CONTEXT then Some V1
      else if ctx = LEDGER_CONTEXT_V2 then Some V2 else None)"

text \<open>\<open>verify_line\<close> is the loop body after the line was read and its newline stripped.\<close>

definition verify_line :: "'a libs_scheme \<Rightarrow> vstate \<Rightarrow> string \<Rightarrow> VerifyError + vstate" where
  "verify_line L st line =
    (let i = v_next_seq st in
     andThen (case json_from_str L line of
                Inl e \<Rightarrow> Inl (VBreak (InvalidJson i e)) | Inr v \<Rightarrow> Inr v) (\<lambda>v.
     andThen (required_str v ''@context'' i) (\<lambda>ctx.
     andThen (of_option (VBreak (BadContext i ctx)) (context_version ctx)) (\<lambda>ver.
     andThen (guardE (v_version st = None \<or> v_version st = Some ver)
                (VBreak (BadContext i ctx))) (\<lambda>_.
     andThen (required_str v ''sessionId'' i) (\<lambda>sid.
     andThen (guardE (v_session_id st = None \<or> v_session_id st = Some sid)
                (VBreak (SessionIdMismatch i (the (v_session_id st)) sid))) (\<lambda>_.
     andThen (of_option (VBreak (MissingField i ''sequenceNumber''))
                (Option.bind (jget v ''sequenceNumber'') as_u64)) (\<lambda>seq.
     andThen (guardE (seq = v_next_seq st)
                (VBreak (SequenceMismatch i (v_next_seq st) seq))) (\<lambda>_.
     andThen (required_str v ''prevHash'' i) (\<lambda>prev_hex.
     andThen (of_option (VBreak (BadHexField i ''prevHash'' prev_hex))
                (hex_decode L prev_hex)) (\<lambda>prev_bytes.
     andThen (guardE (prev_bytes = v_prev_hash st)
                (VBreak (PrevHashMismatch i (hex_encode L (v_prev_hash st)) prev_hex))) (\<lambda>_.
     andThen (required_str v ''timestamp'' i) (\<lambda>ts_str.
     andThen (of_option (VBreak (BadTimestamp i ts_str)) (parse_datetime L ts_str)) (\<lambda>ts.
     Inr \<lparr> v_prev_hash = sha256 L line,
           v_next_seq = saturating_add64 (v_next_seq st) 1,
           v_session_id = Some sid,
           v_first_ts = (case v_first_ts st of None \<Rightarrow> Some ts | Some t \<Rightarrow> Some t),
           v_last_ts = Some ts,
           v_version = Some ver \<rparr>))))))))))))))"

text \<open>\<open>BufRead::read_line\<close>: the bytes up to and including the next newline, or to the end; a line
  that is not UTF-8 is an I/O error. \<open>fails\<close> gives the reads the environment makes fail.\<close>

definition read_line :: "bytes \<Rightarrow> bytes \<times> bytes" where
  "read_line s = (case split_at (CHR 0x0A) s of
      Some (a, b) \<Rightarrow> (a @ [CHR 0x0A], b) | None \<Rightarrow> (s, []))"

definition strip_newline :: "bytes \<Rightarrow> bytes" where
  "strip_newline s = (case strip_suffix [CHR 0x0A] s of Some r \<Rightarrow> r | None \<Rightarrow> s)"

lemma read_line_rest: "s \<noteq> [] \<Longrightarrow> length (snd (read_line s)) < length s"
  by (cases "split_at (CHR 0x0A) s") (auto simp: read_line_def split_at_Some)

function verify_loop :: "'a libs_scheme \<Rightarrow> (u64 \<Rightarrow> bool) \<Rightarrow> vstate \<Rightarrow> bytes \<Rightarrow> VerifyError + vstate" where
  "verify_loop L fails st s =
     (if fails (v_next_seq st) then Inl VIo
      else if s = [] then Inr st
      else if \<not> utf8_ok (fst (read_line s)) then Inl VIo
      else case verify_line L st (strip_newline (fst (read_line s))) of
        Inl e \<Rightarrow> Inl e
      | Inr st' \<Rightarrow> verify_loop L fails st' (snd (read_line s)))"
  by pat_completeness auto
termination
  by (relation "measure (\<lambda>(L, fails, st, s). length s)") (auto simp: read_line_rest)

declare verify_loop.simps [simp del]

definition summary_of :: "'a libs_scheme \<Rightarrow> vstate \<Rightarrow> VerifySummary" where
  "summary_of L st =
     \<lparr> vs_session_id = v_session_id st, vs_entry_count = v_next_seq st,
       vs_root_hash_hex = hex_encode L (v_prev_hash st),
       vs_first_timestamp = v_first_ts st, vs_last_timestamp = v_last_ts st,
       vs_schema_version = v_version st \<rparr>"

definition verify_reader :: "'a libs_scheme \<Rightarrow> (u64 \<Rightarrow> bool) \<Rightarrow> bytes \<Rightarrow> VerifyError + VerifySummary" where
  "verify_reader L fails s = map_sum id (summary_of L) (verify_loop L fails vinit s)"

text \<open>\<open>verify_file\<close>: opening may fail, and then the bytes of the file are read.\<close>

definition verify_file :: "'a libs_scheme \<Rightarrow> (u64 \<Rightarrow> bool) \<Rightarrow> bytes option \<Rightarrow> VerifyError + VerifySummary" where
  "verify_file L fails file = (case file of None \<Rightarrow> Inl VIo | Some s \<Rightarrow> verify_reader L fails s)"

section \<open>Acceptance, line by line\<close>

text \<open>The lines of a file: what the loop hands to \<open>verify_line\<close>.\<close>

function file_lines :: "bytes \<Rightarrow> string list" where
  "file_lines s =
     (if s = [] then [] else strip_newline (fst (read_line s)) # file_lines (snd (read_line s)))"
  by pat_completeness auto
termination
  by (relation "measure length") (auto simp: read_line_rest)

declare file_lines.simps [simp del]

fun run_lines :: "'a libs_scheme \<Rightarrow> vstate \<Rightarrow> string list \<Rightarrow> VerifyError + vstate" where
  "run_lines L st [] = Inr st"
| "run_lines L st (l # ls) = andThen (verify_line L st l) (\<lambda>st'. run_lines L st' ls)"

lemma run_lines_append: "run_lines L st (ls @ ls') = andThen (run_lines L st ls) (\<lambda>st'. run_lines L st' ls')"
  by (induction ls arbitrary: st) (auto simp: andThen_def split: sum.splits)

lemma verify_loop_run:
  "verify_loop L fails st s = Inr st' \<Longrightarrow> run_lines L st (file_lines s) = Inr st'"
proof (induction L fails st s rule: verify_loop.induct)
  case (1 L fails st s)
  from 1 show ?case
    by (subst file_lines.simps, subst (asm) verify_loop.simps)
       (auto split: if_splits sum.splits)
qed

lemma read_line_of_line:
  "CHR 0x0A \<notin> set l \<Longrightarrow> read_line (l @ CHR 0x0A # s) = (l @ [CHR 0x0A], s)"
  using split_at_Some [of "CHR 0x0A" "l @ CHR 0x0A # s" l s] by (simp add: read_line_def)

lemma strip_newline_line [simp]: "strip_newline (l @ [CHR 0x0A]) = l"
  using strip_suffix_Some [of "[CHR 0x0A]" "l @ [CHR 0x0A]" l] by (simp add: strip_newline_def)

lemma verify_loop_rendered:
  assumes "\<forall>l \<in> set ls. CHR 0x0A \<notin> set l \<and> utf8_ok l"
  shows "verify_loop L (\<lambda>_. False) st (render_lines ls) = run_lines L st ls"
  using assms
proof (induction ls arbitrary: st)
  case Nil
  then show ?case by (simp add: render_lines_def verify_loop.simps)
next
  case (Cons l ls)
  have "utf8_ok (l @ [CHR 0x0A])"
    using Cons.prems by (simp add: utf8_ok_append_line)
  with Cons show ?case
    by (subst verify_loop.simps) (simp add: render_lines_def read_line_of_line andThen_def split: sum.splits)
qed

section \<open>What the verifier makes of the writer's lines\<close>

text \<open>Entries whose line can be read back: an instant of the years 0 to 9999, and no more nesting
  than the JSON parser takes.\<close>

definition readable :: "entry \<Rightarrow> bool" where
  "readable e \<longleftrightarrow> time_in_range (e_timestamp e) \<and> json_depth (JObject (e_payload e)) \<le> 127"

lemma fmlookup_base:
  assumes "\<forall>k \<in> set RESERVED_KEYS. k |\<notin>| fmdom p" and "k \<in> set RESERVED_KEYS"
  shows "fmlookup (base_obj L ver sid n prev uid e ++\<^sub>f p) k = fmlookup (base_obj L ver sid n prev uid e) k"
  using assms by (simp add: fmlookup_add)

lemma base_obj_depth: "fmlookup (base_obj L ver sid n prev uid e) k = Some v \<Longrightarrow> json_depth v = 0"
proof -
  assume "fmlookup (base_obj L ver sid n prev uid e) k = Some v"
  from map_of_SomeD [OF this [unfolded base_obj_def fmlookup_of_list]]
  show ?thesis by auto
qed

lemma line_object_depth:
  assumes "readable e"
  shows "json_depth (JObject (base_obj L ver sid n prev uid e ++\<^sub>f e_payload e)) \<le> 127"
proof -
  have "json_depth v \<le> 126"
    if "fmlookup (base_obj L ver sid n prev uid e ++\<^sub>f e_payload e) k = Some v" for k v
  proof (cases "k |\<in>| fmdom (e_payload e)")
    case True
    with that have "fmlookup (e_payload e) k = Some v" by simp
    from json_depth_field [OF this] assms show ?thesis
      by (simp add: readable_def del: json_depth.simps)
  next
    case False
    with that base_obj_depth show ?thesis by fastforce
  qed
  then have "json_depth (JObject (base_obj L ver sid n prev uid e ++\<^sub>f e_payload e)) \<le> Suc 126"
    by (rule json_depth_object_le)
  then show ?thesis by (simp del: json_depth.simps)
qed

lemma utf8_contexts [simp]: "utf8_ok (context_url ver)"
  by (cases ver; simp add: LEDGER_CONTEXT_def LEDGER_CONTEXT_V2_def; code_simp)

lemma context_version_url [simp]: "context_version (context_url ver) = Some ver"
  by (cases ver; simp add: context_version_def LEDGER_CONTEXT_def LEDGER_CONTEXT_V2_def)

text \<open>The chain fields of a written line are read back, whatever the payload.\<close>

lemma entry_line_reserved:
  assumes L: "lib_laws L" and e: "entry_valid sid e" "readable e"
  obtains o2 where "json_from_str L (entry_line L ver sid n prev uid e) = Inr (JObject o2)"
    and "\<And>k v. k \<in> set RESERVED_KEYS \<Longrightarrow> fmlookup (base_obj L ver sid n prev uid e) k = Some v \<Longrightarrow> exact_field v
       \<Longrightarrow> fmlookup o2 k = Some v"
proof -
  let ?o = "base_obj L ver sid n prev uid e ++\<^sub>f e_payload e"
  from lib_laws_json(1) [OF L line_object_depth [OF e(2)]]
  obtain o2 where o2: "json_from_str L (entry_line L ver sid n prev uid e) = Inr (JObject o2)"
    and keep: "\<And>k v. fmlookup ?o k = Some v \<Longrightarrow> exact_field v \<Longrightarrow> fmlookup o2 k = Some v"
    unfolding entry_line_def by blast
  have base: "fmlookup ?o k = fmlookup (base_obj L ver sid n prev uid e) k"
    if "k \<in> set RESERVED_KEYS" for k
    using fmlookup_base that e(1) unfolding entry_valid_def by blast
  show ?thesis by (rule that [OF o2]) (use keep base in simp)
qed

lemma entry_line_fields:
  assumes L: "lib_laws L" and e: "entry_valid sid e" "readable e" and "utf8_ok sid"
  obtains o2 where "json_from_str L (entry_line L ver sid n prev uid e) = Inr (JObject o2)"
    and "fmlookup o2 ''@context'' = Some (JString (context_url ver))"
    and "fmlookup o2 ''sessionId'' = Some (JString sid)"
    and "fmlookup o2 ''sequenceNumber'' = Some (JU64 n)"
    and "fmlookup o2 ''prevHash'' = Some (JString (hex_encode L prev))"
    and "fmlookup o2 ''timestamp'' = Some (JString (rfc3339_nanos L (e_timestamp e)))"
proof -
  from entry_line_reserved [OF L e, where ver = ver and n = n and prev = prev and uid = uid]
  obtain o2 where o2: "json_from_str L (entry_line L ver sid n prev uid e) = Inr (JObject o2)"
    and keep: "\<And>k v. k \<in> set RESERVED_KEYS \<Longrightarrow> fmlookup (base_obj L ver sid n prev uid e) k = Some v
      \<Longrightarrow> exact_field v \<Longrightarrow> fmlookup o2 k = Some v" by blast
  have laws: "utf8_ok (hex_encode L prev)" "utf8_ok (rfc3339_nanos L (e_timestamp e))"
    using L by (simp_all add: lib_laws_def hex_laws_def time_laws_def)
  show ?thesis
    by (rule that [OF o2]; rule keep)
       (simp_all add: RESERVED_KEYS_def base_obj_def fmlookup_of_list laws \<open>utf8_ok sid\<close>)
qed

definition follows :: "LedgerSchemaVersion \<Rightarrow> string \<Rightarrow> vstate \<Rightarrow> bool" where
  "follows ver sid st \<longleftrightarrow> v_version st \<in> {None, Some ver} \<and> v_session_id st \<in> {None, Some sid}"

definition after_line :: "'a libs_scheme \<Rightarrow> LedgerSchemaVersion \<Rightarrow> string \<Rightarrow> vstate \<Rightarrow> string \<Rightarrow> entry
    \<Rightarrow> vstate" where
  "after_line L ver sid st line e =
     \<lparr> v_prev_hash = sha256 L line, v_next_seq = saturating_add64 (v_next_seq st) 1,
       v_session_id = Some sid,
       v_first_ts = (case v_first_ts st of None \<Rightarrow> Some (e_timestamp e) | Some t \<Rightarrow> Some t),
       v_last_ts = Some (e_timestamp e), v_version = Some ver \<rparr>"

lemma verify_line_entry:
  assumes L: "lib_laws L" and e: "entry_valid sid e" "readable e" and sid: "utf8_ok sid"
    and st: "follows ver sid st"
    and line: "line = entry_line L ver sid (v_next_seq st) (v_prev_hash st) uid e"
  shows "verify_line L st line = Inr (after_line L ver sid st line e)"
proof -
  from entry_line_fields [OF L e sid, where ver = ver and n = "v_next_seq st"
      and prev = "v_prev_hash st" and uid = uid]
  obtain o2 where o2: "json_from_str L line = Inr (JObject o2)"
    "fmlookup o2 ''@context'' = Some (JString (context_url ver))"
    "fmlookup o2 ''sessionId'' = Some (JString sid)"
    "fmlookup o2 ''sequenceNumber'' = Some (JU64 (v_next_seq st))"
    "fmlookup o2 ''prevHash'' = Some (JString (hex_encode L (v_prev_hash st)))"
    "fmlookup o2 ''timestamp'' = Some (JString (rfc3339_nanos L (e_timestamp e)))"
    unfolding line by blast
  have "parse_datetime L (rfc3339_nanos L (e_timestamp e)) = Some (e_timestamp e)"
    "hex_decode L (hex_encode L (v_prev_hash st)) = Some (v_prev_hash st)"
    using L e(2) by (simp_all add: lib_laws_def time_laws_def hex_laws_def readable_def)
  with o2 st show ?thesis
    by (auto simp add: verify_line_def Let_def required_str_def guardE_def follows_def after_line_def)
qed

lemma run_chain:
  assumes L: "lib_laws L" and sid: "utf8_ok sid" and "follows ver sid st"
    and "\<forall>(uid, e) \<in> set es. entry_valid sid e \<and> readable e"
    and "unat (v_next_seq st) + length es < 2 ^ 64"
    and ls: "ls = chain_lines L ver sid (v_next_seq st) (v_prev_hash st) es"
  shows "\<exists>st'. run_lines L st ls = Inr st' \<and> v_prev_hash st' = chain_head L (v_prev_hash st) ls \<and>
     v_next_seq st' = v_next_seq st + of_nat (length es) \<and>
     v_session_id st' = (if es = [] then v_session_id st else Some sid) \<and>
     v_version st' = (if es = [] then v_version st else Some ver) \<and>
     v_first_ts st' = (if es = [] \<or> v_first_ts st \<noteq> None then v_first_ts st
                       else Some (e_timestamp (snd (hd es)))) \<and>
     v_last_ts st' = (if es = [] then v_last_ts st else Some (e_timestamp (snd (last es))))"
  using assms(3-)
proof (induction es arbitrary: st ls)
  case Nil
  then show ?case by (simp add: chain_head_def)
next
  case (Cons a es)
  obtain uid e where a: "a = (uid, e)" by fastforce
  define l where "l = entry_line L ver sid (v_next_seq st) (v_prev_hash st) uid e"
  define st1 where "st1 = after_line L ver sid st l e"
  have n1: "v_next_seq st1 = v_next_seq st + 1"
    and u1: "unat (v_next_seq st1) = unat (v_next_seq st) + 1"
    using Cons.prems(3) by (simp_all add: st1_def after_line_def unat_saturating_add64)
       (simp add: saturating_add64_def)
  have step: "verify_line L st l = Inr st1"
    using verify_line_entry [OF L _ _ sid Cons.prems(1) l_def] Cons.prems(2) a
    by (simp add: st1_def)
  have ls: "ls = l # chain_lines L ver sid (v_next_seq st1) (v_prev_hash st1) es"
    using Cons.prems(4) a by (simp add: l_def n1) (simp add: st1_def after_line_def l_def Let_def)
  have "follows ver sid st1" by (simp add: st1_def follows_def after_line_def)
  from Cons.IH [OF this _ _ refl] Cons.prems(2,3) u1
  show ?case
    unfolding ls run_lines.simps step andThen_simps chain_head_Cons
    by (auto simp: n1 a) (auto simp: st1_def after_line_def split: option.splits)
qed

section \<open>Acceptance described without the loop\<close>

text \<open>Line \<open>i\<close> is in order: it parses, names the version and the session of the ledger, its own
  index, the digest of the line before it, and an instant.\<close>

definition line_in_order :: "'a libs_scheme \<Rightarrow> LedgerSchemaVersion \<Rightarrow> string \<Rightarrow> u64 \<Rightarrow> bytes \<Rightarrow> string
    \<Rightarrow> time \<Rightarrow> bool" where
  "line_in_order L ver sid n prev line ts \<longleftrightarrow>
     (\<exists>v h t. json_from_str L line = Inr v \<and>
        jget v ''@context'' = Some (JString (context_url ver)) \<and>
        jget v ''sessionId'' = Some (JString sid) \<and>
        jget v ''sequenceNumber'' = Some (JU64 n) \<and>
        jget v ''prevHash'' = Some (JString h) \<and> hex_decode L h = Some prev \<and>
        jget v ''timestamp'' = Some (JString t) \<and> parse_datetime L t = Some ts)"

definition ledger_in_order :: "'a libs_scheme \<Rightarrow> LedgerSchemaVersion \<Rightarrow> string \<Rightarrow> string list \<Rightarrow> bool" where
  "ledger_in_order L ver sid ls \<longleftrightarrow>
     (\<forall>i < length ls. \<exists>ts. line_in_order L ver sid (of_nat i)
        (chain_head L GENESIS_PREV_HASH (take i ls)) (ls ! i) ts)"

lemma required_str_Inr [simp]:
  "required_str v f i = Inr s \<longleftrightarrow> jget v f = Some (JString s)"
  by (auto simp: required_str_def bind_eq_Some_conv split: option.splits)

lemma context_version_Some [simp]: "context_version ctx = Some ver \<longleftrightarrow> ctx = context_url ver"
  by (cases ver) (auto simp: context_version_def LEDGER_CONTEXT_def LEDGER_CONTEXT_V2_def)

lemma verify_line_Inr:
  "verify_line L st line = Inr st' \<longleftrightarrow>
     (\<exists>ver sid ts. follows ver sid st \<and>
        line_in_order L ver sid (v_next_seq st) (v_prev_hash st) line ts \<and>
        st' = \<lparr> v_prev_hash = sha256 L line, v_next_seq = saturating_add64 (v_next_seq st) 1,
                v_session_id = Some sid,
                v_first_ts = (case v_first_ts st of None \<Rightarrow> Some ts | Some t \<Rightarrow> Some t),
                v_last_ts = Some ts, v_version = Some ver \<rparr>)"
proof -
  have from_str: "(case json_from_str L line of Inl e \<Rightarrow> Inl (VBreak (InvalidJson i e)) | Inr v \<Rightarrow> Inr v)
      = Inr v \<longleftrightarrow> json_from_str L line = Inr v" for i v
    by (auto split: sum.splits)
  show ?thesis
    unfolding verify_line_def Let_def andThen_Inr from_str required_str_Inr of_option_Inr
      context_version_Some guardE_Inr bind_eq_Some_conv as_u64_Some_iff line_in_order_def follows_def
    by (auto simp: old.sum.inject)
qed

lemma verify_line_Inr_simps:
  assumes "verify_line L st line = Inr st'"
  shows "v_prev_hash st' = sha256 L line" and "v_next_seq st' = saturating_add64 (v_next_seq st) 1"
  using assms by (auto simp: verify_line_Inr)

lemma run_lines_prev: "run_lines L st ls = Inr st' \<Longrightarrow> v_prev_hash st' = chain_head L (v_prev_hash st) ls"
proof (induction ls arbitrary: st)
  case Nil
  then show ?case by (simp add: chain_head_def)
next
  case (Cons l ls)
  then obtain st1 where 1: "verify_line L st l = Inr st1" "run_lines L st1 ls = Inr st'" by auto
  with Cons.IH verify_line_Inr_simps [OF 1(1)] show ?case by (simp add: chain_head_Cons)
qed

lemma ledger_in_order_snoc:
  "ledger_in_order L ver sid (ls @ [l]) \<longleftrightarrow> ledger_in_order L ver sid ls \<and>
     (\<exists>ts. line_in_order L ver sid (of_nat (length ls)) (chain_head L GENESIS_PREV_HASH ls) l ts)"
  by (auto simp: ledger_in_order_def nth_append less_Suc_eq)

lemma ledger_in_order_unique:
  assumes "ledger_in_order L ver sid ls" and "ledger_in_order L ver' sid' ls" and "ls \<noteq> []"
  shows "ver' = ver \<and> sid' = sid"
proof -
  have "context_url ver' = context_url ver \<and> sid' = sid"
    using assms by (force simp: ledger_in_order_def line_in_order_def)
  then show ?thesis by (metis context_version_url option.inject)
qed

text \<open>The state after a run of lines, in terms of the lines.\<close>

definition run_result :: "'a libs_scheme \<Rightarrow> string list \<Rightarrow> vstate \<Rightarrow> bool" where
  "run_result L ls st \<longleftrightarrow>
     v_next_seq st = of_nat (length ls) \<and> v_prev_hash st = chain_head L GENESIS_PREV_HASH ls \<and>
     (if ls = [] then st = vinit
      else \<exists>ver sid. v_version st = Some ver \<and> v_session_id st = Some sid \<and>
             ledger_in_order L ver sid ls)"

lemma run_result_follows:
  assumes "run_result L ls st" and "ledger_in_order L ver sid ls"
  shows "follows ver sid st"
proof (cases "ls = []")
  case True
  with assms(1) show ?thesis by (simp add: run_result_def follows_def vinit_def)
next
  case False
  with assms(1) obtain ver' sid' where "v_version st = Some ver'" "v_session_id st = Some sid'"
    "ledger_in_order L ver' sid' ls"
    by (auto simp: run_result_def)
  with ledger_in_order_unique [OF assms(2) this(3) False] show ?thesis
    by (simp add: follows_def)
qed

lemma run_result_step:
  assumes st: "run_result L ls st" and len: "length (ls @ [l]) < 2 ^ 64"
    and step: "verify_line L st l = Inr st2"
  shows "run_result L (ls @ [l]) st2"
proof -
  from step obtain ver sid ts where fol: "follows ver sid st"
    and ord: "line_in_order L ver sid (v_next_seq st) (v_prev_hash st) l ts"
    and st2: "v_version st2 = Some ver" "v_session_id st2 = Some sid"
    by (auto simp: verify_line_Inr)
  have "ledger_in_order L ver sid ls"
    using st fol by (cases "ls = []") (auto simp: ledger_in_order_def run_result_def follows_def)
  then have "ledger_in_order L ver sid (ls @ [l])"
    using ord st by (auto simp: ledger_in_order_snoc run_result_def)
  moreover have "saturating_add64 (of_nat (length ls)) 1 = of_nat (length (ls @ [l]))"
    using len by (simp add: saturating_add64_def unat_of_nat)
  ultimately show ?thesis
    using verify_line_Inr_simps [OF step] st st2 by (simp add: run_result_def)
qed

lemma run_lines_result:
  assumes "length ls < 2 ^ 64" and "run_lines L vinit ls = Inr st"
  shows "run_result L ls st"
  using assms
proof (induction ls arbitrary: st rule: rev_induct)
  case Nil
  then show ?case by (auto simp: run_result_def vinit_def chain_head_def)
next
  case (snoc l ls)
  then obtain st1 where st1: "run_lines L vinit ls = Inr st1" "verify_line L st1 l = Inr st"
    by (auto simp: run_lines_append)
  with snoc have "run_result L ls st1" by simp
  from run_result_step [OF this snoc.prems(1) st1(2)] show ?case .
qed

lemma run_lines_in_order:
  assumes "length ls < 2 ^ 64"
  shows "(\<exists>st. run_lines L vinit ls = Inr st) \<longleftrightarrow> (\<exists>ver sid. ledger_in_order L ver sid ls)"
proof
  assume "\<exists>st. run_lines L vinit ls = Inr st"
  then obtain st where "run_result L ls st" using run_lines_result assms by blast
  then show "\<exists>ver sid. ledger_in_order L ver sid ls"
    by (auto simp: run_result_def ledger_in_order_def split: if_splits)
next
  assume "\<exists>ver sid. ledger_in_order L ver sid ls"
  then obtain ver sid where "ledger_in_order L ver sid ls" by blast
  then show "\<exists>st. run_lines L vinit ls = Inr st"
    using assms
  proof (induction ls rule: rev_induct)
    case (snoc l ls)
    then obtain ts where o: "ledger_in_order L ver sid ls" "line_in_order L ver sid
        (of_nat (length ls)) (chain_head L GENESIS_PREV_HASH ls) l ts"
      by (auto simp: ledger_in_order_snoc)
    with snoc obtain st1 where st1: "run_lines L vinit ls = Inr st1" by auto
    have "length ls < 2 ^ 64" using snoc.prems(2) by simp
    then have r: "run_result L ls st1" using run_lines_result st1 by blast
    with o have "\<exists>st2. verify_line L st1 l = Inr st2"
      using run_result_follows [OF r o(1)] by (auto simp: verify_line_Inr run_result_def)
    with st1 show ?case by (auto simp: run_lines_append)
  qed simp
qed

section \<open>The writer's file and the verifier\<close>

text \<open>The calls a session makes on its writer: appends that succeed, and appends refused before
  any I/O (a foreign session id or a reserved payload key).\<close>

inductive ledger_run :: "'a libs_scheme \<Rightarrow> writer \<Rightarrow> entry list \<Rightarrow> writer \<Rightarrow> bool"
  for L :: "'a libs_scheme" where
  run_none: "ledger_run L w [] w"
| run_appended: "append_entry L e w = (Inr r, w1) \<Longrightarrow> ledger_run L w1 es w2 \<Longrightarrow> ledger_run L w (e # es) w2"
| run_refused: "append_entry L e w = (Inl err, w1) \<Longrightarrow> err \<noteq> LIo \<Longrightarrow> ledger_run L w1 es w2 \<Longrightarrow>
    ledger_run L w (e # es) w2"

lemma ledger_run_log:
  assumes "ledger_run L w es w'" and "writer_ok L w"
  shows "writer_ok L w' \<and> same_writer w w' \<and> set (map snd (w_log w')) \<subseteq> set (map snd (w_log w)) \<union> set es \<and>
     length (w_log w') \<le> length (w_log w) + length es"
  using assms
proof (induction rule: ledger_run.induct)
  case (run_none w)
  then show ?case by (simp add: same_writer_def)
next
  case (run_appended e w r w1 es w2)
  note a = append_entry_ok [OF run_appended.hyps(1)]
  have "writer_ok L w1"
    using append_entry_ok_writer run_appended.hyps(1) run_appended.prems by blast
  with run_appended.IH a(2,3) show ?case by (auto simp: same_writer_def)
next
  case (run_refused e w err w1 es w2)
  have "w1 = w" using append_entry_err(5) [OF run_refused.hyps(1,2)] .
  with run_refused show ?case by auto
qed

lemma created_writer_ok:
  assumes "create_with_uuid_generator False io sid gen ver = Inr w"
  shows "writer_ok L w" and "w_log w = []" and "w_session_id w = sid" and "w_schema_version w = ver"
  using assms
  by (auto simp: create_with_uuid_generator_def writer_ok_def chain_head_def render_lines_def)

lemma chain_lines_printed:
  assumes "lib_laws L"
  shows "\<forall>l \<in> set (chain_lines L ver sid n prev es). CHR 0x0A \<notin> set l \<and> utf8_ok l"
proof (induction es arbitrary: n prev)
  case (Cons a es)
  obtain uid e where "a = (uid, e)" by fastforce
  with Cons lib_laws_json(3,4) [OF assms] show ?case by (simp add: Let_def entry_line_def)
qed simp

lemma writer_file_verifies:
  assumes L: "lib_laws L" and sid: "utf8_ok (w_session_id w)" and w: "writer_ok L w"
    and rd: "\<forall>(uid, e) \<in> set (w_log w). readable e" and len: "length (w_log w) < 2 ^ 64"
  shows "verify_reader L (\<lambda>_. False) (b_disk (w_file w)) = Inr
     \<lparr> vs_session_id = (if w_log w = [] then None else Some (w_session_id w)),
       vs_entry_count = entry_count w,
       vs_root_hash_hex = hex_encode L (current_head w),
       vs_first_timestamp = (if w_log w = [] then None else Some (e_timestamp (snd (hd (w_log w))))),
       vs_last_timestamp = (if w_log w = [] then None else Some (e_timestamp (snd (last (w_log w))))),
       vs_schema_version = (if w_log w = [] then None else Some (w_schema_version w)) \<rparr>"
proof -
  have "follows (w_schema_version w) (w_session_id w) vinit"
    by (simp add: follows_def vinit_def)
  moreover have "\<forall>(uid, e) \<in> set (w_log w). entry_valid (w_session_id w) e \<and> readable e"
    using w rd by (auto simp: writer_ok_def)
  moreover have "unat (v_next_seq vinit) + length (w_log w) < 2 ^ 64"
    using len by (simp add: vinit_def)
  moreover have "writer_lines L w = chain_lines L (w_schema_version w) (w_session_id w)
      (v_next_seq vinit) (v_prev_hash vinit) (w_log w)"
    by (simp add: vinit_def)
  ultimately obtain st where st: "run_lines L vinit (writer_lines L w) = Inr st"
    "v_prev_hash st = chain_head L (v_prev_hash vinit) (writer_lines L w)"
    "v_next_seq st = v_next_seq vinit + of_nat (length (w_log w))"
    "v_session_id st = (if w_log w = [] then v_session_id vinit else Some (w_session_id w))"
    "v_version st = (if w_log w = [] then v_version vinit else Some (w_schema_version w))"
    "v_first_ts st = (if w_log w = [] \<or> v_first_ts vinit \<noteq> None then v_first_ts vinit
                      else Some (e_timestamp (snd (hd (w_log w)))))"
    "v_last_ts st = (if w_log w = [] then v_last_ts vinit
                     else Some (e_timestamp (snd (last (w_log w)))))"
    using run_chain [OF L sid] by blast
  have "verify_loop L (\<lambda>_. False) vinit (b_disk (w_file w)) = Inr st"
    using verify_loop_rendered [OF chain_lines_printed [OF L], where L = L] st(1) w
    by (simp add: writer_ok_def)
  with st w show ?thesis
    by (simp add: verify_reader_def summary_of_def vinit_def writer_ok_def entry_count_def
        current_head_def)
qed

section \<open>Properties\<close>


definition demo_entry :: "string \<Rightarrow> entry" where
  "demo_entry sid = \<lparr> e_session_id = sid, e_entry_type = SessionStart,
     e_identity_hash = replicate 32 (CHR 0x07), e_timestamp = 0, e_payload = fmempty \<rparr>"

definition demo_writer :: "LedgerSchemaVersion \<Rightarrow> writer" where
  "demo_writer ver = \<lparr> w_file = \<lparr> b_disk = [], b_buf = [], b_calls = 0, b_outcome = (\<lambda>_. (0, True)) \<rparr>,
     w_session_id = ''s1'', w_next_sequence = 0, w_prev_hash = GENESIS_PREV_HASH,
     w_uuid_next = 0, w_uuid_generator = show_nat, w_schema_version = ver, w_log = [] \<rparr>"

lemma demo_created:
  "create_with_uuid_generator False (\<lambda>_. (0, True)) ''s1'' show_nat ver = Inr (demo_writer ver)"
  by (simp add: create_with_uuid_generator_def demo_writer_def)

lemma demo_readable: "readable (demo_entry sid)"
  by (simp add: readable_def demo_entry_def time_in_range_def)

text \<open>A ledger with one entry, and one refused append.\<close>

lemma demo_run:
  "\<exists>w. ledger_run libs0 (demo_writer ver) [demo_entry ''s1'', demo_entry ''s2''] w \<and> length (w_log w) = 1"
proof -
  have "entry_valid (w_session_id (demo_writer ver)) (demo_entry ''s1'')"
    by (simp add: entry_valid_def demo_entry_def demo_writer_def)
  then obtain r w1 where 1: "append_entry libs0 (demo_entry ''s1'') (demo_writer ver) = (Inr r, w1)"
    using append_entry_succeeds [of "demo_writer ver" "demo_entry ''s1''" libs0]
    by (auto simp: disk_works_def demo_writer_def)
  note a = append_entry_ok [OF 1]
  have "append_entry libs0 (demo_entry ''s2'') w1 = (Inl (LSessionIdMismatch ''s1'' ''s2''), w1)"
    using a(3) by (simp add: append_entry_cases demo_entry_def same_writer_def demo_writer_def)
  then have "ledger_run libs0 w1 [demo_entry ''s2''] w1"
    using ledger_run.intros by blast
  with 1 have "ledger_run libs0 (demo_writer ver) [demo_entry ''s1'', demo_entry ''s2''] w1"
    using ledger_run.intros by blast
  then show ?thesis using a(2) by (auto simp: demo_writer_def)
qed


lemma verify_reader_Inr:
  "verify_reader L f s = Inr a \<longleftrightarrow> (\<exists>st. verify_loop L f vinit s = Inr st \<and> a = summary_of L st)"
  by (cases "verify_loop L f vinit s") (auto simp: verify_reader_def)

lemma chains_agree:
  assumes "run_lines L vinit ls = Inr a" and "run_lines L vinit ks = Inr b"
    and "v_prev_hash a = v_prev_hash b"
  shows "ls = ks \<or> (\<exists>x \<in> set ls. \<exists>y \<in> set ks. x \<noteq> y \<and> sha256 L x = sha256 L y) \<or>
     (\<exists>x \<in> set ls \<union> set ks. sha256 L x = GENESIS_PREV_HASH)"
  using assms
proof (induction ls arbitrary: ks a b rule: rev_induct)
  case Nil
  then have "chain_head L GENESIS_PREV_HASH ks = GENESIS_PREV_HASH"
    using run_lines_prev by (fastforce simp: vinit_def)
  then show ?case by (cases "ks = []") (auto simp: chain_head_def)
next
  case (snoc l ls)
  from run_lines_prev [OF snoc.prems(1)] have pa: "v_prev_hash a = sha256 L l" by simp
  show ?case
  proof (cases ks rule: rev_cases)
    case Nil
    with snoc.prems(2) have "b = vinit" by simp
    with snoc.prems(3) pa have "sha256 L l = GENESIS_PREV_HASH" by (simp add: vinit_def)
    then show ?thesis by auto
  next
    case (snoc ks' k)
    from run_lines_prev [OF snoc.prems(2)] snoc have pb: "v_prev_hash b = sha256 L k" by simp
    show ?thesis
    proof (cases "l = k")
      case False
      with pa pb snoc.prems(3) snoc show ?thesis by auto
    next
      case True
      from snoc.prems(1) obtain a1 where a1: "run_lines L vinit ls = Inr a1" "verify_line L a1 l = Inr a"
        by (auto simp: run_lines_append)
      from snoc.prems(2) snoc True obtain b1
        where b1: "run_lines L vinit ks' = Inr b1" "verify_line L b1 l = Inr b"
        by (auto simp: run_lines_append)
      have "v_prev_hash a1 = v_prev_hash b1"
        using a1(2) b1(2) by (auto simp: verify_line_Inr line_in_order_def)
      from snoc.IH [OF a1(1) b1(1) this] True snoc show ?thesis by auto
    qed
  qed
qed

text \<open>C33: Tamper evidence. Two files the verifier accepts with the same root hash have the same
  lines, unless two different lines of theirs collide under SHA-256 or one of their lines hashes
  to the all-zero genesis value.\<close>

theorem root_hash_binds_ledger:
  assumes "verify_reader L f1 s1 = Inr a" and "verify_reader L f2 s2 = Inr b"
    and "vs_root_hash_hex a = vs_root_hash_hex b" and "hex_laws L"
  shows "file_lines s1 = file_lines s2 \<or>
     (\<exists>x \<in> set (file_lines s1). \<exists>y \<in> set (file_lines s2). x \<noteq> y \<and> sha256 L x = sha256 L y) \<or>
     (\<exists>x \<in> set (file_lines s1) \<union> set (file_lines s2). sha256 L x = GENESIS_PREV_HASH)"
proof -
  from assms(1,2) obtain st1 st2 where "verify_loop L f1 vinit s1 = Inr st1"
    "verify_loop L f2 vinit s2 = Inr st2" and ab: "a = summary_of L st1" "b = summary_of L st2"
    by (auto simp: verify_reader_Inr)
  moreover from ab assms(3) have "v_prev_hash st1 = v_prev_hash st2"
    using hex_encode_inj [OF assms(4)] by (simp add: summary_of_def)
  ultimately show ?thesis
    using chains_agree verify_loop_run by blast
qed


text \<open>C35: A payload nested deeper than the JSON parser's limit is written without complaint, and
  the ledger it ends in can no longer be verified: the verifier stops at that line.\<close>

theorem deep_payload_breaks_verification:
  assumes "lib_laws L" and "utf8_ok (w_session_id w)" and "writer_ok L w"
    and "\<forall>(uid, e) \<in> set (w_log w). readable e" and "length (w_log w) < 2 ^ 64"
    and "append_entry L e w = (Inr r, w')" and "127 < json_depth (JObject (e_payload e))"
  shows "\<exists>err. verify_reader L (\<lambda>_. False) (b_disk (w_file w')) =
     Inl (VBreak (InvalidJson (entry_count w) err))"
proof -
  note a = append_entry_ok [OF assms(6)]
  let ?l = "entry_line L (w_schema_version w) (w_session_id w) (w_next_sequence w) (w_prev_hash w)
      (r_entry_id r) e"
  obtain st where st: "run_lines L vinit (writer_lines L w) = Inr st" "v_next_seq st = entry_count w"
    using writer_file_verifies [OF assms(1-5)] assms(3)
      verify_loop_rendered [OF chain_lines_printed [OF assms(1)], where L = L]
    by (auto simp: verify_reader_Inr writer_ok_def summary_of_def)
  have "127 < json_depth (JObject (base_obj L (w_schema_version w) (w_session_id w) (w_next_sequence w)
      (w_prev_hash w) (r_entry_id r) e ++\<^sub>f e_payload e))"
    using json_depth_add_ge assms(7) less_le_trans by blast
  from lib_laws_json(2) [OF assms(1) this]
  obtain err where "json_from_str L ?l = Inl err" unfolding entry_line_def by blast
  then have "verify_line L st ?l = Inl (VBreak (InvalidJson (entry_count w) err))"
    by (simp add: verify_line_def Let_def st(2))
  then have run: "run_lines L vinit (writer_lines L w @ [?l]) = Inl (VBreak (InvalidJson (entry_count w) err))"
    by (simp add: run_lines_append st(1))
  have "b_disk (w_file w') = render_lines (writer_lines L w @ [?l])"
    using a(9) assms(3) by (simp add: writer_ok_def render_lines_snoc)
  moreover have "\<forall>l \<in> set (writer_lines L w @ [?l]). CHR 0x0A \<notin> set l \<and> utf8_ok l"
    using chain_lines_printed [OF assms(1)] lib_laws_json(3,4) [OF assms(1)]
    by (simp add: entry_line_def)
  ultimately have "verify_loop L (\<lambda>_. False) vinit (b_disk (w_file w')) =
      Inl (VBreak (InvalidJson (entry_count w) err))"
    using verify_loop_rendered [where L = L and st = vinit] run by metis
  then show ?thesis by (simp add: verify_reader_def)
qed

theorem root_hash_binds_ledger_witness:
  "\<exists>(w :: writer) (w2 :: writer). length (w_log w) = 1 \<and> length (w_log w2) = 1 \<and>
     (file_lines (b_disk (w_file w)) = file_lines (b_disk (w_file w2)) \<or>
     (\<exists>x \<in> set (file_lines (b_disk (w_file w))). \<exists>y \<in> set (file_lines (b_disk (w_file w2))).
        x \<noteq> y \<and> sha256 libs0 x = sha256 libs0 y) \<or>
     (\<exists>x \<in> set (file_lines (b_disk (w_file w))) \<union> set (file_lines (b_disk (w_file w2))).
        sha256 libs0 x = GENESIS_PREV_HASH))"
proof -
  obtain w where run: "ledger_run libs0 (demo_writer V2) [demo_entry ''s1'', demo_entry ''s2''] w"
    and len: "length (w_log w) = 1" using demo_run by blast
  note w0 = created_writer_ok [OF demo_created [of V2]]
  note r = ledger_run_log [OF run w0(1)]
  have "utf8_ok (w_session_id w)"
    using r w0 by (simp add: same_writer_def)
  moreover have "\<forall>(uid, e) \<in> set (w_log w). readable e"
    using r w0(2) demo_readable by (auto simp: subset_iff)
  ultimately obtain a where "verify_reader libs0 (\<lambda>_. False) (b_disk (w_file w)) = Inr a"
    using writer_file_verifies [OF libs0_laws, of w] r len by auto
  moreover have "hex_laws libs0" using libs0_laws by (simp add: lib_laws_def)
  ultimately have "file_lines (b_disk (w_file w)) = file_lines (b_disk (w_file w)) \<or>
     (\<exists>x \<in> set (file_lines (b_disk (w_file w))). \<exists>y \<in> set (file_lines (b_disk (w_file w))).
        x \<noteq> y \<and> sha256 libs0 x = sha256 libs0 y) \<or>
     (\<exists>x \<in> set (file_lines (b_disk (w_file w))) \<union> set (file_lines (b_disk (w_file w))).
        sha256 libs0 x = GENESIS_PREV_HASH)"
    by (intro root_hash_binds_ledger [OF _ _ refl])
  with len show ?thesis by blast
qed


definition deep_entry :: entry where
  "deep_entry = (demo_entry ''s1'')
     \<lparr> e_payload := fmap_of_list [(''result'', ((\<lambda>v. JArray [v]) ^^ 127) JNull)] \<rparr>"

theorem deep_payload_breaks_verification_witness:
  "\<exists>r w' err. append_entry libs0 deep_entry (demo_writer V2) = (Inr r, w') \<and>
     verify_reader libs0 (\<lambda>_. False) (b_disk (w_file w')) = Inl (VBreak (InvalidJson 0 err))"
proof -
  have "entry_valid (w_session_id (demo_writer V2)) deep_entry"
    by (simp add: entry_valid_def deep_entry_def demo_entry_def demo_writer_def RESERVED_KEYS_def)
  then obtain r w' where app: "append_entry libs0 deep_entry (demo_writer V2) = (Inr r, w')"
    using append_entry_succeeds [of "demo_writer V2" deep_entry libs0]
    by (auto simp: disk_works_def demo_writer_def)
  have "fmlookup (e_payload deep_entry) ''result'' = Some (((\<lambda>v. JArray [v]) ^^ 127) JNull)"
    by (simp add: deep_entry_def fmlookup_of_list)
  from json_depth_field [OF this] have "127 < json_depth (JObject (e_payload deep_entry))"
    by (simp only: json_depth_nest)
  moreover have "utf8_ok (w_session_id (demo_writer V2))"
    by (rule ascii_set_utf8) (auto simp: demo_writer_def is_ascii_char_def)
  ultimately show ?thesis
    using deep_payload_breaks_verification [OF libs0_laws _ created_writer_ok(1) [OF demo_created] _ _ app]
      app by (auto simp: demo_writer_def entry_count_def)
qed

text \<open>\<open>append\<close> never moves the chain unless it returns Ok. A call that returns an error leaves
  sequence number, previous hash and log as they were and at most adds bytes at the end of the
  file; a refused entry (foreign session, reserved key) leaves the writer untouched, file and id
  generator included.\<close>

theorem append_failure_keeps_chain:
  assumes "append_entry L e w = (Inl err, w')"
  shows "w_next_sequence w' = w_next_sequence w \<and> current_head w' = current_head w \<and>
    w_log w' = w_log w \<and> prefix (b_disk (w_file w)) (b_disk (w_file w')) \<and>
    (err = LIo \<or> \<not> entry_valid (w_session_id w) e \<and> w' = w)"
  using assms append_entry_err [OF assms] append_entry_file [OF assms]
  by (cases err)
     (auto simp: disk_grows_def current_head_def append_entry_cases entry_valid_def Let_def
       split: if_splits option.splits prod.splits sum.splits
       dest: persist_line_err find_reserved_Some)

theorem append_failure_keeps_chain_witness:
  "\<exists>err w'. append_entry libs0 (demo_entry ''other'') (demo_writer V1) = (Inl err, w') \<and>
     w_next_sequence w' = 0 \<and> w' = demo_writer V1"
proof -
  have "append_entry libs0 (demo_entry ''other'') (demo_writer V1) =
      (Inl (LSessionIdMismatch ''s1'' ''other''), demo_writer V1)"
    by (simp add: append_entry_cases demo_entry_def demo_writer_def)
  from append_failure_keeps_chain [OF this] this show ?thesis by (simp add: demo_writer_def)
qed

end
