(* ===== verification/Identity.thy ===== *)
theory Identity
  imports Libs
begin

text \<open>
  Workload identity, \<open>crates/identity/src/spiffe.rs\<close> and \<open>svid.rs\<close>: SPIFFE IDs with their strict
  parser, the digest triple and the turn binding with their wire formats.

  A \<open>Digest\<close> is a byte string; \<open>digest_ok\<close> is the Rust type's fixed length of 32. \<open>IdPanic\<close> is
  not a value of the Rust error type: it stands for a panic.
\<close>

datatype identity_error =
    IdIo
  | IdRcgen string
  | IdCertParse string
  | IdInvalidSpiffeId string string
  | IdInvalidTrustDomain string
  | IdCaAlreadyInitialized string
  | IdCaNotInitialized string
  | IdInvalidDigestLength nat
  | IdPanic

section \<open>SPIFFE IDs\<close>

definition SCHEME :: string where
  "SCHEME = ''spiffe://''"

definition AGENT_SEGMENT :: string where
  "AGENT_SEGMENT = ''agent''"

record SpiffeId =
  sp_trust_domain :: string
  sp_workload_name :: string
  sp_instance :: string

definition trust_domain_char :: "char \<Rightarrow> bool" where
  "trust_domain_char c \<longleftrightarrow> is_lower c \<or> is_digit c \<or> c \<in> {CHR ''.'', CHR ''-'', CHR ''_''}"

definition segment_char :: "char \<Rightarrow> bool" where
  "segment_char c \<longleftrightarrow> is_lower c \<or> is_upper c \<or> is_digit c \<or>
     c \<in> {CHR ''.'', CHR ''-'', CHR ''_'', CHR ''~''}"

definition validate_trust_domain :: "string \<Rightarrow> identity_error + unit" where
  "validate_trust_domain td =
     (if td = [] \<or> length td > 255 then Inl (IdInvalidTrustDomain td)
      else if \<not> list_all trust_domain_char td then Inl (IdInvalidTrustDomain td)
      else Inr ())"

definition validate_segment :: "string \<Rightarrow> identity_error + unit" where
  "validate_segment seg =
     (if seg = [] \<or> length seg > 63 then
        Inl (IdInvalidSpiffeId seg ''path segment must be 1..=63 chars'')
      else if \<not> list_all segment_char seg then
        Inl (IdInvalidSpiffeId seg ''path segment has disallowed character'')
      else Inr ())"

definition spiffe_new :: "string \<Rightarrow> string \<Rightarrow> string \<Rightarrow> identity_error + SpiffeId" where
  "spiffe_new td wl inst =
     andThen (validate_trust_domain td) (\<lambda>_.
     andThen (validate_segment wl) (\<lambda>_.
     andThen (validate_segment inst) (\<lambda>_.
     Inr \<lparr> sp_trust_domain = td, sp_workload_name = wl, sp_instance = inst \<rparr>)))"

definition spiffe_uri :: "SpiffeId \<Rightarrow> string" where
  "spiffe_uri i = SCHEME @ sp_trust_domain i @ ''/'' @ AGENT_SEGMENT @ ''/'' @ sp_workload_name i
     @ ''/'' @ sp_instance i"

text \<open>\<open>splitn(n, c)\<close>: at most \<open>n\<close> parts, the last one unsplit.\<close>

fun splitn :: "nat \<Rightarrow> 'a \<Rightarrow> 'a list \<Rightarrow> 'a list list" where
  "splitn 0 c s = []"
| "splitn (Suc 0) c s = [s]"
| "splitn (Suc (Suc n)) c s =
     (case split_at c s of None \<Rightarrow> [s] | Some (a, b) \<Rightarrow> a # splitn (Suc n) c b)"

definition spiffe_parse :: "string \<Rightarrow> identity_error + SpiffeId" where
  "spiffe_parse input =
     (let bad = (\<lambda>reason. Inl (IdInvalidSpiffeId input reason)) in
      case strip_prefix SCHEME input of
        None \<Rightarrow> bad ''missing spiffe:// scheme''
      | Some rest \<Rightarrow>
          (case splitn 4 (CHR ''/'') rest of
             [] \<Rightarrow> bad ''missing trust domain''
           | [_] \<Rightarrow> bad ''missing path''
           | [_, _] \<Rightarrow> bad ''missing workload-name segment''
           | [_, _, _] \<Rightarrow> bad ''missing instance segment''
           | td # agent_seg # workload # inst # _ \<Rightarrow>
               if agent_seg \<noteq> AGENT_SEGMENT then bad ''first path segment must be agent''
               else if CHR ''/'' \<in> set inst then bad ''trailing path segments not allowed''
               else spiffe_new td workload inst))"

definition spiffe_valid :: "SpiffeId \<Rightarrow> bool" where
  "spiffe_valid i \<longleftrightarrow>
     sp_trust_domain i \<noteq> [] \<and> length (sp_trust_domain i) \<le> 255 \<and>
     list_all trust_domain_char (sp_trust_domain i) \<and>
     (\<forall>s \<in> {sp_workload_name i, sp_instance i}. s \<noteq> [] \<and> length s \<le> 63 \<and> list_all segment_char s)"

lemma validate_ok [simp]:
  "validate_trust_domain td = Inr u \<longleftrightarrow> td \<noteq> [] \<and> length td \<le> 255 \<and> list_all trust_domain_char td"
  "validate_segment s = Inr u \<longleftrightarrow> s \<noteq> [] \<and> length s \<le> 63 \<and> list_all segment_char s"
  by (auto simp: validate_trust_domain_def validate_segment_def)

lemma spiffe_new_Inr:
  "spiffe_new td wl inst = Inr i \<longleftrightarrow>
     spiffe_valid i \<and> i = \<lparr> sp_trust_domain = td, sp_workload_name = wl, sp_instance = inst \<rparr>"
  by (auto simp: spiffe_new_def spiffe_valid_def)

lemma slash_not_allowed [simp]: "\<not> trust_domain_char (CHR ''/'')" "\<not> segment_char (CHR ''/'')"
  by (simp_all add: trust_domain_char_def segment_char_def is_lower_def is_upper_def is_digit_def)

lemma no_slash:
  "list_all trust_domain_char s \<Longrightarrow> CHR ''/'' \<notin> set s"
  "list_all segment_char s \<Longrightarrow> CHR ''/'' \<notin> set s"
  by (auto simp: list_all_iff)

lemma splitn_four:
  "splitn 4 c s = a # b # d # e # r \<longleftrightarrow> r = [] \<and> s = a @ c # b @ c # d @ c # e \<and>
     c \<notin> set a \<and> c \<notin> set b \<and> c \<notin> set d"
proof
  assume "splitn 4 c s = a # b # d # e # r"
  then show "r = [] \<and> s = a @ c # b @ c # d @ c # e \<and> c \<notin> set a \<and> c \<notin> set b \<and> c \<notin> set d"
    by (auto simp: eval_nat_numeral split_at_Some split: option.splits)
qed (simp add: eval_nat_numeral)

lemma length_splitn: "length (splitn n c s) \<le> n"
  by (induction n c s rule: splitn.induct) (auto split: option.splits)

lemma spiffe_parse_Inr:
  "spiffe_parse s = Inr i \<longleftrightarrow>
     (\<exists>td wl inst. splitn 4 (CHR ''/'') (drop (length SCHEME) s) = [td, AGENT_SEGMENT, wl, inst] \<and>
        prefix SCHEME s \<and> CHR ''/'' \<notin> set inst \<and> spiffe_new td wl inst = Inr i)"
proof -
  define ps where "ps = splitn 4 (CHR ''/'') (drop (length SCHEME) s)"
  have "length ps \<le> 4" unfolding ps_def by (rule length_splitn)
  then show ?thesis
    unfolding spiffe_parse_def strip_prefix_def Let_def ps_def [symmetric]
    by (auto simp: ps_def [symmetric] split: list.splits if_splits)
qed

section \<open>Digests and their wire formats\<close>

definition digest_ok :: "bytes \<Rightarrow> bool" where
  "digest_ok d \<longleftrightarrow> length d = 32"

definition digest_from_bytes :: "bytes \<Rightarrow> identity_error + bytes" where
  "digest_from_bytes b = (if length b \<noteq> 32 then Inl (IdInvalidDigestLength (length b)) else Inr b)"

definition digest_from_hex :: "'a libs_scheme \<Rightarrow> string \<Rightarrow> identity_error + bytes" where
  "digest_from_hex L s =
     (case hex_decode L s of
        None \<Rightarrow> Inl (IdInvalidDigestLength (length s div 2))
      | Some b \<Rightarrow> digest_from_bytes b)"

definition digest_hex :: "'a libs_scheme \<Rightarrow> bytes \<Rightarrow> string" where
  "digest_hex L d = hex_encode L d"

record DigestTriple =
  dt_model :: bytes
  dt_manifest :: bytes
  dt_config :: bytes

definition triple_ok :: "DigestTriple \<Rightarrow> bool" where
  "triple_ok t \<longleftrightarrow> digest_ok (dt_model t) \<and> digest_ok (dt_manifest t) \<and> digest_ok (dt_config t)"

definition DIGEST_BINDING_LEN :: nat where
  "DIGEST_BINDING_LEN = 32 * 3"

definition triple_encode :: "DigestTriple \<Rightarrow> bytes" where
  "triple_encode t = dt_model t @ dt_manifest t @ dt_config t"

definition triple_decode :: "bytes \<Rightarrow> identity_error + DigestTriple" where
  "triple_decode b =
     (if length b \<noteq> DIGEST_BINDING_LEN then Inl (IdInvalidDigestLength (length b))
      else andThen (digest_from_bytes (take 32 b)) (\<lambda>m.
           andThen (digest_from_bytes (take 32 (drop 32 b))) (\<lambda>f.
           andThen (digest_from_bytes (take 32 (drop 64 b))) (\<lambda>c.
           Inr \<lparr> dt_model = m, dt_manifest = f, dt_config = c \<rparr>))))"

text \<open>The turn binding: a two-byte big-endian length, then the audience.\<close>

record TurnBinding =
  tb_audience :: string

definition turn_binding_encode :: "TurnBinding \<Rightarrow> identity_error + bytes" where
  "turn_binding_encode b =
     (let n = length (tb_audience b) in
      if n = 0 then Inl (IdCertParse ''turn binding audience must not be empty'')
      else if n > 65535 then
        Inl (IdCertParse (''turn binding audience too long: '' @ show_nat n @ '' bytes''))
      else Inr (char_of (n div 256) # char_of (n mod 256) # tb_audience b))"

definition turn_binding_decode :: "bytes \<Rightarrow> identity_error + TurnBinding" where
  "turn_binding_decode bs =
     (case bs of
        a # b # r \<Rightarrow>
          let len = 256 * byte_val a + byte_val b in
          if length bs < 2 + len then
            Inl (IdCertParse (''turn binding length prefix '' @ show_nat len @ '' exceeds remaining ''
              @ show_nat (length bs - 2) @ '' bytes''))
          else if \<not> utf8_ok (take len r) then Inl (IdCertParse ''turn binding audience not utf-8'')
          else Inr \<lparr> tb_audience = take len r \<rparr>
      | _ \<Rightarrow> Inl (IdCertParse (''turn binding truncated: '' @ show_nat (length bs) @ '' bytes'')))"

lemma spiffe_parse_iff:
  "spiffe_parse s = Inr i \<longleftrightarrow> spiffe_valid i \<and> s = spiffe_uri i"
proof
  assume "spiffe_parse s = Inr i"
  then obtain td wl inst
    where sp: "splitn 4 (CHR ''/'') (drop (length SCHEME) s) = [td, AGENT_SEGMENT, wl, inst]"
      and pre: "prefix SCHEME s" and new: "spiffe_new td wl inst = Inr i"
    unfolding spiffe_parse_Inr by blast
  from pre have "s = SCHEME @ drop (length SCHEME) s" by (auto simp: prefix_def)
  with sp have "s = SCHEME @ td @ CHR ''/'' # AGENT_SEGMENT @ CHR ''/'' # wl @ CHR ''/'' # inst"
    unfolding splitn_four by metis
  with new show "spiffe_valid i \<and> s = spiffe_uri i"
    unfolding spiffe_new_Inr spiffe_uri_def by auto
next
  assume a: "spiffe_valid i \<and> s = spiffe_uri i"
  then have "CHR ''/'' \<notin> set (sp_trust_domain i)" "CHR ''/'' \<notin> set (sp_workload_name i)"
    "CHR ''/'' \<notin> set (sp_instance i)"
    using no_slash by (simp_all add: spiffe_valid_def)
  moreover have "CHR ''/'' \<notin> set AGENT_SEGMENT" by (simp add: AGENT_SEGMENT_def)
  ultimately have "splitn 4 (CHR ''/'') (drop (length SCHEME) s)
      = [sp_trust_domain i, AGENT_SEGMENT, sp_workload_name i, sp_instance i]"
    using a unfolding splitn_four by (simp add: spiffe_uri_def)
  moreover have "prefix SCHEME s" using a by (simp add: spiffe_uri_def)
  ultimately show "spiffe_parse s = Inr i"
    using a \<open>CHR ''/'' \<notin> set (sp_instance i)\<close> unfolding spiffe_parse_Inr spiffe_new_Inr by auto
qed

lemma spiffe_parse_uri: "spiffe_valid i \<Longrightarrow> spiffe_parse (spiffe_uri i) = Inr i"
  by (simp add: spiffe_parse_iff)

lemma triple_decode_iff:
  "triple_decode b = Inr t \<longleftrightarrow> triple_ok t \<and> b = triple_encode t"
proof
  assume d: "triple_decode b = Inr t"
  then have "length b = 96"
    and t: "t = \<lparr> dt_model = take 32 b, dt_manifest = take 32 (drop 32 b), dt_config = take 32 (drop 64 b) \<rparr>"
    by (simp_all add: triple_decode_def digest_from_bytes_def DIGEST_BINDING_LEN_def split: if_splits)
  moreover have "b = take 32 b @ take 32 (drop 32 b) @ take 32 (drop 64 b)"
  proof -
    have "take 32 (drop 64 b) = drop 64 b" using \<open>length b = 96\<close> by simp
    moreover have "drop 32 b = take 32 (drop 32 b) @ drop 64 b"
      using append_take_drop_id [of 32 "drop 32 b"] by simp
    ultimately show ?thesis by (metis append_take_drop_id)
  qed
  ultimately show "triple_ok t \<and> b = triple_encode t"
    by (simp add: triple_ok_def digest_ok_def triple_encode_def)
next
  assume "triple_ok t \<and> b = triple_encode t"
  then show "triple_decode b = Inr t"
    by (simp add: triple_ok_def digest_ok_def triple_encode_def triple_decode_def
        digest_from_bytes_def DIGEST_BINDING_LEN_def)
qed

lemma triple_decode_encode: "triple_ok t \<Longrightarrow> triple_decode (triple_encode t) = Inr t"
  by (simp add: triple_decode_iff)

lemma be16_round_trip:
  assumes "n < 2 ^ 16"
  shows "256 * byte_val (char_of (n div 256)) + byte_val (char_of (n mod 256)) = n"
proof -
  have "n div 256 < 256" using assms by (simp add: less_mult_imp_div_less)
  then show ?thesis by simp
qed

lemma turn_binding_decode_encode:
  assumes "utf8_ok a" and "length a < 2 ^ 16"
  shows "turn_binding_decode ((char_of (length a div 256) # char_of (length a mod 256) # a) @ rest)
     = Inr \<lparr> tb_audience = a \<rparr>"
  using assms be16_round_trip [OF assms(2)]
  by (simp add: turn_binding_decode_def Let_def del: of_char_of)

section \<open>Properties\<close>

text \<open>The SPIFFE parser accepts exactly the canonical URIs of valid identities: a string
  parses to an identity precisely when the identity is valid and the string is its URI, so that
  parsing and printing are inverse and no second spelling of an identity exists.\<close>

theorem spiffe_parse_canonical:
  "spiffe_parse s = Inr i \<longleftrightarrow> spiffe_valid i \<and> s = spiffe_uri i"
  by (rule spiffe_parse_iff)

text \<open>The digest triple's wire format is exactly 96 bytes and loses nothing: a byte string
  decodes to a triple precisely when it is that triple's encoding and the triple's digests have
  32 bytes each.\<close>

theorem triple_wire_format:
  "triple_decode b = Inr t \<longleftrightarrow> triple_ok t \<and> b = triple_encode t"
  by (rule triple_decode_iff)

text \<open>A turn binding that encodes decodes to itself, also with later fields appended after
  the audience; and it encodes exactly when the audience has between 1 and 65535 bytes.\<close>

theorem turn_binding_round_trip:
  assumes "utf8_ok (tb_audience b)"
  shows "(\<exists>w. turn_binding_encode b = Inr w \<and> (\<forall>rest. turn_binding_decode (w @ rest) = Inr b))
     \<longleftrightarrow> tb_audience b \<noteq> [] \<and> length (tb_audience b) < 2 ^ 16"
proof (cases "tb_audience b \<noteq> [] \<and> length (tb_audience b) < 2 ^ 16")
  case True
  then have "turn_binding_encode b = Inr (char_of (length (tb_audience b) div 256) #
      char_of (length (tb_audience b) mod 256) # tb_audience b)"
    by (simp add: turn_binding_encode_def Let_def)
  with turn_binding_decode_encode [OF assms] True show ?thesis
    by (metis TurnBinding.surjective old.unit.exhaust)
next
  case False
  then show ?thesis by (auto simp: turn_binding_encode_def Let_def)
qed

theorem turn_binding_round_trip_witness:
  "(\<exists>w. turn_binding_encode \<lparr> tb_audience = ''aegis-turn://s1/3'' \<rparr> = Inr w \<and>
     (\<forall>rest. turn_binding_decode (w @ rest) = Inr \<lparr> tb_audience = ''aegis-turn://s1/3'' \<rparr>))"
  using turn_binding_round_trip [of "\<lparr> tb_audience = ''aegis-turn://s1/3'' \<rparr>"] by simp

end
