(* ===== verification/Ca.thy ===== *)
theory Ca
  imports Identity "HOL-Library.Countable"
begin

text \<open>
  The local certificate authority, \<open>crates/identity/src/ca.rs\<close>, and the digest-binding checks,
  \<open>binding.rs\<close>. Certificate signing (\<open>rcgen\<close>) and parsing (\<open>x509_parser\<close>) are parameters;
  \<open>x509_laws\<close> says that a signed certificate parses back to what was put in. Adding a duration to
  an \<open>OffsetDateTime\<close> panics when the sum is out of range (\<open>offset_add\<close> is then \<open>None\<close>).
\<close>

section \<open>The X.509 libraries\<close>

text \<open>What a leaf certificate is built from: validity, common name, URI names, and the custom
  extensions with their object identifiers.\<close>

datatype cert_params = CertParams
  (cp_not_before: int) (cp_not_after: int) (cp_common_name: string) (cp_san_uris: "string list")
  (cp_custom_extensions: "(u64 list \<times> bytes) list")

text \<open>A parsed certificate: its extensions with their dotted identifiers, and the URI names of its
  subject-alternative-name extensions.\<close>

datatype parsed_cert = ParsedCert
  (pc_extensions: "(string \<times> bytes) list") (pc_san_uris: "string list")

record x509_lib =
  first_pem :: "string \<Rightarrow> (string + bytes) option"
  parse_x509 :: "bytes \<Rightarrow> string + parsed_cert"
  sign_leaf :: "string \<Rightarrow> string \<Rightarrow> cert_params \<Rightarrow> string \<Rightarrow> string + string"
  self_sign_ca :: "string \<Rightarrow> string \<Rightarrow> time \<Rightarrow> string + string"
  reload_ca :: "string \<Rightarrow> string \<Rightarrow> string + string"
  generate_key :: "nat \<Rightarrow> string + string"
  key_from_pem :: "string \<Rightarrow> string + string"
  ia5_ok :: "string \<Rightarrow> bool"
  offset_add :: "time \<Rightarrow> time \<Rightarrow> time option"

definition oid_components_to_dotted :: "u64 list \<Rightarrow> string" where
  "oid_components_to_dotted parts = join ''.'' (map (\<lambda>n. show_nat (unat n)) parts)"

definition DIGEST_BINDING_OID :: "u64 list" where
  "DIGEST_BINDING_OID = [1, 3, 6, 1, 4, 1, 99999, 1]"

definition CHAT_TEMPLATE_BINDING_OID :: "u64 list" where
  "CHAT_TEMPLATE_BINDING_OID = [1, 3, 6, 1, 4, 1, 99999, 2]"

definition CHAT_TEMPLATE_BINDING_LEN :: nat where
  "CHAT_TEMPLATE_BINDING_LEN = 32"

definition TURN_BINDING_OID :: "u64 list" where
  "TURN_BINDING_OID = [1, 3, 6, 1, 4, 1, 99999, 3]"

text \<open>The private arc the three object identifiers live in: the signer adds nothing there.\<close>

definition private_oids :: "u64 list set" where
  "private_oids = {DIGEST_BINDING_OID, CHAT_TEMPLATE_BINDING_OID, TURN_BINDING_OID}"

definition x509_laws :: "x509_lib \<Rightarrow> bool" where
  "x509_laws X \<longleftrightarrow>
     (\<forall>cert key p leaf pem. sign_leaf X cert key p leaf = Inr pem \<longrightarrow>
        (\<exists>der pc. first_pem X pem = Some (Inr der) \<and> parse_x509 X der = Inr pc \<and>
           pc_san_uris pc = cp_san_uris p \<and>
           (\<forall>oid \<in> private_oids.
              map_of (pc_extensions pc) (oid_components_to_dotted oid) =
              map_of (cp_custom_extensions p) oid)))"

section \<open>Issuing\<close>

record X509Svid =
  sv_spiffe_id :: SpiffeId
  sv_digests :: DigestTriple
  sv_chat_template :: "bytes option"
  sv_cert_pem :: string
  sv_key_pem :: string

record LocalCa =
  ca_dir :: string
  ca_trust_domain :: string
  ca_cert :: string
  ca_key :: string

definition minutes :: "int \<Rightarrow> time" where
  "minutes n = n * 60 * 1000000000"

definition hours :: "int \<Rightarrow> time" where
  "hours n = n * 3600 * 1000000000"

definition SVID_VALIDITY_HOURS :: int where
  "SVID_VALIDITY_HOURS = 24"

definition of_lib :: "('b \<Rightarrow> 'e) \<Rightarrow> 'b + 'a \<Rightarrow> 'e + 'a" where
  "of_lib g r = (case r of Inl e \<Rightarrow> Inl (g e) | Inr x \<Rightarrow> Inr x)"

lemma of_lib_Inr [simp]: "of_lib g r = Inr x \<longleftrightarrow> r = Inr x"
  by (cases r) (auto simp: of_lib_def)

text \<open>The parameters both issuing functions fill in, then the key and the signature. \<open>turn\<close> is the
  encoded turn binding, absent on session SVIDs.\<close>

definition leaf_params :: "time \<Rightarrow> time \<Rightarrow> string \<Rightarrow> SpiffeId \<Rightarrow> DigestTriple \<Rightarrow> bytes option
    \<Rightarrow> bytes option \<Rightarrow> cert_params" where
  "leaf_params now not_after workload sid digests template turn =
     CertParams (now - minutes 5) not_after workload [spiffe_uri sid]
       ((DIGEST_BINDING_OID, triple_encode digests) #
        map (Pair CHAT_TEMPLATE_BINDING_OID) (opt_list template) @
        map (Pair TURN_BINDING_OID) (opt_list turn))"

definition sign_svid :: "x509_lib \<Rightarrow> LocalCa \<Rightarrow> nat \<Rightarrow> SpiffeId \<Rightarrow> DigestTriple \<Rightarrow> bytes option
    \<Rightarrow> cert_params \<Rightarrow> identity_error + X509Svid" where
  "sign_svid X ca k sid digests template params =
     andThen (of_lib IdRcgen (generate_key X k)) (\<lambda>leaf_key.
     andThen (of_lib IdRcgen (sign_leaf X (ca_cert ca) (ca_key ca) params leaf_key)) (\<lambda>pem.
     Inr \<lparr> sv_spiffe_id = sid, sv_digests = digests, sv_chat_template = template,
           sv_cert_pem = pem, sv_key_pem = leaf_key \<rparr>))"

definition issue_svid_with_chat_template ::
  "x509_lib \<Rightarrow> time \<Rightarrow> nat \<Rightarrow> LocalCa \<Rightarrow> string \<Rightarrow> string \<Rightarrow> DigestTriple \<Rightarrow> bytes option
     \<Rightarrow> identity_error + X509Svid" where
  "issue_svid_with_chat_template X now k ca workload inst digests template =
     andThen (spiffe_new (ca_trust_domain ca) workload inst) (\<lambda>sid.
     andThen (of_option IdPanic (offset_add X now (hours SVID_VALIDITY_HOURS))) (\<lambda>not_after.
     andThen (guardE (ia5_ok X (spiffe_uri sid)) (IdCertParse ''SPIFFE URI not IA5-encodable'')) (\<lambda>_.
     sign_svid X ca k sid digests template
       (leaf_params now not_after workload sid digests template None))))"

definition issue_svid ::
  "x509_lib \<Rightarrow> time \<Rightarrow> nat \<Rightarrow> LocalCa \<Rightarrow> string \<Rightarrow> string \<Rightarrow> DigestTriple \<Rightarrow> identity_error + X509Svid" where
  "issue_svid X now k ca workload inst digests =
     issue_svid_with_chat_template X now k ca workload inst digests None"

definition issue_turn_svid_ca ::
  "x509_lib \<Rightarrow> time \<Rightarrow> nat \<Rightarrow> LocalCa \<Rightarrow> string \<Rightarrow> string \<Rightarrow> DigestTriple \<Rightarrow> bytes option
     \<Rightarrow> string \<Rightarrow> time \<Rightarrow> identity_error + X509Svid" where
  "issue_turn_svid_ca X now k ca workload inst digests template audience ttl =
     andThen (spiffe_new (ca_trust_domain ca) workload inst) (\<lambda>sid.
     andThen (of_option IdPanic (offset_add X now ttl)) (\<lambda>not_after.
     andThen (guardE (ia5_ok X (spiffe_uri sid)) (IdCertParse ''SPIFFE URI not IA5-encodable'')) (\<lambda>_.
     andThen (turn_binding_encode \<lparr> tb_audience = audience \<rparr>) (\<lambda>turn.
     sign_svid X ca k sid digests template
       (leaf_params now not_after workload sid digests template (Some turn))))))"

section \<open>Reading a certificate\<close>

definition parse_pem :: "x509_lib \<Rightarrow> string \<Rightarrow> identity_error + bytes" where
  "parse_pem X pem =
     andThen (of_option (IdCertParse ''no PEM block'') (first_pem X pem)) (of_lib IdCertParse)"

definition parse_cert :: "x509_lib \<Rightarrow> string \<Rightarrow> identity_error + parsed_cert" where
  "parse_cert X pem = andThen (parse_pem X pem) (\<lambda>der. of_lib IdCertParse (parse_x509 X der))"

definition find_extension :: "parsed_cert \<Rightarrow> u64 list \<Rightarrow> bytes option" where
  "find_extension c oid = map_of (pc_extensions c) (oid_components_to_dotted oid)"

definition extract_digest_triple_from_pem :: "x509_lib \<Rightarrow> string \<Rightarrow> identity_error + DigestTriple" where
  "extract_digest_triple_from_pem X pem =
     andThen (parse_cert X pem) (\<lambda>c.
     andThen (of_option (IdCertParse (''missing digest-binding extension '' @
                oid_components_to_dotted DIGEST_BINDING_OID)) (find_extension c DIGEST_BINDING_OID))
       triple_decode)"

definition extract_chat_template_from_pem :: "x509_lib \<Rightarrow> string \<Rightarrow> identity_error + bytes option" where
  "extract_chat_template_from_pem X pem =
     andThen (parse_cert X pem) (\<lambda>c.
     case find_extension c CHAT_TEMPLATE_BINDING_OID of
       Some v \<Rightarrow>
         if length v \<noteq> CHAT_TEMPLATE_BINDING_LEN then
           Inl (IdCertParse (''chat-template binding extension has wrong length: expected ''
             @ show_nat CHAT_TEMPLATE_BINDING_LEN @ '', got '' @ show_nat (length v)))
         else andThen (digest_from_bytes v) (\<lambda>d. Inr (Some d))
     | None \<Rightarrow> Inr None)"

definition extract_turn_binding_from_pem :: "x509_lib \<Rightarrow> string \<Rightarrow> identity_error + TurnBinding option" where
  "extract_turn_binding_from_pem X pem =
     andThen (parse_cert X pem) (\<lambda>c.
     case find_extension c TURN_BINDING_OID of
       Some v \<Rightarrow> andThen (turn_binding_decode v) (\<lambda>b. Inr (Some b))
     | None \<Rightarrow> Inr None)"

definition extract_spiffe_id_from_pem :: "x509_lib \<Rightarrow> string \<Rightarrow> identity_error + SpiffeId" where
  "extract_spiffe_id_from_pem X pem =
     andThen (parse_cert X pem) (\<lambda>c.
     case pc_san_uris c of
       uri # _ \<Rightarrow> spiffe_parse uri
     | [] \<Rightarrow> Inl (IdCertParse ''no URI SAN found''))"

definition cert_thumbprint_hex :: "'a libs_scheme \<Rightarrow> x509_lib \<Rightarrow> string \<Rightarrow> identity_error + string" where
  "cert_thumbprint_hex L X pem =
     andThen (parse_pem X pem) (\<lambda>der. Inr (hex_encode L (sha256 L der)))"

section \<open>The binding checks\<close>

datatype DigestField = FieldModel | FieldManifest | FieldConfig | FieldChatTemplate

fun digest_field_name :: "DigestField \<Rightarrow> string" where
  "digest_field_name FieldModel = ''model''"
| "digest_field_name FieldManifest = ''manifest''"
| "digest_field_name FieldConfig = ''config''"
| "digest_field_name FieldChatTemplate = ''chat_template''"

record DigestMismatch =
  dm_field :: DigestField
  dm_bound :: bytes
  dm_live :: bytes

definition digest_mismatch_display :: "'a libs_scheme \<Rightarrow> DigestMismatch \<Rightarrow> string" where
  "digest_mismatch_display L m =
     digest_field_name (dm_field m) @ '' digest changed (bound='' @ digest_hex L (dm_bound m) @
     '', live='' @ digest_hex L (dm_live m) @ '')''"

definition verify_digest_binding :: "x509_lib \<Rightarrow> string \<Rightarrow> DigestTriple
    \<Rightarrow> identity_error + DigestMismatch option" where
  "verify_digest_binding X pem live =
     andThen (extract_digest_triple_from_pem X pem) (\<lambda>bound.
     if dt_model bound \<noteq> dt_model live then
       Inr (Some \<lparr> dm_field = FieldModel, dm_bound = dt_model bound, dm_live = dt_model live \<rparr>)
     else if dt_manifest bound \<noteq> dt_manifest live then
       Inr (Some \<lparr> dm_field = FieldManifest, dm_bound = dt_manifest bound, dm_live = dt_manifest live \<rparr>)
     else if dt_config bound \<noteq> dt_config live then
       Inr (Some \<lparr> dm_field = FieldConfig, dm_bound = dt_config bound, dm_live = dt_config live \<rparr>)
     else Inr None)"

definition verify_chat_template_binding :: "x509_lib \<Rightarrow> string \<Rightarrow> bytes option
    \<Rightarrow> identity_error + DigestMismatch option" where
  "verify_chat_template_binding X pem live =
     andThen (extract_chat_template_from_pem X pem) (\<lambda>bound.
     case (bound, live) of
       (None, _) \<Rightarrow> Inr None
     | (Some b, Some l) \<Rightarrow>
         if b = l then Inr None
         else Inr (Some \<lparr> dm_field = FieldChatTemplate, dm_bound = b, dm_live = l \<rparr>)
     | (Some b, None) \<Rightarrow>
         Inr (Some \<lparr> dm_field = FieldChatTemplate, dm_bound = b, dm_live = replicate 32 (CHR 0x00) \<rparr>))"

section \<open>The authority on disk\<close>

text \<open>The files under the directory, and what the environment makes of each file operation.\<close>

datatype file_outcome = FileOk | FileNotDone | FilePartial nat

record ca_store =
  cs_files :: "string \<rightharpoonup> bytes"
  cs_calls :: nat
  cs_outcome :: "nat \<Rightarrow> file_outcome"

definition CA_CERT_FILE :: string where "CA_CERT_FILE = ''ca.crt''"
definition CA_KEY_FILE :: string where "CA_KEY_FILE = ''ca.key''"
definition TRUST_DOMAIN_FILE :: string where "TRUST_DOMAIN_FILE = ''trust_domain''"

definition join_path :: "string \<Rightarrow> string \<Rightarrow> string" where
  "join_path dir name = dir @ ''/'' @ name"

text \<open>\<open>write_file\<close> opens with \<open>create_new\<close>; a failed write leaves the bytes written so far.\<close>

definition write_file :: "string \<Rightarrow> bytes \<Rightarrow> (ca_store, identity_error, unit) act" where
  "write_file path contents = (\<lambda>s.
     let s1 = s\<lparr> cs_calls := Suc (cs_calls s) \<rparr> in
     if cs_files s path \<noteq> None then (Inl IdIo, s1)
     else case cs_outcome s (cs_calls s) of
       FileOk \<Rightarrow> (Inr (), s1\<lparr> cs_files := (cs_files s)(path \<mapsto> contents) \<rparr>)
     | FileNotDone \<Rightarrow> (Inl IdIo, s1)
     | FilePartial n \<Rightarrow> (Inl IdIo, s1\<lparr> cs_files := (cs_files s)(path \<mapsto> take n contents) \<rparr>))"

definition file_op :: "(ca_store, identity_error, unit) act" where
  "file_op = (\<lambda>s. (if cs_outcome s (cs_calls s) = FileOk then Inr () else Inl IdIo,
                   s\<lparr> cs_calls := Suc (cs_calls s) \<rparr>))"

definition read_to_string :: "string \<Rightarrow> (ca_store, identity_error, string) act" where
  "read_to_string path =
     bindA file_op (\<lambda>_. bindA (getA (\<lambda>s. cs_files s path)) (\<lambda>f.
     case f of Some b \<Rightarrow> if utf8_ok b then okA b else errA IdIo | None \<Rightarrow> errA IdIo))"

definition validate_trust_domain_for_ca :: "string \<Rightarrow> identity_error + unit" where
  "validate_trust_domain_for_ca td = andThen (spiffe_new td ''ca'' ''root'') (\<lambda>_. Inr ())"

definition ca_init :: "x509_lib \<Rightarrow> time \<Rightarrow> nat \<Rightarrow> string \<Rightarrow> string
    \<Rightarrow> (ca_store, identity_error, LocalCa) act" where
  "ca_init X now k dir td =
     bindA (getA (\<lambda>s. cs_files s (join_path dir CA_CERT_FILE))) (\<lambda>old.
     if old \<noteq> None then errA (IdCaAlreadyInitialized dir)
     else bindA (liftA (validate_trust_domain_for_ca td)) (\<lambda>_.
     bindA file_op (\<lambda>_.
     bindA (liftA (of_lib IdRcgen (generate_key X k))) (\<lambda>key.
     bindA (liftA (of_lib IdRcgen (self_sign_ca X td key now))) (\<lambda>cert.
     bindA (write_file (join_path dir CA_CERT_FILE) cert) (\<lambda>_.
     bindA (write_file (join_path dir CA_KEY_FILE) key) (\<lambda>_.
     bindA (write_file (join_path dir TRUST_DOMAIN_FILE) td) (\<lambda>_.
     okA \<lparr> ca_dir = dir, ca_trust_domain = td, ca_cert = cert, ca_key = key \<rparr>))))))))"

definition ca_load :: "x509_lib \<Rightarrow> string \<Rightarrow> (ca_store, identity_error, LocalCa) act" where
  "ca_load X dir =
     bindA (getA cs_files) (\<lambda>fs.
     if fs (join_path dir CA_CERT_FILE) = None \<or> fs (join_path dir CA_KEY_FILE) = None \<or>
        fs (join_path dir TRUST_DOMAIN_FILE) = None
     then errA (IdCaNotInitialized dir)
     else bindA (read_to_string (join_path dir CA_CERT_FILE)) (\<lambda>ca_pem.
     bindA (read_to_string (join_path dir CA_KEY_FILE)) (\<lambda>key_pem.
     bindA (read_to_string (join_path dir TRUST_DOMAIN_FILE)) (\<lambda>raw.
     bindA (liftA (validate_trust_domain_for_ca (trim raw))) (\<lambda>_.
     bindA (liftA (of_lib IdRcgen (key_from_pem X key_pem))) (\<lambda>key.
     bindA (liftA (of_lib IdRcgen (reload_ca X ca_pem key))) (\<lambda>cert.
     okA \<lparr> ca_dir = dir, ca_trust_domain = trim raw, ca_cert = cert, ca_key = key \<rparr>)))))))"

section \<open>A certificate library for examples\<close>

text \<open>A PEM is the number of the parameters in unary, and everything succeeds.\<close>

instance cert_params :: countable by countable_datatype

definition x509_demo :: x509_lib where
  "x509_demo =
     \<lparr> first_pem = (\<lambda>s. Some (Inr s)),
       parse_x509 = (\<lambda>d. let p = from_nat (length d) :: cert_params in
          Inr (ParsedCert (map (\<lambda>(oid, v). (oid_components_to_dotted oid, v)) (cp_custom_extensions p))
                 (cp_san_uris p))),
       sign_leaf = (\<lambda>cert key p leaf.
          if set (map fst (cp_custom_extensions p)) \<subseteq> private_oids
          then Inr (replicate (to_nat p) CHR ''x'') else Inl ''unsupported extension''),
       self_sign_ca = (\<lambda>td key now. Inr (''cert '' @ td)),
       reload_ca = (\<lambda>cert key. Inr cert),
       generate_key = (\<lambda>k. Inr (''key '' @ show_nat k)),
       key_from_pem = Inr,
       ia5_ok = (\<lambda>_. True),
       offset_add = (\<lambda>t d. if t + d < 253402300800 * 1000000000 then Some (t + d) else None) \<rparr>"

lemma dotted_oids [simp]:
  "oid_components_to_dotted DIGEST_BINDING_OID = ''1.3.6.1.4.1.99999.1''"
  "oid_components_to_dotted CHAT_TEMPLATE_BINDING_OID = ''1.3.6.1.4.1.99999.2''"
  "oid_components_to_dotted TURN_BINDING_OID = ''1.3.6.1.4.1.99999.3''"
  by (simp_all add: oid_components_to_dotted_def DIGEST_BINDING_OID_def
      CHAT_TEMPLATE_BINDING_OID_def TURN_BINDING_OID_def show_nat.simps)

lemma oid_distinct [simp]:
  "DIGEST_BINDING_OID \<noteq> CHAT_TEMPLATE_BINDING_OID" "DIGEST_BINDING_OID \<noteq> TURN_BINDING_OID"
  "CHAT_TEMPLATE_BINDING_OID \<noteq> TURN_BINDING_OID"
  "CHAT_TEMPLATE_BINDING_OID \<noteq> DIGEST_BINDING_OID" "TURN_BINDING_OID \<noteq> DIGEST_BINDING_OID"
  "TURN_BINDING_OID \<noteq> CHAT_TEMPLATE_BINDING_OID"
  by (simp_all add: DIGEST_BINDING_OID_def CHAT_TEMPLATE_BINDING_OID_def TURN_BINDING_OID_def)

lemma dotted_inj: "inj_on oid_components_to_dotted private_oids"
  by (auto simp: inj_on_def private_oids_def)

lemma map_of_dotted:
  assumes "set (map fst xs) \<subseteq> private_oids" and "oid \<in> private_oids"
  shows "map_of (map (\<lambda>(i, v). (oid_components_to_dotted i, v)) xs) (oid_components_to_dotted oid)
    = map_of xs oid"
  using assms
proof (induction xs)
  case (Cons x xs)
  then show ?case using inj_onD [OF dotted_inj] by (cases x) auto
qed simp

lemma x509_demo_laws: "x509_laws x509_demo"
  by (auto simp: x509_laws_def x509_demo_def map_of_dotted split: if_splits)

section \<open>What an issued certificate says\<close>

lemma signed_svid_parses:
  assumes "x509_laws X" and "sign_svid X ca k sid digests template p = Inr s"
  obtains c where "parse_cert X (sv_cert_pem s) = Inr c" and "pc_san_uris c = cp_san_uris p"
    and "\<And>oid. oid \<in> private_oids \<Longrightarrow> find_extension c oid = map_of (cp_custom_extensions p) oid"
    and "sv_spiffe_id s = sid" and "sv_digests s = digests" and "sv_chat_template s = template"
proof -
  from assms(2) obtain key where key: "generate_key X k = Inr key"
    and leaf: "sign_leaf X (ca_cert ca) (ca_key ca) p key = Inr (sv_cert_pem s)"
    and s: "sv_spiffe_id s = sid" "sv_digests s = digests" "sv_chat_template s = template"
    by (auto simp: sign_svid_def)
  from assms(1) leaf obtain der c where 1: "first_pem X (sv_cert_pem s) = Some (Inr der)"
    "parse_x509 X der = Inr c" "pc_san_uris c = cp_san_uris p"
    and ext: "\<forall>oid \<in> private_oids. map_of (pc_extensions c) (oid_components_to_dotted oid)
      = map_of (cp_custom_extensions p) oid"
    unfolding x509_laws_def by blast
  have "parse_cert X (sv_cert_pem s) = Inr c"
    using 1 by (simp add: parse_cert_def parse_pem_def of_lib_def)
  moreover have "find_extension c oid = map_of (cp_custom_extensions p) oid" if "oid \<in> private_oids" for oid
    using ext that unfolding find_extension_def by blast
  ultimately show ?thesis using that 1 s by blast
qed

lemma private_oids_members [simp]:
  "DIGEST_BINDING_OID \<in> private_oids" "CHAT_TEMPLATE_BINDING_OID \<in> private_oids"
  "TURN_BINDING_OID \<in> private_oids"
  by (simp_all add: private_oids_def)

definition template_ok :: "bytes option \<Rightarrow> bool" where
  "template_ok t \<longleftrightarrow> pred_option digest_ok t"

lemma leaf_certificate_reads:
  assumes "x509_laws X" and "triple_ok digests" and "template_ok template"
    and "sign_svid X ca k sid digests template (leaf_params now ttl wl sid digests template turn) = Inr s"
    and "spiffe_valid sid"
  shows "extract_digest_triple_from_pem X (sv_cert_pem s) = Inr digests"
    and "extract_chat_template_from_pem X (sv_cert_pem s) = Inr template"
    and "extract_spiffe_id_from_pem X (sv_cert_pem s) = Inr sid"
    and "extract_turn_binding_from_pem X (sv_cert_pem s) = (case turn of None \<Rightarrow> Inr None
           | Some v \<Rightarrow> andThen (turn_binding_decode v) (\<lambda>b. Inr (Some b)))"
proof -
  from signed_svid_parses [OF assms(1,4)] obtain c where
    c: "parse_cert X (sv_cert_pem s) = Inr c"
      "pc_san_uris c = cp_san_uris (leaf_params now ttl wl sid digests template turn)"
    and ext: "\<And>oid. oid \<in> private_oids \<Longrightarrow> find_extension c oid =
      map_of (cp_custom_extensions (leaf_params now ttl wl sid digests template turn)) oid"
    by blast
  note defs = c ext leaf_params_def opt_list_def
  show "extract_digest_triple_from_pem X (sv_cert_pem s) = Inr digests"
    using assms(2) triple_decode_encode
    by (simp add: extract_digest_triple_from_pem_def defs)
  show "extract_chat_template_from_pem X (sv_cert_pem s) = Inr template"
    using assms(3)
    by (auto simp: extract_chat_template_from_pem_def defs template_ok_def digest_ok_def
        CHAT_TEMPLATE_BINDING_LEN_def digest_from_bytes_def split: option.splits)
  show "extract_spiffe_id_from_pem X (sv_cert_pem s) = Inr sid"
    using assms(5) spiffe_parse_uri by (simp add: extract_spiffe_id_from_pem_def defs)
  show "extract_turn_binding_from_pem X (sv_cert_pem s) = (case turn of None \<Rightarrow> Inr None
           | Some v \<Rightarrow> andThen (turn_binding_decode v) (\<lambda>b. Inr (Some b)))"
    by (auto simp: extract_turn_binding_from_pem_def defs split: option.splits)
qed

lemma verify_digest_binding_None:
  assumes "extract_digest_triple_from_pem X pem = Inr bound"
  shows "verify_digest_binding X pem live = Inr None \<longleftrightarrow> live = bound"
  using assms by (cases live; cases bound) (auto simp: verify_digest_binding_def)

lemma verify_chat_template_None:
  assumes "extract_chat_template_from_pem X pem = Inr bound"
  shows "verify_chat_template_binding X pem live = Inr None \<longleftrightarrow> bound = None \<or> live = bound"
  using assms by (auto simp: verify_chat_template_binding_def split: option.splits)

lemma issue_svid_signs:
  assumes "issue_svid_with_chat_template X now k ca wl inst digests template = Inr s"
  obtains sid not_after where "spiffe_valid sid"
    and "sid = \<lparr> sp_trust_domain = ca_trust_domain ca, sp_workload_name = wl, sp_instance = inst \<rparr>"
    and "sign_svid X ca k sid digests template
      (leaf_params now not_after wl sid digests template None) = Inr s"
  using assms by (auto simp: issue_svid_with_chat_template_def spiffe_new_Inr)

lemma issue_turn_svid_signs:
  assumes "issue_turn_svid_ca X now k ca wl inst digests template audience ttl = Inr s"
  obtains sid w not_after where "spiffe_valid sid"
    and "sid = \<lparr> sp_trust_domain = ca_trust_domain ca, sp_workload_name = wl, sp_instance = inst \<rparr>"
    and "turn_binding_encode \<lparr> tb_audience = audience \<rparr> = Inr w"
    and "sign_svid X ca k sid digests template
      (leaf_params now not_after wl sid digests template (Some w)) = Inr s"
  using assms by (auto simp: issue_turn_svid_ca_def spiffe_new_Inr)

lemma issued_attests:
  assumes "x509_laws X" and "triple_ok digests" and "template_ok template"
    and "issue_svid_with_chat_template X now k ca wl inst digests template = Inr s"
  shows "extract_spiffe_id_from_pem X (sv_cert_pem s) =
           Inr \<lparr> sp_trust_domain = ca_trust_domain ca, sp_workload_name = wl, sp_instance = inst \<rparr> \<and>
     extract_turn_binding_from_pem X (sv_cert_pem s) = Inr None \<and>
     (\<forall>live. verify_digest_binding X (sv_cert_pem s) live = Inr None \<longleftrightarrow> live = digests) \<and>
     (\<forall>live. verify_chat_template_binding X (sv_cert_pem s) live = Inr None \<longleftrightarrow>
        template = None \<or> live = template)"
proof -
  obtain sid not_after where sid: "spiffe_valid sid"
    "sid = \<lparr> sp_trust_domain = ca_trust_domain ca, sp_workload_name = wl, sp_instance = inst \<rparr>"
    and sign: "sign_svid X ca k sid digests template
      (leaf_params now not_after wl sid digests template None) = Inr s"
    using issue_svid_signs [OF assms(4)] .
  note r = leaf_certificate_reads [OF assms(1-3) sign sid(1)]
  show ?thesis
    using r(3,4) sid(2) verify_digest_binding_None [OF r(1)] verify_chat_template_None [OF r(2)]
    by simp
qed

section \<open>Properties\<close>

text \<open>What a check has to report: the first of the three digests, in the order model, manifest,
  configuration, that is not the bound one; and the template, if one was bound and is not the live one,
  with zeros where there is no live one.\<close>

definition first_changed :: "DigestTriple \<Rightarrow> DigestTriple \<Rightarrow> DigestMismatch option" where
  "first_changed bound live = find (\<lambda>m. dm_bound m \<noteq> dm_live m)
     [\<lparr> dm_field = FieldModel, dm_bound = dt_model bound, dm_live = dt_model live \<rparr>,
      \<lparr> dm_field = FieldManifest, dm_bound = dt_manifest bound, dm_live = dt_manifest live \<rparr>,
      \<lparr> dm_field = FieldConfig, dm_bound = dt_config bound, dm_live = dt_config live \<rparr>]"

definition template_changed :: "bytes option \<Rightarrow> bytes option \<Rightarrow> DigestMismatch option" where
  "template_changed bound live =
     Option.bind bound (\<lambda>b. if live = Some b then None else
       Some \<lparr> dm_field = FieldChatTemplate, dm_bound = b, dm_live = (case live of Some l \<Rightarrow> l | None \<Rightarrow> replicate 32 (CHR 0x00)) \<rparr>)"

lemma first_changed_None: "first_changed bound live = None \<longleftrightarrow> live = bound"
  by (cases bound; cases live) (auto simp: first_changed_def)

lemma binding_report:
  "extract_digest_triple_from_pem X pem = Inr bound \<Longrightarrow> verify_digest_binding X pem live = Inr (first_changed bound live)"
  by (simp add: verify_digest_binding_def first_changed_def)

lemma template_report:
  "extract_chat_template_from_pem X pem = Inr bound \<Longrightarrow> verify_chat_template_binding X pem live = Inr (template_changed bound live)"
  by (auto simp: verify_chat_template_binding_def template_changed_def split: option.split)

text \<open>C36: A session SVID attests exactly the artifacts it was issued for. Its certificate parses back to the
  requested identity, the digest triple and the chat template, and carries no turn binding. The rebind
  check against live digests passes when and only when all three are the bound ones, and otherwise
  reports the first that is not, with the bound and the live value; the chat-template check passes when
  and only when none was bound or the live one equals it, and otherwise reports the two.\<close>

theorem issued_svid_attests:
  assumes "x509_laws X" and "triple_ok digests" and "template_ok template"
    and "issue_svid_with_chat_template X now k ca wl inst digests template = Inr s"
  shows "extract_spiffe_id_from_pem X (sv_cert_pem s) =
           Inr \<lparr> sp_trust_domain = ca_trust_domain ca, sp_workload_name = wl, sp_instance = inst \<rparr> \<and>
     extract_digest_triple_from_pem X (sv_cert_pem s) = Inr digests \<and>
     extract_chat_template_from_pem X (sv_cert_pem s) = Inr template \<and>
     extract_turn_binding_from_pem X (sv_cert_pem s) = Inr None \<and>
     (\<forall>live. verify_digest_binding X (sv_cert_pem s) live = Inr (first_changed digests live) \<and>
        (first_changed digests live = None \<longleftrightarrow> live = digests)) \<and>
     (\<forall>live. verify_chat_template_binding X (sv_cert_pem s) live = Inr (template_changed template live) \<and>
        (template_changed template live = None \<longleftrightarrow> template = None \<or> live = template))"
proof -
  obtain sid not_after where sid: "spiffe_valid sid"
    "sid = \<lparr> sp_trust_domain = ca_trust_domain ca, sp_workload_name = wl, sp_instance = inst \<rparr>"
    and sign: "sign_svid X ca k sid digests template (leaf_params now not_after wl sid digests template None) = Inr s"
    using issue_svid_signs [OF assms(4)] .
  note r = leaf_certificate_reads [OF assms(1-3) sign sid(1)]
  have "template_changed template live = None \<longleftrightarrow> template = None \<or> live = template" for live
    by (cases template) (auto simp: template_changed_def)
  then show ?thesis
    using r sid(2) binding_report [OF r(1)] template_report [OF r(2)] first_changed_None by simp
qed

definition demo_digests :: DigestTriple where
  "demo_digests = \<lparr> dt_model = replicate 32 (CHR 0x01), dt_manifest = replicate 32 (CHR 0x02),
     dt_config = replicate 32 (CHR 0x03) \<rparr>"

definition demo_ca :: LocalCa where
  "demo_ca = \<lparr> ca_dir = ''d'', ca_trust_domain = ''td'', ca_cert = ''cert'', ca_key = ''key'' \<rparr>"

lemma demo_digests_ok: "triple_ok demo_digests"
  by (simp add: triple_ok_def digest_ok_def demo_digests_def)

lemma demo_spiffe: "spiffe_new ''td'' ''w'' ''i'' =
    Inr \<lparr> sp_trust_domain = ''td'', sp_workload_name = ''w'', sp_instance = ''i'' \<rparr>"
  by (simp add: spiffe_new_Inr spiffe_valid_def trust_domain_char_def segment_char_def is_lower_def)

lemma demo_issue:
  "\<exists>s. issue_svid_with_chat_template x509_demo 0 0 demo_ca ''w'' ''i'' demo_digests None = Inr s"
  "\<exists>s. issue_turn_svid_ca x509_demo 0 0 demo_ca ''w'' ''i'' demo_digests None ''aegis-turn://s/1'' 5 = Inr s"
  by (simp_all add: issue_svid_with_chat_template_def issue_turn_svid_ca_def demo_ca_def demo_spiffe
      x509_demo_def sign_svid_def leaf_params_def opt_list_def of_lib_def turn_binding_encode_def
      hours_def SVID_VALIDITY_HOURS_def)

theorem issued_svid_attests_witness:
  "\<exists>s. issue_svid_with_chat_template x509_demo 0 0 demo_ca ''w'' ''i'' demo_digests None = Inr s \<and>
     verify_digest_binding x509_demo (sv_cert_pem s) demo_digests = Inr None \<and>
     verify_digest_binding x509_demo (sv_cert_pem s) (demo_digests\<lparr> dt_manifest := [], dt_config := [] \<rparr>) =
       Inr (Some \<lparr> dm_field = FieldManifest, dm_bound = replicate 32 (CHR 0x02), dm_live = [] \<rparr>)"
proof -
  obtain s where s: "issue_svid_with_chat_template x509_demo 0 0 demo_ca ''w'' ''i'' demo_digests None
      = Inr s" using demo_issue by blast
  have "template_ok None" by (simp add: template_ok_def)
  from issued_svid_attests [OF x509_demo_laws demo_digests_ok this s] s show ?thesis
    by (auto simp: demo_digests_def first_changed_def)
qed

text \<open>A per-turn SVID is bound to its turn: its certificate carries the turn's audience and the
  session's digests, so that the certificates of two turns with different audiences differ.\<close>

theorem turn_svid_bound_to_turn:
  assumes "x509_laws X" and "triple_ok digests" and "template_ok template" and "utf8_ok audience"
    and "issue_turn_svid_ca X now k ca wl inst digests template audience ttl = Inr s"
  shows "extract_turn_binding_from_pem X (sv_cert_pem s) = Inr (Some \<lparr> tb_audience = audience \<rparr>) \<and>
     extract_digest_triple_from_pem X (sv_cert_pem s) = Inr digests \<and>
     (\<forall>now2 k2 wl2 inst2 audience2 ttl2 s2.
        utf8_ok audience2 \<and> audience2 \<noteq> audience \<and>
        issue_turn_svid_ca X now2 k2 ca wl2 inst2 digests template audience2 ttl2 = Inr s2 \<longrightarrow>
        sv_cert_pem s2 \<noteq> sv_cert_pem s)"
proof -
  have reads: "extract_turn_binding_from_pem X (sv_cert_pem r) = Inr (Some \<lparr> tb_audience = a \<rparr>) \<and>
      extract_digest_triple_from_pem X (sv_cert_pem r) = Inr digests"
    if a: "utf8_ok a" and r: "issue_turn_svid_ca X n j ca w i digests template a t = Inr r"
    for a n j w i t r
  proof -
    obtain sid v na where sid: "spiffe_valid sid"
      and v: "turn_binding_encode \<lparr> tb_audience = a \<rparr> = Inr v"
      and sign: "sign_svid X ca j sid digests template
        (leaf_params n na w sid digests template (Some v)) = Inr r"
      using issue_turn_svid_signs [OF r] by metis
    from v have "v = char_of (length a div 256) # char_of (length a mod 256) # a" "length a < 2 ^ 16"
      by (simp_all add: turn_binding_encode_def Let_def split: if_splits)
    with turn_binding_decode_encode [OF a, of "[]"]
    have "turn_binding_decode v = Inr \<lparr> tb_audience = a \<rparr>" by simp
    with leaf_certificate_reads(1,4) [OF assms(1-3) sign sid] show ?thesis by simp
  qed
  from reads [OF assms(4,5)] show ?thesis using reads by fastforce
qed

theorem turn_svid_bound_to_turn_witness:
  "\<exists>s. issue_turn_svid_ca x509_demo 0 0 demo_ca ''w'' ''i'' demo_digests None ''aegis-turn://s/1'' 5 = Inr s \<and>
     extract_turn_binding_from_pem x509_demo (sv_cert_pem s) =
       Inr (Some \<lparr> tb_audience = ''aegis-turn://s/1'' \<rparr>)"
proof -
  obtain s where s: "issue_turn_svid_ca x509_demo 0 0 demo_ca ''w'' ''i'' demo_digests None
      ''aegis-turn://s/1'' 5 = Inr s" using demo_issue by blast
  have "template_ok None" "utf8_ok ''aegis-turn://s/1''" by (simp_all add: template_ok_def)
  from turn_svid_bound_to_turn [OF x509_demo_laws demo_digests_ok this s] s show ?thesis by blast
qed

lemma join_path_inj [simp]: "join_path d a = join_path d b \<longleftrightarrow> a = b"
  by (simp add: join_path_def)

lemma ca_files_distinct [simp]:
  "CA_CERT_FILE \<noteq> CA_KEY_FILE" "CA_CERT_FILE \<noteq> TRUST_DOMAIN_FILE" "CA_KEY_FILE \<noteq> TRUST_DOMAIN_FILE"
  "CA_KEY_FILE \<noteq> CA_CERT_FILE" "TRUST_DOMAIN_FILE \<noteq> CA_CERT_FILE" "TRUST_DOMAIN_FILE \<noteq> CA_KEY_FILE"
  by (simp_all add: CA_CERT_FILE_def CA_KEY_FILE_def TRUST_DOMAIN_FILE_def)

lemma write_file_ok:
  "write_file p b s = (Inr u, s') \<longleftrightarrow>
     cs_files s p = None \<and> cs_outcome s (cs_calls s) = FileOk \<and>
     s' = s\<lparr> cs_calls := Suc (cs_calls s), cs_files := (cs_files s)(p \<mapsto> b) \<rparr>"
  by (auto simp: write_file_def Let_def split: file_outcome.splits)

lemma file_op_ok: "file_op s = (Inr u, s') \<longleftrightarrow>
    cs_outcome s (cs_calls s) = FileOk \<and> s' = s\<lparr> cs_calls := Suc (cs_calls s) \<rparr>"
  by (auto simp: file_op_def)

lemma ca_init_ok:
  assumes "ca_init X now k dir td s = (Inr ca, s')"
  shows "ca_trust_domain ca = td" and "spiffe_new td ''ca'' ''root'' = Inr \<lparr> sp_trust_domain = td,
      sp_workload_name = ''ca'', sp_instance = ''root'' \<rparr>"
    and "cs_files s' = (cs_files s)(join_path dir CA_CERT_FILE \<mapsto> ca_cert ca,
      join_path dir CA_KEY_FILE \<mapsto> ca_key ca, join_path dir TRUST_DOMAIN_FILE \<mapsto> td)"
  using assms
  by (auto simp: ca_init_def act_simps act_results getA_def liftA_def okA_def errA_def write_file_ok
      file_op_ok validate_trust_domain_for_ca_def spiffe_new_Inr split: if_splits)

lemma trust_domain_char_range: "trust_domain_char c \<Longrightarrow> 32 < byte_val c \<and> byte_val c < 128"
  by (auto simp: trust_domain_char_def is_lower_def is_digit_def)

lemma spiffe_trust_domain_trim:
  assumes "spiffe_new td wl inst = Inr i"
  shows "trim td = td"
proof (rule trim_printable)
  show "list_all (\<lambda>c. 32 < byte_val c \<and> byte_val c < 128) td"
    using assms
    by (auto simp: spiffe_new_Inr spiffe_valid_def list_all_iff trust_domain_char_range)
qed

text \<open>Initialising a certificate authority is once only and what it stored is what is loaded.
  After a successful \<open>init\<close>, another \<open>init\<close> of the directory is refused without touching a file, and
  a successful \<open>load\<close> yields the same trust domain.\<close>

theorem ca_init_load:
  assumes "ca_init X now k dir td s = (Inr ca, s')"
  shows "ca_init X now2 k2 dir td2 s' = (Inl (IdCaAlreadyInitialized dir), s') \<and>
     (\<forall>ca2 s2. ca_load X dir s' = (Inr ca2, s2) \<longrightarrow>
        ca_trust_domain ca2 = ca_trust_domain ca \<and> cs_files s2 = cs_files s')"
proof -
  note i = ca_init_ok [OF assms]
  have "trim td = td" using spiffe_trust_domain_trim [OF i(2)] .
  moreover have "ca_init X now2 k2 dir td2 s' = (Inl (IdCaAlreadyInitialized dir), s')"
    by (simp add: ca_init_def act_simps i(3))
  ultimately show ?thesis
    using i(1,3)
    by (auto simp: ca_load_def read_to_string_def act_simps act_results file_op_ok okA_def errA_def
        getA_def liftA_def split: if_splits option.splits)
qed

theorem ca_init_load_witness:
  "let s = \<lparr> cs_files = Map.empty, cs_calls = 0, cs_outcome = (\<lambda>_. FileOk) \<rparr> in
     \<exists>ca s'. ca_init x509_demo 0 0 ''d'' ''td'' s = (Inr ca, s') \<and>
       ca_init x509_demo 9 9 ''d'' ''td'' s' = (Inl (IdCaAlreadyInitialized ''d''), s')"
proof -
  let ?s = "\<lparr> cs_files = Map.empty, cs_calls = 0, cs_outcome = (\<lambda>_. FileOk) \<rparr>"
  have "validate_trust_domain_for_ca ''td'' = Inr ()"
    by (simp add: validate_trust_domain_for_ca_def spiffe_new_Inr spiffe_valid_def
        trust_domain_char_def segment_char_def is_lower_def)
  then have "\<exists>ca s'. ca_init x509_demo 0 0 ''d'' ''td'' ?s = (Inr ca, s')"
    by (simp add: ca_init_def act_simps file_op_def write_file_def x509_demo_def of_lib_def
        bindA_def okA_def)
  with ca_init_load show ?thesis unfolding Let_def by blast
qed

end
