(* ===== verification/Manifest.thy ===== *)
theory Manifest
  imports Libs
begin

text \<open>
  The permission manifest, \<open>crates/policy/src/manifest.rs\<close>, the decision type, \<open>decision.rs\<close>,
  and the policy crate's errors, \<open>error.rs\<close>. An \<open>f32\<close> is kept as its 32 bits.
\<close>

datatype ApprovalTier = Advisory | Validating | Blocking | Escalating

datatype NetworkMode = ModeDeny | ModeAllow

datatype NetworkProtocol = AllowHttp | AllowHttps | AllowTcp | AllowUdp

datatype NetworkProto = ProtoHttp | ProtoHttps | ProtoTcp | ProtoUdp | ProtoAny

datatype WriteAction = ActWrite | ActDelete | ActUpdate | ActCreate

datatype ApprovalClass = AnyWrite | AnyDelete | AnyNetworkOutbound | AnyExec

datatype PreValidateKind = PreFilesystemRead | PreFilesystemWrite | PreFilesystemDelete | PreNetworkOutbound

record AggregateQuota =
  max_calls_per_session :: "u64 option"

record ApprovalPolicy =
  ap_tier :: ApprovalTier
  ap_grant_ttl_seconds :: u64

definition default_grant_ttl_seconds :: u64 where
  "default_grant_ttl_seconds = 300"

record NetworkAllowEntry =
  ne_host :: string
  ne_port :: "u16 option"
  ne_protocol :: "NetworkProtocol option"

datatype NetworkPolicy = PolicyMode NetworkMode | PolicyAllowlist "NetworkAllowEntry list"

record Filesystem =
  fs_read :: "string list"
  fs_write :: "string list"
  fs_quota :: "AggregateQuota option"
  fs_approval :: "ApprovalPolicy option"

record Network =
  net_outbound :: "NetworkPolicy option"
  net_inbound :: "NetworkPolicy option"
  net_quota :: "AggregateQuota option"
  net_approval :: "ApprovalPolicy option"

record Exec =
  exec_quota :: "AggregateQuota option"
  exec_approval :: "ApprovalPolicy option"

record ApiGrant =
  api_name :: string
  api_methods :: "string list"

record PreValidateClause =
  pv_kind :: PreValidateKind
  pv_arg :: "string option"
  pv_arg_array :: "string option"

datatype AllowedTool =
    ToolName string
  | ToolWithPreValidate string "PreValidateClause list"

fun allowed_tool_name :: "AllowedTool \<Rightarrow> string" where
  "allowed_tool_name (ToolName s) = s"
| "allowed_tool_name (ToolWithPreValidate s _) = s"

fun allowed_tool_pre_validate :: "AllowedTool \<Rightarrow> PreValidateClause list" where
  "allowed_tool_pre_validate (ToolName _) = []"
| "allowed_tool_pre_validate (ToolWithPreValidate _ cs) = cs"

record McpServerGrant =
  mcp_server_name :: string
  mcp_server_uri :: string
  mcp_allowed_tools :: "AllowedTool list"
  mcp_quota :: "AggregateQuota option"
  mcp_approval :: "ApprovalPolicy option"

record Tools =
  t_filesystem :: "Filesystem option"
  t_network :: "Network option"
  t_apis :: "ApiGrant list"
  t_mcp :: "McpServerGrant list"
  t_exec :: "Exec option"

record WriteGrant =
  wg_resource :: string
  wg_actions :: "WriteAction list"
  wg_duration :: "string option"
  wg_expires_at :: "string option"
  wg_approval_required :: bool

record ExecGrant =
  eg_program :: string
  eg_args_match :: "string option"

record DeterminismKnobs =
  dk_seed :: "u32 option"
  dk_temperature :: "32 word option"
  dk_top_p :: "32 word option"
  dk_top_k :: "u32 option"
  dk_repeat_penalty :: "32 word option"

record Inference =
  inf_determinism :: "DeterminismKnobs option"

record Agent =
  agent_name :: string
  agent_version :: string

record Identity =
  identity_spiffe_id :: string

record Manifest =
  m_schema_version :: string
  m_agent :: Agent
  m_identity :: Identity
  m_extends :: "string list"
  m_tools :: Tools
  m_write_grants :: "WriteGrant list"
  m_approval_required_for :: "ApprovalClass list"
  m_exec_grants :: "ExecGrant list"
  m_approval_authorities :: "string list"
  m_inference :: "Inference option"

section \<open>Decisions\<close>

datatype Decision = Allow | Deny string | RequireApproval string

definition is_allow :: "Decision \<Rightarrow> bool" where
  "is_allow d \<longleftrightarrow> d = Allow"

definition is_deny :: "Decision \<Rightarrow> bool" where
  "is_deny d \<longleftrightarrow> (case d of Deny _ \<Rightarrow> True | _ \<Rightarrow> False)"

definition is_approval :: "Decision \<Rightarrow> bool" where
  "is_approval d \<longleftrightarrow> (case d of RequireApproval _ \<Rightarrow> True | _ \<Rightarrow> False)"

lemma is_deny_simps [simp]: "is_deny (Deny r)" "\<not> is_deny Allow" "\<not> is_deny (RequireApproval r)"
  by (simp_all add: is_deny_def)

text \<open>A manifest that grants nothing, for examples.\<close>

definition empty_manifest :: Manifest where
  "empty_manifest = \<lparr> m_schema_version = ''1'', m_agent = \<lparr> agent_name = ''a'', agent_version = ''1'' \<rparr>,
     m_identity = \<lparr> identity_spiffe_id = ''spiffe://td/agent/w/i'' \<rparr>, m_extends = [],
     m_tools = \<lparr> t_filesystem = None, t_network = None, t_apis = [], t_mcp = [], t_exec = None \<rparr>,
     m_write_grants = [], m_approval_required_for = [], m_exec_grants = [],
     m_approval_authorities = [], m_inference = None \<rparr>"

end
