(* ===== verification/Policy.thy ===== *)
theory Policy
  imports Manifest Ca Ledger
begin

text \<open>
  The policy engine, \<open>crates/policy/src/policy.rs\<close>: the \<open>check_*\<close> methods with their helpers.

  \<open>chrono\<close>'s duration constructors panic on values beyond their range, and the ISO-8601 parser
  calls them on numbers from the manifest. A computation that may panic returns an option, \<open>None\<close>
  standing for the panic.
\<close>

datatype policy_error =
    PolIo
  | PolYaml string
  | PolLedger ledger_error
  | PolIdentity identity_error
  | PolExtendsUnsupported nat
  | PolIdentityRebind DigestMismatch

record Policy =
  p_manifest :: Manifest

text \<open>\<open>serde_yaml::from_slice\<close> is the parameter \<open>yaml\<close>.\<close>

definition policy_from_yaml_bytes :: "(bytes \<Rightarrow> string + Manifest) \<Rightarrow> bytes \<Rightarrow> policy_error + Policy" where
  "policy_from_yaml_bytes yaml b =
     (case yaml b of
        Inl e \<Rightarrow> Inl (PolYaml e)
      | Inr m \<Rightarrow> if m_extends m \<noteq> [] then Inl (PolExtendsUnsupported (length (m_extends m)))
                else Inr \<lparr> p_manifest = m \<rparr>)"

definition policy_from_yaml_file :: "(bytes \<Rightarrow> string + Manifest) \<Rightarrow> bytes option \<Rightarrow> policy_error + Policy" where
  "policy_from_yaml_file yaml file =
     (case file of None \<Rightarrow> Inl PolIo | Some b \<Rightarrow> policy_from_yaml_bytes yaml b)"

definition policy_from_manifest :: "Manifest \<Rightarrow> Policy" where
  "policy_from_manifest m = \<lparr> p_manifest = m \<rparr>"

section \<open>Paths\<close>

text \<open>\<open>paths_cover\<close> compares strings: a parent covers itself and what continues it after a slash.\<close>

definition path_under :: "string \<Rightarrow> string \<Rightarrow> bool" where
  "path_under p parent \<longleftrightarrow> parent = p \<or> parent = ''/'' \<or> prefix (parent @ ''/'') p"

definition paths_cover :: "string \<Rightarrow> string list \<Rightarrow> bool" where
  "paths_cover p parents \<longleftrightarrow> list_ex (path_under p) parents"

text \<open>\<open>Path::components\<close>: the root, the normal parts and \<open>..\<close>; empty parts and \<open>.\<close> disappear,
  except for a leading \<open>.\<close> of a relative path. Paths are equal when their components are.\<close>

datatype path_component = RootDir | CurDir | ParentDir | Normal string

fun split_char :: "'a \<Rightarrow> 'a list \<Rightarrow> 'a list list" where
  "split_char c [] = [[]]"
| "split_char c (x # xs) =
     (if x = c then [] # split_char c xs
      else case split_char c xs of [] \<Rightarrow> [[x]] | p # ps \<Rightarrow> (x # p) # ps)"

definition path_part :: "string \<Rightarrow> path_component list" where
  "path_part s = (if s = [] \<or> s = ''.'' then [] else if s = ''..'' then [ParentDir] else [Normal s])"

definition path_components :: "string \<Rightarrow> path_component list" where
  "path_components s =
     (let parts = split_char (CHR ''/'') s in
      (if prefix ''/'' s then [RootDir] else if hd parts = ''.'' then [CurDir] else []) @
      concat (map path_part parts))"

definition file_name :: "string \<Rightarrow> string option" where
  "file_name s = (case rev (path_components s) of Normal f # _ \<Rightarrow> Some f | _ \<Rightarrow> None)"

definition program_matches :: "string \<Rightarrow> string \<Rightarrow> bool" where
  "program_matches grant_program query =
     (if CHR ''/'' \<in> set grant_program then path_components grant_program = path_components query
      else file_name query = Some grant_program)"

section \<open>Time bounds of a write grant\<close>

datatype time_unit = UnitH | UnitM | UnitS

fun unit_secs :: "time_unit \<Rightarrow> int" where
  "unit_secs UnitH = 3600"
| "unit_secs UnitM = 60"
| "unit_secs UnitS = 1"

definition unit_of_char :: "char \<Rightarrow> time_unit option" where
  "unit_of_char c = (if c = CHR ''H'' then Some UnitH else if c = CHR ''M'' then Some UnitM
     else if c = CHR ''S'' then Some UnitS else None)"

text \<open>One component: the parsed number, refused when malformed or negative; then the duration, a
  panic when it is too long; then the checked sum. The outer option is the panic, the inner one
  the function's own result.\<close>

definition add_component :: "'a libs_scheme \<Rightarrow> time \<Rightarrow> string \<Rightarrow> int \<Rightarrow> time option option" where
  "add_component L acc digits secs =
     (case parse_i64 digits of
        None \<Rightarrow> Some None
      | Some n \<Rightarrow>
          if n < 0 then Some None
          else case duration_of_secs L (n * secs) of
            None \<Rightarrow> None
          | Some d \<Rightarrow> Some (duration_add L acc d))"

text \<open>The loop over the time part: \<open>t.find(['H', 'M', 'S'])\<close> splits at the first unit letter.\<close>

definition split_unit :: "string \<Rightarrow> (string \<times> time_unit \<times> string) option" where
  "split_unit t =
     (case dropWhile (\<lambda>c. unit_of_char c = None) t of
        [] \<Rightarrow> None
      | c # rest \<Rightarrow> Some (takeWhile (\<lambda>c. unit_of_char c = None) t, the (unit_of_char c), rest))"

lemma split_unit_shorter: "split_unit t = Some (d, u, rest) \<Longrightarrow> length rest < length t"
  using length_dropWhile_le [of "\<lambda>c. unit_of_char c = None" t]
  by (auto simp: split_unit_def split: list.splits)

function parse_time_part :: "'a libs_scheme \<Rightarrow> time \<Rightarrow> string \<Rightarrow> time option option" where
  "parse_time_part L acc t =
     (if t = [] then Some (Some acc)
      else case split_unit t of
        None \<Rightarrow> Some None
      | Some (digits, u, rest) \<Rightarrow>
          (case add_component L acc digits (unit_secs u) of
             None \<Rightarrow> None
           | Some None \<Rightarrow> Some None
           | Some (Some acc') \<Rightarrow> parse_time_part L acc' rest))"
  by pat_completeness auto
termination
  by (relation "measure (\<lambda>(L, acc, t). length t)") (auto dest: split_unit_shorter)

declare parse_time_part.simps [simp del]

definition parse_iso8601_duration :: "'a libs_scheme \<Rightarrow> string \<Rightarrow> time option option" where
  "parse_iso8601_duration L s =
     (case strip_prefix ''P'' s of
        None \<Rightarrow> Some None
      | Some s1 \<Rightarrow>
          (let (date_part, time_part) =
             (case split_at (CHR ''T'') s1 of Some (d, t) \<Rightarrow> (d, Some t) | None \<Rightarrow> (s1, None)) in
           if time_part = Some [] then Some None
           else if date_part = [] then parse_time_part L 0 (case time_part of None \<Rightarrow> [] | Some t \<Rightarrow> t)
           else case strip_suffix ''D'' date_part of
             None \<Rightarrow> Some None
           | Some digits \<Rightarrow>
               (case add_component L 0 digits 86400 of
                  None \<Rightarrow> None
                | Some None \<Rightarrow> Some None
                | Some (Some acc) \<Rightarrow>
                    parse_time_part L acc (case time_part of None \<Rightarrow> [] | Some t \<Rightarrow> t))))"

definition grant_time_valid :: "'a libs_scheme \<Rightarrow> WriteGrant \<Rightarrow> time \<Rightarrow> time \<Rightarrow> bool option" where
  "grant_time_valid L g now session_start =
     (if (case wg_expires_at g of
            None \<Rightarrow> False
          | Some e \<Rightarrow> (case parse_datetime L e of None \<Rightarrow> True | Some x \<Rightarrow> now \<ge> x))
      then Some False
      else case wg_duration g of
        None \<Rightarrow> Some True
      | Some d \<Rightarrow>
          (case parse_iso8601_duration L d of
             None \<Rightarrow> None
           | Some None \<Rightarrow> Some False
           | Some (Some dur) \<Rightarrow> Some (now - session_start < dur)))"

section \<open>Write grants\<close>

datatype ExplicitGrant = GrantNone | GrantValid WriteGrant | GrantExpired

text \<open>\<open>Iterator::find\<close> with a predicate that may panic.\<close>

fun find_panicking :: "('a \<Rightarrow> bool option) \<Rightarrow> 'a list \<Rightarrow> 'a option option" where
  "find_panicking f [] = Some None"
| "find_panicking f (x # xs) =
     (case f x of None \<Rightarrow> None | Some True \<Rightarrow> Some (Some x) | Some False \<Rightarrow> find_panicking f xs)"

definition grant_names :: "string \<Rightarrow> WriteAction \<Rightarrow> WriteGrant \<Rightarrow> bool" where
  "grant_names path want g \<longleftrightarrow> wg_resource g = path \<and> want \<in> set (wg_actions g)"

definition classify_write_grant :: "'a libs_scheme \<Rightarrow> Policy \<Rightarrow> string \<Rightarrow> WriteAction \<Rightarrow> time \<Rightarrow> time
    \<Rightarrow> ExplicitGrant option" where
  "classify_write_grant L p path want now session_start =
     (let matching = filter (grant_names path want) (m_write_grants (p_manifest p)) in
      if matching = [] then Some GrantNone
      else case find_panicking (\<lambda>g. grant_time_valid L g now session_start) matching of
        None \<Rightarrow> None
      | Some (Some g) \<Rightarrow> Some (GrantValid g)
      | Some None \<Rightarrow> Some GrantExpired)"

fun write_action_debug :: "WriteAction \<Rightarrow> string" where
  "write_action_debug ActWrite = ''Write''"
| "write_action_debug ActDelete = ''Delete''"
| "write_action_debug ActUpdate = ''Update''"
| "write_action_debug ActCreate = ''Create''"

definition write_decision :: "Policy \<Rightarrow> string \<Rightarrow> WriteGrant \<Rightarrow> WriteAction \<Rightarrow> Decision" where
  "write_decision p path g action =
     (let class = (if action = ActDelete then AnyDelete else AnyWrite) in
      if wg_approval_required g \<or> class \<in> set (m_approval_required_for (p_manifest p))
      then RequireApproval (write_action_debug action @ '' on '' @ path @
             '' requires approval per write_grant'')
      else Allow)"

definition upgrade_for_approval :: "Policy \<Rightarrow> Decision \<Rightarrow> ApprovalClass \<Rightarrow> string \<Rightarrow> Decision" where
  "upgrade_for_approval p base class reason =
     (if base = Allow \<and> class \<in> set (m_approval_required_for (p_manifest p))
      then RequireApproval reason else base)"

section \<open>Network\<close>

fun proto_compatible :: "NetworkProtocol \<Rightarrow> NetworkProto \<Rightarrow> bool" where
  "proto_compatible _ ProtoAny = True"
| "proto_compatible AllowHttp ProtoHttp = True"
| "proto_compatible AllowHttps ProtoHttps = True"
| "proto_compatible AllowTcp ProtoTcp = True"
| "proto_compatible AllowUdp ProtoUdp = True"
| "proto_compatible _ _ = False"

definition matches_allow_entry :: "NetworkAllowEntry \<Rightarrow> string \<Rightarrow> u16 \<Rightarrow> NetworkProto \<Rightarrow> bool" where
  "matches_allow_entry e host port protocol =
     (if ne_host e \<noteq> host then False
      else if (case ne_port e of Some p \<Rightarrow> p \<noteq> port | None \<Rightarrow> False) then False
      else if (case ne_protocol e of Some q \<Rightarrow> \<not> proto_compatible q protocol | None \<Rightarrow> False) then False
      else True)"

definition network_decision :: "NetworkPolicy option \<Rightarrow> string \<Rightarrow> u16 \<Rightarrow> NetworkProto \<Rightarrow> string
    \<Rightarrow> Decision" where
  "network_decision policy host port protocol direction =
     (case policy of
        None \<Rightarrow> Deny (''network '' @ direction @ '' denied: manifest has no policy'')
      | Some (PolicyMode ModeAllow) \<Rightarrow> Allow
      | Some (PolicyMode ModeDeny) \<Rightarrow> Deny (''network '' @ direction @ '' denied: manifest sets deny'')
      | Some (PolicyAllowlist es) \<Rightarrow>
          if list_ex (\<lambda>e. matches_allow_entry e host port protocol) es then Allow
          else Deny (''network '' @ direction @ '' '' @ host @ '':'' @ show_nat (unat port) @
                 '' not in manifest allowlist''))"

section \<open>The checks\<close>

definition check_filesystem_read :: "Policy \<Rightarrow> string \<Rightarrow> Decision" where
  "check_filesystem_read p path =
     (let allowed = (case t_filesystem (m_tools (p_manifest p)) of
                       None \<Rightarrow> False | Some f \<Rightarrow> paths_cover path (fs_read f)) in
      if \<not> allowed then Deny (''filesystem read of '' @ path @ '' not granted by manifest'')
      else Allow)"

definition check_filesystem_write :: "'a libs_scheme \<Rightarrow> Policy \<Rightarrow> string \<Rightarrow> time \<Rightarrow> time
    \<Rightarrow> Decision option" where
  "check_filesystem_write L p path now session_start =
     map_option
       (\<lambda>g. case g of
          GrantValid g \<Rightarrow> write_decision p path g ActWrite
        | GrantExpired \<Rightarrow> Deny (''filesystem write of '' @ path @ '' blocked by expired write_grant'')
        | GrantNone \<Rightarrow>
            let covered = (case t_filesystem (m_tools (p_manifest p)) of
                             None \<Rightarrow> False | Some f \<Rightarrow> paths_cover path (fs_write f)) in
            if covered then upgrade_for_approval p Allow AnyWrite ''any_write requires approval''
            else Deny (''filesystem write of '' @ path @ '' not granted by manifest''))
       (classify_write_grant L p path ActWrite now session_start)"

definition check_filesystem_delete :: "'a libs_scheme \<Rightarrow> Policy \<Rightarrow> string \<Rightarrow> time \<Rightarrow> time
    \<Rightarrow> Decision option" where
  "check_filesystem_delete L p path now session_start =
     map_option
       (\<lambda>g. case g of
          GrantValid g \<Rightarrow> write_decision p path g ActDelete
        | GrantExpired \<Rightarrow> Deny (''filesystem delete of '' @ path @ '' blocked by expired write_grant'')
        | GrantNone \<Rightarrow> Deny (''filesystem delete of '' @ path @ '' not granted by any write_grant''))
       (classify_write_grant L p path ActDelete now session_start)"

definition check_network_outbound :: "Policy \<Rightarrow> string \<Rightarrow> u16 \<Rightarrow> NetworkProto \<Rightarrow> Decision" where
  "check_network_outbound p host port protocol =
     upgrade_for_approval p
       (network_decision (Option.bind (t_network (m_tools (p_manifest p))) net_outbound)
          host port protocol ''outbound'')
       AnyNetworkOutbound ''any_network_outbound requires approval''"

definition check_network_inbound :: "Policy \<Rightarrow> string \<Rightarrow> u16 \<Rightarrow> NetworkProto \<Rightarrow> Decision" where
  "check_network_inbound p host port protocol =
     network_decision (Option.bind (t_network (m_tools (p_manifest p))) net_inbound)
       host port protocol ''inbound''"

definition check_exec :: "Policy \<Rightarrow> string \<Rightarrow> Decision" where
  "check_exec p program =
     (if \<not> list_ex (\<lambda>g. program_matches (eg_program g) program) (m_exec_grants (p_manifest p))
      then Deny (''exec of '' @ program @ '' not granted by manifest'')
      else upgrade_for_approval p Allow AnyExec ''any_exec requires approval'')"

definition find_mcp_server :: "Policy \<Rightarrow> string \<Rightarrow> McpServerGrant option" where
  "find_mcp_server p server = find (\<lambda>s. mcp_server_name s = server) (t_mcp (m_tools (p_manifest p)))"

definition check_mcp_tool :: "'a libs_scheme \<Rightarrow> Policy \<Rightarrow> string \<Rightarrow> string \<Rightarrow> Decision" where
  "check_mcp_tool L p server tool =
     (case find_mcp_server p server of
        None \<Rightarrow> Deny (''mcp tool call to server '' @ str_debug L server @
                  '' not granted: server not in tools.mcp[]'')
      | Some s \<Rightarrow>
          if \<not> list_ex (\<lambda>t. allowed_tool_name t = tool) (mcp_allowed_tools s)
          then Deny (''mcp tool call '' @ str_debug L server @ ''/'' @ str_debug L tool @
                 '' not granted: tool not in allowed_tools'')
          else Allow)"

section \<open>What a manifest grants\<close>

text \<open>The grants of a manifest, said without the engine: they are what a decision other than
  \<open>Deny\<close> has to come from.\<close>

definition grants_read :: "Manifest \<Rightarrow> string \<Rightarrow> bool" where
  "grants_read m path \<longleftrightarrow>
     (\<exists>f parent. t_filesystem (m_tools m) = Some f \<and> parent \<in> set (fs_read f) \<and> path_under path parent)"

definition grants_write_broadly :: "Manifest \<Rightarrow> string \<Rightarrow> bool" where
  "grants_write_broadly m path \<longleftrightarrow>
     (\<exists>f parent. t_filesystem (m_tools m) = Some f \<and> parent \<in> set (fs_write f) \<and> path_under path parent)"

definition naming_grants :: "Manifest \<Rightarrow> string \<Rightarrow> WriteAction \<Rightarrow> WriteGrant set" where
  "naming_grants m path want = {g \<in> set (m_write_grants m). grant_names path want g}"

definition grants_outbound :: "Manifest \<Rightarrow> string \<Rightarrow> u16 \<Rightarrow> NetworkProto \<Rightarrow> bool" where
  "grants_outbound m host port proto \<longleftrightarrow>
     (\<exists>n pol. t_network (m_tools m) = Some n \<and> net_outbound n = Some pol \<and>
        (pol = PolicyMode ModeAllow \<or>
         (\<exists>es e. pol = PolicyAllowlist es \<and> e \<in> set es \<and> ne_host e = host \<and>
            ne_port e \<in> {None, Some port} \<and>
            (\<forall>q. ne_protocol e = Some q \<longrightarrow> proto_compatible q proto))))"

definition grants_inbound :: "Manifest \<Rightarrow> string \<Rightarrow> u16 \<Rightarrow> NetworkProto \<Rightarrow> bool" where
  "grants_inbound m host port proto \<longleftrightarrow>
     (\<exists>n pol. t_network (m_tools m) = Some n \<and> net_inbound n = Some pol \<and>
        (pol = PolicyMode ModeAllow \<or>
         (\<exists>es e. pol = PolicyAllowlist es \<and> e \<in> set es \<and> ne_host e = host \<and>
            ne_port e \<in> {None, Some port} \<and>
            (\<forall>q. ne_protocol e = Some q \<longrightarrow> proto_compatible q proto))))"

definition grants_delete :: "'a libs_scheme \<Rightarrow> Manifest \<Rightarrow> string \<Rightarrow> time \<Rightarrow> time \<Rightarrow> bool" where
  "grants_delete L m path now start \<longleftrightarrow>
     (\<exists>g \<in> naming_grants m path ActDelete. grant_time_valid L g now start = Some True)"

definition grants_write :: "'a libs_scheme \<Rightarrow> Manifest \<Rightarrow> string \<Rightarrow> time \<Rightarrow> time \<Rightarrow> bool" where
  "grants_write L m path now start \<longleftrightarrow>
     (\<exists>g \<in> naming_grants m path ActWrite. grant_time_valid L g now start = Some True) \<or>
     naming_grants m path ActWrite = {} \<and> grants_write_broadly m path"

definition grants_exec :: "Manifest \<Rightarrow> string \<Rightarrow> bool" where
  "grants_exec m program \<longleftrightarrow> (\<exists>g \<in> set (m_exec_grants m). program_matches (eg_program g) program)"

text \<open>The first entry with the server's name decides; later entries of that name are not read.\<close>

definition grants_mcp :: "Manifest \<Rightarrow> string \<Rightarrow> string \<Rightarrow> bool" where
  "grants_mcp m server tool \<longleftrightarrow>
     (\<exists>i < length (t_mcp (m_tools m)). let s = t_mcp (m_tools m) ! i in
        mcp_server_name s = server \<and>
        (\<forall>j < i. mcp_server_name (t_mcp (m_tools m) ! j) \<noteq> server) \<and>
        (\<exists>t \<in> set (mcp_allowed_tools s). allowed_tool_name t = tool))"

lemma is_deny_upgrade [simp]: "is_deny (upgrade_for_approval p d c r) = is_deny d"
  by (simp add: upgrade_for_approval_def is_deny_def)

lemma is_deny_write_decision [simp]: "\<not> is_deny (write_decision p path g a)"
  by (simp add: write_decision_def Let_def)

lemma read_granted: "\<not> is_deny (check_filesystem_read p path) \<longleftrightarrow> grants_read (p_manifest p) path"
  by (auto simp: check_filesystem_read_def grants_read_def paths_cover_def Let_def list_ex_iff
      split: option.splits)

lemma matches_entry:
  "matches_allow_entry e host port proto \<longleftrightarrow> ne_host e = host \<and> ne_port e \<in> {None, Some port} \<and>
     (\<forall>q. ne_protocol e = Some q \<longrightarrow> proto_compatible q proto)"
  by (auto simp: matches_allow_entry_def split: option.splits)

lemma outbound_granted:
  "\<not> is_deny (check_network_outbound p host port proto) \<longleftrightarrow>
     grants_outbound (p_manifest p) host port proto"
  by (auto simp: check_network_outbound_def network_decision_def grants_outbound_def list_ex_iff matches_entry
      bind_eq_Some_conv bind_eq_None_conv split: option.splits NetworkPolicy.splits NetworkMode.splits)

lemma inbound_granted:
  "\<not> is_deny (check_network_inbound p host port proto) \<longleftrightarrow> grants_inbound (p_manifest p) host port proto"
  by (auto simp: check_network_inbound_def network_decision_def grants_inbound_def list_ex_iff matches_entry
      bind_eq_Some_conv bind_eq_None_conv split: option.splits NetworkPolicy.splits NetworkMode.splits)

lemma exec_granted: "\<not> is_deny (check_exec p program) \<longleftrightarrow> grants_exec (p_manifest p) program"
  by (auto simp: check_exec_def grants_exec_def list_ex_iff)

lemma mcp_granted: "\<not> is_deny (check_mcp_tool L p server tool) \<longleftrightarrow> grants_mcp (p_manifest p) server tool"
proof -
  have "\<not> is_deny (check_mcp_tool L p server tool) \<longleftrightarrow>
      (\<exists>s. find_mcp_server p server = Some s \<and> (\<exists>t \<in> set (mcp_allowed_tools s). allowed_tool_name t = tool))"
    by (auto simp: check_mcp_tool_def list_ex_iff split: option.splits)
  then show ?thesis
    by (auto simp: find_mcp_server_def find_Some_iff grants_mcp_def Let_def)
qed

lemma find_panicking_Some:
  assumes "find_panicking f xs = Some r"
  shows "(case r of None \<Rightarrow> \<forall>x \<in> set xs. f x = Some False | Some x \<Rightarrow> x \<in> set xs \<and> f x = Some True)"
  using assms
  by (induction xs) (auto split: option.splits bool.splits)

text \<open>How \<open>classify_write_grant\<close> ends, when it does not panic.\<close>

lemma classify_cases:
  assumes "classify_write_grant L p path want now start = Some c"
  shows "case c of
      GrantNone \<Rightarrow> naming_grants (p_manifest p) path want = {}
    | GrantValid g \<Rightarrow> g \<in> naming_grants (p_manifest p) path want \<and>
        grant_time_valid L g now start = Some True
    | GrantExpired \<Rightarrow> naming_grants (p_manifest p) path want \<noteq> {} \<and>
        (\<forall>g \<in> naming_grants (p_manifest p) path want. grant_time_valid L g now start = Some False)"
proof -
  let ?m = "filter (grant_names path want) (m_write_grants (p_manifest p))"
  have set_m: "set ?m = naming_grants (p_manifest p) path want"
    by (auto simp: naming_grants_def)
  show ?thesis
  proof (cases "?m = []")
    case True
    with assms show ?thesis
      using set_m by (auto simp: classify_write_grant_def Let_def)
  next
    case False
    with assms obtain r where r: "find_panicking (\<lambda>g. grant_time_valid L g now start) ?m = Some r"
      and c: "c = (case r of None \<Rightarrow> GrantExpired | Some g \<Rightarrow> GrantValid g)"
      by (auto simp: classify_write_grant_def Let_def split: option.splits)
    from find_panicking_Some [OF r] False set_m c show ?thesis
      by (cases r) auto
  qed
qed

section \<open>Rendering durations\<close>

fun unit_char :: "time_unit \<Rightarrow> char" where
  "unit_char UnitH = CHR ''H''"
| "unit_char UnitM = CHR ''M''"
| "unit_char UnitS = CHR ''S''"

definition render_component :: "nat \<times> time_unit \<Rightarrow> string" where
  "render_component c = show_nat (fst c) @ [unit_char (snd c)]"

definition render_duration :: "nat option \<Rightarrow> (nat \<times> time_unit) list \<Rightarrow> string" where
  "render_duration days comps =
     ''P'' @ (case days of None \<Rightarrow> [] | Some n \<Rightarrow> show_nat n @ ''D'') @
     (if comps = [] then [] else CHR ''T'' # concat (map render_component comps))"

definition component_nanos :: "nat \<times> time_unit \<Rightarrow> time" where
  "component_nanos c = int (fst c) * unit_secs (snd c) * 1000000000"

lemma unit_char_unit [simp]: "unit_of_char (unit_char u) = Some u"
  by (cases u) (auto simp: unit_of_char_def)

lemma digit_no_unit: "is_digit c \<Longrightarrow> unit_of_char c = None"
  by (auto simp: unit_of_char_def is_digit_def)

lemma split_unit_render: "split_unit (render_component c @ rest) = Some (show_nat (fst c), snd c, rest)"
proof -
  have "\<And>x. x \<in> set (show_nat (fst c)) \<Longrightarrow> unit_of_char x = None"
    using show_nat_chars digit_no_unit by blast
  then show ?thesis
    by (simp add: split_unit_def render_component_def takeWhile_append dropWhile_append)
qed

lemma add_component_value:
  assumes "duration_laws L" and "n < 2 ^ 63" and "0 \<le> acc" and "0 < k"
    and "acc + int n * k * 1000000000 \<le> duration_max"
  shows "add_component L acc (show_nat n) k = Some (Some (acc + int n * k * 1000000000))"
proof -
  have "0 \<le> int n * k" using assms(4) by simp
  moreover have "int n * k * 1000000000 \<le> duration_max" using assms(3,5) by simp
  ultimately have "duration_of_secs L (int n * k) = Some (int n * k * 1000000000)"
    using assms(1) by (simp add: duration_laws_def)
  moreover have "duration_add L acc (int n * k * 1000000000) = Some (acc + int n * k * 1000000000)"
    using assms(1,3,5) \<open>0 \<le> int n * k\<close> by (simp add: duration_laws_def)
  ultimately show ?thesis
    using parse_i64_show [OF assms(2)] by (simp add: add_component_def)
qed

lemma component_nanos_nonneg: "0 \<le> component_nanos c"
  by (cases "snd c") (simp_all add: component_nanos_def)

lemma sum_components_nonneg: "0 \<le> sum_list (map component_nanos cs)"
  by (rule sum_list_nonneg) (auto simp: component_nanos_nonneg)

lemma parse_time_part_value:
  assumes "duration_laws L" and "\<forall>c \<in> set comps. fst c < 2 ^ 63" and "0 \<le> acc"
    and "acc + sum_list (map component_nanos comps) \<le> duration_max"
  shows "parse_time_part L acc (concat (map render_component comps)) =
     Some (Some (acc + sum_list (map component_nanos comps)))"
  using assms(2-)
proof (induction comps arbitrary: acc)
  case Nil
  then show ?case by (simp add: parse_time_part.simps)
next
  case (Cons c comps)
  have acc': "acc + component_nanos c \<le> duration_max"
    using Cons.prems(3) sum_components_nonneg [of comps] by simp
  have "0 < unit_secs (snd c)" by (cases "snd c") simp_all
  then have "add_component L acc (show_nat (fst c)) (unit_secs (snd c)) =
      Some (Some (acc + component_nanos c))"
    using add_component_value [OF assms(1), of "fst c" acc "unit_secs (snd c)"] Cons.prems acc'
    by (simp add: component_nanos_def)
  moreover have "parse_time_part L (acc + component_nanos c) (concat (map render_component comps)) =
      Some (Some (acc + component_nanos c + sum_list (map component_nanos comps)))"
    using Cons.prems component_nanos_nonneg [of c] by (intro Cons.IH) simp_all
  moreover have "render_component c \<noteq> []" by (simp add: render_component_def)
  ultimately show ?case
    by (subst parse_time_part.simps) (simp add: split_unit_render add.assoc)
qed

lemma digits_no_letter:
  assumes "\<not> is_digit c"
  shows "c \<notin> set (show_nat n)"
  using assms show_nat_chars by blast

section \<open>Properties\<close>

lemma grant_precedence:
  assumes "check_filesystem_write L p path now start = Some d"
    and "check_filesystem_delete L p path now start = Some d2"
  shows "(\<not> is_deny d \<longleftrightarrow>
      (\<exists>g \<in> naming_grants (p_manifest p) path ActWrite. grant_time_valid L g now start = Some True) \<or>
      naming_grants (p_manifest p) path ActWrite = {} \<and> grants_write_broadly (p_manifest p) path) \<and>
     (\<not> is_deny d2 \<longleftrightarrow>
      (\<exists>g \<in> naming_grants (p_manifest p) path ActDelete. grant_time_valid L g now start = Some True))"
proof -
  from assms obtain c c2 where c: "classify_write_grant L p path ActWrite now start = Some c"
    and c2: "classify_write_grant L p path ActDelete now start = Some c2"
    by (auto simp: check_filesystem_write_def check_filesystem_delete_def)
  show ?thesis
    using classify_cases [OF c] classify_cases [OF c2] assms c c2
    by (auto simp: check_filesystem_write_def check_filesystem_delete_def grants_write_broadly_def
        paths_cover_def Let_def list_ex_iff split: ExplicitGrant.splits option.splits if_splits)
qed

lemma write_delete_granted:
  "pred_option (\<lambda>d. \<not> is_deny d \<longleftrightarrow> grants_write L (p_manifest p) path now start) (check_filesystem_write L p path now start)"
  "pred_option (\<lambda>d. \<not> is_deny d \<longleftrightarrow> grants_delete L (p_manifest p) path now start) (check_filesystem_delete L p path now start)"
proof -
  have "\<not> is_deny d \<longleftrightarrow> grants_write L (p_manifest p) path now start"
    if "check_filesystem_write L p path now start = Some d" for d
  proof -
    from that obtain c where "classify_write_grant L p path ActWrite now start = Some c" by (auto simp: check_filesystem_write_def)
    with classify_cases [OF this] that show ?thesis
      by (auto simp: check_filesystem_write_def grants_write_def grants_write_broadly_def
          paths_cover_def Let_def list_ex_iff split: ExplicitGrant.splits option.splits if_splits)
  qed
  then show "pred_option (\<lambda>d. \<not> is_deny d \<longleftrightarrow> grants_write L (p_manifest p) path now start) (check_filesystem_write L p path now start)"
    by (cases "check_filesystem_write L p path now start") simp_all
  have "\<not> is_deny d \<longleftrightarrow> grants_delete L (p_manifest p) path now start"
    if "check_filesystem_delete L p path now start = Some d" for d
  proof -
    from that obtain c where "classify_write_grant L p path ActDelete now start = Some c" by (auto simp: check_filesystem_delete_def)
    with classify_cases [OF this] that show ?thesis
      by (auto simp: check_filesystem_delete_def grants_delete_def split: ExplicitGrant.splits)
  qed
  then show "pred_option (\<lambda>d. \<not> is_deny d \<longleftrightarrow> grants_delete L (p_manifest p) path now start) (check_filesystem_delete L p path now start)"
    by (cases "check_filesystem_delete L p path now start") simp_all
qed

lemma upgraded_allow:
  "upgrade_for_approval p d c r = Allow \<longleftrightarrow> d = Allow \<and> c \<notin> set (m_approval_required_for (p_manifest p))"
  by (auto simp: upgrade_for_approval_def)

lemma outbound_allowed:
  "check_network_outbound p host port proto = Allow \<longleftrightarrow> grants_outbound (p_manifest p) host port proto \<and>
     AnyNetworkOutbound \<notin> set (m_approval_required_for (p_manifest p))"
proof -
  have "network_decision pol host port proto dir = Allow \<longleftrightarrow> \<not> is_deny (network_decision pol host port proto dir)" for pol dir
    by (auto simp: network_decision_def split: option.splits NetworkPolicy.splits NetworkMode.splits)
  then show ?thesis
    using outbound_granted [of p host port proto] by (simp add: check_network_outbound_def upgraded_allow)
qed

lemma exec_allowed:
  "check_exec p program = Allow \<longleftrightarrow> grants_exec (p_manifest p) program \<and>
     AnyExec \<notin> set (m_approval_required_for (p_manifest p))"
  by (auto simp: check_exec_def grants_exec_def list_ex_iff upgraded_allow)

text \<open>C39: The engine is closed by default. Each of the seven checks answers something other than Deny
  exactly when the manifest grants it: a read, an outbound or inbound connection, a program and an MCP
  tool by its section; a write by a live grant that names the path, or by the broad list when no grant
  names it; a delete by a live grant only. (A write or delete check that panics, on an out-of-range
  duration, answers nothing.) The approval classes only ever turn an Allow into a RequireApproval: an
  outbound connection or a program is allowed outright exactly when it is granted and its class asks for
  no approval.\<close>

theorem policy_closed_by_default:
  "(\<not> is_deny (check_filesystem_read p path) \<longleftrightarrow> grants_read (p_manifest p) path) \<and>
   pred_option (\<lambda>d. \<not> is_deny d \<longleftrightarrow> grants_write L (p_manifest p) path now start)
     (check_filesystem_write L p path now start) \<and>
   pred_option (\<lambda>d. \<not> is_deny d \<longleftrightarrow> grants_delete L (p_manifest p) path now start)
     (check_filesystem_delete L p path now start) \<and>
   (\<not> is_deny (check_network_outbound p host port proto) \<longleftrightarrow>
      grants_outbound (p_manifest p) host port proto) \<and>
   (\<not> is_deny (check_network_inbound p host port proto) \<longleftrightarrow>
      grants_inbound (p_manifest p) host port proto) \<and>
   (\<not> is_deny (check_exec p program) \<longleftrightarrow> grants_exec (p_manifest p) program) \<and>
   (\<not> is_deny (check_mcp_tool L p server tool) \<longleftrightarrow> grants_mcp (p_manifest p) server tool) \<and>
   (check_network_outbound p host port proto = Allow \<longleftrightarrow> grants_outbound (p_manifest p) host port proto \<and>
      AnyNetworkOutbound \<notin> set (m_approval_required_for (p_manifest p))) \<and>
   (check_exec p program = Allow \<longleftrightarrow> grants_exec (p_manifest p) program \<and>
      AnyExec \<notin> set (m_approval_required_for (p_manifest p)))"
  by (intro conjI read_granted write_delete_granted outbound_granted inbound_granted exec_granted mcp_granted
      outbound_allowed exec_allowed)


definition demo_policy :: Policy where
  "demo_policy = policy_from_manifest (empty_manifest
     \<lparr> m_tools := \<lparr> t_filesystem = Some \<lparr> fs_read = [''/data''], fs_write = [''/data''], fs_quota = None,
           fs_approval = None \<rparr>, t_network = None, t_apis = [], t_mcp = [], t_exec = None \<rparr>,
       m_write_grants := [\<lparr> wg_resource = ''/data/a'', wg_actions = [ActWrite, ActDelete],
           wg_duration = None, wg_expires_at = Some ''+5'', wg_approval_required = False \<rparr>,
         \<lparr> wg_resource = ''/data/b'', wg_actions = [ActWrite],
           wg_duration = Some ''PT9999999999999999H'', wg_expires_at = None,
           wg_approval_required = False \<rparr>] \<rparr>)"

lemmas demo_policy_defs = demo_policy_def policy_from_manifest_def empty_manifest_def

lemma demo_expired:
  "check_filesystem_write libs0 demo_policy ''/data/a'' 7 0 =
     Some (Deny ''filesystem write of /data/a blocked by expired write_grant'')"
  "check_filesystem_delete libs0 demo_policy ''/data/a'' 7 0 =
     Some (Deny ''filesystem delete of /data/a blocked by expired write_grant'')"
  by (simp_all add: check_filesystem_write_def check_filesystem_delete_def classify_write_grant_def
      demo_policy_defs grant_names_def grant_time_valid_def time_parse0_def digits_val_def digit_val_def)


text \<open>Durations. Every duration in the supported form, days then hours, minutes and seconds in
  any number, parses to its length, as long as each number fits an \<open>i64\<close> and the sum fits a
  \<open>chrono::Duration\<close>.\<close>

theorem duration_value:
  assumes "duration_laws L" and "\<forall>c \<in> set comps. fst c < 2 ^ 63"
    and "case days of None \<Rightarrow> nanos = sum_list (map component_nanos comps) | Some n \<Rightarrow> n < 2 ^ 63 \<and>
           nanos = int n * 86400 * 1000000000 + sum_list (map component_nanos comps)"
    and "nanos \<le> duration_max"
  shows "parse_iso8601_duration L (render_duration days comps) = Some (Some nanos)"
proof -
  let ?t = "concat (map render_component comps)"
  have noT: "CHR ''T'' \<notin> set (show_nat n)" for n
    by (rule digits_no_letter) (simp add: is_digit_def)
  have t_ne: "comps \<noteq> [] \<Longrightarrow> ?t \<noteq> []" by (cases comps) (auto simp: render_component_def)
  have strip: "strip_prefix ''P'' (''P'' @ x) = Some x" "strip_suffix ''D'' (y @ ''D'') = Some y" for x y :: string
    by (simp_all add: strip_prefix_Some strip_suffix_Some)
  have time: "parse_time_part L acc ?t = Some (Some (acc + sum_list (map component_nanos comps)))"
    if "0 \<le> acc" "acc + sum_list (map component_nanos comps) \<le> duration_max" for acc
    using parse_time_part_value [OF assms(1,2) that] .
  show ?thesis
  proof (cases days)
    case None
    then show ?thesis
      using time [of 0] assms(3,4) t_ne strip(1)
      by (cases "comps = []")
         (auto simp: parse_iso8601_duration_def render_duration_def split_at_def Let_def)
  next
    case (Some n)
    have d: "add_component L 0 (show_nat n) 86400 = Some (Some (int n * 86400 * 1000000000))"
      using add_component_value [OF assms(1), of n 0 86400] Some assms(3,4) sum_components_nonneg [of comps]
      by simp
    have sp: "split_at (CHR ''T'') ((show_nat n @ ''D'') @ CHR ''T'' # x) = Some (show_nat n @ ''D'', x)" for x
      by (rule split_at_first) (use noT in simp)
    have sp0: "split_at (CHR ''T'') (show_nat n @ ''D'') = None"
      using noT by (simp add: split_at_None)
    from Some have r: "strip_prefix ''P'' (render_duration days comps) =
        Some (if comps = [] then show_nat n @ ''D'' else (show_nat n @ ''D'') @ CHR ''T'' # ?t)"
      by (simp add: render_duration_def strip_prefix_Some)
    show ?thesis
    proof (cases "comps = []")
      case True
      then show ?thesis
        using r d strip(2) assms(3) Some time [of "int n * 86400 * 1000000000"] assms(4)
        by (simp add: parse_iso8601_duration_def sp0 Let_def)
    next
      case False
      then show ?thesis
        using r d strip(2) [of "show_nat n"] assms(3,4) Some time [of "int n * 86400 * 1000000000"] t_ne
        by (simp add: parse_iso8601_duration_def sp [simplified] Let_def)
    qed
  qed
qed

theorem duration_value_witness:
  "parse_iso8601_duration libs0 (render_duration (Some 1) [(12, UnitH), (30, UnitM)]) =
     Some (Some (131400 * 1000000000))"
  using duration_value [where L = libs0 and comps = "[(12, UnitH), (30, UnitM)]" and days = "Some 1"
      and nanos = "131400 * 1000000000"] libs0_laws
  by (simp add: lib_laws_def component_nanos_def duration_max_def)

lemma long_component_panics:
  assumes "duration_laws L" and "n < 2 ^ 63" and "duration_max < component_nanos (n, u)"
  shows "parse_iso8601_duration L (render_duration None [(n, u)]) = None"
proof -
  have "0 \<le> int n * unit_secs u" by (cases u) simp_all
  then have "duration_of_secs L (int n * unit_secs u) = None"
    using assms(1,3) by (simp add: duration_laws_def component_nanos_def)
  then have "add_component L 0 (show_nat n) (unit_secs u) = None"
    using parse_i64_show [OF assms(2)] by (simp add: add_component_def)
  moreover have "render_component (n, u) \<noteq> []" by (simp add: render_component_def)
  ultimately have "parse_time_part L 0 (render_component (n, u)) = None"
    using split_unit_render [of "(n, u)" "[]"] by (subst parse_time_part.simps) simp
  moreover have "strip_prefix ''P'' (render_duration None [(n, u)]) = Some (CHR ''T'' # render_component (n, u))"
    by (simp add: render_duration_def strip_prefix_Some)
  ultimately show ?thesis
    using \<open>render_component (n, u) \<noteq> []\<close> by (simp add: parse_iso8601_duration_def split_at_def Let_def)
qed

text \<open>A well-formed duration longer than \<open>chrono\<close> can hold is not treated as invalid: it makes
  the permission check panic, for every path a grant with that duration names for the action when
  no earlier grant decides.\<close>

theorem long_duration_panics:
  assumes "duration_laws L" and "n < 2 ^ 63" and "duration_max < component_nanos (n, u)"
    and "filter (grant_names path ActWrite) (m_write_grants (p_manifest p)) = g # gs"
    and "wg_duration g = Some (render_duration None [(n, u)])" and "wg_expires_at g = None"
  shows "check_filesystem_write L p path now start = None"
  using assms long_component_panics [OF assms(1-3)]
  by (simp add: check_filesystem_write_def classify_write_grant_def grant_time_valid_def)

theorem long_duration_panics_witness:
  "check_filesystem_write libs0 demo_policy ''/data/b'' 1 0 = None"
proof (rule long_duration_panics [where n = 9999999999999999 and u = UnitH])
  show "duration_laws libs0" using libs0_laws by (simp add: lib_laws_def)
  show "filter (grant_names ''/data/b'' ActWrite) (m_write_grants (p_manifest demo_policy)) =
    [\<lparr> wg_resource = ''/data/b'', wg_actions = [ActWrite], wg_duration = Some ''PT9999999999999999H'',
       wg_expires_at = None, wg_approval_required = False \<rparr>]"
    by (simp add: demo_policy_defs grant_names_def)
qed (simp_all add: component_nanos_def duration_max_def render_duration_def render_component_def
      show_nat.simps)

text \<open>The location a path leads to when its components are followed by name.\<close>

fun follow :: "string list \<Rightarrow> path_component list \<Rightarrow> string list" where
  "follow at [] = at"
| "follow at (RootDir # cs) = follow [] cs"
| "follow at (CurDir # cs) = follow at cs"
| "follow at (ParentDir # cs) = follow (butlast at) cs"
| "follow at (Normal n # cs) = follow (at @ [n]) cs"

text \<open>Path coverage is textual. Below any granted directory a path that climbs out of it with
  \<open>..\<close> is allowed for reading, whatever follows, and with no write grant naming it also for writing.\<close>

theorem dotdot_escapes_grant:
  assumes "t_filesystem (m_tools (p_manifest p)) = Some f" and "parent \<in> set (fs_read f) \<inter> set (fs_write f)"
    and "path = parent @ ''/../'' @ rest" and "naming_grants (p_manifest p) path ActWrite = {}"
    and "m_approval_required_for (p_manifest p) = []"
  shows "check_filesystem_read p path = Allow \<and> check_filesystem_write L p path now start = Some Allow"
proof -
  have "path_under path parent" using assms(3) by (auto simp: path_under_def prefix_def)
  then have "paths_cover path (fs_read f)" "paths_cover path (fs_write f)"
    using assms(2) by (auto simp: paths_cover_def list_ex_iff)
  moreover have "filter (grant_names path ActWrite) (m_write_grants (p_manifest p)) = []"
    using assms(4) by (auto simp: naming_grants_def filter_empty_conv)
  ultimately show ?thesis
    using assms(1,5)
    by (simp add: check_filesystem_read_def check_filesystem_write_def classify_write_grant_def
        upgrade_for_approval_def)
qed

theorem dotdot_escapes_grant_witness:
  "check_filesystem_read demo_policy ''/data/../etc/passwd'' = Allow \<and>
   check_filesystem_write libs0 demo_policy ''/data/../etc/passwd'' 1 0 = Some Allow \<and>
   follow [] (path_components ''/data/../etc/passwd'') = [''etc'', ''passwd''] \<and>
   is_deny (check_filesystem_read demo_policy ''/etc/passwd'')"
proof -
  let ?f = "\<lparr> fs_read = [''/data''], fs_write = [''/data''], fs_quota = None, fs_approval = None \<rparr>"
  have "t_filesystem (m_tools (p_manifest demo_policy)) = Some ?f" "''/data'' \<in> set (fs_read ?f) \<inter> set (fs_write ?f)"
    "''/data/../etc/passwd'' = ''/data'' @ ''/../'' @ ''etc/passwd''"
    "naming_grants (p_manifest demo_policy) ''/data/../etc/passwd'' ActWrite = {}"
    "m_approval_required_for (p_manifest demo_policy) = []"
    by (auto simp: demo_policy_defs naming_grants_def grant_names_def)
  from dotdot_escapes_grant [OF this] show ?thesis
    by (simp add: path_components_def path_part_def check_filesystem_read_def paths_cover_def path_under_def
        demo_policy_defs)
qed

end
