(* ===== verification/Aggregate.thy ===== *)
theory Aggregate
  imports Manifest
begin

text \<open>
  The per-session quota accumulator, \<open>crates/policy/src/aggregate.rs\<close>. The counters are a finite
  map from tool classes; \<open>HashMap::keys\<close> enumerates them in an order the model leaves open.

  \<open>quota_counter\<close> is what the mediator relies on: a counter that is stepped only below its cap. The
  bound on the number of accepted calls is proved in the locale and transferred to the model.
\<close>

datatype ToolClass = ClassFilesystem | ClassNetwork | ClassExec | ClassMcp string

fun tool_class_label :: "ToolClass \<Rightarrow> string" where
  "tool_class_label ClassFilesystem = ''filesystem''"
| "tool_class_label ClassNetwork = ''network''"
| "tool_class_label ClassExec = ''exec''"
| "tool_class_label (ClassMcp server) = ''mcp:'' @ server"

lemma tool_class_label_inj [simp]: "tool_class_label a = tool_class_label b \<longleftrightarrow> a = b"
  by (cases a; cases b) auto

text \<open>Tool classes are ordered by their labels.\<close>

instantiation ToolClass :: linorder
begin

definition less_eq_ToolClass :: "ToolClass \<Rightarrow> ToolClass \<Rightarrow> bool" where
  "less_eq_ToolClass a b \<longleftrightarrow> tool_class_label a \<le> tool_class_label b"

definition less_ToolClass :: "ToolClass \<Rightarrow> ToolClass \<Rightarrow> bool" where
  "less_ToolClass a b \<longleftrightarrow> tool_class_label a < tool_class_label b"

instance
  by standard (auto simp: less_eq_ToolClass_def less_ToolClass_def order.strict_iff_order)

end

record AggregateCapExceeded =
  ace_class :: ToolClass
  ace_bound :: string
  ace_observed :: u64
  ace_cap :: u64

record QuotaSnapshot =
  qs_class :: string
  qs_calls :: u64
  qs_max_calls_per_session :: "u64 option"

record SessionAggregateState =
  as_counts :: "(ToolClass, u64) fmap"

definition aggregate_new :: SessionAggregateState where
  "aggregate_new = \<lparr> as_counts = fmempty \<rparr>"

definition aggregate_snapshot :: "SessionAggregateState \<Rightarrow> ToolClass \<Rightarrow> u64" where
  "aggregate_snapshot s class = (case fmlookup (as_counts s) class of None \<Rightarrow> 0 | Some n \<Rightarrow> n)"

definition check_and_increment :: "ToolClass \<Rightarrow> AggregateQuota option
    \<Rightarrow> (SessionAggregateState, AggregateCapExceeded, u64) act" where
  "check_and_increment class quota = (\<lambda>s.
     let current = aggregate_snapshot s class in
     case Option.bind quota max_calls_per_session of
       Some cap \<Rightarrow>
         if current \<ge> cap then
           (Inl \<lparr> ace_class = class, ace_bound = ''max_calls_per_session'', ace_observed = current,
                  ace_cap = cap \<rparr>, s)
         else (Inr (saturating_add64 current 1),
               s\<lparr> as_counts := fmupd class (saturating_add64 current 1) (as_counts s) \<rparr>)
     | None \<Rightarrow> (Inr (saturating_add64 current 1),
                s\<lparr> as_counts := fmupd class (saturating_add64 current 1) (as_counts s) \<rparr>))"

fun quota_for :: "Manifest \<Rightarrow> ToolClass \<Rightarrow> AggregateQuota option" where
  "quota_for m ClassFilesystem = Option.bind (t_filesystem (m_tools m)) fs_quota"
| "quota_for m ClassNetwork = Option.bind (t_network (m_tools m)) net_quota"
| "quota_for m ClassExec = Option.bind (t_exec (m_tools m)) exec_quota"
| "quota_for m (ClassMcp server) =
     Option.bind (find (\<lambda>g. mcp_server_name g = server) (t_mcp (m_tools m))) mcp_quota"

definition declared_classes :: "Manifest \<Rightarrow> ToolClass list" where
  "declared_classes m =
     (if Option.bind (t_filesystem (m_tools m)) fs_quota \<noteq> None then [ClassFilesystem] else []) @
     (if Option.bind (t_network (m_tools m)) net_quota \<noteq> None then [ClassNetwork] else []) @
     (if Option.bind (t_exec (m_tools m)) exec_quota \<noteq> None then [ClassExec] else []) @
     map (\<lambda>g. ClassMcp (mcp_server_name g)) (filter (\<lambda>g. mcp_quota g \<noteq> None) (t_mcp (m_tools m)))"

text \<open>\<open>keys\<close> is the order in which the hash map yields its keys.\<close>

definition push_missing :: "ToolClass \<Rightarrow> ToolClass list \<Rightarrow> ToolClass list" where
  "push_missing c cs = (if c \<in> set cs then cs else cs @ [c])"

definition snapshots :: "SessionAggregateState \<Rightarrow> ToolClass list \<Rightarrow> Manifest \<Rightarrow> QuotaSnapshot list" where
  "snapshots s keys m =
     map (\<lambda>c. \<lparr> qs_class = tool_class_label c, qs_calls = aggregate_snapshot s c,
                qs_max_calls_per_session = Option.bind (quota_for m c) max_calls_per_session \<rparr>)
       (sort_key tool_class_label (fold push_missing (declared_classes m) keys))"

section \<open>The counter interface\<close>

locale quota_counter =
  fixes step :: "'c \<Rightarrow> u64 option \<Rightarrow> ('s, 'e, u64) act"
    and tally :: "'s \<Rightarrow> 'c \<Rightarrow> u64"
  assumes counted: "step c cap s = (Inr n, s') \<Longrightarrow>
      tally s' = (tally s)(c := saturating_add64 (tally s c) 1) \<and> (\<forall>k. cap = Some k \<longrightarrow> tally s c < k)"
    and refused: "step c cap s = (Inl e, s') \<Longrightarrow> s' = s \<and> (\<exists>k. cap = Some k \<and> k \<le> tally s c)"
begin

text \<open>Calls in the given classes, and for each whether it was accepted.\<close>

fun run_calls :: "('c \<Rightarrow> u64 option) \<Rightarrow> 'c list \<Rightarrow> 's \<Rightarrow> ('c \<times> bool) list \<times> 's" where
  "run_calls caps [] s = ([], s)"
| "run_calls caps (c # cs) s =
     (case step c (caps c) s of
        (r, s1) \<Rightarrow> let (log, s2) = run_calls caps cs s1 in ((c, \<not> isl r) # log, s2))"

definition accepted :: "'c \<Rightarrow> ('c \<times> bool) list \<Rightarrow> nat" where
  "accepted c log = length (filter (\<lambda>x. x = (c, True)) log)"

lemma accepted_exact:
  assumes "caps c = Some k" and "run_calls caps cs s = (log, s')"
    and "unat (tally s c) \<le> unat k"
  shows "accepted c log = min (unat k - unat (tally s c)) (count_list cs c) \<and>
     unat (tally s' c) = unat (tally s c) + accepted c log"
  using assms(2,3)
proof (induction cs arbitrary: s log)
  case Nil
  then show ?case by (simp add: accepted_def)
next
  case (Cons d cs)
  obtain r s1 where 1: "step d (caps d) s = (r, s1)" by fastforce
  obtain log2 where 2: "run_calls caps cs s1 = (log2, s')" and log: "log = (d, \<not> isl r) # log2"
    using Cons.prems(1) 1 by (auto split: prod.splits)
  show ?case
  proof (cases r)
    case (Inl e)
    with refused 1 have s1: "s1 = s" and full: "d = c \<Longrightarrow> unat k \<le> unat (tally s c)"
      using assms(1) by (fastforce simp: word_le_nat_alt)+
    from Cons.IH [OF 2] Cons.prems(2) s1 log Inl full show ?thesis
      by (auto simp: accepted_def)
  next
    case (Inr n)
    with counted 1 have t: "tally s1 = (tally s)(d := saturating_add64 (tally s d) 1)"
      and room: "d = c \<Longrightarrow> unat (tally s c) < unat k"
      using assms(1) by (fastforce simp: word_less_nat_alt)+
    show ?thesis
    proof (cases "d = c")
      case True
      have "unat k < 2 ^ 64" using unsigned_less [of k] by simp
      with room True have u: "unat (tally s1 c) = unat (tally s c) + 1"
        by (simp add: t unat_saturating_add64)
      with room True Cons.IH [OF 2] log Inr show ?thesis
        by (auto simp: accepted_def)
    next
      case False
      with t Cons.IH [OF 2] Cons.prems(2) log Inr show ?thesis
        by (auto simp: accepted_def)
    qed
  qed
qed

end

abbreviation counter_step :: "ToolClass \<Rightarrow> u64 option \<Rightarrow> (SessionAggregateState, AggregateCapExceeded, u64) act" where
  "counter_step c cap \<equiv> check_and_increment c (map_option (\<lambda>k. \<lparr> max_calls_per_session = Some k \<rparr>) cap)"

lemma check_and_increment_ok:
  assumes "check_and_increment c q s = (Inr n, s')"
  shows "aggregate_snapshot s' = (aggregate_snapshot s)(c := saturating_add64 (aggregate_snapshot s c) 1)"
    and "n = aggregate_snapshot s' c"
    and "\<forall>k. Option.bind q max_calls_per_session = Some k \<longrightarrow> aggregate_snapshot s c < k"
  using assms
  by (auto simp: check_and_increment_def Let_def aggregate_snapshot_def fun_eq_iff
      word_greater_zero_iff
      split: option.splits if_splits)

lemma check_and_increment_err:
  assumes "check_and_increment c q s = (Inl e, s')"
  shows "s' = s" and "Option.bind q max_calls_per_session = Some (ace_cap e)"
    and "ace_cap e \<le> aggregate_snapshot s c" and "ace_observed e = aggregate_snapshot s c"
    and "ace_class e = c"
  using assms
  by (auto simp: check_and_increment_def Let_def split: option.splits if_splits)

interpretation aggregate: quota_counter counter_step aggregate_snapshot
proof
  fix c cap s n s' assume "counter_step c cap s = (Inr n, s')"
  from check_and_increment_ok [OF this] show
    "aggregate_snapshot s' = (aggregate_snapshot s)(c := saturating_add64 (aggregate_snapshot s c) 1) \<and>
      (\<forall>k. cap = Some k \<longrightarrow> aggregate_snapshot s c < k)" by auto
next
  fix c cap s e s' assume "counter_step c cap s = (Inl e, s')"
  from check_and_increment_err [OF this] show
    "s' = s \<and> (\<exists>k. cap = Some k \<and> k \<le> aggregate_snapshot s c)" by (cases cap) auto
qed

section \<open>Snapshots\<close>

lemma fold_push_missing:
  "set (fold push_missing ds cs) = set cs \<union> set ds \<and>
   (distinct cs \<longrightarrow> distinct (fold push_missing ds cs))"
  by (induction ds arbitrary: cs) (auto simp: push_missing_def)

lemma sort_key_label:
  assumes "distinct xs" and "distinct ys" and "set xs = set ys"
  shows "sort_key tool_class_label xs = sort_key tool_class_label ys"
proof (rule map_sorted_distinct_set_unique [where f = tool_class_label])
  show "inj_on tool_class_label (set (sort_key tool_class_label xs) \<union> set (sort_key tool_class_label ys))"
    by (auto simp: inj_on_def)
qed (use assms in \<open>auto simp: distinct_map inj_on_def\<close>)

section \<open>Properties\<close>

text \<open>The per-session quota is a hard cap and denies no sooner. In any sequence of calls on a fresh
  accumulator, with any interleaving of classes, a class with cap \<open>k\<close> has exactly the first \<open>k\<close> of
  its calls accepted; refused calls do not consume budget.\<close>

theorem quota_is_exact:
  assumes "caps c = Some k" and "aggregate.run_calls caps cs aggregate_new = (log, s)"
  shows "aggregate.accepted c log = min (unat k) (count_list cs c) \<and>
     unat (aggregate_snapshot s c) = aggregate.accepted c log"
  using aggregate.accepted_exact [OF assms]
  by (simp add: aggregate_new_def aggregate_snapshot_def)

theorem quota_is_exact_witness:
  "aggregate.accepted ClassExec (fst (aggregate.run_calls ((\<lambda>_. None)(ClassExec := Some 2))
     [ClassExec, ClassNetwork, ClassExec, ClassExec, ClassMcp ''x''] aggregate_new)) = 2"
proof -
  let ?r = "aggregate.run_calls ((\<lambda>_. None)(ClassExec := Some 2))
     [ClassExec, ClassNetwork, ClassExec, ClassExec, ClassMcp ''x''] aggregate_new"
  have "?r = (fst ?r, snd ?r)" by simp
  from quota_is_exact [OF _ this, of ClassExec 2] show ?thesis by simp
qed

text \<open>Quota snapshots are deterministic. They list exactly the classes that were called or have a
  quota declared, each once, sorted by label, with its count and cap, and do not depend on the
  order in which the hash map enumerates its keys.\<close>

theorem snapshots_deterministic:
  assumes "distinct keys" and "set keys = fset (fmdom (as_counts s))"
    and "distinct keys2" and "set keys2 = fset (fmdom (as_counts s))"
  shows "snapshots s keys m = snapshots s keys2 m \<and>
     sorted (map qs_class (snapshots s keys m)) \<and> distinct (map qs_class (snapshots s keys m)) \<and>
     set (map qs_class (snapshots s keys m)) =
       tool_class_label ` (fset (fmdom (as_counts s)) \<union> set (declared_classes m))"
proof -
  let ?f = "\<lambda>ks. fold push_missing (declared_classes m) ks"
  have "sort_key tool_class_label (?f keys) = sort_key tool_class_label (?f keys2)"
    using assms fold_push_missing by (intro sort_key_label) simp_all
  then have same: "snapshots s keys m = snapshots s keys2 m" by (simp add: snapshots_def)
  have names: "map qs_class (snapshots s keys m) = map tool_class_label (sort_key tool_class_label (?f keys))"
    by (simp add: snapshots_def)
  have "distinct (?f keys)" "set (?f keys) = fset (fmdom (as_counts s)) \<union> set (declared_classes m)"
    using assms fold_push_missing by auto
  then show ?thesis
    unfolding names using same by (simp add: distinct_map inj_on_def)
qed

theorem snapshots_deterministic_witness:
  "snapshots \<lparr> as_counts = fmap_of_list [(ClassExec, 2), (ClassMcp ''fs'', 1)] \<rparr>
       [ClassExec, ClassMcp ''fs''] empty_manifest =
   snapshots \<lparr> as_counts = fmap_of_list [(ClassExec, 2), (ClassMcp ''fs'', 1)] \<rparr>
       [ClassMcp ''fs'', ClassExec] empty_manifest"
  using snapshots_deterministic [of "[ClassExec, ClassMcp ''fs'']"
      "\<lparr> as_counts = fmap_of_list [(ClassExec, 2), (ClassMcp ''fs'', 1)] \<rparr>"
      "[ClassMcp ''fs'', ClassExec]" empty_manifest]
  by auto

end
