(* ===== verification/Grants.thy ===== *)
theory Grants
  imports Libs
begin

text \<open>
  The approval gate's data, \<open>crates/approval-gate/src/lib.rs\<close>, and the session grant table,
  \<open>grants.rs\<close>. A \<open>SystemTime\<close> is an instant, a \<open>Duration\<close> a number of nanoseconds.

  \<open>keyed_store\<close> is the interface of the table; what a sequence of insertions leaves to be found is
  proved once in it.
\<close>

record ApprovalRequest =
  aq_action_summary :: string
  aq_resource_uri :: string
  aq_access_type :: string
  aq_session_id :: string
  aq_reasoning_step_id :: "string option"
  aq_timeout :: time

datatype ApprovalOutcome =
    OutcomeGranted string time
  | OutcomeRejected string time
  | OutcomeTimedOut time

datatype gate_error = GateIo | GateMalformed string | GateSerde string | GateChannel string

definition seconds :: "int \<Rightarrow> time" where
  "seconds n = n * 1000000000"

definition DEFAULT_TIMEOUT :: time where
  "DEFAULT_TIMEOUT = seconds 60"

section \<open>Grants\<close>

datatype GrantDecision = GrantAllow | GrantDeny string

record ApprovalGrant =
  g_grant_id :: string
  g_issued_at :: time
  g_ttl :: time
  g_bound_tool_name :: string
  g_bound_arg_hash :: bytes
  g_decision :: GrantDecision

definition canonical_arg_hash :: "'a libs_scheme \<Rightarrow> json \<Rightarrow> bytes" where
  "canonical_arg_hash L args = sha256 L (json_to_string L args)"

text \<open>\<open>grant_allow\<close> and \<open>grant_deny\<close> take the fresh id and the clock reading they make.\<close>

definition grant_allow :: "'a libs_scheme \<Rightarrow> string \<Rightarrow> time \<Rightarrow> string \<Rightarrow> json \<Rightarrow> time \<Rightarrow> ApprovalGrant" where
  "grant_allow L gid now tool args ttl =
     \<lparr> g_grant_id = gid, g_issued_at = now, g_ttl = ttl, g_bound_tool_name = tool,
       g_bound_arg_hash = canonical_arg_hash L args, g_decision = GrantAllow \<rparr>"

definition grant_deny :: "'a libs_scheme \<Rightarrow> string \<Rightarrow> time \<Rightarrow> string \<Rightarrow> json \<Rightarrow> time \<Rightarrow> string \<Rightarrow> ApprovalGrant" where
  "grant_deny L gid now tool args ttl reason =
     \<lparr> g_grant_id = gid, g_issued_at = now, g_ttl = ttl, g_bound_tool_name = tool,
       g_bound_arg_hash = canonical_arg_hash L args, g_decision = GrantDeny reason \<rparr>"

text \<open>A clock that went backwards leaves the grant live.\<close>

definition is_live_at :: "ApprovalGrant \<Rightarrow> time \<Rightarrow> bool" where
  "is_live_at g now = (if g_issued_at g \<le> now then now - g_issued_at g < g_ttl g else True)"

definition arg_hash_hex :: "'a libs_scheme \<Rightarrow> ApprovalGrant \<Rightarrow> string" where
  "arg_hash_hex L g = hex_encode L (g_bound_arg_hash g)"

section \<open>The table\<close>

record SessionGrantTable =
  gt_grants :: "(string \<times> bytes, ApprovalGrant) fmap"

definition grant_table_new :: SessionGrantTable where
  "grant_table_new = \<lparr> gt_grants = fmempty \<rparr>"

definition grant_key :: "ApprovalGrant \<Rightarrow> string \<times> bytes" where
  "grant_key g = (g_bound_tool_name g, g_bound_arg_hash g)"

definition grant_lookup :: "'a libs_scheme \<Rightarrow> SessionGrantTable \<Rightarrow> string \<Rightarrow> json \<Rightarrow> time
    \<Rightarrow> ApprovalGrant option" where
  "grant_lookup L t tool args now =
     (case fmlookup (gt_grants t) (tool, canonical_arg_hash L args) of
        Some g \<Rightarrow> if is_live_at g now then Some g else None
      | None \<Rightarrow> None)"

definition grant_insert :: "ApprovalGrant \<Rightarrow> SessionGrantTable \<Rightarrow> SessionGrantTable" where
  "grant_insert g t = t\<lparr> gt_grants := fmupd (grant_key g) g (gt_grants t) \<rparr>"

definition grant_table_len :: "SessionGrantTable \<Rightarrow> nat" where
  "grant_table_len t = fcard (fmdom (gt_grants t))"

definition grant_table_is_empty :: "SessionGrantTable \<Rightarrow> bool" where
  "grant_table_is_empty t \<longleftrightarrow> gt_grants t = fmempty"

section \<open>The interface\<close>

locale keyed_store =
  fixes empty :: "'s"
    and put :: "'v \<Rightarrow> 's \<Rightarrow> 's"
    and get :: "'s \<Rightarrow> 'k \<Rightarrow> 'v option"
    and key_of :: "'v \<Rightarrow> 'k"
  assumes get_empty: "get empty k = None"
    and get_put: "get (put v s) k = (if k = key_of v then Some v else get s k)"
begin

lemma get_puts:
  "get (fold put vs s) k = (case find (\<lambda>v. key_of v = k) (rev vs) of Some v \<Rightarrow> Some v | None \<Rightarrow> get s k)"
proof (induction vs rule: rev_induct)
  case (snoc v vs)
  then show ?case by (simp add: get_put)
qed simp

lemma get_puts_empty:
  "get (fold put vs empty) k = Some v \<longleftrightarrow>
     (\<exists>before after. vs = before @ v # after \<and> key_of v = k \<and> (\<forall>w \<in> set after. key_of w \<noteq> k))"
proof (induction vs rule: rev_induct)
  case (snoc u vs)
  show ?case
  proof (cases "key_of u = k")
    case True
    then have "get (fold put (vs @ [u]) empty) k = Some v \<longleftrightarrow> v = u" by (auto simp: get_put)
    moreover have "(\<exists>before after. vs @ [u] = before @ v # after \<and> key_of v = k \<and>
        (\<forall>w \<in> set after. key_of w \<noteq> k)) \<longleftrightarrow> v = u" (is "?E \<longleftrightarrow> _")
    proof
      assume ?E
      then obtain b a where "vs @ [u] = b @ v # a" "\<forall>w \<in> set a. key_of w \<noteq> k" by blast
      with True show "v = u" by (cases a rule: rev_cases) auto
    next
      assume "v = u"
      with True show ?E by (intro exI [of _ vs] exI [of _ "[]"]) simp
    qed
    ultimately show ?thesis by simp
  next
    case False
    then have "get (fold put (vs @ [u]) empty) k = get (fold put vs empty) k" by (simp add: get_put)
    moreover have "(\<exists>before after. vs @ [u] = before @ v # after \<and> key_of v = k \<and>
        (\<forall>w \<in> set after. key_of w \<noteq> k)) \<longleftrightarrow> (\<exists>before after. vs = before @ v # after \<and> key_of v = k \<and>
        (\<forall>w \<in> set after. key_of w \<noteq> k))" (is "?E \<longleftrightarrow> ?F")
    proof
      assume ?E
      then obtain b a where *: "vs @ [u] = b @ v # a" "key_of v = k" "\<forall>w \<in> set a. key_of w \<noteq> k" by blast
      with False show ?F by (cases a rule: rev_cases) auto
    next
      assume ?F
      then obtain b a where "vs = b @ v # a" "key_of v = k" "\<forall>w \<in> set a. key_of w \<noteq> k" by blast
      with False show ?E by (intro exI [of _ b] exI [of _ "a @ [u]"]) auto
    qed
    ultimately show ?thesis using snoc by simp
  qed
qed (simp add: get_empty)

end

interpretation grant_store: keyed_store grant_table_new grant_insert
    "\<lambda>t k. fmlookup (gt_grants t) k" grant_key
  by unfold_locales (auto simp: grant_table_new_def grant_insert_def)

lemma grant_lookup_Some:
  "grant_lookup L t tool args now = Some g \<longleftrightarrow>
     fmlookup (gt_grants t) (tool, canonical_arg_hash L args) = Some g \<and> is_live_at g now"
  by (auto simp: grant_lookup_def split: option.splits if_splits)

section \<open>Properties\<close>

text \<open>Auto-consumption is tied to the tool, the arguments and the time. After any decisions in a
  session, a lookup finds a grant exactly when it is the latest decision taken for the same tool
  and the same digest of the canonical arguments and the clock reads before the end of its
  lifetime; a later decision supersedes an earlier one and drifted arguments find nothing.\<close>

theorem grant_lookup_exact:
  assumes "\<forall>g \<in> set gs. 0 \<le> g_ttl g"
  shows "grant_lookup L (fold grant_insert gs grant_table_new) tool args now = Some g \<longleftrightarrow>
    (\<exists>before after. gs = before @ g # after \<and>
       g_bound_tool_name g = tool \<and> g_bound_arg_hash g = canonical_arg_hash L args \<and>
       (\<forall>h \<in> set after. \<not> (g_bound_tool_name h = tool \<and> g_bound_arg_hash h = canonical_arg_hash L args)) \<and>
       now < g_issued_at g + g_ttl g)"
proof -
  have live: "is_live_at g now \<longleftrightarrow> now < g_issued_at g + g_ttl g" if "g \<in> set gs"
    using assms that by (auto simp: is_live_at_def)
  show ?thesis
    unfolding grant_lookup_Some grant_store.get_puts_empty grant_key_def prod.inject
    using live by (metis in_set_conv_decomp)
qed

definition demo_grants :: "ApprovalGrant list" where
  "demo_grants =
     [grant_allow libs0 ''g1'' 0 ''fs__write'' JNull 10, grant_deny libs0 ''g2'' 5 ''fs__write'' JNull 10 ''no'']"

theorem grant_lookup_exact_witness:
  "grant_lookup libs0 (fold grant_insert demo_grants grant_table_new) ''fs__write'' JNull 14
     = Some (grant_deny libs0 ''g2'' 5 ''fs__write'' JNull 10 ''no'')"
proof -
  have ttl: "\<forall>g \<in> set demo_grants. 0 \<le> g_ttl g"
    by (simp add: demo_grants_def grant_allow_def grant_deny_def)
  show ?thesis
    unfolding grant_lookup_exact [OF ttl]
    by (intro exI [of _ "[grant_allow libs0 ''g1'' 0 ''fs__write'' JNull 10]"] exI [of _ "[]"])
       (simp add: demo_grants_def grant_deny_def)
qed

end
