(* ===== verification/Emit.thy ===== *)
theory Emit
  imports Policy Verify
begin

text \<open>
  The typed event emitters over the ledger writer: \<open>crates/access-log/src/lib.rs\<close> (access and
  reasoning-step entries), \<open>crates/policy/src/violation.rs\<close> (violations) and
  \<open>identity_binding.rs\<close> (the digest-rebind check that records before it refuses).
\<close>

section \<open>Access log\<close>

datatype access_error = AccLedger ledger_error | AccEmptyResourceUri | AccEmptyReasoningInput

datatype AccessType = AccRead | AccWrite | AccDelete | AccNetworkOutbound | AccNetworkInbound | AccExec
  | AccMcpToolCall

fun access_type_name :: "AccessType \<Rightarrow> string" where
  "access_type_name AccRead = ''read''"
| "access_type_name AccWrite = ''write''"
| "access_type_name AccDelete = ''delete''"
| "access_type_name AccNetworkOutbound = ''network_outbound''"
| "access_type_name AccNetworkInbound = ''network_inbound''"
| "access_type_name AccExec = ''exec''"
| "access_type_name AccMcpToolCall = ''mcp_tool_call''"

record AccessEvent =
  av_resource_uri :: string
  av_access_type :: AccessType
  av_bytes_accessed :: u64
  av_reasoning_step_id :: "string option"
  av_timestamp :: time

record ReasoningStepEvent =
  rs_step_id :: string
  rs_input :: string
  rs_reasoning :: string
  rs_tools_considered :: "string list"
  rs_tool_selected :: "string option"
  rs_timestamp :: time

definition opt_field :: "string \<Rightarrow> string option \<Rightarrow> (string \<times> json) list" where
  "opt_field k v = map (\<lambda>s. (k, JString s)) (opt_list v)"

definition writer_entry :: "writer \<Rightarrow> EntryType \<Rightarrow> bytes \<Rightarrow> time \<Rightarrow> (string \<times> json) list \<Rightarrow> entry" where
  "writer_entry w ty idh ts kvs =
     \<lparr> e_session_id = w_session_id w, e_entry_type = ty, e_identity_hash = idh, e_timestamp = ts,
       e_payload = fmap_of_list (rev kvs) \<rparr>"

definition reasoning_step_fields :: "ReasoningStepEvent \<Rightarrow> (string \<times> json) list" where
  "reasoning_step_fields ev =
     [(''reasoningStepId'', JString (rs_step_id ev)), (''input'', JString (rs_input ev)),
      (''reasoning'', JString (rs_reasoning ev)),
      (''toolsConsidered'', JArray (map JString (rs_tools_considered ev)))] @
     opt_field ''toolSelected'' (rs_tool_selected ev)"

definition emit_reasoning_step :: "'a libs_scheme \<Rightarrow> bytes \<Rightarrow> ReasoningStepEvent
    \<Rightarrow> (writer, access_error, entry_record) act" where
  "emit_reasoning_step L idh ev =
     (if rs_input ev = [] then errA AccEmptyReasoningInput
      else bindA (getA (\<lambda>w. w)) (\<lambda>w.
           mapErrA AccLedger (append_entry L
             (writer_entry w ReasoningStep idh (rs_timestamp ev) (reasoning_step_fields ev)))))"

definition access_fields :: "AccessEvent \<Rightarrow> (string \<times> json) list" where
  "access_fields ev =
     [(''resourceUri'', JString (av_resource_uri ev)),
      (''accessType'', JString (access_type_name (av_access_type ev))),
      (''bytesAccessed'', JU64 (av_bytes_accessed ev))] @
     opt_field ''reasoningStepId'' (av_reasoning_step_id ev)"

definition emit_access :: "'a libs_scheme \<Rightarrow> bytes \<Rightarrow> AccessEvent
    \<Rightarrow> (writer, access_error, entry_record) act" where
  "emit_access L idh ev =
     (if av_resource_uri ev = [] then errA AccEmptyResourceUri
      else bindA (getA (\<lambda>w. w)) (\<lambda>w.
           mapErrA AccLedger (append_entry L
             (writer_entry w Access idh (av_timestamp ev) (access_fields ev)))))"

section \<open>Violations\<close>

record ViolationEvent =
  ve_reason :: string
  ve_resource_uri :: "string option"
  ve_access_type :: "string option"
  ve_timestamp :: time

fun network_scheme :: "NetworkProto \<Rightarrow> string" where
  "network_scheme ProtoHttp = ''http''"
| "network_scheme ProtoHttps = ''https''"
| "network_scheme ProtoUdp = ''udp''"
| "network_scheme ProtoTcp = ''tcp''"
| "network_scheme ProtoAny = ''tcp''"

definition violation_for_network :: "string \<Rightarrow> u16 \<Rightarrow> NetworkProto \<Rightarrow> string \<Rightarrow> time \<Rightarrow> ViolationEvent" where
  "violation_for_network host port proto reason ts =
     \<lparr> ve_reason = reason,
       ve_resource_uri = Some (network_scheme proto @ ''://'' @ host @ '':'' @ show_nat (unat port)),
       ve_access_type = Some ''network_outbound'', ve_timestamp = ts \<rparr>"

definition violation_fields :: "ViolationEvent \<Rightarrow> (string \<times> json) list" where
  "violation_fields ev =
     (''violationReason'', JString (ve_reason ev)) #
     opt_field ''resourceUri'' (ve_resource_uri ev) @ opt_field ''accessType'' (ve_access_type ev)"

definition emit_violation :: "'a libs_scheme \<Rightarrow> bytes \<Rightarrow> ViolationEvent
    \<Rightarrow> (writer, policy_error, entry_record) act" where
  "emit_violation L idh ev =
     bindA (getA (\<lambda>w. w)) (\<lambda>w.
     mapErrA PolLedger (append_entry L
       (writer_entry w Violation idh (ve_timestamp ev) (violation_fields ev))))"

section \<open>The identity binding check\<close>

definition rebind_event :: "'a libs_scheme \<Rightarrow> DigestMismatch \<Rightarrow> time \<Rightarrow> ViolationEvent" where
  "rebind_event L m ts =
     \<lparr> ve_reason = ''identity digest binding violated: '' @ digest_mismatch_display L m,
       ve_resource_uri = Some (''digest-binding://'' @ digest_field_name (dm_field m)),
       ve_access_type = None, ve_timestamp = ts \<rparr>"

definition check_identity_binding :: "'a libs_scheme \<Rightarrow> x509_lib \<Rightarrow> bytes \<Rightarrow> string \<Rightarrow> DigestTriple \<Rightarrow> time
    \<Rightarrow> (writer, policy_error, unit) act" where
  "check_identity_binding L X idh cert_pem live ts =
     (case verify_digest_binding X cert_pem live of
        Inl e \<Rightarrow> errA (PolIdentity e)
      | Inr None \<Rightarrow> okA ()
      | Inr (Some m) \<Rightarrow>
          bindA (emit_violation L idh (rebind_event L m ts)) (\<lambda>_. errA (PolIdentityRebind m)))"

section \<open>What the emitters append\<close>

lemma payload_keys: "fmdom (e_payload (writer_entry w ty idh ts fs)) = fset_of_list (map fst fs)"
  by (simp add: writer_entry_def)

lemma emitted_not_reserved:
  "RESERVED_KEYS = ks \<Longrightarrow>
     \<forall>k \<in> set ks. k \<notin> set (map fst (access_fields ev1)) \<and>
       k \<notin> set (map fst (violation_fields ev2)) \<and> k \<notin> set (map fst (reasoning_step_fields ev3))"
  by (auto simp: RESERVED_KEYS_def access_fields_def violation_fields_def reasoning_step_fields_def
      opt_field_def opt_list_def split: option.splits)

text \<open>The entries of the three kinds are always valid, so that only I/O can make the append fail.\<close>

lemma writer_entry_valid:
  assumes "\<forall>k \<in> set RESERVED_KEYS. k \<notin> set (map fst fs)"
  shows "entry_valid (w_session_id w) (writer_entry w ty idh ts fs)"
  using assms by (simp add: entry_valid_def payload_keys fset_of_list.rep_eq) (simp add: writer_entry_def)

lemma emitted_entries_valid:
  "entry_valid (w_session_id w) (writer_entry w ty idh ts (access_fields ev1))"
  "entry_valid (w_session_id w) (writer_entry w ty idh ts (violation_fields ev2))"
  "entry_valid (w_session_id w) (writer_entry w ty idh ts (reasoning_step_fields ev3))"
  by (rule writer_entry_valid, use emitted_not_reserved [OF refl] in blast)+

lemma emit_access_Inr:
  assumes "emit_access L idh ev w = (Inr r, w')"
  shows "av_resource_uri ev \<noteq> []" and "append_entry L
      (writer_entry w Access idh (av_timestamp ev) (access_fields ev)) w = (Inr r, w')"
  using assms by (auto simp: emit_access_def act_simps act_results errA_def split: if_splits)

lemma emit_reasoning_step_Inr:
  assumes "emit_reasoning_step L idh ev w = (Inr r, w')"
  shows "rs_input ev \<noteq> []" and "append_entry L
      (writer_entry w ReasoningStep idh (rs_timestamp ev) (reasoning_step_fields ev)) w = (Inr r, w')"
  using assms by (auto simp: emit_reasoning_step_def act_simps act_results errA_def split: if_splits)

lemma emit_violation_Inr:
  assumes "emit_violation L idh ev w = (Inr r, w')"
  shows "append_entry L (writer_entry w Violation idh (ve_timestamp ev) (violation_fields ev)) w = (Inr r, w')"
  using assms by (auto simp: emit_violation_def act_simps act_results)

lemma emit_moves [moves_intros]:
  "moves writer_log.grows (emit_access L idh ev1)"
  "moves writer_log.grows (emit_violation L idh ev2)"
  "moves writer_log.grows (emit_reasoning_step L idh ev3)"
  unfolding emit_access_def emit_violation_def emit_reasoning_step_def
  by (auto intro!: writer_log.bind writer_log.map_err writer_log.get writer_log.err writer_log.append_moves
      split: if_splits)

abbreviation entries :: "writer \<Rightarrow> entry list" where
  "entries w \<equiv> map snd (w_log w)"

lemma emit_violation_succeeds:
  assumes "disk_works w"
  shows "\<exists>r w'. emit_violation L idh ev w = (Inr r, w') \<and> disk_works w' \<and>
     entries w' = entries w @ [writer_entry w Violation idh (ve_timestamp ev) (violation_fields ev)]"
proof -
  obtain r w' where a: "append_entry L (writer_entry w Violation idh (ve_timestamp ev) (violation_fields ev)) w
      = (Inr r, w')" "disk_works w'"
    using append_entry_succeeds emitted_entries_valid(2) assms by blast
  then have "emit_violation L idh ev w = (Inr r, w')"
    by (simp add: emit_violation_def act_simps mapErrA_def)
  with a append_entry_ok(2) [OF a(1)] show ?thesis by simp
qed

section \<open>Properties\<close>

text \<open>Digest drift is recorded before it is refused. On a working disk the identity check of a
  readable certificate passes without touching the ledger when the live digests are the bound
  ones; otherwise it returns IdentityRebind and exactly one Violation entry has been appended,
  naming the drifted field. An unreadable certificate is reported without an entry.\<close>

theorem rebind_recorded_before_refusal:
  assumes "disk_works w"
  shows "case extract_digest_triple_from_pem X pem of
      Inl e \<Rightarrow> check_identity_binding L X idh pem live ts w = (Inl (PolIdentity e), w)
    | Inr bound \<Rightarrow>
        (live = bound \<and> check_identity_binding L X idh pem live ts w = (Inr (), w)) \<or>
        (live \<noteq> bound \<and> (\<exists>m w'. check_identity_binding L X idh pem live ts w =
             (Inl (PolIdentityRebind m), w') \<and> dm_bound m \<noteq> dm_live m \<and>
           entries w' = entries w @ [writer_entry w Violation idh ts (violation_fields (rebind_event L m ts))]))"
proof (cases "extract_digest_triple_from_pem X pem")
  case (Inl e)
  then show ?thesis by (simp add: check_identity_binding_def verify_digest_binding_def errA_def)
next
  case (Inr bound)
  show ?thesis
  proof (cases "live = bound")
    case True
    with Inr verify_digest_binding_None [OF Inr, of live] show ?thesis
      by (simp add: check_identity_binding_def okA_def)
  next
    case False
    with Inr obtain m where m: "verify_digest_binding X pem live = Inr (Some m)" "dm_bound m \<noteq> dm_live m"
      using verify_digest_binding_None [OF Inr, of live]
      by (auto simp: verify_digest_binding_def split: if_splits)
    from emit_violation_succeeds [OF assms, of L idh "rebind_event L m ts"]
    obtain r w' where "emit_violation L idh (rebind_event L m ts) w = (Inr r, w')"
      "entries w' = entries w @ [writer_entry w Violation idh ts (violation_fields (rebind_event L m ts))]"
      by (auto simp: rebind_event_def)
    with Inr False m show ?thesis
      by (auto simp: check_identity_binding_def act_simps errA_def)
  qed
qed

lemma demo_disk_works: "disk_works (demo_writer v)"
  by (simp add: disk_works_def demo_writer_def)

theorem rebind_recorded_before_refusal_witness:
  "\<exists>s m w'. issue_svid_with_chat_template x509_demo 0 0 demo_ca ''w'' ''i'' demo_digests None = Inr s \<and>
     check_identity_binding libs0 x509_demo [] (sv_cert_pem s) (demo_digests\<lparr> dt_config := [] \<rparr>) 0 (demo_writer V2)
       = (Inl (PolIdentityRebind m), w') \<and> length (entries w') = 1"
proof -
  obtain s where s: "issue_svid_with_chat_template x509_demo 0 0 demo_ca ''w'' ''i'' demo_digests None
      = Inr s" using demo_issue by blast
  obtain sid na where "spiffe_valid sid" "sign_svid x509_demo demo_ca 0 sid demo_digests None
      (leaf_params 0 na ''w'' sid demo_digests None None) = Inr s"
    using issue_svid_signs [OF s] by blast
  moreover have "template_ok None" by (simp add: template_ok_def)
  ultimately have "extract_digest_triple_from_pem x509_demo (sv_cert_pem s) = Inr demo_digests"
    using leaf_certificate_reads(1) [OF x509_demo_laws demo_digests_ok] by blast
  with rebind_recorded_before_refusal [OF demo_disk_works [of V2], where pem = "sv_cert_pem s" and X = x509_demo
      and live = "demo_digests\<lparr> dt_config := [] \<rparr>" and L = libs0 and idh = "[]" and ts = 0] s
  show ?thesis by (auto simp: demo_digests_def) (auto simp: demo_writer_def)
qed

end
