(* ===== verification/World.thy ===== *)
theory World
  imports Grants Emit Aggregate
begin

text \<open>
  The environment of a session: the libraries, and what the operating system and the clock
  answer, together with the inference backend's data (\<open>crates/inference-engine/src/backend.rs\<close>).
  Every answer is indexed by a tick, which each call to the environment advances, so that two
  calls may be answered differently; nothing is assumed of the answers. The file system is a map
  from paths to contents that lives in the session's state, because the calls read and change it.
\<close>

type_synonym file_system = "string \<rightharpoonup> bytes"

section \<open>Inference backend data\<close>

datatype ChatRole = RoleSystem | RoleUser | RoleAssistant | RoleTool

fun chat_role_as_str :: "ChatRole \<Rightarrow> string" where
  "chat_role_as_str RoleSystem = ''system''"
| "chat_role_as_str RoleUser = ''user''"
| "chat_role_as_str RoleAssistant = ''assistant''"
| "chat_role_as_str RoleTool = ''tool''"

record ChatMessage =
  cm_role :: ChatRole
  cm_content :: string

record ToolDecl =
  td_name :: string
  td_description :: string
  td_arguments_schema :: json

record InferToolCall =
  tc_name :: string
  tc_arguments :: json

record InferRequest =
  iq_messages :: "ChatMessage list"
  iq_tools :: "ToolDecl list"

record InferResponse =
  ir_reasoning :: string
  ir_tool_calls :: "InferToolCall list"
  ir_assistant_text :: "string option"
  ir_tokens_used :: "u64 option"

datatype BackendErrorKind =
    ModelFileUnreadable | ModelLoadFailed | SessionInitFailed | Tokenization | Inference
  | InvalidUtf8 | InvalidConfig | BackendAlreadyInitialized | BackendInitFailed | BackendOther

fun backend_error_kind_display :: "BackendErrorKind \<Rightarrow> string" where
  "backend_error_kind_display ModelFileUnreadable = ''model file unreadable''"
| "backend_error_kind_display ModelLoadFailed = ''model load failed''"
| "backend_error_kind_display SessionInitFailed = ''session init failed''"
| "backend_error_kind_display Tokenization = ''tokenization failed''"
| "backend_error_kind_display Inference = ''inference decode failed''"
| "backend_error_kind_display InvalidUtf8 = ''invalid UTF-8 in output''"
| "backend_error_kind_display InvalidConfig = ''invalid configuration''"
| "backend_error_kind_display BackendAlreadyInitialized = ''backend already initialized''"
| "backend_error_kind_display BackendInitFailed = ''backend init failed''"
| "backend_error_kind_display BackendOther = ''backend error''"

record BackendError =
  be_kind :: BackendErrorKind
  be_detail :: string

definition backend_error_display :: "BackendError \<Rightarrow> string" where
  "backend_error_display e = backend_error_kind_display (be_kind e) @ '': '' @ be_detail e"

section \<open>The environment\<close>

record exec_output =
  eo_status_code :: "32 word option"
  eo_stdout :: bytes
  eo_stderr :: bytes

text \<open>
  \<open>w_read_file\<close> is \<open>fs::read\<close> of a path; \<open>w_write_file\<close>, \<open>w_remove_file\<close> and \<open>w_exec\<close> say whether
  the call succeeded and what the file system is afterwards (a failed write may leave part of the
  contents, a program may change any file). \<open>w_f32_\<dots>\<close> and \<open>w_f64_\<dots>\<close> are IEEE arithmetic on
  the bits of a float. \<open>w_messages_to_string\<close> is \<open>serde_json::to_string\<close> of the message list.
\<close>

record world = libs +
  w_x509 :: x509_lib
  w_yaml :: "bytes \<Rightarrow> string + Manifest"
  w_utc_now :: "nat \<Rightarrow> time"
  w_system_now :: "nat \<Rightarrow> time"
  w_instant_now :: "nat \<Rightarrow> time"
  w_now_v7 :: "nat \<Rightarrow> string"
  w_ca_outcome :: "nat \<Rightarrow> nat \<Rightarrow> file_outcome"
  w_ledger_create :: "nat \<Rightarrow> string \<Rightarrow> bool"
  w_ledger_io :: "nat \<Rightarrow> nat \<Rightarrow> nat \<times> bool"
  w_read_file :: "nat \<Rightarrow> file_system \<Rightarrow> string \<Rightarrow> bytes option"
  w_write_file :: "nat \<Rightarrow> file_system \<Rightarrow> string \<Rightarrow> bytes \<Rightarrow> bool \<times> file_system"
  w_remove_file :: "nat \<Rightarrow> file_system \<Rightarrow> string \<Rightarrow> bool \<times> file_system"
  w_connect :: "nat \<Rightarrow> string \<Rightarrow> u16 \<Rightarrow> bool"
  w_exec :: "nat \<Rightarrow> file_system \<Rightarrow> string \<Rightarrow> string list \<Rightarrow> exec_output option \<times> file_system"
  w_current_dir :: "nat \<Rightarrow> string option"
  w_io_error_text :: "nat \<Rightarrow> string"
  w_utf8_lossy :: "bytes \<Rightarrow> string"
  w_regex_match :: "string \<Rightarrow> string \<Rightarrow> bool"
  w_f32_add :: "32 word \<Rightarrow> 32 word \<Rightarrow> 32 word"
  w_f32_min :: "32 word \<Rightarrow> 32 word \<Rightarrow> 32 word"
  w_f32_ge :: "32 word \<Rightarrow> 32 word \<Rightarrow> bool"
  w_f32_to_f64 :: "32 word \<Rightarrow> 64 word"
  w_f32_show2 :: "32 word \<Rightarrow> string"
  w_f64_finite :: "64 word \<Rightarrow> bool"
  w_f64_show1 :: "64 word \<Rightarrow> string"
  w_secs_f64 :: "time \<Rightarrow> 64 word"
  w_messages_to_string :: "ChatMessage list \<Rightarrow> string"
  w_quota_keys :: "(ToolClass, u64) fmap \<Rightarrow> ToolClass list"

end
