(* ===== verification/Session.thy ===== *)
theory Session
  imports Adversarial
begin

text \<open>
  The session, \<open>crates/inference-engine/src/session.rs\<close> with its errors (\<open>error.rs\<close>): its state,
  boot, the ledger entries it writes itself, the per-turn SVID and the quota gate.

  Fields that hold a trait object (\<open>Box<dyn ApprovalChannel>\<close>, \<open>Box<dyn McpClient>\<close>,
  \<open>Box<dyn LoadedModel>\<close>) hold the function the object computes, indexed by the tick of the call.
  \<open>s_effects\<close> is a history variable that no operation reads: every call by which the mediator lets
  the agent touch the outside world, with the ledger entries at the moment of the call.
\<close>

section \<open>Errors\<close>

datatype TurnCapKind = CapTurns | CapTokens | CapWallclock

fun turn_cap_kind_display :: "TurnCapKind \<Rightarrow> string" where
  "turn_cap_kind_display CapTurns = ''turns''"
| "turn_cap_kind_display CapTokens = ''tokens''"
| "turn_cap_kind_display CapWallclock = ''wallclock''"

fun turn_cap_kind_debug :: "TurnCapKind \<Rightarrow> string" where
  "turn_cap_kind_debug CapTurns = ''Turns''"
| "turn_cap_kind_debug CapTokens = ''Tokens''"
| "turn_cap_kind_debug CapWallclock = ''Wallclock''"

text \<open>\<open>EngPanic\<close> is not a value of the Rust error type: it stands for a panic.\<close>

datatype engine_error =
    EngIo
  | EngIdentity identity_error
  | EngPolicy policy_error
  | EngLedger ledger_error
  | EngSerde string
  | EngSvidSelfCheck string
  | EngChatTemplateSidecar string string
  | EngNoBackendConfigured
  | EngBackendInfer BackendError
  | EngUnroutableToolCall string
  | EngReservedMcpServerName string
  | EngAccessLog access_error
  | EngMcpPreValidateMalformedArg string string string string
  | EngDenied string
  | EngRequireApproval string
  | EngTurnCapExceeded TurnCapKind u32 u32 u64 u64 "64 word" u64
  | EngPanic

definition eng_identity :: "identity_error \<Rightarrow> engine_error" where
  "eng_identity e = (if e = IdPanic then EngPanic else EngIdentity e)"

section \<open>State\<close>

record env =
  en_fs :: file_system
  en_tick :: nat

datatype effect =
    EffRead string
  | EffWrite string bytes
  | EffDelete string
  | EffConnect string u16
  | EffExec string "string list"
  | EffMcp string string json

datatype NetworkConnectionDecision = ConnAllowed | ConnApproved | ConnDenied

record NetworkConnectionMeta =
  nc_host :: string
  nc_port :: u16
  nc_protocol :: string
  nc_decision :: NetworkConnectionDecision
  nc_timestamp :: time

type_synonym approval_channel = "nat \<Rightarrow> ApprovalRequest \<Rightarrow> gate_error + ApprovalOutcome"
type_synonym mcp_client =
  "nat \<Rightarrow> file_system \<Rightarrow> string \<Rightarrow> string \<Rightarrow> json \<Rightarrow> (string + json) \<times> file_system"
type_synonym loaded_model = "nat \<Rightarrow> InferRequest \<Rightarrow> BackendError + InferResponse"

record session =
  s_policy :: Policy
  s_ledger :: writer
  s_svid_cert_pem :: string
  s_svid_key_pem :: string
  s_bound_digests :: DigestTriple
  s_bound_chat_template :: "bytes option"
  s_spiffe_id :: SpiffeId
  s_agent_identity_hash :: bytes
  s_session_id :: string
  s_session_start :: time
  s_manifest_path :: string
  s_model_path :: string
  s_config_path :: "string option"
  s_identity_dir :: string
  s_workload_name :: string
  s_instance :: string
  s_approval_channel :: "approval_channel option"
  s_network_log :: "NetworkConnectionMeta list"
  s_mcp_client :: "mcp_client option"
  s_loaded_model :: "loaded_model option"
  s_adversarial_classifier :: Classifier
  s_aggregate_state :: SessionAggregateState
  s_current_turn_svid :: "X509Svid option"
  s_grant_table :: SessionGrantTable
  s_env :: env
  s_effects :: "(effect \<times> entry list) list"

record BootConfig =
  bc_session_id :: string
  bc_manifest_path :: string
  bc_model_path :: string
  bc_config_path :: "string option"
  bc_chat_template_sidecar :: "string option"
  bc_identity_dir :: string
  bc_workload_name :: string
  bc_instance :: string
  bc_ledger_path :: string
  bc_ledger_schema :: "LedgerSchemaVersion option"

abbreviation on_env :: "(env, 'e, 'a) act \<Rightarrow> (session, 'e, 'a) act" where
  "on_env \<equiv> zoomA s_env (\<lambda>e s. s\<lparr> s_env := e \<rparr>)"

abbreviation on_ledger :: "(writer, 'e, 'a) act \<Rightarrow> (session, 'e, 'a) act" where
  "on_ledger \<equiv> zoomA s_ledger (\<lambda>w s. s\<lparr> s_ledger := w \<rparr>)"

definition with_approval_channel :: "session \<Rightarrow> approval_channel \<Rightarrow> session" where
  "with_approval_channel s c = s\<lparr> s_approval_channel := Some c \<rparr>"

definition with_mcp_client :: "session \<Rightarrow> mcp_client \<Rightarrow> session" where
  "with_mcp_client s c = s\<lparr> s_mcp_client := Some c \<rparr>"

definition with_loaded_model :: "session \<Rightarrow> loaded_model \<Rightarrow> session" where
  "with_loaded_model s m = s\<lparr> s_loaded_model := Some m \<rparr>"

definition with_adversarial_classifier :: "session \<Rightarrow> Classifier \<Rightarrow> session" where
  "with_adversarial_classifier s c = s\<lparr> s_adversarial_classifier := c \<rparr>"

section \<open>Calls to the environment\<close>

definition tickA :: "(nat \<Rightarrow> 'a) \<Rightarrow> (env, 'e, 'a) act" where
  "tickA f = (\<lambda>e. (Inr (f (en_tick e)), e\<lparr> en_tick := Suc (en_tick e) \<rparr>))"

definition read_fileA :: "'w world_scheme \<Rightarrow> string \<Rightarrow> (env, 'e, bytes option) act" where
  "read_fileA W path = bindA (getA en_fs) (\<lambda>fs. tickA (\<lambda>t. w_read_file W t fs path))"

text \<open>\<open>sha256_file\<close> hashes the file in blocks of 8192 bytes, which is the digest of the whole.\<close>

definition sha256_file :: "'w world_scheme \<Rightarrow> string \<Rightarrow> (env, engine_error, bytes) act" where
  "sha256_file W path =
     bindA (read_fileA W path) (\<lambda>f. case f of None \<Rightarrow> errA EngIo | Some b \<Rightarrow> okA (sha256 W b))"

definition sha256_bytes :: "'w libs_scheme \<Rightarrow> bytes \<Rightarrow> bytes" where
  "sha256_bytes L b = sha256 L b"

definition sha256_config :: "'w world_scheme \<Rightarrow> string option \<Rightarrow> (env, engine_error, bytes) act" where
  "sha256_config W path = (case path of Some p \<Rightarrow> sha256_file W p | None \<Rightarrow> okA (sha256_bytes W []))"

fun digest_length_display :: "identity_error \<Rightarrow> string" where
  "digest_length_display (IdInvalidDigestLength n) = ''digest must be 32 bytes (got '' @ show_nat n @ '')''"
| "digest_length_display _ = []"

definition read_chat_template_sidecar :: "'w world_scheme \<Rightarrow> string \<Rightarrow> (env, engine_error, bytes) act" where
  "read_chat_template_sidecar W path =
     bindA (read_fileA W path) (\<lambda>f.
     bindA (tickA (w_io_error_text W)) (\<lambda>io.
     case f of
       None \<Rightarrow> errA (EngChatTemplateSidecar path (''read failed: '' @ io))
     | Some b \<Rightarrow>
         if \<not> utf8_ok b then errA (EngChatTemplateSidecar path (''read failed: '' @ io))
         else if length (trim b) \<noteq> 64 \<or> \<not> list_all is_hexdigit (trim b) then
           errA (EngChatTemplateSidecar path (''expected 64-char hex SHA-256, got '' @ str_debug W (trim b)))
         else case digest_from_hex W (trim b) of
           Inl e \<Rightarrow> errA (EngChatTemplateSidecar path (digest_length_display e))
         | Inr d \<Rightarrow> okA d))"

definition load_ca :: "'w world_scheme \<Rightarrow> string \<Rightarrow> (env, engine_error, LocalCa) act" where
  "load_ca W dir =
     bindA (getA en_fs) (\<lambda>fs.
     bindA (tickA (\<lambda>t. fst (ca_load (w_x509 W) dir
       \<lparr> cs_files = fs, cs_calls = 0, cs_outcome = w_ca_outcome W t \<rparr>))) (\<lambda>r.
     liftA (of_lib eng_identity r)))"

section \<open>Boot\<close>

definition RESERVED_NATIVE_NAMESPACES :: "string list" where
  "RESERVED_NATIVE_NAMESPACES = [''filesystem'', ''network'', ''exec'']"

definition session_start_fields :: "'w libs_scheme \<Rightarrow> SpiffeId \<Rightarrow> DigestTriple \<Rightarrow> bytes option
    \<Rightarrow> (string \<times> json) list" where
  "session_start_fields L sid digests template =
     [(''spiffeId'', JString (spiffe_uri sid)),
      (''modelDigestHex'', JString (hex_encode L (dt_model digests))),
      (''manifestDigestHex'', JString (hex_encode L (dt_manifest digests))),
      (''configDigestHex'', JString (hex_encode L (dt_config digests)))] @
     map (\<lambda>t. (''chatTemplateDigestHex'', JString (hex_encode L t))) (opt_list template)"

definition self_check :: "identity_error + DigestMismatch option \<Rightarrow> engine_error + unit" where
  "self_check r =
     andThen (of_lib eng_identity r) (\<lambda>m.
     case m of None \<Rightarrow> Inr () | Some d \<Rightarrow> Inl (EngSvidSelfCheck (digest_field_name (dm_field d))))"

definition compute_digests :: "'w world_scheme \<Rightarrow> string \<Rightarrow> string \<Rightarrow> string option
    \<Rightarrow> (env, engine_error, DigestTriple) act" where
  "compute_digests W model manifest config =
     bindA (sha256_file W model) (\<lambda>d1.
     bindA (sha256_file W manifest) (\<lambda>d2.
     bindA (sha256_config W config) (\<lambda>d3.
     okA \<lparr> dt_model = d1, dt_manifest = d2, dt_config = d3 \<rparr>)))"

definition read_policy :: "'w world_scheme \<Rightarrow> string \<Rightarrow> (env, engine_error, Policy) act" where
  "read_policy W path =
     bindA (read_fileA W path) (\<lambda>f. liftA (of_lib EngPolicy (policy_from_yaml_file (w_yaml W) f)))"

definition check_reserved :: "Policy \<Rightarrow> engine_error + unit" where
  "check_reserved p =
     (case find (\<lambda>g. mcp_server_name g \<in> set RESERVED_NATIVE_NAMESPACES) (t_mcp (m_tools (p_manifest p))) of
        Some g \<Rightarrow> Inl (EngReservedMcpServerName (mcp_server_name g))
      | None \<Rightarrow> Inr ())"

definition open_ledger :: "'w world_scheme \<Rightarrow> BootConfig \<Rightarrow> (env, engine_error, writer) act" where
  "open_ledger W cfg =
     bindA (tickA (\<lambda>t. create_with_version (w_ledger_create W t (bc_ledger_path cfg)) (w_ledger_io W t)
       (bc_session_id cfg) (w_now_v7 W)
       (case bc_ledger_schema cfg of None \<Rightarrow> V1 | Some v \<Rightarrow> v))) (\<lambda>r. liftA (of_lib EngLedger r))"

definition first_entry :: "'w libs_scheme \<Rightarrow> BootConfig \<Rightarrow> X509Svid \<Rightarrow> DigestTriple \<Rightarrow> bytes option \<Rightarrow> time \<Rightarrow> entry" where
  "first_entry L cfg svid digests template ts =
     \<lparr> e_session_id = bc_session_id cfg, e_entry_type = SessionStart,
       e_identity_hash = sha256_bytes L (spiffe_uri (sv_spiffe_id svid)), e_timestamp = ts,
       e_payload = fmap_of_list (rev (session_start_fields L (sv_spiffe_id svid) digests template)) \<rparr>"

definition append_first :: "'w libs_scheme \<Rightarrow> entry \<Rightarrow> writer \<Rightarrow> engine_error + writer" where
  "append_first L x w0 = (case append_entry L x w0 of (Inl e, _) \<Rightarrow> Inl (EngLedger e) | (Inr _, w) \<Rightarrow> Inr w)"

definition issue_session_svid :: "'w world_scheme \<Rightarrow> BootConfig \<Rightarrow> LocalCa \<Rightarrow> DigestTriple \<Rightarrow> bytes option
    \<Rightarrow> (env, engine_error, X509Svid) act" where
  "issue_session_svid W cfg ca digests template =
     bindA (tickA (\<lambda>t. issue_svid_with_chat_template (w_x509 W) (w_utc_now W t) t ca
              (bc_workload_name cfg) (bc_instance cfg) digests template)) (\<lambda>issued.
     bindA (liftA (of_lib eng_identity issued)) (\<lambda>svid.
     bindA (liftA (self_check (verify_digest_binding (w_x509 W) (sv_cert_pem svid) digests))) (\<lambda>_.
     bindA (liftA (self_check (verify_chat_template_binding (w_x509 W) (sv_cert_pem svid) template))) (\<lambda>_.
     okA svid))))"

definition read_template :: "'w world_scheme \<Rightarrow> BootConfig \<Rightarrow> (env, engine_error, bytes option) act" where
  "read_template W cfg =
     (case bc_chat_template_sidecar cfg of
        Some p \<Rightarrow> bindA (read_chat_template_sidecar W p) (\<lambda>d. okA (Some d))
      | None \<Rightarrow> okA None)"

definition new_session :: "'w world_scheme \<Rightarrow> BootConfig \<Rightarrow> time \<Rightarrow> Policy \<Rightarrow> DigestTriple \<Rightarrow> bytes option
    \<Rightarrow> X509Svid \<Rightarrow> writer \<Rightarrow> env \<Rightarrow> session" where
  "new_session W cfg start policy digests template svid w now =
     \<lparr> s_policy = policy, s_ledger = w, s_svid_cert_pem = sv_cert_pem svid,
       s_svid_key_pem = sv_key_pem svid, s_bound_digests = digests,
       s_bound_chat_template = template, s_spiffe_id = sv_spiffe_id svid,
       s_agent_identity_hash = sha256_bytes W (spiffe_uri (sv_spiffe_id svid)),
       s_session_id = bc_session_id cfg, s_session_start = start,
       s_manifest_path = bc_manifest_path cfg, s_model_path = bc_model_path cfg,
       s_config_path = bc_config_path cfg, s_identity_dir = bc_identity_dir cfg,
       s_workload_name = bc_workload_name cfg, s_instance = bc_instance cfg,
       s_approval_channel = None, s_network_log = [], s_mcp_client = None, s_loaded_model = None,
       s_adversarial_classifier = regex_heuristic_classifier W,
       s_aggregate_state = aggregate_new, s_current_turn_svid = None,
       s_grant_table = grant_table_new, s_env = now, s_effects = [] \<rparr>"

text \<open>The session is returned with the environment as it is then.\<close>

definition boot :: "'w world_scheme \<Rightarrow> BootConfig \<Rightarrow> (env, engine_error, session) act" where
  "boot W cfg =
     bindA (tickA (w_utc_now W)) (\<lambda>start.
     bindA (read_policy W (bc_manifest_path cfg)) (\<lambda>policy.
     bindA (liftA (check_reserved policy)) (\<lambda>_.
     bindA (compute_digests W (bc_model_path cfg) (bc_manifest_path cfg) (bc_config_path cfg)) (\<lambda>digests.
     bindA (read_template W cfg) (\<lambda>template.
     bindA (load_ca W (bc_identity_dir cfg)) (\<lambda>ca.
     bindA (issue_session_svid W cfg ca digests template) (\<lambda>svid.
     bindA (open_ledger W cfg) (\<lambda>w0.
     bindA (tickA (w_utc_now W)) (\<lambda>ts.
     bindA (liftA (append_first W (first_entry W cfg svid digests template ts) w0)) (\<lambda>w.
     bindA (getA (\<lambda>e. e)) (\<lambda>now.
     okA (new_session W cfg start policy digests template svid w now))))))))))))"

section \<open>Entries the session writes\<close>

definition utc_now :: "'w world_scheme \<Rightarrow> (session, 'e, time) act" where
  "utc_now W = on_env (tickA (w_utc_now W))"

definition session_entry :: "session \<Rightarrow> EntryType \<Rightarrow> time \<Rightarrow> (string \<times> json) list \<Rightarrow> entry" where
  "session_entry s ty ts kvs =
     \<lparr> e_session_id = s_session_id s, e_entry_type = ty, e_identity_hash = s_agent_identity_hash s,
       e_timestamp = ts, e_payload = fmap_of_list (rev kvs) \<rparr>"

definition append_session :: "'w world_scheme \<Rightarrow> EntryType \<Rightarrow> (string \<times> json) list
    \<Rightarrow> (session, engine_error, unit) act" where
  "append_session W ty kvs =
     bindA (utc_now W) (\<lambda>ts.
     bindA (getA (\<lambda>s. session_entry s ty ts kvs)) (\<lambda>e.
     bindA (mapErrA EngLedger (on_ledger (append_entry W e))) (\<lambda>_. okA ())))"

abbreviation JU32 :: "u32 \<Rightarrow> json" where
  "JU32 n \<equiv> JU64 (ucast n)"

definition schema_version :: "session \<Rightarrow> LedgerSchemaVersion" where
  "schema_version s = w_schema_version (s_ledger s)"

definition turn_start_fields :: "'w libs_scheme \<Rightarrow> DigestTriple \<Rightarrow> u32 \<Rightarrow> string \<Rightarrow> string \<Rightarrow> string
    \<Rightarrow> (string \<times> json) list" where
  "turn_start_fields L digests turn ctx thumb aud =
     [(''turnNumber'', JU32 turn), (''modelDigestHex'', JString (hex_encode L (dt_model digests))),
      (''contextDigestHex'', JString ctx), (''svidThumbprintHex'', JString thumb),
      (''spiffeIdAud'', JString aud)]"

definition write_turn_start :: "'w world_scheme \<Rightarrow> u32 \<Rightarrow> string \<Rightarrow> string \<Rightarrow> string
    \<Rightarrow> (session, engine_error, unit) act" where
  "write_turn_start W turn ctx thumb aud =
     bindA (getA s_bound_digests) (\<lambda>d. append_session W TurnStart (turn_start_fields W d turn ctx thumb aud))"

definition drop_turn_svid :: "(session, 'e, unit) act" where
  "drop_turn_svid = modA (\<lambda>s. s\<lparr> s_current_turn_svid := None \<rparr>)"

definition compute_live_digests :: "'w world_scheme \<Rightarrow> (session, engine_error, DigestTriple) act" where
  "compute_live_digests W =
     bindA (getA (\<lambda>s. s)) (\<lambda>s.
     on_env (compute_digests W (s_model_path s) (s_manifest_path s) (s_config_path s)))"

text \<open>The lifetime in seconds: the remaining budget and a minute, saturating, clamped to \<open>i64\<close>.\<close>

definition turn_ttl :: "u64 \<Rightarrow> time" where
  "turn_ttl remaining =
     (let secs = max (saturating_add64 remaining 60) 60 in
      seconds (if unat secs < 2 ^ 63 then int (unat secs) else 2 ^ 63 - 1))"

definition issue_turn_svid :: "'w world_scheme \<Rightarrow> string \<Rightarrow> u64 \<Rightarrow> (session, engine_error, string) act" where
  "issue_turn_svid W audience remaining =
     bindA (compute_live_digests W) (\<lambda>live.
     bindA (getA (\<lambda>s. s)) (\<lambda>s.
     bindA (on_env (load_ca W (s_identity_dir s))) (\<lambda>ca.
     bindA (on_env (tickA (\<lambda>t. issue_turn_svid_ca (w_x509 W) (w_utc_now W t) t ca (s_workload_name s)
              (s_instance s) live (s_bound_chat_template s) audience (turn_ttl remaining)))) (\<lambda>issued.
     bindA (liftA (of_lib eng_identity issued)) (\<lambda>svid.
     bindA (liftA (of_lib eng_identity (cert_thumbprint_hex W (w_x509 W) (sv_cert_pem svid)))) (\<lambda>thumb.
     bindA (modA (\<lambda>s. s\<lparr> s_current_turn_svid := Some svid \<rparr>)) (\<lambda>_.
     okA thumb)))))))"

definition snapshot_json :: "QuotaSnapshot \<Rightarrow> json" where
  "snapshot_json q =
     jobj [(''class'', JString (qs_class q)), (''calls'', JU64 (qs_calls q)),
           (''max_calls_per_session'',
            case qs_max_calls_per_session q of None \<Rightarrow> JNull | Some n \<Rightarrow> JU64 n)]"

definition opt_u64 :: "string \<Rightarrow> u64 option \<Rightarrow> (string \<times> json) list" where
  "opt_u64 k v = map (\<lambda>n. (k, JU64 n)) (opt_list v)"

definition write_turn_end :: "'w world_scheme \<Rightarrow> u32 \<Rightarrow> u64 option \<Rightarrow> u64 option \<Rightarrow> u64 \<Rightarrow> u64
    \<Rightarrow> (session, engine_error, unit) act" where
  "write_turn_end W turn tokens_in tokens_out tokens_cumulative wallclock_ms =
     bindA (getA (\<lambda>s. snapshots (s_aggregate_state s)
              (w_quota_keys W (as_counts (s_aggregate_state s))) (p_manifest (s_policy s)))) (\<lambda>snaps.
     append_session W TurnEnd
       ([(''turnNumber'', JU32 turn)] @ opt_u64 ''tokensIn'' tokens_in @ opt_u64 ''tokensOut'' tokens_out @
        [(''tokensCumulative'', JU64 tokens_cumulative), (''wallclockMsCumulative'', JU64 wallclock_ms),
         (''quotaSnapshots'', JArray (map snapshot_json snaps))]))"

definition write_tool_call_entry :: "'w world_scheme \<Rightarrow> u32 \<Rightarrow> string \<Rightarrow> string \<Rightarrow> ToolOrigin \<Rightarrow> string
    \<Rightarrow> (session, engine_error, unit) act" where
  "write_tool_call_entry W turn call_id tool origin args_hex =
     append_session W ToolCall
       [(''turnNumber'', JU32 turn), (''toolCallId'', JString call_id), (''toolName'', JString tool),
        (''toolOrigin'', JString (tool_origin_display origin)), (''requestArgsHex'', JString args_hex)]"

definition INLINE_THRESHOLD_BYTES :: nat where
  "INLINE_THRESHOLD_BYTES = 32 * 1024"

definition write_tool_result_entry :: "'w world_scheme \<Rightarrow> u32 \<Rightarrow> string \<Rightarrow> string \<Rightarrow> json
    \<Rightarrow> (session, engine_error, unit) act" where
  "write_tool_result_entry W turn call_id hash_hex result =
     (let size = length (json_to_string W result) in
      append_session W ToolResult
        ([(''turnNumber'', JU32 turn), (''toolCallId'', JString call_id), (''resultHashHex'', JString hash_hex)] @
         (if size \<le> INLINE_THRESHOLD_BYTES then [(''resultPayload'', result)]
          else [(''resultPayloadRef'',
                 JString (''pending-sidecar:'' @ hash_hex @ ''.'' @ show_nat size @ ''b''))])))"

definition adversarial_fields :: "'w world_scheme \<Rightarrow> ClassifierVerdict \<Rightarrow> string \<Rightarrow> ToolOrigin \<Rightarrow> string
    \<Rightarrow> 32 word \<Rightarrow> (string \<times> json) list" where
  "adversarial_fields W verdict name origin reason score =
     [(''violationKind'', JString ''AdversarialContent''),
      (''violationReason'', JString (''adversarial pre-filter flagged tool result: '' @ verdict_as_str verdict @
         '' (reason='' @ reason @ '', score='' @ w_f32_show2 W score @ '')'')),
      (''classifierVerdict'', JString (verdict_as_str verdict)), (''classifierName'', JString name)] @
     (if w_f64_finite W (w_f32_to_f64 W score) then [(''classifierScore'', JFloat (w_f32_to_f64 W score))] else []) @
     [(''classifierReason'', JString reason), (''toolOrigin'', JString (tool_origin_display origin))]"

definition write_adversarial_violation :: "'w world_scheme \<Rightarrow> ClassifierVerdict \<Rightarrow> string \<Rightarrow> ToolOrigin
    \<Rightarrow> (session, engine_error, unit) act" where
  "write_adversarial_violation W verdict name origin =
     (case verdict of
        VerdictClean \<Rightarrow> okA ()
      | VerdictSuspicious reason score \<Rightarrow>
          append_session W Violation (adversarial_fields W verdict name origin reason score)
      | VerdictMalicious reason score \<Rightarrow>
          append_session W Violation (adversarial_fields W verdict name origin reason score))"

definition aggregate_cap_fields :: "AggregateCapExceeded \<Rightarrow> string \<Rightarrow> string \<Rightarrow> (string \<times> json) list" where
  "aggregate_cap_fields err uri kind =
     (let label = tool_class_label (ace_class err) in
      [(''violationKind'', JString ''AggregateCapExceeded''),
       (''violationReason'', JString (''aggregate cap exceeded: class='' @ label @ '' bound='' @ ace_bound err @
          '' observed='' @ show_nat (unat (ace_observed err)) @ '' cap='' @ show_nat (unat (ace_cap err)))),
       (''resourceUri'', JString uri), (''accessType'', JString kind), (''toolClass'', JString label),
       (''capBound'', JString (ace_bound err)), (''observed'', JU64 (ace_observed err)),
       (''cap'', JU64 (ace_cap err))])"

definition write_aggregate_cap_violation :: "'w world_scheme \<Rightarrow> AggregateCapExceeded \<Rightarrow> string \<Rightarrow> string
    \<Rightarrow> (session, engine_error, unit) act" where
  "write_aggregate_cap_violation W err uri kind = append_session W Violation (aggregate_cap_fields err uri kind)"

abbreviation on_aggregate ::
  "(SessionAggregateState, 'e, 'a) act \<Rightarrow> (session, 'e, 'a) act" where
  "on_aggregate \<equiv> zoomA s_aggregate_state (\<lambda>a s. s\<lparr> s_aggregate_state := a \<rparr>)"

definition cap_reason :: "AggregateCapExceeded \<Rightarrow> string" where
  "cap_reason err =
     ''aggregate cap exceeded for '' @ tool_class_label (ace_class err) @ '': '' @
     show_nat (unat (ace_observed err)) @ ''/'' @ show_nat (unat (ace_cap err)) @ '' '' @ ace_bound err"

definition enforce_aggregate_quota :: "'w world_scheme \<Rightarrow> ToolClass \<Rightarrow> string \<Rightarrow> string
    \<Rightarrow> (session, engine_error, unit) act" where
  "enforce_aggregate_quota W class uri kind =
     bindA (getA (\<lambda>s. quota_for (p_manifest (s_policy s)) class)) (\<lambda>quota.
     bindA (tryA (on_aggregate (check_and_increment class quota))) (\<lambda>r.
     case r of
       Inr _ \<Rightarrow> okA ()
     | Inl err \<Rightarrow>
         bindA (write_aggregate_cap_violation W err uri kind) (\<lambda>_. errA (EngDenied (cap_reason err)))))"

definition ascii_lower :: "char \<Rightarrow> char" where
  "ascii_lower c = (if is_upper c then char_of (byte_val c + 32) else c)"

definition turn_cap_fields :: "'w world_scheme \<Rightarrow> TurnCapKind \<Rightarrow> u32 \<Rightarrow> u32 \<Rightarrow> u64 \<Rightarrow> u64 \<Rightarrow> 64 word \<Rightarrow> u64
    \<Rightarrow> (string \<times> json) list" where
  "turn_cap_fields W bound at_turn max_turns used max_tokens wallclock max_seconds =
     [(''violationKind'', JString ''TurnCapExceeded''),
      (''violationReason'', JString (''turn cap exceeded: bound='' @ turn_cap_kind_debug bound @ '', turn '' @
         show_nat (unat at_turn) @ ''/'' @ show_nat (unat max_turns) @ '', tokens '' @
         show_nat (unat used) @ ''/'' @ show_nat (unat max_tokens) @ '', wallclock '' @
         w_f64_show1 W wallclock @ ''s/'' @ show_nat (unat max_seconds) @ ''s'')),
      (''capBound'', JString (map ascii_lower (turn_cap_kind_debug bound))),
      (''atTurn'', JU32 at_turn), (''maxTurns'', JU32 max_turns), (''tokensConsumed'', JU64 used),
      (''maxTokens'', JU64 max_tokens)] @
     (if w_f64_finite W wallclock then [(''wallclockSeconds'', JFloat wallclock)] else []) @
     [(''maxSeconds'', JU64 max_seconds)]"

definition write_turn_cap_violation :: "'w world_scheme \<Rightarrow> TurnCapKind \<Rightarrow> u32 \<Rightarrow> u32 \<Rightarrow> u64 \<Rightarrow> u64 \<Rightarrow> 64 word \<Rightarrow> u64
    \<Rightarrow> (session, engine_error, unit) act" where
  "write_turn_cap_violation W bound at_turn max_turns used max_tokens wallclock max_seconds =
     append_session W Violation (turn_cap_fields W bound at_turn max_turns used max_tokens wallclock max_seconds)"

end
