(* ===== verification/Mediator.thy ===== *)
theory Mediator
  imports Session
begin

text \<open>
  The per-call mediation, \<open>crates/inference-engine/src/mediator.rs\<close>: the approval gate, the
  \<open>pre_validate\<close> clauses of MCP tools, and the \<open>mediate_*\<close> methods, each the same sequence of
  identity rebind, policy decision, approval, quota, system call and ledger entry. The calls that
  leave the process go through the \<open>do_*\<close> actions, which record them in \<open>s_effects\<close> first.
\<close>

section \<open>Resource identifiers\<close>

text \<open>\<open>PathBuf::join\<close> of a relative path.\<close>

definition path_join :: "string \<Rightarrow> string \<Rightarrow> string" where
  "path_join dir p = (if dir = [] \<or> last dir = CHR ''/'' then dir @ p else dir @ ''/'' @ p)"

definition file_uri :: "'w world_scheme \<Rightarrow> string \<Rightarrow> (session, 'e, string) act" where
  "file_uri W path =
     (if prefix ''/'' path then okA (''file://'' @ path)
      else bindA (on_env (tickA (w_current_dir W))) (\<lambda>cwd.
           okA (''file://'' @ (case cwd of Some d \<Rightarrow> path_join d path | None \<Rightarrow> path))))"

definition mcp_uri :: "string \<Rightarrow> string \<Rightarrow> string" where
  "mcp_uri server tool = ''mcp://'' @ server @ ''/'' @ tool"

definition network_uri :: "string \<Rightarrow> u16 \<Rightarrow> NetworkProto \<Rightarrow> string" where
  "network_uri host port proto = network_scheme proto @ ''://'' @ host @ '':'' @ show_nat (unat port)"

section \<open>Arguments of pre-validation clauses\<close>

fun json_type_name :: "json \<Rightarrow> string" where
  "json_type_name JNull = ''null''"
| "json_type_name (JBool _) = ''bool''"
| "json_type_name (JU64 _) = ''number''"
| "json_type_name (JI64 _) = ''number''"
| "json_type_name (JFloat _) = ''number''"
| "json_type_name (JString _) = ''string''"
| "json_type_name (JArray _) = ''array''"
| "json_type_name (JObject _) = ''object''"

fun collect_strings :: "(string \<Rightarrow> engine_error) \<Rightarrow> nat \<Rightarrow> json list \<Rightarrow> engine_error + string list" where
  "collect_strings err i [] = Inr []"
| "collect_strings err i (v # vs) =
     (case as_str v of
        None \<Rightarrow> Inl (err (''array element '' @ show_nat i @ '' is '' @ json_type_name v @ '', expected string''))
      | Some s \<Rightarrow> andThen (collect_strings err (Suc i) vs) (\<lambda>ss. Inr (s # ss)))"

definition extract_clause_values :: "json \<Rightarrow> string \<Rightarrow> string \<Rightarrow> PreValidateClause
    \<Rightarrow> engine_error + string list" where
  "extract_clause_values args server tool clause =
     (let err = (\<lambda>arg reason. EngMcpPreValidateMalformedArg server tool arg reason);
          missing = ''required by pre_validate clause but missing from tool args'' in
      case (pv_arg clause, pv_arg_array clause) of
        (Some key, None) \<Rightarrow>
          (case jget args key of
             None \<Rightarrow> Inl (err key missing)
           | Some v \<Rightarrow>
               (case as_str v of
                  None \<Rightarrow> Inl (err key (''expected JSON string, got '' @ json_type_name v))
                | Some s \<Rightarrow> Inr [s]))
      | (None, Some key) \<Rightarrow>
          (case jget args key of
             None \<Rightarrow> Inl (err key missing)
           | Some v \<Rightarrow>
               (case as_array v of
                  None \<Rightarrow> Inl (err key (''expected JSON array (arg_array clause), got '' @ json_type_name v))
                | Some vs \<Rightarrow> collect_strings (err key) 0 vs))
      | (Some _, Some _) \<Rightarrow> Inl (err ''<both>''
          ''pre_validate clause has both `arg` and `arg_array` set; schema oneOf is supposed to refuse this'')
      | (None, None) \<Rightarrow> Inl (err ''<neither>''
          ''pre_validate clause has neither `arg` nor `arg_array`; schema oneOf is supposed to require one''))"

text \<open>The part of a URL before the first occurrence of a character.\<close>

definition before :: "char \<Rightarrow> string \<Rightarrow> string" where
  "before c s = (case split_at c s of Some (a, _) \<Rightarrow> a | None \<Rightarrow> s)"

definition strip_scheme :: "string \<Rightarrow> (u16 option \<times> string) option" where
  "strip_scheme raw =
     (case strip_prefix ''https://'' raw of
        Some rest \<Rightarrow> Some (Some 443, rest)
      | None \<Rightarrow>
          (case strip_prefix ''http://'' raw of
             Some rest \<Rightarrow> Some (Some 80, rest)
           | None \<Rightarrow> if sublist ''://'' raw then None else Some (None, raw)))"

definition parse_pre_validate_url :: "'w libs_scheme \<Rightarrow> string \<Rightarrow> string \<Rightarrow> string \<Rightarrow> string
    \<Rightarrow> engine_error + (string \<times> u16)" where
  "parse_pre_validate_url L raw server tool arg =
     (let err = (\<lambda>reason. Inl (EngMcpPreValidateMalformedArg server tool arg reason)) in
      case strip_scheme raw of
        None \<Rightarrow> err (''unsupported URL scheme in '' @ str_debug L raw @
                  '' (Phase 1 supports http/https or bare host:port)'')
      | Some (default_port, after_scheme) \<Rightarrow>
          (let host_port = before (CHR ''?'') (before (CHR ''/'') after_scheme) in
           if host_port = [] then err (''empty host in '' @ str_debug L raw)
           else case rsplit_at (CHR '':'') host_port of
             Some (host, port_str) \<Rightarrow>
               (case parse_unsigned (2 ^ 16) port_str of
                  None \<Rightarrow> err (''port component '' @ str_debug L port_str @ '' in '' @ str_debug L raw @
                            '' is not a valid u16'')
                | Some port \<Rightarrow>
                    if host = [] then err (''empty host before port in '' @ str_debug L raw)
                    else Inr (host, of_nat port))
           | None \<Rightarrow>
               (case default_port of
                  None \<Rightarrow> err (''no port in '' @ str_debug L raw @
                            '' and no scheme to imply a default (try host:port)'')
                | Some port \<Rightarrow> Inr (host_port, port))))"

section \<open>Rebind and the entries of a call\<close>

definition rebind :: "'w world_scheme \<Rightarrow> (session, engine_error, unit) act" where
  "rebind W =
     bindA (compute_live_digests W) (\<lambda>live.
     bindA (getA (\<lambda>s. s)) (\<lambda>s.
     bindA (utc_now W) (\<lambda>ts.
     mapErrA EngPolicy (on_ledger
       (check_identity_binding W (w_x509 W) (s_agent_identity_hash s) (s_svid_cert_pem s) live ts)))))"

definition emit_success :: "'w world_scheme \<Rightarrow> string \<Rightarrow> AccessType \<Rightarrow> u64 \<Rightarrow> string option
    \<Rightarrow> (session, engine_error, unit) act" where
  "emit_success W uri ty bytes rsid =
     bindA (getA s_agent_identity_hash) (\<lambda>idh.
     bindA (utc_now W) (\<lambda>ts.
     bindA (mapErrA EngAccessLog (on_ledger (emit_access W idh
       \<lparr> av_resource_uri = uri, av_access_type = ty, av_bytes_accessed = bytes,
         av_reasoning_step_id = rsid, av_timestamp = ts \<rparr>))) (\<lambda>_. okA ())))"

definition emit_deny :: "'w world_scheme \<Rightarrow> string \<Rightarrow> string \<Rightarrow> string \<Rightarrow> (session, engine_error, unit) act" where
  "emit_deny W uri kind reason =
     bindA (getA s_agent_identity_hash) (\<lambda>idh.
     bindA (utc_now W) (\<lambda>ts.
     bindA (mapErrA EngPolicy (on_ledger (emit_violation W idh
       \<lparr> ve_reason = reason, ve_resource_uri = Some uri, ve_access_type = Some kind,
         ve_timestamp = ts \<rparr>))) (\<lambda>_. okA ())))"

definition record_reasoning_step :: "'w world_scheme \<Rightarrow> string \<Rightarrow> string \<Rightarrow> string list \<Rightarrow> string option
    \<Rightarrow> (session, engine_error, string) act" where
  "record_reasoning_step W input reasoning considered selected =
     bindA (on_env (tickA (w_now_v7 W))) (\<lambda>step_id.
     bindA (utc_now W) (\<lambda>ts.
     bindA (getA s_agent_identity_hash) (\<lambda>idh.
     bindA (mapErrA EngAccessLog (on_ledger (emit_reasoning_step W idh
       \<lparr> rs_step_id = step_id, rs_input = input, rs_reasoning = reasoning,
         rs_tools_considered = considered, rs_tool_selected = selected, rs_timestamp = ts \<rparr>))) (\<lambda>_.
     okA step_id))))"

section \<open>Approval\<close>

definition DEFAULT_GRANT_TTL_SECS :: u64 where
  "DEFAULT_GRANT_TTL_SECS = 300"

fun approval_policy_for :: "Manifest \<Rightarrow> ToolClass \<Rightarrow> ApprovalPolicy option" where
  "approval_policy_for m ClassFilesystem = Option.bind (t_filesystem (m_tools m)) fs_approval"
| "approval_policy_for m ClassNetwork = Option.bind (t_network (m_tools m)) net_approval"
| "approval_policy_for m ClassExec = Option.bind (t_exec (m_tools m)) exec_approval"
| "approval_policy_for m (ClassMcp server) =
     Option.bind (find (\<lambda>g. mcp_server_name g = server) (t_mcp (m_tools m))) mcp_approval"

definition rsid_field :: "string option \<Rightarrow> (string \<times> json) list" where
  "rsid_field rsid = opt_field ''reasoningStepId'' rsid"

definition emit_approval_request :: "'w world_scheme \<Rightarrow> ApprovalRequest \<Rightarrow> (session, engine_error, unit) act" where
  "emit_approval_request W req =
     bindA (utc_now W) (\<lambda>now.
     append_session W ApprovalRequest
       ([(''actionSummary'', JString (aq_action_summary req)), (''resourceUri'', JString (aq_resource_uri req)),
         (''accessType'', JString (aq_access_type req))] @ rsid_field (aq_reasoning_step_id req) @
        [(''expiresAt'', JString (rfc3339 W (now + aq_timeout req)))]))"

definition emit_approval_granted :: "'w world_scheme \<Rightarrow> ApprovalRequest \<Rightarrow> string \<Rightarrow> time
    \<Rightarrow> (session, engine_error, unit) act" where
  "emit_approval_granted W req approver decided_at =
     append_session W ApprovalGranted
       ([(''approverId'', JString approver), (''decision'', JString ''granted''),
         (''decidedAt'', JString (rfc3339 W decided_at))] @ rsid_field (aq_reasoning_step_id req))"

definition emit_approval_rejected :: "'w world_scheme \<Rightarrow> ApprovalRequest \<Rightarrow> string \<Rightarrow> time
    \<Rightarrow> (session, engine_error, unit) act" where
  "emit_approval_rejected W req reason decided_at =
     append_session W ApprovalRejected
       ([(''decision'', JString ''rejected''), (''decidedAt'', JString (rfc3339 W decided_at)),
         (''violationReason'', JString reason)] @ rsid_field (aq_reasoning_step_id req))"

definition emit_approval_timed_out :: "'w world_scheme \<Rightarrow> ApprovalRequest \<Rightarrow> time
    \<Rightarrow> (session, engine_error, unit) act" where
  "emit_approval_timed_out W req expired_at =
     append_session W ApprovalTimedOut
       ([(''decision'', JString ''timed_out''), (''decidedAt'', JString (rfc3339 W expired_at))] @
        rsid_field (aq_reasoning_step_id req))"

definition emit_approval_decision_advisory :: "'w world_scheme \<Rightarrow> string \<Rightarrow> json \<Rightarrow> string \<Rightarrow> string
    \<Rightarrow> string option \<Rightarrow> (session, engine_error, unit) act" where
  "emit_approval_decision_advisory W tool args uri kind rsid =
     append_session W ApprovalDecision
       ([(''decision'', JString ''auto_advisory''), (''toolName'', JString tool),
         (''grantArgHashHex'', JString (hex_encode W (canonical_arg_hash W args))),
         (''resourceUri'', JString uri), (''accessType'', JString kind)] @ rsid_field rsid)"

definition emit_approval_decision_auto_consumed :: "'w world_scheme \<Rightarrow> string \<Rightarrow> string \<Rightarrow> string
    \<Rightarrow> string option \<Rightarrow> string \<Rightarrow> string \<Rightarrow> GrantDecision \<Rightarrow> (session, engine_error, unit) act" where
  "emit_approval_decision_auto_consumed W tool uri kind rsid grant_id arg_hash cached =
     append_session W ApprovalDecision
       ([(''decision'', JString (case cached of GrantAllow \<Rightarrow> ''auto_consumed_allow''
                                  | GrantDeny _ \<Rightarrow> ''auto_consumed_deny'')),
         (''toolName'', JString tool), (''sourceGrantId'', JString grant_id),
         (''grantArgHashHex'', JString arg_hash), (''resourceUri'', JString uri),
         (''accessType'', JString kind)] @ rsid_field rsid @
        (case cached of GrantDeny reason \<Rightarrow> [(''denyReason'', JString reason)] | GrantAllow \<Rightarrow> []))"

definition emit_approval_decision_granted :: "'w world_scheme \<Rightarrow> string \<Rightarrow> string \<Rightarrow> string
    \<Rightarrow> string option \<Rightarrow> string \<Rightarrow> string \<Rightarrow> string \<Rightarrow> u64 \<Rightarrow> (session, engine_error, unit) act" where
  "emit_approval_decision_granted W tool uri kind rsid grant_id arg_hash approver ttl =
     append_session W ApprovalDecision
       ([(''decision'', JString ''grant_issued''), (''toolName'', JString tool),
         (''sourceGrantId'', JString grant_id), (''grantArgHashHex'', JString arg_hash),
         (''grantTtlSeconds'', JU64 ttl), (''approverId'', JString approver),
         (''resourceUri'', JString uri), (''accessType'', JString kind)] @ rsid_field rsid)"

fun gate_error_display :: "string \<Rightarrow> gate_error \<Rightarrow> string" where
  "gate_error_display io GateIo = ''io: '' @ io"
| "gate_error_display io (GateMalformed s) = ''malformed approval response: '' @ s"
| "gate_error_display io (GateSerde s) = ''serialization: '' @ s"
| "gate_error_display io (GateChannel s) = ''channel: '' @ s"

text \<open>The tier and the lifetime of grants for a class of tools.\<close>

definition approval_tier :: "Policy \<Rightarrow> ToolClass \<Rightarrow> ApprovalTier" where
  "approval_tier p class =
     (case approval_policy_for (p_manifest p) class of None \<Rightarrow> Validating | Some a \<Rightarrow> ap_tier a)"

definition approval_ttl_secs :: "Policy \<Rightarrow> ToolClass \<Rightarrow> u64" where
  "approval_ttl_secs p class =
     (case approval_policy_for (p_manifest p) class of
        None \<Rightarrow> DEFAULT_GRANT_TTL_SECS | Some a \<Rightarrow> ap_grant_ttl_seconds a)"

definition insert_grant :: "ApprovalGrant \<Rightarrow> (session, 'e, unit) act" where
  "insert_grant g = modA (\<lambda>s. s\<lparr> s_grant_table := grant_insert g (s_grant_table s) \<rparr>)"

text \<open>What the operator's answer leads to.\<close>

definition act_on_outcome :: "'w world_scheme \<Rightarrow> ApprovalRequest \<Rightarrow> u64 \<Rightarrow> string option \<Rightarrow> string
    \<Rightarrow> json \<Rightarrow> ApprovalOutcome \<Rightarrow> (session, engine_error, Decision) act" where
  "act_on_outcome W req ttl rsid tool args outcome =
     (case outcome of
        OutcomeGranted approver decided_at \<Rightarrow>
          bindA (emit_approval_granted W req approver decided_at) (\<lambda>_.
          bindA (on_env (tickA (w_now_v7 W))) (\<lambda>gid.
          bindA (on_env (tickA (w_system_now W))) (\<lambda>now.
          let g = grant_allow W gid now tool args (seconds (int (unat ttl))) in
          bindA (insert_grant g) (\<lambda>_.
          bindA (emit_approval_decision_granted W tool (aq_resource_uri req) (aq_access_type req) rsid
                   gid (arg_hash_hex W g) approver ttl) (\<lambda>_.
          okA Allow)))))
      | OutcomeRejected reason decided_at \<Rightarrow>
          bindA (emit_approval_rejected W req reason decided_at) (\<lambda>_.
          bindA (on_env (tickA (w_now_v7 W))) (\<lambda>gid.
          bindA (on_env (tickA (w_system_now W))) (\<lambda>now.
          bindA (insert_grant (grant_deny W gid now tool args (seconds (int (unat ttl))) reason)) (\<lambda>_.
          errA (EngDenied (''approval rejected: '' @ reason))))))
      | OutcomeTimedOut expired_at \<Rightarrow>
          bindA (emit_approval_timed_out W req expired_at) (\<lambda>_.
          errA (EngDenied ''approval timed out'')))"

definition prompt_operator :: "'w world_scheme \<Rightarrow> string \<Rightarrow> string \<Rightarrow> string \<Rightarrow> string option \<Rightarrow> u64
    \<Rightarrow> string \<Rightarrow> json \<Rightarrow> (session, engine_error, Decision) act" where
  "prompt_operator W summary uri kind rsid ttl tool args =
     bindA (getA (\<lambda>s. s)) (\<lambda>s.
     case s_approval_channel s of
       None \<Rightarrow> okA (RequireApproval summary)
     | Some channel \<Rightarrow>
         let req = \<lparr> aq_action_summary = summary, aq_resource_uri = uri, aq_access_type = kind,
                     aq_session_id = s_session_id s, aq_reasoning_step_id = rsid,
                     aq_timeout = DEFAULT_TIMEOUT \<rparr> in
         bindA (emit_approval_request W req) (\<lambda>_.
         bindA (on_env (tickA (\<lambda>t. channel t req))) (\<lambda>outcome.
         bindA (on_env (tickA (w_io_error_text W))) (\<lambda>io.
         case outcome of
           Inl e \<Rightarrow> errA (EngDenied (''approval channel: '' @ gate_error_display io e))
         | Inr answer \<Rightarrow> act_on_outcome W req ttl rsid tool args answer))))"

definition route_through_approval :: "'w world_scheme \<Rightarrow> Decision \<Rightarrow> string \<Rightarrow> string \<Rightarrow> string option
    \<Rightarrow> ToolClass \<Rightarrow> string \<Rightarrow> json \<Rightarrow> (session, engine_error, Decision) act" where
  "route_through_approval W decision uri kind rsid class tool args =
     (case decision of
        RequireApproval summary \<Rightarrow>
          bindA (getA s_policy) (\<lambda>p.
          if approval_tier p class = Advisory then
            bindA (emit_approval_decision_advisory W tool args uri kind rsid) (\<lambda>_. okA Allow)
          else
            bindA (on_env (tickA (w_system_now W))) (\<lambda>now.
            bindA (getA (\<lambda>s. grant_lookup W (s_grant_table s) tool args now)) (\<lambda>found.
            case found of
              Some g \<Rightarrow>
                bindA (emit_approval_decision_auto_consumed W tool uri kind rsid (g_grant_id g)
                         (arg_hash_hex W g) (g_decision g)) (\<lambda>_.
                case g_decision g of
                  GrantAllow \<Rightarrow> okA Allow
                | GrantDeny reason \<Rightarrow> errA (EngDenied (''approval grant denied: '' @ reason)))
            | None \<Rightarrow> prompt_operator W summary uri kind rsid (approval_ttl_secs p class) tool args)))
      | _ \<Rightarrow> okA decision)"

section \<open>The calls that leave the process\<close>

definition record_effect :: "effect \<Rightarrow> (session, 'e, unit) act" where
  "record_effect f = modA (\<lambda>s. s\<lparr> s_effects := s_effects s @ [(f, entries (s_ledger s))] \<rparr>)"

definition do_read :: "'w world_scheme \<Rightarrow> string \<Rightarrow> (session, engine_error, bytes) act" where
  "do_read W path =
     bindA (record_effect (EffRead path)) (\<lambda>_.
     bindA (on_env (read_fileA W path)) (\<lambda>f. case f of None \<Rightarrow> errA EngIo | Some b \<Rightarrow> okA b))"

text \<open>A call that changes the file system: its outcome, and what it leaves.\<close>

definition change_fsA :: "(nat \<Rightarrow> file_system \<Rightarrow> 'a \<times> file_system) \<Rightarrow> (env, 'e, 'a) act" where
  "change_fsA f = (\<lambda>e. let (r, fs) = f (en_tick e) (en_fs e) in
     (Inr r, e\<lparr> en_fs := fs, en_tick := Suc (en_tick e) \<rparr>))"

definition do_write :: "'w world_scheme \<Rightarrow> string \<Rightarrow> bytes \<Rightarrow> (session, engine_error, unit) act" where
  "do_write W path contents =
     bindA (record_effect (EffWrite path contents)) (\<lambda>_.
     bindA (on_env (change_fsA (\<lambda>t fs. w_write_file W t fs path contents))) (\<lambda>ok.
     if ok then okA () else errA EngIo))"

definition do_delete :: "'w world_scheme \<Rightarrow> string \<Rightarrow> (session, engine_error, unit) act" where
  "do_delete W path =
     bindA (record_effect (EffDelete path)) (\<lambda>_.
     bindA (on_env (change_fsA (\<lambda>t fs. w_remove_file W t fs path))) (\<lambda>ok.
     if ok then okA () else errA EngIo))"

definition do_connect :: "'w world_scheme \<Rightarrow> string \<Rightarrow> u16 \<Rightarrow> (session, engine_error, unit) act" where
  "do_connect W host port =
     bindA (record_effect (EffConnect host port)) (\<lambda>_.
     bindA (on_env (tickA (\<lambda>t. w_connect W t host port))) (\<lambda>ok.
     if ok then okA () else errA EngIo))"

definition do_exec :: "'w world_scheme \<Rightarrow> string \<Rightarrow> string list \<Rightarrow> (session, engine_error, exec_output) act" where
  "do_exec W program args =
     bindA (record_effect (EffExec program args)) (\<lambda>_.
     bindA (on_env (change_fsA (\<lambda>t fs. w_exec W t fs program args))) (\<lambda>out.
     case out of None \<Rightarrow> errA EngIo | Some x \<Rightarrow> okA x))"

definition do_mcp_call :: "mcp_client \<Rightarrow> string \<Rightarrow> string \<Rightarrow> json \<Rightarrow> (session, engine_error, json) act" where
  "do_mcp_call client uri tool args =
     bindA (record_effect (EffMcp uri tool args)) (\<lambda>_.
     bindA (on_env (change_fsA (\<lambda>t fs. client t fs uri tool args))) (\<lambda>r.
     case r of Inl e \<Rightarrow> errA (EngDenied (''mcp client: '' @ e)) | Inr v \<Rightarrow> okA v))"

section \<open>The mediators\<close>

text \<open>The \<open>match decision\<close> every mediator ends with.\<close>

definition on_decision :: "'w world_scheme \<Rightarrow> Decision \<Rightarrow> string \<Rightarrow> string
    \<Rightarrow> (session, engine_error, 'a) act \<Rightarrow> (session, engine_error, 'a) act" where
  "on_decision W decision uri kind proceed =
     (case decision of
        Allow \<Rightarrow> proceed
      | Deny reason \<Rightarrow> bindA (emit_deny W uri kind reason) (\<lambda>_. errA (EngDenied reason))
      | RequireApproval reason \<Rightarrow> errA (EngRequireApproval reason))"

text \<open>Approval, the \<open>match\<close>, and the quota before the call: what the file and exec mediators share.\<close>

definition gated :: "'w world_scheme \<Rightarrow> Decision \<Rightarrow> string \<Rightarrow> string \<Rightarrow> string option \<Rightarrow> ToolClass \<Rightarrow> string
    \<Rightarrow> json \<Rightarrow> (session, engine_error, 'a) act \<Rightarrow> (session, engine_error, 'a) act" where
  "gated W initial uri kind rsid class tool args call =
     bindA (route_through_approval W initial uri kind rsid class tool args) (\<lambda>decision.
     on_decision W decision uri kind
       (bindA (enforce_aggregate_quota W class uri kind) (\<lambda>_. call)))"

definition path_args :: "string \<Rightarrow> json" where
  "path_args path = jobj [(''path'', JString path)]"

definition mediate_filesystem_read :: "'w world_scheme \<Rightarrow> string \<Rightarrow> string option
    \<Rightarrow> (session, engine_error, bytes) act" where
  "mediate_filesystem_read W path rsid =
     bindA (rebind W) (\<lambda>_.
     bindA (getA (\<lambda>s. check_filesystem_read (s_policy s) path)) (\<lambda>initial.
     bindA (file_uri W path) (\<lambda>uri.
     gated W initial uri ''read'' rsid ClassFilesystem ''filesystem__read'' (path_args path)
       (bindA (do_read W path) (\<lambda>bytes.
        bindA (emit_success W uri AccRead (of_nat (length bytes)) rsid) (\<lambda>_.
        okA bytes))))))"

definition of_panic :: "'a option \<Rightarrow> engine_error + 'a" where
  "of_panic x = of_option EngPanic x"

definition write_args :: "'w libs_scheme \<Rightarrow> string \<Rightarrow> bytes \<Rightarrow> json" where
  "write_args L path contents =
     jobj [(''path'', JString path), (''contentsSha256'', JString (hex_encode L (sha256 L contents)))]"

definition mediate_filesystem_write :: "'w world_scheme \<Rightarrow> string \<Rightarrow> bytes \<Rightarrow> string option
    \<Rightarrow> (session, engine_error, unit) act" where
  "mediate_filesystem_write W path contents rsid =
     bindA (rebind W) (\<lambda>_.
     bindA (utc_now W) (\<lambda>now.
     bindA (getA (\<lambda>s. s)) (\<lambda>s.
     bindA (liftA (of_panic (check_filesystem_write W (s_policy s) path now (s_session_start s)))) (\<lambda>initial.
     bindA (file_uri W path) (\<lambda>uri.
     gated W initial uri ''write'' rsid ClassFilesystem ''filesystem__write'' (write_args W path contents)
       (bindA (do_write W path contents) (\<lambda>_.
        emit_success W uri AccWrite (of_nat (length contents)) rsid)))))))"

definition mediate_filesystem_delete :: "'w world_scheme \<Rightarrow> string \<Rightarrow> string option
    \<Rightarrow> (session, engine_error, unit) act" where
  "mediate_filesystem_delete W path rsid =
     bindA (rebind W) (\<lambda>_.
     bindA (utc_now W) (\<lambda>now.
     bindA (getA (\<lambda>s. s)) (\<lambda>s.
     bindA (liftA (of_panic (check_filesystem_delete W (s_policy s) path now (s_session_start s)))) (\<lambda>initial.
     bindA (file_uri W path) (\<lambda>uri.
     gated W initial uri ''delete'' rsid ClassFilesystem ''filesystem__delete'' (path_args path)
       (bindA (do_delete W path) (\<lambda>_.
        emit_success W uri AccDelete 0 rsid)))))))"

definition exec_uri :: "string \<Rightarrow> string" where
  "exec_uri program = ''exec://'' @ program"

definition exec_call_args :: "string \<Rightarrow> string list \<Rightarrow> json" where
  "exec_call_args program args =
     jobj [(''program'', JString program), (''args'', JArray (map JString args))]"

definition mediate_exec :: "'w world_scheme \<Rightarrow> string \<Rightarrow> string list \<Rightarrow> string option
    \<Rightarrow> (session, engine_error, exec_output) act" where
  "mediate_exec W program args rsid =
     bindA (rebind W) (\<lambda>_.
     bindA (getA (\<lambda>s. check_exec (s_policy s) program)) (\<lambda>initial.
     gated W initial (exec_uri program) ''exec'' rsid ClassExec ''exec__run'' (exec_call_args program args)
       (bindA (do_exec W program args) (\<lambda>out.
        bindA (emit_success W (exec_uri program) AccExec 0 rsid) (\<lambda>_.
        okA out)))))"

subsection \<open>Network\<close>

definition log_connection :: "'w world_scheme \<Rightarrow> string \<Rightarrow> u16 \<Rightarrow> NetworkProto \<Rightarrow> NetworkConnectionDecision
    \<Rightarrow> (session, 'e, unit) act" where
  "log_connection W host port proto kind =
     bindA (utc_now W) (\<lambda>ts.
     modA (\<lambda>s. s\<lparr> s_network_log := s_network_log s @
       [\<lparr> nc_host = host, nc_port = port, nc_protocol = network_scheme proto, nc_decision = kind,
          nc_timestamp = ts \<rparr>] \<rparr>))"

definition network_args :: "string \<Rightarrow> u16 \<Rightarrow> NetworkProto \<Rightarrow> json" where
  "network_args host port proto =
     jobj [(''host'', JString host), (''port'', JU64 (ucast port)),
           (''protocol'', JString (network_scheme proto))]"

definition connect_on_decision :: "'w world_scheme \<Rightarrow> string \<Rightarrow> u16 \<Rightarrow> NetworkProto \<Rightarrow> string option
    \<Rightarrow> bool \<Rightarrow> Decision \<Rightarrow> (session, engine_error, unit) act" where
  "connect_on_decision W host port proto rsid was_approval_required decision =
     (case decision of
        Allow \<Rightarrow>
          bindA (do_connect W host port) (\<lambda>_.
          bindA (emit_success W (network_uri host port proto) AccNetworkOutbound 0 rsid) (\<lambda>_.
          log_connection W host port proto (if was_approval_required then ConnApproved else ConnAllowed)))
      | Deny reason \<Rightarrow>
          bindA (emit_deny W (network_uri host port proto) ''network_outbound'' reason) (\<lambda>_.
          bindA (log_connection W host port proto ConnDenied) (\<lambda>_.
          errA (EngDenied reason)))
      | RequireApproval reason \<Rightarrow>
          bindA (log_connection W host port proto ConnDenied) (\<lambda>_.
          errA (EngRequireApproval reason)))"

definition mediate_network_connect :: "'w world_scheme \<Rightarrow> string \<Rightarrow> u16 \<Rightarrow> NetworkProto \<Rightarrow> string option
    \<Rightarrow> (session, engine_error, unit) act" where
  "mediate_network_connect W host port proto rsid =
     bindA (rebind W) (\<lambda>_.
     bindA (getA (\<lambda>s. check_network_outbound (s_policy s) host port proto)) (\<lambda>initial.
     bindA (tryA (route_through_approval W initial (network_uri host port proto) ''network_outbound'' rsid
              ClassNetwork ''network__connect'' (network_args host port proto))) (\<lambda>routed.
     case routed of
       Inl e \<Rightarrow> bindA (log_connection W host port proto ConnDenied) (\<lambda>_. errA e)
     | Inr decision \<Rightarrow>
         connect_on_decision W host port proto rsid (is_approval initial) decision)))"

subsection \<open>MCP\<close>

definition clause_decision :: "'w world_scheme \<Rightarrow> string \<Rightarrow> string \<Rightarrow> string \<Rightarrow> PreValidateKind
    \<Rightarrow> time \<Rightarrow> string \<Rightarrow> (session, engine_error, Decision) act" where
  "clause_decision W server tool arg kind start value =
     bindA (getA s_policy) (\<lambda>p.
     case kind of
       PreFilesystemRead \<Rightarrow> okA (check_filesystem_read p value)
     | PreFilesystemWrite \<Rightarrow>
         bindA (utc_now W) (\<lambda>now. liftA (of_panic (check_filesystem_write W p value now start)))
     | PreFilesystemDelete \<Rightarrow>
         bindA (utc_now W) (\<lambda>now. liftA (of_panic (check_filesystem_delete W p value now start)))
     | PreNetworkOutbound \<Rightarrow>
         bindA (liftA (parse_pre_validate_url W value server tool arg)) (\<lambda>(host, port).
         okA (check_network_outbound p host port ProtoTcp)))"

definition clause_arg_name :: "PreValidateClause \<Rightarrow> string" where
  "clause_arg_name c =
     (case pv_arg c of Some a \<Rightarrow> a | None \<Rightarrow> (case pv_arg_array c of Some a \<Rightarrow> a | None \<Rightarrow> ''?''))"

definition prevalidate_uri :: "string \<Rightarrow> string \<Rightarrow> string \<Rightarrow> string \<Rightarrow> string" where
  "prevalidate_uri server tool arg value =
     ''mcp-prevalidate://'' @ server @ ''/'' @ tool @ ''?'' @ arg @ ''='' @ value"

fun pre_validate_values :: "'w world_scheme \<Rightarrow> string \<Rightarrow> string \<Rightarrow> PreValidateClause \<Rightarrow> time \<Rightarrow> string list
    \<Rightarrow> (session, engine_error, unit) act" where
  "pre_validate_values W server tool clause start [] = okA ()"
| "pre_validate_values W server tool clause start (v # vs) =
     bindA (clause_decision W server tool (clause_arg_name clause) (pv_kind clause) start v) (\<lambda>d.
     case d of
       Allow \<Rightarrow> pre_validate_values W server tool clause start vs
     | Deny reason \<Rightarrow>
         bindA (emit_deny W (prevalidate_uri server tool (clause_arg_name clause) v) ''mcp_pre_validate'' reason)
           (\<lambda>_. errA (EngDenied reason))
     | RequireApproval reason \<Rightarrow> errA (EngRequireApproval reason))"

fun run_mcp_pre_validate :: "'w world_scheme \<Rightarrow> string \<Rightarrow> string \<Rightarrow> json \<Rightarrow> PreValidateClause list
    \<Rightarrow> (session, engine_error, unit) act" where
  "run_mcp_pre_validate W server tool args [] = okA ()"
| "run_mcp_pre_validate W server tool args (c # cs) =
     bindA (liftA (extract_clause_values args server tool c)) (\<lambda>values.
     bindA (getA s_session_start) (\<lambda>start.
     bindA (pre_validate_values W server tool c start values) (\<lambda>_.
     run_mcp_pre_validate W server tool args cs)))"

definition tool_clauses :: "McpServerGrant \<Rightarrow> string \<Rightarrow> PreValidateClause list" where
  "tool_clauses g tool =
     (case find (\<lambda>t. allowed_tool_name t = tool) (mcp_allowed_tools g) of
        Some t \<Rightarrow> allowed_tool_pre_validate t | None \<Rightarrow> [])"

text \<open>The dispatch to the configured client, and its absence.\<close>

definition call_mcp_client :: "'w world_scheme \<Rightarrow> string \<Rightarrow> string \<Rightarrow> string \<Rightarrow> json \<Rightarrow> string option
    \<Rightarrow> (session, engine_error, json) act" where
  "call_mcp_client W uri server_uri tool args rsid =
     bindA (getA s_mcp_client) (\<lambda>c.
     case c of
       None \<Rightarrow>
         let reason = ''no mcp client configured for session'' in
         bindA (emit_deny W uri ''mcp_tool_call'' reason) (\<lambda>_. errA (EngDenied reason))
     | Some client \<Rightarrow>
         bindA (do_mcp_call client server_uri tool args) (\<lambda>value.
         bindA (emit_success W uri AccMcpToolCall (of_nat (length (json_to_string W value))) rsid) (\<lambda>_.
         okA value)))"

definition mediate_mcp_tool_call :: "'w world_scheme \<Rightarrow> string \<Rightarrow> string \<Rightarrow> json \<Rightarrow> string option
    \<Rightarrow> (session, engine_error, json) act" where
  "mediate_mcp_tool_call W server tool args rsid =
     bindA (rebind W) (\<lambda>_.
     bindA (getA s_policy) (\<lambda>p.
     on_decision W (check_mcp_tool W p server tool) (mcp_uri server tool) ''mcp_tool_call''
       (case find_mcp_server p server of
          None \<Rightarrow>
            let reason = ''mcp tool call to server '' @ str_debug W server @
              '' not granted: server not in tools.mcp[]'' in
            bindA (emit_deny W (mcp_uri server tool) ''mcp_tool_call'' reason) (\<lambda>_. errA (EngDenied reason))
        | Some g \<Rightarrow>
            bindA (run_mcp_pre_validate W server tool args (tool_clauses g tool)) (\<lambda>_.
            bindA (enforce_aggregate_quota W (ClassMcp server) (mcp_uri server tool) ''mcp_tool_call'') (\<lambda>_.
            call_mcp_client W (mcp_uri server tool) (mcp_server_uri g) tool args rsid)))))"

end
