(* ===== verification/SessionFacts.thy ===== *)
theory SessionFacts
  imports Session
begin

text \<open>
  What the session's own operations may change. \<open>logs_only\<close> is the frame of everything that only
  consults the environment and appends to the ledger; the appends are characterised by the one
  entry they add. \<open>live\<close> is a session whose disk works, on which every such append succeeds.
\<close>

abbreviation s_log :: "session \<Rightarrow> entry list" where
  "s_log s \<equiv> entries (s_ledger s)"

section \<open>The writer's frame\<close>

definition writer_step :: "writer \<Rightarrow> writer \<Rightarrow> bool" where
  "writer_step w w' \<longleftrightarrow> w_session_id w' = w_session_id w \<and> w_schema_version w' = w_schema_version w \<and>
     b_outcome (w_file w') = b_outcome (w_file w) \<and> prefix (entries w) (entries w')"

interpretation writer_order: step_order writer_step
  by unfold_locales (auto simp: writer_step_def)

definition same_outcome :: "bufwriter \<Rightarrow> bufwriter \<Rightarrow> bool" where
  "same_outcome b b' \<longleftrightarrow> b_outcome b' = b_outcome b"

interpretation outcome_order: step_order same_outcome
  by unfold_locales (auto simp: same_outcome_def)

lemma outcome_moves [moves_intros]:
  "moves same_outcome (write_all bs)" "moves same_outcome flush" "moves same_outcome sync_all"
  by (auto simp: moves_def same_outcome_def write_all_def flush_def sync_all_def Let_def split: prod.splits)

lemma persist_line_outcome: "persist_line l b = (r, b') \<Longrightarrow> b_outcome b' = b_outcome b"
proof -
  have "moves same_outcome (persist_line l)"
    unfolding persist_line_def by (intro outcome_order.bind moves_intros)
  then show "persist_line l b = (r, b') \<Longrightarrow> b_outcome b' = b_outcome b"
    by (auto dest: movesD simp: same_outcome_def)
qed

lemma append_entry_step: "append_entry L e w = (r, w') \<Longrightarrow> writer_step w w'"
  by (auto simp: append_entry_cases Let_def writer_step_def
      split: if_splits option.splits prod.splits sum.splits dest: persist_line_outcome)

lemma append_entry_moves [moves_intros]: "moves writer_step (append_entry L e)"
  by (rule movesI) (rule append_entry_step)

lemma emit_steps [moves_intros]:
  "moves writer_step (emit_access L idh ev1)"
  "moves writer_step (emit_violation L idh ev2)"
  "moves writer_step (emit_reasoning_step L idh ev3)"
  "moves writer_step (check_identity_binding L X idh pem live ts)"
  unfolding emit_access_def emit_violation_def emit_reasoning_step_def check_identity_binding_def
  by (auto intro!: writer_order.bind writer_order.map_err writer_order.get writer_order.err
      writer_order.ok moves_intros split: if_splits sum.splits option.splits)

section \<open>The session's frame\<close>

definition logs_only :: "session \<Rightarrow> session \<Rightarrow> bool" where
  "logs_only s s' \<longleftrightarrow>
     (\<exists>w e. s' = s\<lparr> s_ledger := w, s_env := e \<rparr> \<and> writer_step (s_ledger s) w)"

interpretation log_order: step_order logs_only
proof
  show "logs_only s s" for s
    unfolding logs_only_def by (rule exI [of _ "s_ledger s"], rule exI [of _ "s_env s"]) (simp add: writer_order.step_refl)
next
  fix s t u :: session assume "logs_only s t" "logs_only t u"
  then obtain w e w2 e2 where "t = s\<lparr> s_ledger := w, s_env := e \<rparr>" "writer_step (s_ledger s) w"
    "u = t\<lparr> s_ledger := w2, s_env := e2 \<rparr>" "writer_step (s_ledger t) w2"
    unfolding logs_only_def by blast
  then have "u = s\<lparr> s_ledger := w2, s_env := e2 \<rparr>" "writer_step (s_ledger s) w2"
    using writer_order.step_trans by auto
  then show "logs_only s u" unfolding logs_only_def by blast
qed

lemma logs_only_fields:
  assumes "logs_only s s'"
  shows "s_policy s' = s_policy s" "s_session_start s' = s_session_start s"
    "s_agent_identity_hash s' = s_agent_identity_hash s" "s_session_id s' = s_session_id s"
    "s_effects s' = s_effects s" "s_network_log s' = s_network_log s"
    "s_aggregate_state s' = s_aggregate_state s" "s_grant_table s' = s_grant_table s"
    "s_approval_channel s' = s_approval_channel s" "s_mcp_client s' = s_mcp_client s"
    "s_current_turn_svid s' = s_current_turn_svid s"
    "s_loaded_model s' = s_loaded_model s" "s_svid_cert_pem s' = s_svid_cert_pem s"
    "s_svid_key_pem s' = s_svid_key_pem s" "writer_step (s_ledger s) (s_ledger s')"
    "prefix (s_log s) (s_log s')"
  using assms by (auto simp: logs_only_def writer_step_def)

lemma logs_onlyI:
  "writer_step (s_ledger s) w \<Longrightarrow> logs_only s (s\<lparr> s_ledger := w \<rparr>)"
  "logs_only s (s\<lparr> s_env := e \<rparr>)"
proof -
  have "s\<lparr> s_ledger := w \<rparr> = s\<lparr> s_ledger := w, s_env := s_env s \<rparr>" by (cases s) simp
  then show "writer_step (s_ledger s) w \<Longrightarrow> logs_only s (s\<lparr> s_ledger := w \<rparr>)"
    unfolding logs_only_def by blast
  have "s\<lparr> s_env := e \<rparr> = s\<lparr> s_ledger := s_ledger s, s_env := e \<rparr>" by (cases s) simp
  then show "logs_only s (s\<lparr> s_env := e \<rparr>)"
    unfolding logs_only_def using writer_order.step_refl by blast
qed

lemma logs_only_env [moves_intros]: "moves logs_only (on_env m)"
  by (rule movesI) (auto simp: zoomA_eq logs_onlyI(2))

lemma logs_only_ledger: "moves writer_step m \<Longrightarrow> moves logs_only (on_ledger m)"
  by (rule movesI) (auto simp: zoomA_eq intro!: logs_onlyI(1) dest: movesD)

lemma utc_now_moves [moves_intros]: "moves logs_only (utc_now W)"
  unfolding utc_now_def by (rule moves_intros)

section \<open>Clock readings\<close>

definition ticked :: "session \<Rightarrow> session" where
  "ticked s = s\<lparr> s_env := (s_env s)\<lparr> en_tick := Suc (en_tick (s_env s)) \<rparr> \<rparr>"

lemma tick_apply [act_simps]:
  "on_env (tickA f) s = (Inr (f (en_tick (s_env s))), ticked s)"
  "utc_now W s = (Inr (w_utc_now W (en_tick (s_env s))), ticked s)"
  by (simp_all add: zoomA_def tickA_def ticked_def utc_now_def)

lemma bindA_tick [act_simps]:
  "bindA (on_env (tickA f)) g s = g (f (en_tick (s_env s))) (ticked s)"
  "bindA (utc_now W) g2 s = g2 (w_utc_now W (en_tick (s_env s))) (ticked s)"
  by (simp_all add: bindA_def tick_apply)

lemma ticked_simps [simp]:
  "s_policy (ticked s) = s_policy s" "s_session_start (ticked s) = s_session_start s"
  "s_agent_identity_hash (ticked s) = s_agent_identity_hash s" "s_session_id (ticked s) = s_session_id s"
  "s_effects (ticked s) = s_effects s" "s_network_log (ticked s) = s_network_log s"
  "s_aggregate_state (ticked s) = s_aggregate_state s" "s_grant_table (ticked s) = s_grant_table s"
  "s_approval_channel (ticked s) = s_approval_channel s" "s_mcp_client (ticked s) = s_mcp_client s"
  "s_ledger (ticked s) = s_ledger s" "s_svid_cert_pem (ticked s) = s_svid_cert_pem s"
  "en_fs (s_env (ticked s)) = en_fs (s_env s)" "s_bound_digests (ticked s) = s_bound_digests s"
  by (simp_all add: ticked_def)

lemma logs_only_ticked [simp]: "logs_only s (ticked s)"
  by (simp add: ticked_def logs_onlyI)

lemmas logs_only_trans = log_order.step_trans

section \<open>Actions that append one entry\<close>

definition live :: "session \<Rightarrow> bool" where
  "live s \<longleftrightarrow> disk_works (s_ledger s) \<and> w_session_id (s_ledger s) = s_session_id s"

lemma live_logs_only: "logs_only s s' \<Longrightarrow> live s' = live s"
  using logs_only_fields(4,15) [of s s'] by (auto simp: live_def disk_works_def writer_step_def)

lemma live_ticked [simp]: "live (ticked s) = live s"
  by (simp add: live_def)

definition entry_is :: "EntryType \<Rightarrow> (string \<times> json) list \<Rightarrow> session \<Rightarrow> entry \<Rightarrow> bool" where
  "entry_is ty kvs s e \<longleftrightarrow>
     e_entry_type e = ty \<and> e_payload e = fmap_of_list (rev kvs) \<and>
     e_identity_hash e = s_agent_identity_hash s \<and> e_session_id e = w_session_id (s_ledger s)"

definition ledger_failure :: "engine_error \<Rightarrow> bool" where
  "ledger_failure x \<longleftrightarrow>
     (\<exists>l. x = EngLedger l \<or> x = EngPolicy (PolLedger l) \<or> x = EngAccessLog (AccLedger l))"

definition appends :: "(session \<Rightarrow> entry \<Rightarrow> bool) \<Rightarrow> (session, engine_error, 'a) act \<Rightarrow> bool" where
  "appends P m \<longleftrightarrow>
     (\<forall>s x s'. m s = (Inl x, s') \<longrightarrow> logs_only s s' \<and> s_log s' = s_log s \<and> ledger_failure x) \<and>
     (\<forall>s u s'. m s = (Inr u, s') \<longrightarrow> logs_only s s' \<and> (\<exists>e. s_log s' = s_log s @ [e] \<and> P s e)) \<and>
     (\<forall>s. live s \<longrightarrow> \<not> isl (fst (m s)))"

lemma appends_Inl: "appends P m \<Longrightarrow> m s = (Inl x, s') \<Longrightarrow> logs_only s s' \<and> s_log s' = s_log s \<and> ledger_failure x"
  by (auto simp: appends_def)

lemma appends_Inr: "appends P m \<Longrightarrow> m s = (Inr u, s') \<Longrightarrow>
    logs_only s s' \<and> (\<exists>e. s_log s' = s_log s @ [e] \<and> P s e)"
  by (auto simp: appends_def)

lemma appends_live: "appends P m \<Longrightarrow> live s \<Longrightarrow> \<exists>u s'. m s = (Inr u, s')"
  by (cases "m s"; cases "fst (m s)") (auto simp: appends_def)

lemma appends_moves: "appends P m \<Longrightarrow> moves logs_only m"
  by (rule movesI) (metis appends_Inl appends_Inr old.sum.exhaust)

lemma ledger_failure_simps [simp]:
  "ledger_failure (EngLedger l)" "ledger_failure (EngPolicy (PolLedger l))"
  "ledger_failure (EngAccessLog (AccLedger l))" "\<not> ledger_failure (EngDenied r)"
  "\<not> ledger_failure (EngRequireApproval r)" "\<not> ledger_failure EngIo" "\<not> ledger_failure EngPanic"
  by (auto simp: ledger_failure_def)

text \<open>One append under an error mapping, after the clock has been read.\<close>

lemma appends_one:
  assumes "\<And>s. entry_valid (w_session_id (s_ledger s)) (E s) \<or> w_session_id (s_ledger s) \<noteq> s_session_id s"
    and "\<And>s x. P s (E s) \<or> e_session_id (E s) \<noteq> w_session_id (s_ledger s)"
    and "\<And>l. ledger_failure (F l)"
  shows "appends P (\<lambda>s. bindA (mapErrA F (on_ledger (append_entry L (E s)))) (\<lambda>_. okA v) s)"
  unfolding appends_def
proof (intro conjI allI impI)
  fix s x s'
  assume "bindA (mapErrA F (on_ledger (append_entry L (E s)))) (\<lambda>_. okA v) s = (Inl x, s')"
  then obtain l w where a: "append_entry L (E s) (s_ledger s) = (Inl l, w)" "x = F l" "s' = s\<lparr> s_ledger := w \<rparr>"
    by (auto simp: act_results okA_def zoomA_eq)
  then show "logs_only s s'" and "s_log s' = s_log s" and "ledger_failure x"
    using append_entry_step [OF a(1)] append_entry_err(1) [OF a(1)] assms(3) by (simp_all add: logs_onlyI)
next
  fix s u s'
  assume "bindA (mapErrA F (on_ledger (append_entry L (E s)))) (\<lambda>_. okA v) s = (Inr u, s')"
  then obtain r w where a: "append_entry L (E s) (s_ledger s) = (Inr r, w)" "s' = s\<lparr> s_ledger := w \<rparr>"
    by (auto simp: act_results okA_def zoomA_eq)
  moreover have "e_session_id (E s) = w_session_id (s_ledger s)"
    using append_entry_ok(1) [OF a(1)] by (simp add: entry_valid_def)
  ultimately show "logs_only s s'" and "\<exists>e. s_log s' = s_log s @ [e] \<and> P s e"
    using append_entry_step [OF a(1)] append_entry_ok(2) [OF a(1)] assms(2) [of s] by (auto simp: logs_onlyI)
next
  fix s assume "live s"
  then have "entry_valid (w_session_id (s_ledger s)) (E s)" "disk_works (s_ledger s)"
    using assms(1) [of s] by (auto simp: live_def)
  then obtain r w where "append_entry L (E s) (s_ledger s) = (Inr r, w)"
    using append_entry_succeeds by blast
  then show "\<not> isl (fst (bindA (mapErrA F (on_ledger (append_entry L (E s)))) (\<lambda>_. okA v) s))"
    by (simp add: bindA_def mapErrA_def zoomA_def okA_def)
qed

definition keys_ok :: "(string \<times> json) list \<Rightarrow> bool" where
  "keys_ok kvs \<longleftrightarrow> (\<forall>k \<in> set RESERVED_KEYS. k \<notin> set (map fst kvs))"

lemma keys_ok_simps [simp]:
  "keys_ok []" "keys_ok (x # xs) \<longleftrightarrow> fst x \<notin> set RESERVED_KEYS \<and> keys_ok xs"
  "keys_ok (xs @ ys) \<longleftrightarrow> keys_ok xs \<and> keys_ok ys"
  by (auto simp: keys_ok_def)

lemma keys_ok_opt [simp]: "k \<notin> set RESERVED_KEYS \<Longrightarrow> keys_ok (opt_field k v)"
  "k \<notin> set RESERVED_KEYS \<Longrightarrow> keys_ok (opt_u64 k n)"
  by (auto simp: opt_field_def opt_u64_def opt_list_def split: option.splits)

text \<open>An appender that reads the clock first.\<close>

lemma appends_clock:
  assumes "\<And>ts. appends P (g ts)" and "\<And>s e. P (ticked s) e \<Longrightarrow> P s e"
  shows "appends P (bindA (utc_now W) g)"
  unfolding appends_def bindA_tick
proof (intro conjI allI impI)
  fix s x s' assume "g (w_utc_now W (en_tick (s_env s))) (ticked s) = (Inl x, s')"
  from appends_Inl [OF assms(1) this] show "logs_only s s'" "s_log s' = s_log s" "ledger_failure x"
    using logs_only_trans [OF logs_only_ticked] by auto
next
  fix s u s' assume "g (w_utc_now W (en_tick (s_env s))) (ticked s) = (Inr u, s')"
  from appends_Inr [OF assms(1) this] show "logs_only s s'" "\<exists>e. s_log s' = s_log s @ [e] \<and> P s e"
    using logs_only_trans [OF logs_only_ticked] assms(2) by auto
next
  fix s assume "live s"
  then have "live (ticked s)" by simp
  from appends_live [OF assms(1) this] show "\<not> isl (fst (g (w_utc_now W (en_tick (s_env s))) (ticked s)))"
    by (metis fst_conv sum.disc(2))
qed

lemma entry_is_ticked: "entry_is ty kvs (ticked s) e \<Longrightarrow> entry_is ty kvs s e"
  by (simp add: entry_is_def)

lemma appends_get: "(\<And>x. appends P (g x)) \<Longrightarrow> appends P (bindA (getA f) g)"
  by (auto simp: appends_def bindA_getA)

lemma appends_session:
  assumes "keys_ok kvs"
  shows "appends (entry_is ty kvs) (append_session W ty kvs)"
  unfolding append_session_def
proof (rule appends_clock)
  fix ts
  have eq: "bindA (getA (\<lambda>s. session_entry s ty ts kvs)) (\<lambda>e. bindA (mapErrA EngLedger (on_ledger (append_entry W e))) (\<lambda>_. okA ()))
    = (\<lambda>s. bindA (mapErrA EngLedger (on_ledger (append_entry W (session_entry s ty ts kvs)))) (\<lambda>_. okA ()) s)"
    by (rule ext) (simp add: bindA_getA)
  show "appends (entry_is ty kvs) (bindA (getA (\<lambda>s. session_entry s ty ts kvs))
      (\<lambda>e. bindA (mapErrA EngLedger (on_ledger (append_entry W e))) (\<lambda>_. okA ())))"
    unfolding eq using assms by (intro appends_one)
      (auto simp: entry_is_def session_entry_def entry_valid_def keys_ok_def fset_of_list.rep_eq)
qed (rule entry_is_ticked)

section \<open>The session's own entries\<close>

lemma appends_mono: "appends P m \<Longrightarrow> (\<And>s e. P s e \<Longrightarrow> Q s e) \<Longrightarrow> appends Q m"
  unfolding appends_def by blast

definition entry_kind :: "EntryType \<Rightarrow> session \<Rightarrow> entry \<Rightarrow> bool" where
  "entry_kind ty s e \<longleftrightarrow> e_entry_type e = ty \<and> e_identity_hash e = s_agent_identity_hash s \<and>
     e_session_id e = w_session_id (s_ledger s)"

lemma appends_kind: "keys_ok kvs \<Longrightarrow> appends (entry_kind ty) (append_session W ty kvs)"
  by (rule appends_mono [OF appends_session]) (auto simp: entry_kind_def entry_is_def)

lemma reserved_lits [simp]:
  "''turnNumber'' \<notin> set RESERVED_KEYS" "''tokensIn'' \<notin> set RESERVED_KEYS"
  "''tokensOut'' \<notin> set RESERVED_KEYS" "''reasoningStepId'' \<notin> set RESERVED_KEYS"
  by (simp_all add: RESERVED_KEYS_def)

lemma keys_ok_fields [simp]:
  "keys_ok (turn_start_fields L d n c t a)"
  "keys_ok (adversarial_fields W v nm origin rs sc)"
  "keys_ok (aggregate_cap_fields err uri kind)"
  "keys_ok (turn_cap_fields W2 bound at mt used mtok wc ms)"
  by (simp_all add: turn_start_fields_def adversarial_fields_def aggregate_cap_fields_def
      turn_cap_fields_def RESERVED_KEYS_def Let_def)

lemma appends_turn_start: "appends (entry_kind TurnStart) (write_turn_start W n c t a)"
  unfolding write_turn_start_def by (intro appends_get appends_kind) simp

lemma appends_turn_end: "appends (entry_kind TurnEnd) (write_turn_end W n ti to tc ms)"
  unfolding write_turn_end_def
  by (intro appends_get appends_kind) (simp add: RESERVED_KEYS_def)

lemma appends_tool_call: "appends (entry_kind ToolCall) (write_tool_call_entry W n cid tool origin h)"
  unfolding write_tool_call_entry_def by (intro appends_kind) (simp add: RESERVED_KEYS_def)

lemma appends_tool_result: "appends (entry_kind ToolResult) (write_tool_result_entry W n cid h v)"
  unfolding write_tool_result_entry_def Let_def by (intro appends_kind) (simp add: RESERVED_KEYS_def)

lemma appends_turn_cap: "appends (entry_is Violation (turn_cap_fields W b at mt used mtok wc ms))
    (write_turn_cap_violation W b at mt used mtok wc ms)"
  unfolding write_turn_cap_violation_def by (intro appends_session) simp

lemma appends_adversarial:
  "v \<noteq> VerdictClean \<Longrightarrow> appends (entry_kind Violation) (write_adversarial_violation W v nm origin)"
  unfolding write_adversarial_violation_def by (cases v) (auto intro!: appends_kind)

lemma adversarial_clean: "write_adversarial_violation W VerdictClean nm origin s = (Inr (), s)"
  by (simp add: write_adversarial_violation_def okA_def)

section \<open>The quota gate\<close>

lemma enforce_Inr:
  assumes "enforce_aggregate_quota W c uri kind s = (Inr u, s')"
  shows "\<exists>n a. check_and_increment c (quota_for (p_manifest (s_policy s)) c) (s_aggregate_state s) = (Inr n, a) \<and>
     s' = s\<lparr> s_aggregate_state := a \<rparr>"
  using assms
  by (auto simp: enforce_aggregate_quota_def bindA_getA bindA_tryA zoomA_def okA_def errA_def act_results
      split: prod.splits sum.splits)

lemma enforce_Inl:
  assumes "enforce_aggregate_quota W c uri kind s = (Inl x, s')"
  shows "\<exists>err. check_and_increment c (quota_for (p_manifest (s_policy s)) c) (s_aggregate_state s)
      = (Inl err, s_aggregate_state s) \<and> logs_only s s' \<and>
     (x = EngDenied (cap_reason err) \<and>
        (\<exists>e. s_log s' = s_log s @ [e] \<and> entry_is Violation (aggregate_cap_fields err uri kind) s e) \<or>
      ledger_failure x \<and> s_log s' = s_log s)"
proof -
  obtain r a where c: "check_and_increment c (quota_for (p_manifest (s_policy s)) c) (s_aggregate_state s) = (r, a)"
    by fastforce
  with assms obtain err where r: "r = Inl err"
    by (cases r) (auto simp: enforce_aggregate_quota_def bindA_getA bindA_tryA zoomA_def okA_def)
  with c have a: "a = s_aggregate_state s" using check_and_increment_err(1) by blast
  have "appends (entry_is Violation (aggregate_cap_fields err uri kind)) (write_aggregate_cap_violation W err uri kind)"
    unfolding write_aggregate_cap_violation_def by (intro appends_session) simp
  note ap = appends_Inl [OF this] appends_Inr [OF this]
  have "bindA (write_aggregate_cap_violation W err uri kind) (\<lambda>_. errA (EngDenied (cap_reason err))) s = (Inl x :: engine_error + unit, s')"
    using assms c r a by (simp add: enforce_aggregate_quota_def bindA_getA bindA_tryA zoomA_def)
  with c r a ap show ?thesis by (auto simp: act_results errA_def)
qed

lemma enforce_live:
  assumes "live s" and "enforce_aggregate_quota W c uri kind s = (Inl x, s')"
  shows "\<exists>err. x = EngDenied (cap_reason err)"
proof -
  obtain err r where c: "check_and_increment c (quota_for (p_manifest (s_policy s)) c) (s_aggregate_state s)
      = (Inl err, s_aggregate_state s)" using enforce_Inl [OF assms(2)] by blast
  have "appends (entry_is Violation (aggregate_cap_fields err uri kind)) (write_aggregate_cap_violation W err uri kind)"
    unfolding write_aggregate_cap_violation_def by (intro appends_session) simp
  then obtain u s2 where "write_aggregate_cap_violation W err uri kind s = (Inr u, s2)"
    using appends_live assms(1) by blast
  with assms(2) c show ?thesis
    by (auto simp: enforce_aggregate_quota_def bindA_getA bindA_tryA zoomA_def act_simps errA_def)
qed

section \<open>What no operation of a running session changes\<close>

definition config_step :: "session \<Rightarrow> session \<Rightarrow> bool" where
  "config_step s s' \<longleftrightarrow>
     (\<exists>w e a g n x t. s' = s\<lparr> s_ledger := w, s_env := e, s_aggregate_state := a, s_grant_table := g,
        s_network_log := n, s_effects := x, s_current_turn_svid := t \<rparr> \<and> writer_step (s_ledger s) w)"

lemma config_step_updates:
  "config_step s s" "config_step s (s\<lparr> s_env := e \<rparr>)" "config_step s (s\<lparr> s_aggregate_state := a \<rparr>)"
  "config_step s (s\<lparr> s_grant_table := g \<rparr>)" "config_step s (s\<lparr> s_network_log := n \<rparr>)"
  "config_step s (s\<lparr> s_effects := x \<rparr>)" "config_step s (s\<lparr> s_current_turn_svid := t \<rparr>)"
  by (cases s; auto simp: config_step_def writer_order.step_refl)+

interpretation config_order: step_order config_step
proof
  show "config_step s s" for s by (rule config_step_updates)
next
  fix s t u assume "config_step s t" "config_step t u"
  then show "config_step s u"
    unfolding config_step_def using writer_order.step_trans by auto blast
qed

lemma config_logs_only: "logs_only s s' \<Longrightarrow> config_step s s'"
  by (cases s) (auto simp: config_step_def logs_only_def)

lemma config_fields:
  assumes "config_step s s'"
  shows "s_policy s' = s_policy s" "s_session_start s' = s_session_start s"
    "s_agent_identity_hash s' = s_agent_identity_hash s" "s_session_id s' = s_session_id s"
    "s_approval_channel s' = s_approval_channel s" "s_mcp_client s' = s_mcp_client s"
    "s_loaded_model s' = s_loaded_model s" "s_svid_cert_pem s' = s_svid_cert_pem s"
    "s_svid_key_pem s' = s_svid_key_pem s" "writer_step (s_ledger s) (s_ledger s')"
    "prefix (s_log s) (s_log s')" "live s' = live s" "schema_version s' = schema_version s"
    "s_adversarial_classifier s' = s_adversarial_classifier s" "s_bound_digests s' = s_bound_digests s"
  using assms by (auto simp: config_step_def writer_step_def live_def disk_works_def schema_version_def)

end
