(* ===== verification/Mediation.thy ===== *)
theory Mediation
  imports Mediator SessionFacts
begin

text \<open>
  What the mediators guarantee. The entries of a call and the approval gate are characterised
  first; \<open>gate\<close> is the part the file, exec and delete mediators share, and its outcomes are proved
  once. \<open>sound\<close> is the invariant of complete mediation.
\<close>

section \<open>The entries of a call\<close>

definition access_kvs :: "string \<Rightarrow> AccessType \<Rightarrow> u64 \<Rightarrow> string option \<Rightarrow> (string \<times> json) list" where
  "access_kvs uri ty bytes rsid =
     access_fields \<lparr> av_resource_uri = uri, av_access_type = ty, av_bytes_accessed = bytes,
       av_reasoning_step_id = rsid, av_timestamp = 0 \<rparr>"

definition violation_kvs :: "string \<Rightarrow> string \<Rightarrow> string \<Rightarrow> (string \<times> json) list" where
  "violation_kvs uri kind reason =
     violation_fields \<lparr> ve_reason = reason, ve_resource_uri = Some uri, ve_access_type = Some kind,
       ve_timestamp = 0 \<rparr>"

lemma mapErrA_mapErrA: "mapErrA f (mapErrA g m) = mapErrA (f \<circ> g) m"
  by (rule ext) (simp add: mapErrA_def split: prod.splits sum.splits)

lemma emit_on_ledger:
  "mapErrA F (on_ledger (bindA (getA (\<lambda>w. w)) (\<lambda>w. mapErrA G (append_entry L (E w))))) s =
   mapErrA (F \<circ> G) (on_ledger (append_entry L (E (s_ledger s)))) s"
  by (simp add: mapErrA_def zoomA_def bindA_getA split: prod.splits sum.splits)

lemma bindA_cong_state: "m s = m2 s \<Longrightarrow> bindA m f s = bindA m2 f s"
  by (simp add: bindA_def)

lemma appends_emitter:
  assumes "\<And>s. m s = mapErrA F (on_ledger (append_entry L (writer_entry (s_ledger s) ty idh ts kvs))) s"
    and "keys_ok kvs" and "\<And>l. ledger_failure (F l)"
    and "\<And>s. P s (writer_entry (s_ledger s) ty idh ts kvs)"
  shows "appends P (bindA m (\<lambda>_. okA v))"
proof -
  have "bindA m (\<lambda>_. okA v) = (\<lambda>s. bindA (mapErrA F (on_ledger (append_entry L
      (writer_entry (s_ledger s) ty idh ts kvs)))) (\<lambda>_. okA v) s)"
    by (rule ext) (rule bindA_cong_state, rule assms(1))
  then show ?thesis
    using assms(2-4) by (auto intro!: appends_one writer_entry_valid simp: keys_ok_def)
qed

text \<open>The identity hash of the entry is the session's, read just before.\<close>

lemma appends_idh:
  assumes "\<And>idh. appends (\<lambda>s e. P s e \<or> s_agent_identity_hash s \<noteq> idh) (g idh)"
  shows "appends P (bindA (getA s_agent_identity_hash) g)"
  unfolding appends_def bindA_getA
proof (intro conjI allI impI)
  fix s x s' assume "g (s_agent_identity_hash s) s = (Inl x, s')"
  from appends_Inl [OF assms this] show "logs_only s s'" "s_log s' = s_log s" "ledger_failure x" by auto
next
  fix s u s' assume "g (s_agent_identity_hash s) s = (Inr u, s')"
  from appends_Inr [OF assms this] show "logs_only s s'" "\<exists>e. s_log s' = s_log s @ [e] \<and> P s e" by auto
next
  fix s assume "live s"
  from appends_live [OF assms this] show "\<not> isl (fst (g (s_agent_identity_hash s) s))"
    by (metis fst_conv sum.disc(2))
qed

lemma keys_ok_emitted [simp]:
  "keys_ok (access_fields ev1)" "keys_ok (violation_fields ev2)" "keys_ok (reasoning_step_fields ev3)"
  using emitted_not_reserved [OF refl] unfolding keys_ok_def by blast+

lemma entry_is_writer_entry:
  "entry_is ty kvs s (writer_entry (s_ledger s) ty idh ts kvs) \<or> s_agent_identity_hash s \<noteq> idh"
  by (auto simp: entry_is_def writer_entry_def)

lemma appends_emit_success:
  assumes "uri \<noteq> []"
  shows "appends (entry_is Access (access_kvs uri ty bytes rsid)) (emit_success W uri ty bytes rsid)"
  unfolding emit_success_def
proof (rule appends_idh, rule appends_clock)
  fix idh ts
  let ?ev = "\<lparr> av_resource_uri = uri, av_access_type = ty, av_bytes_accessed = bytes,
       av_reasoning_step_id = rsid, av_timestamp = ts \<rparr>"
  have kvs: "access_fields ?ev = access_kvs uri ty bytes rsid"
    by (simp add: access_kvs_def access_fields_def)
  show "appends (\<lambda>s e. entry_is Access (access_kvs uri ty bytes rsid) s e \<or> s_agent_identity_hash s \<noteq> idh)
      (bindA (mapErrA EngAccessLog (on_ledger (emit_access W idh ?ev))) (\<lambda>_. okA ()))"
  proof (rule appends_emitter)
    show "mapErrA EngAccessLog (on_ledger (emit_access W idh ?ev)) s = mapErrA (EngAccessLog \<circ> AccLedger)
        (on_ledger (append_entry W (writer_entry (s_ledger s) Access idh ts (access_fields ?ev)))) s" for s
      using assms by (simp add: emit_access_def emit_on_ledger)
  qed (simp_all add: kvs [symmetric] entry_is_writer_entry)
qed (auto dest: entry_is_ticked)

lemma appends_emit_deny:
  "appends (entry_is Violation (violation_kvs uri kind reason)) (emit_deny W uri kind reason)"
  unfolding emit_deny_def
proof (rule appends_idh, rule appends_clock)
  fix idh ts
  let ?ev = "\<lparr> ve_reason = reason, ve_resource_uri = Some uri, ve_access_type = Some kind, ve_timestamp = ts \<rparr>"
  have kvs: "violation_fields ?ev = violation_kvs uri kind reason"
    by (simp add: violation_kvs_def violation_fields_def)
  show "appends (\<lambda>s e. entry_is Violation (violation_kvs uri kind reason) s e \<or> s_agent_identity_hash s \<noteq> idh)
      (bindA (mapErrA EngPolicy (on_ledger (emit_violation W idh ?ev))) (\<lambda>_. okA ()))"
  proof (rule appends_emitter)
    show "mapErrA EngPolicy (on_ledger (emit_violation W idh ?ev)) s = mapErrA (EngPolicy \<circ> PolLedger)
        (on_ledger (append_entry W (writer_entry (s_ledger s) Violation idh ts (violation_fields ?ev)))) s" for s
      by (simp add: emit_violation_def emit_on_ledger)
  qed (simp_all add: kvs [symmetric] entry_is_writer_entry)
qed (auto dest: entry_is_ticked)

lemma appends_tick:
  assumes "\<And>x. appends P (g x)" and "\<And>s e. P (ticked s) e \<Longrightarrow> P s e"
  shows "appends P (bindA (on_env (tickA f)) g)"
  unfolding appends_def bindA_tick
proof (intro conjI allI impI)
  fix s x s' assume "g (f (en_tick (s_env s))) (ticked s) = (Inl x, s')"
  from appends_Inl [OF assms(1) this] show "logs_only s s'" "s_log s' = s_log s" "ledger_failure x"
    using logs_only_trans [OF logs_only_ticked] by auto
next
  fix s u s' assume "g (f (en_tick (s_env s))) (ticked s) = (Inr u, s')"
  from appends_Inr [OF assms(1) this] show "logs_only s s'" "\<exists>e. s_log s' = s_log s @ [e] \<and> P s e"
    using logs_only_trans [OF logs_only_ticked] assms(2) by auto
next
  fix s assume "live s"
  then have "live (ticked s)" by simp
  from appends_live [OF assms(1) this] show "\<not> isl (fst (g (f (en_tick (s_env s))) (ticked s)))"
    by (metis fst_conv sum.disc(2))
qed

lemma entry_kind_ticked: "entry_kind ty (ticked s) e \<Longrightarrow> entry_kind ty s e"
  by (simp add: entry_kind_def)

lemma appends_reasoning_step:
  assumes "input \<noteq> []"
  shows "appends (entry_kind ReasoningStep) (record_reasoning_step W input reasoning considered selected)"
  unfolding record_reasoning_step_def
proof (rule appends_tick, rule appends_clock, rule appends_idh)
  fix step_id ts idh
  let ?ev = "\<lparr> rs_step_id = step_id, rs_input = input, rs_reasoning = reasoning,
         rs_tools_considered = considered, rs_tool_selected = selected, rs_timestamp = ts \<rparr>"
  show "appends (\<lambda>s e. entry_kind ReasoningStep s e \<or> s_agent_identity_hash s \<noteq> idh)
      (bindA (mapErrA EngAccessLog (on_ledger (emit_reasoning_step W idh ?ev))) (\<lambda>_. okA step_id))"
  proof (rule appends_emitter)
    show "mapErrA EngAccessLog (on_ledger (emit_reasoning_step W idh ?ev)) s = mapErrA (EngAccessLog \<circ> AccLedger)
        (on_ledger (append_entry W (writer_entry (s_ledger s) ReasoningStep idh ts (reasoning_step_fields ?ev)))) s" for s
      using assms by (simp add: emit_reasoning_step_def emit_on_ledger)
  qed (auto simp: entry_kind_def writer_entry_def)
qed (auto dest: entry_kind_ticked)

lemma reasoning_step_empty:
  "record_reasoning_step W [] reasoning considered selected s = (Inl (EngAccessLog AccEmptyReasoningInput), ticked (ticked s))"
  by (simp add: record_reasoning_step_def bindA_tick bindA_getA)
     (simp add: emit_reasoning_step_def bindA_def mapErrA_def zoomA_def errA_def ticked_def)

section \<open>The approval gate\<close>

definition approval_entry :: "string \<Rightarrow> string \<Rightarrow> entry \<Rightarrow> bool" where
  "approval_entry tool uri e \<longleftrightarrow>
     e_entry_type e = ApprovalDecision \<and>
     fmlookup (e_payload e) ''toolName'' = Some (JString tool) \<and>
     fmlookup (e_payload e) ''resourceUri'' = Some (JString uri) \<and>
     (\<exists>d \<in> {''auto_advisory'', ''auto_consumed_allow'', ''grant_issued''}.
        fmlookup (e_payload e) ''decision'' = Some (JString d))"

lemma rsid_not_key [simp]:
  "k \<noteq> ''reasoningStepId'' \<Longrightarrow> k \<notin> fst ` fset (fset_of_list (rsid_field r))"
  by (auto simp: rsid_field_def opt_field_def opt_list_def split: option.splits)

lemma keys_ok_rsid [simp]: "keys_ok (rsid_field r)"
  by (simp add: rsid_field_def)

lemma appends_approval_entries:
  "appends (entry_kind ApprovalRequest) (emit_approval_request W req)"
  "appends (entry_kind ApprovalGranted) (emit_approval_granted W req who t)"
  "appends (entry_kind ApprovalRejected) (emit_approval_rejected W req reason t)"
  "appends (entry_kind ApprovalTimedOut) (emit_approval_timed_out W req t)"
  unfolding emit_approval_request_def emit_approval_granted_def emit_approval_rejected_def
    emit_approval_timed_out_def
  by (intro appends_clock appends_kind; simp add: RESERVED_KEYS_def entry_kind_def)+

lemma appends_approval_decisions:
  "appends (\<lambda>_. approval_entry tool uri) (emit_approval_decision_advisory W tool args uri kind rsid)"
  "appends (\<lambda>_. approval_entry tool uri) (emit_approval_decision_auto_consumed W tool uri kind rsid gid h GrantAllow)"
  "appends (\<lambda>_. approval_entry tool uri) (emit_approval_decision_granted W tool uri kind rsid gid h who ttl)"
  unfolding emit_approval_decision_advisory_def emit_approval_decision_auto_consumed_def
    emit_approval_decision_granted_def
  by (rule appends_mono [OF appends_session]; simp add: RESERVED_KEYS_def entry_is_def approval_entry_def)+

lemma appends_auto_consumed:
  "appends (entry_kind ApprovalDecision) (emit_approval_decision_auto_consumed W tool uri kind rsid gid h d)"
  unfolding emit_approval_decision_auto_consumed_def
  by (cases d) (simp_all add: appends_kind RESERVED_KEYS_def)

text \<open>The frame of the gate: the ledger, the environment and the grant table.\<close>

definition gate_step :: "session \<Rightarrow> session \<Rightarrow> bool" where
  "gate_step s s' \<longleftrightarrow>
     (\<exists>w e g. s' = s\<lparr> s_ledger := w, s_env := e, s_grant_table := g \<rparr> \<and> writer_step (s_ledger s) w)"

interpretation gate_order: step_order gate_step
proof
  show "gate_step s s" for s by (cases s) (auto simp: gate_step_def writer_order.step_refl)
next
  fix s t u assume "gate_step s t" "gate_step t u"
  then obtain w e g w2 e2 g2 where "t = s\<lparr> s_ledger := w, s_env := e, s_grant_table := g \<rparr>"
    "writer_step (s_ledger s) w" "u = t\<lparr> s_ledger := w2, s_env := e2, s_grant_table := g2 \<rparr>"
    "writer_step (s_ledger t) w2"
    unfolding gate_step_def by blast
  then have "u = s\<lparr> s_ledger := w2, s_env := e2, s_grant_table := g2 \<rparr>" "writer_step (s_ledger s) w2"
    using writer_order.step_trans by auto
  then show "gate_step s u" unfolding gate_step_def by blast
qed

lemma gate_stepI:
  "logs_only s s' \<Longrightarrow> gate_step s s'" "gate_step s (s\<lparr> s_grant_table := g \<rparr>)"
  by (cases s; auto simp: gate_step_def logs_only_def writer_order.step_refl)+

lemma gate_fields:
  assumes "gate_step s s'"
  shows "s_policy s' = s_policy s" "s_session_start s' = s_session_start s"
    "s_agent_identity_hash s' = s_agent_identity_hash s" "s_session_id s' = s_session_id s"
    "s_effects s' = s_effects s" "s_network_log s' = s_network_log s"
    "s_aggregate_state s' = s_aggregate_state s" "s_approval_channel s' = s_approval_channel s"
    "s_mcp_client s' = s_mcp_client s" "writer_step (s_ledger s) (s_ledger s')"
    "prefix (s_log s) (s_log s')" "live s' = live s"
  using assms by (auto simp: gate_step_def writer_step_def live_def disk_works_def)

lemma gate_config: "gate_step s s' \<Longrightarrow> config_step s s'"
  by (cases s) (auto simp: gate_step_def config_step_def)

lemma gate_logs_moves: "moves logs_only m \<Longrightarrow> moves gate_step m"
  unfolding moves_def using gate_stepI(1) by blast

lemma insert_grant_moves: "moves gate_step (insert_grant g)"
  by (simp add: insert_grant_def moves_def modA_def gate_stepI)

lemmas gate_moves = gate_order.basics insert_grant_moves
  gate_logs_moves [OF logs_only_env] gate_logs_moves [OF utc_now_moves]
  appends_approval_entries [THEN appends_moves, THEN gate_logs_moves]
  appends_approval_decisions [THEN appends_moves, THEN gate_logs_moves]
  appends_auto_consumed [THEN appends_moves, THEN gate_logs_moves]

lemma route_moves: "moves gate_step (route_through_approval W d uri kind rsid class tool args)"
  unfolding route_through_approval_def prompt_operator_def act_on_outcome_def
  by (auto simp: Let_def intro!: gate_moves split: Decision.splits option.splits sum.splits
      ApprovalOutcome.splits GrantDecision.splits)

text \<open>Every cached permission stems from an answer of the operator that is in the ledger.\<close>

definition grants_backed :: "session \<Rightarrow> bool" where
  "grants_backed s \<longleftrightarrow>
     (\<forall>k g. fmlookup (gt_grants (s_grant_table s)) k = Some g \<and> g_decision g = GrantAllow \<longrightarrow>
        (\<exists>e \<in> set (s_log s). e_entry_type e = ApprovalGranted))"

definition cleared :: "Policy \<Rightarrow> ToolClass \<Rightarrow> string \<Rightarrow> string \<Rightarrow> Decision \<Rightarrow> entry list \<Rightarrow> bool" where
  "cleared p class tool uri d log \<longleftrightarrow>
     d = Allow \<or>
     is_approval d \<and> log \<noteq> [] \<and> approval_entry tool uri (last log) \<and>
       (approval_tier p class = Advisory \<or> (\<exists>e \<in> set log. e_entry_type e = ApprovalGranted))"

lemma is_approval_simps [simp]:
  "is_approval (RequireApproval r)" "\<not> is_approval Allow" "\<not> is_approval (Deny r)"
  by (simp_all add: is_approval_def)

lemma grants_backed_prefix:
  "s_grant_table s' = s_grant_table s \<Longrightarrow> prefix (s_log s) (s_log s') \<Longrightarrow> grants_backed s \<Longrightarrow> grants_backed s'"
  unfolding grants_backed_def using set_mono_prefix by fastforce

lemma grants_backed_logs: "logs_only s s' \<Longrightarrow> grants_backed s \<Longrightarrow> grants_backed s'"
  by (rule grants_backed_prefix) (simp_all add: logs_only_fields)

lemma grants_backed_ticked [simp]: "grants_backed (ticked s) = grants_backed s"
  by (simp add: grants_backed_def)

lemma grants_backed_insert:
  "grants_backed s \<Longrightarrow> (g_decision g = GrantAllow \<Longrightarrow> \<exists>e \<in> set (s_log s). e_entry_type e = ApprovalGranted) \<Longrightarrow>
     grants_backed (s\<lparr> s_grant_table := grant_insert g (s_grant_table s) \<rparr>)"
  by (auto simp: grants_backed_def grant_insert_def split: if_splits)

lemma entry_kindD: "entry_kind ty s e \<Longrightarrow> e_entry_type e = ty"
  by (simp add: entry_kind_def)

lemma act_on_outcome_granted:
  assumes "act_on_outcome W req ttl rsid tool args outcome s = (Inr d, s')"
  shows "d = Allow \<and> (\<exists>e1 e2. s_log s' = s_log s @ [e1, e2] \<and> e_entry_type e1 = ApprovalGranted \<and>
     approval_entry tool (aq_resource_uri req) e2)"
proof -
  from assms obtain who t where o: "outcome = OutcomeGranted who t"
    by (cases outcome) (auto simp: act_on_outcome_def act_results errA_def bindA_tick insert_grant_def bindA_modA)
  with assms obtain s1 s2 gid h where 1: "emit_approval_granted W req who t s = (Inr (), s1)"
    and 2: "emit_approval_decision_granted W tool (aq_resource_uri req) (aq_access_type req) rsid gid h who ttl s2
       = (Inr (), s')" "s_ledger s2 = s_ledger s1" and d: "d = Allow"
    by (auto simp: act_on_outcome_def bindA_eq_ok bindA_tick insert_grant_def bindA_modA Let_def okA_def)
  from appends_Inr [OF appends_approval_entries(2) 1] appends_Inr [OF appends_approval_decisions(3) 2(1)] 2(2) d
  show ?thesis by (auto simp: entry_kind_def)
qed

definition backs :: "session \<Rightarrow> session \<Rightarrow> bool" where
  "backs s s' \<longleftrightarrow> (grants_backed s \<longrightarrow> grants_backed s')"

interpretation backs_order: step_order backs
  by unfold_locales (auto simp: backs_def)

lemma backs_logs_moves: "moves logs_only m \<Longrightarrow> moves backs m"
  unfolding moves_def backs_def using grants_backed_logs by blast

lemma backs_insert_deny: "g_decision g \<noteq> GrantAllow \<Longrightarrow> moves backs (insert_grant g)"
  by (auto simp: insert_grant_def moves_def modA_def backs_def intro!: grants_backed_insert)

lemmas backs_moves = backs_order.basics
  backs_logs_moves [OF logs_only_env] backs_logs_moves [OF utc_now_moves]
  appends_approval_entries [THEN appends_moves, THEN backs_logs_moves]
  appends_approval_decisions [THEN appends_moves, THEN backs_logs_moves]
  appends_auto_consumed [THEN appends_moves, THEN backs_logs_moves]

text \<open>After the operator's yes is in the ledger, a permission may be stored.\<close>

lemma store_grant_backed:
  assumes "grants_backed s" and "\<exists>e \<in> set (s_log s). e_entry_type e = ApprovalGranted"
    and f: "\<And>x. moves backs (f x)"
  shows "grants_backed (snd (bindA (insert_grant g) f (ticked (ticked s))))"
proof -
  let ?t = "ticked (ticked s)"
  have "grants_backed (?t\<lparr> s_grant_table := grant_insert g (s_grant_table ?t) \<rparr>)"
    using assms(1,2) by (intro grants_backed_insert) simp_all
  with f [of "()"] show ?thesis
    by (simp add: insert_grant_def bindA_modA moves_def backs_def)
qed

lemma act_on_outcome_granted_backed:
  assumes "grants_backed s"
  shows "grants_backed (snd (act_on_outcome W req ttl rsid tool args (OutcomeGranted who t) s))"
proof (cases "emit_approval_granted W req who t s")
  case (Pair r1 s1)
  note ap = appends_approval_entries(2) [of W req who t]
  have b: "grants_backed s1"
    using movesD [OF appends_moves [OF ap] Pair] grants_backed_logs assms by blast
  show ?thesis
  proof (cases r1)
    case (Inl x)
    with b Pair show ?thesis by (simp add: act_on_outcome_def bindA_err)
  next
    case (Inr u)
    with Pair appends_Inr [OF ap] have g: "\<exists>e \<in> set (s_log s1). e_entry_type e = ApprovalGranted"
      by (fastforce simp: entry_kind_def)
    show ?thesis
      using Inr Pair
      by (simp add: act_on_outcome_def bindA_ok bindA_tick Let_def store_grant_backed [OF b g] backs_moves)
  qed
qed

lemma act_on_outcome_backed: "moves backs (act_on_outcome W req ttl rsid tool args outcome)"
proof (cases outcome)
  case (OutcomeGranted who t)
  then show ?thesis by (auto simp: moves_def backs_def intro: act_on_outcome_granted_backed)
next
  case (OutcomeRejected reason t)
  then show ?thesis
    by (simp add: act_on_outcome_def) (intro backs_moves backs_insert_deny; simp add: grant_deny_def)
next
  case (OutcomeTimedOut t)
  then show ?thesis by (simp add: act_on_outcome_def) (intro backs_moves)
qed

lemma route_backed: "moves backs (route_through_approval W d uri kind rsid class tool args)"
  unfolding route_through_approval_def prompt_operator_def
  by (auto simp: Let_def intro!: backs_moves act_on_outcome_backed split: Decision.splits option.splits
      sum.splits GrantDecision.splits)

text \<open>What lets a call through the gate.\<close>

lemma prompt_operator_Inr:
  assumes "prompt_operator W summary uri kind rsid ttl tool args s = (Inr d', s')"
  shows "s_approval_channel s = None \<and> d' = RequireApproval summary \<and> s' = s \<or>
     d' = Allow \<and> (\<exists>e1 e2. suffix [e1, e2] (s_log s') \<and> e_entry_type e1 = ApprovalGranted \<and>
       approval_entry tool uri e2)"
proof (cases "s_approval_channel s")
  case None
  with assms show ?thesis by (simp add: prompt_operator_def bindA_getA okA_def)
next
  case (Some channel)
  define req where "req = \<lparr> aq_action_summary = summary, aq_resource_uri = uri, aq_access_type = kind,
    aq_session_id = s_session_id s, aq_reasoning_step_id = rsid, aq_timeout = DEFAULT_TIMEOUT \<rparr>"
  with assms Some obtain s1 where
    "(case channel (en_tick (s_env s1)) req of
        Inl e \<Rightarrow> errA (EngDenied (''approval channel: '' @
          gate_error_display (w_io_error_text W (en_tick (s_env (ticked s1)))) e))
      | Inr answer \<Rightarrow> act_on_outcome W req ttl rsid tool args answer) (ticked (ticked s1)) = (Inr d', s')"
    by (auto simp: prompt_operator_def bindA_getA Let_def bindA_eq_ok bindA_tick)
  then obtain o1 where "act_on_outcome W req ttl rsid tool args o1 (ticked (ticked s1)) = (Inr d', s')"
    by (cases "channel (en_tick (s_env s1)) req") (auto simp: errA_def)
  from act_on_outcome_granted [OF this] show ?thesis by (fastforce simp: req_def suffix_def)
qed

lemma cleared_suffix:
  assumes "is_approval d" and "suffix [e1, e2] log" and "e_entry_type e1 = ApprovalGranted"
    and "approval_entry tool uri e2"
  shows "cleared p class tool uri d log"
  using assms by (auto simp: cleared_def suffix_def)

lemma route_Inr:
  assumes "route_through_approval W d uri kind rsid class tool args s = (Inr d', s')" and "grants_backed s"
  shows "d' = d \<and> s_log s' = s_log s \<and> (is_approval d \<longrightarrow> s_approval_channel s = None) \<or>
     d' = Allow \<and> is_approval d \<and> cleared (s_policy s) class tool uri d (s_log s')"
proof (cases d)
  case (RequireApproval summary)
  define now where "now = w_system_now W (en_tick (s_env s))"
  consider (advisory) "approval_tier (s_policy s) class = Advisory"
    | (cached) g where "approval_tier (s_policy s) class \<noteq> Advisory"
        "grant_lookup W (s_grant_table s) tool args now = Some g"
    | (prompt) "approval_tier (s_policy s) class \<noteq> Advisory"
        "grant_lookup W (s_grant_table s) tool args now = None" by fastforce
  then show ?thesis
  proof cases
    case advisory
    with assms RequireApproval obtain s1 where
      "emit_approval_decision_advisory W tool args uri kind rsid s = (Inr (), s1)" "d' = Allow" "s' = s1"
      by (auto simp: route_through_approval_def bindA_getA act_results okA_def)
    with appends_Inr [OF appends_approval_decisions(1)] advisory RequireApproval show ?thesis
      by (fastforce simp: cleared_def)
  next
    case cached
    with assms RequireApproval obtain s1 where
      e: "emit_approval_decision_auto_consumed W tool uri kind rsid (g_grant_id g) (arg_hash_hex W g)
        (g_decision g) (ticked s) = (Inr (), s1)" and a: "g_decision g = GrantAllow" "d' = Allow" "s' = s1"
      by (auto simp: route_through_approval_def bindA_getA bindA_tick now_def act_results okA_def errA_def
          split: GrantDecision.splits)
    from appends_Inr [OF appends_approval_decisions(2)] e a obtain x where
      "s_log s' = s_log s @ [x]" "approval_entry tool uri x" by fastforce
    moreover have "\<exists>e \<in> set (s_log s). e_entry_type e = ApprovalGranted"
      using assms(2) cached a unfolding grants_backed_def grant_lookup_Some by blast
    ultimately show ?thesis using RequireApproval a by (auto simp: cleared_def)
  next
    case prompt
    then have "prompt_operator W summary uri kind rsid (approval_ttl_secs (s_policy s) class) tool args
        (ticked s) = (Inr d', s')"
      using assms RequireApproval
      by (simp add: route_through_approval_def bindA_getA bindA_tick now_def)
    from prompt_operator_Inr [OF this] RequireApproval cleared_suffix [of d] show ?thesis by auto
  qed
qed (use assms in \<open>auto simp: route_through_approval_def okA_def\<close>)

section \<open>Complete mediation\<close>

text \<open>What entitles the agent to a call: the decision of the policy, and where it asks for approval,
  the recorded approval. \<open>log\<close> is the ledger at the moment of the call.\<close>

definition clause_admits :: "'w world_scheme \<Rightarrow> Policy \<Rightarrow> time \<Rightarrow> string \<Rightarrow> string \<Rightarrow> PreValidateClause
    \<Rightarrow> string \<Rightarrow> bool" where
  "clause_admits W p start server tool c v \<longleftrightarrow>
     (case pv_kind c of
        PreFilesystemRead \<Rightarrow> check_filesystem_read p v = Allow
      | PreFilesystemWrite \<Rightarrow> (\<exists>now. check_filesystem_write W p v now start = Some Allow)
      | PreFilesystemDelete \<Rightarrow> (\<exists>now. check_filesystem_delete W p v now start = Some Allow)
      | PreNetworkOutbound \<Rightarrow>
          (\<exists>host port. parse_pre_validate_url W v server tool (clause_arg_name c) = Inr (host, port) \<and>
             check_network_outbound p host port ProtoTcp = Allow))"

fun authorised :: "'w world_scheme \<Rightarrow> Policy \<Rightarrow> time \<Rightarrow> effect \<times> entry list \<Rightarrow> bool" where
  "authorised W p start (EffRead path, log) \<longleftrightarrow> check_filesystem_read p path = Allow"
| "authorised W p start (EffWrite path contents, log) \<longleftrightarrow>
     (\<exists>now d uri. check_filesystem_write W p path now start = Some d \<and> suffix path uri \<and>
        cleared p ClassFilesystem ''filesystem__write'' uri d log)"
| "authorised W p start (EffDelete path, log) \<longleftrightarrow>
     (\<exists>now d uri. check_filesystem_delete W p path now start = Some d \<and> suffix path uri \<and>
        cleared p ClassFilesystem ''filesystem__delete'' uri d log)"
| "authorised W p start (EffConnect host port, log) \<longleftrightarrow>
     (\<exists>proto. cleared p ClassNetwork ''network__connect'' (network_uri host port proto)
        (check_network_outbound p host port proto) log)"
| "authorised W p start (EffExec program args, log) \<longleftrightarrow>
     cleared p ClassExec ''exec__run'' (exec_uri program) (check_exec p program) log"
| "authorised W p start (EffMcp server_uri tool args, log) \<longleftrightarrow>
     (\<exists>server g. find_mcp_server p server = Some g \<and> mcp_server_uri g = server_uri \<and>
        check_mcp_tool W p server tool = Allow \<and>
        (\<forall>c \<in> set (tool_clauses g tool). \<exists>values. extract_clause_values args server tool c = Inr values \<and>
           (\<forall>v \<in> set values. clause_admits W p start server tool c v)))"

definition sound :: "'w world_scheme \<Rightarrow> session \<Rightarrow> bool" where
  "sound W s \<longleftrightarrow> grants_backed s \<and>
     (\<forall>x \<in> set (s_effects s). authorised W (s_policy s) (s_session_start s) x)"

definition keeps :: "'w world_scheme \<Rightarrow> session \<Rightarrow> session \<Rightarrow> bool" where
  "keeps W s s' \<longleftrightarrow> config_step s s' \<and> (sound W s \<longrightarrow> sound W s')"

interpretation keeps_order: step_order "keeps W" for W
  by unfold_locales (auto simp: keeps_def config_step_updates intro: config_order.step_trans)

lemma keeps_logs: "logs_only s s' \<Longrightarrow> keeps W s s'"
  using config_logs_only [of s s'] grants_backed_logs [of s s'] logs_only_fields [of s s']
  by (simp add: keeps_def sound_def)

lemma keeps_logs_moves: "moves logs_only m \<Longrightarrow> moves (keeps W) m"
  unfolding moves_def using keeps_logs by blast

lemma keeps_gate: "gate_step s s' \<Longrightarrow> backs s s' \<Longrightarrow> keeps W s s'"
  using gate_config [of s s'] gate_fields [of s s']
  by (simp add: keeps_def sound_def backs_def)

lemma keeps_route: "moves (keeps W) (route_through_approval W d uri kind rsid class tool args)"
  using route_moves [of W d uri kind rsid "class" tool args] route_backed [of W d uri kind rsid "class" tool args]
  unfolding moves_def using keeps_gate by blast

lemma keeps_update:
  "keeps W s (s\<lparr> s_aggregate_state := a \<rparr>)" "keeps W s (s\<lparr> s_network_log := n \<rparr>)"
  "keeps W s (s\<lparr> s_current_turn_svid := t \<rparr>)"
  by (simp_all add: keeps_def sound_def grants_backed_def config_step_updates)

lemma keeps_effect:
  assumes "authorised W (s_policy s) (s_session_start s) (f, s_log s)"
  shows "keeps W s (snd (record_effect f s))"
  using assms by (simp add: record_effect_def modA_def keeps_def sound_def grants_backed_def config_step_updates)

lemma keeps_enforce: "moves (keeps W) (enforce_aggregate_quota W c uri kind)"
proof (rule movesI)
  fix s r s' assume e: "enforce_aggregate_quota W c uri kind s = (r, s')"
  show "keeps W s s'"
  proof (cases r)
    case (Inl x)
    with e enforce_Inl keeps_logs show ?thesis by blast
  next
    case (Inr u)
    with e enforce_Inr keeps_update(1) show ?thesis by metis
  qed
qed

lemma rebind_moves: "moves logs_only (rebind W)"
  unfolding rebind_def compute_live_digests_def
  by (intro log_order.bind log_order.get log_order.map_err moves_intros logs_only_ledger)

lemma emit_deny_moves: "moves logs_only (emit_deny W uri kind reason)"
  by (rule appends_moves [OF appends_emit_deny])

lemma emit_success_moves: "moves logs_only (emit_success W uri ty n rsid)"
  unfolding emit_success_def
  by (intro log_order.bind log_order.get log_order.map_err log_order.ok moves_intros logs_only_ledger)

lemma log_connection_keeps: "moves (keeps W) (log_connection W host port proto kind)"
  unfolding log_connection_def
  by (intro keeps_order.bind keeps_logs_moves [OF utc_now_moves])
     (simp add: moves_def modA_def keeps_update)

text \<open>The call itself: allowed to record the effect if it is authorised in the state it starts from.\<close>

lemma effect_keeps:
  assumes "authorised W (s_policy s) (s_session_start s) (f, s_log s)"
    and "\<And>u. moves (keeps W) (k u)" and "bindA (record_effect f) k s = (r, s')"
  shows "keeps W s s'"
proof -
  let ?s1 = "s\<lparr> s_effects := s_effects s @ [(f, s_log s)] \<rparr>"
  have "k () ?s1 = (r, s')" using assms(3) by (simp add: record_effect_def bindA_modA)
  from movesD [OF assms(2) this] have "keeps W ?s1 s'" .
  moreover have "keeps W s ?s1"
    using assms(1) by (simp add: keeps_def sound_def grants_backed_def config_step_updates)
  ultimately show ?thesis using keeps_order.step_trans by blast
qed

lemma bindA_assoc: "bindA (bindA m f) g = bindA m (\<lambda>x. bindA (f x) g)"
proof (rule ext)
  fix s show "bindA (bindA m f) g s = bindA m (\<lambda>x. bindA (f x) g) s"
    by (cases "m s"; cases "fst (m s)") (simp_all add: bindA_def)
qed

lemma deny_keeps:
  "moves (keeps W) (bindA (emit_deny W uri kind reason) (\<lambda>_. errA (EngDenied reason)))"
  by (intro keeps_order.bind keeps_order.err keeps_logs_moves [OF emit_deny_moves])

lemma on_decision_keeps:
  assumes "d = Allow \<Longrightarrow> proceed s = (r, s') \<Longrightarrow> keeps W s s'"
    and "on_decision W d uri kind proceed s = (r, s')"
  shows "keeps W s s'"
  using assms movesD [OF deny_keeps]
  by (cases d) (auto simp: on_decision_def errA_def keeps_order.step_refl)

text \<open>After the gate said yes, on the state it left.\<close>

lemma after_route:
  assumes "route_through_approval W d uri kind rsid class tool args s = (Inr Allow, s1)"
    and "\<And>log. cleared (s_policy s) class tool uri d log \<Longrightarrow> authorised W (s_policy s) (s_session_start s) (f, log)"
    and "sound W s"
  shows "authorised W (s_policy s1) (s_session_start s1) (f, s_log s1)"
proof -
  note g = gate_fields(1,2) [OF movesD [OF route_moves assms(1)]]
  have "d = Allow \<or> cleared (s_policy s) class tool uri d (s_log s1)"
    using route_Inr [OF assms(1)] assms(3) by (auto simp: sound_def)
  then have "cleared (s_policy s) class tool uri d (s_log s1)" by (auto simp: cleared_def)
  with assms(2) g show ?thesis by simp
qed

lemma quota_then_keeps:
  assumes "\<And>a r s2 s'. s2 = s\<lparr> s_aggregate_state := a \<rparr> \<Longrightarrow> f s2 = (r, s') \<Longrightarrow> keeps W s2 s'"
    and "bindA (enforce_aggregate_quota W cl uri kind) (\<lambda>_. f) s = (r, s')"
  shows "keeps W s s'"
proof -
  obtain r2 s2 where 2: "enforce_aggregate_quota W cl uri kind s = (r2, s2)" by fastforce
  have k: "keeps W s s2" by (rule movesD [OF keeps_enforce 2])
  show ?thesis
  proof (cases r2)
    case (Inl e)
    with assms(2) 2 k show ?thesis by (simp add: bindA_err)
  next
    case (Inr u)
    with enforce_Inr 2 obtain a where "s2 = s\<lparr> s_aggregate_state := a \<rparr>" by blast
    with assms 2 Inr have "keeps W s2 s'" by (simp add: bindA_ok)
    with k show ?thesis using keeps_order.step_trans by blast
  qed
qed

lemma gate_keeps:
  assumes "\<And>log. cleared (s_policy s) class tool uri d log \<Longrightarrow> authorised W (s_policy s) (s_session_start s) (f, log)"
    and "\<And>u. moves (keeps W) (k u)" and "sound W s"
    and "gated W d uri kind rsid class tool args (bindA (record_effect f) k) s = (r, s')"
  shows "keeps W s s'"
proof -
  obtain r1 s1 where 1: "route_through_approval W d uri kind rsid class tool args s = (r1, s1)" by fastforce
  have k1: "keeps W s s1" by (rule movesD [OF keeps_route 1])
  show ?thesis
  proof (cases r1)
    case (Inl x)
    with 1 k1 assms(4) show ?thesis by (simp add: gated_def bindA_err)
  next
    case (Inr d')
    let ?go = "bindA (enforce_aggregate_quota W class uri kind) (\<lambda>_. bindA (record_effect f) k)"
    from 1 Inr assms(4) have "on_decision W d' uri kind ?go s1 = (r, s')" by (simp add: gated_def bindA_ok)
    then have "keeps W s1 s'"
    proof (rule on_decision_keeps [rotated])
      assume a: "d' = Allow" and go: "?go s1 = (r, s')"
      have "authorised W (s_policy s1) (s_session_start s1) (f, s_log s1)"
        using after_route [OF _ assms(1,3)] 1 Inr a by simp
      with go assms(2) show "keeps W s1 s'"
        by (intro quota_then_keeps [OF effect_keeps]) simp_all
    qed
    with k1 show ?thesis using keeps_order.step_trans by blast
  qed
qed

section \<open>The mediators keep it\<close>

lemma keeps_then:
  assumes "moves (keeps W) m" and "sound W s" and "bindA m f s = (r, s')"
    and "\<And>x s1. m s = (Inr x, s1) \<Longrightarrow> sound W s1 \<Longrightarrow> f x s1 = (r, s') \<Longrightarrow> keeps W s1 s'"
  shows "keeps W s s'"
proof (cases "m s")
  case (Pair r1 s1)
  from movesD [OF assms(1) this] have k: "keeps W s s1" .
  show ?thesis
  proof (cases r1)
    case (Inl e)
    with Pair assms(3) k show ?thesis by (simp add: bindA_err)
  next
    case (Inr x)
    with Pair assms(2-4) k have "keeps W s1 s'" by (simp add: bindA_ok keeps_def)
    with k show ?thesis using keeps_order.step_trans by blast
  qed
qed

lemma file_uri_moves: "moves logs_only (file_uri W path)"
  unfolding file_uri_def by (auto intro!: log_order.bind log_order.ok moves_intros)

lemma file_uri_suffix: "file_uri W path s = (Inr uri, s') \<Longrightarrow> suffix path uri \<and> uri \<noteq> []"
  by (auto simp: file_uri_def bindA_tick okA_def suffix_def path_join_def split: if_splits option.splits)

lemma same_context:
  assumes "moves logs_only m" and "m s = (r, s')"
  shows "s_policy s' = s_policy s" and "s_session_start s' = s_session_start s"
  using logs_only_fields(1,2) movesD [OF assms] by blast+

lemmas logged_moves = logs_only_env utc_now_moves emit_success_moves emit_deny_moves rebind_moves file_uri_moves

lemmas keeps_parts = keeps_order.basics logged_moves [THEN keeps_logs_moves] log_connection_keeps keeps_route
  keeps_enforce deny_keeps

lemma config_moves:
  "moves logs_only m \<Longrightarrow> moves config_step m"
  "moves (keeps W) m \<Longrightarrow> moves config_step m"
  unfolding moves_def using config_logs_only by (blast, auto simp: keeps_def)

lemma config_effect: "moves config_step (record_effect f)"
  by (simp add: record_effect_def moves_def modA_def config_step_updates)

lemmas config_parts = config_order.basics config_effect logged_moves [THEN config_moves(1)]
  config_moves(2) [OF keeps_route] config_moves(2) [OF keeps_enforce] config_moves(2) [OF log_connection_keeps]

lemma config_gated: "moves config_step call \<Longrightarrow> moves config_step (gated W d uri kind rsid class tool args call)"
  unfolding gated_def on_decision_def
  by (auto intro!: config_parts split: Decision.splits)

lemma config_calls:
  "moves config_step (do_read W path)" "moves config_step (do_write W path b)"
  "moves config_step (do_delete W path)" "moves config_step (do_connect W host port)"
  "moves config_step (do_exec W path args)" "moves config_step (do_mcp_call client uri tool v)"
  unfolding do_read_def do_write_def do_delete_def do_connect_def do_exec_def do_mcp_call_def
  by (auto intro!: config_parts split: option.splits sum.splits)

lemma config_mediators:
  "moves config_step (mediate_filesystem_read W path rsid)"
  "moves config_step (mediate_filesystem_write W path b rsid)"
  "moves config_step (mediate_filesystem_delete W path rsid)"
  "moves config_step (mediate_exec W path eargs rsid)"
  unfolding mediate_filesystem_read_def mediate_filesystem_write_def mediate_filesystem_delete_def
    mediate_exec_def
  by (intro config_parts config_gated config_calls)+

lemma config_connect: "moves config_step (mediate_network_connect W host port proto rsid)"
  unfolding mediate_network_connect_def connect_on_decision_def
  by (auto intro!: config_parts config_calls split: sum.splits Decision.splits)

lemma keeps_of_sound:
  assumes "moves config_step m" and "\<And>s r s'. sound W s \<Longrightarrow> m s = (r, s') \<Longrightarrow> keeps W s s'"
  shows "moves (keeps W) m"
proof (rule movesI)
  fix s r s' assume m: "m s = (r, s')"
  with movesD [OF assms(1)] assms(2) show "keeps W s s'" by (cases "sound W s") (auto simp: keeps_def)
qed

lemma keeps_rebind: "moves (keeps W) (rebind W)"
  by (rule keeps_logs_moves [OF rebind_moves])

lemma keeps_file_uri: "moves (keeps W) (file_uri W path)"
  by (rule keeps_logs_moves [OF file_uri_moves])

lemma keeps_now: "moves (keeps W) (utc_now W)"
  by (rule keeps_logs_moves [OF utc_now_moves])

lemma read_keeps: "moves (keeps W) (mediate_filesystem_read W path rsid)"
proof (rule keeps_of_sound [OF config_mediators(1)])
  fix s r s' assume s: "sound W s" and m: "mediate_filesystem_read W path rsid s = (r, s')"
  show "keeps W s s'"
  proof (rule keeps_then [OF keeps_rebind s m [unfolded mediate_filesystem_read_def]], unfold bindA_getA,
      erule (1) keeps_then [OF keeps_file_uri], unfold do_read_def bindA_assoc, goal_cases)
    case (1 u s1 uri s2)
    have "\<not> is_approval (check_filesystem_read p path)" for p
      by (simp add: check_filesystem_read_def Let_def)
    then show ?case
      using same_context [OF file_uri_moves 1(3)]
      by (intro gate_keeps [OF _ _ 1(4,5)]) (auto simp: cleared_def intro!: keeps_parts split: option.splits)
  qed
qed

lemma keeps_lift: "moves (keeps W) (liftA x)"
  by (rule keeps_order.lift)

lemma of_panic_Inr: "liftA (of_panic x) s = (Inr y, s') \<longleftrightarrow> x = Some y \<and> s' = s"
  by (auto simp: liftA_def of_panic_def)

lemma of_panic_eq [simp]: "of_panic x = Inr y \<longleftrightarrow> x = Some y"
  by (simp add: of_panic_def)

lemma write_keeps: "moves (keeps W) (mediate_filesystem_write W path contents rsid)"
proof (rule keeps_of_sound [OF config_mediators(2)])
  fix s r s' assume s: "sound W s" and m: "mediate_filesystem_write W path contents rsid s = (r, s')"
  show "keeps W s s'"
  proof (rule keeps_then [OF keeps_rebind s m [unfolded mediate_filesystem_write_def]],
      erule (1) keeps_then [OF keeps_now], unfold bindA_getA, erule (1) keeps_then [OF keeps_lift],
      erule (1) keeps_then [OF keeps_file_uri], unfold do_write_def bindA_assoc, goal_cases)
    case (1 u s1 now s2 d s3 uri s4)
    then show ?case
      using same_context [OF file_uri_moves 1(7)] file_uri_suffix [OF 1(7)]
      by (intro gate_keeps [OF _ _ 1(8,9)])
         (auto simp: of_panic_Inr intro!: keeps_parts split: option.splits)
  qed
qed

lemma delete_keeps: "moves (keeps W) (mediate_filesystem_delete W path rsid)"
proof (rule keeps_of_sound [OF config_mediators(3)])
  fix s r s' assume s: "sound W s" and m: "mediate_filesystem_delete W path rsid s = (r, s')"
  show "keeps W s s'"
  proof (rule keeps_then [OF keeps_rebind s m [unfolded mediate_filesystem_delete_def]],
      erule (1) keeps_then [OF keeps_now], unfold bindA_getA, erule (1) keeps_then [OF keeps_lift],
      erule (1) keeps_then [OF keeps_file_uri], unfold do_delete_def bindA_assoc, goal_cases)
    case (1 u s1 now s2 d s3 uri s4)
    then show ?case
      using same_context [OF file_uri_moves 1(7)] file_uri_suffix [OF 1(7)]
      by (intro gate_keeps [OF _ _ 1(8,9)])
         (auto simp: of_panic_Inr intro!: keeps_parts split: option.splits)
  qed
qed

lemma exec_keeps: "moves (keeps W) (mediate_exec W program args rsid)"
proof (rule keeps_of_sound [OF config_mediators(4)])
  fix s r s' assume s: "sound W s" and m: "mediate_exec W program args rsid s = (r, s')"
  show "keeps W s s'"
  proof (rule keeps_then [OF keeps_rebind s m [unfolded mediate_exec_def]], unfold bindA_getA do_exec_def bindA_assoc,
      goal_cases)
    case (1 u s1)
    show ?case
      by (intro gate_keeps [OF _ _ 1(2,3)]) (auto intro!: keeps_parts split: option.splits)
  qed
qed

lemma connect_keeps: "moves (keeps W) (mediate_network_connect W host port proto rsid)"
proof (rule keeps_of_sound [OF config_connect])
  fix s r s' assume s: "sound W s" and m: "mediate_network_connect W host port proto rsid s = (r, s')"
  show "keeps W s s'"
  proof (rule keeps_then [OF keeps_rebind s m [unfolded mediate_network_connect_def]], unfold bindA_getA, goal_cases)
    case (1 u s1)
    let ?d = "check_network_outbound (s_policy s1) host port proto"
    obtain r2 s2 where 2: "route_through_approval W ?d (network_uri host port proto) ''network_outbound'' rsid
        ClassNetwork ''network__connect'' (network_args host port proto) s1 = (r2, s2)" by fastforce
    have k: "keeps W s1 s2" by (rule movesD [OF keeps_route 2])
    have "keeps W s2 s'"
    proof (cases r2)
      case (Inl e)
      have "moves (keeps W) (bindA (log_connection W host port proto ConnDenied)
          (\<lambda>_. errA e :: (session, engine_error, unit) act))"
        by (intro keeps_parts)
      from movesD [OF this] 1(3) 2 Inl show ?thesis by (simp add: bindA_tryA)
    next
      case (Inr d')
      with 1(3) 2 have c: "connect_on_decision W host port proto rsid (is_approval ?d) d' s2 = (r, s')"
        by (simp add: bindA_tryA)
      have tails: "moves (keeps W) (bindA (emit_deny W (network_uri host port proto) ''network_outbound'' reason)
            (\<lambda>_. bindA (log_connection W host port proto ConnDenied) (\<lambda>_. errA (EngDenied reason) :: (session, engine_error, unit) act)))"
          "moves (keeps W) (bindA (log_connection W host port proto ConnDenied)
            (\<lambda>_. errA (EngRequireApproval reason) :: (session, engine_error, unit) act))" for reason
        by (intro keeps_parts)+
      show ?thesis
      proof (cases d')
        case Allow
        have "authorised W (s_policy s2) (s_session_start s2) (EffConnect host port, s_log s2)"
          using after_route [OF 2 [unfolded Inr Allow] _ 1(2)] by (metis authorised.simps(4))
        then show ?thesis
          using c Allow unfolding connect_on_decision_def do_connect_def bindA_assoc
          by (auto elim!: effect_keeps [rotated 2] intro!: keeps_parts)
      qed (use c movesD [OF tails(1)] movesD [OF tails(2)] in \<open>auto simp: connect_on_decision_def\<close>)
    qed
    with k show ?case using keeps_order.step_trans by blast
  qed
qed

text \<open>MCP: what a passed pre-validation says.\<close>

lemma clause_decision_moves: "moves logs_only (clause_decision W server tool arg kind start v)"
  unfolding clause_decision_def
  by (auto intro!: log_order.basics logged_moves split: PreValidateKind.splits prod.splits)

lemma clause_decision_Allow:
  assumes "clause_decision W server tool (clause_arg_name c) (pv_kind c) start v s = (Inr Allow, s')"
  shows "clause_admits W (s_policy s) start server tool c v"
  using assms
  by (cases "pv_kind c")
     (auto simp: clause_decision_def clause_admits_def bindA_getA bindA_tick of_panic_Inr okA_def
        bindA_eq_ok liftA_def split: prod.splits)

lemma pre_validate_values_moves: "moves logs_only (pre_validate_values W server tool c start vs)"
proof (induction vs)
  case (Cons v vs)
  show ?case
    by (auto intro!: log_order.bind log_order.err clause_decision_moves emit_deny_moves Cons split: Decision.splits)
qed (simp add: log_order.ok)

lemma pre_validate_values_Inr:
  "pre_validate_values W server tool c start vs s = (Inr u, s') \<Longrightarrow>
     \<forall>v \<in> set vs. clause_admits W (s_policy s) start server tool c v"
proof (induction vs arbitrary: s)
  case (Cons v vs)
  from Cons.prems obtain d s1 where d: "clause_decision W server tool (clause_arg_name c) (pv_kind c) start v s
      = (Inr d, s1)" by (auto simp: bindA_eq_ok)
  with Cons.prems have 1: "clause_decision W server tool (clause_arg_name c) (pv_kind c) start v s
      = (Inr Allow, s1)" "pre_validate_values W server tool c start vs s1 = (Inr u, s')"
    by (cases d; auto simp: bindA_eq_ok errA_def)+
  from Cons.IH [OF 1(2)] clause_decision_Allow [OF 1(1)] same_context(1) [OF clause_decision_moves 1(1)]
  show ?case by simp
qed simp

lemma run_mcp_pre_validate_moves: "moves logs_only (run_mcp_pre_validate W server tool args cs)"
proof (induction cs)
  case (Cons c cs)
  then show ?case
    by (auto intro!: log_order.bind log_order.lift log_order.get pre_validate_values_moves)
qed (simp add: log_order.ok)

lemma run_mcp_pre_validate_Inr:
  "run_mcp_pre_validate W server tool args cs s = (Inr u, s') \<Longrightarrow>
     \<forall>c \<in> set cs. \<exists>values. extract_clause_values args server tool c = Inr values \<and>
       (\<forall>v \<in> set values. clause_admits W (s_policy s) (s_session_start s) server tool c v)"
proof (induction cs arbitrary: s)
  case (Cons c cs)
  from Cons.prems obtain vals s1 where 1: "extract_clause_values args server tool c = Inr vals"
    "pre_validate_values W server tool c (s_session_start s) vals s = (Inr (), s1)"
    "run_mcp_pre_validate W server tool args cs s1 = (Inr u, s')"
    by (auto simp: bindA_eq_ok liftA_def bindA_getA)
  from Cons.IH [OF 1(3)] pre_validate_values_Inr [OF 1(2)] same_context [OF pre_validate_values_moves 1(2)] 1(1)
  show ?case by simp
qed simp

lemma config_mcp: "moves config_step (mediate_mcp_tool_call W server tool args rsid)"
  unfolding mediate_mcp_tool_call_def on_decision_def call_mcp_client_def
  by (auto simp: Let_def intro!: config_parts config_calls config_moves(1) [OF run_mcp_pre_validate_moves]
      split: Decision.splits option.splits)

lemma keeps_pre_validate: "moves (keeps W) (run_mcp_pre_validate W server tool args cs)"
  by (rule keeps_logs_moves [OF run_mcp_pre_validate_moves])

lemma call_mcp_client_keeps:
  assumes "\<And>log. authorised W (s_policy s) (s_session_start s) (EffMcp server_uri tool args, log)"
    and "call_mcp_client W uri server_uri tool args rsid s = (r, s')"
  shows "keeps W s s'"
proof (cases "s_mcp_client s")
  case None
  with assms(2) show ?thesis
    by (auto simp: call_mcp_client_def bindA_getA Let_def dest: movesD [OF deny_keeps])
next
  case (Some client)
  from assms(2) [unfolded call_mcp_client_def bindA_getA Some option.case do_mcp_call_def bindA_assoc]
  show ?thesis
    by (rule effect_keeps [rotated 2])
       (auto simp del: authorised.simps simp: assms(1) intro!: keeps_parts split: sum.splits)
qed

lemma mcp_keeps: "moves (keeps W) (mediate_mcp_tool_call W server tool args rsid)"
proof (rule keeps_of_sound [OF config_mcp])
  fix s r s' assume s: "sound W s" and m: "mediate_mcp_tool_call W server tool args rsid s = (r, s')"
  show "keeps W s s'"
  proof (rule keeps_then [OF keeps_rebind s m [unfolded mediate_mcp_tool_call_def]], unfold bindA_getA,
      erule on_decision_keeps [rotated], goal_cases)
    case (1 u s1)
    let ?p = "s_policy s1"
    show ?case
    proof (cases "find_mcp_server ?p server")
      case None
      with 1(4) show ?thesis by (auto simp: Let_def dest: movesD [OF deny_keeps])
    next
      case (Some g)
      note allow = 1(3)
      show ?thesis
      proof (rule keeps_then [OF keeps_pre_validate 1(2) 1(4) [unfolded Some option.case]], goal_cases)
        case (1 v s2)
        note ctx = same_context [OF run_mcp_pre_validate_moves 1(1)]
        have "authorised W ?p (s_session_start s1) (EffMcp (mcp_server_uri g) tool args, log)" for log
          using run_mcp_pre_validate_Inr [OF 1(1)] Some allow by auto
        then show ?case
          by (intro quota_then_keeps [OF call_mcp_client_keeps 1(3)]) (simp_all add: ctx)
      qed
    qed
  qed
qed

end
