(* ===== verification/Turn.thy ===== *)
theory Turn
  imports Mediation
begin

text \<open>
  The turn driver, \<open>crates/inference-engine/src/turn.rs\<close>: the tool catalog, the dispatch of one
  tool call to its mediator, a single turn and the multi-turn loop with its three bounds. The loop
  is a recursion on the number of turns left, which starts at \<open>max_turns\<close>.
\<close>

section \<open>Data\<close>

record TurnLimits =
  tl_max_turns :: u32
  tl_max_tokens :: u64
  tl_max_seconds :: u64

definition default_turn_limits :: TurnLimits where
  "default_turn_limits = \<lparr> tl_max_turns = 10, tl_max_tokens = - 1, tl_max_seconds = 300 \<rparr>"

datatype ToolCallResult =
    CallSuccess json
  | CallDenied string
  | CallRequiresApproval string
  | CallUnroutable string

record ToolCallOutcome =
  to_name :: string
  to_arguments :: json
  to_result :: ToolCallResult
  to_classifier_verdict :: "ClassifierVerdict option"

record TurnOutcome =
  tu_assistant_text :: "string option"
  tu_tool_calls :: "ToolCallOutcome list"
  tu_reasoning_step_id :: string

datatype SessionTermination = TerminationDone

record SessionRunResult =
  sr_turns :: "TurnOutcome list"
  sr_termination :: SessionTermination
  sr_tokens_consumed :: u64
  sr_wallclock :: time

section \<open>Names and arguments\<close>

definition format_mcp_name :: "string \<Rightarrow> string \<Rightarrow> string" where
  "format_mcp_name server tool = server @ ''__'' @ tool"

definition split_mcp_name :: "string \<Rightarrow> (string \<times> string) option" where
  "split_mcp_name name =
     (case split_on ''__'' name of
        None \<Rightarrow> None
      | Some (server, tool) \<Rightarrow> if server = [] \<or> tool = [] then None else Some (server, tool))"

definition origin_of :: "string \<Rightarrow> ToolOrigin" where
  "origin_of name =
     (case split_mcp_name name of
        Some (ns, t) \<Rightarrow>
          if ns = ''filesystem'' then OriginFilesystem
          else if ns = ''network'' then OriginNetworkOutbound
          else if ns = ''exec'' then OriginExec
          else OriginMcpServer ns t
      | None \<Rightarrow> OriginMcpServer ''unknown'' name)"

fun tool_call_result_to_value :: "ToolCallResult \<Rightarrow> json" where
  "tool_call_result_to_value (CallSuccess v) = jobj [(''status'', JString ''success''), (''value'', v)]"
| "tool_call_result_to_value (CallDenied r) = jobj [(''status'', JString ''denied''), (''reason'', JString r)]"
| "tool_call_result_to_value (CallRequiresApproval r) =
     jobj [(''status'', JString ''requires_approval''), (''reason'', JString r)]"
| "tool_call_result_to_value (CallUnroutable r) =
     jobj [(''status'', JString ''unroutable''), (''reason'', JString r)]"

abbreviation jlen :: "'a list \<Rightarrow> json" where
  "jlen xs \<equiv> JU64 (of_nat (length xs))"

definition read_response :: "bytes \<Rightarrow> json" where
  "read_response b =
     (if utf8_ok b then jobj [(''contents'', JString b), (''bytes'', jlen b)]
      else jobj [(''contents'', JNull), (''bytes'', jlen b), (''binary'', JBool True)])"

definition string_arg :: "'w libs_scheme \<Rightarrow> json \<Rightarrow> string \<Rightarrow> engine_error + string" where
  "string_arg L args key =
     of_option (EngUnroutableToolCall (''missing or non-string '' @ str_debug L key @ '' argument''))
       (Option.bind (jget args key) as_str)"

definition path_arg :: "'w libs_scheme \<Rightarrow> json \<Rightarrow> string \<Rightarrow> engine_error + string" where
  "path_arg L args key = string_arg L args key"

definition u16_arg :: "'w libs_scheme \<Rightarrow> json \<Rightarrow> string \<Rightarrow> engine_error + u16" where
  "u16_arg L args key =
     andThen (of_option (EngUnroutableToolCall (''missing or non-integer '' @ str_debug L key @ '' argument''))
       (Option.bind (jget args key) as_u64)) (\<lambda>raw.
     if unat raw < 2 ^ 16 then Inr (ucast raw)
     else Inl (EngUnroutableToolCall (str_debug L key @ '' argument out of u16 range: '' @ show_nat (unat raw))))"

definition sha256_hex_of_json :: "'w libs_scheme \<Rightarrow> json \<Rightarrow> string" where
  "sha256_hex_of_json L v = hex_encode L (sha256 L (json_to_string L v))"

definition sha256_hex_of_messages :: "'w world_scheme \<Rightarrow> ChatMessage list \<Rightarrow> string" where
  "sha256_hex_of_messages W msgs = hex_encode W (sha256 W (w_messages_to_string W msgs))"

section \<open>The tool catalog\<close>

definition schema_of :: "(string \<times> json) list \<Rightarrow> string list \<Rightarrow> json" where
  "schema_of props required =
     jobj [(''type'', JString ''object''), (''properties'', jobj props),
           (''required'', JArray (map JString required))]"

definition typed :: "string \<Rightarrow> json" where
  "typed ty = jobj [(''type'', JString ty)]"

definition filesystem_tools :: "Manifest \<Rightarrow> ToolDecl list" where
  "filesystem_tools m =
     (case t_filesystem (m_tools m) of
        None \<Rightarrow> []
      | Some f \<Rightarrow>
          (if fs_read f \<noteq> [] then
             [\<lparr> td_name = ''filesystem__read'',
                td_description = ''Read a file. Allowed paths (or paths under them): '' @ join '', '' (fs_read f),
                td_arguments_schema = schema_of
                  [(''path'', jobj [(''type'', JString ''string''),
                     (''description'', JString ''Absolute path of the file to read.'')])] [''path''] \<rparr>]
           else []) @
          (if fs_write f \<noteq> [] \<or> m_write_grants m \<noteq> [] then
             [\<lparr> td_name = ''filesystem__write'',
                td_description = ''Write contents to a file. Coverage: '' @
                  (if fs_write f = [] then ''<none>'' else join '', '' (fs_write f)) @ '' (broad) and '' @
                  show_nat (length (m_write_grants m)) @ '' write_grant(s) (narrow).'',
                td_arguments_schema = schema_of [(''path'', typed ''string''), (''contents'', typed ''string'')]
                  [''path'', ''contents''] \<rparr>]
           else []))"

definition network_tools :: "Manifest \<Rightarrow> ToolDecl list" where
  "network_tools m =
     (if Option.bind (t_network (m_tools m)) net_outbound \<noteq> None then
        [\<lparr> td_name = ''network__connect'',
           td_description = ''Open an outbound network connection. Subject to tools.network.outbound policy.'',
           td_arguments_schema = schema_of
             [(''host'', typed ''string''), (''port'', typed ''integer''),
              (''protocol'', jobj [(''type'', JString ''string''),
                 (''enum'', JArray [JString ''tcp'', JString ''udp''])])] [''host'', ''port''] \<rparr>]
      else [])"

definition exec_tools :: "Manifest \<Rightarrow> ToolDecl list" where
  "exec_tools m =
     (if m_exec_grants m \<noteq> [] then
        [\<lparr> td_name = ''exec__run'',
           td_description = ''Run a permitted program. Allowed programs: '' @
             join '', '' (map eg_program (m_exec_grants m)),
           td_arguments_schema = schema_of
             [(''program'', typed ''string''),
              (''args'', jobj [(''type'', JString ''array''), (''items'', typed ''string'')])] [''program''] \<rparr>]
      else [])"

definition mcp_tools :: "Manifest \<Rightarrow> ToolDecl list" where
  "mcp_tools m =
     concat (map (\<lambda>g. map (\<lambda>t.
        \<lparr> td_name = format_mcp_name (mcp_server_name g) (allowed_tool_name t),
          td_description = ''MCP tool '' @ allowed_tool_name t @ '' on server '' @ mcp_server_name g @
            '' (URI: '' @ mcp_server_uri g @ '')'',
          td_arguments_schema = typed ''object'' \<rparr>) (mcp_allowed_tools g)) (t_mcp (m_tools m)))"

definition tool_catalog :: "Manifest \<Rightarrow> ToolDecl list" where
  "tool_catalog m = filesystem_tools m @ network_tools m @ exec_tools m @ mcp_tools m"

section \<open>Dispatching one call\<close>

definition dispatch_native_filesystem :: "'w world_scheme \<Rightarrow> string \<Rightarrow> json \<Rightarrow> string option
    \<Rightarrow> (session, engine_error, json) act" where
  "dispatch_native_filesystem W tool args rsid =
     bindA (liftA (path_arg W args ''path'')) (\<lambda>path.
     if tool = ''read'' then
       bindA (mediate_filesystem_read W path rsid) (\<lambda>b. okA (read_response b))
     else if tool = ''write'' then
       bindA (liftA (string_arg W args ''contents'')) (\<lambda>contents.
       bindA (mediate_filesystem_write W path contents rsid) (\<lambda>_.
       okA (jobj [(''path'', JString path), (''bytes'', jlen contents)])))
     else if tool = ''delete'' then
       bindA (mediate_filesystem_delete W path rsid) (\<lambda>_.
       okA (jobj [(''path'', JString path), (''deleted'', JBool True)]))
     else errA (EngUnroutableToolCall (''filesystem__'' @ tool)))"

definition proto_arg :: "'w libs_scheme \<Rightarrow> json \<Rightarrow> engine_error + (string \<times> NetworkProto)" where
  "proto_arg L args =
     (let s = (case Option.bind (jget args ''protocol'') as_str of None \<Rightarrow> ''tcp'' | Some p \<Rightarrow> p) in
      if s = ''tcp'' then Inr (s, ProtoTcp)
      else if s = ''udp'' then Inr (s, ProtoUdp)
      else Inl (EngUnroutableToolCall (''network__connect (unknown protocol '' @ str_debug L s @ '')'')))"

definition dispatch_native_network :: "'w world_scheme \<Rightarrow> string \<Rightarrow> json \<Rightarrow> string option
    \<Rightarrow> (session, engine_error, json) act" where
  "dispatch_native_network W tool args rsid =
     (if tool = ''connect'' then
        bindA (liftA (string_arg W args ''host'')) (\<lambda>host.
        bindA (liftA (u16_arg W args ''port'')) (\<lambda>port.
        bindA (liftA (proto_arg W args)) (\<lambda>(proto_str, proto).
        bindA (mediate_network_connect W host port proto rsid) (\<lambda>_.
        okA (jobj [(''host'', JString host), (''port'', JU64 (ucast port)),
                   (''protocol'', JString proto_str), (''connected'', JBool True)])))))
      else errA (EngUnroutableToolCall (''network__'' @ tool)))"

definition i32_json :: "32 word \<Rightarrow> json" where
  "i32_json w = (if sint w < 0 then JI64 (scast w) else JU64 (ucast w))"

definition exec_args_of :: "json \<Rightarrow> string list" where
  "exec_args_of args =
     (case Option.bind (jget args ''args'') as_array of
        None \<Rightarrow> [] | Some vs \<Rightarrow> List.map_filter as_str vs)"

definition dispatch_native_exec :: "'w world_scheme \<Rightarrow> string \<Rightarrow> json \<Rightarrow> string option
    \<Rightarrow> (session, engine_error, json) act" where
  "dispatch_native_exec W tool args rsid =
     (if tool = ''run'' then
        bindA (liftA (path_arg W args ''program'')) (\<lambda>program.
        bindA (mediate_exec W program (exec_args_of args) rsid) (\<lambda>out.
        okA (jobj [(''program'', JString program),
                   (''exit'', case eo_status_code out of None \<Rightarrow> JNull | Some c \<Rightarrow> i32_json c),
                   (''stdout'', JString (w_utf8_lossy W (eo_stdout out))),
                   (''stderr'', JString (w_utf8_lossy W (eo_stderr out)))])))
      else errA (EngUnroutableToolCall (''exec__'' @ tool)))"

definition dispatch_mcp :: "'w world_scheme \<Rightarrow> string \<Rightarrow> string \<Rightarrow> json \<Rightarrow> string option
    \<Rightarrow> (session, engine_error, json) act" where
  "dispatch_mcp W server tool args rsid = mediate_mcp_tool_call W server tool args rsid"

definition dispatch_namespace :: "'w world_scheme \<Rightarrow> string \<Rightarrow> string \<Rightarrow> json \<Rightarrow> string option
    \<Rightarrow> (session, engine_error, json) act" where
  "dispatch_namespace W ns tool args rsid =
     (if ns = ''filesystem'' then dispatch_native_filesystem W tool args rsid
      else if ns = ''network'' then dispatch_native_network W tool args rsid
      else if ns = ''exec'' then dispatch_native_exec W tool args rsid
      else dispatch_mcp W ns tool args rsid)"

text \<open>Refusals become results of the call; every other error halts the turn.\<close>

definition call_result :: "engine_error + json \<Rightarrow> engine_error + ToolCallResult" where
  "call_result r =
     (case r of
        Inr v \<Rightarrow> Inr (CallSuccess v)
      | Inl (EngDenied reason) \<Rightarrow> Inr (CallDenied reason)
      | Inl (EngRequireApproval reason) \<Rightarrow> Inr (CallRequiresApproval reason)
      | Inl (EngUnroutableToolCall name) \<Rightarrow> Inr (CallUnroutable (''native dispatch refused: '' @ name))
      | Inl e \<Rightarrow> Inl e)"

definition call_outcome :: "InferToolCall \<Rightarrow> ToolCallResult \<Rightarrow> ToolCallOutcome" where
  "call_outcome c r =
     \<lparr> to_name = tc_name c, to_arguments = tc_arguments c, to_result = r, to_classifier_verdict = None \<rparr>"

definition dispatch_tool_call :: "'w world_scheme \<Rightarrow> InferToolCall \<Rightarrow> string option
    \<Rightarrow> (session, engine_error, ToolCallOutcome) act" where
  "dispatch_tool_call W c rsid =
     (case split_mcp_name (tc_name c) of
        None \<Rightarrow> okA (call_outcome c (CallUnroutable
          (''tool name '' @ str_debug W (tc_name c) @ '' not in <namespace>__<tool> shape'')))
      | Some (ns, tool) \<Rightarrow>
          bindA (tryA (dispatch_namespace W ns tool (tc_arguments c) rsid)) (\<lambda>r.
          bindA (liftA (call_result r)) (\<lambda>res. okA (call_outcome c res))))"

section \<open>One turn\<close>

definition tool_call_id :: "u32 \<Rightarrow> nat \<Rightarrow> string" where
  "tool_call_id turn i = ''turn-'' @ show_nat (unat turn) @ ''-call-'' @ show_nat i"

text \<open>\<open>turn\<close> is the turn number when the v2 entries are to be written.\<close>

definition write_call :: "'w world_scheme \<Rightarrow> u32 option \<Rightarrow> nat \<Rightarrow> InferToolCall \<Rightarrow> (session, engine_error, unit) act" where
  "write_call W turn i c =
     (case turn of
        None \<Rightarrow> okA ()
      | Some n \<Rightarrow> write_tool_call_entry W n (tool_call_id n i) (tc_name c) (origin_of (tc_name c))
                    (sha256_hex_of_json W (tc_arguments c)))"

definition write_result :: "'w world_scheme \<Rightarrow> u32 option \<Rightarrow> nat \<Rightarrow> ToolCallOutcome \<Rightarrow> (session, engine_error, unit) act" where
  "write_result W turn i out =
     (case turn of
        None \<Rightarrow> okA ()
      | Some n \<Rightarrow>
          let v = tool_call_result_to_value (to_result out) in
          write_tool_result_entry W n (tool_call_id n i) (sha256_hex_of_json W v) v)"

fun dispatch_calls :: "'w world_scheme \<Rightarrow> string \<Rightarrow> u32 option \<Rightarrow> nat \<Rightarrow> InferToolCall list
    \<Rightarrow> (session, engine_error, ToolCallOutcome list) act" where
  "dispatch_calls W step_id turn i [] = okA []"
| "dispatch_calls W step_id turn i (c # cs) =
     bindA (write_call W turn i c) (\<lambda>_.
     bindA (dispatch_tool_call W c (Some step_id)) (\<lambda>out.
     bindA (write_result W turn i out) (\<lambda>_.
     bindA (dispatch_calls W step_id turn (Suc i) cs) (\<lambda>outs.
     okA (out # outs)))))"

definition infer :: "InferRequest \<Rightarrow> (session, engine_error, InferResponse) act" where
  "infer req =
     bindA (getA s_loaded_model) (\<lambda>m.
     case m of
       None \<Rightarrow> errA EngNoBackendConfigured
     | Some model \<Rightarrow>
         bindA (on_env (tickA (\<lambda>t. model t req))) (\<lambda>r.
         case r of Inl e \<Rightarrow> errA (EngBackendInfer e) | Inr resp \<Rightarrow> okA resp))"

definition run_one_turn :: "'w world_scheme \<Rightarrow> ChatMessage list \<Rightarrow> string \<Rightarrow> u32 option
    \<Rightarrow> (session, engine_error, TurnOutcome \<times> u64 option) act" where
  "run_one_turn W messages prompt turn =
     bindA (getA (\<lambda>s. tool_catalog (p_manifest (s_policy s)))) (\<lambda>tools.
     bindA (infer \<lparr> iq_messages = messages, iq_tools = tools \<rparr>) (\<lambda>resp.
     bindA (record_reasoning_step W prompt (ir_reasoning resp) (map td_name tools)
              (case ir_tool_calls resp of [] \<Rightarrow> None | c # _ \<Rightarrow> Some (tc_name c))) (\<lambda>step_id.
     bindA (getA schema_version) (\<lambda>ver.
     bindA (dispatch_calls W step_id (if ver = V2 then turn else None) 0 (ir_tool_calls resp)) (\<lambda>outs.
     okA (\<lparr> tu_assistant_text = ir_assistant_text resp, tu_tool_calls = outs,
            tu_reasoning_step_id = step_id \<rparr>, ir_tokens_used resp))))))"

definition run_turn :: "'w world_scheme \<Rightarrow> string \<Rightarrow> (session, engine_error, TurnOutcome) act" where
  "run_turn W user_message =
     bindA (run_one_turn W [\<lparr> cm_role = RoleUser, cm_content = user_message \<rparr>] user_message None)
       (\<lambda>(out, _). okA out)"

section \<open>The loop\<close>

definition elapsedA :: "'w world_scheme \<Rightarrow> time \<Rightarrow> (session, 'e, time) act" where
  "elapsedA W started = on_env (tickA (\<lambda>t. max 0 (w_instant_now W t - started)))"

definition as_secs :: "time \<Rightarrow> u64" where
  "as_secs t = word_of_int (min (t div 1000000000) (2 ^ 64 - 1))"

definition as_millis :: "time \<Rightarrow> u64" where
  "as_millis t = word_of_int (min (t div 1000000) (2 ^ 64 - 1))"

definition emit_cap :: "'w world_scheme \<Rightarrow> TurnCapKind \<Rightarrow> u32 \<Rightarrow> TurnLimits \<Rightarrow> u64 \<Rightarrow> time
    \<Rightarrow> (session, engine_error, 'a) act" where
  "emit_cap W bound at_turn limits tokens elapsed =
     bindA (write_turn_cap_violation W bound at_turn (tl_max_turns limits) tokens (tl_max_tokens limits)
              (w_secs_f64 W elapsed) (tl_max_seconds limits)) (\<lambda>_.
     errA (EngTurnCapExceeded bound at_turn (tl_max_turns limits) tokens (tl_max_tokens limits)
              (w_secs_f64 W elapsed) (tl_max_seconds limits)))"

definition turn_audience :: "string \<Rightarrow> u32 \<Rightarrow> string" where
  "turn_audience sid turn = ''aegis-turn://'' @ sid @ ''/'' @ show_nat (unat turn)"

definition saturating_sub64 :: "u64 \<Rightarrow> u64 \<Rightarrow> u64" where
  "saturating_sub64 a b = (if b \<le> a then a - b else 0)"

definition begin_turn :: "'w world_scheme \<Rightarrow> ChatMessage list \<Rightarrow> TurnLimits \<Rightarrow> time \<Rightarrow> u32
    \<Rightarrow> (session, engine_error, unit) act" where
  "begin_turn W messages limits started turn =
     bindA (getA s_session_id) (\<lambda>sid.
     bindA (elapsedA W started) (\<lambda>e.
     bindA (issue_turn_svid W (turn_audience sid turn) (saturating_sub64 (tl_max_seconds limits) (as_secs e))) (\<lambda>thumb.
     write_turn_start W turn (sha256_hex_of_messages W messages) thumb (turn_audience sid turn))))"

definition end_turn :: "'w world_scheme \<Rightarrow> time \<Rightarrow> u32 \<Rightarrow> u64 option \<Rightarrow> u64 \<Rightarrow> (session, engine_error, unit) act" where
  "end_turn W started turn used tokens =
     bindA (elapsedA W started) (\<lambda>e.
     bindA (write_turn_end W turn None used tokens (as_millis e)) (\<lambda>_. drop_turn_svid))"

type_synonym classified = "(ToolCallOutcome \<times> ClassifierVerdict \<times> ToolOrigin) list"

definition classify_calls :: "'w libs_scheme \<Rightarrow> Classifier \<Rightarrow> ToolCallOutcome list \<Rightarrow> classified" where
  "classify_calls L cl outs =
     map (\<lambda>out. let origin = origin_of (to_name out) in
       (out, cl_classify cl (json_to_string L (tool_call_result_to_value (to_result out))) origin, origin)) outs"

fun write_flagged :: "'w world_scheme \<Rightarrow> string \<Rightarrow> classified \<Rightarrow> (session, engine_error, unit) act" where
  "write_flagged W name [] = okA ()"
| "write_flagged W name ((out, verdict, origin) # xs) =
     bindA (if verdict_flagged verdict then write_adversarial_violation W verdict name origin else okA ()) (\<lambda>_.
     write_flagged W name xs)"

definition stamp_verdicts :: "classified \<Rightarrow> ToolCallOutcome list" where
  "stamp_verdicts xs = map (\<lambda>(out, verdict, _). out\<lparr> to_classifier_verdict := Some verdict \<rparr>) xs"

definition tool_message :: "'w world_scheme \<Rightarrow> string \<Rightarrow> ToolCallOutcome \<times> ClassifierVerdict \<times> ToolOrigin \<Rightarrow> ChatMessage" where
  "tool_message W name x =
     (case x of (out, verdict, origin) \<Rightarrow>
        let body = json_to_string W (jobj [(''tool'', JString (to_name out)), (''args'', to_arguments out),
                     (''result'', tool_call_result_to_value (to_result out))]) in
        \<lparr> cm_role = RoleTool,
          cm_content = (if verdict_flagged verdict then wrap_flagged W body verdict origin name else body) \<rparr>)"

definition assistant_messages :: "string option \<Rightarrow> ChatMessage list" where
  "assistant_messages txt =
     (case txt of
        Some (c # cs) \<Rightarrow> [\<lparr> cm_role = RoleAssistant, cm_content = c # cs \<rparr>] | _ \<Rightarrow> [])"

text \<open>A turn within the loop: the outcome with its verdicts, the messages it adds, and the tokens.\<close>

definition loop_turn :: "'w world_scheme \<Rightarrow> string \<Rightarrow> TurnLimits \<Rightarrow> time \<Rightarrow> u32 \<Rightarrow> ChatMessage list \<Rightarrow> u64
    \<Rightarrow> (session, engine_error, TurnOutcome \<times> ChatMessage list \<times> u64) act" where
  "loop_turn W prompt limits started turn messages tokens =
     bindA (getA (\<lambda>s. schema_version s = V2)) (\<lambda>v2.
     bindA (if v2 then begin_turn W messages limits started turn else okA ()) (\<lambda>_.
     bindA (run_one_turn W messages prompt (Some turn)) (\<lambda>(out, used).
     let tokens' = saturating_add64 tokens (case used of None \<Rightarrow> 0 | Some n \<Rightarrow> n) in
     bindA (getA s_adversarial_classifier) (\<lambda>cl.
     let xs = classify_calls W cl (tu_tool_calls out) in
     bindA (write_flagged W (cl_name cl) xs) (\<lambda>_.
     bindA (if v2 then end_turn W started turn used tokens' else okA ()) (\<lambda>_.
     okA (out\<lparr> tu_tool_calls := stamp_verdicts xs \<rparr>,
          messages @ assistant_messages (tu_assistant_text out) @ map (tool_message W (cl_name cl)) xs,
          tokens')))))))"

fun run_turns :: "nat \<Rightarrow> 'w world_scheme \<Rightarrow> string \<Rightarrow> TurnLimits \<Rightarrow> time \<Rightarrow> u32 \<Rightarrow> ChatMessage list
    \<Rightarrow> TurnOutcome list \<Rightarrow> u64 \<Rightarrow> (session, engine_error, SessionRunResult) act" where
  "run_turns 0 W prompt limits started turn messages turns tokens =
     bindA (elapsedA W started) (\<lambda>e. emit_cap W CapTurns (tl_max_turns limits) limits tokens e)"
| "run_turns (Suc left) W prompt limits started turn messages turns tokens =
     bindA (elapsedA W started) (\<lambda>e.
     if tl_max_seconds limits \<le> as_secs e then emit_cap W CapWallclock turn limits tokens e
     else if tl_max_tokens limits \<le> tokens then emit_cap W CapTokens turn limits tokens e
     else
       bindA (loop_turn W prompt limits started turn messages tokens) (\<lambda>(out, messages', tokens').
       if tu_tool_calls out = [] then
         bindA (elapsedA W started) (\<lambda>e2.
         okA \<lparr> sr_turns = turns @ [out], sr_termination = TerminationDone,
               sr_tokens_consumed = tokens', sr_wallclock = e2 \<rparr>)
       else run_turns left W prompt limits started (turn + 1) messages' (turns @ [out]) tokens'))"

definition run :: "'w world_scheme \<Rightarrow> string \<Rightarrow> TurnLimits \<Rightarrow> (session, engine_error, SessionRunResult) act" where
  "run W prompt limits =
     bindA (on_env (tickA (w_instant_now W))) (\<lambda>started.
     run_turns (unat (tl_max_turns limits)) W prompt limits started 1
       [\<lparr> cm_role = RoleUser, cm_content = prompt \<rparr>] [] 0)"

end
