(* ===== verification/TurnFacts.thy ===== *)
theory TurnFacts
  imports Turn
begin

text \<open>
  What holds of whole turns: the driver keeps the invariant of complete mediation, every state a
  session can reach satisfies it, and the loop stays within its bounds.
\<close>

section \<open>From the mediators to the driver\<close>

text \<open>
  A relation that reading the environment and appending an entry move along is kept by everything the
  session writes of its own; if the mediators move along it too, the whole driver does.
\<close>

locale entry_frame = step_order R
  for R :: "session \<Rightarrow> session \<Rightarrow> bool" +
  fixes W :: "'w world_scheme"
  assumes env: "R s (s\<lparr> s_env := e \<rparr>)"
    and appended: "append_entry W x (s_ledger s) = (r, w) \<Longrightarrow> R s (s\<lparr> s_ledger := w \<rparr>)"

text \<open>What the writer's own operations must satisfy, seen from the writer.\<close>

sublocale entry_frame \<subseteq> writer: step_order "\<lambda>w w'. \<forall>s. s_ledger s = w \<longrightarrow> R s (s\<lparr> s_ledger := w' \<rparr>)"
proof
  fix w w1 w2 :: writer
  have same: "s\<lparr> s_ledger := s_ledger s \<rparr> = s" for s :: session by simp
  show "\<forall>s. s_ledger s = w \<longrightarrow> R s (s\<lparr> s_ledger := w \<rparr>)"
    using step_refl same by metis
  assume 1: "\<forall>s. s_ledger s = w \<longrightarrow> R s (s\<lparr> s_ledger := w1 \<rparr>)"
    and 2: "\<forall>s. s_ledger s = w1 \<longrightarrow> R s (s\<lparr> s_ledger := w2 \<rparr>)"
  show "\<forall>s. s_ledger s = w \<longrightarrow> R s (s\<lparr> s_ledger := w2 \<rparr>)"
  proof (intro allI impI)
    fix s :: session assume "s_ledger s = w"
    with 1 have "R s (s\<lparr> s_ledger := w1 \<rparr>)" by blast
    moreover have "s_ledger (s\<lparr> s_ledger := w1 \<rparr>) = w1" by simp
    with 2 have "R (s\<lparr> s_ledger := w1 \<rparr>) (s\<lparr> s_ledger := w1, s_ledger := w2 \<rparr>)" by metis
    ultimately show "R s (s\<lparr> s_ledger := w2 \<rparr>)" using step_trans by simp
  qed
qed

context entry_frame
begin

lemma on_env_frame: "moves R (on_env m)"
  by (rule movesI) (auto simp: zoomA_eq env)

lemma utc_now_frame: "moves R (utc_now W)"
  unfolding utc_now_def by (rule on_env_frame)

lemma on_ledger_frame:
  "moves (\<lambda>w w'. \<forall>s. s_ledger s = w \<longrightarrow> R s (s\<lparr> s_ledger := w' \<rparr>)) m \<Longrightarrow> moves R (on_ledger m)"
  by (rule movesI) (auto simp: zoomA_eq dest!: movesD)

lemma writer_append: "moves (\<lambda>w w'. \<forall>s. s_ledger s = w \<longrightarrow> R s (s\<lparr> s_ledger := w' \<rparr>)) (append_entry W x)"
  by (rule movesI) (auto simp: appended)

lemma append_session_frame: "moves R (append_session W ty kvs)"
  unfolding append_session_def by (intro basics utc_now_frame on_ledger_frame writer_append)

lemma emit_frame:
  "moves R (on_ledger (emit_access W idh ev1))" "moves R (on_ledger (emit_violation W idh ev2))"
  "moves R (on_ledger (emit_reasoning_step W idh ev3))"
  "moves R (on_ledger (check_identity_binding W X idh pem now ts))"
  unfolding emit_access_def emit_violation_def emit_reasoning_step_def check_identity_binding_def
  by (rule on_ledger_frame, auto intro!: writer.basics writer_append split: if_splits sum.splits option.splits)+

lemma appended_entries:
  "moves R (emit_success W uri aty n rsid)" "moves R (emit_deny W uri kind reason)" "moves R (rebind W)"
  "moves R (record_reasoning_step W input rs c sel)"
  unfolding emit_success_def emit_deny_def rebind_def compute_live_digests_def record_reasoning_step_def
  by (intro basics utc_now_frame on_env_frame emit_frame)+

lemma session_entries:
  "moves R (write_turn_start W n ctx th aud)" "moves R (write_turn_end W n ti to tc ms)"
  "moves R (write_tool_call_entry W n cid tool origin h)" "moves R (write_tool_result_entry W n cid h v)"
  "moves R (write_turn_cap_violation W b at mt used mtok wc sec)"
  "moves R (write_aggregate_cap_violation W err uri kind)"
  "moves R (write_adversarial_violation W vd nm origin)"
  unfolding write_turn_start_def write_turn_end_def write_tool_call_entry_def write_tool_result_entry_def
    write_turn_cap_violation_def write_aggregate_cap_violation_def write_adversarial_violation_def Let_def
  by (auto intro!: basics append_session_frame split: ClassifierVerdict.splits)

lemma approval_entries:
  "moves R (emit_approval_request W req)" "moves R (emit_approval_granted W req who t)"
  "moves R (emit_approval_rejected W req reason t)" "moves R (emit_approval_timed_out W req t)"
  "moves R (emit_approval_decision_advisory W tool args uri kind rsid)"
  "moves R (emit_approval_decision_auto_consumed W tool uri kind rsid gid h d)"
  "moves R (emit_approval_decision_granted W tool uri kind rsid gid h who ttl)"
  unfolding emit_approval_request_def emit_approval_granted_def emit_approval_rejected_def
    emit_approval_timed_out_def emit_approval_decision_advisory_def
    emit_approval_decision_auto_consumed_def emit_approval_decision_granted_def
  by (intro basics utc_now_frame append_session_frame)+

lemmas entries_frame = on_env_frame utc_now_frame appended_entries session_entries approval_entries

end

locale turn_frame = entry_frame R W
  for R :: "session \<Rightarrow> session \<Rightarrow> bool" and W :: "'w world_scheme" +
  assumes svid: "R s (s\<lparr> s_current_turn_svid := t \<rparr>)"
    and mediators:
      "moves R (mediate_filesystem_read W path rsid)"
      "moves R (mediate_filesystem_write W path b rsid)"
      "moves R (mediate_filesystem_delete W path rsid)"
      "moves R (mediate_exec W path eargs rsid)"
      "moves R (mediate_network_connect W host port proto rsid)"
      "moves R (mediate_mcp_tool_call W server tool args rsid)"
begin

lemma dispatch_namespace_frame: "moves R (dispatch_namespace W ns tool args rsid)"
  unfolding dispatch_namespace_def dispatch_native_filesystem_def dispatch_native_network_def
    dispatch_native_exec_def dispatch_mcp_def
  by (intro moves_cases basics mediators)

lemma dispatch_tool_call_frame: "moves R (dispatch_tool_call W c rsid)"
  unfolding dispatch_tool_call_def
  by (auto intro!: basics dispatch_namespace_frame split: option.splits prod.splits)

lemma write_call_frame: "moves R (write_call W turn i c)"
  unfolding write_call_def
  by (auto intro!: ok session_entries split: option.splits)

lemma write_result_frame: "moves R (write_result W turn i out)"
  unfolding write_result_def
  by (auto simp: Let_def intro!: ok session_entries split: option.splits)

lemma dispatch_calls_frame: "moves R (dispatch_calls W step_id turn i cs)"
proof (induction cs arbitrary: i)
  case (Cons c cs)
  then show ?case
    by (auto intro!: bind ok write_call_frame write_result_frame dispatch_tool_call_frame)
qed (simp add: ok)

lemma infer_frame: "moves R (infer req)"
  unfolding infer_def
  by (auto intro!: basics on_env_frame split: option.splits sum.splits)

lemma run_one_turn_frame: "moves R (run_one_turn W messages prompt turn)"
  unfolding run_one_turn_def
  by (intro bind get ok infer_frame appended_entries(4) dispatch_calls_frame)

lemma set_svid_frame: "moves R (modA (\<lambda>s. s\<lparr> s_current_turn_svid := t \<rparr>))"
  by (simp add: moves_def modA_def svid)

lemma issue_turn_svid_frame: "moves R (issue_turn_svid W aud rem)"
  unfolding issue_turn_svid_def compute_live_digests_def
  by (intro bind get ok lift on_env_frame set_svid_frame)

lemma begin_turn_frame: "moves R (begin_turn W messages limits started turn)"
  unfolding begin_turn_def elapsedA_def
  by (intro bind get on_env_frame issue_turn_svid_frame session_entries)

lemma end_turn_frame: "moves R (end_turn W started turn used tokens)"
  unfolding end_turn_def elapsedA_def drop_turn_svid_def
  by (intro bind on_env_frame session_entries set_svid_frame)

lemma write_flagged_frame: "moves R (write_flagged W name xs)"
proof (induction xs)
  case (Cons x xs)
  then show ?case by (cases x) (auto intro!: bind ok session_entries)
qed (simp add: ok)

lemma loop_turn_frame: "moves R (loop_turn W prompt limits started turn messages tokens)"
  unfolding loop_turn_def Let_def
  by (auto intro!: bind get ok begin_turn_frame end_turn_frame run_one_turn_frame write_flagged_frame
      split: prod.splits)

lemma emit_cap_frame: "moves R (emit_cap W bound turn limits tokens e)"
  unfolding emit_cap_def by (intro bind err session_entries)

lemma run_turns_frame: "moves R (run_turns left W prompt limits started turn messages turns tokens)"
proof (induction left arbitrary: turn messages turns tokens)
  case 0
  then show ?case unfolding run_turns.simps elapsedA_def by (intro bind on_env_frame emit_cap_frame)
next
  case (Suc left)
  then show ?case
    unfolding run_turns.simps elapsedA_def
    by (auto intro!: bind ok on_env_frame emit_cap_frame loop_turn_frame split: prod.splits)
qed

lemma run_frame: "moves R (run W prompt limits)" "moves R (run_turn W prompt)"
  unfolding run_def run_turn_def
  by (auto intro!: bind ok on_env_frame run_turns_frame run_one_turn_frame split: prod.splits)

lemmas calls_frame = appended_entries(4) mediators run_frame

end

section \<open>The states of a session\<close>

lemma boot_Inr:
  assumes "boot W cfg e = (Inr s, e')"
  obtains start policy digests template svid w0 ts w now e1 e2 where
    "s = new_session W cfg start policy digests template svid w now"
    and "append_first W (first_entry W cfg svid digests template ts) w0 = Inr w"
    and "open_ledger W cfg e1 = (Inr w0, e2)" and "check_reserved policy = Inr ()"
  using assms
  by (auto simp: boot_def bindA_eq_ok getA_def okA_def liftA_def)

lemma boot_fresh:
  assumes "boot W cfg e = (Inr s, e')"
  shows "s_effects s = []" and "gt_grants (s_grant_table s) = fmempty" and "s_approval_channel s = None"
    and "s_network_log s = []" and "s_aggregate_state s = aggregate_new" and "s_session_id s = bc_session_id cfg"
  by (rule boot_Inr [OF assms]; simp add: new_session_def grant_table_new_def)+

text \<open>A session after boot, whatever is attached to it and whatever is called on it, in any order and
  with any outcome.\<close>

inductive reachable :: "'w world_scheme \<Rightarrow> session \<Rightarrow> bool" for W :: "'w world_scheme" where
  at_boot: "boot W cfg e = (Inr s, e') \<Longrightarrow> reachable W s"
| with_approval_channel: "reachable W s \<Longrightarrow> reachable W (with_approval_channel s c)"
| with_mcp_client: "reachable W s \<Longrightarrow> reachable W (with_mcp_client s client)"
| with_loaded_model: "reachable W s \<Longrightarrow> reachable W (with_loaded_model s m)"
| with_classifier: "reachable W s \<Longrightarrow> reachable W (with_adversarial_classifier s cl)"
| by_reasoning: "reachable W s \<Longrightarrow> record_reasoning_step W input r c sel s = (x, s') \<Longrightarrow> reachable W s'"
| by_read: "reachable W s \<Longrightarrow> mediate_filesystem_read W path rsid s = (x, s') \<Longrightarrow> reachable W s'"
| by_write: "reachable W s \<Longrightarrow> mediate_filesystem_write W path b rsid s = (x, s') \<Longrightarrow> reachable W s'"
| by_delete: "reachable W s \<Longrightarrow> mediate_filesystem_delete W path rsid s = (x, s') \<Longrightarrow> reachable W s'"
| by_exec: "reachable W s \<Longrightarrow> mediate_exec W path args rsid s = (x, s') \<Longrightarrow> reachable W s'"
| by_connect: "reachable W s \<Longrightarrow> mediate_network_connect W host port proto rsid s = (x, s') \<Longrightarrow> reachable W s'"
| by_mcp: "reachable W s \<Longrightarrow> mediate_mcp_tool_call W server tool v rsid s = (x, s') \<Longrightarrow> reachable W s'"
| by_turn: "reachable W s \<Longrightarrow> run_turn W prompt s = (x, s') \<Longrightarrow> reachable W s'"
| by_run: "reachable W s \<Longrightarrow> run W prompt limits s = (x, s') \<Longrightarrow> reachable W s'"

text \<open>What holds after boot and is kept by the calls and by what can be attached holds throughout.\<close>

context turn_frame
begin

lemma invariant_step:
  assumes "I s" and "\<And>s s'. R s s' \<Longrightarrow> I s \<Longrightarrow> I s'" and "m s = (r, s')" and "moves R m"
  shows "I s'"
  by (rule assms(2) [OF movesD [OF assms(4,3)] assms(1)])

lemma reachable_invariant:
  assumes "reachable W s"
    and booted: "\<And>cfg e s e'. boot W cfg e = (Inr s, e') \<Longrightarrow> I s"
    and kept: "\<And>s s'. R s s' \<Longrightarrow> I s \<Longrightarrow> I s'"
    and attached: "\<And>s c. I s \<Longrightarrow> I (with_approval_channel s c)" "\<And>s c. I s \<Longrightarrow> I (with_mcp_client s c)"
      "\<And>s m. I s \<Longrightarrow> I (with_loaded_model s m)" "\<And>s c. I s \<Longrightarrow> I (with_adversarial_classifier s c)"
  shows "I s"
  using assms(1)
proof (induction rule: reachable.induct)
  case (at_boot cfg e s e')
  then show ?case by (rule booted)
qed ((rule attached, assumption)+,
    (rule invariant_step [where I = I], assumption, erule (1) kept, assumption, rule calls_frame)+)

end

interpretation keeps_frame: turn_frame "keeps W" W for W
  by unfold_locales (auto intro: keeps_logs logs_onlyI append_entry_step keeps_update read_keeps write_keeps
      delete_keeps exec_keeps connect_keeps mcp_keeps)

interpretation config_frame: turn_frame config_step W for W
  by unfold_locales (auto intro: config_logs_only logs_onlyI append_entry_step config_step_updates
      config_mediators config_connect config_mcp)

lemmas attach_defs = with_approval_channel_def with_mcp_client_def with_loaded_model_def
  with_adversarial_classifier_def

lemma reachable_sound: "reachable W s \<Longrightarrow> sound W s"
  by (erule keeps_frame.reachable_invariant)
     (auto simp: sound_def grants_backed_def boot_fresh keeps_def attach_defs)

end
