(* ===== verification/Demo.thy ===== *)
theory Demo
  imports TurnFacts
begin

text \<open>
  A concrete environment in which a session boots, with any manifest and any ledger version: every
  file operation succeeds, the disk of the ledger never fails and the files of the session are never
  changed behind its back. The properties about sessions are instantiated here.
\<close>

definition demo_world :: "Manifest \<Rightarrow> world" where
  "demo_world m = libs.extend libs0
     (world.fields x509_demo (\<lambda>_. Inr m) (\<lambda>_. 0) (\<lambda>_. 0) (\<lambda>_. 0) show_nat (\<lambda>_ _. FileOk)
       (\<lambda>_ _. False) (\<lambda>_ _. (0, True)) (\<lambda>_ fs p. fs p) (\<lambda>_ fs p b. (True, fs(p \<mapsto> b)))
       (\<lambda>_ fs p. (True, fs(p := None))) (\<lambda>_ _ _. True)
       (\<lambda>_ fs _ _. (Some \<lparr> eo_status_code = Some 0, eo_stdout = [], eo_stderr = [] \<rparr>, fs))
       (\<lambda>_. Some ''/'') (\<lambda>_. []) (\<lambda>b. b) (\<lambda>_ _. False) (\<lambda>a _. a) (\<lambda>a _. a) (\<lambda>a b. b \<le> a)
       (\<lambda>_. 0) (\<lambda>_. []) (\<lambda>_. True) (\<lambda>_. []) (\<lambda>_. 0) (\<lambda>_. []) (\<lambda>_. []))"

lemma demo_world_simps [simp]:
  "json_to_string (demo_world m) = json_to_string json_unary"
  "json_from_str (demo_world m) = json_from_str json_unary"
  "sha256 (demo_world m) = sha0" "hex_encode (demo_world m) = hex_encode0"
  "hex_decode (demo_world m) = hex_decode0" "rfc3339_nanos (demo_world m) = time_text0"
  "parse_datetime (demo_world m) = time_parse0" "rfc3339 (demo_world m) = time_text0"
  "duration_of_secs (demo_world m) =
     (\<lambda>n. if n * 1000000000 \<le> duration_max then Some (n * 1000000000) else None)"
  "duration_add (demo_world m) = (\<lambda>a b. if a + b \<le> duration_max then Some (a + b) else None)"
  "str_debug (demo_world m) = (\<lambda>s. CHR 0x22 # s @ [CHR 0x22])"
  "hmac_sha256 (demo_world m) = (\<lambda>k m. sha0 (k @ m))"
  "w_x509 (demo_world m) = x509_demo" "w_yaml (demo_world m) = (\<lambda>_. Inr m)"
  "w_utc_now (demo_world m) = (\<lambda>_. 0)" "w_system_now (demo_world m) = (\<lambda>_. 0)"
  "w_instant_now (demo_world m) = (\<lambda>_. 0)" "w_now_v7 (demo_world m) = show_nat"
  "w_ca_outcome (demo_world m) = (\<lambda>_ _. FileOk)" "w_ledger_create (demo_world m) = (\<lambda>_ _. False)"
  "w_ledger_io (demo_world m) = (\<lambda>_ _. (0, True))" "w_read_file (demo_world m) = (\<lambda>_ fs p. fs p)"
  "w_write_file (demo_world m) = (\<lambda>_ fs p b. (True, fs(p \<mapsto> b)))"
  "w_connect (demo_world m) = (\<lambda>_ _ _. True)" "w_current_dir (demo_world m) = (\<lambda>_. Some ''/'')"
  "w_exec (demo_world m) = (\<lambda>_ fs _ _. (Some \<lparr> eo_status_code = Some 0, eo_stdout = [], eo_stderr = [] \<rparr>, fs))"
  by (simp_all add: demo_world_def world.defs libs.defs libs0_def json_lib.defs)

lemma demo_world_laws: "lib_laws (demo_world m)"
proof -
  have "json_lib.truncate (demo_world m) = json_unary" by (simp add: json_lib.defs)
  with libs0_laws show ?thesis
    by (simp add: lib_laws_def hex_laws_def sha_laws_def time_laws_def duration_laws_def json_lib.defs)
qed

definition demo_fs :: file_system where
  "demo_fs = [''ca/ca.crt'' \<mapsto> ''cert'', ''ca/ca.key'' \<mapsto> ''key'', ''ca/trust_domain'' \<mapsto> ''td'',
     ''model'' \<mapsto> ''weights'', ''manifest'' \<mapsto> [], ''/data/a'' \<mapsto> ''hello'']"

definition demo_env :: env where
  "demo_env = \<lparr> en_fs = demo_fs, en_tick = 0 \<rparr>"

definition demo_config :: "LedgerSchemaVersion \<Rightarrow> BootConfig" where
  "demo_config ver = \<lparr> bc_session_id = ''s1'', bc_manifest_path = ''manifest'', bc_model_path = ''model'',
     bc_config_path = None, bc_chat_template_sidecar = None, bc_identity_dir = ''ca'',
     bc_workload_name = ''w'', bc_instance = ''i'', bc_ledger_path = ''ledger'',
     bc_ledger_schema = Some ver \<rparr>"

text \<open>The digests of the files of the demo session.\<close>

definition demo_triple :: DigestTriple where
  "demo_triple = \<lparr> dt_model = sha0 ''weights'', dt_manifest = sha0 [], dt_config = sha0 [] \<rparr>"

lemma demo_triple_ok: "triple_ok demo_triple"
  by (simp add: triple_ok_def digest_ok_def demo_triple_def sha0_def)

text \<open>An environment whose files include those of the demo session.\<close>

definition at_fs :: "file_system \<Rightarrow> nat \<Rightarrow> env" where
  "at_fs fs n = \<lparr> en_fs = fs, en_tick = n \<rparr>"

abbreviation at :: "nat \<Rightarrow> env" where
  "at \<equiv> at_fs demo_fs"

definition has_demo_files :: "file_system \<Rightarrow> bool" where
  "has_demo_files fs \<longleftrightarrow> fs ''ca/ca.crt'' = Some ''cert'' \<and> fs ''ca/ca.key'' = Some ''key'' \<and>
     fs ''ca/trust_domain'' = Some ''td'' \<and> fs ''manifest'' = Some []"

lemma demo_fs_has: "has_demo_files demo_fs" "demo_fs ''model'' = Some ''weights''"
  by (simp_all add: has_demo_files_def demo_fs_def)

lemma at_tick: "tickA f (at_fs fs n) = (Inr (f n), at_fs fs (Suc n))"
  by (simp add: at_fs_def tickA_def)

lemma at_read: "read_fileA (demo_world m) p (at_fs fs n) = (Inr (fs p), at_fs fs (Suc n))"
  by (simp add: at_fs_def read_fileA_def tickA_def bindA_def getA_def)

lemma at_digests:
  assumes "has_demo_files fs" and "fs model = Some ''weights''"
  shows "compute_digests (demo_world m) model ''manifest'' None (at_fs fs n) = (Inr demo_triple, at_fs fs (Suc (Suc n)))"
  using assms by (simp add: compute_digests_def sha256_file_def sha256_config_def at_read okA_def
      sha256_bytes_def demo_triple_def bindA_def has_demo_files_def)

lemma demo_ca_load:
  assumes "has_demo_files fs"
  shows "fst (ca_load x509_demo ''ca'' \<lparr> cs_files = fs, cs_calls = 0, cs_outcome = (\<lambda>_. FileOk) \<rparr>) =
     Inr \<lparr> ca_dir = ''ca'', ca_trust_domain = ''td'', ca_cert = ''cert'', ca_key = ''key'' \<rparr>"
proof -
  have "spiffe_new ''td'' ''ca'' ''root'' = Inr \<lparr> sp_trust_domain = ''td'', sp_workload_name = ''ca'', sp_instance = ''root'' \<rparr>"
    by (simp add: spiffe_new_Inr spiffe_valid_def trust_domain_char_def segment_char_def is_lower_def)
  moreover have "trim ''td'' = ''td''" by (rule spiffe_trust_domain_trim) (rule demo_spiffe)
  ultimately show ?thesis
    using assms by (simp add: ca_load_def join_path_def CA_CERT_FILE_def CA_KEY_FILE_def TRUST_DOMAIN_FILE_def has_demo_files_def
      act_simps read_to_string_def file_op_def validate_trust_domain_for_ca_def x509_demo_def of_lib_def bindA_def
      okA_def getA_def)
qed

definition demo_root :: LocalCa where
  "demo_root = \<lparr> ca_dir = ''ca'', ca_trust_domain = ''td'', ca_cert = ''cert'', ca_key = ''key'' \<rparr>"

lemma at_load_ca:
  "has_demo_files fs \<Longrightarrow> load_ca (demo_world m) ''ca'' (at_fs fs n) = (Inr demo_root, at_fs fs (Suc n))"
  using demo_ca_load [of fs]
  by (simp add: load_ca_def bindA_def getA_def tickA_def at_fs_def liftA_def of_lib_def demo_root_def)

lemma demo_svid:
  "\<exists>svid. issue_svid_with_chat_template x509_demo 0 k demo_root ''w'' ''i'' demo_triple None = Inr svid \<and>
     verify_digest_binding x509_demo (sv_cert_pem svid) demo_triple = Inr None \<and>
     verify_chat_template_binding x509_demo (sv_cert_pem svid) None = Inr None \<and>
     sv_spiffe_id svid = \<lparr> sp_trust_domain = ''td'', sp_workload_name = ''w'', sp_instance = ''i'' \<rparr>"
proof -
  obtain s where s: "issue_svid_with_chat_template x509_demo 0 k demo_root ''w'' ''i'' demo_triple None = Inr s"
    by (simp add: issue_svid_with_chat_template_def demo_root_def demo_spiffe x509_demo_def sign_svid_def
        leaf_params_def opt_list_def of_lib_def hours_def SVID_VALIDITY_HOURS_def)
  have "template_ok None" by (simp add: template_ok_def)
  note a = issued_attests [OF x509_demo_laws demo_triple_ok this s]
  moreover have "sv_spiffe_id s = \<lparr> sp_trust_domain = ''td'', sp_workload_name = ''w'', sp_instance = ''i'' \<rparr>"
    using s by (auto simp: issue_svid_with_chat_template_def sign_svid_def demo_root_def demo_spiffe)
  ultimately show ?thesis using s by blast
qed

text \<open>What the examples know of the demo session.\<close>

definition demo_session :: "Manifest \<Rightarrow> LedgerSchemaVersion \<Rightarrow> session \<Rightarrow> bool" where
  "demo_session m ver s \<longleftrightarrow>
     reachable (demo_world m) s \<and> live s \<and> s_policy s = policy_from_manifest m \<and>
     schema_version s = ver \<and> en_fs (s_env s) = demo_fs \<and> s_bound_digests s = demo_triple \<and>
     s_model_path s = ''model'' \<and> s_manifest_path s = ''manifest'' \<and> s_config_path s = None \<and>
     s_identity_dir s = ''ca'' \<and> s_session_start s = 0 \<and> s_session_id s = ''s1'' \<and>
     verify_digest_binding x509_demo (s_svid_cert_pem s) demo_triple = Inr None"

lemma first_entry_readable: "readable (first_entry L cfg svid digests template 0)"
proof -
  have all: "\<exists>t. snd x = JString t" if "x \<in> set (session_start_fields L (sv_spiffe_id svid) digests template)" for x
    using that by (auto simp: session_start_fields_def)
  have "json_depth v \<le> 0" if "fmlookup (e_payload (first_entry L cfg svid digests template 0)) k = Some v" for k v
    using all [of "(k, v)"] map_of_SomeD [of "rev (session_start_fields L (sv_spiffe_id svid) digests template)" k v] that
    by (auto simp: first_entry_def fmlookup_of_list)
  then have "json_depth (JObject (e_payload (first_entry L cfg svid digests template 0))) \<le> Suc 0"
    by (rule json_depth_object_le)
  then show ?thesis by (simp add: readable_def time_in_range_def first_entry_def del: json_depth.simps)
qed

text \<open>Any session with the files of the demo session boots.\<close>

lemma demo_boot_any:
  assumes "check_reserved (policy_from_manifest m) = Inr ()" and "m_extends m = []"
    and "has_demo_files fs" and "fs (bc_model_path cfg) = Some ''weights''"
    and "bc_manifest_path cfg = ''manifest''" "bc_config_path cfg = None" "bc_chat_template_sidecar cfg = None"
    and "bc_identity_dir cfg = ''ca''" "bc_workload_name cfg = ''w''" "bc_instance cfg = ''i''"
  obtains s x e' where "boot (demo_world m) cfg (at_fs fs 0) = (Inr s, e')" "reachable (demo_world m) s" "live s"
    and "s_session_id s = bc_session_id cfg" "s_policy s = policy_from_manifest m" "s_model_path s = bc_model_path cfg"
    and "s_log s = [x]" "readable x" "s_network_log s = []" "s_effects s = []"
    and "schema_version s = (case bc_ledger_schema cfg of None \<Rightarrow> V1 | Some v \<Rightarrow> v)"
    and "en_fs (s_env s) = fs" "s_bound_digests s = demo_triple" "s_manifest_path s = ''manifest''"
    and "s_config_path s = None" "s_identity_dir s = ''ca''" "s_session_start s = 0"
    and "verify_digest_binding x509_demo (s_svid_cert_pem s) demo_triple = Inr None"
    and "s_aggregate_state s = aggregate_new" "s_approval_channel s = None" "s_grant_table s = grant_table_new"
proof -
  let ?W = "demo_world m" and ?ver = "case bc_ledger_schema cfg of None \<Rightarrow> V1 | Some v \<Rightarrow> v"
  obtain svid where svid: "issue_svid_with_chat_template x509_demo 0 5 demo_root ''w'' ''i'' demo_triple None = Inr svid"
    "verify_digest_binding x509_demo (sv_cert_pem svid) demo_triple = Inr None"
    "verify_chat_template_binding x509_demo (sv_cert_pem svid) None = Inr None" using demo_svid by blast
  obtain w0 where w0: "open_ledger ?W cfg (at_fs fs n) = (Inr w0, at_fs fs (Suc n))" "w_session_id w0 = bc_session_id cfg"
    "w_schema_version w0 = ?ver" "disk_works w0" "w_log w0 = []" for n
    by (simp add: open_ledger_def bindA_def at_tick liftA_def of_lib_def create_with_version_def
        create_with_uuid_generator_def disk_works_def)
  let ?x = "first_entry ?W cfg svid demo_triple None 0"
  have "entry_valid (w_session_id w0) ?x"
    using w0(2) by (simp add: entry_valid_def first_entry_def session_start_fields_def opt_list_def
        RESERVED_KEYS_def)
  then obtain r w where r: "append_entry ?W ?x w0 = (Inr r, w)" "disk_works w"
    using append_entry_succeeds w0(4) by blast
  let ?s = "new_session ?W cfg 0 (policy_from_manifest m) demo_triple None svid w (at_fs fs 8)"
  have boot: "boot ?W cfg (at_fs fs 0) = (Inr ?s, at_fs fs 8)"
    using assms svid w0(1) r(1) at_digests [OF assms(3,4), of m 2] at_load_ca [OF assms(3), of m 4]
    by (simp add: boot_def bindA_def at_tick read_policy_def at_read liftA_def of_lib_def
        policy_from_yaml_file_def policy_from_yaml_bytes_def policy_from_manifest_def has_demo_files_def
        read_template_def issue_session_svid_def self_check_def append_first_def getA_def okA_def numeral_eq_Suc)
  moreover from boot have "reachable ?W ?s" by (rule at_boot)
  moreover have w: "w_session_id w = bc_session_id cfg" "w_schema_version w = ?ver"
    using append_entry_ok(3) [OF r(1)] w0(2,3) by (simp_all add: same_writer_def)
  moreover have "s_log ?s = [?x]" using append_entry_ok(2) [OF r(1)] w0(5) by (simp add: new_session_def)
  moreover note first_entry_readable
  moreover have "live ?s" using r(2) w(1) by (simp add: live_def new_session_def)
  ultimately show thesis
    using assms svid by (intro that [of ?s "at_fs fs 8" ?x]) (simp_all add: new_session_def schema_version_def at_fs_def)
qed

lemma demo_boot:
  assumes "check_reserved (policy_from_manifest m) = Inr ()" and "m_extends m = []"
  shows "\<exists>s. demo_session m ver s \<and> (\<exists>x. s_log s = [x] \<and> readable x) \<and> s_aggregate_state s = aggregate_new \<and>
     s_effects s = [] \<and> s_network_log s = [] \<and> s_approval_channel s = None \<and> s_grant_table s = grant_table_new \<and>
     (\<exists>e'. boot (demo_world m) (demo_config ver) (at 0) = (Inr s, e'))"
proof (rule demo_boot_any [OF assms demo_fs_has(1), of "demo_config ver"])
  fix s x e' assume "boot (demo_world m) (demo_config ver) (at 0) = (Inr s, e')" "reachable (demo_world m) s" "live s"
    "s_session_id s = bc_session_id (demo_config ver)" "s_policy s = policy_from_manifest m"
    "s_model_path s = bc_model_path (demo_config ver)" "s_log s = [x]" "readable x" "s_network_log s = []" "s_effects s = []"
    "schema_version s = (case bc_ledger_schema (demo_config ver) of None \<Rightarrow> V1 | Some v \<Rightarrow> v)"
    "en_fs (s_env s) = demo_fs" "s_bound_digests s = demo_triple" "s_manifest_path s = ''manifest''"
    "s_config_path s = None" "s_identity_dir s = ''ca''" "s_session_start s = 0"
    "verify_digest_binding x509_demo (s_svid_cert_pem s) demo_triple = Inr None"
    "s_aggregate_state s = aggregate_new" "s_approval_channel s = None" "s_grant_table s = grant_table_new"
  then show ?thesis by (intro exI [of _ s]) (auto simp: demo_session_def demo_config_def)
qed (simp_all add: demo_config_def demo_fs_has)

section \<open>Calls of the demo session\<close>

lemma demo_reads:
  assumes "demo_session m ver s"
  shows "compute_live_digests (demo_world m) s = (Inr demo_triple, ticked (ticked s))"
  using assms
  by (simp add: demo_session_def compute_live_digests_def bindA_getA zoomA_def compute_digests_def sha256_file_def
      sha256_config_def read_fileA_def tickA_def okA_def sha256_bytes_def demo_triple_def bindA_def getA_def
      demo_fs_def ticked_def)

lemma demo_session_ticked: "demo_session m ver s \<Longrightarrow> rebind (demo_world m) s = (Inr (), ticked (ticked (ticked s)))"
  using demo_reads [of m ver s]
  by (simp add: rebind_def bindA_ok bindA_getA bindA_tick demo_session_def check_identity_binding_def okA_def
      mapErrA_def zoomA_def)

definition demo_writer_manifest :: Manifest where
  "demo_writer_manifest = empty_manifest
     \<lparr> m_tools := \<lparr> t_filesystem = Some \<lparr> fs_read = [''/data''], fs_write = [''manifest'', ''/data''],
           fs_quota = Some \<lparr> max_calls_per_session = Some 1 \<rparr>, fs_approval = None \<rparr>,
         t_network = None, t_apis = [], t_mcp = [], t_exec = None \<rparr> \<rparr>"

text \<open>The agent overwrites its own manifest, which its manifest allows.\<close>

lemma demo_write_allowed:
  "check_filesystem_write (demo_world m2) (policy_from_manifest demo_writer_manifest) ''manifest'' 0 0 = Some Allow"
  by (simp add: check_filesystem_write_def classify_write_grant_def upgrade_for_approval_def paths_cover_def
      path_under_def policy_from_manifest_def demo_writer_manifest_def empty_manifest_def Let_def)

lemma emit_success_files: "emit_success W uri ty n rsid s = (r, s') \<Longrightarrow> en_fs (s_env s') = en_fs (s_env s)"
  by (auto simp: emit_success_def bindA_getA bindA_tick)
    (auto simp: bindA_def mapErrA_def zoomA_def okA_def split: prod.splits sum.splits)

lemma demo_overwrite:
  assumes d: "demo_session demo_writer_manifest ver s" and "s_aggregate_state s = aggregate_new"
  shows "\<exists>s'. mediate_filesystem_write (demo_world demo_writer_manifest) ''manifest'' ''x'' None s = (Inr (), s') \<and>
     live s' \<and> en_fs (s_env s') = demo_fs(''manifest'' \<mapsto> ''x'') \<and> config_step s s' \<and>
     s_effects s' = s_effects s @ [(EffWrite ''manifest'' ''x'', s_log s)]"
proof -
  let ?W = "demo_world demo_writer_manifest"
  let ?uri = "''file:///manifest''"
  let ?a = "\<lparr> as_counts = fmupd ClassFilesystem 1 fmempty \<rparr>"
  define t where "t = ticked (ticked (ticked (ticked (ticked s))))"
  define s1 where "s1 = t\<lparr> s_aggregate_state := ?a, s_effects := s_effects t @ [(EffWrite ''manifest'' ''x'', s_log t)],
    s_env := (s_env t)\<lparr> en_fs := demo_fs(''manifest'' \<mapsto> ''x''), en_tick := Suc (en_tick (s_env t)) \<rparr> \<rparr>"
  have t: "s_policy t = policy_from_manifest demo_writer_manifest" "s_aggregate_state t = aggregate_new"
    "en_fs (s_env t) = demo_fs" "live t" "s_effects t = s_effects s" "s_ledger t = s_ledger s"
    using d assms(2) by (simp_all add: t_def demo_session_def)
  have quota: "enforce_aggregate_quota ?W ClassFilesystem ?uri ''write'' t = (Inr (), t\<lparr> s_aggregate_state := ?a \<rparr>)"
    using t(1,2) by (simp add: enforce_aggregate_quota_def bindA_getA bindA_tryA zoomA_def check_and_increment_def
      demo_writer_manifest_def policy_from_manifest_def aggregate_new_def aggregate_snapshot_def
      saturating_add64_def okA_def)
  have "live s1" using t(4) by (simp add: s1_def live_def disk_works_def)
  then have "\<exists>u s2. emit_success ?W ?uri AccWrite (of_nat (length ''x'')) None s1 = (Inr u, s2)"
    by (intro appends_live [OF appends_emit_success]) simp_all
  then obtain s2 where e: "emit_success ?W ?uri AccWrite (of_nat (length ''x'')) None s1 = (Inr (), s2)" by auto
  have u: "file_uri ?W ''manifest'' (ticked (ticked (ticked (ticked s)))) = (Inr ?uri, t)"
    by (simp add: file_uri_def bindA_tick okA_def path_join_def t_def)
  have w: "do_write ?W ''manifest'' ''x'' (t\<lparr> s_aggregate_state := ?a \<rparr>) = (Inr (), s1)"
    by (simp add: do_write_def record_effect_def change_fsA_def zoomA_def bindA_def modA_def okA_def s1_def t(3))
  have "check_filesystem_write ?W (s_policy s) ''manifest'' 0 (s_session_start s) = Some Allow"
    using d demo_write_allowed by (simp add: demo_session_def)
  then have "mediate_filesystem_write ?W ''manifest'' ''x'' None s = (Inr (), s2)"
    using e demo_session_ticked [OF d]
    by (simp add: mediate_filesystem_write_def bindA_ok [where m = "rebind ?W"] bindA_tick bindA_getA of_panic_def
      bindA_liftA_ok gated_def route_through_approval_def bindA_okA on_decision_def
      bindA_ok [where m = "file_uri ?W ''manifest''", OF u]
      bindA_ok [where m = "enforce_aggregate_quota ?W ClassFilesystem ?uri ''write''", OF quota]
      bindA_ok [where m = "do_write ?W ''manifest'' ''x''", OF w])
  moreover have l: "logs_only s1 s2" using appends_Inr [OF appends_emit_success e] by blast
  moreover have "config_step s s2"
    using movesD [OF config_mediators(2) calculation(1)] .
  moreover have "live s2" using live_logs_only [OF l] \<open>live s1\<close> by simp
  moreover have "s_effects s2 = s_effects s @ [(EffWrite ''manifest'' ''x'', s_log s)]"
    using logs_only_fields(5) [OF l] t by (simp add: s1_def)
  moreover have "en_fs (s_env s2) = demo_fs(''manifest'' \<mapsto> ''x'')"
    using emit_success_files [OF e] by (simp add: s1_def)
  ultimately show ?thesis by blast
qed

end
