(* ===== verification/SessionLedger.thy ===== *)
theory SessionLedger
  imports Demo
begin

text \<open>
  The ledger of a whole session. A relation that every single update of the session state moves along
  is one the mediators, and with them the driver, move along; it is used here for the chain the writer
  keeps, so that the file of any session can be verified.
\<close>

section \<open>From single updates to the mediators\<close>

locale state_frame = entry_frame R W
  for R :: "session \<Rightarrow> session \<Rightarrow> bool" and W :: "'w world_scheme" +
  assumes updates:
      "R s (s\<lparr> s_aggregate_state := a \<rparr>)" "R s (s\<lparr> s_grant_table := g \<rparr>)"
      "R s (s\<lparr> s_network_log := n \<rparr>)" "R s (s\<lparr> s_effects := x \<rparr>)" "R s (s\<lparr> s_current_turn_svid := t \<rparr>)"
begin

lemma mod_frame:
  "moves R (modA (\<lambda>s. s\<lparr> s_grant_table := gf s \<rparr>))" "moves R (modA (\<lambda>s. s\<lparr> s_effects := xf s \<rparr>))"
  "moves R (modA (\<lambda>s. s\<lparr> s_network_log := nf s \<rparr>))"
  by (simp_all add: moves_def modA_def updates)

lemma update_moves:
  "moves R (insert_grant gr)" "moves R (record_effect f)" "moves R (log_connection W host port proto kind)"
  "moves R (on_aggregate m)"
  unfolding insert_grant_def record_effect_def log_connection_def
  by (rule mod_frame bind utc_now_frame)+ (auto simp: moves_def zoomA_def updates split: prod.splits)

lemma enforce_frame: "moves R (enforce_aggregate_quota W c uri kind)"
  unfolding enforce_aggregate_quota_def
  by (auto intro!: basics update_moves entries_frame split: sum.splits)

lemma route_frame: "moves R (route_through_approval W d uri kind rsid c tool args)"
  unfolding route_through_approval_def prompt_operator_def act_on_outcome_def
  by (auto simp: Let_def intro!: basics entries_frame update_moves split: Decision.splits option.splits sum.splits
      ApprovalOutcome.splits GrantDecision.splits)

lemma file_uri_frame: "moves R (file_uri W path)"
  unfolding file_uri_def by (auto intro!: basics entries_frame)

lemma calls_frame:
  "moves R (do_read W path)" "moves R (do_write W path b)" "moves R (do_delete W path)"
  "moves R (do_connect W host port)" "moves R (do_exec W path args)" "moves R (do_mcp_call client uri tool v)"
  unfolding do_read_def do_write_def do_delete_def do_connect_def do_exec_def do_mcp_call_def
  by (auto intro!: basics entries_frame update_moves split: option.splits sum.splits)

lemma gated_frame: "moves R m \<Longrightarrow> moves R (gated W d uri kind rsid c tool args m)"
  unfolding gated_def on_decision_def
  by (auto intro!: basics entries_frame route_frame enforce_frame split: Decision.splits)

lemma pre_validate_frame: "moves R (run_mcp_pre_validate W server tool args cs)"
proof (induction cs)
  case (Cons c cs)
  have "moves R (clause_decision W server tool arg kind start v)" for arg kind start v
    unfolding clause_decision_def
    by (auto intro!: basics entries_frame split: PreValidateKind.splits prod.splits)
  then have "moves R (pre_validate_values W server tool c start vs)" for start vs
    by (induction vs) (auto intro!: basics entries_frame split: Decision.splits)
  with Cons show ?case by (auto intro!: basics)
qed (simp add: ok)

lemma mediators_frame:
  "moves R (mediate_filesystem_read W path rsid)"
  "moves R (mediate_filesystem_write W path b rsid)"
  "moves R (mediate_filesystem_delete W path rsid)"
  "moves R (mediate_exec W path eargs rsid)"
  "moves R (mediate_network_connect W host port proto rsid)"
  "moves R (mediate_mcp_tool_call W server tool args rsid)"
  unfolding mediate_filesystem_read_def mediate_filesystem_write_def mediate_filesystem_delete_def
    mediate_exec_def mediate_network_connect_def mediate_mcp_tool_call_def connect_on_decision_def
    on_decision_def call_mcp_client_def Let_def
  by (auto intro!: basics entries_frame gated_frame calls_frame file_uri_frame route_frame enforce_frame
      update_moves pre_validate_frame split: sum.splits Decision.splits option.splits)

end

sublocale state_frame \<subseteq> driver: turn_frame R W
  by unfold_locales (simp_all add: updates mediators_frame)

section \<open>The chain\<close>

definition chained :: "'w world_scheme \<Rightarrow> session \<Rightarrow> session \<Rightarrow> bool" where
  "chained W s s' \<longleftrightarrow>
     (disk_works (s_ledger s) \<and> writer_ok W (s_ledger s) \<longrightarrow>
        disk_works (s_ledger s') \<and> writer_ok W (s_ledger s'))"

lemma append_entry_chained:
  assumes "disk_works w" "writer_ok L w" "append_entry L x w = (r, w')"
  shows "disk_works w' \<and> writer_ok L w'"
proof (cases r)
  case (Inr rec)
  then show ?thesis
    using append_entry_ok_writer assms append_entry_step [OF assms(3)]
    by (auto simp: disk_works_def writer_step_def)
next
  case (Inl err)
  have "entry_valid (w_session_id w) x \<Longrightarrow> False"
    using append_entry_succeeds [of w x L] assms Inl by auto
  then have "err \<noteq> LIo"
    using assms(3) Inl unfolding entry_valid_def find_reserved_None [symmetric]
    by (auto simp: append_entry_cases Let_def split: if_splits option.splits prod.splits sum.splits)
  with assms Inl have "w' = w" using append_entry_err(5) by blast
  with assms show ?thesis by simp
qed

interpretation chain_frame: state_frame "chained W" W for W
proof
  show "chained W s s" for s by (simp add: chained_def)
  show "chained W s t \<Longrightarrow> chained W t u \<Longrightarrow> chained W s u" for s t u by (auto simp: chained_def)
  show "append_entry W x (s_ledger s) = (r, w) \<Longrightarrow> chained W s (s\<lparr> s_ledger := w \<rparr>)" for x s r w
    unfolding chained_def using append_entry_chained [of "s_ledger s" W] by simp
qed (simp_all add: chained_def)

lemma booted_ledger:
  assumes "boot W cfg e = (Inr s, e')"
  shows "w_session_id (s_ledger s) = bc_session_id cfg \<and> s_session_id s = bc_session_id cfg \<and>
     w_schema_version (s_ledger s) = (case bc_ledger_schema cfg of None \<Rightarrow> V1 | Some v \<Rightarrow> v) \<and>
     (disk_works (s_ledger s) \<longrightarrow> writer_ok W (s_ledger s)) \<and>
     (\<exists>x. s_log s = [x] \<and> e_entry_type x = SessionStart)"
proof (rule boot_Inr [OF assms])
  fix start policy digests template svid w0 ts w now e1 e2
  assume s: "s = new_session W cfg start policy digests template svid w now"
    and a: "append_first W (first_entry W cfg svid digests template ts) w0 = Inr w"
    and o: "open_ledger W cfg e1 = (Inr w0, e2)"
  from o obtain io where "create_with_uuid_generator False io (bc_session_id cfg) (w_now_v7 W)
      (case bc_ledger_schema cfg of None \<Rightarrow> V1 | Some v \<Rightarrow> v) = Inr w0"
    by (auto simp: open_ledger_def tickA_def bindA_def liftA_def of_lib_def create_with_version_def
        create_with_uuid_generator_def split: sum.splits if_splits)
  note w0 = created_writer_ok [OF this]
  from a obtain r where r: "append_entry W (first_entry W cfg svid digests template ts) w0 = (Inr r, w)"
    by (auto simp: append_first_def split: prod.splits sum.splits)
  note ok = append_entry_ok [OF r]
  have "writer_ok W w" using append_entry_ok_writer [OF w0(1) r] .
  moreover have "s_ledger s = w" "s_session_id s = bc_session_id cfg" using s by (simp_all add: new_session_def)
  moreover have "e_entry_type (first_entry W cfg svid digests template ts) = SessionStart"
    by (simp add: first_entry_def)
  ultimately show ?thesis using ok(2,3) w0 by (simp add: same_writer_def)
qed

text \<open>The state of the writer in every session.\<close>

definition ledger_intact :: "'w world_scheme \<Rightarrow> session \<Rightarrow> bool" where
  "ledger_intact W s \<longleftrightarrow> w_session_id (s_ledger s) = s_session_id s \<and>
     (\<exists>x xs. s_log s = x # xs \<and> e_entry_type x = SessionStart) \<and>
     (disk_works (s_ledger s) \<longrightarrow> writer_ok W (s_ledger s))"

lemma disk_works_step: "writer_step w w' \<Longrightarrow> disk_works w' = disk_works w"
  by (simp add: writer_step_def disk_works_def)

interpretation both_frame: state_frame "\<lambda>s s'. chained W s s' \<and> config_step s s'" W for W
proof
  fix s t u :: session
  assume "chained W s t \<and> config_step s t" "chained W t u \<and> config_step t u"
  then show "chained W s u \<and> config_step s u"
    using chain_frame.step_trans config_order.step_trans by blast
qed (simp_all add: chain_frame.step_refl chain_frame.env chain_frame.updates chain_frame.appended
    config_step_updates config_logs_only logs_onlyI append_entry_step)

lemma reachable_ledger_intact: "reachable W s \<Longrightarrow> ledger_intact W s"
proof (erule both_frame.driver.reachable_invariant)
  fix s s' assume "chained W s s' \<and> config_step s s'" and i: "ledger_intact W s"
  then have c: "chained W s s'" and d: "config_step s s'" by blast+
  note f = config_fields [OF d]
  have "disk_works (s_ledger s') = disk_works (s_ledger s)" using disk_works_step f(10) .
  with c i f(4,10,11) show "ledger_intact W s'"
    by (auto simp: ledger_intact_def chained_def writer_step_def prefix_def)
qed (auto simp: ledger_intact_def attach_defs dest: booted_ledger)

lemma reachable_ledger_verifies:
  assumes "lib_laws W" and "reachable W s" and "disk_works (s_ledger s)" and "utf8_ok (s_session_id s)"
    and "\<forall>e \<in> set (s_log s). readable e" and "length (s_log s) < 2 ^ 64"
  shows "verify_reader W (\<lambda>_. False) (b_disk (w_file (s_ledger s))) = Inr
     \<lparr> vs_session_id = Some (s_session_id s), vs_entry_count = entry_count (s_ledger s),
       vs_root_hash_hex = hex_encode W (current_head (s_ledger s)),
       vs_first_timestamp = Some (e_timestamp (hd (s_log s))),
       vs_last_timestamp = Some (e_timestamp (last (s_log s))),
       vs_schema_version = Some (schema_version s) \<rparr>"
proof -
  note i = reachable_ledger_intact [OF assms(2), unfolded ledger_intact_def]
  then have "w_log (s_ledger s) \<noteq> []" "writer_ok W (s_ledger s)" "w_session_id (s_ledger s) = s_session_id s"
    using assms(3) by auto
  moreover have "\<forall>(uid, e) \<in> set (w_log (s_ledger s)). readable e" using assms(5) by fastforce
  moreover have "length (w_log (s_ledger s)) < 2 ^ 64" using assms(6) by simp
  ultimately show ?thesis
    using writer_file_verifies [OF assms(1), of "s_ledger s"] assms(4)
    by (simp add: schema_version_def hd_map last_map)
qed

section \<open>Property\<close>

text \<open>C2: Whatever a session did, its ledger verifies as long as its disk works and its entries can be read
  back. When no operation on the ledger file has failed, every entry has a representable timestamp and a payload
  of at most 127 nested arrays and objects, the session id is UTF-8 and there are fewer than \<open>2 ^ 64\<close> entries,
  then the file of a session, after any sequence of calls and runs with any outcome, is accepted by the
  verifier, which reports the session's id, its version, the number of entries and the root hash that
  closing the ledger would return. (An entry that nests deeper makes the file unverifiable; that is stated
  of the writer, as a bug.)\<close>

theorem session_ledger_verifies:
  assumes "lib_laws W" and "reachable W s" and "disk_works (s_ledger s)" and "utf8_ok (s_session_id s)"
    and "\<forall>e \<in> set (s_log s). readable e" and "length (s_log s) < 2 ^ 64"
  shows "verify_reader W (\<lambda>_. False) (b_disk (w_file (s_ledger s))) = Inr
     \<lparr> vs_session_id = Some (s_session_id s), vs_entry_count = entry_count (s_ledger s),
       vs_root_hash_hex = hex_encode W (current_head (s_ledger s)),
       vs_first_timestamp = Some (e_timestamp (hd (s_log s))),
       vs_last_timestamp = Some (e_timestamp (last (s_log s))),
       vs_schema_version = Some (schema_version s) \<rparr>"
  by (rule reachable_ledger_verifies [OF assms])

theorem session_ledger_verifies_witness:
  "\<exists>s a. reachable (demo_world empty_manifest) s \<and>
     verify_reader (demo_world empty_manifest) (\<lambda>_. False) (b_disk (w_file (s_ledger s))) = Inr a \<and>
     vs_session_id a = Some ''s1''"
proof -
  have "check_reserved (policy_from_manifest empty_manifest) = Inr ()" "m_extends empty_manifest = []"
    by (simp_all add: check_reserved_def policy_from_manifest_def empty_manifest_def)
  from demo_boot [OF this, of V2] obtain s x where s: "demo_session empty_manifest V2 s" and x: "s_log s = [x]" "readable x"
    by auto
  have d: "reachable (demo_world empty_manifest) s" "disk_works (s_ledger s)" "s_session_id s = ''s1''"
    using s by (simp_all add: demo_session_def live_def)
  have "utf8_ok (s_session_id s)" by (simp add: d(3))
  have "\<forall>e \<in> set (s_log s). readable e" "length (s_log s) < 2 ^ 64" using x by simp_all
  with session_ledger_verifies [OF demo_world_laws d(1,2)] d show ?thesis
    by (intro exI [of _ s]) (auto simp: d(3))
qed

end
