(* ===== verification/Outcomes.thy ===== *)
theory Outcomes
  imports SessionLedger
begin

text \<open>
  What a mediated call has done when it returns: a call that succeeds has performed its effect once and
  ends with its Access entry, a refused call has had no effect and has left a record, and a call on
  changed artifacts is stopped before anything else.
\<close>

section \<open>Rebind\<close>

definition attested :: "'w world_scheme \<Rightarrow> session \<Rightarrow> bool" where
  "attested W s \<longleftrightarrow> extract_digest_triple_from_pem (w_x509 W) (s_svid_cert_pem s) = Inr (s_bound_digests s)"

lemma self_check_Inr: "self_check r = Inr u \<longleftrightarrow> r = Inr None"
  by (auto simp: self_check_def of_lib_def split: sum.splits option.splits)

lemma boot_attested:
  assumes "boot W cfg e = (Inr s, e')"
  shows "attested W s"
proof -
  obtain start policy digests template svid w now e1 e2 ca where
    s: "s = new_session W cfg start policy digests template svid w now"
    and i: "issue_session_svid W cfg ca digests template e1 = (Inr svid, e2)"
    using assms by (auto simp: boot_def bindA_eq_ok getA_def okA_def liftA_def)
  from i have "verify_digest_binding (w_x509 W) (sv_cert_pem svid) digests = Inr None"
    by (auto simp: issue_session_svid_def bindA_eq_ok liftA_def self_check_Inr okA_def)
  then have "extract_digest_triple_from_pem (w_x509 W) (sv_cert_pem svid) = Inr digests"
    using verify_digest_binding_None
    by (cases "extract_digest_triple_from_pem (w_x509 W) (sv_cert_pem svid)") (auto simp: verify_digest_binding_def)
  with s show ?thesis by (simp add: attested_def new_session_def)
qed

lemma reachable_attested: "reachable W s \<Longrightarrow> attested W s"
  by (erule config_frame.reachable_invariant)
     (auto simp: boot_attested [unfolded attested_def] attested_def config_fields attach_defs)

lemma compute_digests_Inl: "compute_digests W a b c e = (Inl x, e') \<Longrightarrow> x = EngIo"
  by (auto simp: compute_digests_def sha256_file_def sha256_config_def bindA_eq_err errA_def okA_def
      read_fileA_def tickA_def getA_def bindA_eq_ok split: option.splits)

lemma live_digests_step:
  assumes "compute_live_digests W s = (r, s1)"
  shows "logs_only s s1" and "s_ledger s1 = s_ledger s" and "r = Inl x \<Longrightarrow> x = EngIo"
proof -
  from assms obtain e where e: "s1 = s\<lparr> s_env := e \<rparr>" and
    d: "compute_digests W (s_model_path s) (s_manifest_path s) (s_config_path s) (s_env s) = (r, e)"
    by (auto simp: compute_live_digests_def bindA_getA zoomA_eq)
  show "logs_only s s1" "s_ledger s1 = s_ledger s" using e logs_onlyI(2) by simp_all
  show "r = Inl x \<Longrightarrow> x = EngIo" using d compute_digests_Inl by blast
qed

lemma check_binding_cases:
  assumes "extract_digest_triple_from_pem X pem = Inr bound"
    and "check_identity_binding L X idh pem now ts w = (r, w')"
  shows "now = bound \<and> r = Inr () \<and> w' = w \<or>
     now \<noteq> bound \<and> (\<exists>m. dm_bound m \<noteq> dm_live m \<and>
       (r = Inl (PolIdentityRebind m) \<and> (\<exists>e. entries w' = entries w @ [e] \<and> e_entry_type e = Violation) \<or>
        (\<exists>l. r = Inl (PolLedger l)) \<and> entries w' = entries w))"
proof (cases "now = bound")
  case True
  with assms verify_digest_binding_None [OF assms(1), of now] show ?thesis
    by (simp add: check_identity_binding_def okA_def)
next
  case False
  with assms(1) obtain m where m: "verify_digest_binding X pem now = Inr (Some m)" "dm_bound m \<noteq> dm_live m"
    using verify_digest_binding_None [OF assms(1), of now] by (auto simp: verify_digest_binding_def split: if_splits)
  obtain r1 w1 where e: "emit_violation L idh (rebind_event L m ts) w = (r1, w1)" by fastforce
  with assms(2) m have r: "w1 = w'" "r = (case r1 of Inl x \<Rightarrow> Inl x | Inr _ \<Rightarrow> Inl (PolIdentityRebind m))"
    by (auto simp: check_identity_binding_def bindA_def errA_def split: sum.splits)
  show ?thesis
  proof (cases r1)
    case (Inl x)
    with e r(1) obtain l where "x = PolLedger l" "entries w' = entries w"
      by (auto simp: emit_violation_def act_simps act_results dest: append_entry_err(1))
    with Inl r(2) False m show ?thesis by auto
  next
    case (Inr rec)
    with emit_violation_Inr e r(1) have "append_entry L (writer_entry w Violation idh ts
        (violation_fields (rebind_event L m ts))) w = (Inr rec, w')" by (fastforce simp: rebind_event_def)
    from append_entry_ok(2) [OF this] Inr r(2) False m show ?thesis by (auto simp: writer_entry_def)
  qed
qed

text \<open>The outcomes of the check at the head of every call.\<close>

lemma rebind_outcome:
  assumes "attested W s" and "rebind W s = (r, s')"
  shows "case r of
        Inr _ \<Rightarrow> fst (compute_live_digests W s) = Inr (s_bound_digests s) \<and> s_log s' = s_log s
      | Inl x \<Rightarrow> fst (compute_live_digests W s) \<noteq> Inr (s_bound_digests s) \<and>
          (x = EngIo \<and> s_log s' = s_log s \<or> ledger_failure x \<and> s_log s' = s_log s \<or>
           (\<exists>m e. x = EngPolicy (PolIdentityRebind m) \<and> dm_bound m \<noteq> dm_live m \<and>
              s_log s' = s_log s @ [e] \<and> e_entry_type e = Violation))"
proof -
  obtain r1 s1 where 1: "compute_live_digests W s = (r1, s1)" by fastforce
  note st = live_digests_step [OF 1]
  show ?thesis
  proof (cases r1)
    case (Inl x)
    with assms(2) 1 st show ?thesis by (auto simp: rebind_def bindA_err)
  next
    case (Inr now)
    note f = logs_only_fields [OF st(1)]
    define ts where "ts = w_utc_now W (en_tick (s_env s1))"
    obtain r2 w2 where c: "check_identity_binding W (w_x509 W) (s_agent_identity_hash s1) (s_svid_cert_pem s) now ts
        (s_ledger s1) = (r2, w2)" by fastforce
    with assms(2) 1 Inr f have r: "r = (case r2 of Inl e \<Rightarrow> Inl (EngPolicy e) | Inr u \<Rightarrow> Inr u)"
      "s' = (ticked s1)\<lparr> s_ledger := w2 \<rparr>"
      by (auto simp: rebind_def bindA_ok bindA_getA bindA_tick mapErrA_def zoomA_def ts_def split: sum.splits)
    from check_binding_cases [OF assms(1) [unfolded attested_def] c] show ?thesis
      using r 1 Inr st(2) by (auto split: sum.splits)
  qed
qed

lemma check_binding_works:
  assumes "disk_works w"
  shows "check_identity_binding L X idh pem now ts w \<noteq> (Inl (PolLedger l), w')"
proof -
  have "\<exists>rec w2. emit_violation L idh (rebind_event L m ts) w = (Inr rec, w2)" for m
    using emit_violation_succeeds [OF assms] by blast
  note ok = this
  show ?thesis
  proof (cases "verify_digest_binding X pem now")
    case (Inr found)
    then show ?thesis
    proof (cases found)
      case (Some m)
      from ok [of m] obtain rec w2 where "emit_violation L idh (rebind_event L m ts) w = (Inr rec, w2)" by blast
      with Inr Some show ?thesis by (simp add: check_identity_binding_def bindA_ok errA_def)
    qed (simp add: check_identity_binding_def okA_def)
  qed (simp add: check_identity_binding_def errA_def)
qed

lemma rebind_live:
  assumes "live s" and "rebind W s = (Inl x, s')"
  shows "\<not> ledger_failure x"
proof -
  obtain r1 s1 where 1: "compute_live_digests W s = (r1, s1)" by fastforce
  note st = live_digests_step [OF 1]
  have "disk_works (s_ledger s1)" using assms(1) st(2) by (simp add: live_def)
  note ok = check_binding_works [OF this]
  from assms(2) 1 st(3) show ?thesis
    by (cases r1) (auto simp: ok rebind_def bindA_err bindA_ok bindA_getA bindA_tick ledger_failure_def act_results zoomA_eq)
qed

lemma rebind_first:
  assumes "rebind W s = (Inl x, s')"
  shows "mediate_filesystem_read W path rsid s = (Inl x, s')"
    "mediate_filesystem_write W path contents rsid s = (Inl x, s')"
    "mediate_filesystem_delete W path rsid s = (Inl x, s')"
    "mediate_exec W path eargs rsid s = (Inl x, s')"
    "mediate_network_connect W host port proto rsid s = (Inl x, s')"
    "mediate_mcp_tool_call W server tool v rsid s = (Inl x, s')"
  unfolding mediate_filesystem_read_def mediate_filesystem_write_def mediate_filesystem_delete_def
    mediate_exec_def mediate_network_connect_def mediate_mcp_tool_call_def
  using assms by (simp_all add: bindA_err)


text \<open>An agent that may write its own manifest and does so is stopped at its next call.\<close>

lemma demo_self_overwrite:
  obtains s where "reachable (demo_world demo_writer_manifest) s" "live s"
    "fst (compute_live_digests (demo_world demo_writer_manifest) s) \<noteq> Inr (s_bound_digests s)"
proof -
  let ?W = "demo_world demo_writer_manifest"
  have "check_reserved (policy_from_manifest demo_writer_manifest) = Inr ()" "m_extends demo_writer_manifest = []"
    by (simp_all add: check_reserved_def policy_from_manifest_def demo_writer_manifest_def empty_manifest_def)
  from demo_boot [OF this, of V2] obtain s where s: "demo_session demo_writer_manifest V2 s"
    "s_aggregate_state s = aggregate_new" by auto
  from demo_overwrite [OF this] obtain s' where w: "mediate_filesystem_write ?W ''manifest'' ''x'' None s = (Inr (), s')"
    and s': "live s'" "en_fs (s_env s') = demo_fs(''manifest'' \<mapsto> ''x'')" "config_step s s'" by blast
  have r: "reachable ?W s'"
    using s(1) w by (intro reachable.by_write [OF _ w]) (simp add: demo_session_def)
  have "s_bound_digests s' = demo_triple" "s_model_path s' = ''model''" "s_manifest_path s' = ''manifest''"
    "s_config_path s' = None"
    using s(1) s'(3) by (auto simp: demo_session_def config_step_def)
  moreover have "sha0 ''x'' \<noteq> sha0 []" by (simp add: sha0_def) (auto intro: exI [of _ 0])
  ultimately have "fst (compute_live_digests ?W s') \<noteq> Inr (s_bound_digests s')"
    using s'(2)
    by (simp add: compute_live_digests_def bindA_getA zoomA_def compute_digests_def sha256_file_def
        sha256_config_def read_fileA_def tickA_def okA_def bindA_def getA_def demo_fs_def demo_triple_def)
  with r s'(1) show thesis using that by blast
qed


section \<open>Calls that succeed\<close>

definition recorded :: "effect \<Rightarrow> AccessType \<Rightarrow> string \<Rightarrow> session \<Rightarrow> session \<Rightarrow> bool" where
  "recorded f ty uri s s' \<longleftrightarrow>
     (\<exists>log e. prefix (s_log s) log \<and> s_effects s' = s_effects s @ [(f, log)] \<and> s_log s' = log @ [e] \<and>
        e_entry_type e = Access \<and> e_session_id e = w_session_id (s_ledger s) \<and>
        fmlookup (e_payload e) ''resourceUri'' = Some (JString uri) \<and>
        fmlookup (e_payload e) ''accessType'' = Some (JString (access_type_name ty)))"

text \<open>The call that leaves the process, whatever comes of it.\<close>

definition performed :: "effect \<Rightarrow> session \<Rightarrow> session \<Rightarrow> bool" where
  "performed f s s' \<longleftrightarrow> s_effects s' = s_effects s @ [(f, s_log s)] \<and> s_ledger s' = s_ledger s \<and>
     s_network_log s' = s_network_log s \<and> live s' = live s"

lemma calls_perform:
  "do_read W path s = (r1, s1) \<Longrightarrow> performed (EffRead path) s s1"
  "do_write W path b s = (r2, s2) \<Longrightarrow> performed (EffWrite path b) s s2"
  "do_delete W path s = (r3, s3) \<Longrightarrow> performed (EffDelete path) s s3"
  "do_connect W host port s = (r4, s4) \<Longrightarrow> performed (EffConnect host port) s s4"
  "do_exec W path args s = (r5, s5) \<Longrightarrow> performed (EffExec path args) s s5"
  "do_mcp_call client uri tool v s = (r6, s6) \<Longrightarrow> performed (EffMcp uri tool v) s s6"
  unfolding do_read_def do_write_def do_delete_def do_connect_def do_exec_def do_mcp_call_def
    record_effect_def bindA_modA performed_def live_def
  by (auto simp: bindA_def zoomA_def okA_def errA_def split: prod.splits sum.splits if_splits option.splits)

lemma access_kvs_lookup:
  "fmlookup (fmap_of_list (rev (access_kvs uri ty n rsid))) ''resourceUri'' = Some (JString uri)"
  "fmlookup (fmap_of_list (rev (access_kvs uri ty n rsid))) ''accessType'' = Some (JString (access_type_name ty))"
  by (simp_all add: access_kvs_def access_fields_def fmlookup_of_list opt_field_def opt_list_def split: option.splits)

lemma performed_recorded:
  assumes "performed f s s1" and "emit_success W uri ty n rsid s1 = (Inr u, s2)" and "uri \<noteq> []"
  shows "recorded f ty uri s s2"
proof -
  from appends_Inr [OF appends_emit_success [OF assms(3)] assms(2)] obtain e where
    "logs_only s1 s2" "s_log s2 = s_log s1 @ [e]" "entry_is Access (access_kvs uri ty n rsid) s1 e" by blast
  with assms(1) logs_only_fields(5) [of s1 s2] show ?thesis
    by (auto simp: recorded_def performed_def entry_is_def access_kvs_lookup)
qed

text \<open>Everything before the call.\<close>

definition prepared :: "session \<Rightarrow> session \<Rightarrow> bool" where
  "prepared s s' \<longleftrightarrow> s_effects s' = s_effects s \<and> prefix (s_log s) (s_log s') \<and>
     w_session_id (s_ledger s') = w_session_id (s_ledger s)"

interpretation prepared_order: step_order prepared
  by unfold_locales (auto simp: prepared_def)

lemma prepared_steps:
  "logs_only s s' \<Longrightarrow> prepared s s'" "gate_step s s' \<Longrightarrow> prepared s s'"
  using logs_only_fields(5,15,16) [of s s'] gate_fields(5,10,11) [of s s']
  by (auto simp: prepared_def writer_step_def)

lemma prepared_recorded: "prepared s s1 \<Longrightarrow> recorded f ty uri s1 s2 \<Longrightarrow> recorded f ty uri s s2"
  unfolding prepared_def recorded_def by (metis prefix_order.trans)

lemma prepared_then:
  assumes "moves logs_only m" and "bindA m f s = (Inr v, s')"
  obtains x s1 where "prepared s s1" and "m s = (Inr x, s1)" and "f x s1 = (Inr v, s')"
  using assms(2) prepared_steps(1) movesD [OF assms(1)] by (auto simp: bindA_eq_ok)

lemma gated_Inr:
  assumes "gated W d uri kind rsid c tool args call s = (Inr v, s')"
  obtains s1 where "prepared s s1" and "call s1 = (Inr v, s')"
proof -
  from assms obtain d' s2 where r: "route_through_approval W d uri kind rsid c tool args s = (Inr d', s2)"
    and o: "on_decision W d' uri kind (bindA (enforce_aggregate_quota W c uri kind) (\<lambda>_. call)) s2 = (Inr v, s')"
    by (auto simp: gated_def bindA_eq_ok)
  from o obtain u s3 where e: "enforce_aggregate_quota W c uri kind s2 = (Inr u, s3)" "call s3 = (Inr v, s')"
    by (cases d') (auto simp: on_decision_def bindA_eq_ok errA_def)
  have "prepared s s2" using prepared_steps(2) movesD [OF route_moves r] .
  moreover have "prepared s2 s3" using enforce_Inr [OF e(1)] by (auto simp: prepared_def)
  ultimately have "prepared s s3" by (rule prepared_order.step_trans)
  then show thesis using that e(2) by blast
qed

lemma uri_nonempty: "exec_uri p \<noteq> []" "network_uri host port proto \<noteq> []" "mcp_uri server tool \<noteq> []"
  by (simp_all add: exec_uri_def network_uri_def mcp_uri_def)

lemma read_recorded:
  assumes "mediate_filesystem_read W path rsid s = (Inr b, s')"
  shows "\<exists>uri. suffix path uri \<and> recorded (EffRead path) AccRead uri s s'"
proof (rule prepared_then [OF rebind_moves assms [unfolded mediate_filesystem_read_def]], unfold bindA_getA,
    erule prepared_then [OF file_uri_moves], erule gated_Inr, goal_cases)
  case (1 u s1 uri s2 s3)
  from 1(6) have "recorded (EffRead path) AccRead uri s3 s'"
    using performed_recorded [OF calls_perform(1)] file_uri_suffix [OF 1(4)] by (auto simp: bindA_eq_ok okA_def)
  with 1 file_uri_suffix [OF 1(4)] show ?case by (blast intro: prepared_recorded)
qed

lemma write_recorded:
  assumes "mediate_filesystem_write W path b rsid s = (Inr u, s')"
  shows "\<exists>uri. suffix path uri \<and> recorded (EffWrite path b) AccWrite uri s s'"
proof (rule prepared_then [OF rebind_moves assms [unfolded mediate_filesystem_write_def]],
    erule prepared_then [OF utc_now_moves], unfold bindA_getA, erule prepared_then [OF log_order.lift],
    erule prepared_then [OF file_uri_moves], erule gated_Inr, goal_cases)
  case (1 u s1 now s2 d s3 uri s4 s5)
  from 1(10) have "recorded (EffWrite path b) AccWrite uri s5 s'"
    using performed_recorded [OF calls_perform(2)] file_uri_suffix [OF 1(8)] by (auto simp: bindA_eq_ok okA_def)
  with 1 file_uri_suffix [OF 1(8)] show ?case by (blast intro: prepared_recorded)
qed

lemma delete_recorded:
  assumes "mediate_filesystem_delete W path rsid s = (Inr u, s')"
  shows "\<exists>uri. suffix path uri \<and> recorded (EffDelete path) AccDelete uri s s'"
proof (rule prepared_then [OF rebind_moves assms [unfolded mediate_filesystem_delete_def]],
    erule prepared_then [OF utc_now_moves], unfold bindA_getA, erule prepared_then [OF log_order.lift],
    erule prepared_then [OF file_uri_moves], erule gated_Inr, goal_cases)
  case (1 u s1 now s2 d s3 uri s4 s5)
  from 1(10) have "recorded (EffDelete path) AccDelete uri s5 s'"
    using performed_recorded [OF calls_perform(3)] file_uri_suffix [OF 1(8)] by (auto simp: bindA_eq_ok okA_def)
  with 1 file_uri_suffix [OF 1(8)] show ?case by (blast intro: prepared_recorded)
qed

lemma exec_recorded:
  assumes "mediate_exec W program args rsid s = (Inr out, s')"
  shows "recorded (EffExec program args) AccExec (exec_uri program) s s'"
proof (rule prepared_then [OF rebind_moves assms [unfolded mediate_exec_def]], unfold bindA_getA,
    erule gated_Inr, goal_cases)
  case (1 u s1 s2)
  from 1(4) have "recorded (EffExec program args) AccExec (exec_uri program) s2 s'"
    by (auto simp: bindA_eq_ok okA_def) (rule performed_recorded [OF calls_perform(5)], assumption+, rule uri_nonempty)
  with 1 show ?case by (blast intro: prepared_recorded)
qed

lemma log_connection_ledger:
  "log_connection W host port proto kind s = (r, s') \<Longrightarrow> s_effects s' = s_effects s \<and> s_log s' = s_log s"
  by (auto simp: log_connection_def bindA_tick modA_def)

lemma recorded_same: "recorded f ty uri s s1 \<Longrightarrow> s_effects s' = s_effects s1 \<Longrightarrow> s_log s' = s_log s1 \<Longrightarrow> recorded f ty uri s s'"
  by (auto simp: recorded_def)

lemma connect_recorded:
  assumes "mediate_network_connect W host port proto rsid s = (Inr u, s')"
  shows "recorded (EffConnect host port) AccNetworkOutbound (network_uri host port proto) s s'"
proof (rule prepared_then [OF rebind_moves assms [unfolded mediate_network_connect_def]], unfold bindA_getA, goal_cases)
  case (1 v s1)
  let ?d = "check_network_outbound (s_policy s1) host port proto"
  obtain r2 s2 where r: "route_through_approval W ?d (network_uri host port proto) ''network_outbound'' rsid ClassNetwork
      ''network__connect'' (network_args host port proto) s1 = (r2, s2)" by fastforce
  with 1(3) obtain d where "r2 = Inr d" and c: "connect_on_decision W host port proto rsid (is_approval ?d) d s2 = (Inr u, s')"
    by (cases r2) (auto simp: bindA_tryA bindA_eq_ok errA_def)
  then have d: "d = Allow" by (cases d) (auto simp: connect_on_decision_def bindA_eq_ok errA_def)
  have p: "prepared s s2"
    using prepared_order.step_trans [OF 1(1) prepared_steps(2) [OF movesD [OF route_moves r]]] .
  define k where "k = (if is_approval ?d then ConnApproved else ConnAllowed)"
  from c d obtain s3 s4 where 3: "do_connect W host port s2 = (Inr (), s3)"
    "emit_success W (network_uri host port proto) AccNetworkOutbound 0 rsid s3 = (Inr (), s4)"
    "log_connection W host port proto k s4 = (Inr u :: engine_error + unit, s')"
    by (auto simp: connect_on_decision_def bindA_eq_ok k_def [symmetric])
  have "recorded (EffConnect host port) AccNetworkOutbound (network_uri host port proto) s2 s4"
    by (rule performed_recorded [OF calls_perform(4) [OF 3(1)] 3(2)]) (rule uri_nonempty)
  from recorded_same [OF prepared_recorded [OF p this]] log_connection_ledger [OF 3(3)] show ?case by simp
qed

lemma mcp_recorded:
  assumes "mediate_mcp_tool_call W server tool args rsid s = (Inr v, s')"
  shows "\<exists>server_uri. recorded (EffMcp server_uri tool args) AccMcpToolCall (mcp_uri server tool) s s'"
proof (rule prepared_then [OF rebind_moves assms [unfolded mediate_mcp_tool_call_def]], unfold bindA_getA, goal_cases)
  case (1 u s1)
  let ?p = "s_policy s1"
  from 1(3) obtain g where g: "find_mcp_server ?p server = Some g"
    and f: "bindA (run_mcp_pre_validate W server tool args (tool_clauses g tool)) (\<lambda>_.
       bindA (enforce_aggregate_quota W (ClassMcp server) (mcp_uri server tool) ''mcp_tool_call'') (\<lambda>_.
       call_mcp_client W (mcp_uri server tool) (mcp_server_uri g) tool args rsid)) s1 = (Inr v, s')"
    by (cases "check_mcp_tool W ?p server tool"; cases "find_mcp_server ?p server")
      (auto simp: on_decision_def bindA_eq_ok errA_def Let_def)
  from prepared_then [OF run_mcp_pre_validate_moves f] obtain s2 where 2: "prepared s1 s2"
    "bindA (enforce_aggregate_quota W (ClassMcp server) (mcp_uri server tool) ''mcp_tool_call'') (\<lambda>_.
       call_mcp_client W (mcp_uri server tool) (mcp_server_uri g) tool args rsid) s2 = (Inr v, s')" by metis
  then obtain s3 where 3: "enforce_aggregate_quota W (ClassMcp server) (mcp_uri server tool) ''mcp_tool_call'' s2 = (Inr (), s3)"
    and c: "call_mcp_client W (mcp_uri server tool) (mcp_server_uri g) tool args rsid s3 = (Inr v, s')"
    by (auto simp: bindA_eq_ok)
  have "prepared s2 s3" using enforce_Inr [OF 3] by (auto simp: prepared_def)
  then have p: "prepared s s3" using 1(1) 2(1) prepared_order.step_trans by blast
  from c obtain client s4 s5 where "do_mcp_call client (mcp_server_uri g) tool args s3 = (Inr v, s4)"
    "emit_success W (mcp_uri server tool) AccMcpToolCall (of_nat (length (json_to_string W v))) rsid s4 = (Inr (), s5)" "s' = s5"
    by (cases "s_mcp_client s3") (auto simp: call_mcp_client_def bindA_getA bindA_eq_ok errA_def okA_def Let_def)
  with performed_recorded [OF calls_perform(6)] uri_nonempty(3) p show ?case by (blast intro: prepared_recorded)
qed

text \<open>C6: A call that succeeds happened exactly once and is on record. When a mediated call returns
  success, its effect (and no other) has been performed, and the last entry of the ledger is its
  Access entry, with the resource and the kind of access, written after the effect; whatever approval
  entries the call needed stand before the effect.\<close>

theorem success_is_recorded:
  "(\<forall>b s'. mediate_filesystem_read W path rsid s = (Inr b, s') \<longrightarrow>
      (\<exists>uri. suffix path uri \<and> recorded (EffRead path) AccRead uri s s')) \<and>
   (\<forall>u s'. mediate_filesystem_write W path contents rsid s = (Inr u, s') \<longrightarrow>
      (\<exists>uri. suffix path uri \<and> recorded (EffWrite path contents) AccWrite uri s s')) \<and>
   (\<forall>u s'. mediate_filesystem_delete W path rsid s = (Inr u, s') \<longrightarrow>
      (\<exists>uri. suffix path uri \<and> recorded (EffDelete path) AccDelete uri s s')) \<and>
   (\<forall>out s'. mediate_exec W program args rsid s = (Inr out, s') \<longrightarrow>
      recorded (EffExec program args) AccExec (exec_uri program) s s') \<and>
   (\<forall>u s'. mediate_network_connect W host port proto rsid s = (Inr u, s') \<longrightarrow>
      recorded (EffConnect host port) AccNetworkOutbound (network_uri host port proto) s s') \<and>
   (\<forall>v s'. mediate_mcp_tool_call W server tool targs rsid s = (Inr v, s') \<longrightarrow>
      (\<exists>server_uri. recorded (EffMcp server_uri tool targs) AccMcpToolCall (mcp_uri server tool) s s'))"
  by (intro conjI allI impI) (rule read_recorded write_recorded delete_recorded exec_recorded connect_recorded
      mcp_recorded, assumption)+

lemma demo_writes:
  obtains s s' where "reachable (demo_world demo_writer_manifest) s" "live s" "s_effects s = []"
    "mediate_filesystem_write (demo_world demo_writer_manifest) ''manifest'' ''x'' None s = (Inr (), s')"
proof -
  have "check_reserved (policy_from_manifest demo_writer_manifest) = Inr ()" "m_extends demo_writer_manifest = []"
    by (simp_all add: check_reserved_def policy_from_manifest_def demo_writer_manifest_def empty_manifest_def)
  from demo_boot [OF this, of V2] obtain s where s: "demo_session demo_writer_manifest V2 s"
    "s_aggregate_state s = aggregate_new" "s_effects s = []" by auto
  from demo_overwrite [OF this(1,2)] s that show thesis by (auto simp: demo_session_def)
qed

theorem success_is_recorded_witness:
  "\<exists>s s' uri. mediate_filesystem_write (demo_world demo_writer_manifest) ''manifest'' ''x'' None s = (Inr (), s') \<and>
     recorded (EffWrite ''manifest'' ''x'') AccWrite uri s s'"
proof -
  obtain s s' where w: "mediate_filesystem_write (demo_world demo_writer_manifest) ''manifest'' ''x'' None s = (Inr (), s')"
    by (rule demo_writes)
  with success_is_recorded [THEN conjunct2, THEN conjunct1, rule_format, OF w] show ?thesis by blast
qed

section \<open>Complete mediation\<close>

text \<open>C1: Complete mediation. In every session that boot, the driver and the mediated calls can reach,
  whatever the model, the operator, the MCP servers and the environment answered, each call that left
  the process was authorised when it happened: the policy the session was booted with allows it, or
  asks for approval and the ledger of that moment already holds the approval of that tool on that
  resource; an MCP call moreover went to the server of the first entry of its name, with every
  argument its clauses name admitted by the same policy.\<close>

theorem complete_mediation:
  assumes "reachable W s" and "(f, log) \<in> set (s_effects s)"
  shows "authorised W (s_policy s) (s_session_start s) (f, log)"
  using reachable_sound [OF assms(1)] assms(2) by (simp add: sound_def)

theorem complete_mediation_witness:
  "\<exists>s log. reachable (demo_world demo_writer_manifest) s \<and> s_effects s = [(EffWrite ''manifest'' ''x'', log)] \<and>
     authorised (demo_world demo_writer_manifest) (s_policy s) (s_session_start s) (EffWrite ''manifest'' ''x'', log)"
proof -
  obtain s s' where s: "reachable (demo_world demo_writer_manifest) s" "s_effects s = []"
    and w: "mediate_filesystem_write (demo_world demo_writer_manifest) ''manifest'' ''x'' None s = (Inr (), s')"
    by (rule demo_writes)
  then have r: "reachable (demo_world demo_writer_manifest) s'" by (blast intro: reachable.by_write)
  from write_recorded [OF w] s(2) obtain log where l: "s_effects s' = [(EffWrite ''manifest'' ''x'', log)]"
    by (auto simp: recorded_def)
  then have "(EffWrite ''manifest'' ''x'', log) \<in> set (s_effects s')" by simp
  from complete_mediation [OF r this] r l show ?thesis by blast
qed

end
