(* ===== verification/Refusals.thy ===== *)
theory Refusals
  imports Outcomes
begin

text \<open>
  What a refused call has left behind: no effect, and, when the answer is a denial, a ledger that has
  grown.
\<close>

section \<open>Calls that are refused\<close>

definition refusal :: "engine_error \<Rightarrow> bool" where
  "refusal x \<longleftrightarrow> (\<exists>r. x = EngDenied r \<or> x = EngRequireApproval r)"

lemma refusal_simps [simp]:
  "refusal (EngDenied r)" "refusal (EngRequireApproval r)" "\<not> refusal EngIo" "\<not> refusal EngPanic"
  "\<not> refusal (EngPolicy p)" "\<not> refusal (EngLedger l)" "\<not> refusal (EngAccessLog a)"
  by (simp_all add: refusal_def)

lemma ledger_failure_no_refusal: "ledger_failure x \<Longrightarrow> \<not> refusal x"
  by (auto simp: ledger_failure_def)

text \<open>An action that answers a refusal only before any effect, and a denial only with a new entry.\<close>

definition refuses_safely :: "(session, engine_error, 'a) act \<Rightarrow> bool" where
  "refuses_safely m \<longleftrightarrow> (\<forall>s x s'. m s = (Inl x, s') \<and> refusal x \<longrightarrow>
     prepared s s' \<and> (\<forall>r. x = EngDenied r \<longrightarrow> strict_prefix (s_log s) (s_log s')))"

definition never_refuses :: "(session, engine_error, 'a) act \<Rightarrow> bool" where
  "never_refuses m \<longleftrightarrow> (\<forall>s x s'. m s = (Inl x, s') \<longrightarrow> \<not> refusal x)"

lemma never_refuses_safely: "never_refuses m \<Longrightarrow> refuses_safely m"
  by (auto simp: never_refuses_def refuses_safely_def)

lemma never_refuses_bind:
  "never_refuses m \<Longrightarrow> (\<And>x. never_refuses (f x)) \<Longrightarrow> never_refuses (bindA m f)"
  unfolding never_refuses_def bindA_eq_err by blast

lemma refuses_bind:
  assumes "refuses_safely m" and "moves prepared m" and "\<And>x. refuses_safely (f x)"
  shows "refuses_safely (bindA m f)"
  unfolding refuses_safely_def
proof (intro allI impI, elim conjE)
  fix s x s' assume b: "bindA m f s = (Inl x, s')" and r: "refusal x"
  then consider "m s = (Inl x, s')" | y s1 where "m s = (Inr y, s1)" "f y s1 = (Inl x, s')"
    by (auto simp: bindA_eq_err)
  then show "prepared s s' \<and> (\<forall>r. x = EngDenied r \<longrightarrow> strict_prefix (s_log s) (s_log s'))"
  proof cases
    case 1
    with assms(1) r show ?thesis by (auto simp: refuses_safely_def)
  next
    case 2
    from movesD [OF assms(2) 2(1)] have p: "prepared s s1" .
    from assms(3) 2(2) r have q: "prepared s1 s'" "\<forall>r. x = EngDenied r \<longrightarrow> strict_prefix (s_log s1) (s_log s')"
      by (auto simp: refuses_safely_def)
    from p have "prefix (s_log s) (s_log s1)" by (simp add: prepared_def)
    with q(2) have "\<forall>r. x = EngDenied r \<longrightarrow> strict_prefix (s_log s) (s_log s')"
      using prefix_order.le_less_trans by blast
    with prepared_order.step_trans [OF p q(1)] show ?thesis by blast
  qed
qed

lemma never_refuses_basics:
  "never_refuses (okA x)" "never_refuses (getA g)" "never_refuses (on_env (tickA f))" "never_refuses (utc_now W)"
  "\<not> refusal e \<Longrightarrow> never_refuses (errA e)" "never_refuses (liftA (of_panic y))"
  "never_refuses (modA h)" "never_refuses (record_effect ef)"
  "never_refuses (log_connection W host port proto kind)"
  by (auto simp: never_refuses_def okA_def getA_def tick_apply errA_def liftA_def of_panic_def of_option_def modA_def
      record_effect_def log_connection_def bindA_tick split: option.splits)

lemma never_refuses_file_uri: "never_refuses (file_uri W path)"
  unfolding file_uri_def by (auto intro!: never_refuses_bind never_refuses_basics split: if_splits)

lemma never_refuses_rebind: "never_refuses (rebind W)"
  unfolding never_refuses_def
proof (intro allI impI)
  fix s x s' assume r: "rebind W s = (Inl x, s')"
  obtain r1 s1 where 1: "compute_live_digests W s = (r1, s1)" by fastforce
  with live_digests_step(3) [OF 1] r show "\<not> refusal x"
    by (cases r1) (auto simp: rebind_def bindA_err bindA_ok bindA_getA bindA_tick act_results)
qed

lemma never_refuses_success: "uri \<noteq> [] \<Longrightarrow> never_refuses (emit_success W uri ty n rsid)"
  unfolding never_refuses_def using appends_Inl [OF appends_emit_success] ledger_failure_no_refusal by blast

lemma never_refuses_calls:
  "never_refuses (do_read W path)" "never_refuses (do_write W path b)" "never_refuses (do_delete W path)"
  "never_refuses (do_connect W host port)" "never_refuses (do_exec W path args)"
  by (auto simp: never_refuses_def do_read_def do_write_def do_delete_def do_connect_def do_exec_def
      record_effect_def modA_def bindA_def zoomA_def okA_def errA_def read_fileA_def change_fsA_def tickA_def getA_def
      split: prod.splits sum.splits if_splits option.splits)

lemma strict_prefix_snoc [simp]: "strict_prefix xs (xs @ [x])"
  by (simp add: strict_prefix_def)

lemma deny_refuses: "refuses_safely (bindA (emit_deny W uri kind reason) (\<lambda>_. errA (EngDenied reason)))"
  unfolding refuses_safely_def
proof (intro allI impI, elim conjE)
  fix s x s'
  assume b: "bindA (emit_deny W uri kind reason) (\<lambda>_. errA (EngDenied reason)) s = (Inl x, s' :: session)"
    and r: "refusal x"
  from b consider "emit_deny W uri kind reason s = (Inl x, s')"
    | u where "emit_deny W uri kind reason s = (Inr u, s')" by (auto simp: bindA_eq_err errA_def)
  then show "prepared s s' \<and> (\<forall>r. x = EngDenied r \<longrightarrow> strict_prefix (s_log s) (s_log s'))"
  proof cases
    case 1
    then show ?thesis using appends_Inl [OF appends_emit_deny 1] ledger_failure_no_refusal r by blast
  next
    case 2
    then show ?thesis using appends_Inr [OF appends_emit_deny 2] prepared_steps(1) by fastforce
  qed
qed

lemma enforce_refuses: "refuses_safely (enforce_aggregate_quota W c uri kind)"
  unfolding refuses_safely_def
proof (intro allI impI, elim conjE)
  fix s x s' assume e: "enforce_aggregate_quota W c uri kind s = (Inl x, s')" and r: "refusal x"
  from enforce_Inl [OF e] r ledger_failure_no_refusal prepared_steps(1)
  show "prepared s s' \<and> (\<forall>r. x = EngDenied r \<longrightarrow> strict_prefix (s_log s) (s_log s'))" by fastforce
qed

text \<open>After an entry has been written, a denial needs no further one.\<close>

definition refuses_weakly :: "(session, engine_error, 'a) act \<Rightarrow> bool" where
  "refuses_weakly m \<longleftrightarrow> (\<forall>s x s'. m s = (Inl x, s') \<and> refusal x \<longrightarrow> prepared s s')"

lemma refuses_weakly_bind:
  assumes "refuses_weakly m" and "moves prepared m" and "\<And>x. refuses_weakly (f x)"
  shows "refuses_weakly (bindA m f)"
  unfolding refuses_weakly_def
proof (intro allI impI, elim conjE)
  fix s x s' assume "bindA m f s = (Inl x, s')" and r: "refusal x"
  then consider "m s = (Inl x, s')" | y s1 where "m s = (Inr y, s1)" "f y s1 = (Inl x, s')"
    unfolding bindA_eq_err by blast
  then show "prepared s s'"
  proof cases
    case 1
    with assms(1) r show ?thesis by (auto simp: refuses_weakly_def)
  next
    case 2
    with assms(3) r have "prepared s1 s'" by (auto simp: refuses_weakly_def)
    with movesD [OF assms(2) 2(1)] show ?thesis by (rule prepared_order.step_trans)
  qed
qed

lemma refuses_weakly_basics:
  "refuses_weakly (errA e)" "refuses_weakly (okA x)" "never_refuses m \<Longrightarrow> refuses_weakly m"
  by (auto simp: refuses_weakly_def never_refuses_def errA_def okA_def prepared_order.step_refl)

lemma appends_never: "appends P m \<Longrightarrow> never_refuses m"
  unfolding never_refuses_def using appends_Inl ledger_failure_no_refusal by blast

lemma appends_prepared: "appends P m \<Longrightarrow> moves prepared m"
  using appends_moves prepared_steps(1) unfolding moves_def by blast

lemma appends_then:
  assumes "appends P m" and "\<And>x. refuses_weakly (f x)"
  shows "refuses_safely (bindA m f)"
  unfolding refuses_safely_def
proof (intro allI impI, elim conjE)
  fix s x s' assume b: "bindA m f s = (Inl x, s')" and r: "refusal x"
  then consider "m s = (Inl x, s')" | y s1 where "m s = (Inr y, s1)" "f y s1 = (Inl x, s')"
    unfolding bindA_eq_err by blast
  then obtain y s1 where 2: "m s = (Inr y, s1)" "f y s1 = (Inl x, s')"
    using appends_never [OF assms(1)] r by cases (auto simp: never_refuses_def)
  from appends_Inr [OF assms(1) 2(1)] obtain e where m: "prepared s s1" "s_log s1 = s_log s @ [e]"
    using prepared_steps(1) by blast
  have q: "prepared s1 s'" using assms(2) 2(2) r by (auto simp: refuses_weakly_def)
  then have "prefix (s_log s @ [e]) (s_log s')" using m(2) by (simp add: prepared_def)
  then have "strict_prefix (s_log s) (s_log s')" by (rule prefix_order.less_le_trans [OF strict_prefix_snoc])
  with prepared_order.step_trans [OF m(1) q]
  show "prepared s s' \<and> (\<forall>r. x = EngDenied r \<longrightarrow> strict_prefix (s_log s) (s_log s'))" by blast
qed

lemma insert_grant_prepared: "moves prepared (insert_grant g)" "never_refuses (insert_grant g)"
  by (simp_all add: insert_grant_def moves_def modA_def prepared_def never_refuses_def)

lemma logs_prepared: "moves logs_only m \<Longrightarrow> moves prepared m"
  using prepared_steps(1) unfolding moves_def by blast

lemma enforce_prepared: "moves prepared (enforce_aggregate_quota W c uri kind)"
proof (rule movesI)
  fix s r s' assume e: "enforce_aggregate_quota W c uri kind s = (r, s')"
  show "prepared s s'"
  proof (cases r)
    case (Inl x)
    with enforce_Inl [of W c uri kind s x s'] e show ?thesis by (auto intro: prepared_steps(1))
  next
    case (Inr u)
    with enforce_Inr [of W c uri kind s u s'] e show ?thesis by (auto simp: prepared_def)
  qed
qed

lemma route_prepared: "moves prepared (route_through_approval W d uri kind rsid c tool args)"
  using prepared_steps(2) route_moves unfolding moves_def by blast

lemmas prepared_moves = logged_moves [THEN logs_prepared] log_order.get [THEN logs_prepared]
  log_order.lift [THEN logs_prepared] run_mcp_pre_validate_moves [THEN logs_prepared]
  route_prepared enforce_prepared

lemma act_on_outcome_refuses: "refuses_safely (act_on_outcome W req ttl rsid tool args outcome)"
  unfolding act_on_outcome_def Let_def
  by (cases outcome; simp only: ApprovalOutcome.case)
     (rule appends_then [OF appends_approval_entries(2)] appends_then [OF appends_approval_entries(3)]
       appends_then [OF appends_approval_entries(4)] refuses_weakly_basics(1,2) refuses_weakly_bind
       refuses_weakly_basics(3) never_refuses_basics insert_grant_prepared prepared_moves
       appends_never [OF appends_approval_decisions(3)] appends_prepared [OF appends_approval_decisions(3)])+

lemma refuses_mono: "refuses_safely m \<Longrightarrow> refuses_weakly m"
  by (auto simp: refuses_safely_def refuses_weakly_def)

lemma prompt_refuses: "refuses_safely (prompt_operator W summary uri kind rsid ttl tool args)"
  unfolding prompt_operator_def Let_def
proof (rule refuses_bind [OF never_refuses_safely [OF never_refuses_basics(2)] log_order.get [THEN logs_prepared]],
    goal_cases)
  case (1 s)
  show ?case
  proof (cases "s_approval_channel s")
    case (Some channel)
    have a: "refuses_weakly (case outcome of Inl e \<Rightarrow> errA (EngDenied (f e))
        | Inr answer \<Rightarrow> act_on_outcome W req ttl rsid tool args answer)" for outcome req f
      by (cases outcome) (simp_all add: refuses_weakly_basics refuses_mono act_on_outcome_refuses)
    show ?thesis
      unfolding Some option.case
      by (rule appends_then [OF appends_approval_entries(1)])
        (rule a refuses_weakly_bind refuses_weakly_basics(3) never_refuses_basics prepared_moves)+
  qed (simp add: never_refuses_safely never_refuses_basics)
qed

lemma route_refuses: "refuses_safely (route_through_approval W d uri kind rsid c tool args)"
proof (cases d)
  case (RequireApproval summary)
  have cached: "refuses_safely (bindA (emit_approval_decision_auto_consumed W tool uri kind rsid gid h dec) (\<lambda>_.
      case dec of GrantAllow \<Rightarrow> okA Allow | GrantDeny reason \<Rightarrow> errA (EngDenied (f reason))))" for gid h dec f
    by (rule appends_then [OF appends_auto_consumed]) (cases dec; simp add: refuses_weakly_basics)
  have found: "refuses_safely (case found of
        Some g \<Rightarrow> bindA (emit_approval_decision_auto_consumed W tool uri kind rsid (g_grant_id g)
            (arg_hash_hex W g) (g_decision g)) (\<lambda>_.
            case g_decision g of GrantAllow \<Rightarrow> okA Allow | GrantDeny reason \<Rightarrow> errA (EngDenied (f reason)))
      | None \<Rightarrow> prompt_operator W summary uri kind rsid ttl tool args)" for found f ttl
    by (cases found) (simp_all add: cached prompt_refuses)
  have advisory: "refuses_safely (bindA (emit_approval_decision_advisory W tool args uri kind rsid) (\<lambda>_. okA Allow))"
    by (rule appends_then [OF appends_approval_decisions(1)]) (rule refuses_weakly_basics)
  note quiet = refuses_bind [OF never_refuses_safely [OF never_refuses_basics(2)] log_order.get [THEN logs_prepared]]
    refuses_bind [OF never_refuses_safely [OF never_refuses_basics(3)] logs_only_env [THEN logs_prepared]]
  show ?thesis
    unfolding RequireApproval route_through_approval_def Decision.case
    apply (rule quiet(1))
    subgoal for p
      apply (cases "approval_tier p c = Advisory")
       apply (simp add: advisory)
      apply (simp only: if_False)
      apply (rule refuses_bind [OF never_refuses_safely [OF never_refuses_basics(3)]])
       apply (rule logs_only_env [THEN logs_prepared])
      apply (rule quiet(1))
      apply (rule found)
      done
    done
qed (simp_all add: route_through_approval_def never_refuses_safely never_refuses_basics)

lemma on_decision_refuses:
  assumes "refuses_safely proceed"
  shows "refuses_safely (on_decision W d uri kind proceed)"
proof (cases d)
  case (RequireApproval reason)
  then show ?thesis
    by (auto simp: on_decision_def refuses_safely_def errA_def prepared_order.step_refl)
qed (simp_all add: on_decision_def assms deny_refuses)

lemma gated_refuses: "never_refuses call \<Longrightarrow> refuses_safely (gated W d uri kind rsid c tool args call)"
  unfolding gated_def
  by (rule refuses_bind route_refuses route_prepared on_decision_refuses enforce_refuses enforce_prepared
      never_refuses_safely | assumption)+

text \<open>The mediators.\<close>

lemmas quietly = refuses_bind [OF never_refuses_safely]

lemma log_connection_prepared: "moves prepared (log_connection W host port proto kind)"
  by (rule movesI) (auto simp: log_connection_def bindA_tick modA_def prepared_def)

lemma tried_refuses:
  fixes k :: "'a \<Rightarrow> (session, engine_error, 'b) act"
  assumes "refuses_safely m" and "moves prepared m" and "\<And>d. refuses_safely (k d)"
  shows "refuses_safely (bindA (tryA m) (\<lambda>r. case r of
     Inl e \<Rightarrow> bindA (log_connection W host port proto kind) (\<lambda>_. errA e) | Inr d \<Rightarrow> k d))"
  unfolding refuses_safely_def
proof (intro allI impI, elim conjE)
  fix s x s'
  assume b: "bindA (tryA m) (\<lambda>r. case r of
     Inl e \<Rightarrow> bindA (log_connection W host port proto kind) (\<lambda>_. errA e) | Inr d \<Rightarrow> k d) s = (Inl x, s')"
    and r: "refusal x"
  obtain r1 s1 where m: "m s = (r1, s1)" by fastforce
  note p = movesD [OF assms(2) m]
  show "prepared s s' \<and> (\<forall>r. x = EngDenied r \<longrightarrow> strict_prefix (s_log s) (s_log s'))"
  proof (cases r1)
    case (Inl e)
    with b m have l: "bindA (log_connection W host port proto kind) (\<lambda>_. errA e) s1 = (Inl x :: engine_error + 'b, s')"
      by (simp add: bindA_tryA)
    then have "x = e" and "prepared s1 s'" and "s_log s' = s_log s1"
      by (auto simp: bindA_eq_err log_connection_def bindA_tick modA_def errA_def prepared_def)
    with assms(1) m r Inl show ?thesis
      using prepared_order.step_trans [of s s1 s'] by (auto simp: refuses_safely_def)
  next
    case (Inr d)
    with b m have "k d s1 = (Inl x, s')" by (simp add: bindA_tryA)
    with assms(3) r have q: "prepared s1 s'" "\<forall>r. x = EngDenied r \<longrightarrow> strict_prefix (s_log s1) (s_log s')"
      by (auto simp: refuses_safely_def)
    from p have "prefix (s_log s) (s_log s1)" by (simp add: prepared_def)
    with q prepared_order.step_trans [OF p q(1)] show ?thesis by (blast intro: prefix_order.le_less_trans)
  qed
qed

lemma connect_decision_refuses: "refuses_safely (connect_on_decision W host port proto rsid was d)"
proof (cases d)
  case (Deny reason)
  have d: "appends (entry_kind Violation) (emit_deny W u k reason)" for u k
    by (rule appends_mono [OF appends_emit_deny]) (simp add: entry_kind_def entry_is_def)
  show ?thesis
    unfolding connect_on_decision_def Deny Decision.case
    by (rule appends_then [OF d]) (rule refuses_weakly_bind refuses_weakly_basics(3) never_refuses_basics
        log_connection_prepared refuses_weakly_basics(1))+
next
  case (RequireApproval reason)
  show ?thesis
    unfolding connect_on_decision_def RequireApproval Decision.case
    by (rule quietly [OF never_refuses_basics(9) log_connection_prepared])
      (auto simp: refuses_safely_def errA_def prepared_order.step_refl)
next
  case Allow
  show ?thesis
    unfolding connect_on_decision_def Allow Decision.case
    by (rule never_refuses_safely never_refuses_bind never_refuses_calls never_refuses_success uri_nonempty
        never_refuses_basics)+
qed

lemma refuses_file_uri:
  assumes "\<And>uri. uri \<noteq> [] \<Longrightarrow> refuses_safely (f uri)"
  shows "refuses_safely (bindA (file_uri W path) f)"
proof -
  let ?f = "\<lambda>uri. if uri = [] then errA EngIo else f uri"
  have "bindA (file_uri W path) f = bindA (file_uri W path) ?f"
    using file_uri_suffix [of W path] by (fastforce simp: fun_eq_iff bindA_def split: prod.splits sum.splits)
  moreover have "refuses_safely (bindA (file_uri W path) ?f)"
    by (rule quietly [OF never_refuses_file_uri file_uri_moves [THEN logs_prepared]])
      (simp add: assms never_refuses_safely never_refuses_basics)
  ultimately show ?thesis by simp
qed

lemma call_never_refuses:
  assumes "never_refuses m" and "uri \<noteq> []"
  shows "never_refuses (bindA m (\<lambda>x. bindA (emit_success W uri ty (n x) rsid) (\<lambda>_. okA (g x))))"
    "never_refuses (bindA m (\<lambda>x. emit_success W uri ty (n x) rsid))"
  using assms(2) by (rule_tac [!] never_refuses_bind [OF assms(1)])
    (simp_all add: never_refuses_bind never_refuses_basics never_refuses_success)

lemmas quiet_steps = quietly [OF never_refuses_rebind rebind_moves [THEN logs_prepared]]
  quietly [OF never_refuses_basics(2) log_order.get [THEN logs_prepared]]
  quietly [OF never_refuses_basics(4) utc_now_moves [THEN logs_prepared]]
  quietly [OF never_refuses_basics(6) log_order.lift [THEN logs_prepared]]

lemma mediators_refuse:
  "refuses_safely (mediate_filesystem_read W path rsid)"
  "refuses_safely (mediate_filesystem_write W path contents rsid)"
  "refuses_safely (mediate_filesystem_delete W path rsid)"
  "refuses_safely (mediate_exec W program args rsid)"
  "refuses_safely (mediate_network_connect W host port proto rsid)"
  unfolding mediate_filesystem_read_def mediate_filesystem_write_def mediate_filesystem_delete_def
    mediate_exec_def mediate_network_connect_def
  by ((rule quiet_steps refuses_file_uri)+, rule gated_refuses tried_refuses,
      (rule call_never_refuses never_refuses_calls uri_nonempty route_refuses route_prepared connect_decision_refuses
        | assumption)+)+

text \<open>The arguments of an MCP call are checked with the same decisions, so their refusals are as safe.\<close>

lemma never_refuses_errors:
  assumes "\<And>e. x = Inl e \<Longrightarrow> \<not> refusal e"
  shows "never_refuses (liftA x)"
  using assms by (auto simp: never_refuses_def liftA_def)

lemma collect_strings_err:
  "collect_strings err i vs = Inl e \<Longrightarrow> \<exists>r. e = err r"
  by (induction vs arbitrary: i e) (auto simp: andThen_def split: option.splits sum.splits)

lemma extract_err:
  "extract_clause_values args server tool c = Inl e \<Longrightarrow> \<exists>a r. e = EngMcpPreValidateMalformedArg server tool a r"
  by (auto simp: extract_clause_values_def Let_def dest: collect_strings_err split: option.splits)

lemma parse_err:
  "parse_pre_validate_url L raw server tool arg = Inl e \<Longrightarrow> \<exists>r. e = EngMcpPreValidateMalformedArg server tool arg r"
  by (auto simp: parse_pre_validate_url_def Let_def split: option.splits prod.splits if_splits)

lemma malformed_no_refusal [simp]: "\<not> refusal (EngMcpPreValidateMalformedArg a b c d)"
  by (simp add: refusal_def)

lemma clause_decision_never: "never_refuses (clause_decision W server tool arg kind start v)"
proof -
  have p: "never_refuses (liftA (parse_pre_validate_url W v server tool arg))"
    by (rule never_refuses_errors) (auto dest: parse_err)
  show ?thesis
    unfolding clause_decision_def
    by (cases kind; simp; (rule never_refuses_bind never_refuses_basics p | simp add: never_refuses_basics split: prod.split)+)
qed

lemma clause_decision_prepared: "moves prepared (clause_decision W server tool arg kind start v)"
  by (rule logs_prepared) (auto intro!: moves_intros log_order.bind log_order.get log_order.lift log_order.ok
      utc_now_moves simp: clause_decision_def split: PreValidateKind.splits)

lemma values_refuse: "refuses_safely (pre_validate_values W server tool c start vs)"
proof (induction vs)
  case (Cons v vs)
  have "refuses_safely (case d of
       Allow \<Rightarrow> pre_validate_values W server tool c start vs
     | Deny reason \<Rightarrow> bindA (emit_deny W uri kind reason) (\<lambda>_. errA (EngDenied reason))
     | RequireApproval reason \<Rightarrow> errA (EngRequireApproval reason))" for d uri kind
    using on_decision_refuses [OF Cons.IH, of W d] by (simp add: on_decision_def)
  then show ?case
    by (simp only: pre_validate_values.simps)
      (rule quietly [OF clause_decision_never clause_decision_prepared])
qed (simp add: never_refuses_safely never_refuses_basics)

lemma pre_validate_refuses: "refuses_safely (run_mcp_pre_validate W server tool args cs)"
proof (induction cs)
  case (Cons c cs)
  have x: "never_refuses (liftA (extract_clause_values args server tool c))"
    by (rule never_refuses_errors) (auto dest: extract_err)
  note prep = log_order.lift [THEN logs_prepared] log_order.get [THEN logs_prepared]
  show ?case
    unfolding run_mcp_pre_validate.simps
    by (rule quietly [OF x prep(1)], rule quietly [OF never_refuses_basics(2) prep(2)],
        rule refuses_bind [OF values_refuse pre_validate_values_moves [THEN logs_prepared] Cons.IH])
qed (simp add: never_refuses_safely never_refuses_basics)

lemma refuses_safelyD:
  "refuses_safely m \<Longrightarrow> m s = (Inl x, s') \<Longrightarrow> refusal x \<Longrightarrow>
     prepared s s' \<and> (\<forall>r. x = EngDenied r \<longrightarrow> strict_prefix (s_log s) (s_log s'))"
  by (simp add: refuses_safely_def)

definition unrecorded_failure :: "string \<Rightarrow> json \<Rightarrow> session \<Rightarrow> engine_error \<Rightarrow> session \<Rightarrow> bool" where
  "unrecorded_failure tool args s x s' \<longleftrightarrow>
     (\<exists>server_uri e log. x = EngDenied (''mcp client: '' @ e) \<and>
        s_effects s' = s_effects s @ [(EffMcp server_uri tool args, log)] \<and> s_log s' = log \<and> prefix (s_log s) log)"

lemma refused_later:
  assumes "bindA m f s = (Inl x, s')" and "refusal x" and "refuses_safely m" and "moves prepared m"
  obtains "prepared s s'" "\<forall>r. x = EngDenied r \<longrightarrow> strict_prefix (s_log s) (s_log s')"
    | y s1 where "prepared s s1" "m s = (Inr y, s1)" "f y s1 = (Inl x, s')"
  using assms movesD [OF assms(4)] unfolding bindA_eq_err refuses_safely_def by blast

lemma refusal_after:
  assumes "prepared s t"
    and "prepared t s' \<and> (\<forall>r. x = EngDenied r \<longrightarrow> strict_prefix (s_log t) (s_log s')) \<or>
      unrecorded_failure tool args t x s'"
  shows "prepared s s' \<and> (\<forall>r. x = EngDenied r \<longrightarrow> strict_prefix (s_log s) (s_log s')) \<or>
    unrecorded_failure tool args s x s'"
proof -
  from assms(1) have p: "prefix (s_log s) (s_log t)" "s_effects t = s_effects s" by (simp_all add: prepared_def)
  from assms(2) show ?thesis
  proof (elim disjE conjE)
    assume "prepared t s'" and "\<forall>r. x = EngDenied r \<longrightarrow> strict_prefix (s_log t) (s_log s')"
    with prefix_order.le_less_trans [OF p(1)] prepared_order.step_trans [OF assms(1)] show ?thesis by blast
  next
    assume "unrecorded_failure tool args t x s'"
    with p prefix_order.trans [OF p(1)] have "unrecorded_failure tool args s x s'"
      by (auto simp: unrecorded_failure_def)
    then show ?thesis by blast
  qed
qed

lemma call_mcp_client_refusal:
  assumes "call_mcp_client W uri server_uri tool args rsid s = (Inl x, s')" and "refusal x" and "uri \<noteq> []"
  shows "prepared s s' \<and> (\<forall>r. x = EngDenied r \<longrightarrow> strict_prefix (s_log s) (s_log s')) \<or>
    unrecorded_failure tool args s x s'"
proof (cases "s_mcp_client s")
  case None
  with assms(1) have "bindA (emit_deny W uri ''mcp_tool_call'' ''no mcp client configured for session'')
      (\<lambda>_. errA (EngDenied ''no mcp client configured for session'') :: (session, engine_error, json) act) s = (Inl x, s')"
    by (simp add: call_mcp_client_def bindA_getA Let_def)
  from refuses_safelyD [OF deny_refuses this assms(2)] show ?thesis by blast
next
  case (Some client)
  from assms(1) Some have b: "bindA (do_mcp_call client server_uri tool args) (\<lambda>value.
      bindA (emit_success W uri AccMcpToolCall (of_nat (length (json_to_string W value))) rsid) (\<lambda>_. okA value)) s
      = (Inl x, s')"
    by (simp add: call_mcp_client_def bindA_getA)
  have "never_refuses (bindA (emit_success W uri ty n rsid) (\<lambda>_. okA v))" for ty n and v :: json
    using assms(3) by (intro never_refuses_bind never_refuses_basics never_refuses_success)
  with b assms(2) have c: "do_mcp_call client server_uri tool args s = (Inl x, s')"
    unfolding bindA_eq_err never_refuses_def by blast
  from calls_perform(6) [OF c] have "performed (EffMcp server_uri tool args) s s'" .
  moreover have "\<exists>e. x = EngDenied (''mcp client: '' @ e)"
  proof -
    obtain a fs where "client (en_tick (s_env s)) (en_fs (s_env s)) server_uri tool args = (a, fs)" by fastforce
    with c show ?thesis
      by (cases a) (auto simp: do_mcp_call_def record_effect_def bindA_def modA_def change_fsA_def zoomA_def
          errA_def okA_def)
  qed
  ultimately show ?thesis by (auto simp: unrecorded_failure_def performed_def)
qed

lemma mcp_call_refusal:
  assumes m: "bindA (run_mcp_pre_validate W server tool args cs) (\<lambda>_. bindA (enforce_aggregate_quota W c uri kind) (\<lambda>_.
      call_mcp_client W uri server_uri tool args rsid)) s = (Inl x, s')" and r: "refusal x" and "uri \<noteq> []"
  shows "prepared s s' \<and> (\<forall>r. x = EngDenied r \<longrightarrow> strict_prefix (s_log s) (s_log s')) \<or>
    unrecorded_failure tool args s x s'"
  using m r pre_validate_refuses run_mcp_pre_validate_moves [THEN logs_prepared]
proof (rule refused_later, goal_cases)
  case (2 u t)
  show ?case
  proof (rule refusal_after [OF 2(1)], rule refused_later [OF 2(3) r enforce_refuses enforce_prepared], goal_cases)
    case (2 u2 t2)
    from refusal_after [OF 2(1) call_mcp_client_refusal [OF 2(3) r assms(3)]] show ?case .
  qed simp
qed simp

lemma mcp_refusal:
  assumes m: "mediate_mcp_tool_call W server tool args rsid s = (Inl x, s')" and r: "refusal x"
  shows "prepared s s' \<and> (\<forall>r. x = EngDenied r \<longrightarrow> strict_prefix (s_log s) (s_log s')) \<or>
    unrecorded_failure tool args s x s'"
proof -
  let ?uri = "mcp_uri server tool"
  from m [unfolded mediate_mcp_tool_call_def] r never_refuses_safely [OF never_refuses_rebind]
    rebind_moves [THEN logs_prepared]
  show ?thesis
  proof (rule refused_later, goal_cases)
    case (2 u t)
    let ?check = "check_mcp_tool W (s_policy t) server tool"
    let ?proceed = "case find_mcp_server (s_policy t) server of
         None \<Rightarrow> let reason = ''mcp tool call to server '' @ str_debug W server @
              '' not granted: server not in tools.mcp[]'' in
            bindA (emit_deny W ?uri ''mcp_tool_call'' reason) (\<lambda>_. errA (EngDenied reason))
       | Some g \<Rightarrow> bindA (run_mcp_pre_validate W server tool args (tool_clauses g tool)) (\<lambda>_.
           bindA (enforce_aggregate_quota W (ClassMcp server) ?uri ''mcp_tool_call'') (\<lambda>_.
           call_mcp_client W ?uri (mcp_server_uri g) tool args rsid))"
    from 2(3) have n: "on_decision W ?check ?uri ''mcp_tool_call'' ?proceed t = (Inl x, s')"
      by (simp add: bindA_getA)
    show ?case
    proof (rule refusal_after [OF 2(1)], cases ?check)
      case Allow
      with n have p: "?proceed t = (Inl x, s')" by (simp add: on_decision_def)
      show "prepared t s' \<and> (\<forall>r. x = EngDenied r \<longrightarrow> strict_prefix (s_log t) (s_log s')) \<or>
          unrecorded_failure tool args t x s'"
      proof (cases "find_mcp_server (s_policy t) server")
        case None
        define reason where "reason = ''mcp tool call to server '' @ str_debug W server @
          '' not granted: server not in tools.mcp[]''"
        from p None have "bindA (emit_deny W ?uri ''mcp_tool_call'' reason)
            (\<lambda>_. errA (EngDenied reason) :: (session, engine_error, json) act) t = (Inl x, s')"
          by (simp add: reason_def Let_def)
        from refuses_safelyD [OF deny_refuses this r] show ?thesis by blast
      next
        case (Some g)
        with p mcp_call_refusal [OF _ r uri_nonempty(3)] show ?thesis by simp
      qed
    next
      case (Deny reason)
      with n have "bindA (emit_deny W ?uri ''mcp_tool_call'' reason)
          (\<lambda>_. errA (EngDenied reason) :: (session, engine_error, json) act) t = (Inl x, s')"
        by (simp add: on_decision_def)
      from refuses_safelyD [OF deny_refuses this r] show "prepared t s' \<and>
          (\<forall>r. x = EngDenied r \<longrightarrow> strict_prefix (s_log t) (s_log s')) \<or> unrecorded_failure tool args t x s'" by blast
    next
      case (RequireApproval reason)
      with n show "prepared t s' \<and> (\<forall>r. x = EngDenied r \<longrightarrow> strict_prefix (s_log t) (s_log s')) \<or>
          unrecorded_failure tool args t x s'"
        by (auto simp: on_decision_def errA_def prepared_order.step_refl)
    qed
  qed simp
qed

text \<open>C7: What a refusal means. When a file, exec or network call is answered with \<open>Denied\<close> or
  \<open>RequireApproval\<close>, no effect of it has taken place, and a denial has left at least one new entry in
  the ledger. The same holds of MCP calls but for one case: when the client itself answers an error the
  call has been made, the answer is \<open>Denied\<close>, and the ledger holds nothing about it.\<close>

theorem refused_calls_have_no_effect:
  assumes "refusal x"
    and "mediate_filesystem_read W path rsid s = (Inl x, s') \<or>
      mediate_filesystem_write W path contents rsid s = (Inl x, s') \<or>
      mediate_filesystem_delete W path rsid s = (Inl x, s') \<or>
      mediate_exec W program args rsid s = (Inl x, s') \<or>
      mediate_network_connect W host port proto rsid s = (Inl x, s') \<or>
      mediate_mcp_tool_call W server tool targs rsid s = (Inl x, s') \<and> \<not> unrecorded_failure tool targs s x s'"
  shows "s_effects s' = s_effects s \<and> (x = EngDenied reason \<longrightarrow> strict_prefix (s_log s) (s_log s'))"
proof -
  have "prepared s s' \<and> (\<forall>r. x = EngDenied r \<longrightarrow> strict_prefix (s_log s) (s_log s'))"
    using assms(2) mcp_refusal [OF _ assms(1)]
    by (elim disjE conjE) (erule mediators_refuse [THEN refuses_safelyD, OF _ assms(1)] | blast)+
  then show ?thesis by (simp add: prepared_def)
qed

lemma demo_refused:
  obtains s s' reason where "mediate_exec (demo_world demo_writer_manifest) ''/bin/sh'' [] None s = (Inl (EngDenied reason), s')"
proof -
  let ?W = "demo_world demo_writer_manifest"
  have "check_reserved (policy_from_manifest demo_writer_manifest) = Inr ()" "m_extends demo_writer_manifest = []"
    by (simp_all add: check_reserved_def policy_from_manifest_def demo_writer_manifest_def empty_manifest_def)
  from demo_boot [OF this, of V2] obtain s where s: "demo_session demo_writer_manifest V2 s" by auto
  let ?t = "ticked (ticked (ticked s))"
  have "is_deny (check_exec (s_policy s) ''/bin/sh'')"
    using s exec_granted [of "s_policy s" "''/bin/sh''"]
    by (simp add: demo_session_def grants_exec_def policy_from_manifest_def demo_writer_manifest_def empty_manifest_def)
  then obtain reason where d: "check_exec (s_policy s) ''/bin/sh'' = Deny reason"
    by (cases "check_exec (s_policy s) ''/bin/sh''") auto
  have "live ?t" using s by (simp add: demo_session_def)
  then obtain s' where "emit_deny ?W (exec_uri ''/bin/sh'') ''exec'' reason ?t = (Inr (), s')"
    using appends_live [OF appends_emit_deny] by (metis old.unit.exhaust)
  with d demo_session_ticked [OF s]
  have "mediate_exec ?W ''/bin/sh'' [] None s = (Inl (EngDenied reason), s')"
    by (simp add: mediate_exec_def bindA_ok [where m = "rebind ?W"] bindA_getA gated_def route_through_approval_def
        bindA_okA on_decision_def bindA_ok [where m = "emit_deny ?W (exec_uri ''/bin/sh'') ''exec'' reason"] errA_def)
  with that show thesis .
qed

theorem refused_calls_have_no_effect_witness:
  "\<exists>s s' reason. mediate_exec (demo_world demo_writer_manifest) ''/bin/sh'' [] None s = (Inl (EngDenied reason), s') \<and>
     s_effects s' = s_effects s \<and> strict_prefix (s_log s) (s_log s')"
proof -
  obtain s s' reason where m: "mediate_exec (demo_world demo_writer_manifest) ''/bin/sh'' [] None s = (Inl (EngDenied reason), s')"
    by (rule demo_refused)
  with refused_calls_have_no_effect [of "EngDenied reason" "demo_world demo_writer_manifest" _ None s s' _ "''/bin/sh''" "[]"]
  show ?thesis by auto
qed

end
