(* ===== verification/Quotas.thy ===== *)
theory Quotas
  imports Refusals
begin

text \<open>
  The quotas of the manifest against the calls a session made. The gate of \<open>Aggregate\<close> counts calls; here
  the count is compared with the effects of the session, through every mediated call and run.
\<close>

section \<open>Charging effects to classes\<close>

definition tally :: "ToolClass \<Rightarrow> session \<Rightarrow> u64" where
  "tally c s = aggregate_snapshot (s_aggregate_state s) c"

fun charged :: "Policy \<Rightarrow> ToolClass \<Rightarrow> effect \<Rightarrow> bool" where
  "charged P c (EffRead path) \<longleftrightarrow> c = ClassFilesystem"
| "charged P c (EffWrite path contents) \<longleftrightarrow> c = ClassFilesystem"
| "charged P c (EffDelete path) \<longleftrightarrow> c = ClassFilesystem"
| "charged P c (EffExec program args) \<longleftrightarrow> c = ClassExec"
| "charged P c (EffConnect host port) \<longleftrightarrow> c = ClassNetwork"
| "charged P c (EffMcp uri tool args) \<longleftrightarrow>
     (case c of
        ClassMcp server \<Rightarrow> (case find_mcp_server P server of Some g \<Rightarrow> mcp_server_uri g = uri | None \<Rightarrow> False)
      | _ \<Rightarrow> False)"

definition calls_of :: "Policy \<Rightarrow> ToolClass \<Rightarrow> session \<Rightarrow> nat" where
  "calls_of P c s = length (filter (\<lambda>(f, log). charged P c f) (s_effects s))"

definition uris_identify :: "Policy \<Rightarrow> bool" where
  "uris_identify P \<longleftrightarrow> (\<forall>g \<in> set (t_mcp (m_tools (p_manifest P))). \<forall>h \<in> set (t_mcp (m_tools (p_manifest P))).
     mcp_server_uri g = mcp_server_uri h \<longrightarrow> mcp_server_name g = mcp_server_name h)"

text \<open>Only calls of MCP servers are told apart by a declared URI.\<close>

definition told_apart :: "Policy \<Rightarrow> ToolClass \<Rightarrow> bool" where
  "told_apart P c \<longleftrightarrow> (case c of ClassMcp server \<Rightarrow> uris_identify P | _ \<Rightarrow> True)"

definition cap_of :: "Policy \<Rightarrow> ToolClass \<Rightarrow> u64 option" where
  "cap_of P c = Option.bind (quota_for (p_manifest P) c) max_calls_per_session"

text \<open>Along a step the calls of a capped class grow by no more than its tally, which stays within the cap;
  the tally of network calls does not move.\<close>

definition spent :: "Policy \<Rightarrow> ToolClass \<Rightarrow> u64 \<Rightarrow> session \<Rightarrow> session \<Rightarrow> bool" where
  "spent P c cap s s' \<longleftrightarrow>
     (s_policy s = P \<longrightarrow> s_policy s' = P \<and> (c = ClassNetwork \<longrightarrow> tally c s' = tally c s) \<and>
       (cap_of P c = Some cap \<and> c \<noteq> ClassNetwork \<and> told_apart P c \<and> tally c s \<le> cap \<longrightarrow>
         tally c s' \<le> cap \<and> calls_of P c s' + unat (tally c s) \<le> calls_of P c s + unat (tally c s')))"

interpretation spent_order: step_order "spent P c cap" for P c cap
  by unfold_locales (auto simp: spent_def)

lemma spent_same:
  "s_policy s' = s_policy s \<Longrightarrow> s_effects s' = s_effects s \<Longrightarrow> s_aggregate_state s' = s_aggregate_state s \<Longrightarrow>
     spent P c cap s s'"
  by (simp add: spent_def tally_def calls_of_def)

lemma spent_steps: "logs_only s s' \<Longrightarrow> spent P c cap s s'" "gate_step s s' \<Longrightarrow> spent P c cap s s'"
  using logs_only_fields(1,5,7) [of s s'] gate_fields(1,5,7) [of s s'] by (auto intro: spent_same)

lemma spent_moves:
  "moves logs_only m \<Longrightarrow> moves (spent P c cap) m" "moves gate_step m \<Longrightarrow> moves (spent P c cap) m"
  unfolding moves_def using spent_steps by blast+

section \<open>One call, one charge\<close>

lemma unat_increment: "(a :: u64) < k \<Longrightarrow> unat (saturating_add64 a 1) = unat a + 1"
proof -
  have "unat k < 2 ^ 64" using unsigned_less [of k] by simp
  then show "a < k \<Longrightarrow> ?thesis" by (simp add: unat_saturating_add64 word_less_nat_alt)
qed


definition once :: "effect \<Rightarrow> (session, engine_error, 'a) act \<Rightarrow> bool" where
  "once f m \<longleftrightarrow> (\<forall>s r s'. m s = (r, s') \<longrightarrow> s_policy s' = s_policy s \<and>
     s_aggregate_state s' = s_aggregate_state s \<and> (s_effects s' = s_effects s \<or> (\<exists>log. s_effects s' = s_effects s @ [(f, log)])))"

lemma once_bind:
  assumes "once f m" and "\<And>x. moves logs_only (k x)"
  shows "once f (bindA m k)"
  unfolding once_def
proof (intro allI impI)
  fix s r s' assume b: "bindA m k s = (r, s')"
  obtain r1 s1 where m: "m s = (r1, s1)" by fastforce
  with b have "s' = s1 \<or> (\<exists>x. k x s1 = (r, s'))" by (cases r1) (auto simp: bindA_def)
  then have "s_policy s' = s_policy s1 \<and> s_aggregate_state s' = s_aggregate_state s1 \<and> s_effects s' = s_effects s1"
    using logs_only_fields(1,5,7) movesD [OF assms(2)] by blast
  with assms(1) m show "s_policy s' = s_policy s \<and> s_aggregate_state s' = s_aggregate_state s \<and>
      (s_effects s' = s_effects s \<or> (\<exists>log. s_effects s' = s_effects s @ [(f, log)]))" unfolding once_def by metis
qed

lemma once_quiet:
  "moves logs_only m \<Longrightarrow> once f m" "(\<And>x. once f (k x)) \<Longrightarrow> once f (bindA (getA g) k)"
  unfolding once_def using logs_only_fields(1,5,7) movesD [of logs_only m] by (blast, simp add: bindA_getA)

lemma once_calls:
  "once (EffRead path) (do_read W path)" "once (EffWrite path b) (do_write W path b)"
  "once (EffDelete path) (do_delete W path)" "once (EffConnect host port) (do_connect W host port)"
  "once (EffExec path args) (do_exec W path args)" "once (EffMcp uri tool v) (do_mcp_call client uri tool v)"
  unfolding once_def do_read_def do_write_def do_delete_def do_connect_def do_exec_def do_mcp_call_def
    record_effect_def bindA_modA
  by (auto simp: bindA_def zoomA_def okA_def errA_def split: prod.splits sum.splits if_splits option.splits)

lemma uncharged_moves:
  assumes "once f m" and "\<not> charged P c f \<or> c = ClassNetwork"
  shows "moves (spent P c cap) m"
proof (rule movesI)
  fix s r s' assume "m s = (r, s')"
  with assms(1) have "s_policy s' = s_policy s" "s_aggregate_state s' = s_aggregate_state s"
    "s_effects s' = s_effects s \<or> (\<exists>log. s_effects s' = s_effects s @ [(f, log)])" unfolding once_def by blast+
  with assms(2) show "spent P c cap s s'" by (auto simp: spent_def tally_def calls_of_def)
qed

lemma charge_moves:
  assumes "once f call" and "\<And>c'. told_apart P c' \<Longrightarrow> charged P c' f \<Longrightarrow> c' = cls"
    and "cls \<noteq> ClassNetwork"
  shows "moves (spent P c cap) (bindA (enforce_aggregate_quota W cls uri kind) (\<lambda>_. call))"
proof (rule movesI)
  fix s r s' assume b: "bindA (enforce_aggregate_quota W cls uri kind) (\<lambda>_. call) s = (r, s')"
  obtain q s1 where e: "enforce_aggregate_quota W cls uri kind s = (q, s1)" by fastforce
  show "spent P c cap s s'"
  proof (cases q)
    case (Inl x)
    with enforce_Inl [of W cls uri kind s x s1] e b show ?thesis by (auto simp: bindA_err intro: spent_steps)
  next
    case (Inr u)
    with e obtain n a where a: "check_and_increment cls (quota_for (p_manifest (s_policy s)) cls) (s_aggregate_state s)
        = (Inr n, a)" "s1 = s\<lparr> s_aggregate_state := a \<rparr>" using enforce_Inr [of W cls uri kind s u s1] by blast
    from b e Inr have "call s1 = (r, s')" by (simp add: bindA_ok)
    with assms(1) have s': "s_policy s' = s_policy s1" "s_aggregate_state s' = s_aggregate_state s1"
      "s_effects s' = s_effects s1 \<or> (\<exists>log. s_effects s' = s_effects s1 @ [(f, log)])" unfolding once_def by blast+
    note i = check_and_increment_ok(1,3) [OF a(1)]
    have t: "tally c s' = (if c = cls then saturating_add64 (tally cls s) 1 else tally c s)"
      using i(1) a(2) s'(2) by (simp add: tally_def)
    have k: "calls_of P c s' \<le> calls_of P c s + (if charged P c f then 1 else 0)"
      using s'(3) a(2) by (auto simp: calls_of_def)
    show ?thesis
      unfolding spent_def
    proof (intro impI conjI; (elim conjE)?)
      assume P: "s_policy s = P" and cap: "cap_of P c = Some cap" and u: "told_apart P c" and l: "tally c s \<le> cap"
      show "tally c s' \<le> cap"
        using t l i(2) cap P by (auto simp: cap_of_def tally_def word_le_nat_alt unat_increment word_less_nat_alt)
      have "unat (saturating_add64 (tally cls s) 1) = unat (tally cls s) + 1" if "c = cls"
      proof -
        have "tally cls s < cap" using i(2) cap P that by (simp add: cap_of_def tally_def)
        then show ?thesis by (rule unat_increment)
      qed
      note inc = this
      have "calls_of P c s' \<le> calls_of P c s + (if c = cls then 1 else 0)"
        using k assms(2) [OF u] by (auto split: if_splits)
      moreover have "unat (tally c s') = unat (tally c s) + (if c = cls then 1 else 0)" using t inc by simp
      ultimately show "calls_of P c s' + unat (tally c s) \<le> calls_of P c s + unat (tally c s')" by simp
    qed (use s' a(2) t assms(3) in simp_all)
  qed
qed

section \<open>Through the mediators\<close>

lemma spent_deny: "moves (spent P c cap) (bindA (emit_deny W uri kind reason) (\<lambda>_. errA e))"
  by (rule spent_order.bind spent_moves(1) [OF emit_deny_moves] spent_order.err)+

lemma spent_decision:
  "moves (spent P c cap) proceed \<Longrightarrow> moves (spent P c cap) (on_decision W d uri kind proceed)"
  by (cases d) (simp_all add: on_decision_def spent_deny spent_order.err)

lemma spent_gated:
  assumes "once f call" and "\<And>c'. told_apart P c' \<Longrightarrow> charged P c' f \<Longrightarrow> c' = cls"
    and "cls \<noteq> ClassNetwork"
  shows "moves (spent P c cap) (gated W d uri kind rsid cls tool args call)"
  unfolding gated_def
  by (rule spent_order.bind spent_moves(2) [OF route_moves] spent_decision charge_moves [OF assms] | assumption)+

lemma spent_log: "moves (spent P c cap) (log_connection W host port proto kind)"
  by (rule movesI) (auto simp: log_connection_def bindA_tick modA_def intro!: spent_same)

lemma spent_policy:
  assumes "moves (spent P c cap) (k P)"
  shows "moves (spent P c cap) (bindA (getA s_policy) k)"
proof (rule movesI)
  fix s r s' assume b: "bindA (getA s_policy) k s = (r, s')"
  show "spent P c cap s s'"
  proof (cases "s_policy s = P")
    case True
    with b movesD [OF assms] show ?thesis by (simp add: bindA_getA)
  qed (simp add: spent_def)
qed

lemmas spent_quiet = spent_moves(1) [OF rebind_moves] spent_moves(1) [OF utc_now_moves]
  spent_moves(1) [OF file_uri_moves] spent_moves(1) [OF emit_success_moves]
  spent_moves(1) [OF run_mcp_pre_validate_moves] spent_order.get spent_order.lift spent_order.ok spent_order.err

lemmas call_once = once_bind [OF once_calls(1)] once_bind [OF once_calls(2)] once_bind [OF once_calls(3)]
  once_bind [OF once_calls(5)] once_bind [OF once_calls(6)]

lemmas call_tails = log_order.bind emit_success_moves log_order.ok

lemma charged_mcp:
  assumes "find_mcp_server P server = Some g" and "told_apart P c"
    and "charged P c (EffMcp (mcp_server_uri g) tool args)"
  shows "c = ClassMcp server"
proof -
  from assms(3) obtain server' h where c: "c = ClassMcp server'" "find_mcp_server P server' = Some h"
    "mcp_server_uri h = mcp_server_uri g" by (auto split: ToolClass.splits option.splits)
  have found: "find p xs = Some y \<Longrightarrow> y \<in> set xs \<and> p y" for p and xs :: "'x list" and y
    by (auto simp: find_Some_iff)
  note f = found [OF assms(1) [unfolded find_mcp_server_def]] found [OF c(2) [unfolded find_mcp_server_def]]
  from assms(2) c(1) have "uris_identify P" by (simp add: told_apart_def)
  with f c(3) have "mcp_server_name h = mcp_server_name g" unfolding uris_identify_def by metis
  with f c(1) show ?thesis by simp
qed

lemma spent_connect: "moves (spent P c cap) (mediate_network_connect W host port proto rsid)"
proof -
  have d: "moves (spent P c cap) (do_connect W host port)"
    by (rule uncharged_moves [OF once_calls(4)]) simp
  show ?thesis
    unfolding mediate_network_connect_def connect_on_decision_def
    by (auto intro!: spent_order.bind spent_order.reify spent_quiet spent_moves(2) [OF route_moves] spent_log d
        spent_moves(1) [OF emit_deny_moves] split: sum.splits Decision.splits)
qed

lemma call_mcp_client_once: "once (EffMcp server_uri tool args) (call_mcp_client W uri server_uri tool args rsid)"
  unfolding call_mcp_client_def
proof (rule once_quiet(2))
  fix client
  show "once (EffMcp server_uri tool args) (case client of
      None \<Rightarrow> let reason = ''no mcp client configured for session'' in
        bindA (emit_deny W uri ''mcp_tool_call'' reason) (\<lambda>_. errA (EngDenied reason))
    | Some client \<Rightarrow> bindA (do_mcp_call client server_uri tool args) (\<lambda>value.
        bindA (emit_success W uri AccMcpToolCall (of_nat (length (json_to_string W value))) rsid) (\<lambda>_. okA value)))"
  proof (cases client)
    case None
    then show ?thesis
      unfolding None option.case Let_def
      by (intro once_quiet(1) log_order.bind emit_deny_moves log_order.err)
  next
    case (Some cl)
    show ?thesis unfolding Some option.case by (rule call_once call_tails)+
  qed
qed

lemma spent_mcp: "moves (spent P c cap) (mediate_mcp_tool_call W server tool args rsid)"
proof -
  have q: "moves (spent P c cap) (bindA (enforce_aggregate_quota W (ClassMcp server) uri kind)
     (\<lambda>_. call_mcp_client W uri2 (mcp_server_uri g) tool args rsid))" if "find_mcp_server P server = Some g" for uri kind uri2 g
    by (rule charge_moves [OF call_mcp_client_once charged_mcp [OF that]]) simp_all
  show ?thesis
    unfolding mediate_mcp_tool_call_def
  proof (rule spent_order.bind [OF spent_quiet(1) spent_policy], rule spent_decision, goal_cases)
    case 1
    show ?case
      by (cases "find_mcp_server P server")
        (auto simp: Let_def spent_deny intro!: spent_order.bind [OF spent_quiet(5)] q)
  qed
qed

lemma spent_mediators:
  "moves (spent P c cap) (mediate_filesystem_read W path rsid)"
  "moves (spent P c cap) (mediate_filesystem_write W path b rsid)"
  "moves (spent P c cap) (mediate_filesystem_delete W path rsid)"
  "moves (spent P c cap) (mediate_exec W path eargs rsid)"
  unfolding mediate_filesystem_read_def mediate_filesystem_write_def mediate_filesystem_delete_def mediate_exec_def
  by (rule spent_order.bind spent_quiet spent_gated call_once call_tails | simp)+

interpretation spent_frame: turn_frame "spent P c cap" W for P c cap W
  by unfold_locales (auto intro!: spent_same spent_mediators spent_connect spent_mcp)

section \<open>Properties\<close>

definition within_quota :: "ToolClass \<Rightarrow> session \<Rightarrow> bool" where
  "within_quota c s \<longleftrightarrow>
     (c = ClassNetwork \<longrightarrow> tally c s = 0) \<and>
     (\<forall>cap. cap_of (s_policy s) c = Some cap \<and> c \<noteq> ClassNetwork \<and> told_apart (s_policy s) c \<longrightarrow>
        tally c s \<le> cap \<and> calls_of (s_policy s) c s \<le> unat (tally c s))"

lemma within_quota_step:
  assumes "\<And>P cap. spent P c cap s s'" and "within_quota c s"
  shows "within_quota c s'"
  using assms(1) [of "s_policy s"] assms(2) unfolding within_quota_def spent_def by fastforce

definition all_spent :: "ToolClass \<Rightarrow> session \<Rightarrow> session \<Rightarrow> bool" where
  "all_spent c s s' \<longleftrightarrow> (\<forall>P cap. spent P c cap s s')"

lemma all_spent_moves: "(\<And>P cap. moves (spent P c cap) m) \<Longrightarrow> moves (all_spent c) m"
  by (simp add: moves_def all_spent_def)

interpretation all_spent_frame: turn_frame "all_spent c" W for c W
proof unfold_locales
  fix s s1 s2 show "all_spent c s s" by (simp add: all_spent_def spent_order.step_refl)
  show "all_spent c s s1 \<Longrightarrow> all_spent c s1 s2 \<Longrightarrow> all_spent c s s2"
    unfolding all_spent_def using spent_order.step_trans by blast
next
  fix s x r w t show "append_entry W x (s_ledger s) = (r, w) \<Longrightarrow> all_spent c s (s\<lparr> s_ledger := w \<rparr>)"
    "all_spent c s (s\<lparr> s_env := e \<rparr>)" "all_spent c s (s\<lparr> s_current_turn_svid := t \<rparr>)" for e
    by (auto simp: all_spent_def intro: spent_same)
qed (auto intro!: all_spent_moves spent_mediators spent_connect spent_mcp)

lemma reachable_within_quota: "reachable W s \<Longrightarrow> within_quota c s"
proof (erule all_spent_frame.reachable_invariant [where c = c])
  show "all_spent c s s' \<Longrightarrow> within_quota c s \<Longrightarrow> within_quota c s'" for s s'
    unfolding all_spent_def by (blast intro: within_quota_step)
qed (auto simp: within_quota_def tally_def calls_of_def boot_fresh attach_defs aggregate_new_def aggregate_snapshot_def)

text \<open>C8: Quotas bound what a session does, except on the network. In every reachable session, for each class
  of tools other than network connections that has a declared cap on calls, the calls of that class that
  left the process number at most the tally of the class, and the tally is at most the cap: filesystem
  reads, writes and deletes together, executions, and the calls of each MCP server. Calls to MCP servers
  are told apart by their URI, so that for these the entries of the manifest with one URI have to have one
  name. (Network connections are not counted at all.)\<close>

theorem calls_within_quota:
  assumes "reachable W s" and "cap_of (s_policy s) c = Some cap" and "c \<noteq> ClassNetwork"
    and "told_apart (s_policy s) c"
  shows "calls_of (s_policy s) c s \<le> unat (tally c s) \<and> tally c s \<le> cap"
  using reachable_within_quota [OF assms(1), of c] assms(2-4) by (simp add: within_quota_def)

theorem calls_within_quota_witness:
  "\<exists>s. reachable (demo_world demo_writer_manifest) s \<and> calls_of (s_policy s) ClassFilesystem s = 1 \<and>
     1 \<le> unat (tally ClassFilesystem s) \<and> tally ClassFilesystem s \<le> 1"
proof -
  obtain s s' where s: "reachable (demo_world demo_writer_manifest) s" "s_effects s = []"
      "s_policy s = policy_from_manifest demo_writer_manifest"
    and w: "mediate_filesystem_write (demo_world demo_writer_manifest) ''manifest'' ''x'' None s = (Inr (), s')"
  proof -
    have "check_reserved (policy_from_manifest demo_writer_manifest) = Inr ()" "m_extends demo_writer_manifest = []"
      by (simp_all add: check_reserved_def policy_from_manifest_def demo_writer_manifest_def empty_manifest_def)
    from demo_boot [OF this, of V2] obtain s where s: "demo_session demo_writer_manifest V2 s"
      "s_aggregate_state s = aggregate_new" "s_effects s = []" by auto
    from demo_overwrite [OF this(1,2)] s that show ?thesis by (auto simp: demo_session_def)
  qed
  from s(1) w have r: "reachable (demo_world demo_writer_manifest) s'" by (blast intro: reachable.by_write)
  have p: "s_policy s' = policy_from_manifest demo_writer_manifest"
    using config_fields(1) [OF movesD [OF config_mediators(2) w]] s(3) by simp
  from write_recorded [OF w] s(2) obtain log where "s_effects s' = [(EffWrite ''manifest'' ''x'', log)]"
    by (auto simp: recorded_def)
  then have "calls_of (s_policy s') ClassFilesystem s' = 1" by (simp add: calls_of_def)
  moreover have "cap_of (s_policy s') ClassFilesystem = Some 1" "told_apart (s_policy s') ClassFilesystem"
    by (simp_all add: p cap_of_def told_apart_def policy_from_manifest_def demo_writer_manifest_def)
  ultimately show ?thesis using calls_within_quota [OF r, of ClassFilesystem 1] r by auto
qed

definition demo_capped_network :: Manifest where
  "demo_capped_network = empty_manifest
     \<lparr> m_tools := \<lparr> t_filesystem = None, t_network = Some \<lparr> net_outbound = Some (PolicyMode ModeAllow),
           net_inbound = None, net_quota = Some \<lparr> max_calls_per_session = Some 0 \<rparr>, net_approval = None \<rparr>,
         t_apis = [], t_mcp = [], t_exec = None \<rparr> \<rparr>"

lemma demo_connects:
  "\<exists>s s'. reachable (demo_world demo_capped_network) s \<and> cap_of (s_policy s) ClassNetwork = Some 0 \<and>
     mediate_network_connect (demo_world demo_capped_network) ''h'' 80 ProtoTcp None s = (Inr (), s')"
proof -
  let ?W = "demo_world demo_capped_network"
  have "check_reserved (policy_from_manifest demo_capped_network) = Inr ()" "m_extends demo_capped_network = []"
    by (simp_all add: check_reserved_def policy_from_manifest_def demo_capped_network_def empty_manifest_def)
  from demo_boot [OF this, of V2] obtain s where s: "demo_session demo_capped_network V2 s" by auto
  then have p: "s_policy s = policy_from_manifest demo_capped_network" and r: "reachable ?W s" and l: "live s"
    by (simp_all add: demo_session_def)
  have d: "check_network_outbound (s_policy s) ''h'' 80 ProtoTcp = Allow"
    by (simp add: p check_network_outbound_def network_decision_def upgrade_for_approval_def
        policy_from_manifest_def demo_capped_network_def empty_manifest_def)
  let ?t = "ticked (ticked (ticked s))" and ?uri = "network_uri ''h'' 80 ProtoTcp"
  obtain s1 where c: "do_connect ?W ''h'' 80 ?t = (Inr (), s1)"
    by (simp add: do_connect_def record_effect_def bindA_def modA_def zoomA_def tickA_def okA_def)
  have "live s1" using calls_perform(4) [OF c] l by (simp add: performed_def)
  then obtain s2 where e: "emit_success ?W ?uri AccNetworkOutbound 0 None s1 = (Inr (), s2)"
    using appends_live [OF appends_emit_success [OF uri_nonempty(2)]] by (metis old.unit.exhaust)
  have "mediate_network_connect ?W ''h'' 80 ProtoTcp None s =
      log_connection ?W ''h'' 80 ProtoTcp ConnAllowed s2"
    using d c e demo_session_ticked [OF s]
    by (simp add: mediate_network_connect_def bindA_ok [where m = "rebind ?W"] bindA_getA route_through_approval_def
        bindA_tryA okA_def connect_on_decision_def bindA_ok [where m = "do_connect ?W ''h'' 80", OF c]
        bindA_ok [where m = "emit_success ?W ?uri AccNetworkOutbound 0 None", OF e])
  moreover obtain s3 where "log_connection ?W ''h'' 80 ProtoTcp ConnAllowed s2 = (Inr () :: engine_error + unit, s3)"
    by (simp add: log_connection_def bindA_tick modA_def)
  moreover have "cap_of (s_policy s) ClassNetwork = Some 0"
    by (simp add: p cap_of_def policy_from_manifest_def demo_capped_network_def)
  ultimately show ?thesis using r by auto
qed

text \<open>C13: The network quota is not enforced. \<open>mediate_network_connect\<close> never asks the quota gate: the
  tally of network calls is zero in every reachable session, so a cap on them refuses nothing; in a
  session whose manifest caps network calls at zero a connection succeeds.\<close>

theorem network_quota_never_counted:
  assumes "reachable W s"
  shows "tally ClassNetwork s = 0 \<and>
    (\<exists>s s'. reachable (demo_world demo_capped_network) s \<and> cap_of (s_policy s) ClassNetwork = Some 0 \<and>
       mediate_network_connect (demo_world demo_capped_network) ''h'' 80 ProtoTcp None s = (Inr (), s'))"
  using reachable_within_quota [OF assms, of ClassNetwork] demo_connects by (simp add: within_quota_def)

theorem network_quota_never_counted_witness:
  "\<exists>(s :: session) s'. reachable (demo_world demo_capped_network) s' \<and> tally ClassNetwork s' = 0 \<and> s_effects s' \<noteq> s_effects s"
proof -
  obtain s s' where s: "reachable (demo_world demo_capped_network) s"
    "mediate_network_connect (demo_world demo_capped_network) ''h'' 80 ProtoTcp None s = (Inr (), s')"
    using demo_connects by blast
  then have r: "reachable (demo_world demo_capped_network) s'" by (blast intro: reachable.by_connect)
  from connect_recorded [OF s(2)] have "s_effects s' \<noteq> s_effects s" by (auto simp: recorded_def)
  with network_quota_never_counted [OF r] r show ?thesis by (intro exI [of _ s] exI [of _ s']) simp
qed

end
