(* ===== verification/Approvals.thy ===== *)
theory Approvals
  imports Quotas
begin

text \<open>
  The approval gate: what each answer of the operator leads to, what is written, and what is remembered.
\<close>

section \<open>Writing a row of entries\<close>

definition wrote :: "EntryType list \<Rightarrow> session \<Rightarrow> session \<Rightarrow> bool" where
  "wrote ks s s' \<longleftrightarrow> (\<exists>es. s_log s' = s_log s @ es \<and> map e_entry_type es = ks) \<and>
     s_effects s' = s_effects s \<and> s_aggregate_state s' = s_aggregate_state s \<and> s_policy s' = s_policy s \<and>
     s_approval_channel s' = s_approval_channel s \<and> (live s \<longrightarrow> live s')"

lemma wrote_nil [simp]: "wrote [] s s"
  by (simp add: wrote_def)

lemma wrote_trans: "wrote ks s s1 \<Longrightarrow> wrote ks' s1 s2 \<Longrightarrow> wrote (ks @ ks') s s2"
  unfolding wrote_def by (metis append.assoc map_append)

lemma wrote_ticked [simp]: "wrote ks (ticked s) s' = wrote ks s s'" "wrote ks s (ticked s') = wrote ks s s'"
  by (simp_all add: wrote_def)

lemma wrote_live: "wrote ks s s' \<Longrightarrow> live s \<Longrightarrow> live s'"
  by (simp add: wrote_def)

text \<open>Storing a grant writes nothing.\<close>

lemma wrote_table [simp]: "wrote ks s (s'\<lparr> s_grant_table := g \<rparr>) = wrote ks s s'"
  by (simp add: wrote_def live_def)

lemma append_run:
  assumes "appends (entry_kind ty) m" and "live s"
  obtains u s' where "m s = (Inr u, s')" and "wrote [ty] s s'" and "s_grant_table s' = s_grant_table s"
proof -
  obtain u s' where m: "m s = (Inr u, s')" using appends_live [OF assms] by blast
  from appends_Inr [OF assms(1) m] obtain e where l: "logs_only s s'" and
    e: "s_log s' = s_log s @ [e]" "entry_kind ty s e" by blast
  have "wrote [ty] s s'"
    using e logs_only_fields(1,5,7,9) [OF l] live_logs_only [OF l]
    by (auto simp: wrote_def entry_kind_def intro!: exI [of _ "[e]"])
  with m logs_only_fields(8) [OF l] that show thesis by blast
qed

lemma run_entry:
  fixes m :: "(session, engine_error, unit) act"
  assumes "appends (entry_kind ty) m" and "live s" and "bindA m f s = (r, s')"
  obtains s1 where "f () s1 = (r, s')" and "wrote [ty] s s1" and "s_grant_table s1 = s_grant_table s"
proof -
  obtain u s1 where "m s = (Inr u, s1)" "wrote [ty] s s1" "s_grant_table s1 = s_grant_table s"
    by (rule append_run [OF assms(1,2)])
  with assms(3) that show thesis by (simp add: bindA_ok)
qed

section \<open>The operator's answer\<close>

definition answered :: "'w world_scheme \<Rightarrow> u64 \<Rightarrow> string \<Rightarrow> json \<Rightarrow> ApprovalOutcome \<Rightarrow> session
    \<Rightarrow> engine_error + Decision \<Rightarrow> session \<Rightarrow> bool" where
  "answered W ttl tool args outcome s r s' \<longleftrightarrow>
     (case outcome of
        OutcomeGranted who t \<Rightarrow> r = Inr Allow \<and> wrote [ApprovalGranted, ApprovalDecision] s s' \<and>
          (\<exists>gid now. s_grant_table s' =
             grant_insert (grant_allow W gid now tool args (seconds (int (unat ttl)))) (s_grant_table s))
      | OutcomeRejected why t \<Rightarrow> r = Inl (EngDenied (''approval rejected: '' @ why)) \<and>
          wrote [ApprovalRejected] s s' \<and>
          (\<exists>gid now. s_grant_table s' =
             grant_insert (grant_deny W gid now tool args (seconds (int (unat ttl))) why) (s_grant_table s))
      | OutcomeTimedOut t \<Rightarrow> r = Inl (EngDenied ''approval timed out'') \<and>
          wrote [ApprovalTimedOut] s s' \<and> s_grant_table s' = s_grant_table s)"

lemma decision_granted_kind:
  "appends (entry_kind ApprovalDecision) (emit_approval_decision_granted W tool uri kind rsid gid h who ttl)"
  "appends (entry_kind ApprovalDecision) (emit_approval_decision_advisory W tool args uri kind rsid)"
  using appends_approval_decisions(3,1)
  unfolding emit_approval_decision_granted_def emit_approval_decision_advisory_def
  by (simp_all add: appends_kind RESERVED_KEYS_def)

lemma act_on_outcome_answered:
  assumes "live s" and "act_on_outcome W req ttl rsid tool args outcome s = (r, s')"
  shows "answered W ttl tool args outcome s r s'"
proof (cases outcome)
  case (OutcomeGranted who t)
  let ?g = "\<lambda>s1. grant_allow W (w_now_v7 W (en_tick (s_env s1))) (w_system_now W (en_tick (s_env (ticked s1)))) tool args
    (seconds (int (unat ttl)))"
  from assms(2) OutcomeGranted obtain s1 where 1: "wrote [ApprovalGranted] s s1" "s_grant_table s1 = s_grant_table s"
    and n: "bindA (insert_grant (?g s1)) (\<lambda>_. bindA (emit_approval_decision_granted W tool (aq_resource_uri req)
       (aq_access_type req) rsid (w_now_v7 W (en_tick (s_env s1))) (arg_hash_hex W (?g s1)) who ttl) (\<lambda>_. okA Allow))
       (ticked (ticked s1)) = (r, s')"
    by (auto simp: act_on_outcome_def bindA_tick Let_def elim!: run_entry [OF appends_approval_entries(2) assms(1)])
  let ?s2 = "(ticked (ticked s1))\<lparr> s_grant_table := grant_insert (?g s1) (s_grant_table s1) \<rparr>"
  have 2: "wrote [ApprovalGranted] s ?s2" using 1(1) by simp
  from n have "bindA (emit_approval_decision_granted W tool (aq_resource_uri req) (aq_access_type req) rsid
      (w_now_v7 W (en_tick (s_env s1))) (arg_hash_hex W (?g s1)) who ttl) (\<lambda>_. okA Allow) ?s2 = (r, s')"
    by (simp add: insert_grant_def bindA_modA)
  then obtain s3 where "r = Inr Allow" "s' = s3" "wrote [ApprovalDecision] ?s2 s3" "s_grant_table s3 = s_grant_table ?s2"
    by (rule run_entry [OF decision_granted_kind(1) wrote_live [OF 2 assms(1)]]) (auto simp: okA_def)
  with wrote_trans [OF 2] 1(2) OutcomeGranted show ?thesis by (auto simp: answered_def)
next
  case (OutcomeRejected why t)
  with assms(2) show ?thesis
    by (auto simp: act_on_outcome_def bindA_tick answered_def insert_grant_def bindA_modA errA_def
        elim!: run_entry [OF appends_approval_entries(3) assms(1)]) blast
next
  case (OutcomeTimedOut t)
  with assms(2) show ?thesis
    by (auto simp: act_on_outcome_def answered_def errA_def elim!: run_entry [OF appends_approval_entries(4) assms(1)])
qed

text \<open>The whole gate, for a decision that asks for approval in a tier that awaits it.\<close>

definition routed :: "'w world_scheme \<Rightarrow> string \<Rightarrow> ToolClass \<Rightarrow> string \<Rightarrow> json \<Rightarrow> session
    \<Rightarrow> engine_error + Decision \<Rightarrow> session \<Rightarrow> bool" where
  "routed W summary c tool args s r s' \<longleftrightarrow>
     (case grant_lookup W (s_grant_table s) tool args (w_system_now W (en_tick (s_env s))) of
        Some g \<Rightarrow> wrote [ApprovalDecision] s s' \<and> s_grant_table s' = s_grant_table s \<and>
          r = (case g_decision g of
                 GrantAllow \<Rightarrow> Inr Allow
               | GrantDeny why \<Rightarrow> Inl (EngDenied (''approval grant denied: '' @ why)))
      | None \<Rightarrow>
          (case s_approval_channel s of
             None \<Rightarrow> r = Inr (RequireApproval summary) \<and> wrote [] s s' \<and> s_grant_table s' = s_grant_table s
           | Some channel \<Rightarrow>
               (\<exists>t req s1. wrote [ApprovalRequest] s s1 \<and> s_grant_table s1 = s_grant_table s \<and>
                  aq_action_summary req = summary \<and> aq_session_id req = s_session_id s \<and>
                  (case channel t req of
                     Inl e \<Rightarrow> wrote [] s1 s' \<and> s_grant_table s' = s_grant_table s1 \<and>
                       (\<exists>io. r = Inl (EngDenied (''approval channel: '' @ gate_error_display io e)))
                   | Inr outcome \<Rightarrow>
                       answered W (approval_ttl_secs (s_policy s) c) tool args outcome s1 r s'))))"

lemma answered_ticked [simp]: "answered W ttl tool args outcome (ticked s) r s' = answered W ttl tool args outcome s r s'"
  by (cases outcome) (simp_all add: answered_def)

lemma prompt_routed:
  assumes "live s" and "s_approval_channel s = Some channel"
    and "prompt_operator W summary uri kind rsid ttl tool args s = (r, s')"
  shows "\<exists>t req s1. wrote [ApprovalRequest] s s1 \<and> s_grant_table s1 = s_grant_table s \<and>
     aq_action_summary req = summary \<and> aq_session_id req = s_session_id s \<and>
     (case channel t req of
        Inl e \<Rightarrow> wrote [] s1 s' \<and> s_grant_table s' = s_grant_table s1 \<and>
          (\<exists>io. r = Inl (EngDenied (''approval channel: '' @ gate_error_display io e)))
      | Inr outcome \<Rightarrow> answered W ttl tool args outcome s1 r s')"
proof -
  let ?req = "\<lparr> aq_action_summary = summary, aq_resource_uri = uri, aq_access_type = kind,
    aq_session_id = s_session_id s, aq_reasoning_step_id = rsid, aq_timeout = DEFAULT_TIMEOUT \<rparr>"
  obtain s1 where 1: "wrote [ApprovalRequest] s s1" "s_grant_table s1 = s_grant_table s"
    and n: "(case channel (en_tick (s_env s1)) ?req of
        Inl e \<Rightarrow> errA (EngDenied (''approval channel: '' @ gate_error_display (w_io_error_text W (en_tick (s_env (ticked s1)))) e))
      | Inr answer \<Rightarrow> act_on_outcome W ?req ttl rsid tool args answer) (ticked (ticked s1)) = (r, s')"
    using assms(3)
    by (auto simp: prompt_operator_def bindA_getA assms(2) Let_def bindA_tick
        elim!: run_entry [OF appends_approval_entries(1) assms(1)])
  have l: "live (ticked (ticked s1))" using wrote_live [OF 1(1) assms(1)] by simp
  have "case channel (en_tick (s_env s1)) ?req of
      Inl e \<Rightarrow> wrote [] s1 s' \<and> s_grant_table s' = s_grant_table s1 \<and>
        (\<exists>io. r = Inl (EngDenied (''approval channel: '' @ gate_error_display io e)))
    | Inr outcome \<Rightarrow> answered W ttl tool args outcome s1 r s'"
  proof (cases "channel (en_tick (s_env s1)) ?req")
    case (Inl e)
    with n show ?thesis by (auto simp: errA_def)
  next
    case (Inr outcome)
    with n act_on_outcome_answered [OF l] show ?thesis by simp
  qed
  with 1 show ?thesis by (intro exI [of _ "en_tick (s_env s1)"] exI [of _ ?req] exI [of _ s1]) simp
qed

lemma route_routed:
  assumes "live s" and "approval_tier (s_policy s) c \<noteq> Advisory"
    and "route_through_approval W (RequireApproval summary) uri kind rsid c tool args s = (r, s')"
  shows "routed W summary c tool args s r s'"
proof (cases "grant_lookup W (s_grant_table s) tool args (w_system_now W (en_tick (s_env s)))")
  case (Some g)
  with assms(2,3) have "bindA (emit_approval_decision_auto_consumed W tool uri kind rsid (g_grant_id g)
        (arg_hash_hex W g) (g_decision g)) (\<lambda>_. case g_decision g of GrantAllow \<Rightarrow> okA Allow
      | GrantDeny reason \<Rightarrow> errA (EngDenied (''approval grant denied: '' @ reason))) (ticked s) = (r, s')"
    by (simp add: route_through_approval_def bindA_getA bindA_tick)
  moreover have "live (ticked s)" using assms(1) by simp
  ultimately show ?thesis
    using Some by (elim run_entry [OF appends_auto_consumed, rotated])
      (auto simp: routed_def okA_def errA_def split: GrantDecision.splits)
next
  case None
  with assms(2,3) have p: "prompt_operator W summary uri kind rsid (approval_ttl_secs (s_policy s) c) tool args (ticked s)
      = (r, s')"
    by (simp add: route_through_approval_def bindA_getA bindA_tick)
  show ?thesis
  proof (cases "s_approval_channel s")
    case None
    with p show ?thesis
      using \<open>grant_lookup _ _ _ _ _ = None\<close>
      by (auto simp: routed_def prompt_operator_def bindA_getA okA_def)
  next
    case (Some channel)
    have "live (ticked s)" using assms(1) by simp
    from prompt_routed [OF this _ p] Some \<open>grant_lookup _ _ _ _ _ = None\<close> show ?thesis
      by (simp add: routed_def)
  qed
qed

section \<open>Property\<close>

text \<open>C9: What the approval gate does. For a decision that asks for approval, in a tier that awaits it and
  with a working ledger: a live cached decision for the same tool and arguments is replayed with one
  entry and without asking; with no channel the question is handed back and nothing is written; an
  answer of the operator is preceded by its request entry, a grant allows the call and is cached, a
  rejection denies it and is cached too, a timeout or a failure of the channel denies it and caches
  nothing. No branch performs a call.\<close>

theorem approval_routing:
  assumes "live s" and "approval_tier (s_policy s) c \<noteq> Advisory"
    and "route_through_approval W (RequireApproval summary) uri kind rsid c tool args s = (r, s')"
  shows "routed W summary c tool args s r s' \<and> s_effects s' = s_effects s"
  using route_routed [OF assms] gate_fields(5) [OF movesD [OF route_moves assms(3)]] by simp

theorem approval_routing_witness:
  "\<exists>s s'. reachable (demo_world empty_manifest) s \<and>
     route_through_approval (demo_world empty_manifest) (RequireApproval ''why'') ''u'' ''write'' None ClassFilesystem
       ''filesystem__write'' JNull s = (Inl (EngDenied ''approval rejected: no''), s') \<and>
     wrote [ApprovalRequest, ApprovalRejected] s s'"
proof -
  let ?W = "demo_world empty_manifest"
  have "check_reserved (policy_from_manifest empty_manifest) = Inr ()" "m_extends empty_manifest = []"
    by (simp_all add: check_reserved_def policy_from_manifest_def empty_manifest_def)
  from demo_boot [OF this, of V2] obtain s0 where s0: "demo_session empty_manifest V2 s0"
    "s_grant_table s0 = grant_table_new" by auto
  let ?s = "with_approval_channel s0 (\<lambda>_ _. Inr (OutcomeRejected ''no'' 0))"
  have r: "reachable ?W ?s" using s0 by (auto simp: demo_session_def intro: reachable.with_approval_channel)
  have l: "live ?s" using s0 by (simp add: demo_session_def with_approval_channel_def live_def)
  have "s_policy ?s = policy_from_manifest empty_manifest"
    using s0 by (simp add: demo_session_def with_approval_channel_def)
  then have t: "approval_tier (s_policy ?s) ClassFilesystem \<noteq> Advisory"
    by (simp add: approval_tier_def policy_from_manifest_def empty_manifest_def)
  obtain res s' where m: "route_through_approval ?W (RequireApproval ''why'') ''u'' ''write'' None ClassFilesystem
       ''filesystem__write'' JNull ?s = (res, s')" by fastforce
  have "grant_lookup ?W (s_grant_table ?s) ''filesystem__write'' JNull now = None" for now
    using s0(2) by (simp add: with_approval_channel_def grant_lookup_def grant_table_new_def)
  with approval_routing [OF l t m] obtain s1 where 1: "wrote [ApprovalRequest] ?s s1"
    "answered ?W (approval_ttl_secs (s_policy ?s) ClassFilesystem) ''filesystem__write'' JNull
       (OutcomeRejected ''no'' 0) s1 res s'"
    by (auto simp: routed_def with_approval_channel_def)
  then have 2: "res = Inl (EngDenied ''approval rejected: no'')" "wrote [ApprovalRejected] s1 s'"
    by (simp_all add: answered_def)
  from wrote_trans [OF 1(1) 2(2)] have "wrote [ApprovalRequest, ApprovalRejected] ?s s'" by simp
  with r m 2(1) show ?thesis by (intro exI [of _ ?s] exI [of _ s']) simp
qed

end
