(* ===== verification/Driver.thy ===== *)
theory Driver
  imports Approvals
begin

text \<open>
  The turn driver as a whole: which errors can end a run, how many turns it makes, and the skeleton of
  turn entries it leaves in the ledger.
\<close>

section \<open>Errors\<close>

definition errs :: "('e \<Rightarrow> bool) \<Rightarrow> ('s, 'e, 'a) act \<Rightarrow> bool" where
  "errs P m \<longleftrightarrow> (\<forall>s x s'. m s = (Inl x, s') \<longrightarrow> P x)"

lemma errsD: "errs P m \<Longrightarrow> m s = (Inl x, s') \<Longrightarrow> P x"
  unfolding errs_def by blast

lemma errs_bind: "errs P m \<Longrightarrow> (\<And>x. errs P (f x)) \<Longrightarrow> errs P (bindA m f)"
  unfolding errs_def bindA_eq_err by blast

lemma errs_leaves:
  "errs P (okA x)" "errs P (getA g)" "errs P (modA h)" "errs P (tryA m)" "errs P (tickA f)" "errs P (change_fsA c)"
  by (auto simp: errs_def okA_def getA_def modA_def tryA_def tickA_def change_fsA_def split: prod.splits)

lemma errs_read_file: "errs P (read_fileA W path)"
  unfolding read_fileA_def by (auto intro!: errs_bind errs_leaves)

lemma errs_maps:
  "P e \<Longrightarrow> errs P (errA e)" "(\<And>e. x = Inl e \<Longrightarrow> P e) \<Longrightarrow> errs P (liftA x)"
  by (auto simp: errs_def errA_def liftA_def)

lemma errs_zoom: "errs P m \<Longrightarrow> errs P (zoomA g p m)"
  by (auto simp: errs_def zoomA_def split: prod.splits)

lemma errs_mapErr: "(\<And>e. P (F e)) \<Longrightarrow> errs P (mapErrA F m)"
  by (auto simp: errs_def mapErrA_def split: prod.splits sum.splits)

lemma errs_utc_now: "errs P (utc_now W)"
  unfolding utc_now_def by (rule errs_zoom errs_leaves)+

text \<open>A result handed on as a value carries no other errors than its action had.\<close>

lemma errs_try:
  assumes "errs P m" and "\<And>e. P e \<Longrightarrow> errs Q (f (Inl e))" and "\<And>x. errs Q (f (Inr x))"
  shows "errs Q (bindA (tryA m) f)"
  unfolding errs_def bindA_tryA
proof (intro allI impI)
  fix s x s' assume f: "f (fst (m s)) (snd (m s)) = (Inl x, s')"
  show "Q x"
  proof (cases "m s")
    case (Pair r s1)
    with f have f: "f r s1 = (Inl x, s')" by simp
    show ?thesis
    proof (cases r)
      case (Inl e)
      with f Pair errsD [OF assms(2)] errsD [OF assms(1)] show ?thesis by blast
    next
      case (Inr y)
      with f errsD [OF assms(3)] show ?thesis by blast
    qed
  qed
qed

lemmas errs_intros = errs_bind errs_leaves errs_read_file errs_maps errs_zoom errs_mapErr errs_utc_now

lemma of_panic_err: "of_panic x = Inl e \<Longrightarrow> e = EngPanic"
  by (simp add: of_panic_def of_option_def split: option.splits)

text \<open>The errors of a mediated call are never those of the driver's own bounds, nor those of the boot.\<close>

fun not_cap :: "engine_error \<Rightarrow> bool" where
  "not_cap (EngTurnCapExceeded b t mt tok mtok wc ms) = False"
| "not_cap (EngSerde e) = False"
| "not_cap (EngSvidSelfCheck e) = False"
| "not_cap (EngChatTemplateSidecar path e) = False"
| "not_cap (EngReservedMcpServerName n) = False"
| "not_cap _ = True"

lemma not_cap_ledger: "ledger_failure x \<Longrightarrow> not_cap x"
  by (auto simp: ledger_failure_def)

lemma errs_digests: "errs not_cap (compute_digests W a b c)" "errs not_cap (compute_live_digests W)"
  using compute_digests_Inl live_digests_step(3) by (fastforce simp: errs_def)+

lemma errs_rebind: "errs not_cap (rebind W)"
  unfolding rebind_def by (auto intro!: errs_intros errs_digests)

lemma errs_emit:
  "errs not_cap (append_session W ty kvs)" "errs not_cap (emit_success W uri aty n rsid)"
  "errs not_cap (emit_deny W uri kind reason)" "errs not_cap (log_connection W host port proto k)"
  "errs not_cap (record_reasoning_step W input reasoning cons sel)"
  unfolding append_session_def emit_success_def emit_deny_def log_connection_def record_reasoning_step_def
  by (auto intro!: errs_intros)

lemma errs_approval_entries:
  "errs not_cap (emit_approval_request W req)" "errs not_cap (emit_approval_granted W req who t)"
  "errs not_cap (emit_approval_rejected W req reason t)" "errs not_cap (emit_approval_timed_out W req t)"
  "errs not_cap (emit_approval_decision_advisory W tool args uri kind rsid)"
  "errs not_cap (emit_approval_decision_auto_consumed W tool uri kind rsid gid h d)"
  "errs not_cap (emit_approval_decision_granted W tool uri kind rsid gid h who ttl)"
  unfolding emit_approval_request_def emit_approval_granted_def emit_approval_rejected_def
    emit_approval_timed_out_def emit_approval_decision_advisory_def emit_approval_decision_auto_consumed_def
    emit_approval_decision_granted_def
  by (rule errs_intros errs_emit)+

lemma errs_route: "errs not_cap (route_through_approval W d uri kind rsid c tool args)"
  unfolding route_through_approval_def prompt_operator_def act_on_outcome_def insert_grant_def
  by (auto simp: Let_def intro!: errs_intros errs_approval_entries split: Decision.splits option.splits sum.splits
      ApprovalOutcome.splits GrantDecision.splits)

lemma errs_enforce: "errs not_cap (enforce_aggregate_quota W c uri kind)"
  unfolding enforce_aggregate_quota_def write_aggregate_cap_violation_def
  by (auto intro!: errs_intros errs_emit split: sum.splits)

lemma errs_calls:
  "errs not_cap (do_read W path)" "errs not_cap (do_write W path b)" "errs not_cap (do_delete W path)"
  "errs not_cap (do_connect W host port)" "errs not_cap (do_exec W path args)"
  "errs not_cap (do_mcp_call client uri tool v)" "errs not_cap (file_uri W path)"
  unfolding do_read_def do_write_def do_delete_def do_connect_def do_exec_def do_mcp_call_def record_effect_def
    file_uri_def
  by (auto intro!: errs_intros split: option.splits sum.splits)

lemma errs_decision: "errs not_cap m \<Longrightarrow> errs not_cap (on_decision W d uri kind m)"
  unfolding on_decision_def by (auto intro!: errs_intros errs_emit split: Decision.splits)

lemma errs_gated: "errs not_cap m \<Longrightarrow> errs not_cap (gated W d uri kind rsid c tool args m)"
  unfolding gated_def by (rule errs_bind errs_route errs_enforce errs_decision | assumption)+

lemma errs_pre_validate: "errs not_cap (run_mcp_pre_validate W server tool args cs)"
proof (induction cs)
  case (Cons c cs)
  have "errs not_cap (clause_decision W server tool arg kind start v)" for arg kind start v
    unfolding clause_decision_def
    by (auto intro!: errs_intros dest!: of_panic_err parse_err split: PreValidateKind.splits prod.splits)
  then have "errs not_cap (pre_validate_values W server tool c start vs)" for start vs
    by (induction vs) (auto intro!: errs_intros errs_emit split: Decision.splits)
  then show ?case using Cons by (auto intro!: errs_intros dest!: extract_err)
qed (auto intro: errs_intros)

lemma errs_mediators:
  "errs not_cap (mediate_filesystem_read W path rsid)"
  "errs not_cap (mediate_filesystem_write W path b rsid)"
  "errs not_cap (mediate_filesystem_delete W path rsid)"
  "errs not_cap (mediate_exec W path eargs rsid)"
  "errs not_cap (mediate_network_connect W host port proto rsid)"
  "errs not_cap (mediate_mcp_tool_call W server tool args rsid)"
proof -
  note rules = errs_gated errs_decision errs_leaves errs_maps errs_zoom errs_mapErr errs_utc_now errs_rebind errs_emit errs_calls errs_route
    errs_enforce errs_pre_validate errs_bind
  show "errs not_cap (mediate_filesystem_read W path rsid)"
    "errs not_cap (mediate_filesystem_write W path b rsid)"
    "errs not_cap (mediate_filesystem_delete W path rsid)"
    "errs not_cap (mediate_exec W path eargs rsid)"
    "errs not_cap (mediate_mcp_tool_call W server tool args rsid)"
    unfolding mediate_filesystem_read_def mediate_filesystem_write_def mediate_filesystem_delete_def
      mediate_exec_def mediate_mcp_tool_call_def call_mcp_client_def Let_def
    by (auto intro!: rules dest!: of_panic_err split: option.splits)
  show "errs not_cap (mediate_network_connect W host port proto rsid)"
    unfolding mediate_network_connect_def
  proof (rule errs_bind [OF errs_rebind errs_bind [OF errs_leaves(2) errs_try [OF errs_route]]], goal_cases)
    case (1 u d e)
    then show ?case by (auto intro!: rules)
  next
    case (2 u d dec)
    then show ?case by (auto simp: connect_on_decision_def intro!: rules split: Decision.splits)
  qed
qed

section \<open>What a turn can fail with\<close>

text \<open>The errors that halt a run: of the files, of the identity, of the ledger and its emitters, of the
  backend or its absence, a panic, and a tool call whose arguments lack what a \<open>pre_validate\<close> clause
  names. Nothing else does.\<close>

fun halting :: "engine_error \<Rightarrow> bool" where
  "halting EngIo = True"
| "halting (EngIdentity e) = True"
| "halting (EngPolicy e) = True"
| "halting (EngLedger e) = True"
| "halting (EngAccessLog e) = True"
| "halting EngNoBackendConfigured = True"
| "halting (EngBackendInfer e) = True"
| "halting (EngMcpPreValidateMalformedArg server tool arg reason) = True"
| "halting EngPanic = True"
| "halting _ = False"

lemma errs_call_result:
  "errs not_cap m \<Longrightarrow> errs halting (bindA (tryA m) (\<lambda>r. bindA (liftA (call_result r)) (\<lambda>res. okA (call_outcome c res))))"
proof (rule errs_try, assumption, goal_cases)
  case (1 e)
  then show ?case by (cases e) (auto intro!: errs_intros simp: call_result_def)
qed (auto intro!: errs_intros simp: call_result_def)

lemma errs_if: "errs P m \<Longrightarrow> errs P n \<Longrightarrow> errs P (if c then m else n)"
  by simp

lemma errs_pair: "(\<And>x y. errs P (f x y)) \<Longrightarrow> errs P (case p of (x, y) \<Rightarrow> f x y)"
  by (cases p) simp

lemma errs_args:
  "errs not_cap (liftA (string_arg L args key))" "errs not_cap (liftA (u16_arg L args key))"
  "errs not_cap (liftA (proto_arg L args))"
  by (auto intro!: errs_maps(2) simp: string_arg_def u16_arg_def proto_arg_def of_option_def andThen_def Let_def
      split: option.splits if_splits)

lemma errs_namespace: "errs not_cap (dispatch_namespace W ns tool args rsid)"
  unfolding dispatch_namespace_def dispatch_native_filesystem_def dispatch_native_network_def
    dispatch_native_exec_def dispatch_mcp_def path_arg_def
  by (rule errs_if errs_pair errs_mediators errs_args errs_bind errs_leaves | rule errs_maps(1), simp)+

lemma errs_dispatch: "errs halting (dispatch_tool_call W c rsid)"
  unfolding dispatch_tool_call_def
  by (auto intro!: errs_call_result errs_namespace errs_leaves split: option.splits)

lemma errs_session: "errs halting (append_session W ty kvs)"
  unfolding append_session_def by (auto intro!: errs_intros)

lemma errs_turn_entries:
  "errs halting (write_call W turn i c)" "errs halting (write_result W turn i out)"
  "errs halting (write_turn_start W n x t a)" "errs halting (write_turn_end W n ti to tc ms)"
  "errs halting (write_adversarial_violation W v nm origin)" "errs halting (drop_turn_svid)"
  "errs halting (record_reasoning_step W input reasoning cons sel)"
  unfolding write_call_def write_result_def write_tool_call_entry_def write_tool_result_entry_def
    write_turn_start_def write_turn_end_def write_adversarial_violation_def drop_turn_svid_def
    record_reasoning_step_def Let_def
  by (auto intro!: errs_intros errs_session split: option.splits ClassifierVerdict.splits)

lemma errs_dispatch_calls: "errs halting (dispatch_calls W step_id turn i cs)"
  by (induction cs arbitrary: i) (auto intro!: errs_intros errs_turn_entries errs_dispatch)

lemma errs_one_turn: "errs halting (run_one_turn W messages prompt turn)"
  unfolding run_one_turn_def infer_def
  by (auto intro!: errs_intros errs_turn_entries errs_dispatch_calls split: option.splits sum.splits)

lemma errs_lib: "errs halting (liftA (of_lib eng_identity r))"
  by (rule errs_maps(2)) (auto simp: of_lib_def eng_identity_def split: sum.splits if_splits)

lemma errs_live_digests: "errs halting (compute_live_digests W)"
  unfolding errs_def using live_digests_step(3) by (metis halting.simps)

lemma errs_issue: "errs halting (issue_turn_svid W audience rem)"
  unfolding issue_turn_svid_def load_ca_def
  by (auto intro!: errs_bind errs_leaves errs_zoom errs_lib errs_live_digests)

lemma errs_loop_turn: "errs halting (loop_turn W prompt limits started turn messages tokens)"
proof -
  have f: "errs halting (write_flagged W nm xs)" for nm xs
    by (induction xs) (auto intro!: errs_intros errs_turn_entries)
  show ?thesis
    unfolding loop_turn_def begin_turn_def end_turn_def elapsedA_def Let_def
    by (auto intro!: errs_intros errs_turn_entries errs_one_turn errs_issue f split: prod.splits)
qed

section \<open>How a run ends\<close>

definition cap_recorded :: "TurnLimits \<Rightarrow> session \<Rightarrow> engine_error \<Rightarrow> session \<Rightarrow> bool" where
  "cap_recorded limits s x s' \<longleftrightarrow> strict_prefix (s_log s) (s_log s') \<and>
     (\<exists>bound turn tokens wallclock.
        x = EngTurnCapExceeded bound turn (tl_max_turns limits) tokens (tl_max_tokens limits) wallclock
              (tl_max_seconds limits) \<and>
        (bound = CapTurns \<longrightarrow> turn = tl_max_turns limits) \<and> (bound = CapTokens \<longrightarrow> tl_max_tokens limits \<le> tokens) \<and>
        e_entry_type (last (s_log s')) = Violation \<and>
        fmlookup (e_payload (last (s_log s'))) ''violationKind'' = Some (JString ''TurnCapExceeded'') \<and>
        fmlookup (e_payload (last (s_log s'))) ''atTurn'' = Some (JU32 turn) \<and>
        fmlookup (e_payload (last (s_log s'))) ''tokensConsumed'' = Some (JU64 tokens))"

lemma halting_ledger: "ledger_failure x \<Longrightarrow> halting x"
  by (auto simp: ledger_failure_def)

lemma cap_fields_lookup:
  "entry_is Violation (turn_cap_fields W b n mt used mtok wc ms) s e \<Longrightarrow>
     e_entry_type e = Violation \<and> fmlookup (e_payload e) ''violationKind'' = Some (JString ''TurnCapExceeded'') \<and>
     fmlookup (e_payload e) ''atTurn'' = Some (JU32 n) \<and> fmlookup (e_payload e) ''tokensConsumed'' = Some (JU64 used)"
  by (simp add: entry_is_def turn_cap_fields_def fmlookup_of_list)

lemma emit_cap_outcome:
  assumes "emit_cap W bound turn limits tokens elapsed s = (r, s')"
    and "bound = CapTurns \<longrightarrow> turn = tl_max_turns limits" and "bound = CapTokens \<longrightarrow> tl_max_tokens limits \<le> tokens"
  shows "\<exists>x. r = Inl x \<and> (halting x \<or> cap_recorded limits s x s')"
proof -
  let ?w = "write_turn_cap_violation W bound turn (tl_max_turns limits) tokens (tl_max_tokens limits)
    (w_secs_f64 W elapsed) (tl_max_seconds limits)"
  obtain q s1 where w: "?w s = (q, s1)" by fastforce
  show ?thesis
  proof (cases q)
    case (Inl x)
    with assms(1) w appends_Inl [OF appends_turn_cap] halting_ledger show ?thesis
      by (fastforce simp: emit_cap_def bindA_err)
  next
    case (Inr u)
    from appends_Inr [OF appends_turn_cap w [unfolded Inr]] obtain e where
      "s_log s1 = s_log s @ [e]" and "entry_is Violation (turn_cap_fields W bound turn (tl_max_turns limits) tokens
        (tl_max_tokens limits) (w_secs_f64 W elapsed) (tl_max_seconds limits)) s e" by blast
    moreover have "r = Inl (EngTurnCapExceeded bound turn (tl_max_turns limits) tokens (tl_max_tokens limits)
        (w_secs_f64 W elapsed) (tl_max_seconds limits))" "s' = s1"
      using assms(1) w Inr by (simp_all add: emit_cap_def bindA_ok errA_def)
    ultimately show ?thesis using assms(2,3) by (auto simp: cap_recorded_def dest!: cap_fields_lookup)
  qed
qed

lemma cap_recorded_prefix:
  "prefix (s_log s) (s_log s1) \<Longrightarrow> cap_recorded limits s1 x s' \<Longrightarrow> cap_recorded limits s x s'"
  unfolding cap_recorded_def using prefix_order.le_less_trans by blast

lemma loop_turn_prefix:
  "loop_turn W prompt limits started turn messages tokens s = (r, s') \<Longrightarrow> prefix (s_log s) (s_log s')"
  using movesD [OF config_frame.loop_turn_frame] by (fastforce simp: config_step_def writer_step_def)

lemma run_turns_outcome:
  assumes "run_turns left W prompt limits started turn messages turns tokens s = (r, s')"
  shows "case r of
      Inr res \<Rightarrow> \<exists>ts t. sr_turns res = turns @ ts @ [t] \<and> length ts < left \<and> tu_tool_calls t = [] \<and>
        (\<forall>t \<in> set ts. tu_tool_calls t \<noteq> [])
    | Inl x \<Rightarrow> halting x \<or> cap_recorded limits s x s'"
  using assms
proof (induction left arbitrary: turn messages turns tokens s)
  case 0
  have "cap_recorded limits (ticked s) x s' = cap_recorded limits s x s'" for x by (simp add: cap_recorded_def)
  moreover from 0 obtain e where "emit_cap W CapTurns (tl_max_turns limits) limits tokens e (ticked s) = (r, s')"
    by (simp add: elapsedA_def bindA_tick)
  ultimately show ?case using emit_cap_outcome by fastforce
next
  case (Suc left)
  have tick: "cap_recorded limits (ticked s) x s' = cap_recorded limits s x s'" for x by (simp add: cap_recorded_def)
  define e where "e = max 0 (w_instant_now W (en_tick (s_env s)) - started)"
  consider (wall) "emit_cap W CapWallclock turn limits tokens e (ticked s) = (r, s')"
    | (tok) "tl_max_tokens limits \<le> tokens" "emit_cap W CapTokens turn limits tokens e (ticked s) = (r, s')"
    | (turn) "bindA (loop_turn W prompt limits started turn messages tokens) (\<lambda>(out, messages', tokens').
       if tu_tool_calls out = [] then bindA (elapsedA W started) (\<lambda>e2.
         okA \<lparr> sr_turns = turns @ [out], sr_termination = TerminationDone,
               sr_tokens_consumed = tokens', sr_wallclock = e2 \<rparr>)
       else run_turns left W prompt limits started (turn + 1) messages' (turns @ [out]) tokens') (ticked s) = (r, s')"
    using Suc.prems by (auto simp: elapsedA_def bindA_tick e_def split: if_splits)
  then show ?case
  proof cases
    case wall
    from emit_cap_outcome [OF this] tick show ?thesis by auto
  next
    case tok
    from emit_cap_outcome [OF tok(2)] tok(1) tick show ?thesis by auto
  next
    case turn
    obtain q s1 where l: "loop_turn W prompt limits started turn messages tokens (ticked s) = (q, s1)" by fastforce
    show ?thesis
    proof (cases q)
      case (Inl x)
      with turn l errsD [OF errs_loop_turn] show ?thesis by (fastforce simp: bindA_err)
    next
      case (Inr y)
      obtain out messages' tokens' where y: "y = (out, messages', tokens')" by (cases y)
      show ?thesis
      proof (cases "tu_tool_calls out = []")
        case True
        with turn l Inr y show ?thesis
          by (auto simp: bindA_ok elapsedA_def bindA_tick okA_def intro!: exI [of _ "[]"])
      next
        case False
        with turn l Inr y have "run_turns left W prompt limits started (turn + 1) messages' (turns @ [out]) tokens' s1 = (r, s')"
          by (simp add: bindA_ok)
        note ih = Suc.IH [OF this]
        have p: "prefix (s_log s) (s_log s1)" using loop_turn_prefix [OF l] by simp
        show ?thesis
        proof (cases r)
          case (Inl x)
          with ih cap_recorded_prefix [OF p] show ?thesis by auto
        next
          case (Inr res)
          with ih obtain ts t where "sr_turns res = (turns @ [out]) @ ts @ [t]" "length ts < left"
            "tu_tool_calls t = []" "\<forall>t \<in> set ts. tu_tool_calls t \<noteq> []" by auto
          with False Inr show ?thesis by (auto intro!: exI [of _ "out # ts"])
        qed
      qed
    qed
  qed
qed

section \<open>The skeleton of turn entries\<close>

definition turn_kinds :: "EntryType list" where
  "turn_kinds = [TurnStart, TurnEnd, ReasoningStep, ToolCall, ToolResult]"

definition skeleton :: "EntryType list \<Rightarrow> session \<Rightarrow> session \<Rightarrow> bool" where
  "skeleton ks s s' \<longleftrightarrow>
     (\<exists>es. s_log s' = s_log s @ es \<and> filter (\<lambda>k. k \<in> set turn_kinds) (map e_entry_type es) = ks)"

lemma skeleton_trans: "skeleton ks s s1 \<Longrightarrow> skeleton ks' s1 s2 \<Longrightarrow> skeleton (ks @ ks') s s2"
  unfolding skeleton_def by (metis append.assoc filter_append map_append)

lemma skeleton_same: "s_log s' = s_log s \<Longrightarrow> skeleton [] s s'"
  by (auto simp: skeleton_def intro!: exI [of _ "[]"])

lemma skeleton_one: "s_log s' = s_log s @ [e] \<Longrightarrow> e_entry_type e \<notin> set turn_kinds \<Longrightarrow> skeleton [] s s'"
  by (auto simp: skeleton_def intro!: exI [of _ "[e]"])

interpretation quiet_order: step_order "skeleton []"
  using skeleton_trans [of "[]" _ _ "[]"] by unfold_locales (auto intro: skeleton_same)

lemma quiet_updates:
  "moves (skeleton []) (on_env m)" "moves (skeleton []) (utc_now W)" "moves (skeleton []) (on_aggregate am)"
  "moves (skeleton []) (insert_grant g)" "moves (skeleton []) (record_effect f)"
  "moves (skeleton []) (log_connection W host port proto k)"
  "moves (skeleton []) (modA (\<lambda>s. s\<lparr> s_current_turn_svid := t \<rparr>))"
  by (auto intro!: movesI skeleton_same simp: zoomA_eq utc_now_def insert_grant_def record_effect_def modA_def
      log_connection_def bindA_tick dest: log_connection_ledger)

lemma quiet_append:
  assumes "appends P m" and "\<And>s e. P s e \<Longrightarrow> e_entry_type e \<notin> set turn_kinds"
  shows "moves (skeleton []) m"
proof (rule movesI)
  fix s r s' assume m: "m s = (r, s')"
  show "skeleton [] s s'"
  proof (cases r)
    case (Inl x)
    with appends_Inl [OF assms(1)] m show ?thesis by (blast intro: skeleton_same)
  next
    case (Inr u)
    with appends_Inr [OF assms(1)] m assms(2) show ?thesis by (blast intro: skeleton_one)
  qed
qed

lemma quiet_kind:
  "appends (entry_kind ty) m \<Longrightarrow> ty \<notin> set turn_kinds \<Longrightarrow> moves (skeleton []) m"
  "appends (entry_is ty kvs) m \<Longrightarrow> ty \<notin> set turn_kinds \<Longrightarrow> moves (skeleton []) m"
  by (erule quiet_append; simp add: entry_kind_def entry_is_def)+

lemma quiet_approvals:
  "moves (skeleton []) (emit_approval_request W req)" "moves (skeleton []) (emit_approval_granted W req who t)"
  "moves (skeleton []) (emit_approval_rejected W req reason t)" "moves (skeleton []) (emit_approval_timed_out W req t)"
  "moves (skeleton []) (emit_approval_decision_advisory W tool args uri kind rsid)"
  "moves (skeleton []) (emit_approval_decision_auto_consumed W tool uri kind rsid gid h d)"
  "moves (skeleton []) (emit_approval_decision_granted W tool uri kind rsid gid h who ttl)"
  by (rule quiet_kind(1) [OF appends_approval_entries(1)] quiet_kind(1) [OF appends_approval_entries(2)]
      quiet_kind(1) [OF appends_approval_entries(3)] quiet_kind(1) [OF appends_approval_entries(4)]
      quiet_kind(1) [OF decision_granted_kind(2)] quiet_kind(1) [OF appends_auto_consumed]
      quiet_kind(1) [OF decision_granted_kind(1)]; simp add: turn_kinds_def)+

lemma quiet_emits: "moves (skeleton []) (emit_deny W uri kind reason)" "moves (skeleton []) (emit_success W uri ty n rsid)"
proof -
  show "moves (skeleton []) (emit_deny W uri kind reason)"
    by (rule quiet_kind(2) [OF appends_emit_deny]) (simp add: turn_kinds_def)
  show "moves (skeleton []) (emit_success W uri ty n rsid)"
  proof (cases "uri = []")
    case True
    show ?thesis
      by (auto intro!: movesI skeleton_same simp: True emit_success_def bindA_getA bindA_tick)
        (auto simp: bindA_def mapErrA_def zoomA_def emit_access_def errA_def)
  qed (rule quiet_kind(2) [OF appends_emit_success], simp_all add: turn_kinds_def)
qed

lemma quiet_binding:
  assumes "check_identity_binding L X idh pem now ts w = (r, w')"
  shows "entries w' = entries w \<or> (\<exists>e. entries w' = entries w @ [e] \<and> e_entry_type e = Violation)"
proof (cases "verify_digest_binding X pem now")
  case (Inr found)
  show ?thesis
  proof (cases found)
    case (Some m)
    obtain q w1 where v: "emit_violation L idh (rebind_event L m ts) w = (q, w1)" by fastforce
    with assms Inr Some have "w1 = w'"
      by (cases q) (auto simp: check_identity_binding_def bindA_def errA_def)
    with v show ?thesis
      by (cases q) (auto simp: emit_violation_def act_simps act_results writer_entry_def
          dest!: append_entry_err(1) append_entry_ok(2))
  qed (use assms Inr in \<open>simp add: check_identity_binding_def okA_def\<close>)
qed (use assms in \<open>simp add: check_identity_binding_def errA_def\<close>)

lemma quiet_rebind: "moves (skeleton []) (rebind W)"
proof (rule movesI)
  fix s r s' assume b: "rebind W s = (r, s')"
  obtain q s1 where d: "compute_live_digests W s = (q, s1)" by fastforce
  note l = live_digests_step(2) [OF d]
  show "skeleton [] s s'"
  proof (cases q)
    case (Inl x)
    with b d l show ?thesis by (auto simp: rebind_def bindA_err intro: skeleton_same)
  next
    case (Inr now)
    define ts where "ts = w_utc_now W (en_tick (s_env s1))"
    obtain r2 w2 where c: "check_identity_binding W (w_x509 W) (s_agent_identity_hash s1) (s_svid_cert_pem s1) now ts
        (s_ledger s1) = (r2, w2)" by fastforce
    with b d Inr have "s' = (ticked s1)\<lparr> s_ledger := w2 \<rparr>"
      by (auto simp: rebind_def bindA_ok bindA_getA bindA_tick mapErrA_def zoomA_def ts_def split: sum.splits)
    with quiet_binding [OF c] l show ?thesis
      by (elim disjE exE conjE) (simp_all add: skeleton_same skeleton_one turn_kinds_def)
  qed
qed

lemma quiet_route: "moves (skeleton []) (route_through_approval W d uri kind rsid c tool args)"
  unfolding route_through_approval_def prompt_operator_def act_on_outcome_def
  by (auto simp: Let_def intro!: quiet_order.basics quiet_updates quiet_approvals split: Decision.splits
      option.splits sum.splits ApprovalOutcome.splits GrantDecision.splits)

lemma quiet_enforce: "moves (skeleton []) (enforce_aggregate_quota W c uri kind)"
proof -
  have "moves (skeleton []) (write_aggregate_cap_violation W err uri kind)" for err
    unfolding write_aggregate_cap_violation_def
    by (rule quiet_kind(1) [OF appends_kind]) (simp_all add: turn_kinds_def)
  then show ?thesis
    unfolding enforce_aggregate_quota_def
    by (auto intro!: quiet_order.basics quiet_updates split: sum.splits)
qed

lemma quiet_calls:
  "moves (skeleton []) (do_read W path)" "moves (skeleton []) (do_write W path b)"
  "moves (skeleton []) (do_delete W path)" "moves (skeleton []) (do_connect W host port)"
  "moves (skeleton []) (do_exec W path args)" "moves (skeleton []) (do_mcp_call client uri tool v)"
  "moves (skeleton []) (file_uri W path)"
  unfolding do_read_def do_write_def do_delete_def do_connect_def do_exec_def do_mcp_call_def file_uri_def
  by (auto intro!: quiet_order.basics quiet_updates split: option.splits sum.splits)

lemma quiet_gated: "moves (skeleton []) m \<Longrightarrow> moves (skeleton []) (gated W d uri kind rsid c tool args m)"
  unfolding gated_def on_decision_def
  by (auto intro!: quiet_order.basics quiet_emits quiet_route quiet_enforce split: Decision.splits)

lemma quiet_pre_validate: "moves (skeleton []) (run_mcp_pre_validate W server tool args cs)"
proof (induction cs)
  case (Cons c cs)
  have "moves (skeleton []) (clause_decision W server tool arg kind start v)" for arg kind start v
    unfolding clause_decision_def
    by (auto intro!: quiet_order.basics quiet_updates split: PreValidateKind.splits prod.splits)
  then have "moves (skeleton []) (pre_validate_values W server tool c start vs)" for start vs
    by (induction vs) (auto intro!: quiet_order.basics quiet_emits split: Decision.splits)
  with Cons show ?case by (auto intro!: quiet_order.basics)
qed (simp add: quiet_order.ok)

lemma quiet_mediators:
  "moves (skeleton []) (mediate_filesystem_read W path rsid)"
  "moves (skeleton []) (mediate_filesystem_write W path b rsid)"
  "moves (skeleton []) (mediate_filesystem_delete W path rsid)"
  "moves (skeleton []) (mediate_exec W path eargs rsid)"
  "moves (skeleton []) (mediate_network_connect W host port proto rsid)"
  "moves (skeleton []) (mediate_mcp_tool_call W server tool args rsid)"
  unfolding mediate_filesystem_read_def mediate_filesystem_write_def mediate_filesystem_delete_def
    mediate_exec_def mediate_network_connect_def mediate_mcp_tool_call_def connect_on_decision_def
    on_decision_def call_mcp_client_def Let_def
  by (auto intro!: quiet_order.basics quiet_updates quiet_emits quiet_rebind quiet_gated quiet_calls quiet_route
      quiet_enforce quiet_pre_validate split: sum.splits Decision.splits option.splits)

lemma quiet_dispatch: "moves (skeleton []) (dispatch_tool_call W c rsid)"
proof -
  have "moves (skeleton []) (dispatch_namespace W ns tool args rsid)" for ns tool args
    unfolding dispatch_namespace_def dispatch_native_filesystem_def dispatch_native_network_def
      dispatch_native_exec_def dispatch_mcp_def
    by (intro moves_cases quiet_order.basics quiet_mediators)
  then show ?thesis
    unfolding dispatch_tool_call_def by (auto intro!: quiet_order.basics split: option.splits)
qed

text \<open>The entries a turn writes, when it succeeds.\<close>

definition turn_skeleton :: "bool \<Rightarrow> nat \<Rightarrow> EntryType list" where
  "turn_skeleton v2 n =
     (if v2 then [TurnStart, ReasoningStep] @ concat (replicate n [ToolCall, ToolResult]) @ [TurnEnd]
      else [ReasoningStep])"

lemma skeleton_entry:
  assumes "appends (entry_kind ty) m" and "m s = (Inr u, s')" and "ty \<in> set turn_kinds"
  shows "skeleton [ty] s s'"
proof -
  from appends_Inr [OF assms(1,2)] obtain e where "s_log s' = s_log s @ [e]" "e_entry_type e = ty"
    by (auto simp: entry_kind_def)
  with assms(3) show ?thesis by (auto simp: skeleton_def intro!: exI [of _ "[e]"])
qed

lemma skeleton_quiet: "moves (skeleton []) m \<Longrightarrow> m s = (r, s1) \<Longrightarrow> skeleton ks s1 s' \<Longrightarrow> skeleton ks s s'"
  using skeleton_trans [of "[]"] movesD by fastforce

lemma dispatch_calls_skeleton:
  assumes "dispatch_calls W step_id turn i cs s = (Inr outs, s')"
  shows "length outs = length cs \<and>
    skeleton (if turn = None then [] else concat (replicate (length cs) [ToolCall, ToolResult])) s s'"
  using assms
proof (induction cs arbitrary: i s outs)
  case Nil
  then show ?case by (simp add: okA_def skeleton_same)
next
  case (Cons c cs)
  then obtain s1 out s2 s3 outs' where 1: "write_call W turn i c s = (Inr (), s1)"
    and 2: "dispatch_tool_call W c (Some step_id) s1 = (Inr out, s2)"
    and 3: "write_result W turn i out s2 = (Inr (), s3)"
    and 4: "dispatch_calls W step_id turn (Suc i) cs s3 = (Inr outs', s')" "outs = out # outs'"
    by (auto simp: bindA_eq_ok okA_def)
  note ih = Cons.IH [OF 4(1)]
  show ?case
  proof (cases turn)
    case None
    with 1 3 ih 4(2) skeleton_quiet [OF quiet_dispatch 2] show ?thesis
      by (auto simp: write_call_def write_result_def okA_def)
  next
    case (Some n)
    have "skeleton [ToolCall] s s1"
      using skeleton_entry [OF appends_tool_call] 1 Some by (simp add: write_call_def turn_kinds_def)
    moreover have "skeleton [ToolResult] s2 s3"
      using skeleton_entry [OF appends_tool_result] 3 Some by (simp add: write_result_def Let_def turn_kinds_def)
    ultimately have "skeleton ([ToolCall] @ [ToolResult]) s s3"
      using skeleton_quiet [OF quiet_dispatch 2] skeleton_trans by blast
    from skeleton_trans [OF this] ih 4(2) Some show ?thesis by fastforce
  qed
qed

lemma run_one_turn_skeleton:
  assumes "run_one_turn W messages prompt turn s = (Inr (out, used), s')"
  shows "skeleton (ReasoningStep # (if schema_version s = V2 \<and> turn \<noteq> None
    then concat (replicate (length (tu_tool_calls out)) [ToolCall, ToolResult]) else [])) s s'"
proof -
  let ?tools = "tool_catalog (p_manifest (s_policy s))"
  from assms obtain resp s1 step_id s2 outs where 1: "infer \<lparr> iq_messages = messages, iq_tools = ?tools \<rparr> s = (Inr resp, s1)"
    and 2: "record_reasoning_step W prompt (ir_reasoning resp) (map td_name ?tools)
      (case ir_tool_calls resp of [] \<Rightarrow> None | c # _ \<Rightarrow> Some (tc_name c)) s1 = (Inr step_id, s2)"
    and 3: "dispatch_calls W step_id (if schema_version s2 = V2 then turn else None) 0 (ir_tool_calls resp) s2 = (Inr outs, s')"
      "tu_tool_calls out = outs"
    unfolding run_one_turn_def bindA_getA by (auto simp: bindA_eq_ok bindA_getA okA_def)
  have "moves (skeleton []) (infer req)" for req
    unfolding infer_def by (auto intro!: quiet_order.basics quiet_updates split: option.splits sum.splits)
  moreover have "prompt \<noteq> []" using 2 by (auto simp: reasoning_step_empty)
  then have "skeleton [ReasoningStep] s1 s2"
    using skeleton_entry [OF appends_reasoning_step 2] by (simp add: turn_kinds_def)
  ultimately have "skeleton [ReasoningStep] s s2" using skeleton_quiet 1 by blast
  note k = skeleton_trans [OF this]
  have "schema_version s2 = schema_version s"
    using movesD [OF config_frame.infer_frame 1] movesD [OF config_frame.appended_entries(4) 2]
    by (simp add: config_fields(13))
  with k dispatch_calls_skeleton [OF 3(1)] 3(2) show ?thesis by fastforce
qed

lemma quiet_issue: "moves (skeleton []) (issue_turn_svid W aud rem)"
  unfolding issue_turn_svid_def compute_live_digests_def
  by (intro quiet_order.basics quiet_updates)

lemma quiet_flagged: "moves (skeleton []) (write_flagged W nm xs)"
proof (induction xs)
  case (Cons x xs)
  have "moves (skeleton []) (write_adversarial_violation W v nm origin)" for v origin
    unfolding write_adversarial_violation_def
    by (cases v; simp add: quiet_order.ok;
        rule quiet_kind(1) [OF appends_kind]; simp add: turn_kinds_def)
  with Cons show ?case by (cases x) (auto intro!: quiet_order.basics)
qed (simp add: quiet_order.ok)

lemma skeleton_then:
  assumes "moves (skeleton []) m" and "bindA m f s = (Inr y, s')"
    and "\<And>x t. m s = (Inr x, t) \<Longrightarrow> f x t = (Inr y, s') \<Longrightarrow> skeleton ks t s'"
  shows "skeleton ks s s'"
  using assms(2,3) skeleton_quiet [OF assms(1)] unfolding bindA_eq_ok by blast

lemma quiet_elapsed: "moves (skeleton []) (elapsedA W started)"
  unfolding elapsedA_def by (rule quiet_updates)

lemma begin_turn_skeleton:
  assumes "begin_turn W messages limits started turn s = (Inr u, s')"
  shows "skeleton [TurnStart] s s'"
  using assms unfolding begin_turn_def bindA_getA
proof (rule skeleton_then [OF quiet_elapsed], goal_cases)
  case (1 e t)
  from 1(2) show ?case
  proof (rule skeleton_then [OF quiet_issue], goal_cases)
    case (1 thumb t2)
    from skeleton_entry [OF appends_turn_start 1(2)] show ?case by (simp add: turn_kinds_def)
  qed
qed

lemma end_turn_skeleton:
  assumes "end_turn W started turn used tokens s = (Inr u, s')"
  shows "skeleton [TurnEnd] s s'"
  using assms unfolding end_turn_def
proof (rule skeleton_then [OF quiet_elapsed], goal_cases)
  case (1 e t)
  from 1(2) obtain t2 where w: "write_turn_end W turn None used tokens (as_millis e) t = (Inr (), t2)"
    and d: "drop_turn_svid t2 = (Inr u :: engine_error + unit, s')" by (auto simp: bindA_eq_ok)
  from skeleton_entry [OF appends_turn_end w] d show ?case
    by (auto simp: turn_kinds_def drop_turn_svid_def modA_def skeleton_def)
qed

lemma loop_turn_skeleton:
  assumes "loop_turn W prompt limits started turn messages tokens s = (Inr (out, ms, tok), s')"
  shows "skeleton (turn_skeleton (schema_version s = V2) (length (tu_tool_calls out))) s s' \<and>
    schema_version s' = schema_version s"
proof (intro conjI)
  show "schema_version s' = schema_version s"
    using movesD [OF config_frame.loop_turn_frame assms] by (simp add: config_fields(13))
  let ?v2 = "schema_version s = V2"
  let ?calls = "concat (replicate (length (tu_tool_calls out)) [ToolCall, ToolResult])"
  from assms obtain s1 out1 used s2 s3 xs nm tok2 where
    1: "(if ?v2 then begin_turn W messages limits started turn else okA ()) s = (Inr (), s1)"
    and 2: "run_one_turn W messages prompt (Some turn) s1 = (Inr (out1, used), s2)"
    and 3: "write_flagged W nm xs s2 = (Inr (), s3)" "length (tu_tool_calls out) = length (tu_tool_calls out1)"
    and 4: "(if ?v2 then end_turn W started turn used tok2 else okA ()) s3 = (Inr (), s')"
    unfolding loop_turn_def bindA_getA
    by (auto simp: bindA_eq_ok bindA_getA okA_def Let_def stamp_verdicts_def classify_calls_def split: prod.splits)
  have a: "skeleton (if ?v2 then [TurnStart] else []) s s1" "schema_version s1 = schema_version s"
    using 1 begin_turn_skeleton [of W] config_fields(13) [OF movesD [OF config_frame.begin_turn_frame [where W = W]]]
    by (auto simp: okA_def skeleton_same split: if_splits)
  have b: "skeleton (ReasoningStep # (if ?v2 then ?calls else [])) s1 s2"
    using run_one_turn_skeleton [OF 2] a(2) 3(2) by (simp split: if_splits)
  have "skeleton (if ?v2 then [TurnEnd] else []) s3 s'"
    using 4 end_turn_skeleton by (auto simp: okA_def skeleton_same split: if_splits)
  then have c: "skeleton (if ?v2 then [TurnEnd] else []) s2 s'"
    by (rule skeleton_quiet [OF quiet_flagged 3(1)])
  from skeleton_trans [OF skeleton_trans [OF a(1) b] c]
  show "skeleton (turn_skeleton ?v2 (length (tu_tool_calls out))) s s'"
    by (simp add: turn_skeleton_def split: if_splits)
qed

lemma run_turns_skeleton:
  assumes "run_turns left W prompt limits started turn messages turns tokens s = (Inr res, s')"
  shows "\<exists>ts. sr_turns res = turns @ ts \<and>
    skeleton (concat (map (\<lambda>t. turn_skeleton (schema_version s = V2) (length (tu_tool_calls t))) ts)) s s'"
  using assms
proof (induction left arbitrary: turn messages turns tokens s)
  case 0
  then obtain e where "emit_cap W CapTurns (tl_max_turns limits) limits tokens e (ticked s) = (Inr res, s')"
    by (simp add: elapsedA_def bindA_tick)
  from emit_cap_outcome [OF this] show ?case by simp
next
  case (Suc left)
  have cap: "bound \<noteq> CapTurns \<Longrightarrow> bound = CapTokens \<longrightarrow> tl_max_tokens limits \<le> tokens \<Longrightarrow>
      emit_cap W bound turn limits tokens e t \<noteq> (Inr res, s')" for bound e t
    using emit_cap_outcome [of W bound turn limits tokens e t "Inr res" s'] by auto
  from Suc.prems cap obtain out messages' tokens' s1 where
    l: "loop_turn W prompt limits started turn messages tokens (ticked s) = (Inr (out, messages', tokens'), s1)"
    and n: "(if tu_tool_calls out = [] then bindA (elapsedA W started) (\<lambda>e2.
         okA \<lparr> sr_turns = turns @ [out], sr_termination = TerminationDone,
               sr_tokens_consumed = tokens', sr_wallclock = e2 \<rparr>)
       else run_turns left W prompt limits started (turn + 1) messages' (turns @ [out]) tokens') s1 = (Inr res, s')"
    by (auto simp: elapsedA_def bindA_tick bindA_eq_ok split: if_splits)
  from loop_turn_skeleton [OF l] have k: "skeleton (turn_skeleton (schema_version s = V2) (length (tu_tool_calls out))) s s1"
    and v: "schema_version s1 = schema_version s" by (simp_all add: skeleton_def schema_version_def)
  show ?case
  proof (cases "tu_tool_calls out = []")
    case True
    with n k show ?thesis
      by (auto simp: elapsedA_def bindA_tick okA_def skeleton_def intro!: exI [of _ "[out]"])
  next
    case False
    with n Suc.IH obtain ts where "sr_turns res = (turns @ [out]) @ ts"
      "skeleton (concat (map (\<lambda>t. turn_skeleton (schema_version s1 = V2) (length (tu_tool_calls t))) ts)) s1 s'" by fastforce
    with skeleton_trans [OF k] v show ?thesis by (auto intro!: exI [of _ "out # ts"])
  qed
qed

section \<open>How many turns are begun\<close>

definition marks :: "EntryType \<Rightarrow> nat \<Rightarrow> session \<Rightarrow> session \<Rightarrow> bool" where
  "marks ty k s s' \<longleftrightarrow>
     (\<exists>es. s_log s' = s_log s @ es \<and> length (filter (\<lambda>e. e_entry_type e = ty) es) \<le> k)"

lemma marks_trans: "marks ty j s s1 \<Longrightarrow> marks ty k s1 s' \<Longrightarrow> marks ty (j + k) s s'"
proof -
  assume "marks ty j s s1" "marks ty k s1 s'"
  then obtain as bs where "s_log s1 = s_log s @ as" "s_log s' = s_log s @ as @ bs"
    "length (filter (\<lambda>e. e_entry_type e = ty) as) \<le> j" "length (filter (\<lambda>e. e_entry_type e = ty) bs) \<le> k"
    by (auto simp: marks_def)
  then show ?thesis by (auto simp: marks_def intro!: exI [of _ "as @ bs"])
qed

lemma marks_mono: "marks ty j s s' \<Longrightarrow> j \<le> k \<Longrightarrow> marks ty k s s'"
  by (auto simp: marks_def)

lemma marks_same: "s_log s' = s_log s \<Longrightarrow> marks ty k s s'"
  by (auto simp: marks_def intro!: exI [of _ "[]"])

lemma marks_quiet: "skeleton [] s s' \<Longrightarrow> ty \<in> set turn_kinds \<Longrightarrow> marks ty 0 s s'"
  by (fastforce simp: skeleton_def marks_def filter_empty_conv filter_map)

lemma marks_bind:
  assumes "moves (marks ty j) m" and "\<And>x. moves (marks ty k) (f x)"
  shows "moves (marks ty (j + k)) (bindA m f)"
proof (rule movesI)
  fix s r s' assume b: "bindA m f s = (r, s')"
  obtain q s1 where m: "m s = (q, s1)" by fastforce
  show "marks ty (j + k) s s'"
  proof (cases q)
    case (Inl e)
    with b m movesD [OF assms(1) m] show ?thesis by (auto simp: bindA_err intro: marks_mono)
  next
    case (Inr x)
    with b m have "f x s1 = (r, s')" by (simp add: bindA_ok)
    with movesD [OF assms(1) m] movesD [OF assms(2)] marks_trans show ?thesis by blast
  qed
qed

interpretation unmarked_order: step_order "marks ty 0" for ty
  using marks_trans [of _ 0 _ _ 0] by unfold_locales (auto intro: marks_same)

lemma unmarked: "moves (skeleton []) m \<Longrightarrow> ty \<in> set turn_kinds \<Longrightarrow> moves (marks ty 0) m"
  unfolding moves_def using marks_quiet by blast

lemma marks_entry:
  assumes "appends (entry_kind kind) m"
  shows "moves (marks ty (if ty = kind then 1 else 0)) m"
proof (rule movesI)
  fix s r s' assume m: "m s = (r, s')"
  show "marks ty (if ty = kind then 1 else 0) s s'"
  proof (cases r)
    case (Inl e)
    with appends_Inl [OF assms] m show ?thesis by (blast intro: marks_same)
  next
    case (Inr u)
    with appends_Inr [OF assms] m obtain e where "s_log s' = s_log s @ [e]" "e_entry_type e = kind"
      by (fastforce simp: entry_kind_def)
    then show ?thesis by (auto simp: marks_def intro!: exI [of _ "[e]"])
  qed
qed

lemma unmarked_entry: "appends (entry_kind kind) m \<Longrightarrow> ty \<noteq> kind \<Longrightarrow> moves (marks ty 0) m"
  using marks_entry [of kind m ty] by simp

lemma marks_reasoning: "moves (marks ty (if ty = ReasoningStep then 1 else 0)) (record_reasoning_step W input reasoning cons sel)"
proof (cases "input = []")
  case True
  then show ?thesis by (auto intro!: movesI marks_same simp: reasoning_step_empty)
qed (rule marks_entry [OF appends_reasoning_step])

lemma turn_mark: "ty \<in> {TurnStart, ReasoningStep} \<Longrightarrow> ty \<in> set turn_kinds"
  by (auto simp: turn_kinds_def)

lemma marks_calls:
  assumes "ty \<in> {TurnStart, ReasoningStep}"
  shows "moves (marks ty 0) (dispatch_calls W step_id turn i cs)"
proof (induction cs arbitrary: i)
  case (Cons c cs)
  have "moves (marks ty 0) (write_call W turn i c)" "moves (marks ty 0) (write_result W turn i out)" for i out
    using assms unmarked_entry [OF appends_tool_call, of ty] unmarked_entry [OF appends_tool_result, of ty]
    by (auto simp: write_call_def write_result_def Let_def unmarked_order.ok split: option.split)
  moreover have "moves (marks ty 0) (dispatch_tool_call W c rsid)" for rsid
    by (rule unmarked [OF quiet_dispatch turn_mark [OF assms]])
  ultimately show ?case using Cons by (auto intro!: unmarked_order.bind unmarked_order.ok)
qed (simp add: unmarked_order.ok)

lemma marks_one_turn:
  assumes "ty \<in> {TurnStart, ReasoningStep}"
  shows "moves (marks ty (if ty = ReasoningStep then 1 else 0)) (run_one_turn W messages prompt turn)"
proof -
  note zero = marks_bind [where j = 0, simplified] and last = marks_bind [where k = 0, simplified]
  have i: "moves (marks ty 0) (infer req)" for req
    unfolding infer_def
    by (rule unmarked [OF _ turn_mark [OF assms]]) (auto intro!: quiet_order.basics quiet_updates split: option.splits sum.splits)
  show ?thesis
    unfolding run_one_turn_def
    by (rule zero [OF unmarked_order.get] zero [OF i] last [OF marks_reasoning])+
      (intro unmarked_order.bind unmarked_order.get unmarked_order.ok marks_calls assms)
qed

lemma marks_loop_turn:
  assumes ty: "ty \<in> {TurnStart, ReasoningStep}"
  shows "moves (marks ty 1) (loop_turn W prompt limits started turn messages tokens)"
proof -
  note zero = marks_bind [where j = 0, simplified]
  have quiet: "moves (skeleton []) m \<Longrightarrow> moves (marks ty 0) m" for m :: "(session, engine_error, 'x) act"
    using unmarked turn_mark [OF ty] by blast
  have b: "moves (marks ty (if ty = TurnStart then 1 else 0)) (if v2 then begin_turn W messages limits started turn else okA ())" for v2
  proof (cases v2)
    case True
    show ?thesis
      unfolding if_P [OF True] begin_turn_def
      by (rule zero [OF unmarked_order.get] zero [OF quiet [OF quiet_elapsed]] zero [OF quiet [OF quiet_issue]]
          marks_entry [OF appends_turn_start])+
  qed (auto intro!: movesI marks_same simp: okA_def)
  have e: "moves (marks ty 0) (if v2 then end_turn W started turn used tok else okA ())" for v2 used tok
  proof (cases v2)
    case True
    have "TurnEnd \<noteq> ty" using ty by auto
    then show ?thesis
      unfolding if_P [OF True] end_turn_def drop_turn_svid_def
      by (intro unmarked_order.bind quiet [OF quiet_elapsed] quiet [OF quiet_updates(7)] unmarked_entry [OF appends_turn_end]) simp
  qed (simp add: unmarked_order.ok)
  have w: "moves (marks ty 0) (write_flagged W nm xs)" for nm xs by (rule quiet [OF quiet_flagged])
  have "moves (marks ty ((if ty = TurnStart then 1 else 0) + ((if ty = ReasoningStep then 1 else 0) + 0)))
      (loop_turn W prompt limits started turn messages tokens)"
    unfolding loop_turn_def Let_def
    by (rule zero [OF unmarked_order.get] marks_bind [OF b] marks_bind [OF marks_one_turn [OF ty]])+
      (auto split: prod.split intro!: unmarked_order.bind unmarked_order.get unmarked_order.ok w e [of True, simplified])
  moreover have "(if ty = TurnStart then 1 else 0) + ((if ty = ReasoningStep then 1 else 0) + 0) = (1 :: nat)"
    using ty by auto
  ultimately show ?thesis by simp
qed

lemma marks_cap: "ty \<in> {TurnStart, ReasoningStep} \<Longrightarrow> moves (marks ty 0) (emit_cap W bound turn limits tokens e)"
  unfolding emit_cap_def
  by (rule unmarked [OF _ turn_mark], rule quiet_order.bind [OF quiet_kind(2) [OF appends_turn_cap] quiet_order.err])
    (simp_all add: turn_kinds_def)

lemma marks_run_turns:
  assumes ty: "ty \<in> {TurnStart, ReasoningStep}"
  shows "moves (marks ty left) (run_turns left W prompt limits started turn messages turns tokens)"
proof (induction left arbitrary: turn messages turns tokens)
  case 0
  show ?case
    by (simp, rule unmarked_order.bind [OF unmarked [OF quiet_elapsed turn_mark [OF ty]] marks_cap [OF ty]])
next
  case (Suc left)
  note zero = marks_bind [where j = 0, simplified]
  have q: "moves (marks ty 0) (elapsedA W started)" by (rule unmarked [OF quiet_elapsed turn_mark [OF ty]])
  have cap: "moves (marks ty (Suc left)) (emit_cap W bound turn limits tokens e)" for bound e
    using marks_cap [OF ty] marks_mono unfolding moves_def by blast
  have ok: "moves (marks ty left) (bindA (elapsedA W started) (\<lambda>e2. okA (f e2)))" for f :: "time \<Rightarrow> SessionRunResult"
    using q by (rule zero) (auto intro!: movesI marks_same simp: okA_def)
  have "moves (marks ty (1 + left)) (bindA (loop_turn W prompt limits started turn messages tokens) (\<lambda>(out, messages', tokens').
       if tu_tool_calls out = [] then bindA (elapsedA W started) (\<lambda>e2.
         okA \<lparr> sr_turns = turns @ [out], sr_termination = TerminationDone,
               sr_tokens_consumed = tokens', sr_wallclock = e2 \<rparr>)
       else run_turns left W prompt limits started (turn + 1) messages' (turns @ [out]) tokens'))"
    by (rule marks_bind [OF marks_loop_turn [OF ty]]) (auto split: prod.split intro: ok Suc.IH)
  then show ?case using cap by (auto intro!: zero [OF q])
qed

text \<open>The number of entries of a kind that were added.\<close>

definition added :: "EntryType \<Rightarrow> session \<Rightarrow> session \<Rightarrow> nat" where
  "added ty s s' = length (filter (\<lambda>e. e_entry_type e = ty) (drop (length (s_log s)) (s_log s')))"

lemma run_added:
  assumes "run W prompt limits s = (r, s')" and "ty \<in> {TurnStart, ReasoningStep}"
  shows "prefix (s_log s) (s_log s') \<and> added ty s s' \<le> unat (tl_max_turns limits)"
proof -
  from assms(1) obtain started where "run_turns (unat (tl_max_turns limits)) W prompt limits started 1
      [\<lparr> cm_role = RoleUser, cm_content = prompt \<rparr>] [] 0 (ticked s) = (r, s')"
    by (simp add: run_def bindA_tick)
  from movesD [OF marks_run_turns [OF assms(2)] this] show ?thesis by (auto simp: marks_def added_def)
qed

section \<open>A malformed argument\<close>

text \<open>A call to an allowed MCP tool whose arguments lack what the first \<open>pre_validate\<close> clause of the tool
  names, or have it with another type, is not answered with a denial: it ends the dispatch, and with it
  the run, with an error, and no entry says so.\<close>

lemma malformed_argument_halts:
  assumes "split_mcp_name (tc_name c) = Some (server, tool)" and "server \<notin> {''filesystem'', ''network'', ''exec''}"
    and "rebind W s = (Inr (), s1)" and "check_mcp_tool W (s_policy s1) server tool = Allow"
    and "find_mcp_server (s_policy s1) server = Some g" and "tool_clauses g tool = clause # clauses"
    and "extract_clause_values (tc_arguments c) server tool clause = Inl x"
  shows "dispatch_tool_call W c rsid s = (Inl x, s1) \<and> halting x"
proof -
  from extract_err [OF assms(7)] obtain a reason where x: "x = EngMcpPreValidateMalformedArg server tool a reason" by blast
  have "mediate_mcp_tool_call W server tool (tc_arguments c) rsid s = (Inl x, s1)"
    using assms(4-7)
    by (simp add: mediate_mcp_tool_call_def bindA_ok [where m = "rebind W", OF assms(3)] bindA_getA on_decision_def)
      (simp add: bindA_def liftA_def)
  then show ?thesis
    using assms(1,2) x
    by (simp add: dispatch_tool_call_def dispatch_namespace_def dispatch_mcp_def bindA_def tryA_def liftA_def call_result_def)
qed

section \<open>Properties\<close>

text \<open>C10: Every run ends, and within its limits. A run returns its result or an error, and however it ends
  it has begun at most \<open>max_turns\<close> turns: that bounds the TurnStart entries and the ReasoningStep entries it
  has added to the ledger. A result has between one and \<open>max_turns\<close> turns; the last of them made no tool
  call and every other one did. An error is one of those that halt the session, or an exceeded bound, and an
  exceeded bound is the last entry of the ledger, a Violation with the turn and the tokens. No denial, no
  request for approval and no unroutable call is the error of a run: the model gets those as results. (One
  refusal is not among these: a call whose arguments lack what a \<open>pre_validate\<close> clause names is documented
  as a denial, and halts the run.)\<close>

theorem run_ends_within_limits:
  assumes "run W prompt limits s = (r, s')"
  shows "prefix (s_log s) (s_log s') \<and> added TurnStart s s' \<le> unat (tl_max_turns limits) \<and>
     added ReasoningStep s s' \<le> unat (tl_max_turns limits) \<and>
     (case r of
        Inr res \<Rightarrow> 1 \<le> length (sr_turns res) \<and> length (sr_turns res) \<le> unat (tl_max_turns limits) \<and>
          tu_tool_calls (last (sr_turns res)) = [] \<and> (\<forall>t \<in> set (butlast (sr_turns res)). tu_tool_calls t \<noteq> [])
      | Inl x \<Rightarrow> halting x \<or> cap_recorded limits s x s')"
proof -
  from assms obtain started where "run_turns (unat (tl_max_turns limits)) W prompt limits started 1
      [\<lparr> cm_role = RoleUser, cm_content = prompt \<rparr>] [] 0 (ticked s) = (r, s')"
    by (simp add: run_def bindA_tick)
  from run_turns_outcome [OF this] run_added [OF assms] show ?thesis
    by (auto simp: cap_recorded_def split: sum.splits)
qed

theorem run_ends_within_limits_witness:
  "\<exists>s x s'. reachable (demo_world empty_manifest) s \<and>
     run (demo_world empty_manifest) ''hi'' \<lparr> tl_max_turns = 0, tl_max_tokens = 1, tl_max_seconds = 1 \<rparr> s = (Inl x, s') \<and>
     cap_recorded \<lparr> tl_max_turns = 0, tl_max_tokens = 1, tl_max_seconds = 1 \<rparr> s x s'"
proof -
  let ?W = "demo_world empty_manifest" and ?l = "\<lparr> tl_max_turns = 0, tl_max_tokens = 1, tl_max_seconds = 1 \<rparr>"
  have "check_reserved (policy_from_manifest empty_manifest) = Inr ()" "m_extends empty_manifest = []"
    by (simp_all add: check_reserved_def policy_from_manifest_def empty_manifest_def)
  from demo_boot [OF this, of V2] obtain s where s: "demo_session empty_manifest V2 s" by auto
  then have "live (ticked (ticked s))" by (simp add: demo_session_def)
  from appends_live [OF appends_turn_cap this] obtain u s' where
    "write_turn_cap_violation ?W CapTurns 0 0 0 1 (w_secs_f64 ?W 0) 1 (ticked (ticked s)) = (Inr u, s')" by blast
  then have r: "run ?W ''hi'' ?l s = (Inl (EngTurnCapExceeded CapTurns 0 0 0 1 (w_secs_f64 ?W 0) 1), s')"
    by (simp add: run_def bindA_tick elapsedA_def emit_cap_def bindA_ok errA_def)
  from run_ends_within_limits [OF r] r s show ?thesis
    by (intro exI [of _ s] exI [of _ "EngTurnCapExceeded CapTurns 0 0 0 1 (w_secs_f64 ?W 0) 1"] exI [of _ s'])
      (simp add: demo_session_def)
qed

text \<open>C12: The ledger tells the turns of a run. The entries of the kinds that belong to turns, among those a
  successful run has added to the ledger, are determined by its result: on a version 2 ledger each turn
  is one TurnStart, one ReasoningStep, a ToolCall followed by its ToolResult for each call, and one
  TurnEnd, turn after turn; on a version 1 ledger each turn is one ReasoningStep. What the calls
  themselves write stands between.\<close>

theorem run_ledger_skeleton:
  assumes "run W prompt limits s = (Inr res, s')"
  shows "skeleton (concat (map (\<lambda>t. turn_skeleton (schema_version s = V2) (length (tu_tool_calls t)))
    (sr_turns res))) s s'"
proof -
  from assms obtain started where "run_turns (unat (tl_max_turns limits)) W prompt limits started 1
      [\<lparr> cm_role = RoleUser, cm_content = prompt \<rparr>] [] 0 (ticked s) = (Inr res, s')"
    by (simp add: run_def bindA_tick)
  from run_turns_skeleton [OF this] show ?thesis by (auto simp: skeleton_def schema_version_def)
qed

definition demo_answer :: InferResponse where
  "demo_answer = \<lparr> ir_reasoning = ''because'', ir_tool_calls = [], ir_assistant_text = Some ''ok'',
     ir_tokens_used = Some 3 \<rparr>"

lemma ticked_model [simp]: "s_loaded_model (ticked s) = s_loaded_model s"
  by (simp add: ticked_def)

lemma demo_answered_run:
  "\<exists>s res s'. reachable (demo_world empty_manifest) s \<and> schema_version s = V1 \<and>
     run (demo_world empty_manifest) ''hi'' default_turn_limits s = (Inr res, s') \<and> length (sr_turns res) = 1"
proof -
  let ?W = "demo_world empty_manifest"
  have "check_reserved (policy_from_manifest empty_manifest) = Inr ()" "m_extends empty_manifest = []"
    by (simp_all add: check_reserved_def policy_from_manifest_def empty_manifest_def)
  from demo_boot [OF this, of V1] obtain s0 where s0: "demo_session empty_manifest V1 s0" by auto
  define s where "s = with_loaded_model s0 (\<lambda>_ _. Inr demo_answer)"
  have s: "reachable ?W s" "live s" "schema_version s = V1" "s_loaded_model s = Some (\<lambda>_ _. Inr demo_answer)"
    using s0 by (auto simp: demo_session_def s_def with_loaded_model_def live_def schema_version_def
        intro: reachable.with_loaded_model [unfolded with_loaded_model_def])
  let ?t = "ticked (ticked s)"
  define tools where "tools = tool_catalog (p_manifest (s_policy s))"
  have i: "infer \<lparr> iq_messages = ms, iq_tools = tools \<rparr> ?t = (Inr demo_answer, ticked ?t)" for ms
    using s(4) by (simp add: infer_def bindA_getA bindA_tick okA_def)
  have "live (ticked ?t)" using s(2) by simp
  with appends_live [OF appends_reasoning_step] obtain step s1 where
    r: "record_reasoning_step ?W ''hi'' ''because'' (map td_name tools) None (ticked ?t) = (Inr step, s1)"
    by (metis list.distinct(1))
  have v: "schema_version s1 = V1"
    using config_fields(13) [OF movesD [OF config_frame.appended_entries(4) r]] s(3) by (simp add: schema_version_def)
  have o: "run_one_turn ?W ms ''hi'' (Some 1) ?t =
      (Inr (\<lparr> tu_assistant_text = Some ''ok'', tu_tool_calls = [], tu_reasoning_step_id = step \<rparr>, Some 3), s1)" for ms
    using i [of ms] r v
    by (simp add: run_one_turn_def bindA_getA tools_def [symmetric] bindA_ok demo_answer_def okA_def)
  have l: "loop_turn ?W ''hi'' default_turn_limits 0 1 ms 0 ?t =
      (Inr (\<lparr> tu_assistant_text = Some ''ok'', tu_tool_calls = [], tu_reasoning_step_id = step \<rparr>,
        ms @ assistant_messages (Some ''ok''), 3), s1)" for ms
    using s(3) o [of ms]
    by (simp add: loop_turn_def bindA_getA schema_version_def bindA_okA bindA_ok Let_def classify_calls_def
        stamp_verdicts_def saturating_add64_def okA_def)
  let ?m0 = "[\<lparr> cm_role = RoleUser, cm_content = ''hi'' \<rparr>]"
  note go = bindA_ok [where m = "loop_turn ?W ''hi'' default_turn_limits 0 1 ?m0 0", OF l]
  have "\<exists>left. unat (tl_max_turns default_turn_limits) = Suc left"
    by (intro exI [of _ 9]) (simp add: default_turn_limits_def)
  then obtain left where "unat (tl_max_turns default_turn_limits) = Suc left" by blast
  moreover have "\<not> tl_max_seconds default_turn_limits \<le> as_secs 0"
    "\<not> tl_max_tokens default_turn_limits \<le> 0"
    by (simp_all add: default_turn_limits_def as_secs_def)
  ultimately have "run ?W ''hi'' default_turn_limits s = (Inr \<lparr> sr_turns = [\<lparr> tu_assistant_text = Some ''ok'',
      tu_tool_calls = [], tu_reasoning_step_id = step \<rparr>], sr_termination = TerminationDone,
      sr_tokens_consumed = 3, sr_wallclock = 0 \<rparr>, ticked s1)"
    by (simp add: run_def bindA_tick elapsedA_def go okA_def)
  with s show ?thesis by auto
qed

theorem run_ledger_skeleton_witness:
  "\<exists>s s'. reachable (demo_world empty_manifest) s \<and> skeleton [ReasoningStep] s s'"
proof -
  obtain s res s' where r: "reachable (demo_world empty_manifest) s" "schema_version s = V1"
    "run (demo_world empty_manifest) ''hi'' default_turn_limits s = (Inr res, s')" "length (sr_turns res) = 1"
    using demo_answered_run by blast
  then obtain t where "sr_turns res = [t]" by (auto simp: length_Suc_conv)
  with run_ledger_skeleton [OF r(3)] r(1,2) show ?thesis by (auto simp: turn_skeleton_def)
qed

end
