(* ===== verification/Attestation.thy ===== *)
theory Attestation
  imports Quotas
begin

text \<open>
  The end of a session: the signed summary of its network activity
  (\<open>crates/inference-engine/src/attestation.rs\<close>) and \<open>Session::shutdown\<close>.
\<close>

section \<open>The summary and its signature\<close>

fun decision_str :: "NetworkConnectionDecision \<Rightarrow> string" where
  "decision_str ConnAllowed = ''allowed''"
| "decision_str ConnApproved = ''approved''"
| "decision_str ConnDenied = ''denied''"

definition canonical_connection_json :: "'w libs_scheme \<Rightarrow> NetworkConnectionMeta \<Rightarrow> json" where
  "canonical_connection_json L c =
     jobj [(''host'', JString (nc_host c)), (''port'', JU64 (ucast (nc_port c))),
           (''protocol'', JString (nc_protocol c)), (''decision'', JString (decision_str (nc_decision c))),
           (''timestamp'', JString (rfc3339_nanos L (nc_timestamp c)))]"

definition derive_attestation_key :: "'w libs_scheme \<Rightarrow> string \<Rightarrow> bytes" where
  "derive_attestation_key L pem = sha256 L pem"

definition compute_signature :: "'w libs_scheme \<Rightarrow> bytes \<Rightarrow> json \<Rightarrow> bytes" where
  "compute_signature L key summary = hmac_sha256 L key (json_to_string L summary)"

definition SIGNED_FIELDS :: "string list" where
  "SIGNED_FIELDS = [''totalConnections'', ''allowedCount'', ''approvedCount'', ''deniedCount'', ''connectionsDigestHex'']"

fun select_fields :: "jmap \<Rightarrow> string list \<Rightarrow> (string \<times> json) list option" where
  "select_fields obj [] = Some []"
| "select_fields obj (f # fs) =
     (case fmlookup obj f of
        None \<Rightarrow> None
      | Some v \<Rightarrow> map_option ((#) (f, v)) (select_fields obj fs))"

definition verify_signature :: "'w libs_scheme \<Rightarrow> string \<Rightarrow> json \<Rightarrow> bool" where
  "verify_signature L pem v =
     (case as_object v of
        None \<Rightarrow> False
      | Some obj \<Rightarrow>
          (case Option.bind (fmlookup obj ''signatureHex'') as_str of
             None \<Rightarrow> False
           | Some sig_hex \<Rightarrow>
               (case hex_decode L sig_hex of
                  None \<Rightarrow> False
                | Some expected \<Rightarrow>
                    (case select_fields obj SIGNED_FIELDS of
                       None \<Rightarrow> False
                     | Some kvs \<Rightarrow>
                         expected = compute_signature L (derive_attestation_key L pem) (jobj kvs)))))"

definition count_decision :: "NetworkConnectionDecision \<Rightarrow> NetworkConnectionMeta list \<Rightarrow> nat" where
  "count_decision d log = length (filter (\<lambda>c. nc_decision c = d) log)"

definition connections_array :: "'w libs_scheme \<Rightarrow> NetworkConnectionMeta list \<Rightarrow> json" where
  "connections_array L log = JArray (map (canonical_connection_json L) log)"

definition attestation_summary :: "'w libs_scheme \<Rightarrow> NetworkConnectionMeta list \<Rightarrow> (string \<times> json) list" where
  "attestation_summary L log =
     [(''totalConnections'', JU64 (of_nat (length log))),
      (''allowedCount'', JU64 (of_nat (count_decision ConnAllowed log))),
      (''approvedCount'', JU64 (of_nat (count_decision ConnApproved log))),
      (''deniedCount'', JU64 (of_nat (count_decision ConnDenied log))),
      (''connectionsDigestHex'', JString (hex_encode L (sha256 L (json_to_string L (connections_array L log)))))]"

definition attestation_fields :: "'w libs_scheme \<Rightarrow> string \<Rightarrow> NetworkConnectionMeta list \<Rightarrow> (string \<times> json) list" where
  "attestation_fields L pem log =
     (let summary = attestation_summary L log;
          sig = compute_signature L (derive_attestation_key L pem) (jobj summary) in
      summary @ [(''signatureHex'', JString (hex_encode L sig)),
                 (''networkConnectionsObserved'', connections_array L log)])"

definition emit_network_attestation :: "'w world_scheme \<Rightarrow> (session, engine_error, unit) act" where
  "emit_network_attestation W =
     bindA (getA (\<lambda>s. attestation_fields W (s_svid_key_pem s) (s_network_log s))) (\<lambda>kvs.
     append_session W NetworkAttestation kvs)"

definition shutdown :: "'w world_scheme \<Rightarrow> (session, engine_error, bytes) act" where
  "shutdown W =
     bindA (emit_network_attestation W) (\<lambda>_.
     bindA (getA (\<lambda>s. spiffe_uri (s_spiffe_id s))) (\<lambda>uri.
     bindA (append_session W SessionEnd [(''spiffeId'', JString uri)]) (\<lambda>_.
     mapErrA EngLedger (on_ledger close_ledger))))"

section \<open>Lemmas\<close>

lemma summary_keys: "map fst (attestation_summary L log) = SIGNED_FIELDS"
  by (simp add: attestation_summary_def SIGNED_FIELDS_def)

lemma keys_ok_attestation [simp]: "keys_ok (attestation_fields L pem log)"
  by (simp add: attestation_fields_def attestation_summary_def RESERVED_KEYS_def Let_def)

lemma select_fields_ok:
  assumes "\<And>k v. (k, v) \<in> set kvs \<Longrightarrow> fmlookup obj k = Some v"
  shows "select_fields obj (map fst kvs) = Some kvs"
  using assms
proof (induction kvs)
  case (Cons kv kvs)
  then have "fmlookup obj (fst kv) = Some (snd kv)" "select_fields obj (map fst kvs) = Some kvs" by (cases kv; simp)+
  then show ?case by simp
qed simp

lemma lookup_added: "fmlookup m k = Some v \<Longrightarrow> fmlookup (b ++\<^sub>f m) k = Some v"
  by (simp add: fmdomI)

text \<open>The fields of the attestation stand in any object that extends its payload by other keys.\<close>

lemma attestation_lookup:
  "fmlookup (fmap_of_list (rev (attestation_fields L pem log))) ''signatureHex'' = Some (JString (hex_encode L
     (compute_signature L (derive_attestation_key L pem) (jobj (attestation_summary L log)))))"
  "(k, v) \<in> set (attestation_summary L log) \<Longrightarrow>
     fmlookup (fmap_of_list (rev (attestation_fields L pem log))) k = Some v"
  by (auto simp: attestation_fields_def attestation_summary_def Let_def fmlookup_of_list)

lemma attestation_verifies:
  assumes "hex_laws L" and "\<And>k v. fmlookup (fmap_of_list (rev (attestation_fields L pem log))) k = Some v \<Longrightarrow>
    fmlookup obj k = Some v"
  shows "verify_signature L pem (JObject obj)"
proof -
  have "select_fields obj SIGNED_FIELDS = Some (attestation_summary L log)"
    unfolding summary_keys [of L log, symmetric]
    by (rule select_fields_ok) (rule assms(2) [OF attestation_lookup(2)])
  moreover have "fmlookup obj ''signatureHex'' = Some (JString (hex_encode L
     (compute_signature L (derive_attestation_key L pem) (jobj (attestation_summary L log)))))"
    by (rule assms(2) [OF attestation_lookup(1)])
  ultimately show ?thesis
    using assms(1) by (simp add: verify_signature_def hex_laws_def)
qed

lemma counts_sum: "count_decision ConnAllowed log + count_decision ConnApproved log + count_decision ConnDenied log = length log"
proof (induction log)
  case (Cons c log)
  then show ?case by (cases "nc_decision c") (auto simp: count_decision_def)
qed (simp add: count_decision_def)

lemma appends_attestation:
  "emit_network_attestation W s = append_session W NetworkAttestation
     (attestation_fields W (s_svid_key_pem s) (s_network_log s)) s"
  by (simp add: emit_network_attestation_def bindA_getA)

lemma close_ledger_ok:
  assumes "close_ledger w = (Inr root, w')"
  shows "root = current_head w" and "w_log w' = w_log w" and "b_disk (w_file w') = b_disk (w_file w) @ b_buf (w_file w)"
    and "w_next_sequence w' = w_next_sequence w" and "w_prev_hash w' = w_prev_hash w"
  using assms
  by (auto simp: close_ledger_def bindA_eq_ok zoomA_eq getA_def current_head_def sync_all_def split: if_splits
      dest!: flush_ok)

lemma close_ledger_works:
  assumes "disk_works w"
  shows "\<exists>root w'. close_ledger w = (Inr root, w')"
proof -
  have b: "\<forall>n. snd (b_outcome (w_file w) n)" using assms by (simp add: disk_works_def)
  obtain b1 where f: "flush (w_file w) = (Inr (), b1)" "b_outcome b1 = b_outcome (w_file w)"
    using b by (cases "b_outcome (w_file w) (b_calls (w_file w))") (auto simp: flush_def dest: spec [of _ "b_calls (w_file w)"])
  then show ?thesis
    using b by (auto simp: close_ledger_def bindA_def zoomA_def sync_all_def getA_def)
qed

lemma append_session_time:
  assumes "append_session W ty kvs s = (Inr u, s')" and "s_log s' = s_log s @ [e]"
  shows "e_timestamp e \<in> range (w_utc_now W)"
proof -
  from assms(1) obtain r w where "append_entry W (session_entry (ticked s) ty (w_utc_now W (en_tick (s_env s))) kvs)
      (s_ledger s) = (Inr r, w)" "s' = (ticked s)\<lparr> s_ledger := w \<rparr>"
    by (auto simp: append_session_def bindA_tick bindA_getA act_results okA_def zoomA_eq)
  with append_entry_ok(2) assms(2) have "e = session_entry (ticked s) ty (w_utc_now W (en_tick (s_env s))) kvs" by fastforce
  then show ?thesis by (simp add: session_entry_def)
qed

text \<open>The operations on the ledger file: how many were made, all with success.\<close>

definition file_ops :: "nat \<Rightarrow> bufwriter \<Rightarrow> bufwriter \<Rightarrow> bool" where
  "file_ops k b b' \<longleftrightarrow> b_calls b' = b_calls b + k \<and> b_outcome b' = b_outcome b \<and>
     (\<forall>i. b_calls b \<le> i \<and> i < b_calls b + k \<longrightarrow> snd (b_outcome b i))"

lemma file_ops_trans: "file_ops j b b1 \<Longrightarrow> file_ops k b1 b2 \<Longrightarrow> file_ops (j + k) b b2"
  unfolding file_ops_def by (metis add.assoc not_le)

lemma file_op_one:
  "write_all bs b = (Inr x, b') \<Longrightarrow> file_ops 1 b b'" "flush b = (Inr x, b') \<Longrightarrow> file_ops 1 b b'"
  "sync_all b = (Inr x, b') \<Longrightarrow> file_ops 1 b b'"
proof -
  have one: "b_calls b \<le> i \<and> i < b_calls b + 1 \<longleftrightarrow> i = b_calls b" for i by auto
  show "write_all bs b = (Inr x, b') \<Longrightarrow> file_ops 1 b b'" "flush b = (Inr x, b') \<Longrightarrow> file_ops 1 b b'"
    "sync_all b = (Inr x, b') \<Longrightarrow> file_ops 1 b b'"
    unfolding file_ops_def one by (auto simp: write_all_def flush_def sync_all_def Let_def split: prod.splits if_splits)
qed

lemma append_file_ops: "append_entry L x w = (Inr r, w') \<Longrightarrow> file_ops 4 (w_file w) (w_file w')"
proof -
  have persist: "file_ops 4 b b'" if "persist_line line b = (Inr u, b')" for line b u b'
  proof -
    from that obtain b1 b2 b3 where "write_all line b = (Inr (), b1)" "write_all [CHR 0x0A] b1 = (Inr (), b2)"
      "flush b2 = (Inr (), b3)" "sync_all b3 = (Inr u, b')" by (auto simp: persist_line_def bindA_eq_ok)
    then have "file_ops (1 + 1 + 1 + 1) b b'" using file_op_one file_ops_trans by metis
    then show ?thesis by (simp add: numeral_eq_Suc)
  qed
  assume "append_entry L x w = (Inr r, w')"
  then show ?thesis
    by (auto simp: append_entry_def bindA_eq_ok getA_def next_uuid_def zoomA_eq modA_def okA_def errA_def Let_def
        split: if_splits option.splits dest!: persist)
qed

lemma close_file_ops:
  "close_ledger w = (Inr root, w') \<Longrightarrow> file_ops 2 (w_file w) (w_file w') \<and> b_buf (w_file w') = []"
proof -
  assume "close_ledger w = (Inr root, w')"
  then obtain b1 b2 where f: "flush (w_file w) = (Inr (), b1)" "sync_all b1 = (Inr (), b2)" and "w_file w' = b2"
    by (auto simp: close_ledger_def bindA_eq_ok zoomA_eq getA_def)
  moreover have "file_ops (1 + 1) (w_file w) b2" using file_op_one f file_ops_trans by metis
  ultimately show ?thesis using flush_ok [OF f(1)] sync_all_ok [OF f(2)] by (simp add: numeral_eq_Suc)
qed

lemma append_session_file_ops:
  "append_session W ty kvs s = (Inr u, s') \<Longrightarrow> file_ops 4 (w_file (s_ledger s)) (w_file (s_ledger s'))"
  by (auto simp: append_session_def bindA_tick bindA_getA act_results okA_def zoomA_eq dest: append_file_ops)

text \<open>A shutdown that returns has appended exactly the attestation and the end of the session.\<close>

lemma shutdown_entries:
  assumes "shutdown W s = (Inr root, s')"
  obtains a e where "s_log s' = s_log s @ [a, e]"
    and "e_entry_type a = NetworkAttestation"
    and "e_payload a = fmap_of_list (rev (attestation_fields W (s_svid_key_pem s) (s_network_log s)))"
    and "e_entry_type e = SessionEnd" and "e_payload e = fmap_of_list [(''spiffeId'', JString (spiffe_uri (s_spiffe_id s)))]"
    and "e_timestamp a \<in> range (w_utc_now W)" and "e_timestamp e \<in> range (w_utc_now W)"
    and "\<exists>w. file_ops 8 (w_file (s_ledger s)) (w_file w) \<and> w_log w = w_log (s_ledger s') \<and> close_ledger w = (Inr root, s_ledger s')"
proof -
  let ?kvs = "attestation_fields W (s_svid_key_pem s) (s_network_log s)"
  from assms obtain s1 s2 where 1: "append_session W NetworkAttestation ?kvs s = (Inr (), s1)"
    and 2: "append_session W SessionEnd [(''spiffeId'', JString (spiffe_uri (s_spiffe_id s1)))] s1 = (Inr (), s2)"
    and 3: "mapErrA EngLedger (on_ledger close_ledger) s2 = (Inr root, s')"
    by (auto simp: shutdown_def appends_attestation bindA_eq_ok bindA_getA)
  from appends_Inr [OF appends_session [OF keys_ok_attestation] 1] obtain a where l: "logs_only s s1" and
    a: "s_log s1 = s_log s @ [a]" "entry_is NetworkAttestation ?kvs s a" by blast
  have "keys_ok [(''spiffeId'', JString (spiffe_uri (s_spiffe_id s1)))]" by (simp add: RESERVED_KEYS_def)
  from appends_Inr [OF appends_session [OF this] 2] obtain e where
    e: "s_log s2 = s_log s1 @ [e]" "entry_is SessionEnd [(''spiffeId'', JString (spiffe_uri (s_spiffe_id s1)))] s1 e" by blast
  from 3 have "s_log s' = s_log s2"
    by (auto simp: mapErrA_def zoomA_eq split: sum.splits prod.splits dest: close_ledger_ok(2))
  moreover have "s_spiffe_id s1 = s_spiffe_id s" using l by (auto simp: logs_only_def)
  moreover obtain w' where c: "close_ledger (s_ledger s2) = (Inr root, w')" "s_ledger s' = w'"
    using 3 by (auto simp: mapErrA_def zoomA_eq split: sum.splits prod.splits)
  have "file_ops (4 + 4) (w_file (s_ledger s)) (w_file (s_ledger s2))"
    using file_ops_trans append_session_file_ops [OF 1] append_session_file_ops [OF 2] by blast
  with c close_ledger_ok(2) [OF c(1)]
  have "\<exists>w. file_ops 8 (w_file (s_ledger s)) (w_file w) \<and> w_log w = w_log (s_ledger s') \<and> close_ledger w = (Inr root, s_ledger s')"
    by (intro exI [of _ "s_ledger s2"]) simp
  ultimately show thesis
    using a e that append_session_time [OF 1 a(1)] append_session_time [OF 2 e(1)] by (auto simp: entry_is_def)
qed

section \<open>Properties\<close>

text \<open>C14: A session that is shut down leaves a signed account of its network activity. When \<open>shutdown\<close>
  returns, the ledger ends with a NetworkAttestation and a SessionEnd, also when there was no
  connection. The attestation, as the entry stands in the ledger file, passes \<open>verify_signature\<close> under
  the session's key; its counts are those of the connections the session logged, by decision, and they
  add up to the total; the digest is that of the list it carries. The ledger is then closed: after the file operations of the two
  entries (for each the line, its newline, a flush and a sync) come the flush and the sync of \<open>close\<close>, all of
  them with success, nothing is left in the buffer, and the root that is returned is the head of the chain.\<close>

theorem shutdown_attests:
  assumes "hex_laws W" and "shutdown W s = (Inr root, s')"
  shows "\<exists>a e. s_log s' = s_log s @ [a, e] \<and> e_entry_type a = NetworkAttestation \<and> e_entry_type e = SessionEnd \<and>
     (\<forall>sid n prev uid. verify_signature W (s_svid_key_pem s)
        (JObject (base_obj W (schema_version s) sid n prev uid a ++\<^sub>f e_payload a))) \<and>
     fmlookup (e_payload a) ''totalConnections'' = Some (JU64 (of_nat (length (s_network_log s)))) \<and>
     fmlookup (e_payload a) ''allowedCount'' = Some (JU64 (of_nat (count_decision ConnAllowed (s_network_log s)))) \<and>
     fmlookup (e_payload a) ''approvedCount'' = Some (JU64 (of_nat (count_decision ConnApproved (s_network_log s)))) \<and>
     fmlookup (e_payload a) ''deniedCount'' = Some (JU64 (of_nat (count_decision ConnDenied (s_network_log s)))) \<and>
     fmlookup (e_payload a) ''networkConnectionsObserved'' = Some (connections_array W (s_network_log s)) \<and>
     fmlookup (e_payload a) ''connectionsDigestHex'' =
       Some (JString (hex_encode W (sha256 W (json_to_string W (connections_array W (s_network_log s)))))) \<and>
     count_decision ConnAllowed (s_network_log s) + count_decision ConnApproved (s_network_log s) +
       count_decision ConnDenied (s_network_log s) = length (s_network_log s) \<and>
     (\<exists>w. file_ops 8 (w_file (s_ledger s)) (w_file w) \<and> w_log w = w_log (s_ledger s') \<and>
        close_ledger w = (Inr root, s_ledger s')) \<and>
     file_ops 10 (w_file (s_ledger s)) (w_file (s_ledger s')) \<and> b_buf (w_file (s_ledger s')) = [] \<and>
     root = current_head (s_ledger s')"
proof (rule shutdown_entries [OF assms(2)])
  fix a e
  assume l: "s_log s' = s_log s @ [a, e]" and t: "e_entry_type a = NetworkAttestation" "e_entry_type e = SessionEnd"
    and p: "e_payload a = fmap_of_list (rev (attestation_fields W (s_svid_key_pem s) (s_network_log s)))"
    and c: "\<exists>w. file_ops 8 (w_file (s_ledger s)) (w_file w) \<and> w_log w = w_log (s_ledger s') \<and> close_ledger w = (Inr root, s_ledger s')"
  from c obtain w where w: "file_ops 8 (w_file (s_ledger s)) (w_file w)" "close_ledger w = (Inr root, s_ledger s')" by blast
  have "file_ops (8 + 2) (w_file (s_ledger s)) (w_file (s_ledger s'))"
    using file_ops_trans [OF w(1)] close_file_ops [OF w(2)] by blast
  then have closed: "file_ops 10 (w_file (s_ledger s)) (w_file (s_ledger s'))" "b_buf (w_file (s_ledger s')) = []"
    "root = current_head (s_ledger s')"
    using close_file_ops [OF w(2)] close_ledger_ok(1,5) [OF w(2)] by (simp_all add: current_head_def)
  have "verify_signature W (s_svid_key_pem s) (JObject (base_obj W ver sid n prev uid a ++\<^sub>f e_payload a))" for ver sid n prev uid
    by (rule attestation_verifies [OF assms(1), where log = "s_network_log s"]) (simp only: p lookup_added)
  moreover have "fmlookup (e_payload a) k = Some v" if "(k, v) \<in> set (attestation_summary W (s_network_log s))" for k v
    using attestation_lookup(2) [OF that] by (simp add: p)
  moreover have "fmlookup (e_payload a) ''networkConnectionsObserved'' = Some (connections_array W (s_network_log s))"
    by (simp add: p attestation_fields_def Let_def fmlookup_of_list)
  ultimately show ?thesis
    using l t counts_sum c closed by (intro exI [of _ a] exI [of _ e]) (simp add: attestation_summary_def)
qed

text \<open>A live session can always be shut down.\<close>

lemma shutdown_live:
  assumes "live s"
  shows "\<exists>root s'. shutdown W s = (Inr root, s')"
proof -
  obtain s1 where 1: "emit_network_attestation W s = (Inr (), s1)" "logs_only s s1"
    using appends_live [OF appends_session [OF keys_ok_attestation] assms] appends_Inr [OF appends_session [OF keys_ok_attestation]]
    unfolding appends_attestation by (metis old.unit.exhaust)
  let ?kvs = "[(''spiffeId'', JString (spiffe_uri (s_spiffe_id s1)))]"
  have k: "keys_ok ?kvs" by (simp add: RESERVED_KEYS_def)
  have "live s1" using live_logs_only [OF 1(2)] assms by simp
  then obtain s2 where 2: "append_session W SessionEnd ?kvs s1 = (Inr (), s2)" "logs_only s1 s2"
    using appends_live [OF appends_session [OF k]] appends_Inr [OF appends_session [OF k]] by (metis old.unit.exhaust)
  have "disk_works (s_ledger s2)" using live_logs_only [OF 2(2)] \<open>live s1\<close> by (simp add: live_def)
  then obtain root w where "close_ledger (s_ledger s2) = (Inr root, w)" using close_ledger_works by blast
  then have "mapErrA EngLedger (on_ledger close_ledger) s2 = (Inr root, s2\<lparr> s_ledger := w \<rparr>)"
    by (simp add: mapErrA_def zoomA_def)
  with 1(1) 2(1) have "shutdown W s = (Inr root, s2\<lparr> s_ledger := w \<rparr>)"
    by (simp add: shutdown_def bindA_ok bindA_getA)
  then show ?thesis by blast
qed

lemma demo_shutdown:
  "\<exists>s root s' x. reachable (demo_world empty_manifest) s \<and> disk_works (s_ledger s) \<and> s_session_id s = ''s1'' \<and>
     s_network_log s = [] \<and> s_log s = [x] \<and> readable x \<and>
     shutdown (demo_world empty_manifest) s = (Inr root, s')"
proof -
  have "check_reserved (policy_from_manifest empty_manifest) = Inr ()" "m_extends empty_manifest = []"
    by (simp_all add: check_reserved_def policy_from_manifest_def empty_manifest_def)
  from demo_boot [OF this, of V2] obtain s where s: "demo_session empty_manifest V2 s" "s_network_log s = []"
    "\<exists>x. s_log s = [x] \<and> readable x" by auto
  then have "live s" by (simp add: demo_session_def)
  from shutdown_live [OF this, of "demo_world empty_manifest"] s show ?thesis by (auto simp: demo_session_def live_def)
qed

theorem shutdown_attests_witness:
  "\<exists>s s' a e. reachable (demo_world empty_manifest) s \<and> s_log s' = s_log s @ [a, e] \<and>
     e_entry_type a = NetworkAttestation \<and> fmlookup (e_payload a) ''totalConnections'' = Some (JU64 0)"
proof -
  obtain s root s' where s: "reachable (demo_world empty_manifest) s" "s_network_log s = []"
    "shutdown (demo_world empty_manifest) s = (Inr root, s')" using demo_shutdown by blast
  have "hex_laws (demo_world empty_manifest)" using demo_world_laws by (simp add: lib_laws_def)
  from shutdown_attests [OF this s(3)] s(1,2) show ?thesis by (auto simp del: fmlookup_of_list)
qed

text \<open>The root hash that \<open>shutdown\<close> returns is the one the verifier computes from the file. For a
  session whose ledger disk works and whose entries are readable, the file left by the shutdown is
  accepted, with the session's id, every entry counted, and that root hash.\<close>

theorem shutdown_root_verifies:
  assumes "lib_laws W" and "reachable W s" and "disk_works (s_ledger s)" and "shutdown W s = (Inr root, s')"
    and "utf8_ok (s_session_id s)" and "\<forall>e \<in> set (s_log s'). readable e" and "length (s_log s') < 2 ^ 64"
  shows "\<exists>sum. verify_reader W (\<lambda>_. False) (b_disk (w_file (s_ledger s'))) = Inr sum \<and>
     vs_session_id sum = Some (s_session_id s) \<and> unat (vs_entry_count sum) = length (s_log s) + 2 \<and>
     vs_root_hash_hex sum = hex_encode W root"
proof -
  let ?append = "append_session W"
  from assms(4) obtain kvs uri s1 s2 where 1: "?append NetworkAttestation kvs s = (Inr (), s1)"
    and 2: "?append SessionEnd [(''spiffeId'', uri)] s1 = (Inr (), s2)"
    and 3: "mapErrA EngLedger (on_ledger close_ledger) s2 = (Inr root, s')"
    by (auto simp: shutdown_def appends_attestation bindA_eq_ok bindA_getA)
  let ?w = "s_ledger s2"
  note i = reachable_ledger_intact [OF assms(2), unfolded ledger_intact_def]
  have c: "chained W s s2"
    using chain_frame.step_trans movesD [OF chain_frame.append_session_frame 1]
      movesD [OF chain_frame.append_session_frame 2] by blast
  with i assms(3) have w: "writer_ok W ?w" by (simp add: chained_def)
  from 3 obtain w' where cl: "close_ledger ?w = (Inr root, w')" "s_ledger s' = w'"
    by (auto simp: mapErrA_def zoomA_eq split: sum.splits prod.splits)
  note cl' = close_ledger_ok [OF cl(1)]
  have disk: "b_disk (w_file w') = b_disk (w_file ?w)" using cl'(3) w by (simp add: writer_ok_def)
  have "config_step s s2"
    using config_order.step_trans movesD [OF config_frame.append_session_frame 1]
      movesD [OF config_frame.append_session_frame 2] by blast
  then have sid: "w_session_id ?w = s_session_id s" using i config_fields(10) by (simp add: writer_step_def)
  obtain a e where l: "s_log s' = s_log s @ [a, e]" by (rule shutdown_entries [OF assms(4)])
  have log: "w_log ?w \<noteq> []" "length (w_log ?w) = length (s_log s) + 2"
    using arg_cong [OF l, of length] cl(2) cl'(2) by auto
  have "\<forall>(uid, e) \<in> set (w_log ?w). readable e" using assms(6) cl(2) cl'(2) by fastforce
  moreover have "length (w_log ?w) < 2 ^ 64" using assms(7) cl(2) cl'(2) by simp
  ultimately have v: "verify_reader W (\<lambda>_. False) (b_disk (w_file ?w)) = Inr
     \<lparr> vs_session_id = Some (s_session_id s), vs_entry_count = entry_count ?w,
       vs_root_hash_hex = hex_encode W (current_head ?w),
       vs_first_timestamp = Some (e_timestamp (snd (hd (w_log ?w)))),
       vs_last_timestamp = Some (e_timestamp (snd (last (w_log ?w)))),
       vs_schema_version = Some (w_schema_version ?w) \<rparr>"
    using writer_file_verifies [OF assms(1) _ w] sid assms(5) log(1) by simp
  have n: "n < 2 ^ 64 \<Longrightarrow> unat (of_nat n :: u64) = n" for n by (simp add: unat_of_nat)
  have "entry_count ?w = of_nat (length (w_log ?w))" using w by (simp add: entry_count_def writer_ok_def)
  then have "unat (entry_count ?w) = length (s_log s) + 2"
    using n [OF \<open>length (w_log ?w) < 2 ^ 64\<close>] log(2) by simp
  with v disk cl(2) cl'(1) show ?thesis by simp
qed

lemma attestation_empty_depth: "json_depth (JObject (fmap_of_list (rev (attestation_fields L pem [])))) \<le> 2"
proof -
  have d: "\<forall>kv \<in> set (attestation_fields L pem []). json_depth (snd kv) \<le> 1"
    by (simp add: attestation_fields_def attestation_summary_def connections_array_def Let_def)
  have "json_depth v \<le> 1" if "fmlookup (fmap_of_list (rev (attestation_fields L pem []))) k = Some v" for k v
    using map_of_SomeD [of "rev (attestation_fields L pem [])" k v] that d by (auto simp: fmlookup_of_list)
  then have "json_depth (JObject (fmap_of_list (rev (attestation_fields L pem [])))) \<le> Suc 1" by (rule json_depth_object_le)
  then show ?thesis by simp
qed

lemma demo_shutdown_readable:
  assumes "shutdown (demo_world m) s = (Inr root, s')" and "s_network_log s = []" and "\<forall>x \<in> set (s_log s). readable x"
  shows "(\<forall>x \<in> set (s_log s'). readable x) \<and> length (s_log s') = length (s_log s) + 2"
proof (rule shutdown_entries [OF assms(1)])
  let ?W = "demo_world m"
  fix a e assume l: "s_log s' = s_log s @ [a, e]"
    and p: "e_payload a = fmap_of_list (rev (attestation_fields ?W (s_svid_key_pem s) (s_network_log s)))"
      "e_payload e = fmap_of_list [(''spiffeId'', JString (spiffe_uri (s_spiffe_id s)))]"
    and t: "e_timestamp a \<in> range (w_utc_now ?W)" "e_timestamp e \<in> range (w_utc_now ?W)"
  have "json_depth (JObject (e_payload e)) \<le> Suc 0"
    by (rule json_depth_object_le) (auto simp: p(2) fmlookup_of_list split: if_splits)
  then have "readable a" "readable e"
    using attestation_empty_depth [of ?W "s_svid_key_pem s"] t assms(2)
    by (auto simp: readable_def time_in_range_def p(1) simp del: json_depth.simps)
  with l assms(3) show ?thesis by auto
qed

theorem shutdown_root_verifies_witness:
  "\<exists>s root s' sum. shutdown (demo_world empty_manifest) s = (Inr root, s') \<and>
     verify_reader (demo_world empty_manifest) (\<lambda>_. False) (b_disk (w_file (s_ledger s'))) = Inr sum \<and>
     vs_root_hash_hex sum = hex_encode0 root"
proof -
  let ?W = "demo_world empty_manifest"
  obtain s root s' x where s: "reachable ?W s" "disk_works (s_ledger s)" "s_session_id s = ''s1''" "s_network_log s = []"
    "s_log s = [x]" "readable x" and d: "shutdown ?W s = (Inr root, s')" using demo_shutdown by (elim exE conjE) (rule that)
  have "(\<forall>e \<in> set (s_log s'). readable e) \<and> length (s_log s') = 3"
    using demo_shutdown_readable [OF d s(4)] s(5,6) by simp
  then have "\<forall>e \<in> set (s_log s'). readable e" "length (s_log s') < 2 ^ 64" by simp_all
  moreover have "utf8_ok (s_session_id s)" by (simp add: s(3))
  ultimately show ?thesis
    using shutdown_root_verifies [OF demo_world_laws s(1,2) d] d by auto
qed

section \<open>The connection log\<close>

definition connection :: "string \<Rightarrow> u16 \<Rightarrow> NetworkProto \<Rightarrow> NetworkConnectionDecision \<Rightarrow> time \<Rightarrow> NetworkConnectionMeta" where
  "connection host port proto d t =
     \<lparr> nc_host = host, nc_port = port, nc_protocol = network_scheme proto, nc_decision = d, nc_timestamp = t \<rparr>"

definition logged :: "string \<Rightarrow> u16 \<Rightarrow> NetworkProto \<Rightarrow> NetworkConnectionDecision \<Rightarrow> session \<Rightarrow> session \<Rightarrow> bool" where
  "logged host port proto d s s' \<longleftrightarrow> (\<exists>t. s_network_log s' = s_network_log s @ [connection host port proto d t])"

lemma log_connection_logged: "log_connection W host port proto d s = (r, s') \<Longrightarrow> logged host port proto d s s'"
  by (auto simp: log_connection_def bindA_tick modA_def logged_def connection_def)

lemma log_then_error:
  "bindA (log_connection W host port proto d) (\<lambda>_. errA e) s = (r, s') \<Longrightarrow> r = Inl e \<and> logged host port proto d s s'"
  by (auto simp: bindA_def log_connection_def zoomA_def utc_now_def tickA_def modA_def errA_def logged_def connection_def)

lemma connect_decision_logged:
  assumes "connect_on_decision W host port proto rsid was d s = (r, s')"
  shows "case r of
      Inr _ \<Rightarrow> logged host port proto (if was then ConnApproved else ConnAllowed) s s'
    | Inl x \<Rightarrow> if refusal x then logged host port proto ConnDenied s s' else s_network_log s' = s_network_log s"
proof (cases d)
  case Allow
  let ?u = "network_uri host port proto"
  obtain r1 s1 where 1: "do_connect W host port s = (r1, s1)" by fastforce
  have n1: "s_network_log s1 = s_network_log s" using calls_perform(4) [OF 1] by (simp add: performed_def)
  show ?thesis
  proof (cases r1)
    case (Inl x)
    from 1 Inl have "x = EngIo"
      by (auto simp: do_connect_def record_effect_def modA_def bindA_def zoomA_def tickA_def okA_def errA_def split: if_splits)
    with assms 1 n1 Inl Allow show ?thesis by (auto simp: connect_on_decision_def bindA_err)
  next
    case (Inr v)
    obtain r2 s2 where 2: "emit_success W ?u AccNetworkOutbound 0 rsid s1 = (r2, s2)" by fastforce
    have n2: "s_network_log s2 = s_network_log s1" using logs_only_fields(6) [OF movesD [OF emit_success_moves 2]] .
    show ?thesis
    proof (cases r2)
      case (Inl x)
      then have "\<not> refusal x" using never_refuses_success [OF uri_nonempty(2)] 2 unfolding never_refuses_def by blast
      with assms 1 2 n1 n2 Inl Inr Allow show ?thesis by (auto simp: connect_on_decision_def bindA_ok bindA_err)
    next
      case Inr2: (Inr v2)
      with assms 1 2 Inr Allow have l: "log_connection W host port proto (if was then ConnApproved else ConnAllowed) s2 = (r, s')"
        by (simp add: connect_on_decision_def bindA_ok)
      then have "\<exists>y. r = Inr y" by (auto simp: log_connection_def bindA_tick modA_def)
      with log_connection_logged [OF l] n1 n2 show ?thesis by (auto simp: logged_def)
    qed
  qed
next
  case (Deny reason)
  obtain r1 s1 where 1: "emit_deny W (network_uri host port proto) ''network_outbound'' reason s = (r1, s1)" by fastforce
  have n1: "s_network_log s1 = s_network_log s" using logs_only_fields(6) [OF movesD [OF emit_deny_moves 1]] .
  show ?thesis
  proof (cases r1)
    case (Inl x)
    then have "\<not> refusal x" using appends_Inl [OF appends_emit_deny] ledger_failure_no_refusal 1 by blast
    with assms 1 n1 Inl Deny show ?thesis by (auto simp: connect_on_decision_def bindA_err)
  next
    case (Inr v)
    with assms 1 Deny have "bindA (log_connection W host port proto ConnDenied) (\<lambda>_. errA (EngDenied reason)) s1 = (r, s')"
      by (simp add: connect_on_decision_def bindA_ok)
    from log_then_error [OF this] n1 show ?thesis by (auto simp: logged_def)
  qed
next
  case (RequireApproval reason)
  with assms log_then_error show ?thesis by (fastforce simp: connect_on_decision_def)
qed

text \<open>Connections are accounted for by decision. A connection that succeeds is logged once, as approved
  if the policy had asked for approval and as allowed otherwise; one that is refused is logged once as
  denied. A call that fails in another way is logged as denied or not at all: nothing is logged when the
  connection itself fails, although the policy had let it through.\<close>

theorem connections_are_logged:
  assumes "mediate_network_connect W host port proto rsid s = (r, s')"
  shows "case r of
      Inr _ \<Rightarrow> logged host port proto (if is_approval (check_network_outbound (s_policy s) host port proto)
        then ConnApproved else ConnAllowed) s s'
    | Inl x \<Rightarrow> logged host port proto ConnDenied s s' \<or> \<not> refusal x \<and> s_network_log s' = s_network_log s"
proof -
  obtain r1 s1 where 1: "rebind W s = (r1, s1)" by fastforce
  note f = logs_only_fields(1,6) [OF movesD [OF rebind_moves 1]]
  show ?thesis
  proof (cases r1)
    case (Inl x)
    with assms 1 have "r = Inl x" "s' = s1" by (simp_all add: mediate_network_connect_def bindA_err)
    with Inl 1 f never_refuses_rebind show ?thesis unfolding never_refuses_def by auto
  next
    case (Inr u)
    let ?d = "check_network_outbound (s_policy s) host port proto"
    obtain r2 s2 where 2: "route_through_approval W ?d (network_uri host port proto) ''network_outbound'' rsid ClassNetwork
        ''network__connect'' (network_args host port proto) s1 = (r2, s2)" by fastforce
    have n: "s_network_log s2 = s_network_log s" using gate_fields(6) [OF movesD [OF route_moves 2]] f(2) by simp
    from assms 1 2 Inr f(1) have m: "(case r2 of
          Inl e \<Rightarrow> bindA (log_connection W host port proto ConnDenied) (\<lambda>_. errA e)
        | Inr d \<Rightarrow> connect_on_decision W host port proto rsid (is_approval ?d) d) s2 = (r, s')"
      by (simp add: mediate_network_connect_def bindA_ok bindA_getA bindA_tryA)
    show ?thesis
    proof (cases r2)
      case (Inl e)
      with m log_then_error n show ?thesis by (fastforce simp: logged_def)
    next
      case (Inr d)
      with m connect_decision_logged [of W host port proto rsid "is_approval ?d" d s2 r s'] n show ?thesis
        by (auto simp: logged_def split: sum.splits if_splits)
    qed
  qed
qed

theorem connections_are_logged_witness:
  "\<exists>s s' d. mediate_network_connect (demo_world demo_capped_network) ''h'' 80 ProtoTcp None s = (Inr (), s') \<and>
     logged ''h'' 80 ProtoTcp d s s' \<and> d \<noteq> ConnDenied"
proof -
  obtain s s' where m: "mediate_network_connect (demo_world demo_capped_network) ''h'' 80 ProtoTcp None s = (Inr (), s')"
    using demo_connects by blast
  from connections_are_logged [OF m] m show ?thesis
    by (intro exI [of _ s] exI [of _ s'] exI [of _ "if is_approval (check_network_outbound (s_policy s) ''h'' 80 ProtoTcp)
        then ConnApproved else ConnAllowed"]) simp
qed

end
