(* ===== verification/Gates.thy ===== *)
theory Gates
  imports Demo
begin

text \<open>
  The standalone gates: \<open>crates/filesystem-gate/src/lib.rs\<close>, a policy check before each call of
  \<open>std::fs\<close>, and \<open>crates/network-gate/src/lib.rs\<close>, the same before an outbound TCP connection. The
  calls that leave the process are recorded in the state in the order they are made.
\<close>

section \<open>The filesystem gate\<close>

datatype fs_call =
    CallRead string
  | CallWrite string bytes
  | CallOpenRead string
  | CallOpenWrite string
  | CallRemoveFile string
  | CallRemoveDirAll string
  | CallRename string string

datatype gate_failure =
    FgIo
  | FgPolicy policy_error
  | FgDenied string
  | FgRequireApproval string
  | FgPanic

text \<open>The calls of \<open>std::fs\<close> that the session does not make: whether they succeed, and what they leave.\<close>

record fs_world = world +
  fw_open_read :: "nat \<Rightarrow> file_system \<Rightarrow> string \<Rightarrow> bool"
  fw_open_write :: "nat \<Rightarrow> file_system \<Rightarrow> string \<Rightarrow> bool \<times> file_system"
  fw_remove_dir_all :: "nat \<Rightarrow> file_system \<Rightarrow> string \<Rightarrow> bool \<times> file_system"
  fw_rename :: "nat \<Rightarrow> file_system \<Rightarrow> string \<Rightarrow> string \<Rightarrow> bool \<times> file_system"

record GateContext =
  gx_policy :: Policy
  gx_writer :: writer
  gx_agent_identity_hash :: bytes
  gx_session_start :: time
  gx_env :: env
  gx_calls :: "fs_call list"

definition gate_context_new :: "Policy \<Rightarrow> writer \<Rightarrow> bytes \<Rightarrow> time \<Rightarrow> env \<Rightarrow> GateContext" where
  "gate_context_new p w idh start e =
     \<lparr> gx_policy = p, gx_writer = w, gx_agent_identity_hash = idh, gx_session_start = start,
       gx_env = e, gx_calls = [] \<rparr>"

abbreviation on_gx_env :: "(env, 'e, 'a) act \<Rightarrow> (GateContext, 'e, 'a) act" where
  "on_gx_env \<equiv> zoomA gx_env (\<lambda>e s. s\<lparr> gx_env := e \<rparr>)"

abbreviation on_gx_writer :: "(writer, 'e, 'a) act \<Rightarrow> (GateContext, 'e, 'a) act" where
  "on_gx_writer \<equiv> zoomA gx_writer (\<lambda>w s. s\<lparr> gx_writer := w \<rparr>)"

datatype AccessKind = KindRead | KindWrite | KindDelete

fun access_kind_str :: "AccessKind \<Rightarrow> string" where
  "access_kind_str KindRead = ''read''"
| "access_kind_str KindWrite = ''write''"
| "access_kind_str KindDelete = ''delete''"

definition absolutize :: "'w world_scheme \<Rightarrow> string \<Rightarrow> (GateContext, 'e, string) act" where
  "absolutize W path =
     (if prefix ''/'' path then okA path
      else bindA (on_gx_env (tickA (w_current_dir W))) (\<lambda>cwd.
           okA (case cwd of Some d \<Rightarrow> path_join d path | None \<Rightarrow> path)))"

text \<open>The decision of the policy at an instant; \<open>None\<close> is the panic of a malformed duration.\<close>

fun gate_decision :: "'w libs_scheme \<Rightarrow> Policy \<Rightarrow> time \<Rightarrow> string \<Rightarrow> AccessKind \<Rightarrow> time \<Rightarrow> Decision option" where
  "gate_decision L p start path KindRead now = Some (check_filesystem_read p path)"
| "gate_decision L p start path KindWrite now = check_filesystem_write L p path now start"
| "gate_decision L p start path KindDelete now = check_filesystem_delete L p path now start"

definition gate_denied :: "'w world_scheme \<Rightarrow> string \<Rightarrow> AccessKind \<Rightarrow> string \<Rightarrow> (GateContext, gate_failure, unit) act" where
  "gate_denied W path kind reason =
     bindA (absolutize W path) (\<lambda>full.
     bindA (on_gx_env (tickA (w_utc_now W))) (\<lambda>ts.
     bindA (getA gx_agent_identity_hash) (\<lambda>idh.
     bindA (mapErrA FgPolicy (on_gx_writer (emit_violation W idh
       \<lparr> ve_reason = reason, ve_resource_uri = Some (''file://'' @ full),
         ve_access_type = Some (access_kind_str kind), ve_timestamp = ts \<rparr>))) (\<lambda>_.
     errA (FgDenied reason)))))"

definition gate :: "'w world_scheme \<Rightarrow> string \<Rightarrow> AccessKind \<Rightarrow> (GateContext, gate_failure, unit) act" where
  "gate W path kind =
     bindA (on_gx_env (tickA (w_utc_now W))) (\<lambda>now.
     bindA (getA (\<lambda>s. s)) (\<lambda>s.
     bindA (liftA (of_option FgPanic (gate_decision W (gx_policy s) (gx_session_start s) path kind now))) (\<lambda>decision.
     case decision of
       Allow \<Rightarrow> okA ()
     | RequireApproval reason \<Rightarrow> errA (FgRequireApproval reason)
     | Deny reason \<Rightarrow> gate_denied W path kind reason)))"

definition record_call :: "fs_call \<Rightarrow> (GateContext, 'e, unit) act" where
  "record_call c = modA (\<lambda>s. s\<lparr> gx_calls := gx_calls s @ [c] \<rparr>)"

text \<open>A call that changes the file system and answers whether it succeeded.\<close>

definition fs_change :: "fs_call \<Rightarrow> (nat \<Rightarrow> file_system \<Rightarrow> bool \<times> file_system) \<Rightarrow> (GateContext, gate_failure, unit) act" where
  "fs_change c f =
     bindA (record_call c) (\<lambda>_.
     bindA (on_gx_env (\<lambda>e. let (ok, fs) = f (en_tick e) (en_fs e) in
       (Inr ok, e\<lparr> en_fs := fs, en_tick := Suc (en_tick e) \<rparr>))) (\<lambda>ok.
     if ok then okA () else errA FgIo))"

definition fs_gate_read :: "'w fs_world_scheme \<Rightarrow> string \<Rightarrow> (GateContext, gate_failure, bytes) act" where
  "fs_gate_read W path =
     bindA (gate W path KindRead) (\<lambda>_.
     bindA (record_call (CallRead path)) (\<lambda>_.
     bindA (on_gx_env (read_fileA W path)) (\<lambda>f. case f of None \<Rightarrow> errA FgIo | Some b \<Rightarrow> okA b)))"

definition fs_gate_write :: "'w fs_world_scheme \<Rightarrow> string \<Rightarrow> bytes \<Rightarrow> (GateContext, gate_failure, unit) act" where
  "fs_gate_write W path contents =
     bindA (gate W path KindWrite) (\<lambda>_.
     fs_change (CallWrite path contents) (\<lambda>t fs. w_write_file W t fs path contents))"

definition fs_gate_open_read :: "'w fs_world_scheme \<Rightarrow> string \<Rightarrow> (GateContext, gate_failure, unit) act" where
  "fs_gate_open_read W path =
     bindA (gate W path KindRead) (\<lambda>_.
     fs_change (CallOpenRead path) (\<lambda>t fs. (fw_open_read W t fs path, fs)))"

definition fs_gate_open_write :: "'w fs_world_scheme \<Rightarrow> string \<Rightarrow> (GateContext, gate_failure, unit) act" where
  "fs_gate_open_write W path =
     bindA (gate W path KindWrite) (\<lambda>_.
     fs_change (CallOpenWrite path) (\<lambda>t fs. fw_open_write W t fs path))"

definition fs_gate_remove_file :: "'w fs_world_scheme \<Rightarrow> string \<Rightarrow> (GateContext, gate_failure, unit) act" where
  "fs_gate_remove_file W path =
     bindA (gate W path KindDelete) (\<lambda>_.
     fs_change (CallRemoveFile path) (\<lambda>t fs. w_remove_file W t fs path))"

definition fs_gate_remove_dir_all :: "'w fs_world_scheme \<Rightarrow> string \<Rightarrow> (GateContext, gate_failure, unit) act" where
  "fs_gate_remove_dir_all W path =
     bindA (gate W path KindDelete) (\<lambda>_.
     fs_change (CallRemoveDirAll path) (\<lambda>t fs. fw_remove_dir_all W t fs path))"

definition fs_gate_rename :: "'w fs_world_scheme \<Rightarrow> string \<Rightarrow> string \<Rightarrow> (GateContext, gate_failure, unit) act" where
  "fs_gate_rename W src dst =
     bindA (gate W src KindDelete) (\<lambda>_.
     bindA (gate W dst KindWrite) (\<lambda>_.
     fs_change (CallRename src dst) (\<lambda>t fs. fw_rename W t fs src dst)))"

section \<open>The network gate\<close>

text \<open>Name resolution gives the first address, none, or an I/O error.\<close>

datatype net_call = NetResolve string u16 | NetConnect string

datatype net_failure = NetIo | NetDenied string | NetRequireApproval string

record net_state =
  ns_tick :: nat
  ns_calls :: "net_call list"

definition net_callA :: "net_call \<Rightarrow> (nat \<Rightarrow> 'a) \<Rightarrow> (net_state, 'e, 'a) act" where
  "net_callA c f = (\<lambda>s. (Inr (f (ns_tick s)), \<lparr> ns_tick = Suc (ns_tick s), ns_calls = ns_calls s @ [c] \<rparr>))"

definition aegis_tcp_connect :: "(nat \<Rightarrow> string \<Rightarrow> u16 \<Rightarrow> string option option) \<Rightarrow> (nat \<Rightarrow> string \<Rightarrow> bool)
    \<Rightarrow> Policy \<Rightarrow> string \<Rightarrow> u16 \<Rightarrow> NetworkProto \<Rightarrow> (net_state, net_failure, string) act" where
  "aegis_tcp_connect resolve connect p host port proto =
     (case check_network_outbound p host port proto of
        Deny reason \<Rightarrow> errA (NetDenied reason)
      | RequireApproval reason \<Rightarrow> errA (NetRequireApproval reason)
      | Allow \<Rightarrow>
          bindA (net_callA (NetResolve host port) (\<lambda>t. resolve t host port)) (\<lambda>found.
          case found of
            Some (Some addr) \<Rightarrow>
              bindA (net_callA (NetConnect addr) (\<lambda>t. connect t addr)) (\<lambda>ok.
              if ok then okA addr else errA NetIo)
          | _ \<Rightarrow> errA NetIo))"


section \<open>Every call was allowed\<close>

text \<open>The calls a program makes through one context, with other programs changing the files between them.\<close>

inductive gate_run :: "'w fs_world_scheme \<Rightarrow> Policy \<Rightarrow> time \<Rightarrow> GateContext \<Rightarrow> bool"
  for W :: "'w fs_world_scheme" and p :: Policy and start :: time where
  new: "gate_run W p start (gate_context_new p w idh start e)"
| elsewhere: "gate_run W p start s \<Longrightarrow> gate_run W p start (s\<lparr> gx_env := e \<rparr>)"
| read_file: "gate_run W p start s \<Longrightarrow> fs_gate_read W path s = (r, s') \<Longrightarrow> gate_run W p start s'"
| write_file: "gate_run W p start s \<Longrightarrow> fs_gate_write W path b s = (r', s') \<Longrightarrow> gate_run W p start s'"
| open_read: "gate_run W p start s \<Longrightarrow> fs_gate_open_read W path s = (r', s') \<Longrightarrow> gate_run W p start s'"
| open_write: "gate_run W p start s \<Longrightarrow> fs_gate_open_write W path s = (r', s') \<Longrightarrow> gate_run W p start s'"
| remove_file: "gate_run W p start s \<Longrightarrow> fs_gate_remove_file W path s = (r', s') \<Longrightarrow> gate_run W p start s'"
| remove_dir_all: "gate_run W p start s \<Longrightarrow> fs_gate_remove_dir_all W path s = (r', s') \<Longrightarrow> gate_run W p start s'"
| rename: "gate_run W p start s \<Longrightarrow> fs_gate_rename W src dst s = (r', s') \<Longrightarrow> gate_run W p start s'"

definition allowed_at :: "'w world_scheme \<Rightarrow> Policy \<Rightarrow> time \<Rightarrow> string \<Rightarrow> AccessKind \<Rightarrow> bool" where
  "allowed_at W p start path kind \<longleftrightarrow> (\<exists>t. gate_decision W p start path kind (w_utc_now W t) = Some Allow)"

fun call_allowed :: "'w world_scheme \<Rightarrow> Policy \<Rightarrow> time \<Rightarrow> fs_call \<Rightarrow> bool" where
  "call_allowed W p start (CallRead path) = allowed_at W p start path KindRead"
| "call_allowed W p start (CallOpenRead path) = allowed_at W p start path KindRead"
| "call_allowed W p start (CallWrite path b) = allowed_at W p start path KindWrite"
| "call_allowed W p start (CallOpenWrite path) = allowed_at W p start path KindWrite"
| "call_allowed W p start (CallRemoveFile path) = allowed_at W p start path KindDelete"
| "call_allowed W p start (CallRemoveDirAll path) = allowed_at W p start path KindDelete"
| "call_allowed W p start (CallRename src dst) =
     (allowed_at W p start src KindDelete \<and> allowed_at W p start dst KindWrite)"

text \<open>The gate and everything before the call leave the calls and the configuration of the context alone.\<close>

definition gate_quiet :: "GateContext \<Rightarrow> GateContext \<Rightarrow> bool" where
  "gate_quiet s s' \<longleftrightarrow> gx_calls s' = gx_calls s \<and> gx_policy s' = gx_policy s \<and>
     gx_session_start s' = gx_session_start s \<and> gx_agent_identity_hash s' = gx_agent_identity_hash s"

interpretation quiet_order: step_order gate_quiet
  by unfold_locales (auto simp: gate_quiet_def)

lemma quiet_env [moves_intros]: "moves gate_quiet (on_gx_env m)"
  by (auto simp: moves_def zoomA_def gate_quiet_def split: prod.splits)

lemma quiet_writer [moves_intros]: "moves gate_quiet (on_gx_writer m)"
  by (auto simp: moves_def zoomA_def gate_quiet_def split: prod.splits)

lemma quiet_absolutize [moves_intros]: "moves gate_quiet (absolutize W path)"
  unfolding absolutize_def by (intro moves_cases quiet_order.basics moves_intros)

lemma quiet_denied [moves_intros]: "moves gate_quiet (gate_denied W path kind reason)"
  unfolding gate_denied_def by (intro moves_cases quiet_order.basics moves_intros)

lemma quiet_gate: "moves gate_quiet (gate W path kind)"
proof -
  have "moves gate_quiet (case d of Allow \<Rightarrow> okA () | RequireApproval reason \<Rightarrow> errA (FgRequireApproval reason)
      | Deny reason \<Rightarrow> gate_denied W path kind reason)" for d
    by (cases d) (simp_all add: quiet_order.basics quiet_denied)
  then show ?thesis
    unfolding gate_def by (intro quiet_order.basics moves_intros)
qed


definition gx_ticked :: "GateContext \<Rightarrow> GateContext" where
  "gx_ticked s = s\<lparr> gx_env := (gx_env s)\<lparr> en_tick := Suc (en_tick (gx_env s)) \<rparr> \<rparr>"

lemma gx_ticked_simps [simp]:
  "gx_calls (gx_ticked s) = gx_calls s" "gx_policy (gx_ticked s) = gx_policy s"
  "gx_writer (gx_ticked s) = gx_writer s" "gx_session_start (gx_ticked s) = gx_session_start s"
  "gx_agent_identity_hash (gx_ticked s) = gx_agent_identity_hash s"
  "en_fs (gx_env (gx_ticked s)) = en_fs (gx_env s)"
  by (simp_all add: gx_ticked_def)

lemma bindA_gx_tick: "bindA (on_gx_env (tickA f)) g s = g (f (en_tick (gx_env s))) (gx_ticked s)"
  by (simp add: bindA_def zoomA_def tickA_def gx_ticked_def)

lemma gate_apply:
  "gate W path kind s =
     (case gate_decision W (gx_policy s) (gx_session_start s) path kind (w_utc_now W (en_tick (gx_env s))) of
        None \<Rightarrow> (Inl FgPanic, gx_ticked s)
      | Some Allow \<Rightarrow> (Inr (), gx_ticked s)
      | Some (RequireApproval reason) \<Rightarrow> (Inl (FgRequireApproval reason), gx_ticked s)
      | Some (Deny reason) \<Rightarrow> gate_denied W path kind reason (gx_ticked s))"
  by (simp add: gate_def bindA_gx_tick act_simps of_option_def errA_def okA_def split: option.splits Decision.splits)

lemma gate_denied_errs: "gate_denied W path kind reason s \<noteq> (Inr u, s')"
  by (simp add: gate_denied_def bindA_eq_ok errA_def)

lemma gate_Inr:
  assumes "gate W path kind s = (Inr u, s')"
  shows "gate_quiet s s'" and "allowed_at W (gx_policy s) (gx_session_start s) path kind"
proof -
  show "gate_quiet s s'" by (rule movesD [OF quiet_gate assms])
  from assms show "allowed_at W (gx_policy s) (gx_session_start s) path kind"
    by (auto simp: gate_denied_errs gate_apply allowed_at_def split: option.splits Decision.splits)
qed

lemma fs_change_calls:
  assumes "fs_change c f s = (r, s')"
  shows "gx_calls s' = gx_calls s @ [c] \<and> gx_policy s' = gx_policy s \<and> gx_session_start s' = gx_session_start s"
  using assms
  by (auto simp: fs_change_def record_call_def bindA_def modA_def zoomA_def okA_def errA_def Let_def
      split: prod.splits if_splits)

text \<open>What holds of every context of a run, and how one guarded call keeps it.\<close>

definition gate_inv :: "'w world_scheme \<Rightarrow> Policy \<Rightarrow> time \<Rightarrow> GateContext \<Rightarrow> bool" where
  "gate_inv W p start s \<longleftrightarrow> gx_policy s = p \<and> gx_session_start s = start \<and>
     (\<forall>c \<in> set (gx_calls s). call_allowed W p start c)"

lemma gate_inv_quiet: "gate_inv W p start s \<Longrightarrow> gate_quiet s s' \<Longrightarrow> gate_inv W p start s'"
  by (simp add: gate_inv_def gate_quiet_def)

lemma guarded_call:
  assumes inv: "gate_inv W p start s"
    and run: "bindA (gate W path kind) (\<lambda>_. m) s = (r, s')"
    and kept: "\<And>s1. gate_inv W p start s1 \<Longrightarrow> allowed_at W p start path kind \<Longrightarrow> m s1 = (r, s') \<Longrightarrow> gate_inv W p start s'"
  shows "gate_inv W p start s'"
proof (cases "gate W path kind s")
  case (Pair g s1)
  show ?thesis
  proof (cases g)
    case (Inl e)
    with run Pair show ?thesis
      using gate_inv_quiet [OF inv movesD [OF quiet_gate Pair]] by (simp add: act_simps)
  next
    case (Inr u)
    with Pair have g: "gate W path kind s = (Inr u, s1)" by simp
    from gate_inv_quiet [OF inv gate_Inr(1) [OF g]] have "gate_inv W p start s1" .
    moreover from gate_Inr(2) [OF g] inv have "allowed_at W p start path kind" by (simp add: gate_inv_def)
    ultimately show ?thesis using kept run g by (simp add: act_simps)
  qed
qed

lemma changed_call:
  assumes "gate_inv W p start s" "call_allowed W p start c" "fs_change c f s = (r, s')"
  shows "gate_inv W p start s'"
  using assms(1,2) fs_change_calls [OF assms(3)] by (simp add: gate_inv_def)

lemma changing:
  assumes "gate_inv W p start s" and "bindA (gate W path kind) (\<lambda>_. fs_change c f) s = (r, s')"
    and "allowed_at W p start path kind \<Longrightarrow> call_allowed W p start c"
  shows "gate_inv W p start s'"
  using assms(1,2) by (rule guarded_call) (erule changed_call, erule assms(3))

lemma read_call:
  assumes "gate_inv W p start s" "call_allowed W p start (CallRead path)"
    and "bindA (record_call (CallRead path)) (\<lambda>_. bindA (on_gx_env m)
      (\<lambda>f. case f of None \<Rightarrow> errA FgIo | Some b \<Rightarrow> okA b)) s = (r, s')"
  shows "gate_inv W p start s'"
  using assms
  by (auto simp: gate_inv_def record_call_def bindA_def modA_def zoomA_def okA_def errA_def
      split: prod.splits sum.splits option.splits)

lemma gate_run_inv: "gate_run W p start s \<Longrightarrow> gate_inv W p start s"
proof (induction rule: gate_run.induct)
  case (new w idh e)
  then show ?case by (simp add: gate_inv_def gate_context_new_def)
next
  case (elsewhere s e)
  then show ?case by (simp add: gate_inv_def)
next
  case (read_file s path r s')
  from read_file.IH read_file.hyps(2) [unfolded fs_gate_read_def] show ?case
    by (rule guarded_call) (erule read_call, simp)
next
  case (write_file s path b r s')
  from write_file.IH write_file.hyps(2) [unfolded fs_gate_write_def] show ?case by (rule changing) simp
next
  case (open_read s path r s')
  from open_read.IH open_read.hyps(2) [unfolded fs_gate_open_read_def] show ?case by (rule changing) simp
next
  case (open_write s path r s')
  from open_write.IH open_write.hyps(2) [unfolded fs_gate_open_write_def] show ?case by (rule changing) simp
next
  case (remove_file s path r s')
  from remove_file.IH remove_file.hyps(2) [unfolded fs_gate_remove_file_def] show ?case by (rule changing) simp
next
  case (remove_dir_all s path r s')
  from remove_dir_all.IH remove_dir_all.hyps(2) [unfolded fs_gate_remove_dir_all_def]
  show ?case by (rule changing) simp
next
  case (rename s src dst r s')
  from rename.IH rename.hyps(2) [unfolded fs_gate_rename_def] show ?case
    by (rule guarded_call) (erule changing, assumption, simp)
qed


text \<open>The calls each kind of access guards; what a read gives is dropped so that they have one type.\<close>

fun guarded_ops :: "'w fs_world_scheme \<Rightarrow> string \<Rightarrow> bytes \<Rightarrow> string \<Rightarrow> AccessKind
    \<Rightarrow> (GateContext, gate_failure, unit) act list" where
  "guarded_ops W path b dst KindRead =
     [bindA (fs_gate_read W path) (\<lambda>_. okA ()), fs_gate_open_read W path]"
| "guarded_ops W path b dst KindWrite = [fs_gate_write W path b, fs_gate_open_write W path]"
| "guarded_ops W path b dst KindDelete =
     [fs_gate_remove_file W path, fs_gate_remove_dir_all W path, fs_gate_rename W path dst]"

lemma guarded_ops_refused:
  assumes "op \<in> set (guarded_ops W path b dst kind)" and "gate W path kind s = (Inl e, s')"
  shows "op s = (Inl e, s')"
  using assms
  by (cases kind) (auto simp: fs_gate_read_def fs_gate_open_read_def fs_gate_write_def fs_gate_open_write_def
      fs_gate_remove_file_def fs_gate_remove_dir_all_def fs_gate_rename_def act_simps)

definition gate_violation :: "GateContext \<Rightarrow> string \<Rightarrow> AccessKind \<Rightarrow> string \<Rightarrow> time \<Rightarrow> entry" where
  "gate_violation s full kind reason ts =
     writer_entry (gx_writer s) Violation (gx_agent_identity_hash s) ts
       (violation_fields \<lparr> ve_reason = reason, ve_resource_uri = Some (''file://'' @ full),
          ve_access_type = Some (access_kind_str kind), ve_timestamp = ts \<rparr>)"

lemma absolutize_apply:
  "\<exists>full s'. absolutize W path s = (Inr full, s') \<and> gx_writer s' = gx_writer s \<and> en_fs (gx_env s') = en_fs (gx_env s)
     \<and> gx_calls s' = gx_calls s \<and> gx_agent_identity_hash s' = gx_agent_identity_hash s \<and> (prefix ''/'' path \<longrightarrow> full = path)"
  by (cases "prefix ''/'' path") (simp_all add: absolutize_def okA_def bindA_gx_tick)

lemma gate_denied_records:
  assumes "disk_works (gx_writer s)"
  shows "\<exists>full ts s'. gate_denied W path kind reason s = (Inl (FgDenied reason), s') \<and> gx_calls s' = gx_calls s \<and>
     en_fs (gx_env s') = en_fs (gx_env s) \<and>
     entries (gx_writer s') = entries (gx_writer s) @ [gate_violation s full kind reason ts] \<and>
     (prefix ''/'' path \<longrightarrow> full = path)"
proof -
  obtain full s1 where full: "absolutize W path s = (Inr full :: gate_failure + string, s1)" "gx_writer s1 = gx_writer s"
    "en_fs (gx_env s1) = en_fs (gx_env s)" "gx_calls s1 = gx_calls s"
    "gx_agent_identity_hash s1 = gx_agent_identity_hash s" "prefix ''/'' path \<longrightarrow> full = path"
    using absolutize_apply by blast
  let ?ts = "w_utc_now W (en_tick (gx_env s1))"
  let ?ev = "\<lparr> ve_reason = reason, ve_resource_uri = Some (''file://'' @ full),
      ve_access_type = Some (access_kind_str kind), ve_timestamp = ?ts \<rparr>"
  obtain r w' where w': "emit_violation W (gx_agent_identity_hash s) ?ev (gx_writer s) = (Inr r, w')"
    "entries w' = entries (gx_writer s) @ [gate_violation s full kind reason ?ts]"
    using emit_violation_succeeds [OF assms, of W "gx_agent_identity_hash s" ?ev]
    by (auto simp: gate_violation_def)
  have "mapErrA FgPolicy (on_gx_writer (emit_violation W (gx_agent_identity_hash s) ?ev)) (gx_ticked s1) =
      (Inr r, (gx_ticked s1)\<lparr> gx_writer := w' \<rparr>)"
    using full(2) w'(1) by (simp add: mapErrA_def zoomA_def)
  then have "bindA (mapErrA FgPolicy (on_gx_writer (emit_violation W (gx_agent_identity_hash s) ?ev)))
      (\<lambda>_. errA (FgDenied reason)) (gx_ticked s1) = (Inl (FgDenied reason), (gx_ticked s1)\<lparr> gx_writer := w' \<rparr>)"
    by (simp add: bindA_def errA_def)
  then have "gate_denied W path kind reason s = (Inl (FgDenied reason), (gx_ticked s1)\<lparr> gx_writer := w' \<rparr>)"
    by (simp add: gate_denied_def bindA_ok [where m = "absolutize W path", OF full(1)] bindA_gx_tick bindA_getA
        full(5) errA_apply)
  with full w'(2) show ?thesis by fastforce
qed

text \<open>A context over the demo world, with a program that may write its manifest and read under \<open>/data\<close>.\<close>

definition fs_demo_world :: fs_world where
  "fs_demo_world = world.extend (demo_world demo_writer_manifest)
     (fs_world.fields (\<lambda>_ _ _. True) (\<lambda>_ fs _. (True, fs)) (\<lambda>_ fs _. (True, fs)) (\<lambda>_ fs _ _. (True, fs)))"

lemma fs_demo_world_simps [simp]:
  "w_utc_now fs_demo_world = (\<lambda>_. 0)" "w_write_file fs_demo_world = (\<lambda>_ fs p b. (True, fs(p \<mapsto> b)))"
  "w_current_dir fs_demo_world = (\<lambda>_. Some ''/'')"
  by (simp_all add: fs_demo_world_def world.defs libs.defs demo_world_def libs0_def)

definition gate_demo :: GateContext where
  "gate_demo = gate_context_new (policy_from_manifest demo_writer_manifest) (demo_writer V2) [] 0 demo_env"

lemma gate_demo_new: "gate_run W (policy_from_manifest demo_writer_manifest) 0 gate_demo"
  unfolding gate_demo_def by (rule gate_run.new)

lemma gate_demo_write:
  "\<exists>s. fs_gate_write fs_demo_world ''manifest'' ''x'' gate_demo = (Inr (), s) \<and> gx_calls s = [CallWrite ''manifest'' ''x'']"
proof -
  have "check_filesystem_write fs_demo_world (policy_from_manifest demo_writer_manifest) ''manifest'' 0 0 = Some Allow"
    by (simp add: check_filesystem_write_def classify_write_grant_def upgrade_for_approval_def paths_cover_def
      path_under_def policy_from_manifest_def demo_writer_manifest_def empty_manifest_def Let_def)
  then have "gate fs_demo_world ''manifest'' KindWrite gate_demo = (Inr (), gx_ticked gate_demo)"
    by (simp add: gate_apply gate_demo_def gate_context_new_def)
  then show ?thesis
    by (simp add: fs_gate_write_def bindA_def fs_change_def record_call_def modA_def zoomA_def okA_def
      gate_demo_def gate_context_new_def)
qed

text \<open>The filesystem gate mediates completely. After any sequence of calls through one context, with
  other programs changing the files in between, every call that reached the operating system had been
  allowed by the policy of the context at the moment of its check: a read by a read grant, a write or an
  open for writing by a write grant, a removal by a delete grant, and a rename by both a delete grant on
  its source and a write grant on its destination.\<close>

theorem fs_gate_mediates:
  assumes "gate_run W p start s"
  shows "\<forall>c \<in> set (gx_calls s). call_allowed W p start c"
  using gate_run_inv [OF assms] by (simp add: gate_inv_def)

theorem fs_gate_mediates_witness:
  "\<exists>s :: GateContext. gx_calls s = [CallWrite ''manifest'' ''x''] \<and>
     call_allowed fs_demo_world (policy_from_manifest demo_writer_manifest) 0 (CallWrite ''manifest'' ''x'')"
proof -
  obtain s where s: "fs_gate_write fs_demo_world ''manifest'' ''x'' gate_demo = (Inr (), s)"
    "gx_calls s = [CallWrite ''manifest'' ''x'']"
    using gate_demo_write by blast
  from fs_gate_mediates [OF gate_run.write_file [OF gate_demo_new s(1)]] s(2) show ?thesis
    by (intro exI [of _ s]) simp
qed

text \<open>A refused access does nothing but its record. When the policy does not allow the access, none of
  the guarded calls reaches the operating system and no file changes. A denial returns the reason and has
  appended exactly one Violation entry, naming the path; a request for approval returns the reason and
  leaves the ledger as it was.\<close>

theorem fs_gate_refuses:
  assumes disk: "disk_works (gx_writer s)"
    and d: "gate_decision W (gx_policy s) (gx_session_start s) path kind (w_utc_now W (en_tick (gx_env s))) = Some d"
    and no: "d \<noteq> Allow"
    and call: "op \<in> set (guarded_ops W path b dst kind)"
  shows "\<exists>s'. gx_calls s' = gx_calls s \<and> en_fs (gx_env s') = en_fs (gx_env s) \<and>
     (case d of
        RequireApproval reason \<Rightarrow> op s = (Inl (FgRequireApproval reason), s') \<and> gx_writer s' = gx_writer s
      | Deny reason \<Rightarrow> op s = (Inl (FgDenied reason), s') \<and>
          (\<exists>full ts. entries (gx_writer s') = entries (gx_writer s) @ [gate_violation s full kind reason ts] \<and>
            (prefix ''/'' path \<longrightarrow> full = path))
      | Allow \<Rightarrow> True)"
proof (cases d)
  case Allow
  with no show ?thesis by simp
next
  case (RequireApproval reason)
  with d have "gate W path kind s = (Inl (FgRequireApproval reason), gx_ticked s)" by (simp add: gate_apply)
  from guarded_ops_refused [OF call this] RequireApproval show ?thesis by auto
next
  case (Deny reason)
  from disk have "disk_works (gx_writer (gx_ticked s))" by simp
  from gate_denied_records [OF this, of W path kind reason] obtain full ts s' where
    s': "gate_denied W path kind reason (gx_ticked s) = (Inl (FgDenied reason), s')" "gx_calls s' = gx_calls s"
      "en_fs (gx_env s') = en_fs (gx_env s)"
      "entries (gx_writer s') = entries (gx_writer s) @ [gate_violation s full kind reason ts]"
      "prefix ''/'' path \<longrightarrow> full = path"
    by (auto simp: gate_violation_def)
  from Deny d s'(1) have "gate W path kind s = (Inl (FgDenied reason), s')" by (simp add: gate_apply)
  from guarded_ops_refused [OF call this] Deny s' show ?thesis by auto
qed

theorem fs_gate_refuses_witness:
  "\<exists>s reason full ts. fs_gate_write fs_demo_world ''/etc/passwd'' [] gate_demo = (Inl (FgDenied reason), s) \<and>
     gx_calls s = [] \<and> entries (gx_writer s) = [gate_violation gate_demo full KindWrite reason ts] \<and> full = ''/etc/passwd''"
proof -
  have d: "gate_decision fs_demo_world (gx_policy gate_demo) (gx_session_start gate_demo) ''/etc/passwd'' KindWrite
      (w_utc_now fs_demo_world (en_tick (gx_env gate_demo))) =
      Some (Deny ''filesystem write of /etc/passwd not granted by manifest'')"
    by (simp add: gate_demo_def gate_context_new_def check_filesystem_write_def classify_write_grant_def paths_cover_def
      path_under_def policy_from_manifest_def demo_writer_manifest_def empty_manifest_def Let_def)
  have w: "disk_works (gx_writer gate_demo)" "gx_calls gate_demo = []" "entries (gx_writer gate_demo) = []"
    by (simp_all add: gate_demo_def gate_context_new_def demo_disk_works) (simp add: demo_writer_def)
  have op: "fs_gate_write fs_demo_world ''/etc/passwd'' [] \<in>
      set (guarded_ops fs_demo_world ''/etc/passwd'' [] ''t'' KindWrite)" by simp
  from fs_gate_refuses [OF w(1) d _ op] w(2,3) show ?thesis by auto
qed

end
