(* ===== verification/Channels.thy ===== *)
theory Channels
  imports Demo
begin

text \<open>
  Two approval channels: the polled file, \<open>crates/approval-gate/src/file.rs\<close>, and the terminal,
  \<open>tty.rs\<close>. What the file system and the clocks answer is a function of the number of observations
  made so far; the parser of the answer (serde_json on \<open>FileResponse\<close>) is a parameter.
\<close>

datatype channel_failure = ChGate gate_error | ChPanic

section \<open>The file channel\<close>

record FileResponse =
  fr_decision :: string
  fr_approver :: "string option"
  fr_reason :: "string option"

text \<open>\<open>fv_deadline\<close> is the addition of a duration to an instant, which panics when it overflows.\<close>

record file_view =
  fv_exists :: "nat \<Rightarrow> bool"
  fv_read :: "nat \<Rightarrow> bytes option"
  fv_parse :: "bytes \<Rightarrow> string + FileResponse"
  fv_instant :: "nat \<Rightarrow> time"
  fv_utc :: "nat \<Rightarrow> time"
  fv_deadline :: "time \<Rightarrow> time \<Rightarrow> time option"
  fv_debug :: "string \<Rightarrow> string"

definition POLL_INTERVAL :: time where
  "POLL_INTERVAL = 100 * 1000000"

definition malformed_decision :: "(string \<Rightarrow> string) \<Rightarrow> string \<Rightarrow> gate_error" where
  "malformed_decision debug other =
     GateMalformed (''decision must be '' @ [CHR 0x22] @ ''granted'' @ [CHR 0x22] @ '' or '' @
       [CHR 0x22] @ ''rejected'' @ [CHR 0x22] @ '', got '' @ debug other)"

definition file_outcome :: "(string \<Rightarrow> string) \<Rightarrow> time \<Rightarrow> FileResponse \<Rightarrow> gate_error + ApprovalOutcome" where
  "file_outcome debug now resp =
     (if fr_decision resp = ''granted'' then
        Inr (OutcomeGranted (case fr_approver resp of None \<Rightarrow> ''file-channel'' | Some a \<Rightarrow> a) now)
      else if fr_decision resp = ''rejected'' then
        Inr (OutcomeRejected (case fr_reason resp of None \<Rightarrow> ''rejected'' | Some r \<Rightarrow> r) now)
      else Inl (malformed_decision debug (fr_decision resp)))"

text \<open>The answer when the file is there, read at tick \<open>n\<close>.\<close>

definition file_answer :: "file_view \<Rightarrow> nat \<Rightarrow> gate_error + ApprovalOutcome" where
  "file_answer V n =
     (case fv_read V n of
        None \<Rightarrow> Inl GateIo
      | Some bytes \<Rightarrow> (case fv_parse V bytes of
          Inl e \<Rightarrow> Inl (GateSerde e)
        | Inr resp \<Rightarrow> file_outcome (fv_debug V) (fv_utc V (Suc n)) resp))"

text \<open>The loop may never return: \<open>None\<close>. The sleeps it asks for are collected.\<close>

partial_function (option) poll_file :: "file_view \<Rightarrow> time \<Rightarrow> nat \<Rightarrow> time list
    \<Rightarrow> ((gate_error + ApprovalOutcome) \<times> time list) option" where
  "poll_file V deadline n sleeps =
     (if fv_exists V n then Some (file_answer V (Suc n), sleeps)
      else if deadline \<le> fv_instant V (Suc n) then
        Some (Inr (OutcomeTimedOut (fv_utc V (Suc (Suc n)))), sleeps)
      else poll_file V deadline (Suc (Suc (Suc n)))
        (sleeps @ [min POLL_INTERVAL (max 0 (deadline - fv_instant V (Suc (Suc n))))]))"

definition file_request_approval :: "file_view \<Rightarrow> ApprovalRequest
    \<Rightarrow> ((channel_failure + ApprovalOutcome) \<times> time list) option" where
  "file_request_approval V req =
     (case fv_deadline V (fv_instant V 0) (aq_timeout req) of
        None \<Rightarrow> Some (Inl ChPanic, [])
      | Some deadline \<Rightarrow>
          map_option (\<lambda>(r, sleeps). ((case r of Inl e \<Rightarrow> Inl (ChGate e) | Inr out \<Rightarrow> Inr out), sleeps))
            (poll_file V deadline 1 []))"

section \<open>The terminal\<close>

text \<open>What \<open>recv_timeout\<close> gives: the line (or the error) of the reader thread, nothing in time, or a
  reader that ended without sending.\<close>

datatype tty_recv = RecvLine string | RecvError | RecvTimeout | RecvDisconnected

definition rule_chars :: string where
  "rule_chars = map char_of [226, 148, 128, 226, 148, 128 :: nat]"

definition tty_prompt :: "ApprovalRequest \<Rightarrow> string list" where
  "tty_prompt req =
     [rule_chars @ '' Aegis-Node approval requested '' @ rule_chars @ [CHR 0x0A],
      ''  session: '' @ aq_session_id req @ [CHR 0x0A],
      ''  action:  '' @ aq_action_summary req @ [CHR 0x0A],
      ''  target:  '' @ aq_resource_uri req @ [CHR 0x0A],
      ''  type:    '' @ aq_access_type req @ [CHR 0x0A],
      ''  approve? [y/N] (timeout '' @ show_nat (nat (aq_timeout req div 1000000000)) @ ''s): '']"

text \<open>The pieces of the prompt that reach the terminal before the first write that fails; the flush
  is the write after the last.\<close>

fun write_prompt :: "(nat \<Rightarrow> bool) \<Rightarrow> nat \<Rightarrow> string list \<Rightarrow> bool \<times> string" where
  "write_prompt ok n [] = (ok n, [])"
| "write_prompt ok n (p # ps) =
     (if ok n then (let (done, out) = write_prompt ok (Suc n) ps in (done, p @ out)) else (False, []))"

definition tty_outcome :: "(string \<Rightarrow> string) \<Rightarrow> (string \<Rightarrow> string) \<Rightarrow> time \<Rightarrow> tty_recv
    \<Rightarrow> gate_error + ApprovalOutcome" where
  "tty_outcome lower debug now got =
     (case got of
        RecvLine line \<Rightarrow>
          (let answer = lower (trim line) in
           if answer \<in> {''y'', ''yes''} then Inr (OutcomeGranted ''tty:local-operator'' now)
           else Inr (OutcomeRejected (''operator declined ('' @ debug answer @ '')'') now))
      | RecvError \<Rightarrow> Inl GateIo
      | RecvTimeout \<Rightarrow> Inr (OutcomeTimedOut now)
      | RecvDisconnected \<Rightarrow> Inl (GateChannel ''TTY reader thread disconnected without responding''))"

definition tty_request_approval :: "(string \<Rightarrow> string) \<Rightarrow> (string \<Rightarrow> string) \<Rightarrow> (nat \<Rightarrow> bool) \<Rightarrow> time
    \<Rightarrow> tty_recv \<Rightarrow> ApprovalRequest \<Rightarrow> (gate_error + ApprovalOutcome) \<times> string" where
  "tty_request_approval lower debug ok now got req =
     (let (written, out) = write_prompt ok 0 (tty_prompt req) in
      (if written then tty_outcome lower debug now got else Inl GateIo, out))"


section \<open>The answer of the file channel\<close>

text \<open>Round \<open>i\<close> of the loop asks for the file at tick \<open>3 i + 1\<close> and for the time at tick \<open>3 i + 2\<close>.\<close>

definition file_round :: "file_view \<Rightarrow> time \<Rightarrow> nat \<Rightarrow> (gate_error + ApprovalOutcome) option" where
  "file_round V deadline i =
     (if fv_exists V (3 * i + 1) then Some (file_answer V (3 * i + 2))
      else if deadline \<le> fv_instant V (3 * i + 2) then Some (Inr (OutcomeTimedOut (fv_utc V (3 * i + 3))))
      else None)"

definition round_sleep :: "file_view \<Rightarrow> time \<Rightarrow> nat \<Rightarrow> time" where
  "round_sleep V deadline i = min POLL_INTERVAL (max 0 (deadline - fv_instant V (3 * i + 3)))"

lemma poll_file_round:
  "poll_file V deadline (3 * i + 1) sleeps =
     (case file_round V deadline i of
        Some r \<Rightarrow> Some (r, sleeps)
      | None \<Rightarrow> poll_file V deadline (3 * Suc i + 1) (sleeps @ [round_sleep V deadline i]))"
  by (subst poll_file.simps) (simp add: file_round_def round_sleep_def numeral_3_eq_3)

lemma poll_file_first:
  assumes "\<forall>j. i \<le> j \<and> j < i + k \<longrightarrow> file_round V deadline j = None"
    and "file_round V deadline (i + k) = Some r"
  shows "poll_file V deadline (3 * i + 1) sleeps = Some (r, sleeps @ map (round_sleep V deadline) [i..<i + k])"
  using assms
proof (induction k arbitrary: i sleeps)
  case 0
  then show ?case by (subst poll_file_round) simp
next
  case (Suc k)
  then have "file_round V deadline i = None" by simp
  moreover have "poll_file V deadline (3 * Suc i + 1) (sleeps @ [round_sleep V deadline i]) =
      Some (r, (sleeps @ [round_sleep V deadline i]) @ map (round_sleep V deadline) [Suc i..<Suc i + k])"
    using Suc.prems by (intro Suc.IH) auto
  ultimately show ?case
    by (subst poll_file_round) (simp add: upt_conv_Cons del: upt_Suc)
qed

lemma sleeps_bounded: "\<forall>d \<in> set (map (round_sleep V deadline) ns). 0 \<le> d \<and> d \<le> POLL_INTERVAL"
  by (auto simp: round_sleep_def POLL_INTERVAL_def)

text \<open>C15: The file channel answers. If the clock reaches the deadline of the request and stays there, the
  polling loop returns, after finitely many rounds, with the answer of the first round that decides:
  what the file said if the file was there, a timeout if the deadline had passed. No sleep is longer than
  the polling interval, and access is granted only by a file that was read and whose decision is the word
  granted.\<close>

theorem file_channel_answers:
  assumes dl: "fv_deadline V (fv_instant V 0) (aq_timeout req) = Some deadline"
    and clock: "\<forall>n \<ge> k. deadline \<le> fv_instant V n"
  shows "\<exists>i r sleeps. i \<le> k \<and> file_round V deadline i = Some r \<and> (\<forall>j < i. file_round V deadline j = None) \<and>
     file_request_approval V req = Some ((case r of Inl e \<Rightarrow> Inl (ChGate e) | Inr out \<Rightarrow> Inr out), sleeps) \<and>
     length sleeps = i \<and> (\<forall>d \<in> set sleeps. 0 \<le> d \<and> d \<le> POLL_INTERVAL) \<and>
     (\<forall>who at_time. r = Inr (OutcomeGranted who at_time) \<longrightarrow>
        (\<exists>b resp. fv_exists V (3 * i + 1) \<and> fv_read V (3 * i + 2) = Some b \<and> fv_parse V b = Inr resp \<and>
           fr_decision resp = ''granted''))"
proof -
  have "file_round V deadline k \<noteq> None" using clock by (simp add: file_round_def)
  then obtain i where i: "file_round V deadline i \<noteq> None" "\<forall>j < i. file_round V deadline j = None" "i \<le> k"
    using exists_least_iff [of "\<lambda>j. file_round V deadline j \<noteq> None"]
    by (metis linorder_not_less)
  then obtain r where r: "file_round V deadline i = Some r" by auto
  have "poll_file V deadline 1 [] = Some (r, map (round_sleep V deadline) [0..<i])"
    using poll_file_first [of 0 i V deadline r "[]"] i(2) r by simp
  then have run: "file_request_approval V req =
      Some ((case r of Inl e \<Rightarrow> Inl (ChGate e) | Inr out \<Rightarrow> Inr out), map (round_sleep V deadline) [0..<i])"
    by (simp add: file_request_approval_def dl)
  have "\<exists>b resp. fv_exists V (3 * i + 1) \<and> fv_read V (3 * i + 2) = Some b \<and> fv_parse V b = Inr resp \<and>
      fr_decision resp = ''granted''" if "r = Inr (OutcomeGranted who t)" for who t
    using r that
    by (auto simp: file_round_def file_answer_def file_outcome_def split: if_splits option.splits sum.splits)
  with run r i(2,3) sleeps_bounded [of V deadline "[0..<i]"] show ?thesis
    by (intro exI [of _ i] exI [of _ r] exI [of _ "map (round_sleep V deadline) [0..<i]"]) auto
qed

definition demo_view :: file_view where
  "demo_view = \<lparr> fv_exists = (\<lambda>n. 4 \<le> n), fv_read = (\<lambda>_. Some ''g''),
     fv_parse = (\<lambda>b. if b = ''g'' then Inr \<lparr> fr_decision = ''granted'', fr_approver = Some ''alice'', fr_reason = None \<rparr>
       else Inl ''syntax''),
     fv_instant = int, fv_utc = int, fv_deadline = (\<lambda>a b. Some (a + b)), fv_debug = (\<lambda>s. s) \<rparr>"

definition demo_request :: "time \<Rightarrow> ApprovalRequest" where
  "demo_request t = \<lparr> aq_action_summary = ''write'', aq_resource_uri = ''file:///x'', aq_access_type = ''write'',
     aq_session_id = ''s1'', aq_reasoning_step_id = None, aq_timeout = t \<rparr>"

theorem file_channel_answers_witness:
  "file_request_approval demo_view (demo_request 60) = Some (Inr (OutcomeGranted ''alice'' 6), [57])"
proof -
  have dl: "fv_deadline demo_view (fv_instant demo_view 0) (aq_timeout (demo_request 60)) = Some 60"
    and clock: "\<forall>n \<ge> 60. 60 \<le> fv_instant demo_view n"
    by (simp_all add: demo_view_def demo_request_def)
  have rounds: "file_round demo_view 60 0 = None"
    "file_round demo_view 60 1 = Some (Inr (OutcomeGranted ''alice'' 6))"
    by (simp_all add: file_round_def demo_view_def file_answer_def file_outcome_def)
  from file_channel_answers [OF dl clock] obtain i r sleeps where i: "file_round demo_view 60 i = Some r"
    "\<forall>j < i. file_round demo_view 60 j = None"
    "file_request_approval demo_view (demo_request 60) =
       Some ((case r of Inl e \<Rightarrow> Inl (ChGate e) | Inr out \<Rightarrow> Inr out), sleeps)"
    by blast
  with rounds have "i = 1" by (metis less_one linorder_neqE_nat option.distinct(1))
  with i rounds have r: "file_request_approval demo_view (demo_request 60) = Some (Inr (OutcomeGranted ''alice'' 6), sleeps)"
    by simp
  have "poll_file demo_view 60 (3 * 0 + 1) [] = Some (Inr (OutcomeGranted ''alice'' 6), [57])"
    using poll_file_first [of 0 1 demo_view 60 _ "[]"] rounds
    by (simp add: round_sleep_def demo_view_def POLL_INTERVAL_def)
  then have "file_request_approval demo_view (demo_request 60) = Some (Inr (OutcomeGranted ''alice'' 6), [57])"
    by (simp add: file_request_approval_def dl)
  with r show ?thesis by simp
qed

end
