(* ===== verification/Mtls.thy ===== *)
theory Mtls
  imports Channels
begin

text \<open>
  The mTLS approval channel, \<open>crates/approval-gate/src/mtls.rs\<close>. What the clients do is a function of
  the number of connections accepted so far; rustls, the certificate parser and serde_json are
  parameters.

  The whole accept loop runs under one \<open>tokio::time::timeout\<close>, which cuts it off at whatever await it
  has reached when the timer fires. The model keeps the number of awaits that still complete before
  that moment, so that every point of cancellation is a value of it; a client that never answers is
  the run in which the await it holds up is the one that does not complete.
\<close>

section \<open>Clients\<close>

datatype general_name = UriName string | OtherName

record ClientDecision =
  cd_decision :: string
  cd_reason :: "string option"

text \<open>\<open>ml_extensions\<close> gives the extensions of a certificate, a subject alternative name with its general
  names; \<open>None\<close> is a certificate that does not parse.\<close>

record mtls_lib =
  ml_extensions :: "bytes \<Rightarrow> general_name list option list option"
  ml_decision :: "string \<Rightarrow> ClientDecision option"
  ml_request :: "ApprovalRequest \<Rightarrow> string + string"
  ml_debug :: "string \<Rightarrow> string"

record tls_stream =
  ts_peer_certificates :: "bytes list option"
  ts_write_payload :: bool
  ts_write_newline :: bool
  ts_read_line :: "string option"

datatype tls_conn = AcceptError | HandshakeError | HandshakeDone tls_stream

record mtls_env = mtls_lib +
  mv_conn :: "nat \<Rightarrow> tls_conn"
  mv_utc :: "nat \<Rightarrow> time"

record mtls_state =
  mt_awaits :: nat
  mt_accepted :: nat
  mt_shown :: "nat list"

fun spiffe_name :: "general_name list \<Rightarrow> string option" where
  "spiffe_name [] = None"
| "spiffe_name (UriName uri # names) = (if prefix ''spiffe://'' uri then Some uri else spiffe_name names)"
| "spiffe_name (OtherName # names) = spiffe_name names"

fun spiffe_extension :: "general_name list option list \<Rightarrow> string option" where
  "spiffe_extension [] = None"
| "spiffe_extension (None # exts) = spiffe_extension exts"
| "spiffe_extension (Some names # exts) =
     (case spiffe_name names of Some uri \<Rightarrow> Some uri | None \<Rightarrow> spiffe_extension exts)"

definition extract_spiffe_uri :: "'m mtls_lib_scheme \<Rightarrow> bytes \<Rightarrow> string option" where
  "extract_spiffe_uri M der = Option.bind (ml_extensions M der) spiffe_extension"

definition approver_spiffe_id :: "'m mtls_lib_scheme \<Rightarrow> tls_stream \<Rightarrow> string option" where
  "approver_spiffe_id M tls =
     (case ts_peer_certificates tls of
        None \<Rightarrow> None
      | Some [] \<Rightarrow> None
      | Some (leaf # _) \<Rightarrow> extract_spiffe_uri M leaf)"

section \<open>The accept loop\<close>

text \<open>One await; the error is the timer of the request.\<close>

definition awaitA :: "(mtls_state, unit, unit) act" where
  "awaitA = (\<lambda>s. if mt_awaits s = 0 then (Inl (), s) else (Inr (), s\<lparr> mt_awaits := mt_awaits s - 1 \<rparr>))"

definition mtls_outcome :: "(string \<Rightarrow> string) \<Rightarrow> string \<Rightarrow> time \<Rightarrow> ClientDecision \<Rightarrow> gate_error + ApprovalOutcome" where
  "mtls_outcome debug approver now d =
     (if cd_decision d = ''granted'' then Inr (OutcomeGranted approver now)
      else if cd_decision d = ''rejected'' then
        Inr (OutcomeRejected (case cd_reason d of None \<Rightarrow> ''rejected'' | Some r \<Rightarrow> r) now)
      else Inl (malformed_decision debug (cd_decision d)))"

text \<open>What the line of an authorised client decides; \<open>None\<close> goes on to the next connection.\<close>

definition line_verdict :: "'m mtls_lib_scheme \<Rightarrow> string \<Rightarrow> time \<Rightarrow> string option
    \<Rightarrow> (gate_error + ApprovalOutcome) option" where
  "line_verdict M approver now line =
     (case line of
        None \<Rightarrow> None
      | Some l \<Rightarrow> (let trimmed = trim l in
          if trimmed = [] then None
          else (case ml_decision M trimmed of
                  None \<Rightarrow> None
                | Some d \<Rightarrow> Some (mtls_outcome (ml_debug M) approver now d))))"

definition serve_approver :: "'m mtls_env_scheme \<Rightarrow> nat \<Rightarrow> tls_stream \<Rightarrow> string
    \<Rightarrow> (mtls_state, unit, (gate_error + ApprovalOutcome) option) act" where
  "serve_approver E i tls approver =
     bindA (modA (\<lambda>s. s\<lparr> mt_shown := mt_shown s @ [i] \<rparr>)) (\<lambda>_.
     bindA awaitA (\<lambda>_.
     if \<not> ts_write_payload tls then okA None
     else bindA awaitA (\<lambda>_.
     if \<not> ts_write_newline tls then okA None
     else bindA awaitA (\<lambda>_.
     okA (line_verdict E approver (mv_utc E i) (ts_read_line tls))))))"

definition serve_connection :: "'m mtls_env_scheme \<Rightarrow> string list
    \<Rightarrow> (mtls_state, unit, (gate_error + ApprovalOutcome) option) act" where
  "serve_connection E allowlist =
     bindA awaitA (\<lambda>_.
     bindA (getA mt_accepted) (\<lambda>i.
     bindA (modA (\<lambda>s. s\<lparr> mt_accepted := Suc i \<rparr>)) (\<lambda>_.
     case mv_conn E i of
       AcceptError \<Rightarrow> okA (Some (Inl GateIo))
     | HandshakeError \<Rightarrow> bindA awaitA (\<lambda>_. okA None)
     | HandshakeDone tls \<Rightarrow> bindA awaitA (\<lambda>_.
         case approver_spiffe_id E tls of
           None \<Rightarrow> bindA awaitA (\<lambda>_. okA None)
         | Some approver \<Rightarrow>
             if approver \<notin> set allowlist then bindA awaitA (\<lambda>_. okA None)
             else serve_approver E i tls approver))))"

text \<open>Each round completes an await, so that the loop ends.\<close>

definition spends :: "mtls_state \<Rightarrow> mtls_state \<Rightarrow> bool" where
  "spends s s' \<longleftrightarrow> mt_awaits s' \<le> mt_awaits s"

interpretation spend_order: step_order spends
  by unfold_locales (auto simp: spends_def)

lemma spends_await: "moves spends awaitA"
  by (auto simp: moves_def awaitA_def spends_def)

lemma spends_mod: "(\<And>s. mt_awaits (f s) = mt_awaits s) \<Longrightarrow> moves spends (modA f)"
  by (auto simp: moves_def modA_def spends_def)

lemmas spend_intros = moves_cases spend_order.basics spends_await spends_mod

lemma spends_approver: "moves spends (serve_approver E i tls approver)"
  unfolding serve_approver_def by (intro spend_intros) simp

lemma spends_tail: "moves spends (case c of
       AcceptError \<Rightarrow> okA (Some (Inl GateIo))
     | HandshakeError \<Rightarrow> bindA awaitA (\<lambda>_. okA None)
     | HandshakeDone tls \<Rightarrow> bindA awaitA (\<lambda>_.
         case approver_spiffe_id E tls of
           None \<Rightarrow> bindA awaitA (\<lambda>_. okA None)
         | Some approver \<Rightarrow>
             if approver \<notin> set allowlist then bindA awaitA (\<lambda>_. okA None)
             else serve_approver E i tls approver))"
  by (cases c) (simp_all, (intro spend_intros spends_approver)+)

lemma serve_connection_spends:
  assumes "serve_connection E allowlist s = (Inr r, s')"
  shows "mt_awaits s' < mt_awaits s"
proof -
  obtain s1 where s1: "awaitA s = (Inr (), s1)" "mt_awaits s1 < mt_awaits s"
    using assms by (cases "mt_awaits s = 0") (auto simp: serve_connection_def awaitA_def bindA_def)
  from assms have "moves spends (bindA (getA mt_accepted) (\<lambda>i.
     bindA (modA (\<lambda>s. s\<lparr> mt_accepted := Suc i \<rparr>)) (\<lambda>_. case mv_conn E i of
       AcceptError \<Rightarrow> okA (Some (Inl GateIo))
     | HandshakeError \<Rightarrow> bindA awaitA (\<lambda>_. okA None)
     | HandshakeDone tls \<Rightarrow> bindA awaitA (\<lambda>_.
         case approver_spiffe_id E tls of
           None \<Rightarrow> bindA awaitA (\<lambda>_. okA None)
         | Some approver \<Rightarrow>
             if approver \<notin> set allowlist then bindA awaitA (\<lambda>_. okA None)
             else serve_approver E i tls approver))))" (is "moves spends ?m")
    by (intro spend_order.bind spend_order.get spends_mod spends_tail) simp
  moreover have "?m s1 = (Inr r, s')"
    using assms s1(1) by (simp add: serve_connection_def bindA_ok [where m = awaitA])
  ultimately have "spends s1 s'" by (rule movesD)
  with s1(2) show ?thesis by (simp add: spends_def)
qed

function accept_loop :: "'m mtls_env_scheme \<Rightarrow> string list \<Rightarrow> mtls_state
    \<Rightarrow> (unit + (gate_error + ApprovalOutcome)) \<times> mtls_state" where
  "accept_loop E allowlist s =
     (case serve_connection E allowlist s of
        (Inl e, s') \<Rightarrow> (Inl e, s')
      | (Inr (Some r), s') \<Rightarrow> (Inr r, s')
      | (Inr None, s') \<Rightarrow> accept_loop E allowlist s')"
  by pat_completeness auto
termination
  by (relation "measure (\<lambda>(E, allowlist, s). mt_awaits s)") (auto dest: serve_connection_spends [OF sym])

declare accept_loop.simps [simp del]

definition mtls_request_approval :: "'m mtls_env_scheme \<Rightarrow> string list \<Rightarrow> nat \<Rightarrow> nat \<Rightarrow> ApprovalRequest
    \<Rightarrow> (gate_error + ApprovalOutcome) \<times> nat list" where
  "mtls_request_approval E allowlist accepted awaits req =
     (case ml_request E req of
        Inl e \<Rightarrow> (Inl (GateSerde e), [])
      | Inr payload \<Rightarrow>
          (case accept_loop E allowlist \<lparr> mt_awaits = awaits, mt_accepted = accepted, mt_shown = [] \<rparr> of
             (Inr r, s) \<Rightarrow> (r, mt_shown s)
           | (Inl _, s) \<Rightarrow> (Inr (OutcomeTimedOut (mv_utc E (mt_accepted s))), mt_shown s)))"


section \<open>What the channel promises\<close>

text \<open>The specification: each connection has a verdict of its own, or none, and takes a number of awaits.
  A client is authorised when its certificate names an approver of the allowlist.\<close>

definition authorised_as :: "'m mtls_env_scheme \<Rightarrow> string list \<Rightarrow> nat \<Rightarrow> string option" where
  "authorised_as E allowlist i =
     (case mv_conn E i of
        HandshakeDone tls \<Rightarrow>
          (case approver_spiffe_id E tls of
             Some a \<Rightarrow> if a \<in> set allowlist then Some a else None
           | None \<Rightarrow> None)
      | _ \<Rightarrow> None)"

definition conn_verdict :: "'m mtls_env_scheme \<Rightarrow> string list \<Rightarrow> nat \<Rightarrow> (gate_error + ApprovalOutcome) option" where
  "conn_verdict E allowlist i =
     (case mv_conn E i of
        AcceptError \<Rightarrow> Some (Inl GateIo)
      | HandshakeError \<Rightarrow> None
      | HandshakeDone tls \<Rightarrow>
          (case authorised_as E allowlist i of
             Some a \<Rightarrow> if ts_write_payload tls \<and> ts_write_newline tls
                       then line_verdict E a (mv_utc E i) (ts_read_line tls) else None
           | None \<Rightarrow> None))"

definition conn_cost :: "'m mtls_env_scheme \<Rightarrow> string list \<Rightarrow> nat \<Rightarrow> nat" where
  "conn_cost E allowlist i =
     (case mv_conn E i of
        AcceptError \<Rightarrow> 1
      | HandshakeError \<Rightarrow> 2
      | HandshakeDone tls \<Rightarrow>
          if authorised_as E allowlist i = None \<or> \<not> ts_write_payload tls then 3
          else if \<not> ts_write_newline tls then 4 else 5)"

lemma conn_cost_pos: "0 < conn_cost E allowlist i"
  by (auto simp: conn_cost_def split: tls_conn.splits)

lemma conn_cost_le: "conn_cost E allowlist i \<le> 5"
  by (auto simp: conn_cost_def split: tls_conn.splits)

lemma bindA_await:
  "bindA awaitA f s = (if mt_awaits s = 0 then (Inl (), s) else f () (s\<lparr> mt_awaits := mt_awaits s - 1 \<rparr>))"
  by (simp add: bindA_def awaitA_def)

lemma serve_connection_meets:
  assumes "i = mt_accepted s"
  shows "if conn_cost E al i \<le> mt_awaits s
    then \<exists>sh. serve_connection E al s = (Inr (conn_verdict E al i),
        \<lparr> mt_awaits = mt_awaits s - conn_cost E al i, mt_accepted = Suc i, mt_shown = mt_shown s @ sh \<rparr>) \<and>
        set sh \<subseteq> {i. authorised_as E al i \<noteq> None}
    else \<exists>s' sh. serve_connection E al s = (Inl (), s') \<and> mt_shown s' = mt_shown s @ sh \<and>
        set sh \<subseteq> {i. authorised_as E al i \<noteq> None}"
proof (cases "mv_conn E i")
  case AcceptError
  with assms show ?thesis
    by (cases s) (simp add: serve_connection_def bindA_await bindA_getA bindA_modA conn_cost_def conn_verdict_def okA_def)
next
  case HandshakeError
  with assms show ?thesis
    by (cases s) (simp add: serve_connection_def bindA_await bindA_getA bindA_modA conn_cost_def conn_verdict_def okA_def
        numeral_2_eq_2)
next
  case (HandshakeDone tls)
  show ?thesis
  proof (cases "authorised_as E al i")
    case None
    with HandshakeDone assms show ?thesis
      by (cases s) (auto simp: serve_connection_def bindA_await bindA_getA bindA_modA conn_cost_def conn_verdict_def
          okA_def authorised_as_def split: option.splits if_splits)
  next
    case (Some a)
    with HandshakeDone have a: "approver_spiffe_id E tls = Some a" "a \<in> set al"
      by (auto simp: authorised_as_def split: option.splits if_splits)
    from HandshakeDone Some a assms show ?thesis
      by (cases s) (auto simp: serve_connection_def serve_approver_def bindA_await bindA_getA bindA_modA conn_cost_def
          conn_verdict_def okA_def)
  qed
qed

text \<open>The first verdict among the connections from \<open>n\<close> on that fit into the awaits that complete.\<close>

definition total_cost :: "'m mtls_env_scheme \<Rightarrow> string list \<Rightarrow> nat \<Rightarrow> nat \<Rightarrow> nat" where
  "total_cost E al n k = (\<Sum>j \<le> k. conn_cost E al (n + j))"

definition first_verdict :: "'m mtls_env_scheme \<Rightarrow> string list \<Rightarrow> nat \<Rightarrow> nat \<Rightarrow> nat
    \<Rightarrow> (gate_error + ApprovalOutcome) \<Rightarrow> bool" where
  "first_verdict E al n awaits k r \<longleftrightarrow> conn_verdict E al (n + k) = Some r \<and>
     (\<forall>j < k. conn_verdict E al (n + j) = None) \<and> total_cost E al n k \<le> awaits"

lemma total_cost_Suc: "total_cost E al n (Suc k) = conn_cost E al n + total_cost E al (Suc n) k"
proof -
  have "{..Suc k} = insert 0 (Suc ` {..k})" by (auto simp: image_iff) (metis Suc_le_mono not0_implies_Suc atMost_iff)
  then show ?thesis
    by (simp add: total_cost_def sum.insert sum.reindex)
qed

lemma first_verdict_Suc:
  assumes "conn_verdict E al n = None" and "conn_cost E al n \<le> awaits"
  shows "first_verdict E al n awaits (Suc k) r \<longleftrightarrow>
     first_verdict E al (Suc n) (awaits - conn_cost E al n) k r"
proof -
  have "(\<forall>j < Suc k. conn_verdict E al (n + j) = None) \<longleftrightarrow> (\<forall>j < k. conn_verdict E al (Suc n + j) = None)"
    using assms(1) by (auto simp: less_Suc_eq_0_disj)
  with assms(2) show ?thesis
    by (auto simp: first_verdict_def total_cost_Suc)
qed

lemma first_verdict_not_0: "conn_verdict E al n = None \<Longrightarrow> \<not> first_verdict E al n awaits 0 r"
  by (simp add: first_verdict_def)

lemma accept_loop_meets:
  "case fst (accept_loop E al s) of
      Inr r \<Rightarrow> \<exists>k. first_verdict E al (mt_accepted s) (mt_awaits s) k r
    | Inl _ \<Rightarrow> \<nexists>k r. first_verdict E al (mt_accepted s) (mt_awaits s) k r"
proof (induction E al s rule: accept_loop.induct)
  case (1 E al s)
  let ?i = "mt_accepted s"
  show ?case
  proof (cases "conn_cost E al ?i \<le> mt_awaits s")
    case False
    then have "\<not> first_verdict E al ?i (mt_awaits s) k r" for k r
      by (auto simp: first_verdict_def total_cost_def sum.atMost_shift)
    with False serve_connection_meets [OF refl, of E al s] show ?thesis
      by (subst accept_loop.simps) auto
  next
    case True
    then obtain sh where serve: "serve_connection E al s = (Inr (conn_verdict E al ?i),
        \<lparr> mt_awaits = mt_awaits s - conn_cost E al ?i, mt_accepted = Suc ?i, mt_shown = mt_shown s @ sh \<rparr>)"
      using serve_connection_meets [OF refl, of E al s] by auto
    show ?thesis
    proof (cases "conn_verdict E al ?i")
      case (Some r)
      with True have "first_verdict E al ?i (mt_awaits s) 0 r"
        by (simp add: first_verdict_def total_cost_def)
      with serve Some show ?thesis by (subst accept_loop.simps) auto
    next
      case None
      note rest = 1 [OF serve [unfolded None, symmetric] refl refl]
      have "(\<exists>k. first_verdict E al ?i (mt_awaits s) k r) \<longleftrightarrow>
          (\<exists>k. first_verdict E al (Suc ?i) (mt_awaits s - conn_cost E al ?i) k r)" for r
        using first_verdict_Suc [OF None True] first_verdict_not_0 [OF None] by (metis not0_implies_Suc)
      with rest serve None show ?thesis by (subst accept_loop.simps) (auto split: sum.splits)
    qed
  qed
qed


lemma first_verdict_unique:
  "first_verdict E al n awaits k r \<Longrightarrow> first_verdict E al n awaits k' r' \<Longrightarrow> k = k' \<and> r = r'"
  by (metis first_verdict_def linorder_neqE_nat option.distinct(1) option.inject)

lemma accept_loop_shows:
  "\<exists>sh. mt_shown (snd (accept_loop E al s)) = mt_shown s @ sh \<and> set sh \<subseteq> {i. authorised_as E al i \<noteq> None}"
proof (induction E al s rule: accept_loop.induct)
  case (1 E al s)
  let ?i = "mt_accepted s"
  show ?case
  proof (cases "conn_cost E al ?i \<le> mt_awaits s \<and> conn_verdict E al ?i = None")
    case True
    then obtain s' sh where serve: "serve_connection E al s = (Inr None, s')" "mt_shown s' = mt_shown s @ sh"
      "set sh \<subseteq> {i. authorised_as E al i \<noteq> None}"
      using serve_connection_meets [OF refl, of E al s] by fastforce
    from 1 [OF serve(1) [symmetric] refl refl] serve show ?thesis
      by (subst accept_loop.simps) auto
  next
    case False
    obtain r s' where serve: "serve_connection E al s = (r, s')" by fastforce
    with False serve_connection_meets [OF refl, of E al s] have "r \<noteq> Inr None"
      and "\<exists>sh. mt_shown s' = mt_shown s @ sh \<and> set sh \<subseteq> {i. authorised_as E al i \<noteq> None}"
      by (auto split: if_splits)
    moreover from this(1) have "snd (accept_loop E al s) = s'"
      using serve by (subst accept_loop.simps) (auto split: sum.splits option.splits)
    ultimately show ?thesis by simp
  qed
qed

lemma granted_by_client:
  assumes "conn_verdict E al i = Some (Inr (OutcomeGranted who t))"
  shows "authorised_as E al i = Some who" and "who \<in> set al"
    and "\<exists>tls l d. mv_conn E i = HandshakeDone tls \<and> approver_spiffe_id E tls = Some who \<and>
      ts_read_line tls = Some l \<and> ml_decision E (trim l) = Some d \<and> cd_decision d = ''granted''"
  using assms
  by (auto simp: conn_verdict_def authorised_as_def line_verdict_def mtls_outcome_def malformed_decision_def Let_def
      split: tls_conn.splits option.splits if_splits)

text \<open>C16: The mTLS channel refines its specification. Whatever clients connect and wherever the timer cuts
  the loop off, the outcome is the verdict of the first client that has one within the awaits that
  complete, and a timeout if there is none; so a decision of an authorised client that gets through is
  never lost or overridden. Access is granted only in the name of an approver of the allowlist, who was
  authenticated by the certificate of the connection and whose line says granted, and the request is
  shown to no client that is not authorised.\<close>

theorem mtls_refines_first_verdict:
  assumes "ml_request E req = Inr payload"
    and run: "mtls_request_approval E al n awaits req = (r, shown)"
  shows "(\<forall>k v. first_verdict E al n awaits k v \<longrightarrow> r = v) \<and>
     ((\<nexists>k v. first_verdict E al n awaits k v) \<longrightarrow> (\<exists>t. r = Inr (OutcomeTimedOut t))) \<and>
     (\<forall>who t. r = Inr (OutcomeGranted who t) \<longrightarrow> who \<in> set al \<and>
        (\<exists>k tls l d. first_verdict E al n awaits k r \<and> mv_conn E (n + k) = HandshakeDone tls \<and>
           approver_spiffe_id E tls = Some who \<and> ts_read_line tls = Some l \<and> ml_decision E (trim l) = Some d \<and>
           cd_decision d = ''granted'')) \<and>
     (\<forall>i \<in> set shown. authorised_as E al i \<noteq> None)"
proof -
  let ?s = "\<lparr> mt_awaits = awaits, mt_accepted = n, mt_shown = [] \<rparr>"
  obtain res s' where loop: "accept_loop E al ?s = (res, s')" by (cases "accept_loop E al ?s")
  have sh: "shown = mt_shown s'" and r: "r = (case res of Inr r \<Rightarrow> r | Inl _ \<Rightarrow> Inr (OutcomeTimedOut (mv_utc E (mt_accepted s'))))"
    using run assms(1) loop by (auto simp: mtls_request_approval_def split: sum.splits)
  have shown: "\<forall>i \<in> set shown. authorised_as E al i \<noteq> None"
    using accept_loop_shows [of E al ?s] loop sh by auto
  show ?thesis
  proof (cases res)
    case (Inl u)
    with accept_loop_meets [of E al ?s] loop have "\<nexists>k v. first_verdict E al n awaits k v" by simp
    with r Inl shown show ?thesis by simp
  next
    case (Inr v)
    with accept_loop_meets [of E al ?s] loop obtain k where k: "first_verdict E al n awaits k v" by auto
    have "r = v" using r Inr by simp
    moreover have "\<forall>k v'. first_verdict E al n awaits k v' \<longrightarrow> v = v'"
      using first_verdict_unique [OF k] by blast
    moreover have "conn_verdict E al (n + k) = Some v" using k by (simp add: first_verdict_def)
    moreover have "who \<in> set al \<and> (\<exists>k tls l d. first_verdict E al n awaits k v \<and>
        mv_conn E (n + k) = HandshakeDone tls \<and> approver_spiffe_id E tls = Some who \<and> ts_read_line tls = Some l \<and>
        ml_decision E (trim l) = Some d \<and> cd_decision d = ''granted'')" if "v = Inr (OutcomeGranted who t)" for who t
      using granted_by_client [of E al "n + k" who t] calculation(3) k that by blast
    ultimately show ?thesis using k shown by blast
  qed
qed

text \<open>A stranger connects first, the approver second, and the timer fires later.\<close>

definition demo_mtls :: mtls_env where
  "demo_mtls = \<lparr> ml_extensions = (\<lambda>der. Some [None, Some [OtherName, UriName der]]),
     ml_decision = (\<lambda>l. if l = ''g'' then Some \<lparr> cd_decision = ''granted'', cd_reason = None \<rparr> else None),
     ml_request = (\<lambda>_. Inr ''{}''), ml_debug = (\<lambda>s. s),
     mv_conn = (\<lambda>i. HandshakeDone \<lparr> ts_peer_certificates = Some [if i = 0 then ''spiffe://td/mallory'' else ''spiffe://td/alice''],
       ts_write_payload = True, ts_write_newline = True, ts_read_line = Some ''g'' \<rparr>),
     mv_utc = int \<rparr>"

theorem mtls_refines_first_verdict_witness:
  "fst (mtls_request_approval demo_mtls [''spiffe://td/alice''] 0 8 (demo_request 60)) =
     Inr (OutcomeGranted ''spiffe://td/alice'' 1)"
proof -
  obtain r shown where run: "mtls_request_approval demo_mtls [''spiffe://td/alice''] 0 8 (demo_request 60) = (r, shown)"
    by (cases "mtls_request_approval demo_mtls [''spiffe://td/alice''] 0 8 (demo_request 60)")
  have t: "trim ''g'' = ''g''" by (rule trim_printable) simp
  have auth: "authorised_as demo_mtls [''spiffe://td/alice''] 0 = None"
    "authorised_as demo_mtls [''spiffe://td/alice''] 1 = Some ''spiffe://td/alice''"
    by (simp_all add: authorised_as_def demo_mtls_def approver_spiffe_id_def extract_spiffe_uri_def)
  then have verdicts: "conn_verdict demo_mtls [''spiffe://td/alice''] 0 = None"
    "conn_verdict demo_mtls [''spiffe://td/alice''] 1 = Some (Inr (OutcomeGranted ''spiffe://td/alice'' 1))"
    using t by (simp_all add: conn_verdict_def demo_mtls_def line_verdict_def mtls_outcome_def)
  have costs: "conn_cost demo_mtls [''spiffe://td/alice''] 0 = 3" "conn_cost demo_mtls [''spiffe://td/alice''] 1 = 5"
    using auth by (simp_all add: conn_cost_def demo_mtls_def)
  have "first_verdict demo_mtls [''spiffe://td/alice''] 0 8 1 (Inr (OutcomeGranted ''spiffe://td/alice'' 1))"
    using verdicts costs by (simp add: first_verdict_def total_cost_def)
  moreover have "ml_request demo_mtls (demo_request 60) = Inr ''{}''" by (simp add: demo_mtls_def)
  ultimately have "r = Inr (OutcomeGranted ''spiffe://td/alice'' 1)"
    using mtls_refines_first_verdict [OF _ run, THEN conjunct1] by blast
  with run show ?thesis by simp
qed

end
