(* ===== verification/Web.thy ===== *)
theory Web
  imports Channels
begin

text \<open>
  The web approval channel, \<open>crates/approval-gate/src/web.rs\<close>. The thread that asks for an approval and
  the thread that serves HTTP share a map under a mutex. Both only touch it while they hold the mutex,
  so that a run is a sequence of steps: a request for approval up to its first wait, a wake-up of the
  waiting thread, the handling of one HTTP request. Clocks, ids and what the HTTP library and
  serde_json answer are parameters.
\<close>

section \<open>Data\<close>

datatype ip_addr = IpV4 "32 word" | IpV6 "128 word"

record socket_addr =
  sa_ip :: ip_addr
  sa_port :: u16

datatype listen_addr = ListenIp socket_addr | ListenUnix

datatype RecordedDecision = RecGranted string time | RecRejected string time

record PendingRequest =
  pr_request :: ApprovalRequest
  pr_decision :: "RecordedDecision option"

record ListEntry =
  le_request_id :: string
  le_action_summary :: string
  le_resource_uri :: string
  le_access_type :: string
  le_session_id :: string
  le_reasoning_step_id :: "string option"

record GrantBody = gb_approver :: "string option"

record RejectBody = rb_reason :: "string option"

datatype http_method = MethodGet | MethodPost | MethodOther

record http_request =
  hr_method :: http_method
  hr_url :: string
  hr_headers :: "(string \<times> string) list"
  hr_body :: string

record http_response =
  hp_code :: nat
  hp_body :: string
  hp_json :: bool

record web_lib =
  wl_parse_addr :: "string \<Rightarrow> string + socket_addr"
  wl_show_addr :: "socket_addr \<Rightarrow> string"
  wl_debug :: "string \<Rightarrow> string"
  wl_hex :: "bytes \<Rightarrow> string"
  wl_field_equiv :: "string \<Rightarrow> string \<Rightarrow> bool"
  wl_json_header :: bool
  wl_grant_body :: "string \<Rightarrow> GrantBody option"
  wl_reject_body :: "string \<Rightarrow> RejectBody option"
  wl_list :: "ListEntry list \<Rightarrow> string option"
  wl_iter :: "(string, PendingRequest) fmap \<Rightarrow> (string \<times> PendingRequest) list"

record web_env = web_lib +
  we_now_v7 :: "nat \<Rightarrow> string"
  we_instant :: "nat \<Rightarrow> time"
  we_utc :: "nat \<Rightarrow> time"
  we_deadline :: "time \<Rightarrow> time \<Rightarrow> time option"

text \<open>\<open>wb_waiter\<close> is the request being waited for, with its deadline; \<open>wb_answers\<close> and \<open>wb_responses\<close>
  collect what the two threads have answered.\<close>

record web_state =
  wb_token :: string
  wb_pending :: "(string, PendingRequest) fmap"
  wb_poisoned :: bool
  wb_waiter :: "(string \<times> time) option"
  wb_tick :: nat
  wb_answers :: "(string \<times> (channel_failure + ApprovalOutcome)) list"
  wb_responses :: "http_response list"

section \<open>Opening the channel\<close>

fun is_loopback :: "ip_addr \<Rightarrow> bool" where
  "is_loopback (IpV4 a) = (drop_bit 24 a = 127)"
| "is_loopback (IpV6 a) = (a = 1)"

definition generate_token :: "'w web_lib_scheme \<Rightarrow> bytes \<Rightarrow> string" where
  "generate_token L random = wl_hex L random"

text \<open>\<open>bind\<close> is what the HTTP server answers, \<open>spawned\<close> whether its thread starts, \<open>random\<close> the 32 bytes
  of the generator.\<close>

definition web_new :: "'w web_lib_scheme \<Rightarrow> (socket_addr \<Rightarrow> string + listen_addr) \<Rightarrow> bool \<Rightarrow> bytes \<Rightarrow> string
    \<Rightarrow> gate_error + socket_addr \<times> web_state" where
  "web_new L bind spawned random bind_addr =
     (case wl_parse_addr L bind_addr of
        Inl e \<Rightarrow> Inl (GateChannel (''parse bind_addr '' @ wl_debug L bind_addr @ '': '' @ e))
      | Inr parsed \<Rightarrow>
          if \<not> is_loopback (sa_ip parsed) then
            Inl (GateChannel (''web channel refuses non-loopback bind '' @ wl_show_addr L parsed @
              ''; use 127.0.0.1 or ::1''))
          else (case bind parsed of
            Inl e \<Rightarrow> Inl (GateChannel (''bind '' @ wl_show_addr L parsed @ '': '' @ e))
          | Inr ListenUnix \<Rightarrow> Inl (GateChannel ''non-IP listener'')
          | Inr (ListenIp bound) \<Rightarrow>
              if \<not> spawned then Inl GateIo
              else Inr (bound, \<lparr> wb_token = generate_token L random, wb_pending = fmempty, wb_poisoned = False,
                wb_waiter = None, wb_tick = 0, wb_answers = [], wb_responses = [] \<rparr>)))"

section \<open>The HTTP thread\<close>

definition respond :: "http_response \<Rightarrow> web_state \<Rightarrow> web_state" where
  "respond resp s = s\<lparr> wb_responses := wb_responses s @ [resp] \<rparr>"

definition plain :: "nat \<Rightarrow> string \<Rightarrow> http_response" where
  "plain code msg = \<lparr> hp_code = code, hp_body = msg, hp_json = False \<rparr>"

definition authorized :: "'w web_lib_scheme \<Rightarrow> http_request \<Rightarrow> string \<Rightarrow> bool" where
  "authorized L r token \<longleftrightarrow>
     (\<exists>(field, v) \<in> set (hr_headers r). wl_field_equiv L field ''Authorization'' \<and> v = ''Bearer '' @ token)"

definition list_entry :: "string \<Rightarrow> PendingRequest \<Rightarrow> ListEntry" where
  "list_entry i p =
     \<lparr> le_request_id = i, le_action_summary = aq_action_summary (pr_request p),
       le_resource_uri = aq_resource_uri (pr_request p), le_access_type = aq_access_type (pr_request p),
       le_session_id = aq_session_id (pr_request p), le_reasoning_step_id = aq_reasoning_step_id (pr_request p) \<rparr>"

definition respond_list :: "'w web_lib_scheme \<Rightarrow> web_state \<Rightarrow> web_state" where
  "respond_list L s =
     (if wb_poisoned s then respond (plain 500 ''state poisoned'') s
      else case wl_list L (map (\<lambda>(i, p). list_entry i p)
                  (filter (\<lambda>(i, p). pr_decision p = None) (wl_iter L (wb_pending s)))) of
             None \<Rightarrow> respond (plain 500 ''serialize'') s
           | Some body \<Rightarrow> respond \<lparr> hp_code = 200, hp_body = body, hp_json = wl_json_header L \<rparr> s)"

text \<open>A body that is not JSON of the expected shape counts as an empty one.\<close>

definition grant_approver :: "'w web_lib_scheme \<Rightarrow> string \<Rightarrow> string" where
  "grant_approver L body =
     (case wl_grant_body L body of
        None \<Rightarrow> ''web-channel''
      | Some b \<Rightarrow> (case gb_approver b of None \<Rightarrow> ''web-channel'' | Some a \<Rightarrow> a))"

definition reject_reason :: "'w web_lib_scheme \<Rightarrow> string \<Rightarrow> string" where
  "reject_reason L body =
     (case wl_reject_body L body of
        None \<Rightarrow> ''rejected''
      | Some b \<Rightarrow> (case rb_reason b of None \<Rightarrow> ''rejected'' | Some r \<Rightarrow> r))"

definition recorded_decision :: "'w web_env_scheme \<Rightarrow> bool \<Rightarrow> string \<Rightarrow> time \<Rightarrow> RecordedDecision" where
  "recorded_decision E grant body now =
     (if grant then RecGranted (grant_approver E body) now else RecRejected (reject_reason E body) now)"

definition resolve :: "'w web_env_scheme \<Rightarrow> string \<Rightarrow> bool \<Rightarrow> http_request \<Rightarrow> web_state \<Rightarrow> web_state" where
  "resolve E i grant r s =
     (let decision = recorded_decision E grant (hr_body r) (we_utc E (wb_tick s));
          s1 = s\<lparr> wb_tick := Suc (wb_tick s) \<rparr> in
      if wb_poisoned s then s1
      else case fmlookup (wb_pending s) i of
             None \<Rightarrow> s1
           | Some p \<Rightarrow> s1\<lparr> wb_pending := fmupd i (p\<lparr> pr_decision := Some decision \<rparr>) (wb_pending s) \<rparr>)"

definition handle_post :: "'w web_env_scheme \<Rightarrow> http_request \<Rightarrow> string \<Rightarrow> web_state \<Rightarrow> web_state" where
  "handle_post E r rest s =
     (case strip_suffix ''/grant'' rest of
        Some i \<Rightarrow> respond (plain 200 ''ok'') (resolve E i True r s)
      | None \<Rightarrow> (case strip_suffix ''/reject'' rest of
          Some i \<Rightarrow> respond (plain 200 ''ok'') (resolve E i False r s)
        | None \<Rightarrow> respond (plain 404 ''not found'') s))"

definition handle :: "'w web_env_scheme \<Rightarrow> http_request \<Rightarrow> web_state \<Rightarrow> web_state" where
  "handle E r s =
     (if \<not> authorized E r (wb_token s) then respond (plain 401 ''missing or invalid bearer token'') s
      else case hr_method r of
          MethodGet \<Rightarrow> if hr_url r = ''/approvals'' then respond_list E s else respond (plain 404 ''not found'') s
        | MethodPost \<Rightarrow> (case strip_prefix ''/approvals/'' (hr_url r) of
            Some rest \<Rightarrow> handle_post E r rest s
          | None \<Rightarrow> respond (plain 404 ''not found'') s)
        | MethodOther \<Rightarrow> respond (plain 404 ''not found'') s)"

section \<open>The waiting thread\<close>

definition answer :: "string \<Rightarrow> channel_failure + ApprovalOutcome \<Rightarrow> web_state \<Rightarrow> web_state" where
  "answer i r s = s\<lparr> wb_waiter := None, wb_answers := wb_answers s @ [(i, r)] \<rparr>"

fun recorded_outcome :: "RecordedDecision \<Rightarrow> ApprovalOutcome" where
  "recorded_outcome (RecGranted approver t) = OutcomeGranted approver t"
| "recorded_outcome (RecRejected reason t) = OutcomeRejected reason t"

text \<open>One turn of the loop, up to the next wait.\<close>

definition web_check :: "'w web_env_scheme \<Rightarrow> string \<Rightarrow> time \<Rightarrow> web_state \<Rightarrow> web_state" where
  "web_check E i deadline s =
     (case Option.bind (fmlookup (wb_pending s) i) pr_decision of
        Some d \<Rightarrow> answer i (Inr (recorded_outcome d)) (s\<lparr> wb_pending := fmdrop i (wb_pending s) \<rparr>)
      | None \<Rightarrow>
          if deadline \<le> we_instant E (wb_tick s) then
            answer i (Inr (OutcomeTimedOut (we_utc E (Suc (wb_tick s)))))
              (s\<lparr> wb_pending := fmdrop i (wb_pending s), wb_tick := Suc (Suc (wb_tick s)) \<rparr>)
          else s\<lparr> wb_waiter := Some (i, deadline), wb_tick := Suc (wb_tick s) \<rparr>)"

definition poisoned_error :: channel_failure where
  "poisoned_error = ChGate (GateChannel ''pending mutex poisoned'')"

definition web_ask :: "'w web_env_scheme \<Rightarrow> ApprovalRequest \<Rightarrow> web_state \<Rightarrow> web_state" where
  "web_ask E req s =
     (let i = we_now_v7 E (wb_tick s);
          s1 = s\<lparr> wb_tick := Suc (Suc (wb_tick s)) \<rparr> in
      case we_deadline E (we_instant E (Suc (wb_tick s))) (aq_timeout req) of
        None \<Rightarrow> answer i (Inl ChPanic) s1
      | Some deadline \<Rightarrow>
          if wb_poisoned s then answer i (Inl poisoned_error) s1
          else web_check E i deadline
            (s1\<lparr> wb_pending := fmupd i \<lparr> pr_request = req, pr_decision = None \<rparr> (wb_pending s) \<rparr>))"

text \<open>The waiting thread wakes up when it is notified, when its time is over, or for no reason.\<close>

definition web_wake :: "'w web_env_scheme \<Rightarrow> string \<Rightarrow> time \<Rightarrow> web_state \<Rightarrow> web_state" where
  "web_wake E i deadline s =
     (if wb_poisoned s then answer i (Inl poisoned_error) s else web_check E i deadline s)"

section \<open>Runs\<close>

datatype web_event = Ask ApprovalRequest | Wake | Http http_request

inductive web_run :: "'w web_env_scheme \<Rightarrow> web_event list \<Rightarrow> web_state \<Rightarrow> bool"
  for E :: "'w web_env_scheme" where
  opened: "web_new E b sp rnd addr = Inr (bound, s) \<Longrightarrow> web_run E [] s"
| asked: "web_run E evs s \<Longrightarrow> wb_waiter s = None \<Longrightarrow> web_run E (evs @ [Ask req]) (web_ask E req s)"
| woken: "web_run E evs s \<Longrightarrow> wb_waiter s = Some (i, deadline) \<Longrightarrow> web_run E (evs @ [Wake]) (web_wake E i deadline s)"
| served: "web_run E evs s \<Longrightarrow> web_run E (evs @ [Http r]) (handle E r s)"

inductive_cases web_run_snocE: "web_run E (evs @ [ev]) s"


section \<open>Who decides\<close>

text \<open>The request \<open>r\<close> decides \<open>i\<close> with \<open>d\<close>.\<close>

definition resolves :: "'w web_lib_scheme \<Rightarrow> string \<Rightarrow> http_request \<Rightarrow> string \<Rightarrow> RecordedDecision \<Rightarrow> bool" where
  "resolves L token r i d \<longleftrightarrow> authorized L r token \<and> hr_method r = MethodPost \<and>
     (hr_url r = ''/approvals/'' @ i @ ''/grant'' \<and> (\<exists>t. d = RecGranted (grant_approver L (hr_body r)) t) \<or>
      hr_url r = ''/approvals/'' @ i @ ''/reject'' \<and> (\<exists>t. d = RecRejected (reject_reason L (hr_body r)) t))"

definition same_thread :: "web_state \<Rightarrow> web_state \<Rightarrow> bool" where
  "same_thread s s' \<longleftrightarrow> wb_token s' = wb_token s \<and> wb_waiter s' = wb_waiter s \<and> wb_answers s' = wb_answers s \<and>
     fmdom (wb_pending s') = fmdom (wb_pending s)"

lemma respond_simps [simp]:
  "wb_token (respond x s) = wb_token s" "wb_waiter (respond x s) = wb_waiter s"
  "wb_answers (respond x s) = wb_answers s" "wb_pending (respond x s) = wb_pending s"
  by (simp_all add: respond_def)

lemma respond_list_simps [simp]:
  "wb_token (respond_list L s) = wb_token s" "wb_waiter (respond_list L s) = wb_waiter s"
  "wb_answers (respond_list L s) = wb_answers s" "wb_pending (respond_list L s) = wb_pending s"
  by (simp_all add: respond_list_def split: option.splits)

lemma resolve_same: "same_thread s (resolve E i g r s)"
  by (auto simp: same_thread_def resolve_def Let_def fmdom_notD split: option.splits dest: fmdomI)

lemma resolve_lookup:
  "fmlookup (wb_pending (resolve E i g r s)) j = Some p \<Longrightarrow>
     fmlookup (wb_pending s) j = Some p \<or>
     j = i \<and> (\<exists>t. pr_decision p = Some (recorded_decision E g (hr_body r) t))"
  by (auto simp: resolve_def Let_def split: option.splits if_splits)

lemma handle_same: "same_thread s (handle E r s)"
proof -
  have "same_thread s (handle_post E r rest s)" for rest
    using resolve_same [of s E _ _ r] by (auto simp: handle_post_def same_thread_def split: option.splits)
  then show ?thesis
    by (auto simp: handle_def same_thread_def split: http_method.splits option.splits)
qed

lemma handle_lookup:
  assumes "fmlookup (wb_pending (handle E r s)) i = Some p"
  shows "fmlookup (wb_pending s) i = Some p \<or>
     (\<exists>d. pr_decision p = Some d \<and> resolves E (wb_token s) r i d)"
proof (cases "authorized E r (wb_token s) \<and> hr_method r = MethodPost")
  case False
  with assms show ?thesis by (auto simp: handle_def split: http_method.splits if_splits)
next
  case True
  show ?thesis
  proof (cases "strip_prefix ''/approvals/'' (hr_url r)")
    case None
    with True assms show ?thesis by (simp add: handle_def)
  next
    case (Some rest)
    then have url: "hr_url r = ''/approvals/'' @ rest" by (simp add: strip_prefix_Some)
    from True Some assms have post: "fmlookup (wb_pending (handle_post E r rest s)) i = Some p"
      by (simp add: handle_def)
    consider (grant) j where "strip_suffix ''/grant'' rest = Some j"
      | (reject) j where "strip_suffix ''/grant'' rest = None" "strip_suffix ''/reject'' rest = Some j"
      | (other) "strip_suffix ''/grant'' rest = None" "strip_suffix ''/reject'' rest = None"
      by (cases "strip_suffix ''/grant'' rest"; cases "strip_suffix ''/reject'' rest") auto
    then show ?thesis
    proof cases
      case grant
      with post have "fmlookup (wb_pending (resolve E j True r s)) i = Some p" by (simp add: handle_post_def)
      with grant url True show ?thesis
        by (elim resolve_lookup [elim_format])
          (auto simp: strip_suffix_Some resolves_def recorded_decision_def simp del: append.simps)
    next
      case reject
      with post have "fmlookup (wb_pending (resolve E j False r s)) i = Some p" by (simp add: handle_post_def)
      with reject(2) url True show ?thesis
        by (elim resolve_lookup [elim_format])
          (auto simp: strip_suffix_Some resolves_def recorded_decision_def simp del: append.simps)
    next
      case other
      with post show ?thesis by (simp add: handle_post_def)
    qed
  qed
qed

text \<open>An unauthorised request reads and changes nothing.\<close>

lemma handle_unauthorized:
  "\<not> authorized E r (wb_token s) \<Longrightarrow> handle E r s = respond (plain 401 ''missing or invalid bearer token'') s"
  by (simp add: handle_def)


section \<open>The invariant of the channel\<close>

definition no_ask :: "web_event list \<Rightarrow> bool" where
  "no_ask evs \<longleftrightarrow> (\<forall>req. Ask req \<notin> set evs)"

lemma no_ask_simps [simp]:
  "no_ask []" "no_ask (evs @ [Wake]) = no_ask evs" "no_ask (evs @ [Http r]) = no_ask evs"
  by (auto simp: no_ask_def)

definition waiting_for :: "'w web_env_scheme \<Rightarrow> web_event list \<Rightarrow> web_state \<Rightarrow> string \<Rightarrow> bool" where
  "waiting_for E evs s i \<longleftrightarrow>
     (\<exists>a req b. evs = a @ Ask req # b \<and> no_ask b \<and>
       (\<forall>p d. fmlookup (wb_pending s) i = Some p \<longrightarrow> pr_decision p = Some d \<longrightarrow>
          (\<exists>r. Http r \<in> set b \<and> resolves E (wb_token s) r i d)))"

definition decided_by :: "'w web_env_scheme \<Rightarrow> web_event list \<Rightarrow> string \<Rightarrow> string \<Rightarrow> RecordedDecision \<Rightarrow> bool" where
  "decided_by E evs token i d \<longleftrightarrow>
     (\<exists>a req b c r. evs = a @ Ask req # b @ Wake # c \<and> no_ask b \<and> Http r \<in> set b \<and> resolves E token r i d)"

lemma decided_by_snoc: "decided_by E evs token i d \<Longrightarrow> decided_by E (evs @ [ev]) token i d"
  unfolding decided_by_def by (elim exE conjE) (auto)

definition web_inv :: "'w web_env_scheme \<Rightarrow> web_event list \<Rightarrow> web_state \<Rightarrow> bool" where
  "web_inv E evs s \<longleftrightarrow>
     (case wb_waiter s of
        None \<Rightarrow> wb_pending s = fmempty
      | Some (i, deadline) \<Rightarrow> fmdom (wb_pending s) |\<subseteq>| {|i|} \<and> waiting_for E evs s i) \<and>
     (\<forall>i d. (i, Inr (recorded_outcome d)) \<in> set (wb_answers s) \<longrightarrow> decided_by E evs (wb_token s) i d)"

lemma fmdrop_only: "fmdom m |\<subseteq>| {|i|} \<Longrightarrow> fmdrop i m = fmempty"
  by (rule fmap_ext) (auto dest!: fmdomI)

lemma fmdom_none: "fmdom m = {||} \<Longrightarrow> m = fmempty"
  by (rule fmap_ext) (auto dest!: fmdomI)

lemma recorded_not_timeout [simp]: "recorded_outcome d \<noteq> OutcomeTimedOut t"
  by (cases d) auto

lemma recorded_inj [simp]: "recorded_outcome d = recorded_outcome d' \<longleftrightarrow> d = d'"
  by (cases d; cases d') auto

lemma web_check_cases:
  assumes "fmdom (wb_pending s) |\<subseteq>| {|i|}"
  obtains (decided) p d where "fmlookup (wb_pending s) i = Some p" "pr_decision p = Some d"
      "web_check E i dl s = answer i (Inr (recorded_outcome d)) (s\<lparr> wb_pending := fmempty \<rparr>)"
    | (timed_out) t where "web_check E i dl s = answer i (Inr (OutcomeTimedOut t))
        (s\<lparr> wb_pending := fmempty, wb_tick := Suc (Suc (wb_tick s)) \<rparr>)"
    | (waits) "web_check E i dl s = s\<lparr> wb_waiter := Some (i, dl), wb_tick := Suc (wb_tick s) \<rparr>"
proof (cases "Option.bind (fmlookup (wb_pending s) i) pr_decision")
  case (Some d)
  then obtain p where "fmlookup (wb_pending s) i = Some p" "pr_decision p = Some d"
    by (auto simp: bind_eq_Some_conv)
  with Some fmdrop_only [OF assms] show ?thesis by (intro decided) (simp_all add: web_check_def)
next
  case None
  with fmdrop_only [OF assms] show ?thesis
    by (cases "dl \<le> we_instant E (wb_tick s)") (auto simp: web_check_def intro: timed_out waits)
qed

lemma web_inv_served:
  assumes "web_inv E evs s"
  shows "web_inv E (evs @ [Http r]) (handle E r s)"
proof -
  note same = handle_same [of s E r, unfolded same_thread_def]
  have "waiting_for E (evs @ [Http r]) (handle E r s) i" if w: "waiting_for E evs s i" for i
  proof -
    obtain a req b where b: "evs = a @ Ask req # b" "no_ask b"
      "\<forall>p d. fmlookup (wb_pending s) i = Some p \<longrightarrow> pr_decision p = Some d \<longrightarrow>
         (\<exists>r. Http r \<in> set b \<and> resolves E (wb_token s) r i d)"
      using w by (auto simp: waiting_for_def)
    have "\<exists>r'. Http r' \<in> set (b @ [Http r]) \<and> resolves E (wb_token s) r' i d"
      if "fmlookup (wb_pending (handle E r s)) i = Some p" "pr_decision p = Some d" for p d
      using handle_lookup [OF that(1)] that(2) b(3) by auto
    with b(1,2) same show ?thesis
      unfolding waiting_for_def by - (rule exI [of _ a], rule exI [of _ req], rule exI [of _ "b @ [Http r]"], auto)
  qed
  moreover have "wb_pending (handle E r s) = fmempty" if "wb_pending s = fmempty"
    using same that by (intro fmdom_none) simp
  ultimately show ?thesis
    using assms same by (auto simp: web_inv_def decided_by_snoc split: option.splits)
qed

lemma web_inv_asked:
  assumes inv: "web_inv E evs s" and free: "wb_waiter s = None"
  shows "web_inv E (evs @ [Ask req]) (web_ask E req s)"
proof -
  let ?i = "we_now_v7 E (wb_tick s)"
  from inv free have pending: "wb_pending s = fmempty"
    and answers: "\<And>i d. (i, Inr (recorded_outcome d)) \<in> set (wb_answers s) \<Longrightarrow> decided_by E evs (wb_token s) i d"
    by (auto simp: web_inv_def)
  have fails: "web_inv E (evs @ [Ask req]) (answer ?i (Inl e) (s\<lparr> wb_tick := t \<rparr>))" for e t
    using pending answers by (auto simp: web_inv_def answer_def decided_by_snoc)
  show ?thesis
  proof (cases "we_deadline E (we_instant E (Suc (wb_tick s))) (aq_timeout req)")
    case None
    with fails show ?thesis by (simp add: web_ask_def)
  next
    case (Some dl)
    let ?s = "s\<lparr> wb_tick := Suc (Suc (wb_tick s)),
      wb_pending := fmupd ?i \<lparr> pr_request = req, pr_decision = None \<rparr> (wb_pending s) \<rparr>"
    have "fmdom (wb_pending ?s) |\<subseteq>| {|?i|}" using pending by simp
    then have "web_inv E (evs @ [Ask req]) (web_check E ?i dl ?s)"
    proof (cases rule: web_check_cases [where E = E and dl = dl])
      case (decided p d)
      then show ?thesis by auto
    next
      case (timed_out t)
      with answers show ?thesis by (auto simp: web_inv_def answer_def decided_by_snoc)
    next
      case waits
      have "waiting_for E (evs @ [Ask req]) (web_check E ?i dl ?s) ?i"
        unfolding waits waiting_for_def using pending
        by - (rule exI [of _ evs], rule exI [of _ req], rule exI [of _ "[]"], auto)
      with waits pending answers show ?thesis by (auto simp: web_inv_def decided_by_snoc)
    qed
    with Some fails show ?thesis by (simp add: web_ask_def Let_def)
  qed
qed

lemma web_inv_woken:
  assumes inv: "web_inv E evs s" and waiter: "wb_waiter s = Some (i, dl)" and "\<not> wb_poisoned s"
  shows "web_inv E (evs @ [Wake]) (web_wake E i dl s)"
proof -
  from inv waiter have dom: "fmdom (wb_pending s) |\<subseteq>| {|i|}" and w: "waiting_for E evs s i"
    and answers: "\<And>i d. (i, Inr (recorded_outcome d)) \<in> set (wb_answers s) \<Longrightarrow> decided_by E evs (wb_token s) i d"
    by (auto simp: web_inv_def)
  obtain a req b where b: "evs = a @ Ask req # b" "no_ask b"
    "\<forall>p d. fmlookup (wb_pending s) i = Some p \<longrightarrow> pr_decision p = Some d \<longrightarrow>
       (\<exists>r. Http r \<in> set b \<and> resolves E (wb_token s) r i d)"
    using w by (auto simp: waiting_for_def)
  have "web_inv E (evs @ [Wake]) (web_check E i dl s)"
    using dom
  proof (cases rule: web_check_cases [where E = E and dl = dl])
    case (decided p d)
    with b obtain r where "Http r \<in> set b" "resolves E (wb_token s) r i d" by blast
    with b(1,2) have "decided_by E (evs @ [Wake]) (wb_token s) i d"
      unfolding decided_by_def by - (rule exI [of _ a], rule exI [of _ req], rule exI [of _ b], rule exI [of _ "[]"], rule exI [of _ r], simp)
    with decided(3) answers show ?thesis by (auto simp: web_inv_def answer_def decided_by_snoc)
  next
    case (timed_out t)
    with answers show ?thesis by (auto simp: web_inv_def answer_def decided_by_snoc)
  next
    case waits
    have "waiting_for E (evs @ [Wake]) (web_check E i dl s) i"
      unfolding waits waiting_for_def using b
      by - (rule exI [of _ a], rule exI [of _ req], rule exI [of _ "b @ [Wake]"], auto)
    with waits dom answers show ?thesis by (auto simp: web_inv_def decided_by_snoc)
  qed
  with assms(3) show ?thesis by (simp add: web_wake_def)
qed

lemma not_poisoned: "web_run E evs s \<Longrightarrow> \<not> wb_poisoned s"
proof (induction rule: web_run.induct)
  case (opened b sp rnd addr bound s)
  then show ?case by (auto simp: web_new_def split: sum.splits if_splits listen_addr.splits)
qed (auto simp: web_ask_def web_wake_def web_check_def answer_def handle_def handle_post_def resolve_def respond_def
    respond_list_def Let_def split: option.splits http_method.splits)

lemma web_run_inv: "web_run E evs s \<Longrightarrow> web_inv E evs s"
proof (induction rule: web_run.induct)
  case (opened b sp rnd addr bound s)
  then show ?case by (auto simp: web_new_def web_inv_def split: sum.splits if_splits listen_addr.splits)
next
  case (asked evs s req)
  then show ?case by (intro web_inv_asked)
next
  case (woken evs s i deadline)
  then show ?case by (intro web_inv_woken not_poisoned)
next
  case (served evs s r)
  then show ?case by (intro web_inv_served)
qed


section \<open>Properties\<close>

text \<open>C17: The web channel grants only on the word of a holder of its token. In every run of the channel,
  however the requests of clients are interleaved with the waiting thread, an approval was granted only
  because, after the request was made and before the waiting thread looked, a POST to the grant URL of
  that very request arrived with the bearer token of the channel; the approver is the one its body named.
  When no request is being waited for the table of pending requests is empty.\<close>

theorem web_grant_needs_token:
  assumes "web_run E evs s"
  shows "(\<forall>i who t. (i, Inr (OutcomeGranted who t)) \<in> set (wb_answers s) \<longrightarrow>
       (\<exists>a req b c r. evs = a @ Ask req # b @ Wake # c \<and> no_ask b \<and> Http r \<in> set b \<and>
          authorized E r (wb_token s) \<and> hr_method r = MethodPost \<and> hr_url r = ''/approvals/'' @ i @ ''/grant'' \<and>
          who = grant_approver E (hr_body r))) \<and>
     (wb_waiter s = None \<longrightarrow> wb_pending s = fmempty)"
proof -
  note inv = web_run_inv [OF assms, unfolded web_inv_def]
  have "decided_by E evs (wb_token s) i (RecGranted who t)"
    if "(i, Inr (OutcomeGranted who t)) \<in> set (wb_answers s)" for i who t
    using inv that by (metis recorded_outcome.simps(1))
  with inv show ?thesis
    unfolding decided_by_def resolves_def by (auto split: option.splits)
qed

definition demo_web :: web_env where
  "demo_web = \<lparr> wl_parse_addr = (\<lambda>_. Inr \<lparr> sa_ip = IpV4 0x7F000001, sa_port = 0 \<rparr>), wl_show_addr = (\<lambda>_. ''addr''),
     wl_debug = (\<lambda>s. s), wl_hex = (\<lambda>_. ''secret''), wl_field_equiv = (=), wl_json_header = True,
     wl_grant_body = (\<lambda>_. Some \<lparr> gb_approver = Some ''alice'' \<rparr>), wl_reject_body = (\<lambda>_. None),
     wl_list = (\<lambda>_. Some ''[]''), wl_iter = (\<lambda>_. []),
     we_now_v7 = (\<lambda>_. ''r1''), we_instant = (\<lambda>_. 0), we_utc = (\<lambda>_. 7), we_deadline = (\<lambda>a b. Some (a + b)) \<rparr>"

definition demo_post :: http_request where
  "demo_post = \<lparr> hr_method = MethodPost, hr_url = ''/approvals/r1/grant'',
     hr_headers = [(''Authorization'', ''Bearer secret'')], hr_body = [] \<rparr>"

definition demo_opened :: web_state where
  "demo_opened = \<lparr> wb_token = ''secret'', wb_pending = fmempty, wb_poisoned = False, wb_waiter = None,
     wb_tick = 0, wb_answers = [], wb_responses = [] \<rparr>"

lemma demo_web_steps:
  "web_new demo_web (\<lambda>a. Inr (ListenIp a)) True [] ''127.0.0.1:0'' =
     Inr (\<lparr> sa_ip = IpV4 0x7F000001, sa_port = 0 \<rparr>, demo_opened)"
  "wb_waiter (web_ask demo_web (demo_request 60) demo_opened) = Some (''r1'', 60)"
  "wb_waiter (handle demo_web demo_post (web_ask demo_web (demo_request 60) demo_opened)) = Some (''r1'', 60)"
  "wb_answers (web_wake demo_web ''r1'' 60 (handle demo_web demo_post (web_ask demo_web (demo_request 60) demo_opened))) =
     [(''r1'', Inr (OutcomeGranted ''alice'' 7))]"
proof -
  show "web_new demo_web (\<lambda>a. Inr (ListenIp a)) True [] ''127.0.0.1:0'' =
     Inr (\<lparr> sa_ip = IpV4 0x7F000001, sa_port = 0 \<rparr>, demo_opened)"
    by (simp add: web_new_def demo_web_def demo_opened_def generate_token_def)
  let ?p = "\<lparr> pr_request = demo_request 60, pr_decision = None \<rparr>"
  have a: "web_ask demo_web (demo_request 60) demo_opened = demo_opened\<lparr> wb_tick := Suc (Suc (Suc 0)),
      wb_pending := fmupd ''r1'' ?p fmempty, wb_waiter := Some (''r1'', 60) \<rparr>"
    by (simp add: web_ask_def web_check_def demo_web_def demo_opened_def demo_request_def Let_def)
  have "strip_prefix ''/approvals/'' ''/approvals/r1/grant'' = Some ''r1/grant''"
    "strip_suffix ''/grant'' ''r1/grant'' = Some ''r1''"
    by (simp_all add: strip_prefix_Some strip_suffix_Some)
  then have h: "handle demo_web demo_post (web_ask demo_web (demo_request 60) demo_opened) =
      respond (plain 200 ''ok'') (demo_opened\<lparr> wb_tick := Suc (Suc (Suc (Suc 0))),
        wb_pending := fmupd ''r1'' (?p\<lparr> pr_decision := Some (RecGranted ''alice'' 7) \<rparr>) fmempty,
        wb_waiter := Some (''r1'', 60) \<rparr>)"
    unfolding a
    by (simp add: handle_def handle_post_def resolve_def recorded_decision_def grant_approver_def authorized_def
        demo_post_def demo_web_def demo_opened_def Let_def)
  show "wb_waiter (web_ask demo_web (demo_request 60) demo_opened) = Some (''r1'', 60)"
    unfolding a by simp
  show "wb_waiter (handle demo_web demo_post (web_ask demo_web (demo_request 60) demo_opened)) = Some (''r1'', 60)"
    unfolding h by simp
  show "wb_answers (web_wake demo_web ''r1'' 60 (handle demo_web demo_post (web_ask demo_web (demo_request 60) demo_opened))) =
      [(''r1'', Inr (OutcomeGranted ''alice'' 7))]"
    unfolding h by (simp add: web_wake_def web_check_def answer_def respond_def demo_opened_def)
qed

theorem web_grant_needs_token_witness:
  "\<exists>s. web_run demo_web [Ask (demo_request 60), Http demo_post, Wake] s \<and>
     (''r1'', Inr (OutcomeGranted ''alice'' 7)) \<in> set (wb_answers s) \<and> hr_url demo_post = ''/approvals/'' @ ''r1'' @ ''/grant''"
proof -
  let ?s = "web_wake demo_web ''r1'' 60 (handle demo_web demo_post (web_ask demo_web (demo_request 60) demo_opened))"
  have "web_run demo_web ((([] @ [Ask (demo_request 60)]) @ [Http demo_post]) @ [Wake]) ?s"
    by (rule web_run.woken, rule web_run.served, rule web_run.asked, rule web_run.opened, rule demo_web_steps(1))
      (simp_all add: demo_web_steps, simp add: demo_opened_def)
  then have run: "web_run demo_web [Ask (demo_request 60), Http demo_post, Wake] ?s" by simp
  moreover have "(''r1'', Inr (OutcomeGranted ''alice'' 7)) \<in> set (wb_answers ?s)" by (simp add: demo_web_steps(4))
  moreover from this obtain a req b c r where
    "[Ask (demo_request 60), Http demo_post, Wake] = a @ Ask req # b @ Wake # c" "Http r \<in> set b"
    "hr_url r = ''/approvals/'' @ ''r1'' @ ''/grant''"
    using web_grant_needs_token [OF run, THEN conjunct1, rule_format] by blast
  then have "hr_url demo_post = ''/approvals/'' @ ''r1'' @ ''/grant''"
    by (auto simp: Cons_eq_append_conv)
  ultimately show ?thesis by blast
qed

end
