(* ===== verification/McpStdio.thy ===== *)
theory McpStdio
  imports Libs
begin

text \<open>
  The MCP client over standard input and output, \<open>crates/mcp-client/src/lib.rs\<close>. The child processes
  are parameters: what the \<open>k\<close>-th read from a child gives and whether the \<open>k\<close>-th frame written to it
  goes through. A read that gives nothing never returns; the loop that waits for a reply need not end
  either, when the child sends other frames for ever. Both are the failure \<open>McpBlocked\<close>.
\<close>

section \<open>Frames\<close>

record JsonRpcRequest =
  jq_id :: u64
  jq_method :: string
  jq_params :: json

record JsonRpcError =
  je_code :: "64 word"
  je_message :: string
  je_data :: "json option"

record JsonRpcResponse =
  jr_jsonrpc :: string
  jr_id :: "u64 option"
  jr_result :: "json option"
  jr_error :: "JsonRpcError option"

text \<open>What the client writes: a request of version 2.0, or the notification that ends the handshake.\<close>

datatype rpc_out = OutRequest JsonRpcRequest | OutValue json

datatype mcp_error =
    McpServerError "64 word" string
  | McpUnsupportedTransport string
  | McpSpawn string string
  | McpProtocol string

datatype mcp_stop = McpStops mcp_error | McpBlocked

text \<open>\<open>read_line\<close> gives an error, or the bytes up to and including the next newline, none at the end.\<close>

datatype read_result = ReadError string | ReadLine string

record mcp_world =
  mc_spawn :: "nat \<Rightarrow> string \<Rightarrow> string list \<Rightarrow> string option"
  mc_encode :: "rpc_out \<Rightarrow> string + bytes"
  mc_write :: "nat \<Rightarrow> nat \<Rightarrow> string option"
  mc_flush :: "nat \<Rightarrow> nat \<Rightarrow> string option"
  mc_read :: "nat \<Rightarrow> nat \<Rightarrow> read_result option"
  mc_response :: "string \<Rightarrow> string + JsonRpcResponse"
  mc_debug :: "string \<Rightarrow> string"
  mc_version :: string

text \<open>A child is the number of the attempt to start it; its reads are counted in its connection. The
  frames handed to the transport, the attempts to start a process and the processes killed are
  collected.\<close>

record StdioConnection =
  sc_child :: nat
  sc_reads :: nat
  sc_next_id :: u64

record StdioMcpClient =
  mp_connections :: "(string, StdioConnection) fmap"
  mp_spawned :: "(string \<times> string list) list"
  mp_frames :: "(nat \<times> rpc_out) list"
  mp_killed :: "nat list"

definition mcp_client_new :: StdioMcpClient where
  "mcp_client_new = \<lparr> mp_connections = fmempty, mp_spawned = [], mp_frames = [], mp_killed = [] \<rparr>"

section \<open>The address of a server\<close>

definition at_whitespace :: "string \<Rightarrow> bool" where
  "at_whitespace s \<longleftrightarrow> list_ex (\<lambda>w. prefix w s) whitespace"

fun next_token :: "string \<Rightarrow> string \<times> string" where
  "next_token [] = ([], [])"
| "next_token (c # cs) =
     (if at_whitespace (c # cs) then ([], c # cs)
      else (let (tok, rest) = next_token cs in (c # tok, rest)))"

lemma next_token_split: "next_token s = (tok, rest) \<Longrightarrow> s = tok @ rest"
  by (induction s arbitrary: tok rest rule: next_token.induct) (auto split: if_splits prod.splits)

lemma at_whitespace_printable:
  assumes "32 < byte_val c" and "byte_val c < 128"
  shows "\<not> at_whitespace (c # cs)"
proof
  assume "at_whitespace (c # cs)"
  then obtain w where w: "w \<in> set whitespace" "prefix w (c # cs)" by (auto simp: at_whitespace_def list_ex_iff)
  with whitespace_nonempty have "c \<in> set w" by (cases w) auto
  with hd_whitespace [OF w(1)] assms show False by fastforce
qed

lemma at_whitespace_Nil: "\<not> at_whitespace []"
  using whitespace_nonempty by (auto simp: at_whitespace_def list_ex_iff)

lemma trim_start_id: "\<not> at_whitespace s \<Longrightarrow> trim_start s = s"
  by (subst trim_start.simps) (auto simp: at_whitespace_def list_ex_iff split: option.splits dest!: find_Some_iff [THEN iffD1])

lemma trim_start_no_whitespace: "\<not> at_whitespace (trim_start s)"
proof (induction s rule: trim_start.induct)
  case (1 s)
  show ?case
  proof (cases "find (\<lambda>w. prefix w s) whitespace")
    case None
    then have "\<not> at_whitespace s" by (auto simp: at_whitespace_def find_None_iff list_ex_iff)
    with None show ?thesis by (subst trim_start.simps) simp
  next
    case (Some w)
    with 1 [OF Some] show ?thesis by (subst trim_start.simps) simp
  qed
qed

lemma trim_start_length: "length (trim_start s) \<le> length s"
proof (induction s rule: trim_start.induct)
  case (1 s)
  then show ?case
    by (subst trim_start.simps) (fastforce split: option.splits)
qed

function split_whitespace :: "string \<Rightarrow> string list" where
  "split_whitespace s =
     (let t = trim_start s in
      if t = [] then [] else (let (tok, rest) = next_token t in tok # split_whitespace rest))"
  by pat_completeness auto
termination
proof (relation "measure length", goal_cases)
  case (2 s t x tok rest)
  then have t: "t = trim_start s" "t \<noteq> []" "next_token t = (tok, rest)" by auto
  then have "tok \<noteq> []" using trim_start_no_whitespace [of s]
    by (cases "trim_start s") (auto split: if_splits prod.splits)
  with next_token_split [OF t(3)] trim_start_length [of s] t(1) show ?case by (cases tok) auto
qed simp

declare split_whitespace.simps [simp del]

definition parse_stdio_uri :: "string \<Rightarrow> mcp_error + string \<times> string list" where
  "parse_stdio_uri server_uri =
     (case strip_prefix ''stdio:'' server_uri of
        None \<Rightarrow> Inl (McpUnsupportedTransport server_uri)
      | Some rest \<Rightarrow>
          (case split_whitespace rest of
             [] \<Rightarrow> Inl (McpUnsupportedTransport server_uri)
           | path # args \<Rightarrow> Inr (path, args)))"

section \<open>Frames on the wire\<close>

text \<open>The frame is handed to the transport as the \<open>k\<close>-th of its child.\<close>

definition frames_to :: "nat \<Rightarrow> (nat \<times> rpc_out) list \<Rightarrow> rpc_out list" where
  "frames_to c fs = map snd (filter (\<lambda>f. fst f = c) fs)"

definition write_value :: "mcp_world \<Rightarrow> nat \<Rightarrow> rpc_out \<Rightarrow> (StdioMcpClient, mcp_stop, unit) act" where
  "write_value W c out =
     bindA (getA (\<lambda>s. length (frames_to c (mp_frames s)))) (\<lambda>k.
     bindA (modA (\<lambda>s. s\<lparr> mp_frames := mp_frames s @ [(c, out)] \<rparr>)) (\<lambda>_.
     case mc_encode W out of
       Inl e \<Rightarrow> errA (McpStops (McpProtocol e))
     | Inr bytes \<Rightarrow>
         (case mc_write W c k of
            Some e \<Rightarrow> errA (McpStops (McpProtocol (''write: '' @ e)))
          | None \<Rightarrow> (case mc_flush W c k of
              Some e \<Rightarrow> errA (McpStops (McpProtocol (''flush: '' @ e)))
            | None \<Rightarrow> okA ()))))"

fun trim_newlines :: "string \<Rightarrow> string" where
  "trim_newlines s = rev (dropWhile (\<lambda>c. c = CHR 0x0A) (rev s))"

definition decode_line :: "mcp_world \<Rightarrow> string \<Rightarrow> mcp_error + JsonRpcResponse" where
  "decode_line W line =
     (if line = [] then Inl (McpProtocol ''server closed stdout before reply'')
      else case mc_response W (trim_newlines line) of
             Inl e \<Rightarrow> Inl (McpProtocol (''decode: '' @ e @ ''; raw: '' @ mc_debug W line))
           | Inr resp \<Rightarrow> Inr resp)"

definition read_message :: "mcp_world \<Rightarrow> nat \<Rightarrow> nat \<Rightarrow> (mcp_error + JsonRpcResponse) option" where
  "read_message W c k =
     map_option (\<lambda>r. case r of
         ReadError e \<Rightarrow> Inl (McpProtocol (''read: '' @ e))
       | ReadLine line \<Rightarrow> decode_line W line) (mc_read W c k)"

text \<open>The reply and the number of reads made.\<close>

partial_function (option) read_response_for_id :: "mcp_world \<Rightarrow> nat \<Rightarrow> u64 \<Rightarrow> nat
    \<Rightarrow> ((mcp_error + JsonRpcResponse) \<times> nat) option" where
  "read_response_for_id W c expected k =
     (case read_message W c k of
        None \<Rightarrow> None
      | Some (Inl e) \<Rightarrow> Some (Inl e, Suc k)
      | Some (Inr resp) \<Rightarrow>
          if jr_id resp = Some expected then Some (Inr resp, Suc k)
          else read_response_for_id W c expected (Suc k))"

section \<open>The client\<close>

definition take_id :: "StdioConnection \<Rightarrow> StdioConnection" where
  "take_id conn = conn\<lparr> sc_next_id := sc_next_id conn + 1 \<rparr>"

text \<open>A request and its reply, on a connection outside the table: the handshake has it as a local variable.\<close>

definition round_trip :: "mcp_world \<Rightarrow> StdioConnection \<Rightarrow> string \<Rightarrow> json
    \<Rightarrow> (StdioMcpClient, mcp_stop, JsonRpcResponse \<times> StdioConnection) act" where
  "round_trip W conn meth params =
     bindA (write_value W (sc_child conn)
       (OutRequest \<lparr> jq_id = sc_next_id conn, jq_method = meth, jq_params = params \<rparr>)) (\<lambda>_.
     case read_response_for_id W (sc_child conn) (sc_next_id conn) (sc_reads conn) of
       None \<Rightarrow> errA McpBlocked
     | Some (Inl e, _) \<Rightarrow> errA (McpStops e)
     | Some (Inr resp, k) \<Rightarrow> okA (resp, (take_id conn)\<lparr> sc_reads := k \<rparr>))"

definition initialize_params :: "mcp_world \<Rightarrow> json" where
  "initialize_params W =
     jobj [(''protocolVersion'', JString ''2024-11-05''), (''capabilities'', jobj [(''tools'', jobj [])]),
       (''clientInfo'', jobj [(''name'', JString ''aegis-node''), (''version'', JString (mc_version W))])]"

definition initialized_note :: json where
  "initialized_note = jobj [(''jsonrpc'', JString ''2.0''), (''method'', JString ''notifications/initialized'')]"

definition initialize_handshake :: "mcp_world \<Rightarrow> StdioConnection \<Rightarrow> (StdioMcpClient, mcp_stop, StdioConnection) act" where
  "initialize_handshake W conn =
     bindA (round_trip W conn ''initialize'' (initialize_params W)) (\<lambda>(resp, conn').
     case jr_error resp of
       Some e \<Rightarrow> errA (McpStops (McpServerError (je_code e) (je_message e)))
     | None \<Rightarrow> bindA (write_value W (sc_child conn) (OutValue initialized_note)) (\<lambda>_. okA conn'))"

definition connect_stdio :: "mcp_world \<Rightarrow> string \<Rightarrow> (StdioMcpClient, mcp_stop, StdioConnection) act" where
  "connect_stdio W uri =
     bindA (mapErrA McpStops (liftA (parse_stdio_uri uri))) (\<lambda>(path, args).
     bindA (getA (\<lambda>s. length (mp_spawned s))) (\<lambda>c.
     bindA (modA (\<lambda>s. s\<lparr> mp_spawned := mp_spawned s @ [(path, args)] \<rparr>)) (\<lambda>_.
     case mc_spawn W c path args of
       Some e \<Rightarrow> errA (McpStops (McpSpawn uri e))
     | None \<Rightarrow>
         bindA (initialize_handshake W \<lparr> sc_child = c, sc_reads = 0, sc_next_id = 0 \<rparr>) (\<lambda>conn.
         bindA (modA (\<lambda>s. s\<lparr> mp_connections := fmupd uri conn (mp_connections s) \<rparr>)) (\<lambda>_.
         okA conn)))))"

definition ensure_connection :: "mcp_world \<Rightarrow> string \<Rightarrow> (StdioMcpClient, mcp_stop, StdioConnection) act" where
  "ensure_connection W uri =
     bindA (getA (\<lambda>s. fmlookup (mp_connections s) uri)) (\<lambda>found.
     case found of
       Some conn \<Rightarrow> okA conn
     | None \<Rightarrow> connect_stdio W uri)"

definition call_params :: "string \<Rightarrow> json \<Rightarrow> json" where
  "call_params tool args = jobj [(''name'', JString tool), (''arguments'', args)]"

text \<open>The connection in the table has its id taken before the request is written, and keeps it when the
  call fails.\<close>

definition call_tool :: "mcp_world \<Rightarrow> string \<Rightarrow> string \<Rightarrow> json \<Rightarrow> (StdioMcpClient, mcp_stop, json) act" where
  "call_tool W uri tool args =
     bindA (ensure_connection W uri) (\<lambda>conn.
     bindA (modA (\<lambda>s. s\<lparr> mp_connections := fmupd uri (take_id conn) (mp_connections s) \<rparr>)) (\<lambda>_.
     bindA (write_value W (sc_child conn)
       (OutRequest \<lparr> jq_id = sc_next_id conn, jq_method = ''tools/call'', jq_params = call_params tool args \<rparr>)) (\<lambda>_.
     case read_response_for_id W (sc_child conn) (sc_next_id conn) (sc_reads conn) of
       None \<Rightarrow> errA McpBlocked
     | Some (r, k) \<Rightarrow>
         bindA (modA (\<lambda>s. s\<lparr> mp_connections :=
           fmupd uri ((take_id conn)\<lparr> sc_reads := k \<rparr>) (mp_connections s) \<rparr>)) (\<lambda>_.
         case r of
           Inl e \<Rightarrow> errA (McpStops e)
         | Inr resp \<Rightarrow> (case jr_error resp of
             Some e \<Rightarrow> errA (McpStops (McpServerError (je_code e) (je_message e)))
           | None \<Rightarrow> (case jr_result resp of
               Some v \<Rightarrow> okA v
             | None \<Rightarrow> errA (McpStops (McpProtocol ''response missing both result and error''))))))))"

text \<open>Dropping the client kills the children of its connections, here in the order of their addresses.\<close>

definition drop_client :: "StdioMcpClient \<Rightarrow> StdioMcpClient" where
  "drop_client s =
     s\<lparr> mp_connections := fmempty,
        mp_killed := mp_killed s @ map (\<lambda>u. sc_child (the (fmlookup (mp_connections s) u)))
          (sorted_list_of_fset (fmdom (mp_connections s))) \<rparr>"


section \<open>The reply\<close>

definition first_reply :: "mcp_world \<Rightarrow> nat \<Rightarrow> u64 \<Rightarrow> nat \<Rightarrow> (mcp_error + JsonRpcResponse) \<times> nat \<Rightarrow> bool" where
  "first_reply W c expected k y \<longleftrightarrow>
     (\<exists>n. k \<le> n \<and> snd y = Suc n \<and>
       (\<forall>j. k \<le> j \<and> j < n \<longrightarrow> (\<exists>other. read_message W c j = Some (Inr other) \<and> jr_id other \<noteq> Some expected)) \<and>
       read_message W c n = Some (fst y) \<and> (\<forall>resp. fst y = Inr resp \<longrightarrow> jr_id resp = Some expected))"

lemma first_reply_here:
  "read_message W c k = Some r \<Longrightarrow> (\<forall>resp. r = Inr resp \<longrightarrow> jr_id resp = Some expected) \<Longrightarrow>
     first_reply W c expected k (r, Suc k)"
  unfolding first_reply_def by (rule exI [of _ k]) auto

lemma first_reply_later:
  assumes "read_message W c k = Some (Inr other)" and "jr_id other \<noteq> Some expected"
    and "first_reply W c expected (Suc k) y"
  shows "first_reply W c expected k y"
proof -
  obtain n where n: "Suc k \<le> n" "snd y = Suc n"
    "\<forall>j. Suc k \<le> j \<and> j < n \<longrightarrow> (\<exists>other. read_message W c j = Some (Inr other) \<and> jr_id other \<noteq> Some expected)"
    "read_message W c n = Some (fst y)" "\<forall>resp. fst y = Inr resp \<longrightarrow> jr_id resp = Some expected"
    using assms(3) by (auto simp: first_reply_def)
  have "\<exists>other. read_message W c j = Some (Inr other) \<and> jr_id other \<noteq> Some expected" if "k \<le> j" "j < n" for j
    using that n(3) assms(1,2) by (cases "j = k") auto
  with n show ?thesis unfolding first_reply_def by (intro exI [of _ n]) auto
qed

lemma read_response_first:
  assumes "read_response_for_id W c expected k = Some y"
  shows "first_reply W c expected k y"
proof (rule read_response_for_id.raw_induct [where P = first_reply, OF _ assms])
  fix f W c expected k y
  assume ih: "\<And>W c expected k y. f W c expected k = Some y \<Longrightarrow> first_reply W c expected k y"
    and step: "(case read_message W c k of None \<Rightarrow> None | Some (Inl e) \<Rightarrow> Some (Inl e, Suc k)
      | Some (Inr resp) \<Rightarrow> if jr_id resp = Some expected then Some (Inr resp, Suc k)
          else f W c expected (Suc k)) = Some y"
  show "first_reply W c expected k y"
    using step by (auto intro: first_reply_here first_reply_later ih split: option.splits sum.splits if_splits)
qed

text \<open>Conversely, a reply that the child sends after frames of other ids is found.\<close>

lemma read_response_found:
  assumes "read_message W c (k + n) = Some r"
    and "\<forall>resp. r = Inr resp \<longrightarrow> jr_id resp = Some expected"
    and "\<forall>j < n. \<exists>other. read_message W c (k + j) = Some (Inr other) \<and> jr_id other \<noteq> Some expected"
  shows "read_response_for_id W c expected k = Some (r, Suc (k + n))"
  using assms
proof (induction n arbitrary: k)
  case 0
  then show ?case by (subst read_response_for_id.simps) (auto split: sum.splits)
next
  case (Suc n)
  then obtain other where "read_message W c k = Some (Inr other)" "jr_id other \<noteq> Some expected"
    by (metis add.right_neutral zero_less_Suc)
  moreover have "read_response_for_id W c expected (Suc k) = Some (r, Suc (Suc k + n))"
    using Suc.prems by (intro Suc.IH) auto
  ultimately show ?case by (subst read_response_for_id.simps) simp
qed

section \<open>The invariant of the client\<close>

inductive mcp_reach :: "mcp_world \<Rightarrow> StdioMcpClient \<Rightarrow> bool" for W :: mcp_world where
  new: "mcp_reach W mcp_client_new"
| called: "mcp_reach W s \<Longrightarrow> call_tool W uri tool args s = (r, s') \<Longrightarrow> mcp_reach W s'"

definition requests_to :: "nat \<Rightarrow> (nat \<times> rpc_out) list \<Rightarrow> rpc_out list" where
  "requests_to c fs = filter (\<lambda>out. \<exists>q. out = OutRequest q) (frames_to c fs)"

lemma requests_to_append [simp]:
  "requests_to c (fs @ [(c', out)]) =
     requests_to c fs @ (if c' = c \<and> (\<exists>q. out = OutRequest q) then [out] else [])"
  by (simp add: requests_to_def frames_to_def)

text \<open>The child of a connection was started from the address of the connection and has been sent as many
  requests as its next id says.\<close>

definition conn_ok :: "mcp_world \<Rightarrow> StdioMcpClient \<Rightarrow> string \<Rightarrow> StdioConnection \<Rightarrow> bool" where
  "conn_ok W s uri conn \<longleftrightarrow> sc_child conn < length (mp_spawned s) \<and>
     parse_stdio_uri uri = Inr (mp_spawned s ! sc_child conn) \<and>
     sc_next_id conn = of_nat (length (requests_to (sc_child conn) (mp_frames s)))"

definition mcp_inv :: "mcp_world \<Rightarrow> StdioMcpClient \<Rightarrow> bool" where
  "mcp_inv W s \<longleftrightarrow>
     (\<forall>uri conn. fmlookup (mp_connections s) uri = Some conn \<longrightarrow> conn_ok W s uri conn) \<and>
     (\<forall>u1 u2 c1 c2. fmlookup (mp_connections s) u1 = Some c1 \<longrightarrow> fmlookup (mp_connections s) u2 = Some c2 \<longrightarrow>
        sc_child c1 = sc_child c2 \<longrightarrow> u1 = u2) \<and>
     (\<forall>f \<in> set (mp_frames s). fst f < length (mp_spawned s))"

lemma write_value_frames:
  "write_value W c out s = (r, s') \<Longrightarrow> s' = s\<lparr> mp_frames := mp_frames s @ [(c, out)] \<rparr>"
  by (auto simp: write_value_def bindA_getA bindA_modA errA_def okA_def split: sum.splits option.splits)

lemma bindA_write:
  "bindA (write_value W c out) f s =
     (case fst (write_value W c out s) of
        Inl e \<Rightarrow> (Inl e, s\<lparr> mp_frames := mp_frames s @ [(c, out)] \<rparr>)
      | Inr u \<Rightarrow> f u (s\<lparr> mp_frames := mp_frames s @ [(c, out)] \<rparr>))"
proof (cases "write_value W c out s")
  case (Pair r s')
  with write_value_frames [OF Pair] show ?thesis by (cases r) (simp_all add: bindA_def)
qed

definition frames_added :: "nat \<Rightarrow> StdioMcpClient \<Rightarrow> StdioMcpClient \<Rightarrow> bool" where
  "frames_added c s s' \<longleftrightarrow> (\<exists>outs. s' = s\<lparr> mp_frames := mp_frames s @ map (Pair c) outs \<rparr>)"

lemma handshake_frames:
  assumes "initialize_handshake W conn s = (r, s')"
  shows "\<exists>q outs. s' = s\<lparr> mp_frames := mp_frames s @ map (Pair (sc_child conn)) (OutRequest q # outs) \<rparr> \<and>
     (\<forall>conn'. r = Inr conn' \<longrightarrow> sc_child conn' = sc_child conn \<and> sc_next_id conn' = sc_next_id conn + 1 \<and>
        (\<exists>v. outs = [OutValue v]))"
proof -
  let ?q = "\<lparr> jq_id = sc_next_id conn, jq_method = ''initialize'', jq_params = initialize_params W \<rparr>"
  obtain r1 s1 where r1: "round_trip W conn ''initialize'' (initialize_params W) s = (r1, s1)" by fastforce
  then have s1: "s1 = s\<lparr> mp_frames := mp_frames s @ [(sc_child conn, OutRequest ?q)] \<rparr>"
    and c1: "\<And>resp conn'. r1 = Inr (resp, conn') \<Longrightarrow>
      sc_child conn' = sc_child conn \<and> sc_next_id conn' = sc_next_id conn + 1"
    by (auto simp: round_trip_def bindA_write errA_def okA_def take_id_def split: sum.splits option.splits)
  show ?thesis
  proof (cases r1)
    case (Inl e)
    with assms r1 s1 show ?thesis
      by (intro exI [of _ ?q] exI [of _ "[]"]) (auto simp: initialize_handshake_def bindA_def)
  next
    case (Inr x)
    then obtain resp conn' where x: "r1 = Inr (resp, conn')" by (cases x) auto
    show ?thesis
    proof (cases "jr_error resp")
      case (Some e)
      with assms r1 s1 x show ?thesis
        by (intro exI [of _ ?q] exI [of _ "[]"]) (auto simp: initialize_handshake_def bindA_def errA_def)
    next
      case None
      obtain w s2 where w: "write_value W (sc_child conn) (OutValue initialized_note) s1 = (w, s2)" by fastforce
      from assms r1 x None w have "s' = s2" "\<And>conn''. r = Inr conn'' \<Longrightarrow> conn'' = conn'"
        by (auto simp: initialize_handshake_def bindA_def okA_def split: sum.splits)
      with write_value_frames [OF w] s1 c1 [OF x] show ?thesis
        by (intro exI [of _ ?q] exI [of _ "[OutValue initialized_note]"]) auto
    qed
  qed
qed


lemma requests_to_other: "c' \<noteq> c \<Longrightarrow> requests_to c' (fs @ map (Pair c) outs) = requests_to c' fs"
  by (simp add: requests_to_def frames_to_def filter_map o_def)

lemma requests_to_fresh: "\<forall>f \<in> set fs. fst f < c \<Longrightarrow> requests_to c fs = []"
  by (auto simp: requests_to_def frames_to_def filter_empty_conv)

lemma mcp_inv_new: "mcp_inv W mcp_client_new"
  by (simp add: mcp_inv_def mcp_client_new_def)

text \<open>A new process, and frames sent to it, leave the connections as good as they were.\<close>

lemma mcp_inv_started:
  assumes "mcp_inv W s"
  shows "mcp_inv W (s\<lparr> mp_spawned := mp_spawned s @ [x],
    mp_frames := mp_frames s @ map (Pair (length (mp_spawned s))) outs \<rparr>)" (is "mcp_inv W ?s")
proof -
  have ok: "conn_ok W ?s uri conn" if "conn_ok W s uri conn" for uri conn
    using that by (auto simp: conn_ok_def nth_append requests_to_other)
  with assms show ?thesis
    by (auto simp: mcp_inv_def less_Suc_eq)
qed

lemma mcp_inv_connected:
  assumes inv: "mcp_inv W s" and uri: "parse_stdio_uri uri = Inr x"
    and conn: "sc_child conn = length (mp_spawned s)" "sc_next_id conn = 1"
  shows "mcp_inv W (s\<lparr> mp_spawned := mp_spawned s @ [x],
    mp_frames := mp_frames s @ map (Pair (length (mp_spawned s))) [OutRequest q, OutValue v],
    mp_connections := fmupd uri conn (mp_connections s) \<rparr>)" (is "mcp_inv W ?s")
proof -
  let ?c = "length (mp_spawned s)"
  have start: "mcp_inv W (s\<lparr> mp_spawned := mp_spawned s @ [x],
      mp_frames := mp_frames s @ map (Pair ?c) [OutRequest q, OutValue v] \<rparr>)"
    by (rule mcp_inv_started [OF inv])
  have old: "sc_child c \<noteq> ?c" "?c \<noteq> sc_child c" if "fmlookup (mp_connections s) u = Some c" for u c
  proof -
    have "conn_ok W s u c" using inv that by (simp add: mcp_inv_def)
    then show "sc_child c \<noteq> ?c" "?c \<noteq> sc_child c" by (simp_all add: conn_ok_def)
  qed
  have "requests_to ?c (mp_frames s) = []" using inv by (intro requests_to_fresh) (simp add: mcp_inv_def)
  then have "length (requests_to ?c (mp_frames s @ map (Pair ?c) [OutRequest q, OutValue v])) = 1"
    by (simp add: requests_to_def frames_to_def)
  with conn uri have "conn_ok W ?s uri conn" by (simp add: conn_ok_def)
  with start conn(1) show ?thesis
    unfolding mcp_inv_def by (auto simp: conn_ok_def dest: old)
qed

lemma mcp_inv_requested:
  assumes inv: "mcp_inv W s" and conn: "fmlookup (mp_connections s) uri = Some conn"
    and conn': "sc_child conn' = sc_child conn" "sc_next_id conn' = sc_next_id conn + 1"
  shows "mcp_inv W (s\<lparr> mp_connections := fmupd uri conn' (mp_connections s),
    mp_frames := mp_frames s @ [(sc_child conn, OutRequest q)] \<rparr>)" (is "mcp_inv W ?s")
proof -
  have ok: "conn_ok W s uri conn" and all: "\<And>u c. fmlookup (mp_connections s) u = Some c \<Longrightarrow> conn_ok W s u c"
    and apart: "\<And>u c. fmlookup (mp_connections s) u = Some c \<Longrightarrow> sc_child c = sc_child conn \<Longrightarrow> u = uri"
    using inv conn by (auto simp: mcp_inv_def)
  have "conn_ok W ?s uri conn'" using ok conn' by (simp add: conn_ok_def)
  moreover have "conn_ok W ?s u c" if "fmlookup (mp_connections s) u = Some c" "u \<noteq> uri" for u c
    using all [OF that(1)] apart [OF that(1)] that(2) by (auto simp: conn_ok_def)
  moreover have "sc_child conn < length (mp_spawned s)" using ok by (simp add: conn_ok_def)
  ultimately show ?thesis
    using inv apart conn'(1) unfolding mcp_inv_def by (auto split: if_splits)
qed

lemma fmdrop_upd [simp]: "fmdrop k (fmupd k v m) = fmdrop k m"
  by (rule fmap_ext) simp

lemma connect_meets:
  assumes inv: "mcp_inv W s" and run: "connect_stdio W uri s = (r, s')"
  shows "mcp_inv W s' \<and> (\<forall>conn. r = Inr conn \<longrightarrow> fmlookup (mp_connections s') uri = Some conn) \<and>
    (\<forall>e. r = Inl e \<longrightarrow> mp_connections s' = mp_connections s) \<and>
    fmdrop uri (mp_connections s') = fmdrop uri (mp_connections s)"
proof (cases "parse_stdio_uri uri")
  case (Inl e)
  with run inv show ?thesis by (auto simp: connect_stdio_def bindA_def mapErrA_def liftA_def)
next
  case (Inr x)
  obtain path args where x: "x = (path, args)" by fastforce
  let ?c = "length (mp_spawned s)"
  let ?s1 = "s\<lparr> mp_spawned := mp_spawned s @ [x] \<rparr>"
  let ?conn0 = "\<lparr> sc_child = ?c, sc_reads = 0, sc_next_id = 0 \<rparr>"
  have started: "mcp_inv W ?s1" using mcp_inv_started [OF inv, where x = x and outs = "[]"] by simp
  show ?thesis
  proof (cases "mc_spawn W ?c path args")
    case (Some e)
    with run Inr x started show ?thesis
      by (auto simp: connect_stdio_def bindA_def mapErrA_def liftA_def getA_def modA_def errA_def)
  next
    case None
    obtain h s2 where h: "initialize_handshake W ?conn0 ?s1 = (h, s2)" by fastforce
    then obtain q outs where s2: "s2 = ?s1\<lparr> mp_frames := mp_frames s @ map (Pair ?c) (OutRequest q # outs) \<rparr>"
      and ok: "\<And>conn. h = Inr conn \<Longrightarrow> sc_child conn = ?c \<and> sc_next_id conn = 1 \<and> (\<exists>v. outs = [OutValue v])"
      using handshake_frames [OF h] by auto
    show ?thesis
    proof (cases h)
      case (Inl e)
      then have "s' = s2" "r = Inl e"
        using run Inr x None h by (auto simp: connect_stdio_def bindA_def mapErrA_def liftA_def getA_def modA_def)
      moreover have "mcp_inv W s2" using mcp_inv_started [OF inv, where x = x and outs = "OutRequest q # outs"] s2 by simp
      ultimately show ?thesis using s2 by simp
    next
      case (Inr conn)
      then have s': "s' = s2\<lparr> mp_connections := fmupd uri conn (mp_connections s2) \<rparr>" "r = Inr conn"
        using run \<open>parse_stdio_uri uri = Inr x\<close> x None h
        by (auto simp: connect_stdio_def bindA_def mapErrA_def liftA_def getA_def modA_def okA_def)
      from ok [OF Inr] obtain v where v: "outs = [OutValue v]" "sc_child conn = ?c" "sc_next_id conn = 1" by blast
      have "mcp_inv W s'"
        using mcp_inv_connected [OF inv \<open>parse_stdio_uri uri = Inr x\<close> v(2,3), where q = q and v = v] s'(1) s2 v(1) by simp
      with s' s2 show ?thesis by simp
    qed
  qed
qed

lemma ensure_meets:
  assumes inv: "mcp_inv W s" and run: "ensure_connection W uri s = (r, s')"
  shows "mcp_inv W s' \<and> (\<forall>conn. r = Inr conn \<longrightarrow> fmlookup (mp_connections s') uri = Some conn) \<and>
    fmdrop uri (mp_connections s') = fmdrop uri (mp_connections s)"
proof (cases "fmlookup (mp_connections s) uri")
  case (Some conn)
  with run have "r = Inr conn" "s' = s" by (simp_all add: ensure_connection_def bindA_getA okA_def)
  with inv Some show ?thesis by simp
next
  case None
  with run have "connect_stdio W uri s = (r, s')" by (simp add: ensure_connection_def bindA_getA)
  from connect_meets [OF inv this] show ?thesis by blast
qed

text \<open>The request of a call on an open connection: the table, the frames and the answer.\<close>

definition call_request :: "StdioConnection \<Rightarrow> string \<Rightarrow> json \<Rightarrow> rpc_out" where
  "call_request conn tool args =
     OutRequest \<lparr> jq_id = sc_next_id conn, jq_method = ''tools/call'', jq_params = call_params tool args \<rparr>"

lemma call_on_connection:
  assumes ens: "ensure_connection W uri s = (Inr conn, s1)" and run: "call_tool W uri tool args s = (r, s')"
  shows "\<exists>conn'. sc_child conn' = sc_child conn \<and> sc_next_id conn' = sc_next_id conn + 1 \<and>
    s' = s1\<lparr> mp_connections := fmupd uri conn' (mp_connections s1),
            mp_frames := mp_frames s1 @ [(sc_child conn, call_request conn tool args)] \<rparr> \<and>
    (\<forall>v. r = Inr v \<longrightarrow> (\<exists>resp. read_response_for_id W (sc_child conn) (sc_next_id conn) (sc_reads conn) =
        Some (Inr resp, sc_reads conn') \<and> jr_error resp = None \<and> jr_result resp = Some v))"
proof -
  let ?s2 = "s1\<lparr> mp_connections := fmupd uri (take_id conn) (mp_connections s1) \<rparr>"
  let ?s3 = "?s2\<lparr> mp_frames := mp_frames s1 @ [(sc_child conn, call_request conn tool args)] \<rparr>"
  let ?reply = "read_response_for_id W (sc_child conn) (sc_next_id conn) (sc_reads conn)"
  obtain w s3 where w: "write_value W (sc_child conn) (call_request conn tool args) ?s2 = (w, s3)" by fastforce
  then have s3: "s3 = ?s3" using write_value_frames [OF w] by simp
  have take: "sc_child (take_id conn) = sc_child conn" "sc_next_id (take_id conn) = sc_next_id conn + 1"
    by (simp_all add: take_id_def)
  have unfolded: "call_tool W uri tool args s =
      (case w of Inl e \<Rightarrow> (Inl e, ?s3) | Inr _ \<Rightarrow>
        (case ?reply of
           None \<Rightarrow> errA McpBlocked
         | Some (x, k) \<Rightarrow>
           bindA (modA (\<lambda>s. s\<lparr> mp_connections := fmupd uri ((take_id conn)\<lparr> sc_reads := k \<rparr>) (mp_connections s) \<rparr>)) (\<lambda>_.
           case x of
             Inl e \<Rightarrow> errA (McpStops e)
           | Inr resp \<Rightarrow> (case jr_error resp of
               Some e \<Rightarrow> errA (McpStops (McpServerError (je_code e) (je_message e)))
             | None \<Rightarrow> (case jr_result resp of
                 Some v \<Rightarrow> okA v
               | None \<Rightarrow> errA (McpStops (McpProtocol ''response missing both result and error'')))))) ?s3)"
    using w s3 unfolding call_tool_def call_request_def
    by (simp add: bindA_ok [where m = "ensure_connection W uri", OF ens] bindA_modA bindA_write split: sum.splits)
  show ?thesis
  proof (cases "(\<exists>e. w = Inl e) \<or> ?reply = None")
    case True
    with run unfolded have "r \<noteq> Inr v" "s' = ?s3" for v by (auto simp: errA_def split: sum.splits)
    with take show ?thesis by (intro exI [of _ "take_id conn"]) simp
  next
    case False
    then obtain u x k where u: "w = Inr u" and k: "?reply = Some (x, k)" by (cases w) auto
    have same: "fmupd uri ((take_id conn)\<lparr> sc_reads := k \<rparr>) (fmupd uri (take_id conn) (mp_connections s1)) =
        fmupd uri ((take_id conn)\<lparr> sc_reads := k \<rparr>) (mp_connections s1)" by (rule fmap_ext) simp
    from run unfolded u k have "s' = ?s3\<lparr> mp_connections := fmupd uri ((take_id conn)\<lparr> sc_reads := k \<rparr>) (mp_connections ?s3) \<rparr>"
      and "\<And>v. r = Inr v \<Longrightarrow> \<exists>resp. x = Inr resp \<and> jr_error resp = None \<and> jr_result resp = Some v"
      by (auto simp: bindA_modA errA_def okA_def split: sum.splits option.splits)
    with take k same show ?thesis by (intro exI [of _ "(take_id conn)\<lparr> sc_reads := k \<rparr>"]) auto
  qed
qed

lemma mcp_reach_inv: "mcp_reach W s \<Longrightarrow> mcp_inv W s"
proof (induction rule: mcp_reach.induct)
  case new
  show ?case by (rule mcp_inv_new)
next
  case (called s uri tool args r s')
  obtain e s1 where e: "ensure_connection W uri s = (e, s1)" by fastforce
  note s1 = ensure_meets [OF called.IH e]
  show ?case
  proof (cases e)
    case (Inl x)
    with e called.hyps(2) have "s' = s1" by (simp add: call_tool_def bindA_def)
    with s1 show ?thesis by simp
  next
    case (Inr conn)
    with s1 have "mcp_inv W s1" "fmlookup (mp_connections s1) uri = Some conn" by simp_all
    with call_on_connection [OF e [unfolded Inr] called.hyps(2)] show ?thesis
      unfolding call_request_def by (metis mcp_inv_requested)
  qed
qed


text \<open>A process whose handshake fails runs on: it is in no connection, so that dropping the client kills
  the same processes as before the call.\<close>

lemma failed_handshake_leaves_child:
  assumes "fmlookup (mp_connections s) uri = None" and "parse_stdio_uri uri = Inr (path, args)"
    and "mc_spawn W (length (mp_spawned s)) path args = None"
    and h: "initialize_handshake W \<lparr> sc_child = length (mp_spawned s), sc_reads = 0, sc_next_id = 0 \<rparr>
      (s\<lparr> mp_spawned := mp_spawned s @ [(path, args)] \<rparr>) = (Inl e, s1)"
  shows "\<exists>s'. call_tool W uri tool targs s = (Inl e, s') \<and> mp_spawned s' = mp_spawned s @ [(path, args)] \<and>
    mp_killed (drop_client s') = mp_killed (drop_client s)"
  using assms handshake_frames [OF h]
  by (auto simp: call_tool_def ensure_connection_def connect_stdio_def bindA_def mapErrA_def liftA_def getA_def
      modA_def drop_client_def)

section \<open>Properties\<close>

text \<open>C18: A tool call gets the reply to its own request. Whatever calls were made before and whatever the
  servers sent, a call that returns a value wrote exactly one more request, on the process that was
  started from the address of the server, under the number of requests that process had been sent so far;
  and the value is the result of the first frame from that process, read after those of earlier calls,
  that carries this id, with only frames of other ids or of none skipped before it. No other connection
  is touched.\<close>

theorem mcp_reply_matches_request:
  assumes "mcp_reach W s" and run: "call_tool W uri tool args s = (Inr v, s')"
  shows "\<exists>c i k n fs resp conn'.
     c < length (mp_spawned s') \<and> parse_stdio_uri uri = Inr (mp_spawned s' ! c) \<and>
     mp_frames s' = fs @ [(c, OutRequest \<lparr> jq_id = i, jq_method = ''tools/call'', jq_params = call_params tool args \<rparr>)] \<and>
     i = of_nat (length (requests_to c fs)) \<and> k \<le> n \<and>
     (\<forall>j. k \<le> j \<and> j < n \<longrightarrow> (\<exists>other. read_message W c j = Some (Inr other) \<and> jr_id other \<noteq> Some i)) \<and>
     read_message W c n = Some (Inr resp) \<and> jr_id resp = Some i \<and> jr_error resp = None \<and> jr_result resp = Some v \<and>
     fmlookup (mp_connections s') uri = Some conn' \<and> sc_child conn' = c \<and> sc_reads conn' = Suc n \<and>
     (\<forall>conn. fmlookup (mp_connections s) uri = Some conn \<longrightarrow> c = sc_child conn \<and> k = sc_reads conn) \<and>
     fmdrop uri (mp_connections s') = fmdrop uri (mp_connections s)"
proof -
  obtain conn s1 where e: "ensure_connection W uri s = (Inr conn, s1)"
    using run by (cases "ensure_connection W uri s"; cases "fst (ensure_connection W uri s)")
      (auto simp: call_tool_def bindA_def)
  note s1 = ensure_meets [OF mcp_reach_inv [OF assms(1)] e]
  then have ok: "conn_ok W s1 uri conn" by (simp add: mcp_inv_def)
  obtain conn' resp where c: "sc_child conn' = sc_child conn"
    "s' = s1\<lparr> mp_connections := fmupd uri conn' (mp_connections s1),
       mp_frames := mp_frames s1 @ [(sc_child conn, call_request conn tool args)] \<rparr>"
    "read_response_for_id W (sc_child conn) (sc_next_id conn) (sc_reads conn) = Some (Inr resp, sc_reads conn')"
    "jr_error resp = None" "jr_result resp = Some v"
    using call_on_connection [OF e run] by blast
  obtain n where n: "sc_reads conn \<le> n" "sc_reads conn' = Suc n"
    "\<forall>j. sc_reads conn \<le> j \<and> j < n \<longrightarrow>
       (\<exists>other. read_message W (sc_child conn) j = Some (Inr other) \<and> jr_id other \<noteq> Some (sc_next_id conn))"
    "read_message W (sc_child conn) n = Some (Inr resp)" "jr_id resp = Some (sc_next_id conn)"
    using read_response_first [OF c(3)] by (auto simp: first_reply_def)
  have same: "\<forall>x. fmlookup (mp_connections s) uri = Some x \<longrightarrow> sc_child conn = sc_child x \<and> sc_reads conn = sc_reads x"
    using e by (auto simp: ensure_connection_def bindA_getA okA_def)
  show ?thesis
    by (rule exI [of _ "sc_child conn"], rule exI [of _ "sc_next_id conn"], rule exI [of _ "sc_reads conn"],
        rule exI [of _ n], rule exI [of _ "mp_frames s1"], rule exI [of _ resp], rule exI [of _ conn'])
      (use ok c n same s1 in \<open>simp add: conn_ok_def call_request_def\<close>)
qed

definition demo_mcp :: mcp_world where
  "demo_mcp = \<lparr> mc_spawn = (\<lambda>_ _ _. None), mc_encode = (\<lambda>_. Inr []), mc_write = (\<lambda>_ _. None),
     mc_flush = (\<lambda>_ _. None), mc_read = (\<lambda>_ k. Some (ReadLine (if k = 0 then ''0'' else if k = 1 then ''1'' else ''2''))),
     mc_response = (\<lambda>l. Inr \<lparr> jr_jsonrpc = ''2.0'',
       jr_id = (if l = ''0'' then Some 0 else if l = ''1'' then None else Some 1),
       jr_result = Some (JString l), jr_error = None \<rparr>),
     mc_debug = (\<lambda>s. s), mc_version = ''0'' \<rparr>"

lemma demo_mcp_reads:
  "read_message demo_mcp c 0 = Some (Inr \<lparr> jr_jsonrpc = ''2.0'', jr_id = Some 0, jr_result = Some (JString ''0''), jr_error = None \<rparr>)"
  "read_message demo_mcp c 1 = Some (Inr \<lparr> jr_jsonrpc = ''2.0'', jr_id = None, jr_result = Some (JString ''1''), jr_error = None \<rparr>)"
  "read_message demo_mcp c 2 = Some (Inr \<lparr> jr_jsonrpc = ''2.0'', jr_id = Some 1, jr_result = Some (JString ''2''), jr_error = None \<rparr>)"
  by (simp_all add: read_message_def demo_mcp_def decode_line_def)

lemma demo_mcp_replies:
  "read_response_for_id demo_mcp c 0 0 = Some (Inr \<lparr> jr_jsonrpc = ''2.0'', jr_id = Some 0,
     jr_result = Some (JString ''0''), jr_error = None \<rparr>, 1)"
  "read_response_for_id demo_mcp c 1 1 = Some (Inr \<lparr> jr_jsonrpc = ''2.0'', jr_id = Some 1,
     jr_result = Some (JString ''2''), jr_error = None \<rparr>, 3)"
  by (simp_all add: read_response_for_id.simps [of demo_mcp c 0 0] read_response_for_id.simps [of demo_mcp c 1 "Suc 0"]
      read_response_for_id.simps [of demo_mcp c 1 "Suc (Suc 0)"] demo_mcp_reads(1) demo_mcp_reads(2) [unfolded One_nat_def]
      demo_mcp_reads(3) [unfolded numeral_2_eq_2] numeral_3_eq_3)

lemma demo_mcp_write: "write_value demo_mcp c out s = (Inr (), s\<lparr> mp_frames := mp_frames s @ [(c, out)] \<rparr>)"
  by (simp add: write_value_def demo_mcp_def bindA_getA bindA_modA okA_def)

lemma demo_mcp_uri: "parse_stdio_uri ''stdio:/x'' = Inr (''/x'', [])"
proof -
  have no: "\<not> at_whitespace (CHR ''/'' # t)" "\<not> at_whitespace (CHR ''x'' # t)" for t
    by (simp_all add: at_whitespace_printable)
  have t: "trim_start ''/x'' = ''/x''" "trim_start [] = []"
    by (simp_all add: trim_start_id no at_whitespace_Nil)
  have "split_whitespace [] = []" by (subst split_whitespace.simps) (simp add: t)
  then have "split_whitespace ''/x'' = [''/x'']"
    by (subst split_whitespace.simps) (simp add: t no)
  then show ?thesis by (simp add: parse_stdio_uri_def strip_prefix_def)
qed

lemma demo_mcp_call:
  "\<exists>s. call_tool demo_mcp ''stdio:/x'' ''t'' JNull mcp_client_new = (Inr (JString ''2''), s)"
proof -
  let ?c = "\<lparr> sc_child = 0, sc_reads = 0, sc_next_id = 0 \<rparr>"
  have h: "\<exists>s'. initialize_handshake demo_mcp ?c s = (Inr \<lparr> sc_child = 0, sc_reads = 1, sc_next_id = 1 \<rparr>, s')" for s
    by (simp add: initialize_handshake_def round_trip_def bindA_ok [OF demo_mcp_write] demo_mcp_replies bindA_okA
        take_id_def okA_def bindA_def demo_mcp_write)
  let ?s1 = "\<lparr> mp_connections = fmempty, mp_spawned = [(''/x'', [])], mp_frames = [], mp_killed = [] \<rparr>"
  obtain s' where "initialize_handshake demo_mcp ?c ?s1 = (Inr \<lparr> sc_child = 0, sc_reads = 1, sc_next_id = 1 \<rparr>, s')"
    using h by blast
  moreover have "mc_spawn demo_mcp 0 ''/x'' [] = None" by (simp add: demo_mcp_def)
  ultimately have "\<exists>s. ensure_connection demo_mcp ''stdio:/x'' mcp_client_new =
      (Inr \<lparr> sc_child = 0, sc_reads = 1, sc_next_id = 1 \<rparr>, s)"
    by (simp add: ensure_connection_def connect_stdio_def demo_mcp_uri bindA_def mapErrA_def liftA_def getA_def modA_def
        okA_def mcp_client_new_def)
  then obtain s where e: "ensure_connection demo_mcp ''stdio:/x'' mcp_client_new =
      (Inr \<lparr> sc_child = 0, sc_reads = 1, sc_next_id = 1 \<rparr>, s)" by blast
  show ?thesis
    by (simp add: call_tool_def bindA_ok [where m = "ensure_connection demo_mcp ''stdio:/x''", OF e] bindA_modA
        bindA_ok [OF demo_mcp_write] demo_mcp_replies [unfolded One_nat_def] okA_def)
qed

theorem mcp_reply_matches_request_witness:
  "\<exists>s c n resp. call_tool demo_mcp ''stdio:/x'' ''t'' JNull mcp_client_new = (Inr (JString ''2''), s) \<and>
     mp_spawned s ! c = (''/x'', []) \<and> read_message demo_mcp c n = Some (Inr resp) \<and> jr_result resp = Some (JString ''2'')"
proof -
  obtain s where s: "call_tool demo_mcp ''stdio:/x'' ''t'' JNull mcp_client_new = (Inr (JString ''2''), s)"
    using demo_mcp_call by blast
  from mcp_reply_matches_request [OF mcp_reach.new s] s demo_mcp_uri show ?thesis by auto
qed

end
