(* ===== verification/Llama.thy ===== *)
theory Llama
  imports World
begin

text \<open>
  The llama.cpp backend: the wrapper \<open>crates/llama-backend/src/lib.rs\<close> (loading, the sampler chain,
  the generation loop) and the chat layer \<open>chat.rs\<close> (prompts, and the parser of \<open><tool_call>\<close> blocks
  in the model's output). The C++ library is a parameter: its \<open>k\<close>-th answer of each kind is arbitrary.
  A float is its 32 bits.
\<close>

section \<open>Errors and options\<close>

datatype LlamaError =
    LlBackendAlreadyInitialized
  | LlBackendInitFailed string
  | LlModelFileUnreadable string string
  | LlModelLoadFailed string string
  | LlSessionInitFailed string
  | LlTokenizationFailed string
  | LlInferenceFailed string
  | LlInvalidUtf8 string
  | LlInvalidConfig string

record LlamaOptions =
  lo_n_ctx :: u32
  lo_max_tokens :: u32
  lo_determinism :: DeterminismKnobs

definition knobs_default :: DeterminismKnobs where
  "knobs_default = \<lparr> dk_seed = None, dk_temperature = None, dk_top_p = None, dk_top_k = None, dk_repeat_penalty = None \<rparr>"

definition llama_options_default :: LlamaOptions where
  "llama_options_default = \<lparr> lo_n_ctx = 2048, lo_max_tokens = 256, lo_determinism = knobs_default \<rparr>"

section \<open>The sampler chain\<close>

text \<open>Comparisons of IEEE single-precision numbers on their bits. A number within the machine epsilon of
  one is one of four neighbours; the difference to one of any other is larger.\<close>

definition f32_nan :: "32 word \<Rightarrow> bool" where
  "f32_nan w \<longleftrightarrow> (0x7F800000 < w \<and> w < 0x80000000) \<or> 0xFF800000 < w"

definition f32_negative :: "32 word \<Rightarrow> bool" where
  "f32_negative w \<longleftrightarrow> 0x80000000 \<le> w \<and> \<not> f32_nan w"

definition f32_le_zero :: "32 word \<Rightarrow> bool" where
  "f32_le_zero w \<longleftrightarrow> w = 0 \<or> f32_negative w"

definition f32_gt_zero :: "32 word \<Rightarrow> bool" where
  "f32_gt_zero w \<longleftrightarrow> 0 < w \<and> w \<le> 0x7F800000"

definition f32_lt_one :: "32 word \<Rightarrow> bool" where
  "f32_lt_one w \<longleftrightarrow> w < 0x3F800000 \<or> f32_negative w"

definition f32_off_one :: "32 word \<Rightarrow> bool" where
  "f32_off_one w \<longleftrightarrow> \<not> f32_nan w \<and> \<not> (0x3F7FFFFE \<le> w \<and> w \<le> 0x3F800001)"

datatype sampler_stage =
    StagePenalties nat "32 word"
  | StageTopK "32 word"
  | StageTopP "32 word" nat
  | StageTemp "32 word"
  | StageGreedy
  | StageDist u32

definition build_sampler_chain :: "DeterminismKnobs \<Rightarrow> sampler_stage list" where
  "build_sampler_chain k =
     (case dk_repeat_penalty k of Some rp \<Rightarrow> if f32_off_one rp then [StagePenalties 64 rp] else [] | None \<Rightarrow> []) @
     (case dk_top_k k of Some n \<Rightarrow> if 0 < n then [StageTopK n] else [] | None \<Rightarrow> []) @
     (case dk_top_p k of Some p \<Rightarrow> if f32_lt_one p then [StageTopP p 1] else [] | None \<Rightarrow> []) @
     (let temp = (case dk_temperature k of Some t \<Rightarrow> t | None \<Rightarrow> 0) in
      if f32_le_zero temp then [StageGreedy]
      else [StageTemp temp, StageDist (case dk_seed k of Some s \<Rightarrow> s | None \<Rightarrow> 0)])"

section \<open>The generation loop\<close>

text \<open>\<open>ll_init\<close>: the backend is there already, or its initialisation failed for a reason.\<close>

datatype init_result = InitOk | InitAgain | InitFailed string

type_synonym token = "32 word"

record llama_lib =
  ll_init :: init_result
  ll_exists :: "string \<Rightarrow> bool"
  ll_load :: "string \<Rightarrow> string option"
  ll_new_context :: "u32 option \<Rightarrow> string option"
  ll_tokenize :: "string \<Rightarrow> string + token list"
  ll_batch_add :: "nat \<Rightarrow> string option"
  ll_decode :: "nat \<Rightarrow> string option"
  ll_sample :: "nat \<Rightarrow> token"
  ll_is_eog :: "token \<Rightarrow> bool"
  ll_piece :: "token \<Rightarrow> string + bytes"
  ll_utf8_error :: "bytes \<Rightarrow> string"
  ll_debug :: "string \<Rightarrow> string"
  ll_body :: "string \<Rightarrow> (string \<times> json option) option"
  ll_chat_template :: bool
  ll_chat_message :: "ChatMessage \<Rightarrow> string option"
  ll_tools_json :: "json \<Rightarrow> string + string"
  ll_apply :: "ChatMessage list \<Rightarrow> string option \<Rightarrow> string + string"

definition backend_init :: "llama_lib \<Rightarrow> LlamaError + unit" where
  "backend_init L =
     (case ll_init L of
        InitOk \<Rightarrow> Inr ()
      | InitAgain \<Rightarrow> Inl LlBackendAlreadyInitialized
      | InitFailed e \<Rightarrow> Inl (LlBackendInitFailed e))"

definition model_load :: "llama_lib \<Rightarrow> string \<Rightarrow> LlamaError + unit" where
  "model_load L path =
     (if \<not> ll_exists L path then Inl (LlModelFileUnreadable path ''path does not exist'')
      else case ll_load L path of
             Some e \<Rightarrow> Inl (LlModelLoadFailed path e)
           | None \<Rightarrow> Inr ())"

text \<open>The context keeps what was decoded: each token with its position. \<open>ls_adds\<close> and \<open>ls_decodes\<close> count
  the calls.\<close>

record llama_session =
  ls_max_tokens :: u32
  ls_sampler :: "sampler_stage list"
  ls_decoded :: "(token \<times> 32 word) list"
  ls_adds :: nat
  ls_decodes :: nat
  ls_samples :: nat

definition session_new :: "llama_lib \<Rightarrow> LlamaOptions \<Rightarrow> LlamaError + llama_session" where
  "session_new L opts =
     (if lo_max_tokens opts = 0 then Inl (LlInvalidConfig ''max_tokens must be > 0'')
      else case ll_new_context L (if lo_n_ctx opts = 0 then None else Some (lo_n_ctx opts)) of
             Some e \<Rightarrow> Inl (LlSessionInitFailed e)
           | None \<Rightarrow> Inr \<lparr> ls_max_tokens = lo_max_tokens opts,
               ls_sampler = build_sampler_chain (lo_determinism opts), ls_decoded = [],
               ls_adds = 0, ls_decodes = 0, ls_samples = 0 \<rparr>)"

text \<open>\<open>batch.add\<close> collects tokens with positions; \<open>decode\<close> takes the whole batch.\<close>

definition batch_add :: "llama_lib \<Rightarrow> string \<Rightarrow> (llama_session, LlamaError, unit) act" where
  "batch_add L label =
     bindA (getA ls_adds) (\<lambda>n.
     bindA (modA (\<lambda>s. s\<lparr> ls_adds := Suc n \<rparr>)) (\<lambda>_.
     case ll_batch_add L n of
       Some e \<Rightarrow> errA (LlInferenceFailed (label @ '': '' @ e))
     | None \<Rightarrow> okA ()))"

fun fill_batch :: "llama_lib \<Rightarrow> nat \<Rightarrow> token list \<Rightarrow> (llama_session, LlamaError, (token \<times> 32 word) list) act" where
  "fill_batch L i [] = okA []"
| "fill_batch L i (t # ts) =
     bindA (batch_add L ''batch.add'') (\<lambda>_.
     bindA (fill_batch L (Suc i) ts) (\<lambda>rest.
     okA ((t, of_nat i) # rest)))"

definition decode :: "llama_lib \<Rightarrow> string \<Rightarrow> (token \<times> 32 word) list \<Rightarrow> (llama_session, LlamaError, unit) act" where
  "decode L label batch =
     bindA (getA ls_decodes) (\<lambda>n.
     bindA (modA (\<lambda>s. s\<lparr> ls_decodes := Suc n \<rparr>)) (\<lambda>_.
     case ll_decode L n of
       Some e \<Rightarrow> errA (LlInferenceFailed (label @ '': '' @ e))
     | None \<Rightarrow> modA (\<lambda>s. s\<lparr> ls_decoded := ls_decoded s @ batch \<rparr>)))"

definition sample :: "llama_lib \<Rightarrow> (llama_session, LlamaError, token) act" where
  "sample L =
     bindA (getA ls_samples) (\<lambda>n.
     bindA (modA (\<lambda>s. s\<lparr> ls_samples := Suc n \<rparr>)) (\<lambda>_. okA (ll_sample L n)))"

text \<open>The number of rounds left bounds the loop; the accumulator is the output.\<close>

fun generate :: "llama_lib \<Rightarrow> nat \<Rightarrow> 32 word \<Rightarrow> string \<Rightarrow> (llama_session, LlamaError, string) act" where
  "generate L 0 cur_pos out = okA out"
| "generate L (Suc n) cur_pos out =
     bindA (sample L) (\<lambda>t.
     if ll_is_eog L t then okA out
     else
       bindA (liftA (case ll_piece L t of
           Inl e \<Rightarrow> Inl (LlInferenceFailed (''token_to_piece_bytes: '' @ e))
         | Inr bytes \<Rightarrow> if utf8_ok bytes then Inr bytes
             else Inl (LlInvalidUtf8 (''non-UTF8 token output at position '' @
               (if sint cur_pos < 0 then ''-'' @ show_nat (nat (- sint cur_pos)) else show_nat (nat (sint cur_pos))) @
               '': '' @ ll_utf8_error L bytes)))) (\<lambda>text.
       bindA (batch_add L ''batch.add (gen)'') (\<lambda>_.
       bindA (decode L ''decode (gen)'' [(t, cur_pos)]) (\<lambda>_.
       generate L n (cur_pos + 1) (out @ text)))))"

definition session_infer :: "llama_lib \<Rightarrow> string \<Rightarrow> (llama_session, LlamaError, string) act" where
  "session_infer L prompt =
     bindA (liftA (case ll_tokenize L prompt of
         Inl e \<Rightarrow> Inl (LlTokenizationFailed e)
       | Inr ts \<Rightarrow> if ts = [] then Inl (LlTokenizationFailed ''tokenizer returned 0 tokens for the prompt'')
           else Inr ts)) (\<lambda>ts.
     bindA (fill_batch L 0 ts) (\<lambda>batch.
     bindA (decode L ''decode'' batch) (\<lambda>_.
     bindA (getA ls_max_tokens) (\<lambda>m.
     generate L (unat m) (of_nat (length ts)) []))))"

section \<open>Tool calls in the output\<close>

definition OPEN :: string where
  "OPEN = ''<tool_call>''"

definition CLOSE :: string where
  "CLOSE = ''</tool_call>''"

text \<open>\<open>ll_body\<close> is the JSON reader of the block's body: the name, and the arguments if there are any.\<close>

definition outer_braces :: "string \<Rightarrow> string option" where
  "outer_braces t =
     (if prefix ''{{'' t \<and> suffix ''}}'' t \<and> 4 \<le> length t then Some (butlast (tl t)) else None)"

text \<open>The text up to the brace that closes the first one.\<close>

fun closed_object :: "32 word \<Rightarrow> string \<Rightarrow> string option" where
  "closed_object depth [] = None"
| "closed_object depth (c # cs) =
     (if c = CHR ''{'' then map_option ((#) c) (closed_object (depth + 1) cs)
      else if c = CHR ''}'' then
        (if depth - 1 = 0 then Some [c] else map_option ((#) c) (closed_object (depth - 1) cs))
      else map_option ((#) c) (closed_object depth cs))"

definition name_key :: string where
  "name_key = [CHR 0x22] @ ''name'' @ [CHR 0x22]"

definition object_with_name :: "string \<Rightarrow> string option" where
  "object_with_name t =
     (case split_on name_key t of
        None \<Rightarrow> None
      | Some (before, _) \<Rightarrow>
          (case rsplit_at (CHR ''{'') before of
             None \<Rightarrow> None
           | Some (pre, _) \<Rightarrow> closed_object 0 (drop (length pre) t)))"

definition parse_tool_call_body :: "llama_lib \<Rightarrow> string \<Rightarrow> (string \<times> json option) option" where
  "parse_tool_call_body L body =
     (let trimmed = trim body in
      case ll_body L trimmed of
        Some p \<Rightarrow> Some p
      | None \<Rightarrow>
          (case Option.bind (outer_braces trimmed) (\<lambda>inner. ll_body L (trim inner)) of
             Some p \<Rightarrow> Some p
           | None \<Rightarrow> Option.bind (object_with_name trimmed) (ll_body L)))"

definition tool_call_of :: "string \<times> json option \<Rightarrow> InferToolCall" where
  "tool_call_of p = \<lparr> tc_name = fst p, tc_arguments = (case snd p of Some v \<Rightarrow> v | None \<Rightarrow> JNull) \<rparr>"

lemma split_on_shorter: "split_on p s = Some (a, b) \<Longrightarrow> p \<noteq> [] \<Longrightarrow> length b < length s"
  by (frule split_on_append) (auto simp: neq_Nil_conv)

function parse_blocks :: "llama_lib \<Rightarrow> string \<Rightarrow> string \<times> InferToolCall list" where
  "parse_blocks L raw =
     (case split_on OPEN raw of
        None \<Rightarrow> (raw, [])
      | Some (before, rest) \<Rightarrow>
          (case split_on CLOSE rest of
             None \<Rightarrow> (before @ OPEN @ rest, [])
           | Some (body, after) \<Rightarrow>
               (let (reasoning, calls) = parse_blocks L after in
                case parse_tool_call_body L body of
                  Some p \<Rightarrow> (before @ reasoning, tool_call_of p # calls)
                | None \<Rightarrow> (before @ OPEN @ body @ CLOSE @ reasoning, calls))))"
  by pat_completeness auto
termination
  by (relation "measure (\<lambda>(L, raw). length raw)")
    (auto dest!: split_on_shorter simp: OPEN_def CLOSE_def)

declare parse_blocks.simps [simp del]

definition parse_response :: "llama_lib \<Rightarrow> string \<Rightarrow> InferResponse" where
  "parse_response L raw =
     (let (text, calls) = parse_blocks L raw; reasoning = trim text in
      \<lparr> ir_reasoning = reasoning, ir_tool_calls = calls,
        ir_assistant_text = (if reasoning = [] then None else Some reasoning), ir_tokens_used = None \<rparr>)"

section \<open>A turn\<close>

definition fallback_flat_prompt :: "InferRequest \<Rightarrow> string" where
  "fallback_flat_prompt req =
     concat (map (\<lambda>m. chat_role_as_str (cm_role m) @ '': '' @ cm_content m @ [CHR 0x0A]) (iq_messages req)) @
     ''assistant: ''"

definition tool_json :: "ToolDecl \<Rightarrow> json" where
  "tool_json t =
     jobj [(''type'', JString ''function''),
       (''function'', jobj [(''name'', JString (td_name t)), (''description'', JString (td_description t)),
          (''parameters'', td_arguments_schema t)])]"

definition backend_error :: "BackendErrorKind \<Rightarrow> string \<Rightarrow> BackendError" where
  "backend_error k d = \<lparr> be_kind = k, be_detail = d \<rparr>"

definition serialize_tools_llama :: "llama_lib \<Rightarrow> ToolDecl list \<Rightarrow> BackendError + string" where
  "serialize_tools_llama L tools =
     (case ll_tools_json L (JArray (map tool_json tools)) of
        Inl e \<Rightarrow> Inl (backend_error Tokenization (''serialize tool catalog: '' @ e))
      | Inr s \<Rightarrow> Inr s)"

fun first_error :: "('a \<Rightarrow> string option) \<Rightarrow> 'a list \<Rightarrow> string option" where
  "first_error f [] = None"
| "first_error f (x # xs) = (case f x of Some e \<Rightarrow> Some e | None \<Rightarrow> first_error f xs)"

definition apply_chat_template :: "llama_lib \<Rightarrow> InferRequest \<Rightarrow> BackendError + string" where
  "apply_chat_template L req =
     (case first_error (ll_chat_message L) (iq_messages req) of
        Some e \<Rightarrow> Inl (backend_error Tokenization (''chat message: '' @ e))
      | None \<Rightarrow>
          if iq_tools req = [] then
            (case ll_apply L (iq_messages req) None of
               Inl e \<Rightarrow> Inl (backend_error Tokenization (''apply_chat_template: '' @ e))
             | Inr prompt \<Rightarrow> Inr prompt)
          else andThen (serialize_tools_llama L (iq_tools req)) (\<lambda>tools.
            (case ll_apply L (iq_messages req) (Some tools) of
               Inl e \<Rightarrow> Inl (backend_error Tokenization (''apply_chat_template_with_tools_oaicompat: '' @ e))
             | Inr prompt \<Rightarrow> Inr prompt)))"

fun llama_error_display :: "llama_lib \<Rightarrow> LlamaError \<Rightarrow> string" where
  "llama_error_display L LlBackendAlreadyInitialized =
     ''llama.cpp backend already initialized in this process (only one Backend allowed)''"
| "llama_error_display L (LlBackendInitFailed e) = ''llama.cpp backend init failed: '' @ e"
| "llama_error_display L (LlModelFileUnreadable p d) = ''model file not found or unreadable: '' @ ll_debug L p @ '': '' @ d"
| "llama_error_display L (LlModelLoadFailed p d) = ''not a valid GGUF model: '' @ ll_debug L p @ '': '' @ d"
| "llama_error_display L (LlSessionInitFailed e) = ''session creation failed: '' @ e"
| "llama_error_display L (LlTokenizationFailed e) = ''tokenization failed: '' @ e"
| "llama_error_display L (LlInferenceFailed e) = ''inference decode failed: '' @ e"
| "llama_error_display L (LlInvalidUtf8 e) = ''detokenization produced invalid UTF-8: '' @ e"
| "llama_error_display L (LlInvalidConfig e) = ''invalid configuration: '' @ e"

fun llama_error_kind :: "LlamaError \<Rightarrow> BackendErrorKind" where
  "llama_error_kind LlBackendAlreadyInitialized = BackendAlreadyInitialized"
| "llama_error_kind (LlBackendInitFailed e) = BackendInitFailed"
| "llama_error_kind (LlModelFileUnreadable p d) = ModelFileUnreadable"
| "llama_error_kind (LlModelLoadFailed p d) = ModelLoadFailed"
| "llama_error_kind (LlSessionInitFailed e) = SessionInitFailed"
| "llama_error_kind (LlTokenizationFailed e) = Tokenization"
| "llama_error_kind (LlInferenceFailed e) = Inference"
| "llama_error_kind (LlInvalidUtf8 e) = InvalidUtf8"
| "llama_error_kind (LlInvalidConfig e) = InvalidConfig"

definition llama_map_err :: "llama_lib \<Rightarrow> LlamaError \<Rightarrow> BackendError" where
  "llama_map_err L e = backend_error (llama_error_kind e) (llama_error_display L e)"

text \<open>Each turn opens a session of its own, so that no state passes from one turn to the next.\<close>

definition llama_infer :: "llama_lib \<Rightarrow> LlamaOptions \<Rightarrow> InferRequest \<Rightarrow> BackendError + InferResponse" where
  "llama_infer L opts req =
     andThen (if ll_chat_template L then apply_chat_template L req else Inr (fallback_flat_prompt req)) (\<lambda>prompt.
     (case session_new L opts of
        Inl e \<Rightarrow> Inl (llama_map_err L e)
      | Inr s \<Rightarrow> (case session_infer L prompt s of
          (Inl e, _) \<Rightarrow> Inl (llama_map_err L e)
        | (Inr raw, _) \<Rightarrow> Inr (parse_response L raw))))"

section \<open>What the parser recovers\<close>

text \<open>An output as a sequence of blocks, each after some prose, and a tail: prose without a block, or with a
  block that is never closed.\<close>

definition render_block :: "string \<times> string \<Rightarrow> string" where
  "render_block x = fst x @ OPEN @ snd x @ CLOSE"

definition render_output :: "(string \<times> string) list \<Rightarrow> string \<Rightarrow> string" where
  "render_output xs t = concat (map render_block xs) @ t"

definition well_formed_output :: "(string \<times> string) list \<Rightarrow> string \<Rightarrow> bool" where
  "well_formed_output xs t \<longleftrightarrow>
     (\<forall>(prose, body) \<in> set xs. \<not> sublist OPEN prose \<and> \<not> sublist CLOSE body) \<and>
     (\<forall>prose rest. split_on OPEN t = Some (prose, rest) \<longrightarrow> \<not> sublist CLOSE rest)"

text \<open>What each block leaves in the text: nothing when its body is a call, itself when it is not.\<close>

definition block_text :: "llama_lib \<Rightarrow> string \<times> string \<Rightarrow> string" where
  "block_text L x = (if parse_tool_call_body L (snd x) = None then render_block x else fst x)"

definition block_calls :: "llama_lib \<Rightarrow> (string \<times> string) list \<Rightarrow> InferToolCall list" where
  "block_calls L xs = map tool_call_of (List.map_filter (\<lambda>x. parse_tool_call_body L (snd x)) xs)"

lemma split_on_first:
  assumes "\<not> sublist (c # q) a" and "c \<notin> set q"
  shows "split_on (c # q) (a @ (c # q) @ b) = Some (a, b)"
  using assms(1)
proof (induction a)
  case Nil
  then show ?case by simp
next
  case (Cons x a)
  have "\<not> prefix (c # q) (x # a @ (c # q) @ b)"
  proof
    assume p: "prefix (c # q) (x # a @ (c # q) @ b)"
    then have "x = c" and q: "prefix q (a @ (c # q) @ b)" by auto
    then consider "prefix q a" | r where "q = a @ r" "r \<noteq> []" "prefix r ((c # q) @ b)"
      by (metis append_Nil2 prefix_append prefix_order.order_refl)
    then show False
    proof cases
      case 1
      with \<open>x = c\<close> have "prefix (c # q) (x # a)" by simp
      with Cons.prems show False by (meson prefix_imp_sublist)
    next
      case 2
      then have "c \<in> set r" by (cases r) auto
      with 2(1) assms(2) show False by simp
    qed
  qed
  moreover have "\<not> sublist (c # q) a" using Cons.prems by (meson sublist_Cons_right)
  ultimately show ?case using Cons.IH by simp
qed

lemma open_first: "\<not> sublist OPEN a \<Longrightarrow> split_on OPEN (a @ OPEN @ b) = Some (a, b)"
  using split_on_first [of "CHR ''<''" "''tool_call>''" a b] by (simp add: OPEN_def)

lemma close_first: "\<not> sublist CLOSE a \<Longrightarrow> split_on CLOSE (a @ CLOSE @ b) = Some (a, b)"
  using split_on_first [of "CHR ''<''" "''/tool_call>''" a b] by (simp add: CLOSE_def)

lemma split_on_absent: "split_on p s = Some (a, b) \<Longrightarrow> p \<noteq> [] \<Longrightarrow> \<not> sublist p a"
proof (induction s arbitrary: a)
  case Nil
  then show ?case by simp
next
  case (Cons c s)
  show ?case
  proof (cases "prefix p (c # s)")
    case True
    with Cons.prems show ?thesis by (auto simp: sublist_Nil_right)
  next
    case False
    with Cons.prems obtain a' where a': "split_on p s = Some (a', b)" "a = c # a'" by auto
    have "s = a' @ p @ b" by (rule split_on_append [OF a'(1)])
    then have "\<not> prefix p (c # a')" using False by (metis append_Cons prefix_prefix)
    with Cons.IH [OF a'(1) Cons.prems(2)] a'(2) show ?thesis by (simp add: sublist_Cons_right)
  qed
qed

lemma parse_blocks_rendered:
  assumes "well_formed_output xs t"
  shows "parse_blocks L (render_output xs t) = (concat (map (block_text L) xs) @ t, block_calls L xs)"
  using assms
proof (induction xs)
  case Nil
  then have "\<forall>prose rest. split_on OPEN t = Some (prose, rest) \<longrightarrow> split_on CLOSE rest = None"
    by (simp add: well_formed_output_def split_on_None)
  then show ?case
    by (auto simp: parse_blocks.simps [of L t] render_output_def block_calls_def map_filter_simps
        split: option.splits dest: split_on_append)
next
  case (Cons x xs)
  obtain prose body where x: "x = (prose, body)" by fastforce
  have wf: "\<not> sublist OPEN prose" "\<not> sublist CLOSE body" "well_formed_output xs t"
    using Cons.prems x by (auto simp: well_formed_output_def)
  have r: "render_output (x # xs) t = prose @ OPEN @ (body @ CLOSE @ render_output xs t)"
    by (simp add: render_output_def render_block_def x)
  show ?case
    unfolding r
    by (subst parse_blocks.simps)
      (simp add: open_first [OF wf(1)] close_first [OF wf(2)] Cons.IH [OF wf(3)] x block_text_def [of L "(prose, body)"] block_calls_def
        render_block_def map_filter_simps split: option.splits)
qed

lemma output_decomposes: "\<exists>xs t. well_formed_output xs t \<and> raw = render_output xs t"
proof (induction "length raw" arbitrary: raw rule: less_induct)
  case less
  show ?case
  proof (cases "\<exists>prose rest body after. split_on OPEN raw = Some (prose, rest) \<and> split_on CLOSE rest = Some (body, after)")
    case False
    then have "well_formed_output [] raw"
      by (auto simp: well_formed_output_def) (metis option.exhaust prod.exhaust split_on_None)
    then show ?thesis by (intro exI [of _ "[]"] exI [of _ raw]) (simp add: render_output_def)
  next
    case True
    then obtain prose rest body after where s: "split_on OPEN raw = Some (prose, rest)"
      "split_on CLOSE rest = Some (body, after)" by blast
    then have "length after < length raw"
      using split_on_shorter [OF s(1)] split_on_shorter [OF s(2)] by (auto simp: OPEN_def CLOSE_def)
    then obtain xs t where xs: "well_formed_output xs t" "after = render_output xs t" using less by blast
    have "\<not> sublist OPEN prose" "\<not> sublist CLOSE body"
      using split_on_absent [OF s(1)] split_on_absent [OF s(2)] by (auto simp: OPEN_def CLOSE_def)
    with xs(1) have "well_formed_output ((prose, body) # xs) t" by (auto simp: well_formed_output_def)
    moreover have "raw = render_output ((prose, body) # xs) t"
      using split_on_append [OF s(1)] split_on_append [OF s(2)] xs(2) by (simp add: render_output_def render_block_def)
    ultimately show ?thesis by blast
  qed
qed

section \<open>How far generation goes\<close>

definition positions :: "nat \<Rightarrow> 32 word list" where
  "positions n = map of_nat [0..<n]"

lemma fill_batch_ok:
  assumes "fill_batch L i ts s = (Inr batch, s')"
  shows "map fst batch = ts \<and> map snd batch = map of_nat [i..<i + length ts] \<and>
    ls_decoded s' = ls_decoded s \<and> ls_samples s' = ls_samples s \<and> ls_max_tokens s' = ls_max_tokens s"
  using assms
proof (induction ts arbitrary: i s batch)
  case Nil
  then show ?case by (simp add: okA_def)
next
  case (Cons t ts)
  from Cons.prems obtain rest s1 where s1: "batch_add L ''batch.add'' s = (Inr (), s1)"
    and rest: "fill_batch L (Suc i) ts s1 = (Inr rest, s')" "batch = (t, of_nat i) # rest"
    by (auto simp: bindA_eq_ok okA_def)
  have "ls_decoded s1 = ls_decoded s \<and> ls_samples s1 = ls_samples s \<and> ls_max_tokens s1 = ls_max_tokens s"
    using s1 by (auto simp: batch_add_def bindA_getA bindA_modA errA_def okA_def split: option.splits)
  with Cons.IH [OF rest(1)] rest(2) show ?case by (simp add: upt_conv_Cons del: upt_Suc)
qed

lemma decode_ok:
  "decode L label batch s = (Inr (), s') \<Longrightarrow> ls_decoded s' = ls_decoded s @ batch \<and>
     ls_samples s' = ls_samples s \<and> ls_max_tokens s' = ls_max_tokens s"
  by (auto simp: decode_def bindA_getA bindA_modA errA_def modA_apply split: option.splits)

lemma batch_add_ok:
  "batch_add L label s = (Inr (), s') \<Longrightarrow> ls_decoded s' = ls_decoded s \<and>
     ls_samples s' = ls_samples s \<and> ls_max_tokens s' = ls_max_tokens s"
  by (auto simp: batch_add_def bindA_getA bindA_modA errA_def okA_def split: option.splits)

text \<open>The tokens generated are the samples before the first end-of-generation token; each was decoded at the
  next position, and the output is the concatenation of their texts.\<close>

lemma generate_ok:
  assumes "generate L n pos out s = (Inr result, s')"
  shows "\<exists>ts. length ts \<le> n \<and> (\<forall>t \<in> set ts. \<not> ll_is_eog L t) \<and>
    ts = map (ll_sample L) [ls_samples s..<ls_samples s + length ts] \<and>
    ls_decoded s' = ls_decoded s @ zip ts (map (\<lambda>i. pos + of_nat i) [0..<length ts]) \<and>
    (\<exists>texts. map (\<lambda>t. ll_piece L t) ts = map Inr texts \<and> (\<forall>x \<in> set texts. utf8_ok x) \<and> result = out @ concat texts) \<and>
    ls_samples s' = ls_samples s + length ts + (if length ts < n then 1 else 0) \<and>
    (length ts < n \<longrightarrow> ll_is_eog L (ll_sample L (ls_samples s + length ts)))"
  using assms
proof (induction L n pos out arbitrary: s rule: generate.induct)
  case (1 L pos out)
  then show ?case by (intro exI [of _ "[]"]) (simp add: okA_def)
next
  case (2 L n pos out)
  let ?t = "ll_sample L (ls_samples s)"
  let ?s1 = "s\<lparr> ls_samples := Suc (ls_samples s) \<rparr>"
  have smp: "sample L s = (Inr ?t, ?s1)" by (simp add: sample_def bindA_getA bindA_modA okA_def)
  show ?case
  proof (cases "ll_is_eog L ?t")
    case True
    with 2(2) have "result = out" "s' = ?s1" by (simp_all add: bindA_ok [where m = "sample L", OF smp] okA_def)
    with True show ?thesis by (intro exI [of _ "[]"]) simp
  next
    case False
    with 2(2) obtain piece s2 s3 where piece: "ll_piece L ?t = Inr piece" "utf8_ok piece"
      and s2: "batch_add L ''batch.add (gen)'' ?s1 = (Inr (), s2)"
      and s3: "decode L ''decode (gen)'' [(?t, pos)] s2 = (Inr (), s3)"
      and rest: "generate L n (pos + 1) (out @ piece) s3 = (Inr result, s')"
      by (auto simp: bindA_ok [where m = "sample L", OF smp] bindA_eq_ok liftA_def split: sum.splits if_splits)
    have s3': "ls_decoded s3 = ls_decoded s @ [(?t, pos)]" "ls_samples s3 = Suc (ls_samples s)"
      using batch_add_ok [OF s2] decode_ok [OF s3] by simp_all
    from "2.IH" [OF False rest] obtain ts texts where ts: "length ts \<le> n" "\<forall>t \<in> set ts. \<not> ll_is_eog L t"
      "ts = map (ll_sample L) [ls_samples s3..<ls_samples s3 + length ts]"
      "ls_decoded s' = ls_decoded s3 @ zip ts (map (\<lambda>i. pos + 1 + of_nat i) [0..<length ts])"
      "map (\<lambda>t. ll_piece L t) ts = map Inr texts" "\<forall>x \<in> set texts. utf8_ok x" "result = (out @ piece) @ concat texts"
      "ls_samples s' = ls_samples s3 + length ts + (if length ts < n then 1 else 0)"
      "length ts < n \<longrightarrow> ll_is_eog L (ll_sample L (ls_samples s3 + length ts))"
      by blast
    let ?us = "?t # ts"
    have "map (\<lambda>i. pos + of_nat i) [0..<length ?us] = pos # map (\<lambda>i. pos + 1 + of_nat i) [0..<length ts]"
      by (simp add: upt_conv_Cons map_Suc_upt [symmetric] o_def add.assoc del: upt_Suc)
    then have "ls_decoded s' = ls_decoded s @ zip ?us (map (\<lambda>i. pos + of_nat i) [0..<length ?us])"
      using ts(4) s3'(1) by simp
    moreover have "?us = map (ll_sample L) [ls_samples s..<ls_samples s + length ?us]"
      using ts(3) s3'(2) by (simp add: upt_conv_Cons del: upt_Suc)
    moreover have "\<exists>texts. map (\<lambda>t. ll_piece L t) ?us = map Inr texts \<and> (\<forall>x \<in> set texts. utf8_ok x) \<and>
        result = out @ concat texts"
      using ts(5,6,7) piece by (intro exI [of _ "piece # texts"]) simp
    moreover have "ls_samples s' = ls_samples s + length ?us + (if length ?us < Suc n then 1 else 0)"
      using ts(8) s3'(2) by simp
    moreover have "length ?us < Suc n \<longrightarrow> ll_is_eog L (ll_sample L (ls_samples s + length ?us))"
      using ts(9) s3'(2) by simp
    moreover have "length ?us \<le> Suc n" "\<forall>t \<in> set ?us. \<not> ll_is_eog L t"
      using ts(1,2) False by simp_all
    ultimately show ?thesis by - (rule exI [of _ ?us], intro conjI)
  qed
qed

section \<open>Properties\<close>

text \<open>C28: Generation is bounded and in order. A successful inference on a new session samples at most
  \<open>max_tokens\<close> times; the context has then decoded the tokens of the prompt and, at the positions right
  after them, the sampled tokens up to the first end-of-generation token or the limit, and nothing else;
  the output is the concatenation of the texts of those tokens, each of them valid UTF-8.\<close>

theorem generation_bounded:
  assumes new: "session_new L opts = Inr s" and run: "session_infer L prompt s = (Inr out, s')"
  shows "\<exists>ps ts texts. ll_tokenize L prompt = Inr ps \<and> ps \<noteq> [] \<and> length ts \<le> unat (lo_max_tokens opts) \<and>
     ts = map (ll_sample L) [0..<length ts] \<and> (\<forall>t \<in> set ts. \<not> ll_is_eog L t) \<and>
     (length ts < unat (lo_max_tokens opts) \<longrightarrow> ll_is_eog L (ll_sample L (length ts))) \<and>
     ls_samples s' \<le> unat (lo_max_tokens opts) \<and>
     ls_decoded s' = zip (ps @ ts) (positions (length ps + length ts)) \<and>
     map (ll_piece L) ts = map Inr texts \<and> (\<forall>x \<in> set texts. utf8_ok x) \<and> out = concat texts"
proof -
  let ?m = "unat (lo_max_tokens opts)"
  have s: "ls_decoded s = []" "ls_samples s = 0" "ls_max_tokens s = lo_max_tokens opts"
    using new by (auto simp: session_new_def split: if_splits option.splits)
  obtain ps batch s1 s2 where ps: "ll_tokenize L prompt = Inr ps" "ps \<noteq> []"
    and s1: "fill_batch L 0 ps s = (Inr batch, s1)" and s2: "decode L ''decode'' batch s1 = (Inr (), s2)"
    and gen: "generate L (unat (ls_max_tokens s2)) (of_nat (length ps)) [] s2 = (Inr out, s')"
    using run by (auto simp: session_infer_def bindA_eq_ok liftA_def getA_def split: sum.splits if_splits)
  have b: "batch = zip ps (positions (length ps))"
    using fill_batch_ok [OF s1] by (metis add_0 positions_def zip_map_fst_snd)
  have s2': "ls_decoded s2 = batch" "ls_samples s2 = 0" "ls_max_tokens s2 = lo_max_tokens opts"
    using fill_batch_ok [OF s1] decode_ok [OF s2] s by simp_all
  obtain ts texts where ts: "length ts \<le> ?m" "\<forall>t \<in> set ts. \<not> ll_is_eog L t"
    "ts = map (ll_sample L) [0..<length ts]"
    "ls_decoded s' = batch @ zip ts (map (\<lambda>i. of_nat (length ps) + of_nat i) [0..<length ts])"
    "map (ll_piece L) ts = map Inr texts" "\<forall>x \<in> set texts. utf8_ok x" "out = concat texts"
    "ls_samples s' = length ts + (if length ts < ?m then 1 else 0)"
    "length ts < ?m \<longrightarrow> ll_is_eog L (ll_sample L (length ts))"
    using generate_ok [OF gen] s2' by auto
  have "positions (length ps + length ts) =
      positions (length ps) @ map (\<lambda>i. of_nat (length ps) + of_nat i) [0..<length ts]"
  proof -
    have "[length ps..<length ps + length ts] = map (\<lambda>i. length ps + i) [0..<length ts]"
      using map_add_upt [of "length ps" "length ts"] by (simp add: add.commute)
    then show ?thesis by (simp add: positions_def upt_add_eq_append [of 0])
  qed
  moreover have "length ps = length (positions (length ps))" by (simp add: positions_def)
  ultimately have "ls_decoded s' = zip (ps @ ts) (positions (length ps + length ts))"
    using ts(4) b by (simp add: zip_append)
  moreover have "ls_samples s' \<le> ?m" using ts(1,8) by (simp split: if_splits)
  ultimately show ?thesis using ps ts(1,2,3,5-9)
    by - (rule exI [of _ ps], rule exI [of _ ts], rule exI [of _ texts], intro conjI)
qed

text \<open>A library whose samples are the letters a, b and the end, and whose text of a letter is the letter.\<close>

definition demo_llama :: llama_lib where
  "demo_llama = \<lparr> ll_init = InitOk, ll_exists = (\<lambda>_. True), ll_load = (\<lambda>_. None), ll_new_context = (\<lambda>_. None),
     ll_tokenize = (\<lambda>_. Inr [1]), ll_batch_add = (\<lambda>_. None), ll_decode = (\<lambda>_. None),
     ll_sample = (\<lambda>n. if n = 0 then 2 else 0), ll_is_eog = (\<lambda>t. t = 0), ll_piece = (\<lambda>_. Inr ''a''),
     ll_utf8_error = (\<lambda>_. []), ll_debug = (\<lambda>s. s),
     ll_body = (\<lambda>b. if b = ''{n}'' then Some (''n'', None) else None), ll_chat_template = False,
     ll_chat_message = (\<lambda>_. None), ll_tools_json = (\<lambda>_. Inr ''[]''), ll_apply = (\<lambda>_ _. Inr []) \<rparr>"

theorem generation_bounded_witness:
  "\<exists>s s'. session_new demo_llama (llama_options_default\<lparr> lo_max_tokens := 1 \<rparr>) = Inr s \<and>
     session_infer demo_llama ''p'' s = (Inr ''a'', s') \<and> ls_decoded s' = [(1, 0), (2, 1)] \<and> ls_samples s' \<le> 1"
proof -
  let ?opts = "llama_options_default\<lparr> lo_max_tokens := 1 \<rparr>"
  obtain s where s: "session_new demo_llama ?opts = Inr s"
    by (simp add: session_new_def demo_llama_def llama_options_default_def)
  obtain out s' where run: "session_infer demo_llama ''p'' s = (Inr out, s')" "ls_decoded s' = [(1, 0), (2, 1)]" "out = ''a''"
    using s by (auto simp: session_new_def session_infer_def demo_llama_def llama_options_default_def bindA_def liftA_def
        getA_def modA_def okA_def batch_add_def decode_def sample_def errA_def)
  from generation_bounded [OF s run(1)] have "ls_samples s' \<le> 1" by auto
  with s run show ?thesis by blast
qed

text \<open>C29: Tool-call blocks are parsed without loss. Every output of the model is a sequence of blocks with
  prose before each and a tail, and the parser gives, for any such sequence, the calls of exactly those
  blocks whose body it can read, in order, and as reasoning all of the remaining text, with the blocks it
  could not read left in place.\<close>

theorem blocks_parse_exactly:
  "(\<exists>xs t. well_formed_output xs t \<and> raw = render_output xs t) \<and>
   (\<forall>xs t. well_formed_output xs t \<longrightarrow>
      ir_tool_calls (parse_response L (render_output xs t)) = block_calls L xs \<and>
      ir_reasoning (parse_response L (render_output xs t)) = trim (concat (map (block_text L) xs) @ t))"
  using output_decomposes [of raw] by (simp add: parse_response_def parse_blocks_rendered Let_def)

theorem blocks_parse_exactly_witness:
  "ir_tool_calls (parse_response demo_llama ''hi<tool_call>{n}</tool_call>'') = [\<lparr> tc_name = ''n'', tc_arguments = JNull \<rparr>]"
proof -
  have "trim ''{n}'' = ''{n}''" by (rule trim_printable) simp
  then have p: "parse_tool_call_body demo_llama ''{n}'' = Some (''n'', None)"
    by (simp add: parse_tool_call_body_def demo_llama_def)
  have "\<not> sublist OPEN ''hi''" "\<not> sublist CLOSE ''{n}''"
    by (simp_all add: OPEN_def CLOSE_def sublist_code)
  then have "well_formed_output [(''hi'', ''{n}'')] []" by (simp add: well_formed_output_def OPEN_def)
  then have "ir_tool_calls (parse_response demo_llama (render_output [(''hi'', ''{n}'')] [])) =
      block_calls demo_llama [(''hi'', ''{n}'')]"
    using blocks_parse_exactly by blast
  then show ?thesis
    by (simp add: render_output_def render_block_def OPEN_def CLOSE_def block_calls_def map_filter_simps p tool_call_of_def)
qed

end
