(* ===== verification/LiteRt.thy ===== *)
theory LiteRt
  imports Llama
begin

text \<open>
  The LiteRT-LM backend: the FFI wrapper \<open>crates/litertlm-backend/src/lib.rs\<close> and the chat layer
  \<open>chat.rs\<close>. The C library is a parameter. The state keeps the handles it has given out and that have
  not been deleted, and counts the calls that were given a handle that is not one of them, so that leaks,
  double frees and uses after free can be stated. The guards of the Rust code, which delete a handle
  when they go out of scope, are the combinator \<open>with_guard\<close>.
\<close>

section \<open>Errors and options\<close>

datatype LiteRtError =
    LrModelFileUnreadable string string
  | LrEngineCreationFailed string
  | LrEngineSettingsAllocFailed
  | LrSessionConfigAllocFailed
  | LrSessionInitFailed
  | LrConversationConfigAllocFailed
  | LrConversationCreateFailed
  | LrConversationSendFailed
  | LrInferenceFailed
  | LrNoCandidates
  | LrInvalidUtf8 string
  | LrInteriorNul string
  | LrInvalidConfig string

record LiteRtOptions =
  ro_max_tokens :: u32
  ro_determinism :: DeterminismKnobs

definition litert_options_default :: LiteRtOptions where
  "litert_options_default = \<lparr> ro_max_tokens = 256, ro_determinism = knobs_default \<rparr>"

record sampler_params =
  sp_type :: nat
  sp_top_k :: "32 word"
  sp_top_p :: "32 word"
  sp_temperature :: "32 word"
  sp_seed :: "32 word"

definition build_sampler_params :: "DeterminismKnobs \<Rightarrow> sampler_params" where
  "build_sampler_params k =
     \<lparr> sp_type = 0, sp_top_k = (case dk_top_k k of Some n \<Rightarrow> n | None \<Rightarrow> 0),
       sp_top_p = (case dk_top_p k of Some p \<Rightarrow> p | None \<Rightarrow> 0x3F800000),
       sp_temperature = (case dk_temperature k of Some t \<Rightarrow> t | None \<Rightarrow> 0),
       sp_seed = (case dk_seed k of Some n \<Rightarrow> n | None \<Rightarrow> 0) \<rparr>"

definition max_tokens_i :: "u32 \<Rightarrow> 32 word" where
  "max_tokens_i n = (if n \<le> 0x7FFFFFFF then n else 0x7FFFFFFF)"

section \<open>Handles\<close>

datatype handle_kind =
    SettingsHandle | EngineHandle | SessionConfigHandle | SessionHandle
  | ConversationConfigHandle | ConversationHandle | ResponsesHandle | JsonResponseHandle

text \<open>What a conversation was opened with, and what the model sees of a message.\<close>

record conversation_args =
  ca_max_tokens :: "32 word"
  ca_sampler :: sampler_params
  ca_system :: "string option"
  ca_tools :: "string option"
  ca_messages :: "string option"
  ca_constrained :: bool

text \<open>\<open>lr_null\<close>: the \<open>t\<close>-th call gives the null pointer. \<open>lr_text\<close> is the text of a response, if there
  is one, of the prompt or of a conversation's message; \<open>lr_candidates\<close> the number of candidates.\<close>

record litert_lib =
  lr_exists :: "string \<Rightarrow> bool"
  lr_null :: "nat \<Rightarrow> bool"
  lr_nul_error :: "string \<Rightarrow> string"
  lr_utf8_error :: "bytes \<Rightarrow> string"
  lr_candidates :: "nat \<Rightarrow> int"
  lr_text :: "nat \<Rightarrow> string \<Rightarrow> bytes option"
  lr_reply :: "nat \<Rightarrow> conversation_args \<Rightarrow> string \<Rightarrow> string option \<Rightarrow> bytes option"
  lr_to_string :: "json \<Rightarrow> string + string"
  lr_json :: "json \<Rightarrow> string"
  lr_from_str :: "string \<Rightarrow> string + json"
  lr_debug :: "string \<Rightarrow> string"
  lr_show_f32 :: "32 word \<Rightarrow> string"

record ffi =
  ff_next :: nat
  ff_tick :: nat
  ff_live :: "(nat \<times> handle_kind) set"
  ff_faults :: nat

definition ffi_start :: ffi where
  "ffi_start = \<lparr> ff_next = 0, ff_tick = 0, ff_live = {}, ff_faults = 0 \<rparr>"

definition create_handle :: "litert_lib \<Rightarrow> handle_kind \<Rightarrow> 'e \<Rightarrow> (ffi, 'e, nat) act" where
  "create_handle L k err = (\<lambda>s.
     if lr_null L (ff_tick s) then (Inl err, s\<lparr> ff_tick := Suc (ff_tick s) \<rparr>)
     else (Inr (ff_next s), s\<lparr> ff_tick := Suc (ff_tick s), ff_next := Suc (ff_next s),
       ff_live := insert (ff_next s, k) (ff_live s) \<rparr>))"

definition use_handle :: "handle_kind \<Rightarrow> nat \<Rightarrow> (ffi, 'e, nat) act" where
  "use_handle k h = (\<lambda>s. (Inr (ff_tick s), s\<lparr> ff_tick := Suc (ff_tick s),
     ff_faults := ff_faults s + (if (h, k) \<in> ff_live s then 0 else 1) \<rparr>))"

definition delete_handle :: "handle_kind \<Rightarrow> nat \<Rightarrow> (ffi, 'e, unit) act" where
  "delete_handle k h = (\<lambda>s. (Inr (), s\<lparr> ff_live := ff_live s - {(h, k)},
     ff_faults := ff_faults s + (if (h, k) \<in> ff_live s then 0 else 1) \<rparr>))"

definition with_guard :: "handle_kind \<Rightarrow> nat \<Rightarrow> (ffi, 'e, 'a) act \<Rightarrow> (ffi, 'e, 'a) act" where
  "with_guard k h body =
     bindA (tryA body) (\<lambda>r. bindA (delete_handle k h) (\<lambda>_. liftA r))"

section \<open>The wrapper\<close>

definition cstring :: "litert_lib \<Rightarrow> string \<Rightarrow> string \<Rightarrow> LiteRtError + string" where
  "cstring L label s =
     (if CHR 0x00 \<in> set s then Inl (LrInteriorNul (label @ '' contains interior NUL: '' @ lr_nul_error L s))
      else Inr s)"

fun optional_cstring :: "litert_lib \<Rightarrow> string \<Rightarrow> string option \<Rightarrow> LiteRtError + string option" where
  "optional_cstring L label None = Inr None"
| "optional_cstring L label (Some s) = andThen (cstring L label s) (\<lambda>c. Inr (Some c))"

definition engine_load :: "litert_lib \<Rightarrow> string \<Rightarrow> (ffi, LiteRtError, nat) act" where
  "engine_load L path =
     (if \<not> lr_exists L path then errA (LrModelFileUnreadable path ''path does not exist'')
      else
        bindA (liftA (cstring L ''model path'' path)) (\<lambda>_.
        bindA (create_handle L SettingsHandle LrEngineSettingsAllocFailed) (\<lambda>settings.
        with_guard SettingsHandle settings
          (bindA (use_handle SettingsHandle settings) (\<lambda>_.
           create_handle L EngineHandle (LrEngineCreationFailed path))))))"

definition drop_engine :: "nat \<Rightarrow> (ffi, 'e, unit) act" where
  "drop_engine engine = delete_handle EngineHandle engine"

text \<open>The two setters of a session configuration.\<close>

definition configure :: "nat \<Rightarrow> (ffi, 'e, unit) act" where
  "configure config =
     bindA (use_handle SessionConfigHandle config) (\<lambda>_.
     bindA (use_handle SessionConfigHandle config) (\<lambda>_. okA ()))"

definition litert_session_new :: "litert_lib \<Rightarrow> nat \<Rightarrow> LiteRtOptions \<Rightarrow> (ffi, LiteRtError, nat) act" where
  "litert_session_new L engine opts =
     (if ro_max_tokens opts = 0 then errA (LrInvalidConfig ''max_tokens must be > 0'')
      else
        bindA (create_handle L SessionConfigHandle LrSessionConfigAllocFailed) (\<lambda>config.
        with_guard SessionConfigHandle config
          (bindA (configure config) (\<lambda>_.
           bindA (use_handle EngineHandle engine) (\<lambda>_.
           bindA (use_handle SessionConfigHandle config) (\<lambda>_.
           create_handle L SessionHandle LrSessionInitFailed))))))"

definition utf8_text :: "litert_lib \<Rightarrow> bytes \<Rightarrow> LiteRtError + string" where
  "utf8_text L b = (if utf8_ok b then Inr b else Inl (LrInvalidUtf8 (lr_utf8_error L b)))"

definition litert_session_infer :: "litert_lib \<Rightarrow> nat \<Rightarrow> string \<Rightarrow> (ffi, LiteRtError, string) act" where
  "litert_session_infer L session prompt =
     bindA (liftA (cstring L ''prompt'' prompt)) (\<lambda>p.
     bindA (use_handle SessionHandle session) (\<lambda>_.
     bindA (create_handle L ResponsesHandle LrInferenceFailed) (\<lambda>responses.
     with_guard ResponsesHandle responses
       (bindA (use_handle ResponsesHandle responses) (\<lambda>t.
        if lr_candidates L t \<le> 0 then errA LrNoCandidates
        else
          bindA (use_handle ResponsesHandle responses) (\<lambda>t2.
          case lr_text L t2 p of
            None \<Rightarrow> errA LrNoCandidates
          | Some b \<Rightarrow> liftA (utf8_text L b)))))))"

definition conversation_open :: "litert_lib \<Rightarrow> nat \<Rightarrow> LiteRtOptions \<Rightarrow> string option \<Rightarrow> string option
    \<Rightarrow> string option \<Rightarrow> bool \<Rightarrow> (ffi, LiteRtError, nat) act" where
  "conversation_open L engine opts system tools messages constrained =
     (if ro_max_tokens opts = 0 then errA (LrInvalidConfig ''max_tokens must be > 0'')
      else
        bindA (create_handle L SessionConfigHandle LrSessionConfigAllocFailed) (\<lambda>config.
        with_guard SessionConfigHandle config
          (bindA (configure config) (\<lambda>_.
           bindA (liftA (optional_cstring L ''system_message'' system)) (\<lambda>_.
           bindA (liftA (optional_cstring L ''tools_json'' tools)) (\<lambda>_.
           bindA (liftA (optional_cstring L ''messages_json'' messages)) (\<lambda>_.
           bindA (use_handle EngineHandle engine) (\<lambda>_.
           bindA (use_handle SessionConfigHandle config) (\<lambda>_.
           bindA (create_handle L ConversationConfigHandle LrConversationConfigAllocFailed) (\<lambda>conv_config.
           with_guard ConversationConfigHandle conv_config
             (bindA (use_handle EngineHandle engine) (\<lambda>_.
              bindA (use_handle ConversationConfigHandle conv_config) (\<lambda>_.
              create_handle L ConversationHandle LrConversationCreateFailed)))))))))))))"

definition conversation_args :: "LiteRtOptions \<Rightarrow> string option \<Rightarrow> string option \<Rightarrow> string option \<Rightarrow> bool
    \<Rightarrow> conversation_args" where
  "conversation_args opts system tools messages constrained =
     \<lparr> ca_max_tokens = max_tokens_i (ro_max_tokens opts), ca_sampler = build_sampler_params (ro_determinism opts),
       ca_system = system, ca_tools = tools, ca_messages = messages, ca_constrained = constrained \<rparr>"

definition send_message :: "litert_lib \<Rightarrow> nat \<Rightarrow> string \<Rightarrow> string option \<Rightarrow> (ffi, LiteRtError, nat) act" where
  "send_message L conv message extra =
     bindA (liftA (cstring L ''message_json'' message)) (\<lambda>_.
     bindA (liftA (optional_cstring L ''extra_context_json'' extra)) (\<lambda>_.
     bindA (use_handle ConversationHandle conv) (\<lambda>_.
     create_handle L JsonResponseHandle LrConversationSendFailed)))"

definition response_as_str :: "litert_lib \<Rightarrow> nat \<Rightarrow> conversation_args \<Rightarrow> string \<Rightarrow> string option
    \<Rightarrow> (ffi, LiteRtError, string) act" where
  "response_as_str L response args message extra =
     bindA (use_handle JsonResponseHandle response) (\<lambda>t.
     case lr_reply L t args message extra of
       None \<Rightarrow> errA LrConversationSendFailed
     | Some b \<Rightarrow> liftA (utf8_text L b))"


section \<open>The chat layer\<close>

definition is_user :: "ChatMessage \<Rightarrow> bool" where
  "is_user m \<longleftrightarrow> cm_role m = RoleUser"

text \<open>The system prompt, the history, and the latest user message. \<open>rposition\<close> is the last index of a
  user message.\<close>

definition split_messages :: "InferRequest \<Rightarrow> BackendError + string option \<times> ChatMessage list \<times> string" where
  "split_messages req =
     (let (system, body) =
        (case iq_messages req of
           m # ms \<Rightarrow> if cm_role m = RoleSystem then (Some (cm_content m), ms) else (None, m # ms)
         | [] \<Rightarrow> (None, [])) in
      case dropWhile (\<lambda>m. \<not> is_user m) (rev body) of
        [] \<Rightarrow> Inl (backend_error InvalidConfig
          (''InferRequest has no user message '' @ map char_of [226, 128, 148 :: nat] @
           '' Conversation API needs at least one to send''))
      | u # earlier \<Rightarrow> Inr (system, rev earlier, cm_content u))"

definition message_json :: "ChatMessage \<Rightarrow> json" where
  "message_json m = jobj [(''role'', JString (chat_role_as_str (cm_role m))), (''content'', JString (cm_content m))]"

definition serialize_history :: "litert_lib \<Rightarrow> ChatMessage list \<Rightarrow> BackendError + string option" where
  "serialize_history L history =
     (if history = [] then Inr None
      else case lr_to_string L (JArray (map message_json history)) of
             Inl e \<Rightarrow> Inl (backend_error Tokenization (''serialize message history: '' @ e))
           | Inr s \<Rightarrow> Inr (Some s))"

definition serialize_tools :: "litert_lib \<Rightarrow> ToolDecl list \<Rightarrow> BackendError + string" where
  "serialize_tools L tools =
     (case lr_to_string L (JArray (map tool_json tools)) of
        Inl e \<Rightarrow> Inl (backend_error Tokenization (''serialize tool catalog: '' @ e))
      | Inr s \<Rightarrow> Inr s)"

definition gemma_quote :: string where
  "gemma_quote = ''<|'' @ [CHR 0x22] @ ''|>''"

primrec strip_gemma_quote_tokens :: "json \<Rightarrow> json" where
  "strip_gemma_quote_tokens JNull = JNull"
| "strip_gemma_quote_tokens (JBool b) = JBool b"
| "strip_gemma_quote_tokens (JU64 n) = JU64 n"
| "strip_gemma_quote_tokens (JI64 n) = JI64 n"
| "strip_gemma_quote_tokens (JFloat n) = JFloat n"
| "strip_gemma_quote_tokens (JString s) = JString (replace_all gemma_quote [] (replace_all gemma_quote [] s))"
| "strip_gemma_quote_tokens (JArray vs) = JArray (map strip_gemma_quote_tokens vs)"
| "strip_gemma_quote_tokens (JObject m) = JObject (fmmap strip_gemma_quote_tokens m)"

definition inference_error :: "string \<Rightarrow> BackendError" where
  "inference_error d = backend_error Inference d"

text \<open>The name and the raw arguments of a call, nested under \<open>function\<close> or flat.\<close>

definition call_name_args :: "litert_lib \<Rightarrow> json \<Rightarrow> BackendError + string \<times> json" where
  "call_name_args L call =
     (let (holder, what) = (case jget call ''function'' of
          Some func \<Rightarrow> (func, ''tool_call.function missing `name`: '')
        | None \<Rightarrow> (call, ''tool_call missing `name`: '')) in
      case Option.bind (jget holder ''name'') as_str of
        None \<Rightarrow> Inl (inference_error (what @ lr_json L call))
      | Some n \<Rightarrow> Inr (n, case jget holder ''arguments'' of Some a \<Rightarrow> a | None \<Rightarrow> JNull))"

definition call_arguments :: "litert_lib \<Rightarrow> json \<Rightarrow> BackendError + json" where
  "call_arguments L v =
     (case v of
        JString s \<Rightarrow>
          if s = [] then Inr (JObject fmempty)
          else (case lr_from_str L s of
                  Inl e \<Rightarrow> Inl (inference_error
                    (''tool_call arguments is not valid JSON: '' @ e @ ''; raw='' @ lr_debug L s))
                | Inr a \<Rightarrow> Inr a)
      | other \<Rightarrow> Inr other)"

definition parse_call :: "litert_lib \<Rightarrow> json \<Rightarrow> BackendError + InferToolCall" where
  "parse_call L call =
     andThen (call_name_args L call) (\<lambda>(n, raw).
     andThen (call_arguments L raw) (\<lambda>a.
     Inr \<lparr> tc_name = n, tc_arguments = strip_gemma_quote_tokens a \<rparr>))"

fun parse_calls :: "litert_lib \<Rightarrow> json list \<Rightarrow> BackendError + InferToolCall list" where
  "parse_calls L [] = Inr []"
| "parse_calls L (c # cs) =
     andThen (parse_call L c) (\<lambda>x. andThen (parse_calls L cs) (\<lambda>xs. Inr (x # xs)))"

definition parse_conversation_response :: "litert_lib \<Rightarrow> string \<Rightarrow> BackendError + InferResponse" where
  "parse_conversation_response L raw =
     (case lr_from_str L raw of
        Inl e \<Rightarrow> Inl (inference_error
          (''conversation response is not valid JSON: '' @ e @ ''; raw='' @ lr_debug L raw))
      | Inr v \<Rightarrow>
          (let content = (case Option.bind (jget v ''content'') as_str of Some s \<Rightarrow> trim s | None \<Rightarrow> []) in
           andThen (case Option.bind (jget v ''tool_calls'') as_array of
               Some calls \<Rightarrow> parse_calls L calls
             | None \<Rightarrow> Inr []) (\<lambda>calls.
           Inr \<lparr> ir_reasoning = content, ir_tool_calls = calls,
             ir_assistant_text = (if content = [] then None else Some content), ir_tokens_used = None \<rparr>)))"

definition check_phase1_determinism :: "litert_lib \<Rightarrow> LiteRtOptions \<Rightarrow> BackendError + unit" where
  "check_phase1_determinism L opts =
     (let temp = (case dk_temperature (ro_determinism opts) of Some t \<Rightarrow> t | None \<Rightarrow> 0) in
      if f32_gt_zero temp then Inl (backend_error InvalidConfig
        (''litertlm backend Phase 1 (per ADR-023) requires temperature=0.0; got temperature='' @ lr_show_f32 L temp @
         ''. Note: the CPU sampler is upstream-UNIMPLEMENTED in v0.10.2 (LiteRT-LM #2080), so the actual byte-determinism guarantee depends on that fix landing '' @
         map char_of [226, 128, 148 :: nat] @
         '' but the gate here keeps manifest declaration consistent across backends. Set inference.determinism.temperature: 0.0 in the manifest.''))
      else Inr ())"

fun litert_error_display :: "litert_lib \<Rightarrow> LiteRtError \<Rightarrow> string" where
  "litert_error_display L (LrModelFileUnreadable p d) = ''model file not found or unreadable: '' @ lr_debug L p @ '': '' @ d"
| "litert_error_display L (LrEngineCreationFailed p) =
     ''LiteRT-LM engine creation failed for '' @ lr_debug L p @ '' (set min_log_level=0 for upstream logs)''"
| "litert_error_display L LrEngineSettingsAllocFailed = ''LiteRT-LM engine settings allocation failed (likely OOM)''"
| "litert_error_display L LrSessionConfigAllocFailed = ''LiteRT-LM session config allocation failed (likely OOM)''"
| "litert_error_display L LrSessionInitFailed = ''LiteRT-LM session creation failed (set min_log_level=0 for upstream logs)''"
| "litert_error_display L LrConversationConfigAllocFailed =
     ''LiteRT-LM conversation config allocation failed (likely OOM)''"
| "litert_error_display L LrConversationCreateFailed =
     ''LiteRT-LM conversation creation failed (set AEGIS_LITERTLM_DEBUG=1 for upstream logs)''"
| "litert_error_display L LrConversationSendFailed =
     ''LiteRT-LM conversation send_message failed (set AEGIS_LITERTLM_DEBUG=1 for upstream logs)''"
| "litert_error_display L LrInferenceFailed = ''LiteRT-LM generate_content failed (set min_log_level=0 for upstream logs)''"
| "litert_error_display L LrNoCandidates = ''LiteRT-LM returned 0 candidates for the prompt''"
| "litert_error_display L (LrInvalidUtf8 e) = ''LiteRT-LM response contained invalid UTF-8: '' @ e"
| "litert_error_display L (LrInteriorNul e) = ''input contains interior NUL byte: '' @ e"
| "litert_error_display L (LrInvalidConfig e) = ''invalid configuration: '' @ e"

fun litert_map_err :: "litert_lib \<Rightarrow> LiteRtError \<Rightarrow> BackendError" where
  "litert_map_err L (LrModelFileUnreadable p d) = backend_error ModelFileUnreadable d"
| "litert_map_err L (LrEngineCreationFailed p) = backend_error ModelLoadFailed (litert_error_display L (LrEngineCreationFailed p))"
| "litert_map_err L LrEngineSettingsAllocFailed = backend_error SessionInitFailed (litert_error_display L LrEngineSettingsAllocFailed)"
| "litert_map_err L LrSessionConfigAllocFailed = backend_error SessionInitFailed (litert_error_display L LrSessionConfigAllocFailed)"
| "litert_map_err L LrConversationConfigAllocFailed = backend_error SessionInitFailed (litert_error_display L LrConversationConfigAllocFailed)"
| "litert_map_err L LrSessionInitFailed = backend_error SessionInitFailed (litert_error_display L LrSessionInitFailed)"
| "litert_map_err L LrConversationCreateFailed = backend_error SessionInitFailed (litert_error_display L LrConversationCreateFailed)"
| "litert_map_err L LrInferenceFailed = backend_error Inference (litert_error_display L LrInferenceFailed)"
| "litert_map_err L LrNoCandidates = backend_error Inference (litert_error_display L LrNoCandidates)"
| "litert_map_err L LrConversationSendFailed = backend_error Inference (litert_error_display L LrConversationSendFailed)"
| "litert_map_err L (LrInvalidUtf8 e) = backend_error InvalidUtf8 (litert_error_display L (LrInvalidUtf8 e))"
| "litert_map_err L (LrInteriorNul e) = backend_error InvalidConfig (litert_error_display L (LrInteriorNul e))"
| "litert_map_err L (LrInvalidConfig e) = backend_error InvalidConfig e"

definition litert_backend_load :: "litert_lib \<Rightarrow> LiteRtOptions \<Rightarrow> string \<Rightarrow> (ffi, BackendError, nat) act" where
  "litert_backend_load L opts path =
     bindA (liftA (check_phase1_determinism L opts)) (\<lambda>_.
     mapErrA (litert_map_err L) (engine_load L path))"

definition user_message :: "litert_lib \<Rightarrow> string \<Rightarrow> string" where
  "user_message L content = lr_json L (jobj [(''role'', JString ''user''), (''content'', JString content)])"

definition litert_infer :: "litert_lib \<Rightarrow> LiteRtOptions \<Rightarrow> nat \<Rightarrow> InferRequest \<Rightarrow> (ffi, BackendError, InferResponse) act" where
  "litert_infer L opts engine req =
     bindA (liftA (split_messages req)) (\<lambda>(system, history, latest).
     bindA (liftA (serialize_history L history)) (\<lambda>messages.
     bindA (liftA (if iq_tools req = [] then Inr None
       else andThen (serialize_tools L (iq_tools req)) (\<lambda>t. Inr (Some t)))) (\<lambda>tools.
     bindA (mapErrA (litert_map_err L) (conversation_open L engine opts system tools messages False)) (\<lambda>conv.
     with_guard ConversationHandle conv
       (bindA (mapErrA (litert_map_err L) (send_message L conv (user_message L latest) None)) (\<lambda>response.
        with_guard JsonResponseHandle response
          (bindA (mapErrA (litert_map_err L) (response_as_str L response
             (conversation_args opts system tools messages False) (user_message L latest) None)) (\<lambda>raw.
           liftA (parse_conversation_response L raw)))))))))"

end
