(* ===== verification/LiteRtSafety.thy ===== *)
theory LiteRtSafety
  imports LiteRt Turn
begin

text \<open>
  What the LiteRT-LM backend promises: every handle it opens is deleted exactly once and none is used
  after it was deleted, whichever call fails; and what its conversation layer sends of a message list.

  The handle discipline is two predicates on actions with a set \<open>H\<close> of handles they may use:
  \<open>keeps_handles H m\<close> leaves the open handles as they were, \<open>opens_handle k H m\<close> leaves one fresh handle of kind \<open>k\<close>
  when it succeeds. Each combinator has a rule, so an operation is proved by following its text.
\<close>

named_theorems handle_rules \<open>how the action combinators treat open handles\<close>

section \<open>The handle discipline\<close>

definition fresh_above :: "ffi \<Rightarrow> bool" where
  "fresh_above s \<longleftrightarrow> (\<forall>(h, k) \<in> ff_live s. h < ff_next s)"

definition undisturbed :: "ffi \<Rightarrow> ffi \<Rightarrow> bool" where
  "undisturbed s s' \<longleftrightarrow> ff_live s' = ff_live s \<and> ff_faults s' = ff_faults s \<and> fresh_above s' \<and> ff_next s \<le> ff_next s'"

definition keeps_handles :: "(nat \<times> handle_kind) set \<Rightarrow> (ffi, 'e, 'a) act \<Rightarrow> bool" where
  "keeps_handles H m \<longleftrightarrow> (\<forall>s. H \<subseteq> ff_live s \<longrightarrow> fresh_above s \<longrightarrow> undisturbed s (snd (m s)))"

definition opened :: "handle_kind \<Rightarrow> nat \<Rightarrow> ffi \<Rightarrow> ffi \<Rightarrow> bool" where
  "opened k h s s' \<longleftrightarrow> ff_live s' = insert (h, k) (ff_live s) \<and> ff_faults s' = ff_faults s \<and> fresh_above s'
     \<and> ff_next s \<le> h \<and> h < ff_next s'"

definition opens_handle :: "handle_kind \<Rightarrow> (nat \<times> handle_kind) set \<Rightarrow> (ffi, 'e, nat) act \<Rightarrow> bool" where
  "opens_handle k H m \<longleftrightarrow> (\<forall>s. H \<subseteq> ff_live s \<longrightarrow> fresh_above s \<longrightarrow>
     (case m s of (Inl e, s') \<Rightarrow> undisturbed s s' | (Inr h, s') \<Rightarrow> opened k h s s'))"

lemma keepsI:
  assumes "\<And>s r s'. H \<subseteq> ff_live s \<Longrightarrow> fresh_above s \<Longrightarrow> m s = (r, s') \<Longrightarrow> undisturbed s s'"
  shows "keeps_handles H m"
  unfolding keeps_handles_def by (metis assms surjective_pairing)

lemma keepsD: "keeps_handles H m \<Longrightarrow> H \<subseteq> ff_live s \<Longrightarrow> fresh_above s \<Longrightarrow> m s = (r, s') \<Longrightarrow> undisturbed s s'"
  by (fastforce simp: keeps_handles_def)

lemma opensI:
  assumes "\<And>s e s'. H \<subseteq> ff_live s \<Longrightarrow> fresh_above s \<Longrightarrow> m s = (Inl e, s') \<Longrightarrow> undisturbed s s'"
    and "\<And>s h s'. H \<subseteq> ff_live s \<Longrightarrow> fresh_above s \<Longrightarrow> m s = (Inr h, s') \<Longrightarrow> opened k h s s'"
  shows "opens_handle k H m"
  unfolding opens_handle_def using assms by (auto split: prod.split sum.split)

lemma opensD1: "opens_handle k H m \<Longrightarrow> H \<subseteq> ff_live s \<Longrightarrow> fresh_above s \<Longrightarrow> m s = (Inl e, s') \<Longrightarrow> undisturbed s s'"
  by (fastforce simp: opens_handle_def)

lemma opensD2: "opens_handle k H m \<Longrightarrow> H \<subseteq> ff_live s \<Longrightarrow> fresh_above s \<Longrightarrow> m s = (Inr h, s') \<Longrightarrow> opened k h s s'"
  by (fastforce simp: opens_handle_def)

lemma undisturbed_trans: "undisturbed s t \<Longrightarrow> undisturbed t u \<Longrightarrow> undisturbed s u"
  by (auto simp: undisturbed_def)

lemma undisturbed_opened: "undisturbed s t \<Longrightarrow> opened k h t u \<Longrightarrow> opened k h s u"
  by (auto simp: undisturbed_def opened_def)

lemma keeps_pure [handle_rules]:
  "keeps_handles H (okA x)" "keeps_handles H (errA e)" "keeps_handles H (liftA r)"
  by (auto simp: keeps_handles_def undisturbed_def act_simps)

lemma keeps_use [handle_rules]: "(h, k) \<in> H \<Longrightarrow> keeps_handles H (use_handle k h)"
  by (auto simp: keeps_handles_def use_handle_def undisturbed_def fresh_above_def)

lemma keeps_bind [handle_rules]:
  assumes "keeps_handles H m" and "\<And>x. keeps_handles H (f x)"
  shows "keeps_handles H (bindA m f)"
proof (rule keepsI)
  fix s r s' assume H: "H \<subseteq> ff_live s" and fr: "fresh_above s" and run: "bindA m f s = (r, s')"
  obtain r1 s1 where m: "m s = (r1, s1)" by fastforce
  have 1: "undisturbed s s1" by (rule keepsD [OF assms(1) H fr m])
  show "undisturbed s s'"
  proof (cases r1)
    case (Inl e) then show ?thesis using 1 m run by (simp add: act_simps)
  next
    case (Inr x)
    then have "f x s1 = (r, s')" using m run by (simp add: act_simps)
    moreover have "H \<subseteq> ff_live s1" "fresh_above s1" using 1 H by (auto simp: undisturbed_def)
    ultimately show ?thesis using 1 keepsD [OF assms(2)] undisturbed_trans by blast
  qed
qed

lemma keeps_mapErr [handle_rules]: "keeps_handles H m \<Longrightarrow> keeps_handles H (mapErrA g m)"
  by (auto simp: keeps_handles_def mapErrA_def split: prod.split sum.split)

lemma opens_create [handle_rules]: "opens_handle k H (create_handle L k e)"
  by (rule opensI) (auto simp: create_handle_def undisturbed_def opened_def fresh_above_def split: if_splits)

lemma opens_err [handle_rules]: "opens_handle k H (errA e)"
  by (rule opensI) (auto simp: act_simps undisturbed_def)

lemma opens_mapErr [handle_rules]: "opens_handle k H m \<Longrightarrow> opens_handle k H (mapErrA g m)"
  by (rule opensI) (auto simp: act_results dest: opensD1 opensD2)

lemma opens_bind [handle_rules]:
  assumes "keeps_handles H m" and "\<And>x. opens_handle k H (f x)"
  shows "opens_handle k H (bindA m f)"
proof -
  have step: "H \<subseteq> ff_live s1" "fresh_above s1" "undisturbed s s1"
    if "H \<subseteq> ff_live s" "fresh_above s" "m s = (r, s1)" for s r s1
    using keepsD [OF assms(1) that] that(1) by (auto simp: undisturbed_def)
  show ?thesis
  proof (rule opensI)
    fix s e s' assume a: "H \<subseteq> ff_live s" "fresh_above s" and "bindA m f s = (Inl e, s')"
    then show "undisturbed s s'"
      unfolding bindA_eq_err by (blast dest: step [OF a] opensD1 [OF assms(2)] intro: undisturbed_trans)
  next
    fix s h s' assume a: "H \<subseteq> ff_live s" "fresh_above s" and "bindA m f s = (Inr h, s')"
    then obtain x s1 where 1: "m s = (Inr x, s1)" and 2: "f x s1 = (Inr h, s')" unfolding bindA_eq_ok by blast
    show "opened k h s s'"
      by (rule undisturbed_opened [OF step(3) [OF a 1] opensD2 [OF assms(2) step(1,2) [OF a 1] 2]])
  qed
qed

text \<open>A guarded handle is gone when its scope ends, on every exit.\<close>

lemma guard_run: "with_guard k h body s = (fst (body s), snd ((delete_handle k h :: (ffi, unit, unit) act) (snd (body s))))"
  by (simp add: with_guard_def act_simps) (simp add: bindA_def delete_handle_def liftA_def)

lemma delete_opened:
  assumes "opened k h s s1" and "undisturbed s1 s2" and "fresh_above s"
  shows "undisturbed s (snd (delete_handle k h s2))"
proof -
  have "(h, k) \<notin> ff_live s" using assms(1,3) by (auto simp: opened_def fresh_above_def)
  then show ?thesis using assms by (auto simp: undisturbed_def opened_def delete_handle_def fresh_above_def)
qed

lemma delete_opened2:
  assumes "opened k h s s1" and "opened k2 h2 s1 s2" and "fresh_above s"
  shows "opened k2 h2 s (snd (delete_handle k h s2))"
proof -
  have "(h, k) \<notin> ff_live s" "h \<noteq> h2" using assms by (auto simp: opened_def fresh_above_def)
  then show ?thesis using assms by (auto simp: opened_def delete_handle_def fresh_above_def)
qed

lemma opened_within: "opened k h s s1 \<Longrightarrow> H \<subseteq> ff_live s \<Longrightarrow> insert (h, k) H \<subseteq> ff_live s1 \<and> fresh_above s1"
  by (auto simp: opened_def)

lemma keeps_guarded [handle_rules]:
  assumes m: "opens_handle k H m" and f: "\<And>h. keeps_handles (insert (h, k) H) (f h)"
  shows "keeps_handles H (bindA m (\<lambda>h. with_guard k h (f h)))"
proof (rule keepsI)
  fix s r s' assume H: "H \<subseteq> ff_live s" and fr: "fresh_above s" and run: "bindA m (\<lambda>h. with_guard k h (f h)) s = (r, s')"
  obtain r1 s1 where ms: "m s = (r1, s1)" by fastforce
  show "undisturbed s s'"
  proof (cases r1)
    case (Inl e) then show ?thesis using ms run opensD1 [OF m H fr] by (simp add: act_simps)
  next
    case (Inr h)
    then have 1: "opened k h s s1" using ms opensD2 [OF m H fr] by simp
    obtain r2 s2 where fs: "f h s1 = (r2, s2)" by fastforce
    have 2: "undisturbed s1 s2" using keepsD [OF f _ _ fs] opened_within [OF 1 H] by blast
    have "s' = snd ((delete_handle k h :: (ffi, unit, unit) act) s2)" using run ms Inr fs by (simp add: act_simps guard_run)
    then show ?thesis using delete_opened [OF 1 2 fr] by simp
  qed
qed

lemma opens_guarded [handle_rules]:
  assumes m: "opens_handle k H m" and f: "\<And>h. opens_handle k2 (insert (h, k) H) (f h)"
  shows "opens_handle k2 H (bindA m (\<lambda>h. with_guard k h (f h)))"
proof -
  have scope: "(\<exists>e. r = Inl e \<and> undisturbed s s') \<or> (\<exists>g. r = Inr g \<and> opened k2 g s s')"
    if H: "H \<subseteq> ff_live s" and fr: "fresh_above s" and run: "bindA m (\<lambda>h. with_guard k h (f h)) s = (r, s')" for s r s'
  proof (cases "m s")
    case (Pair r1 s1)
    show ?thesis
    proof (cases r1)
      case (Inl e) then show ?thesis using Pair run opensD1 [OF m H fr] by (auto simp: act_simps)
    next
      case (Inr h)
      then have 1: "opened k h s s1" using Pair opensD2 [OF m H fr] by simp
      note in_scope = conjunct1 [OF opened_within [OF 1 H]] conjunct2 [OF opened_within [OF 1 H]]
      obtain r2 s2 where fs: "f h s1 = (r2, s2)" by fastforce
      have out: "r = r2" "s' = snd ((delete_handle k h :: (ffi, unit, unit) act) s2)"
        using run Pair Inr fs by (simp_all add: act_simps guard_run)
      show ?thesis
        using fs out opensD1 [OF f in_scope, of _ s2] opensD2 [OF f in_scope, of _ s2]
          delete_opened [OF 1 _ fr] delete_opened2 [OF 1 _ fr]
        by (cases r2) auto
    qed
  qed
  show ?thesis by (rule opensI) (use scope in blast)+
qed

section \<open>The operations keep it\<close>

lemma configure_keeps [handle_rules]: "(c, SessionConfigHandle) \<in> H \<Longrightarrow> keeps_handles H (configure c)"
  unfolding configure_def by (intro handle_rules)

lemma engine_load_opens: "opens_handle EngineHandle H (engine_load L path)"
  unfolding engine_load_def by (simp split del: if_split split: if_split) (intro conjI impI handle_rules insertI1)

lemma conversation_open_opens [handle_rules]:
  "(engine, EngineHandle) \<in> H \<Longrightarrow> opens_handle ConversationHandle H (conversation_open L engine opts system tools messages c)"
  unfolding conversation_open_def
  by (cases "ro_max_tokens opts = 0") (simp_all, (intro handle_rules insertI1 insertI2; assumption)+)

lemma session_new_opens:
  "(engine, EngineHandle) \<in> H \<Longrightarrow> opens_handle SessionHandle H (litert_session_new L engine opts)"
  unfolding litert_session_new_def
  by (cases "ro_max_tokens opts = 0") (simp_all, (intro handle_rules insertI1 insertI2; assumption)+)

lemma keeps_split [handle_rules]: "(\<And>a b. keeps_handles H (f a b)) \<Longrightarrow> keeps_handles H (case p of (a, b) \<Rightarrow> f a b)"
  by (cases p) simp

lemma send_message_opens [handle_rules]:
  "(conv, ConversationHandle) \<in> H \<Longrightarrow> opens_handle JsonResponseHandle H (send_message L conv message extra)"
  unfolding send_message_def by (intro handle_rules)

lemma response_as_str_keeps [handle_rules]:
  assumes "(r, JsonResponseHandle) \<in> H"
  shows "keeps_handles H (response_as_str L r args message extra)"
  unfolding response_as_str_def
  by (intro keeps_bind keeps_use assms) (auto intro: handle_rules split: option.split)

lemma litert_infer_keeps:
  "(engine, EngineHandle) \<in> H \<Longrightarrow> keeps_handles H (litert_infer L opts engine req)"
  unfolding litert_infer_def by (intro handle_rules insertI1 insertI2; assumption)

lemma litert_session_infer_keeps:
  "(session, SessionHandle) \<in> H \<Longrightarrow> keeps_handles H (litert_session_infer L session prompt)"
  unfolding litert_session_infer_def
  by (intro handle_rules insertI1; (assumption | (auto intro!: handle_rules split: option.split)))

lemma litert_load_opens: "opens_handle EngineHandle H (litert_backend_load L opts path)"
  unfolding litert_backend_load_def by (intro handle_rules engine_load_opens)

text \<open>The calls of a session on one loaded backend.\<close>

fun litert_turns :: "litert_lib \<Rightarrow> LiteRtOptions \<Rightarrow> nat \<Rightarrow> InferRequest list \<Rightarrow> ffi \<Rightarrow> ffi" where
  "litert_turns L opts engine [] s = s"
| "litert_turns L opts engine (req # reqs) s =
     litert_turns L opts engine reqs (snd (litert_infer L opts engine req s))"

lemma litert_turns_undisturbed:
  "(engine, EngineHandle) \<in> ff_live s \<Longrightarrow> fresh_above s \<Longrightarrow> undisturbed s (litert_turns L opts engine reqs s)"
proof (induction reqs arbitrary: s)
  case Nil then show ?case by (simp add: undisturbed_def)
next
  case (Cons req reqs)
  let ?t = "snd (litert_infer L opts engine req s)"
  have 1: "undisturbed s ?t"
    using litert_infer_keeps [of engine "{(engine, EngineHandle)}" L opts req] Cons.prems by (simp add: keeps_handles_def)
  then have "undisturbed ?t (litert_turns L opts engine reqs ?t)"
    using Cons.prems by (intro Cons.IH) (simp_all add: undisturbed_def)
  then show ?case using 1 undisturbed_trans by simp
qed

text \<open>C24: The LiteRT-LM backend neither leaks a native handle nor uses or frees one twice: a load that
  fails leaves nothing open; after a load that succeeds, every sequence of requests, whichever native
  calls return null and whatever the model answers, leaves exactly the engine open with no call made on
  a dead handle, and dropping the backend then closes it.\<close>

theorem litert_handles_safe:
  "case litert_backend_load L opts path ffi_start of
     (Inl e, s) \<Rightarrow> ff_live s = {} \<and> ff_faults s = 0
   | (Inr engine, s) \<Rightarrow>
       (let t = litert_turns L opts engine reqs s;
            u = snd ((drop_engine engine :: (ffi, unit, unit) act) t) in
        ff_live t = {(engine, EngineHandle)} \<and> ff_faults t = 0 \<and> ff_live u = {} \<and> ff_faults u = 0)"
proof -
  have fr: "fresh_above ffi_start" by (simp add: fresh_above_def ffi_start_def)
  obtain r s where run: "litert_backend_load L opts path ffi_start = (r, s)" by fastforce
  note load = litert_load_opens [of "{}" L opts path]
  show ?thesis
  proof (cases r)
    case (Inl e)
    then show ?thesis using run opensD1 [OF load empty_subsetI fr] by (simp add: undisturbed_def ffi_start_def)
  next
    case (Inr engine)
    then have s: "opened EngineHandle engine ffi_start s" using run opensD2 [OF load empty_subsetI fr] by simp
    then have "undisturbed s (litert_turns L opts engine reqs s)"
      by (intro litert_turns_undisturbed) (simp_all add: opened_def)
    then show ?thesis
      using s run Inr by (simp add: Let_def undisturbed_def opened_def ffi_start_def drop_engine_def delete_handle_def)
  qed
qed

section \<open>What the conversation sees of a message list\<close>

lemma split_messages_append:
  assumes "iq_messages req \<noteq> []" and "list_all (\<lambda>m. \<not> is_user m) extra"
  shows "split_messages (req\<lparr> iq_messages := iq_messages req @ extra \<rparr>) = split_messages req"
proof -
  have drop: "dropWhile (\<lambda>m. \<not> is_user m) (rev (ms @ extra)) = dropWhile (\<lambda>m. \<not> is_user m) (rev ms)" for ms
    unfolding rev_append by (rule dropWhile_append2) (use assms(2) in \<open>auto simp: list_all_iff\<close>)
  obtain m ms where "iq_messages req = m # ms" using assms(1) by (cases "iq_messages req") auto
  then show ?thesis using drop [of ms] drop [of "m # ms"] by (simp add: split_messages_def)
qed

lemma litert_infer_append:
  assumes "iq_messages req \<noteq> []" and "list_all (\<lambda>m. \<not> is_user m) extra"
  shows "litert_infer L opts engine (req\<lparr> iq_messages := iq_messages req @ extra \<rparr>) = litert_infer L opts engine req"
  unfolding litert_infer_def split_messages_append [OF assms] by simp

text \<open>The messages the turn loop has built after the given turns: the user's message, and for each turn
  the assistant's text and the results of its tool calls.\<close>

definition transcript :: "'w world_scheme \<Rightarrow> string \<Rightarrow> string \<Rightarrow> (string option \<times> classified) list \<Rightarrow> ChatMessage list" where
  "transcript W name prompt turns =
     \<lparr> cm_role = RoleUser, cm_content = prompt \<rparr> #
     concat (map (\<lambda>(txt, xs). assistant_messages txt @ map (tool_message W name) xs) turns)"

lemma loop_turn_transcript:
  assumes "loop_turn W prompt limits started turn messages tokens s = (Inr (out, messages', tokens'), s')"
  shows "\<exists>name txt xs. messages' = messages @ assistant_messages txt @ map (tool_message W name) xs"
  using assms by (auto simp: loop_turn_def act_results act_simps Let_def split: prod.splits)

lemma added_not_user:
  "list_all (\<lambda>m. \<not> is_user m) (concat (map (\<lambda>(txt, xs). assistant_messages txt @ map (tool_message W name) xs) turns))"
  by (auto simp: list_all_iff is_user_def assistant_messages_def tool_message_def Let_def
      split: option.splits list.splits prod.splits)

text \<open>C25: What the LiteRT-LM backend answers does not depend on the turns so far: for the messages the
  turn loop has built after any number of turns it makes the same native calls and returns the same
  response as for the user's message alone, because it drops every message after the last user one.
  The results of tool calls never reach the model, although the code's comment says that the history
  carries every message but the latest user one.\<close>

theorem litert_blind_to_tool_results:
  "litert_infer L opts engine \<lparr> iq_messages = transcript W name prompt turns, iq_tools = tools \<rparr>
   = litert_infer L opts engine \<lparr> iq_messages = transcript W name prompt [], iq_tools = tools \<rparr>"
  using litert_infer_append [of "\<lparr> iq_messages = transcript W name prompt [], iq_tools = tools \<rparr>", OF _ added_not_user [of W name turns]]
  by (simp add: transcript_def)

end
