(* ===== verification/Evidence.thy ===== *)
theory Evidence
  imports SessionLedger
begin

text \<open>
  \<open>aegis evidence cmmc\<close> (\<open>crates/cli/src/evidence.rs\<close>): walks a verified ledger and counts, for each
  NIST SP 800-171 control, the entries that are evidence for it. The ledger file is read twice, once by
  the verifier and once by the walk, so the model takes the bytes each read returns. Serialising the
  pack (derived \<open>serde\<close> code) and showing a timestamp are parameters.
\<close>

section \<open>Controls\<close>

record Control =
  co_id :: string
  co_family :: string
  co_title :: string

type_synonym SerializedControl = Control

definition PACK_SCHEMA_VERSION :: string where
  "PACK_SCHEMA_VERSION = ''1''"

definition CONTROL_CATALOG :: "Control list" where
  "CONTROL_CATALOG =
     [\<lparr> co_id = ''3.1.1'', co_family = ''AC'', co_title = ''Limit system access to authorized users'' \<rparr>,
      \<lparr> co_id = ''3.1.2'', co_family = ''AC'', co_title = ''Limit system access to authorized transactions'' \<rparr>,
      \<lparr> co_id = ''3.1.3'', co_family = ''AC'', co_title = ''Control flow of CUI per approved authorizations'' \<rparr>,
      \<lparr> co_id = ''3.1.7'', co_family = ''AC'', co_title = ''Prevent non-privileged users from executing privileged functions'' \<rparr>,
      \<lparr> co_id = ''3.1.8'', co_family = ''AC'', co_title = ''Limit unsuccessful logon attempts (aggregate quota)'' \<rparr>,
      \<lparr> co_id = ''3.1.20'', co_family = ''AC'', co_title = ''Verify and control connections to external systems'' \<rparr>,
      \<lparr> co_id = ''3.3.1'', co_family = ''AU'', co_title = ''Create and retain audit logs'' \<rparr>,
      \<lparr> co_id = ''3.3.2'', co_family = ''AU'', co_title = ''Ensure individual users uniquely identifiable in audit'' \<rparr>,
      \<lparr> co_id = ''3.3.4'', co_family = ''AU'', co_title = ''Alert in event of audit logging process failure'' \<rparr>,
      \<lparr> co_id = ''3.3.5'', co_family = ''AU'', co_title = ''Correlate audit records for investigation'' \<rparr>,
      \<lparr> co_id = ''3.3.8'', co_family = ''AU'', co_title = ''Protect audit info from unauthorized access'' \<rparr>,
      \<lparr> co_id = ''3.4.1'', co_family = ''CM'', co_title = ''Establish baseline configurations'' \<rparr>,
      \<lparr> co_id = ''3.4.3'', co_family = ''CM'', co_title = ''Track changes to organizational systems'' \<rparr>,
      \<lparr> co_id = ''3.5.4'', co_family = ''IA'', co_title = ''Employ replay-resistant authentication'' \<rparr>,
      \<lparr> co_id = ''3.5.5'', co_family = ''IA'', co_title = ''Prevent reuse of identifiers for a defined period'' \<rparr>,
      \<lparr> co_id = ''3.13.1'', co_family = ''SC'', co_title = ''Monitor and control communications at external boundaries'' \<rparr>,
      \<lparr> co_id = ''3.13.4'', co_family = ''SC'', co_title = ''Prevent unauthorized information transfer via shared resources'' \<rparr>,
      \<lparr> co_id = ''3.13.6'', co_family = ''SC'', co_title = ''Deny network communications by default + permit by exception'' \<rparr>,
      \<lparr> co_id = ''3.14.1'', co_family = ''SI'', co_title = ''Identify, report, and correct information system flaws'' \<rparr>,
      \<lparr> co_id = ''3.14.6'', co_family = ''SI'', co_title = ''Monitor system to detect attacks and indicators of potential attacks'' \<rparr>,
      \<lparr> co_id = ''3.14.7'', co_family = ''SI'', co_title = ''Identify unauthorized use of organizational systems'' \<rparr>]"

text \<open>\<open>entry[key]\<close> is \<open>null\<close> when the entry is not an object or has no such key.\<close>

definition str_field :: "json \<Rightarrow> string \<Rightarrow> string" where
  "str_field v k = (case Option.bind (jget v k) as_str of Some s \<Rightarrow> s | None \<Rightarrow> '''')"

definition violation_controls :: "string \<Rightarrow> string list" where
  "violation_controls kind =
     (if kind = ''AdversarialContent'' then [''3.14.1'', ''3.14.6'']
      else if kind = ''TurnCapExceeded'' then [''3.13.4'', ''3.14.1'']
      else if kind = ''AggregateCapExceeded'' then [''3.1.8'', ''3.13.4'', ''3.14.1'']
      else [''3.14.1''])"

definition controls_for :: "json \<Rightarrow> string list" where
  "controls_for entry =
     (let t = str_field entry ''entryType'' in
      if t = ''session_start'' then [''3.4.1'', ''3.4.3'', ''3.3.2'']
      else if t = ''session_end'' then [''3.3.1'']
      else if t = ''reasoning_step'' then [''3.3.1'', ''3.3.5'']
      else if t = ''access'' then [''3.1.1'', ''3.1.2'', ''3.3.1'']
      else if t = ''violation'' then violation_controls (str_field entry ''violationKind'')
      else if t = ''approval_request'' \<or> t = ''approval_granted'' \<or> t = ''approval_rejected''
        \<or> t = ''approval_timed_out'' then [''3.1.7'', ''3.3.1'']
      else if t = ''approval_decision'' then [''3.1.7'', ''3.3.5'']
      else if t = ''network_attestation'' then [''3.1.3'', ''3.13.1'', ''3.13.6'']
      else if t = ''turn_start'' then [''3.3.1'', ''3.3.5'', ''3.5.4'', ''3.5.5'']
      else if t = ''turn_end'' then [''3.3.1'', ''3.13.4'']
      else if t = ''tool_call'' \<or> t = ''tool_result'' then [''3.3.1'', ''3.3.5'']
      else [])"

section \<open>The pack\<close>

record ControlEvidence =
  ev_control :: SerializedControl
  ev_count :: u64
  ev_first :: u64
  ev_last :: u64
  ev_samples :: "string list"

record EvidencePack =
  pk_schema_version :: string
  pk_session_id :: "string option"
  pk_ledger_root_hex :: string
  pk_ledger_schema_version :: string
  pk_since :: "time option"
  pk_until :: "time option"
  pk_generated_at :: time
  pk_entry_count :: u64
  pk_controls :: "(string, ControlEvidence) fmap"
  pk_controls_covered :: u64

record ControlAccum =
  ac_count :: u64
  ac_first :: u64
  ac_last :: u64
  ac_samples :: "string list"

record CmmcArgs =
  cm_ledger :: string
  cm_out :: string
  cm_since :: "time option"
  cm_until :: "time option"

datatype evidence_error =
    EvNotFound string
  | EvVerifying string VerifyError
  | EvReading string
  | EvParsing u64 string
  | EvNotInCatalog string
  | EvCreatingDir string
  | EvCreating string
  | EvWrite
  | EvSerialize string

text \<open>What the file system shows of the ledger.\<close>

record ledger_file =
  lf_exists :: bool
  lf_fails :: "u64 \<Rightarrow> bool"
  lf_verified :: "bytes option"
  lf_read :: "bytes option"

definition same_file :: "bytes \<Rightarrow> ledger_file" where
  "same_file b = \<lparr> lf_exists = True, lf_fails = (\<lambda>_. False), lf_verified = Some b, lf_read = Some b \<rparr>"

section \<open>The walk\<close>

text \<open>\<open>str::lines\<close>: lines end at a newline, and a carriage return right before it is dropped too.\<close>

definition strip_cr :: "string \<Rightarrow> string" where
  "strip_cr s = (case strip_suffix [CHR 0x0D] s of Some r \<Rightarrow> r | None \<Rightarrow> s)"

function str_lines :: "string \<Rightarrow> string list" where
  "str_lines s =
     (if s = [] then []
      else case split_at (CHR 0x0A) s of Some (a, b) \<Rightarrow> strip_cr a # str_lines b | None \<Rightarrow> [s])"
  by pat_completeness auto
termination
  by (relation "measure length") (auto simp: split_at_Some)

declare str_lines.simps [simp del]

definition in_window :: "'a libs_scheme \<Rightarrow> time option \<Rightarrow> time option \<Rightarrow> json \<Rightarrow> bool" where
  "in_window L since until entry =
     (case Option.bind (Option.bind (jget entry ''timestamp'') as_str) (parse_datetime L) of
        None \<Rightarrow> True
      | Some t \<Rightarrow> (case since of Some a \<Rightarrow> a \<le> t | None \<Rightarrow> True) \<and> (case until of Some b \<Rightarrow> t \<le> b | None \<Rightarrow> True))"

definition sequence_of :: "json \<Rightarrow> u64" where
  "sequence_of entry = (case Option.bind (jget entry ''sequenceNumber'') as_u64 of Some n \<Rightarrow> n | None \<Rightarrow> 0)"

definition add_evidence :: "u64 \<Rightarrow> string \<Rightarrow> ControlAccum \<Rightarrow> ControlAccum" where
  "add_evidence n uid a =
     \<lparr> ac_count = ac_count a + 1, ac_first = ac_first a, ac_last = n,
       ac_samples = (if length (ac_samples a) < 10 \<and> uid \<noteq> [] then ac_samples a @ [uid] else ac_samples a) \<rparr>"

definition tag_control :: "u64 \<Rightarrow> string \<Rightarrow> string \<Rightarrow> (string, ControlAccum) fmap \<Rightarrow> (string, ControlAccum) fmap" where
  "tag_control n uid cid accum =
     fmupd cid (add_evidence n uid
       (case fmlookup accum cid of
          Some a \<Rightarrow> a | None \<Rightarrow> \<lparr> ac_count = 0, ac_first = n, ac_last = n, ac_samples = [] \<rparr>)) accum"

definition tag_entry :: "json \<Rightarrow> (string, ControlAccum) fmap \<Rightarrow> (string, ControlAccum) fmap" where
  "tag_entry entry accum =
     fold (tag_control (sequence_of entry) (str_field entry ''entryId'')) (controls_for entry) accum"

fun walk :: "'a libs_scheme \<Rightarrow> time option \<Rightarrow> time option \<Rightarrow> string list \<Rightarrow> u64 \<times> (string, ControlAccum) fmap
    \<Rightarrow> evidence_error + u64 \<times> (string, ControlAccum) fmap" where
  "walk L since until [] st = Inr st"
| "walk L since until (line # ls) (n, accum) =
     (case json_from_str L line of
        Inl e \<Rightarrow> Inl (EvParsing n e)
      | Inr entry \<Rightarrow>
          if in_window L since until entry then walk L since until ls (n + 1, tag_entry entry accum)
          else walk L since until ls (n, accum))"

definition evidence_of :: "Control \<Rightarrow> ControlAccum \<Rightarrow> ControlEvidence" where
  "evidence_of c a = \<lparr> ev_control = c, ev_count = ac_count a, ev_first = ac_first a, ev_last = ac_last a,
     ev_samples = ac_samples a \<rparr>"

text \<open>The accumulators in the order of their keys, each with its control of the catalog.\<close>

fun resolve_controls :: "(string, ControlAccum) fmap \<Rightarrow> string list \<Rightarrow> (string, ControlEvidence) fmap
    \<Rightarrow> evidence_error + (string, ControlEvidence) fmap" where
  "resolve_controls accum [] controls = Inr controls"
| "resolve_controls accum (cid # cids) controls =
     (case find (\<lambda>c. co_id c = cid) CONTROL_CATALOG of
        None \<Rightarrow> Inl (EvNotInCatalog cid)
      | Some c \<Rightarrow> resolve_controls accum cids (fmupd cid (evidence_of c (the (fmlookup accum cid))) controls))"

definition schema_label :: "LedgerSchemaVersion option \<Rightarrow> string" where
  "schema_label v = (case v of Some V1 \<Rightarrow> ''v1'' | Some V2 \<Rightarrow> ''v2'' | None \<Rightarrow> ''unknown'')"

definition build_pack :: "'a libs_scheme \<Rightarrow> ledger_file \<Rightarrow> time \<Rightarrow> CmmcArgs \<Rightarrow> evidence_error + EvidencePack" where
  "build_pack L f now a =
     andThen (guardE (lf_exists f) (EvNotFound (cm_ledger a))) (\<lambda>_.
     andThen (case verify_file L (lf_fails f) (lf_verified f) of
                Inl e \<Rightarrow> Inl (EvVerifying (cm_ledger a) e) | Inr s \<Rightarrow> Inr s) (\<lambda>summary.
     andThen (case lf_read f of
                Some raw \<Rightarrow> guardE (utf8_ok raw) (EvReading (cm_ledger a))
              | None \<Rightarrow> Inl (EvReading (cm_ledger a))) (\<lambda>_.
     andThen (walk L (cm_since a) (cm_until a) (filter (\<lambda>l. l \<noteq> []) (str_lines (the (lf_read f)))) (0, fmempty)) (\<lambda>(n, accum).
     andThen (resolve_controls accum (sorted_list_of_fset (fmdom accum)) fmempty) (\<lambda>controls.
     Inr \<lparr> pk_schema_version = PACK_SCHEMA_VERSION, pk_session_id = vs_session_id summary,
           pk_ledger_root_hex = vs_root_hash_hex summary,
           pk_ledger_schema_version = schema_label (vs_schema_version summary),
           pk_since = cm_since a, pk_until = cm_until a, pk_generated_at = now, pk_entry_count = n,
           pk_controls = controls, pk_controls_covered = of_nat (fcard (fmdom controls)) \<rparr>)))))"

section \<open>The report\<close>

definition md_row :: "ControlEvidence \<Rightarrow> string" where
  "md_row ev = ''| '' @ co_id (ev_control ev) @ '' | '' @ co_title (ev_control ev) @ '' | '' @
     show_nat (unat (ev_count ev)) @ '' | '' @ show_nat (unat (ev_first ev)) @ '' | '' @
     show_nat (unat (ev_last ev)) @ '' |'' @ [CHR 0x0A]"

definition nl :: string where
  "nl = [CHR 0x0A]"

definition evidence_values :: "EvidencePack \<Rightarrow> ControlEvidence list" where
  "evidence_values pack = map (\<lambda>k. the (fmlookup (pk_controls pack) k)) (sorted_list_of_fset (fmdom (pk_controls pack)))"

definition families :: "EvidencePack \<Rightarrow> string list" where
  "families pack = sorted_list_of_set (set (map (\<lambda>ev. co_family (ev_control ev)) (evidence_values pack)))"

definition md_family :: "EvidencePack \<Rightarrow> string \<Rightarrow> string" where
  "md_family pack family =
     ''## '' @ family @ nl @ nl @
     ''| Control | Title | Evidence count | First seq | Last seq |'' @ nl @
     ''|---|---|---|---|---|'' @ nl @
     concat (map md_row (filter (\<lambda>ev. co_family (ev_control ev) = family) (evidence_values pack))) @ nl"

definition render_markdown :: "'a libs_scheme \<Rightarrow> (time \<Rightarrow> string) \<Rightarrow> EvidencePack \<Rightarrow> string" where
  "render_markdown L show_time pack =
     ''# Aegis-Node CMMC 2.0 / NIST SP 800-171 Evidence Pack'' @ nl @ nl @
     ''- **Session**: `'' @ (case pk_session_id pack of Some s \<Rightarrow> s | None \<Rightarrow> ''(none)'') @ ''`'' @ nl @
     ''- **Ledger root**: `'' @ pk_ledger_root_hex pack @ ''`'' @ nl @
     ''- **Ledger schema**: '' @ pk_ledger_schema_version pack @ nl @
     (case pk_since pack of Some t \<Rightarrow> ''- **Since**: '' @ show_time t @ nl | None \<Rightarrow> []) @
     (case pk_until pack of Some t \<Rightarrow> ''- **Until**: '' @ show_time t @ nl | None \<Rightarrow> []) @
     ''- **Generated at**: '' @ rfc3339 L (pk_generated_at pack) @ nl @
     ''- **Entries inspected**: '' @ show_nat (unat (pk_entry_count pack)) @ nl @
     ''- **Controls covered**: '' @ show_nat (unat (pk_controls_covered pack)) @ '' of '' @
       show_nat (length CONTROL_CATALOG) @ nl @ nl @
     concat (map (md_family pack) (families pack)) @
     ''---'' @ nl @ ''Generated by `aegis evidence cmmc` (pack schema '' @ PACK_SCHEMA_VERSION @ '')'' @ nl"

text \<open>The output directory. The environment decides which call fails and how much of a failing write
  reaches the file.\<close>

record out_dir =
  od_files :: "(string, bytes) fmap"
  od_calls :: nat
  od_outcome :: "nat \<Rightarrow> nat \<times> bool"

definition od_call :: "evidence_error \<Rightarrow> (out_dir \<Rightarrow> out_dir) \<Rightarrow> (out_dir, evidence_error, unit) act" where
  "od_call err upd = (\<lambda>d. if snd (od_outcome d (od_calls d)) then (Inr (), (upd d)\<lparr> od_calls := Suc (od_calls d) \<rparr>)
     else (Inl err, d\<lparr> od_calls := Suc (od_calls d) \<rparr>))"

definition create_file :: "string \<Rightarrow> (out_dir, evidence_error, unit) act" where
  "create_file path = od_call (EvCreating path) (\<lambda>d. d\<lparr> od_files := fmupd path [] (od_files d) \<rparr>)"

definition write_bytes :: "string \<Rightarrow> bytes \<Rightarrow> (out_dir, evidence_error, unit) act" where
  "write_bytes path bs = (\<lambda>d.
     let (k, good) = od_outcome d (od_calls d);
         old = (case fmlookup (od_files d) path of Some b \<Rightarrow> b | None \<Rightarrow> []) in
     (if good then Inr () else Inl EvWrite,
      d\<lparr> od_files := fmupd path (old @ (if good then bs else take k bs)) (od_files d), od_calls := Suc (od_calls d) \<rparr>))"

definition path_in :: "string \<Rightarrow> string \<Rightarrow> string" where
  "path_in dir leaf = (if dir = [] \<or> last dir = CHR 0x2F then dir @ leaf else dir @ ''/'' @ leaf)"

definition write_outputs :: "'a libs_scheme \<Rightarrow> (time \<Rightarrow> string) \<Rightarrow> (EvidencePack \<Rightarrow> string + string) \<Rightarrow> EvidencePack \<Rightarrow> string
    \<Rightarrow> (out_dir, evidence_error, unit) act" where
  "write_outputs L show_time to_pretty pack out_path =
     (let json_path = path_in out_path ''evidence-pack.json''; md_path = path_in out_path ''evidence-pack.md'' in
      bindA (od_call (EvCreatingDir out_path) id) (\<lambda>_.
      bindA (liftA (map_sum EvSerialize id (to_pretty pack))) (\<lambda>json.
      bindA (create_file json_path) (\<lambda>_.
      bindA (write_bytes json_path json) (\<lambda>_.
      bindA (write_bytes json_path nl) (\<lambda>_.
      bindA (od_call EvWrite id) (\<lambda>_.
      bindA (create_file md_path) (\<lambda>_.
      bindA (write_bytes md_path (render_markdown L show_time pack)) (\<lambda>_.
      od_call EvWrite id)))))))))"

definition evidence_execute :: "'a libs_scheme \<Rightarrow> (time \<Rightarrow> string) \<Rightarrow> (EvidencePack \<Rightarrow> string + string) \<Rightarrow> ledger_file \<Rightarrow> time
    \<Rightarrow> CmmcArgs \<Rightarrow> (out_dir, evidence_error, EvidencePack) act" where
  "evidence_execute L show_time to_pretty f now a =
     bindA (liftA (build_pack L f now a)) (\<lambda>pack.
     bindA (write_outputs L show_time to_pretty pack (cm_out a)) (\<lambda>_. okA pack))"

section \<open>What the walk counts\<close>

definition window_entries :: "'a libs_scheme \<Rightarrow> time option \<Rightarrow> time option \<Rightarrow> string list \<Rightarrow> json list" where
  "window_entries L since until ls = filter (in_window L since until) (map (\<lambda>l. projr (json_from_str L l)) ls)"

definition evidence_for :: "string \<Rightarrow> json list \<Rightarrow> json list" where
  "evidence_for c es = filter (\<lambda>v. c \<in> set (controls_for v)) es"

definition accum_spec :: "json list \<Rightarrow> string \<Rightarrow> ControlAccum option" where
  "accum_spec es c =
     (let xs = evidence_for c es in
      if xs = [] then None
      else Some \<lparr> ac_count = of_nat (length xs), ac_first = sequence_of (hd xs), ac_last = sequence_of (last xs),
        ac_samples = take 10 (filter (\<lambda>u. u \<noteq> []) (map (\<lambda>v. str_field v ''entryId'') xs)) \<rparr>)"

definition evidenced :: "string list" where
  "evidenced = [''3.1.1'', ''3.1.2'', ''3.1.3'', ''3.1.7'', ''3.1.8'', ''3.3.1'', ''3.3.2'', ''3.3.5'', ''3.4.1'',
     ''3.4.3'', ''3.5.4'', ''3.5.5'', ''3.13.1'', ''3.13.4'', ''3.13.6'', ''3.14.1'', ''3.14.6'']"

lemma set_if_subset: "set a \<subseteq> S \<Longrightarrow> set b \<subseteq> S \<Longrightarrow> set (if c then a else b) \<subseteq> S"
  by simp

lemma distinct_if: "distinct a \<Longrightarrow> distinct b \<Longrightarrow> distinct (if c then a else b)"
  by simp

lemma controls_for_evidenced: "set (controls_for v) \<subseteq> set evidenced"
  unfolding controls_for_def violation_controls_def Let_def by (intro set_if_subset; simp add: evidenced_def)

lemma distinct_controls_for: "distinct (controls_for v)"
  unfolding controls_for_def violation_controls_def Let_def by (intro distinct_if; simp)

lemma evidenced_in_catalog:
  "list_all (\<lambda>cid. case find (\<lambda>c. co_id c = cid) CONTROL_CATALOG of None \<Rightarrow> False | Some c \<Rightarrow> co_id c = cid) evidenced"
  unfolding evidenced_def CONTROL_CATALOG_def by simp

lemma fold_tag_lookup:
  "distinct cs \<Longrightarrow> fmlookup (fold (tag_control n uid) cs accum) c =
     (if c \<in> set cs then Some (add_evidence n uid (case fmlookup accum c of
          Some a \<Rightarrow> a | None \<Rightarrow> \<lparr> ac_count = 0, ac_first = n, ac_last = n, ac_samples = [] \<rparr>))
      else fmlookup accum c)"
  by (induction cs arbitrary: accum) (auto simp: tag_control_def)

lemma accum_spec_snoc:
  "accum_spec (es @ [v]) c = (if c \<in> set (controls_for v) then
     Some (add_evidence (sequence_of v) (str_field v ''entryId'') (case accum_spec es c of
       Some a \<Rightarrow> a | None \<Rightarrow> \<lparr> ac_count = 0, ac_first = sequence_of v, ac_last = sequence_of v, ac_samples = [] \<rparr>))
     else accum_spec es c)"
proof (cases "evidence_for c es = []")
  case True
  then show ?thesis by (simp add: accum_spec_def evidence_for_def add_evidence_def Let_def)
next
  case False
  then show ?thesis by (auto simp: accum_spec_def evidence_for_def add_evidence_def Let_def)
qed

lemma tag_entry_spec:
  assumes "\<And>c. fmlookup accum c = accum_spec es c"
  shows "fmlookup (tag_entry v accum) c = accum_spec (es @ [v]) c"
  unfolding tag_entry_def fold_tag_lookup [OF distinct_controls_for] accum_spec_snoc assms ..

lemma walk_spec:
  assumes "walk L since until ls (n, accum) = Inr (n', accum')" and "\<And>c. fmlookup accum c = accum_spec es c"
  shows "n' = n + of_nat (length (window_entries L since until ls)) \<and>
     (\<forall>c. fmlookup accum' c = accum_spec (es @ window_entries L since until ls) c)"
  using assms
proof (induction ls arbitrary: n accum es)
  case Nil then show ?case by (simp add: window_entries_def)
next
  case (Cons l ls)
  from Cons.prems(1) obtain v where v: "json_from_str L l = Inr v" by (auto split: sum.splits)
  show ?case
  proof (cases "in_window L since until v")
    case True
    then have "walk L since until ls (n + 1, tag_entry v accum) = Inr (n', accum')" using Cons.prems(1) v by simp
    from Cons.IH [OF this, of "es @ [v]"] tag_entry_spec [OF Cons.prems(2)] True v show ?thesis
      by (simp add: window_entries_def)
  next
    case False
    then have "walk L since until ls (n, accum) = Inr (n', accum')" using Cons.prems(1) v by simp
    from Cons.IH [OF this Cons.prems(2)] False v show ?thesis by (simp add: window_entries_def)
  qed
qed

text \<open>A walk ends, whatever the lines parse to.\<close>

lemma walk_Inl: "walk L since until ls st = Inl e \<Longrightarrow> \<exists>n m. e = EvParsing n m"
  by (induction ls arbitrary: st) (auto split: sum.splits if_splits prod.splits)

lemma walk_parses: "list_all (\<lambda>l. \<exists>v. json_from_str L l = Inr v) ls \<Longrightarrow> \<exists>r. walk L since until ls st = Inr r"
  by (induction ls arbitrary: st) (auto split: if_splits prod.splits)

lemma accum_spec_evidenced: "accum_spec es c = Some a \<Longrightarrow> c \<in> set evidenced"
  using controls_for_evidenced by (fastforce simp: accum_spec_def evidence_for_def Let_def filter_empty_conv split: if_splits)

section \<open>The catalog lookup\<close>

lemma resolve_controls_spec:
  assumes "set cids \<subseteq> set evidenced" and "distinct cids"
  shows "\<exists>controls'. resolve_controls accum cids controls = Inr controls' \<and> (\<forall>c. if c \<in> set cids
     then (\<exists>ctl \<in> set CONTROL_CATALOG. co_id ctl = c \<and> fmlookup controls' c = Some (evidence_of ctl (the (fmlookup accum c))))
     else fmlookup controls' c = fmlookup controls c)"
  using assms
proof (induction cids arbitrary: controls)
  case Nil then show ?case by simp
next
  case (Cons cid cids)
  then have "cid \<in> set evidenced" by simp
  then have "case find (\<lambda>c. co_id c = cid) CONTROL_CATALOG of None \<Rightarrow> False | Some c \<Rightarrow> co_id c = cid"
    using evidenced_in_catalog by (simp only: list_all_iff)
  then obtain ctl where ctl: "find (\<lambda>c. co_id c = cid) CONTROL_CATALOG = Some ctl" "co_id ctl = cid"
    by (auto simp del: find.simps split: option.splits)
  then have cat: "ctl \<in> set CONTROL_CATALOG" unfolding find_Some_iff by (metis nth_mem)
  let ?u = "fmupd cid (evidence_of ctl (the (fmlookup accum cid))) controls"
  from Cons.IH [of ?u] Cons.prems
  obtain controls' where 1: "resolve_controls accum cids ?u = Inr controls'"
    and 2: "\<And>c. if c \<in> set cids
      then (\<exists>ctl \<in> set CONTROL_CATALOG. co_id ctl = c \<and> fmlookup controls' c = Some (evidence_of ctl (the (fmlookup accum c))))
      else fmlookup controls' c = fmlookup ?u c" by force
  show ?case
  proof (intro exI [of _ controls'] conjI allI)
    show "resolve_controls accum (cid # cids) controls = Inr controls'" using ctl 1 by simp
  next
    fix c
    show "if c \<in> set (cid # cids)
      then (\<exists>ctl \<in> set CONTROL_CATALOG. co_id ctl = c \<and> fmlookup controls' c = Some (evidence_of ctl (the (fmlookup accum c))))
      else fmlookup controls' c = fmlookup controls c"
    proof (cases "c = cid")
      case True
      then have "fmlookup controls' c = Some (evidence_of ctl (the (fmlookup accum c)))"
        using 2 [of c] Cons.prems(2) by simp
      then show ?thesis using True ctl(2) cat by (simp del: find.simps) blast
    next
      case False
      then have "fmlookup ?u c = fmlookup controls c" "c \<in> set (cid # cids) \<longleftrightarrow> c \<in> set cids" by auto
      with 2 [of c] show ?thesis by (simp only:)
    qed
  qed
qed

section \<open>Properties of the pack\<close>

text \<open>The entries a pack is about: those of the second read, inside the window.\<close>

definition pack_entries :: "'a libs_scheme \<Rightarrow> ledger_file \<Rightarrow> CmmcArgs \<Rightarrow> json list" where
  "pack_entries L f a =
     window_entries L (cm_since a) (cm_until a) (filter (\<lambda>l. l \<noteq> []) (str_lines (the (lf_read f))))"

lemma resolve_accum:
  assumes "\<And>c. fmlookup accum c = accum_spec es c"
  shows "\<exists>controls. resolve_controls accum (sorted_list_of_fset (fmdom accum)) fmempty = Inr controls \<and>
     fmdom controls = fmdom accum \<and> fset (fmdom accum) \<subseteq> set evidenced \<and>
     (\<forall>c a. accum_spec es c = Some a \<longrightarrow>
        (\<exists>ctl \<in> set CONTROL_CATALOG. co_id ctl = c \<and> fmlookup controls c = Some (evidence_of ctl a)))"
proof -
  have sub: "fset (fmdom accum) \<subseteq> set evidenced"
    using accum_spec_evidenced assms by (auto simp: fmlookup_dom_iff)
  then obtain controls where 1: "resolve_controls accum (sorted_list_of_fset (fmdom accum)) fmempty = Inr controls"
    and 2: "\<And>c. if c |\<in>| fmdom accum
      then (\<exists>ctl \<in> set CONTROL_CATALOG. co_id ctl = c \<and> fmlookup controls c = Some (evidence_of ctl (the (fmlookup accum c))))
      else fmlookup controls c = None"
    using resolve_controls_spec [of "sorted_list_of_fset (fmdom accum)" accum fmempty]
    by (auto simp: sorted_list_of_fset.rep_eq)
  have "c |\<in>| fmdom controls \<longleftrightarrow> c |\<in>| fmdom accum" for c
    using 2 [of c] by (cases "c |\<in>| fmdom accum") (auto simp: fmlookup_dom_iff)
  then have "fmdom controls = fmdom accum" by blast
  moreover have "\<exists>ctl \<in> set CONTROL_CATALOG. co_id ctl = c \<and> fmlookup controls c = Some (evidence_of ctl a)"
    if "accum_spec es c = Some a" for c a
  proof -
    have "fmlookup accum c = Some a" using that assms by simp
    then show ?thesis using 2 [of c] fmdomI by fastforce
  qed
  ultimately show ?thesis using 1 sub by blast
qed

lemma build_pack_Inr:
  assumes "build_pack L f now a = Inr pack"
  obtains summary where "verify_file L (lf_fails f) (lf_verified f) = Inr summary"
    and "pk_session_id pack = vs_session_id summary" and "pk_ledger_root_hex pack = vs_root_hash_hex summary"
    and "pk_entry_count pack = of_nat (length (pack_entries L f a))"
    and "fmdom (pk_controls pack) |\<subseteq>| fset_of_list evidenced"
    and "pk_controls_covered pack = of_nat (fcard (fmdom (pk_controls pack)))"
    and "\<And>c. c |\<in>| fmdom (pk_controls pack) \<longleftrightarrow> accum_spec (pack_entries L f a) c \<noteq> None"
    and "\<And>c x. accum_spec (pack_entries L f a) c = Some x \<Longrightarrow>
      \<exists>ctl \<in> set CONTROL_CATALOG. co_id ctl = c \<and> fmlookup (pk_controls pack) c = Some (evidence_of ctl x)"
proof -
  from assms obtain summary n accum controls where 1: "verify_file L (lf_fails f) (lf_verified f) = Inr summary"
    and w: "walk L (cm_since a) (cm_until a) (filter (\<lambda>l. l \<noteq> []) (str_lines (the (lf_read f)))) (0, fmempty) = Inr (n, accum)"
    and r: "resolve_controls accum (sorted_list_of_fset (fmdom accum)) fmempty = Inr controls"
    and p: "pack = \<lparr> pk_schema_version = PACK_SCHEMA_VERSION, pk_session_id = vs_session_id summary,
           pk_ledger_root_hex = vs_root_hash_hex summary,
           pk_ledger_schema_version = schema_label (vs_schema_version summary),
           pk_since = cm_since a, pk_until = cm_until a, pk_generated_at = now, pk_entry_count = n,
           pk_controls = controls, pk_controls_covered = of_nat (fcard (fmdom controls)) \<rparr>"
    unfolding build_pack_def by (auto split: sum.splits prod.splits)
  have "fmlookup fmempty c = accum_spec [] c" for c by (simp add: accum_spec_def evidence_for_def)
  note s = walk_spec [OF w, of "[]", OF this]
  then have acc: "fmlookup accum c = accum_spec (pack_entries L f a) c" for c by (simp add: pack_entries_def)
  from resolve_accum [OF acc] r have 2: "fmdom controls = fmdom accum" "fset (fmdom accum) \<subseteq> set evidenced"
    and 3: "\<And>c x. accum_spec (pack_entries L f a) c = Some x \<Longrightarrow>
      \<exists>ctl \<in> set CONTROL_CATALOG. co_id ctl = c \<and> fmlookup controls c = Some (evidence_of ctl x)" by auto
  have "fmdom accum |\<subseteq>| fset_of_list evidenced" using 2(2) by (simp add: less_eq_fset.rep_eq fset_of_list.rep_eq)
  then show ?thesis
    using that [OF 1] 2 3 s acc by (simp add: p pack_entries_def fmlookup_dom_iff)
qed

text \<open>C26: An evidence pack counts what the ledger holds. For every control the pack has a record exactly
  when some entry inside the window is evidence for it; the record names the control of the catalog,
  the number of those entries, the sequence numbers of the first and the last of them, and the ids of
  the first ten that have one.\<close>

theorem evidence_counts:
  assumes "build_pack L f now a = Inr pack"
  shows "pk_entry_count pack = of_nat (length (pack_entries L f a)) \<and>
    (let es = evidence_for c (pack_entries L f a) in
     case fmlookup (pk_controls pack) c of
       None \<Rightarrow> es = []
     | Some ev \<Rightarrow> es \<noteq> [] \<and> ev_control ev \<in> set CONTROL_CATALOG \<and> co_id (ev_control ev) = c \<and>
         ev_count ev = of_nat (length es) \<and>
         ev_first ev = sequence_of (hd es) \<and> ev_last ev = sequence_of (last es) \<and>
         ev_samples ev = take 10 (filter (\<lambda>u. u \<noteq> []) (map (\<lambda>v. str_field v ''entryId'') es)))"
proof (rule build_pack_Inr [OF assms], intro conjI)
  let ?es = "pack_entries L f a"
  assume dom: "\<And>c. c |\<in>| fmdom (pk_controls pack) \<longleftrightarrow> accum_spec ?es c \<noteq> None"
    and some: "\<And>c x. accum_spec ?es c = Some x \<Longrightarrow>
      \<exists>ctl \<in> set CONTROL_CATALOG. co_id ctl = c \<and> fmlookup (pk_controls pack) c = Some (evidence_of ctl x)"
  show "let es = evidence_for c ?es in
     case fmlookup (pk_controls pack) c of
       None \<Rightarrow> es = []
     | Some ev \<Rightarrow> es \<noteq> [] \<and> ev_control ev \<in> set CONTROL_CATALOG \<and> co_id (ev_control ev) = c \<and>
         ev_count ev = of_nat (length es) \<and>
         ev_first ev = sequence_of (hd es) \<and> ev_last ev = sequence_of (last es) \<and>
         ev_samples ev = take 10 (filter (\<lambda>u. u \<noteq> []) (map (\<lambda>v. str_field v ''entryId'') es))"
  proof (cases "accum_spec ?es c")
    case None
    then have "fmlookup (pk_controls pack) c = None" using dom [of c] by (simp add: fmlookup_dom_iff)
    then show ?thesis using None by (simp add: accum_spec_def Let_def split: if_splits)
  next
    case (Some x)
    from some [OF Some] obtain ctl where "ctl \<in> set CONTROL_CATALOG" "co_id ctl = c"
      "fmlookup (pk_controls pack) c = Some (evidence_of ctl x)" by blast
    then show ?thesis using Some by (auto simp: accum_spec_def Let_def evidence_of_def split: if_splits)
  qed
qed

text \<open>The catalog lookup of the code cannot fail, and four of the controls of the catalog have no entry
  that could ever be evidence for them.\<close>

lemma build_pack_total:
  "build_pack L f now a \<noteq> Inl (EvNotInCatalog c)"
proof
  assume "build_pack L f now a = Inl (EvNotInCatalog c)"
  then obtain n accum where w: "walk L (cm_since a) (cm_until a) (filter (\<lambda>l. l \<noteq> []) (str_lines (the (lf_read f)))) (0, fmempty) = Inr (n, accum)"
    and r: "resolve_controls accum (sorted_list_of_fset (fmdom accum)) fmempty = Inl (EvNotInCatalog c)"
    unfolding build_pack_def
    by (auto simp: andThen_def guardE_def dest: walk_Inl split: sum.splits prod.splits option.splits if_splits)
  have "fmlookup fmempty c = accum_spec [] c" for c by (simp add: accum_spec_def evidence_for_def)
  then have "fmlookup accum c = accum_spec (window_entries L (cm_since a) (cm_until a) (filter (\<lambda>l. l \<noteq> []) (str_lines (the (lf_read f))))) c" for c
    using walk_spec [OF w, of "[]"] by simp
  from resolve_accum [OF this] r show False by simp
qed

section \<open>The evidence of a session\<close>

lemma rendered_utf8:
  assumes "\<forall>l \<in> set ls. utf8_ok l"
  shows "utf8_ok (render_lines ls)"
  using assms
  by (induction ls) (auto simp: render_lines_def is_ascii_char_def utf8_ok_append_line intro!: utf8_ok_append)

lemma strip_cr_none: "CHR 0x0D \<notin> set s \<Longrightarrow> strip_cr s = s"
  by (auto simp: strip_cr_def strip_suffix_Some split: option.splits)

lemma str_lines_rendered:
  assumes "\<forall>l \<in> set ls. CHR 0x0A \<notin> set l \<and> CHR 0x0D \<notin> set l"
  shows "str_lines (render_lines ls) = ls"
  using assms
proof (induction ls)
  case Nil
  then show ?case by (simp add: render_lines_def str_lines.simps)
next
  case (Cons l ls)
  then have r: "render_lines (l # ls) = l @ CHR 0x0A # render_lines ls" "CHR 0x0A \<notin> set l"
    by (simp_all add: render_lines_def)
  then have "split_at (CHR 0x0A) (render_lines (l # ls)) = Some (l, render_lines ls)" by simp
  then show ?case using Cons r by (subst str_lines.simps) (simp add: strip_cr_none)
qed

text \<open>The controls an entry type is evidence for when its details do not matter.\<close>

definition type_controls :: "EntryType \<Rightarrow> string list" where
  "type_controls t = controls_for (jobj [(''entryType'', JString (entry_type_name t))])"

definition by_kind :: "string list" where
  "by_kind = [''3.14.6'', ''3.13.4'', ''3.1.8'']"

lemma type_controls_of_line:
  assumes "c \<notin> set by_kind" and "jget v ''entryType'' = Some (JString (entry_type_name t))"
  shows "c \<in> set (controls_for v) \<longleftrightarrow> c \<in> set (type_controls t)"
proof -
  have 1: "str_field v ''entryType'' = entry_type_name t" using assms(2) by (simp add: str_field_def)
  have 2: "str_field (jobj [(''entryType'', JString (entry_type_name t))]) ''entryType'' = entry_type_name t"
    by (simp add: str_field_def jobj_def)
  have 3: "c \<in> set (violation_controls k) \<longleftrightarrow> c = ''3.14.1''" for k
    using assms(1) by (simp add: violation_controls_def by_kind_def)
  show ?thesis unfolding type_controls_def controls_for_def Let_def 1 2 by (cases t; simp add: 3)
qed

text \<open>The count of a control in the pack, zero when it has no record.\<close>

lemma pack_count:
  assumes dom: "\<And>c. c |\<in>| fmdom controls \<longleftrightarrow> accum_spec es c \<noteq> None"
    and some: "\<And>c x. accum_spec es c = Some x \<Longrightarrow>
      \<exists>ctl \<in> set CONTROL_CATALOG. co_id ctl = c \<and> fmlookup controls c = Some (evidence_of ctl x)"
  shows "(case fmlookup controls c of None \<Rightarrow> 0 | Some ev \<Rightarrow> ev_count ev) = of_nat (length (evidence_for c es))"
proof (cases "accum_spec es c")
  case None
  then have "fmlookup controls c = None" using dom [of c] by (simp add: fmlookup_dom_iff)
  then show ?thesis using None by (simp add: accum_spec_def Let_def split: if_splits)
next
  case (Some x)
  from some [OF this] obtain ctl where "fmlookup controls c = Some (evidence_of ctl x)" by blast
  then show ?thesis using Some by (auto simp: accum_spec_def Let_def evidence_of_def split: if_splits)
qed

lemma chain_lines_text:
  assumes "lib_laws L"
  shows "\<forall>l \<in> set (chain_lines L ver sid n prev es). CHR 0x0A \<notin> set l \<and> CHR 0x0D \<notin> set l \<and> utf8_ok l \<and> l \<noteq> []"
proof (induction es arbitrary: n prev)
  case (Cons a es)
  obtain uid e where "a = (uid, e)" by fastforce
  with Cons lib_laws_json [OF assms] show ?case by (simp add: Let_def entry_line_def)
qed simp

text \<open>The lines of a writer parse to values that name their entry's type.\<close>

lemma chain_lines_parse:
  assumes L: "lib_laws L" and "\<forall>(uid, e) \<in> set es. entry_valid sid e \<and> readable e"
  shows "list_all2 (\<lambda>l (uid, e). \<exists>v. json_from_str L l = Inr v \<and>
     jget v ''entryType'' = Some (JString (entry_type_name (e_entry_type e)))) (chain_lines L ver sid n prev es) es"
  using assms(2)
proof (induction es arbitrary: n prev)
  case Nil then show ?case by simp
next
  case (Cons x es)
  obtain uid e where x: "x = (uid, e)" by fastforce
  with Cons.prems have e: "entry_valid sid e" "readable e" by auto
  obtain o2 where "json_from_str L (entry_line L ver sid n prev uid e) = Inr (JObject o2)"
    and "\<And>k v. k \<in> set RESERVED_KEYS \<Longrightarrow> fmlookup (base_obj L ver sid n prev uid e) k = Some v
      \<Longrightarrow> exact_field v \<Longrightarrow> fmlookup o2 k = Some v"
    using entry_line_reserved [OF L e, where ver = ver and n = n and prev = prev and uid = uid] by blast
  moreover from this(2) [of "''entryType''" "JString (entry_type_name (e_entry_type e))"]
  have "fmlookup o2 ''entryType'' = Some (JString (entry_type_name (e_entry_type e)))"
    by (cases "e_entry_type e") (simp_all add: RESERVED_KEYS_def base_obj_def fmlookup_of_list)
  ultimately show ?case using Cons x by (simp add: Let_def)
qed

lemma list_all2_left: "list_all2 P xs ys \<Longrightarrow> (\<And>x y. P x y \<Longrightarrow> Q x) \<Longrightarrow> list_all Q xs"
  by (induction rule: list_all2_induct) auto

lemma evidence_length:
  assumes "c \<notin> set by_kind"
    and "list_all2 (\<lambda>l (uid, e). \<exists>v. json_from_str L l = Inr v \<and>
       jget v ''entryType'' = Some (JString (entry_type_name (e_entry_type e)))) ls es"
  shows "length (evidence_for c (window_entries L None None ls))
    = length (filter (\<lambda>e. c \<in> set (type_controls (e_entry_type e))) (map snd es))"
  using assms(2)
proof (induction rule: list_all2_induct)
  case Nil then show ?case by (simp add: evidence_for_def window_entries_def)
next
  case (Cons l ls x es)
  have "in_window L None None v" for v by (simp add: in_window_def split: option.splits)
  with Cons type_controls_of_line [OF assms(1)] show ?case
    by (auto simp: evidence_for_def window_entries_def split: prod.splits)
qed

lemma demo_started:
  obtains s where "reachable (demo_world empty_manifest) s" and "disk_works (s_ledger s)" and "s_session_id s = ''s1''"
    and "\<forall>e \<in> set (s_log s). readable e" and "length (s_log s) < 2 ^ 64"
    and "length (filter (\<lambda>e. ''3.4.1'' \<in> set (type_controls (e_entry_type e))) (s_log s)) = 1"
proof -
  have "check_reserved (policy_from_manifest empty_manifest) = Inr ()" "m_extends empty_manifest = []"
    by (simp_all add: check_reserved_def policy_from_manifest_def empty_manifest_def)
  from demo_boot [OF this, of V2] obtain s x where s: "demo_session empty_manifest V2 s" and x: "s_log s = [x]" "readable x"
    by auto
  then have d: "reachable (demo_world empty_manifest) s" "disk_works (s_ledger s)" "s_session_id s = ''s1''"
    by (simp_all add: demo_session_def live_def)
  have "e_entry_type x = SessionStart"
    using reachable_ledger_intact [OF d(1)] x by (auto simp: ledger_intact_def)
  then have "length (filter (\<lambda>e. ''3.4.1'' \<in> set (type_controls (e_entry_type e))) (s_log s)) = 1"
    using x by (simp add: type_controls_def controls_for_def str_field_def jobj_def Let_def)
  then show ?thesis using that [OF d] x by simp
qed

lemma session_pack:
  assumes "lib_laws W" and "reachable W s" and "disk_works (s_ledger s)" and "utf8_ok (s_session_id s)"
    and "\<forall>e \<in> set (s_log s). readable e" and "length (s_log s) < 2 ^ 64"
    and "a = \<lparr> cm_ledger = p, cm_out = out, cm_since = None, cm_until = None \<rparr>"
  shows "\<exists>pack. build_pack W (same_file (b_disk (w_file (s_ledger s)))) now a = Inr pack \<and>
     pk_session_id pack = Some (s_session_id s) \<and>
     pk_ledger_root_hex pack = hex_encode W (current_head (s_ledger s)) \<and>
     pk_entry_count pack = entry_count (s_ledger s) \<and>
     (\<forall>c. c \<notin> set by_kind \<longrightarrow> (case fmlookup (pk_controls pack) c of None \<Rightarrow> 0 | Some ev \<Rightarrow> ev_count ev)
        = of_nat (length (filter (\<lambda>e. c \<in> set (type_controls (e_entry_type e))) (s_log s))))"
proof -
  let ?w = "s_ledger s" and ?f = "same_file (b_disk (w_file (s_ledger s)))"
  let ?ls = "writer_lines W ?w"
  note i = reachable_ledger_intact [OF assms(2), unfolded ledger_intact_def]
  then have w: "writer_ok W ?w" and ids: "w_session_id ?w = s_session_id s" using assms(3) by auto
  have disk: "b_disk (w_file ?w) = render_lines ?ls" and n: "entry_count ?w = of_nat (length (w_log ?w))"
    using w by (simp_all add: writer_ok_def entry_count_def)
  have chars: "\<forall>l \<in> set ?ls. CHR 0x0A \<notin> set l \<and> CHR 0x0D \<notin> set l \<and> utf8_ok l \<and> l \<noteq> []"
    using chain_lines_text [OF assms(1)] .
  then have utf8: "utf8_ok (b_disk (w_file ?w))" and lines: "str_lines (b_disk (w_file ?w)) = ?ls"
    and ne: "filter (\<lambda>l. l \<noteq> []) ?ls = ?ls"
    using rendered_utf8 [of ?ls] str_lines_rendered [of ?ls] by (auto simp: disk filter_id_conv)
  have valid: "\<forall>(uid, e) \<in> set (w_log ?w). entry_valid (w_session_id ?w) e \<and> readable e"
    using w assms(5) by (fastforce simp: writer_ok_def)
  note parse = chain_lines_parse [OF assms(1) valid]
  have ents: "pack_entries W ?f a = window_entries W None None ?ls"
    by (simp add: pack_entries_def assms(7) same_file_def lines ne)
  have "list_all (\<lambda>l. \<exists>v. json_from_str W l = Inr v) ?ls"
    by (rule list_all2_left [OF parse]) (auto split: prod.splits)
  then obtain r where walk: "walk W None None ?ls (0, fmempty) = Inr r" using walk_parses by blast
  obtain m accum where r: "r = (m, accum)" by fastforce
  have "fmlookup fmempty c = accum_spec [] c" for c by (simp add: accum_spec_def evidence_for_def)
  then have "fmlookup accum c = accum_spec (window_entries W None None ?ls) c" for c
    using walk_spec [OF walk [unfolded r], of "[]"] by simp
  from resolve_accum [OF this] obtain controls where res: "resolve_controls accum (sorted_list_of_fset (fmdom accum)) fmempty = Inr controls"
    by blast
  have "w_log ?w \<noteq> []" "length (w_log ?w) < 2 ^ 64" using i assms(6) by auto
  moreover have "\<forall>(uid, e) \<in> set (w_log ?w). readable e" using valid by fastforce
  ultimately obtain v where ver: "verify_reader W (\<lambda>_. False) (b_disk (w_file ?w)) = Inr v"
    and v: "vs_session_id v = Some (s_session_id s)" "vs_root_hash_hex v = hex_encode W (current_head ?w)"
    using writer_file_verifies [OF assms(1) _ w] assms(4) ids by auto
  have "\<exists>pack. build_pack W ?f now a = Inr pack"
    unfolding build_pack_def
    by (simp add: same_file_def guardE_def verify_file_def ver utf8 lines ne assms(7) walk r res)
  then obtain pack where pack: "build_pack W ?f now a = Inr pack" by blast
  show ?thesis
  proof (rule build_pack_Inr [OF pack])
    fix summary
    assume 1: "verify_file W (lf_fails ?f) (lf_verified ?f) = Inr summary" "pk_session_id pack = vs_session_id summary"
        "pk_ledger_root_hex pack = vs_root_hash_hex summary"
        "pk_entry_count pack = of_nat (length (pack_entries W ?f a))"
      and dom: "\<And>c. c |\<in>| fmdom (pk_controls pack) \<longleftrightarrow> accum_spec (pack_entries W ?f a) c \<noteq> None"
      and some: "\<And>c x. accum_spec (pack_entries W ?f a) c = Some x \<Longrightarrow>
        \<exists>ctl \<in> set CONTROL_CATALOG. co_id ctl = c \<and> fmlookup (pk_controls pack) c = Some (evidence_of ctl x)"
    have sum: "summary = v" using 1(1) ver by (simp add: same_file_def verify_file_def)
    have "length (window_entries W None None ?ls) = length (w_log ?w)"
      using list_all2_lengthD [OF parse] by (simp add: window_entries_def in_window_def split: option.splits)
    then have "pk_entry_count pack = entry_count ?w" using 1(4) n ents by simp
    moreover have "(case fmlookup (pk_controls pack) c of None \<Rightarrow> 0 | Some ev \<Rightarrow> ev_count ev)
        = of_nat (length (filter (\<lambda>e. c \<in> set (type_controls (e_entry_type e))) (s_log s)))"
      if "c \<notin> set by_kind" for c
      using pack_count [OF dom some, of c] evidence_length [OF that parse] ents by simp
    ultimately show ?thesis using pack 1(2,3) v sum by (intro exI [of _ pack]) simp
  qed
qed

text \<open>Evidence of a real session. For any session whose ledger is on a working disk, the pack built
  from its file without a window succeeds, names the session and the root hash that closing the ledger
  would return, counts all its entries, and for every control whose mapping depends on the entry type
  alone (all but the three that look at the kind of a violation) the count of its record is the number
  of the session's log entries of the mapped types.\<close>

theorem session_evidence:
  assumes "lib_laws W" and "reachable W s" and "disk_works (s_ledger s)" and "utf8_ok (s_session_id s)"
    and "\<forall>e \<in> set (s_log s). readable e" and "length (s_log s) < 2 ^ 64"
    and "a = \<lparr> cm_ledger = p, cm_out = out, cm_since = None, cm_until = None \<rparr>"
  shows "\<exists>pack. build_pack W (same_file (b_disk (w_file (s_ledger s)))) now a = Inr pack \<and>
     pk_session_id pack = Some (s_session_id s) \<and>
     pk_ledger_root_hex pack = hex_encode W (current_head (s_ledger s)) \<and>
     pk_entry_count pack = entry_count (s_ledger s) \<and>
     (\<forall>c. c \<notin> set by_kind \<longrightarrow> (case fmlookup (pk_controls pack) c of None \<Rightarrow> 0 | Some ev \<Rightarrow> ev_count ev)
        = of_nat (length (filter (\<lambda>e. c \<in> set (type_controls (e_entry_type e))) (s_log s))))"
  using session_pack [OF assms] .

theorem session_evidence_witness:
  "\<exists>s pack a. reachable (demo_world empty_manifest) s \<and>
     build_pack (demo_world empty_manifest) (same_file (b_disk (w_file (s_ledger s)))) 0 a = Inr pack \<and>
     pk_session_id pack = Some ''s1'' \<and>
     (case fmlookup (pk_controls pack) ''3.4.1'' of None \<Rightarrow> 0 | Some ev \<Rightarrow> ev_count ev) = 1"
proof -
  obtain s where s: "reachable (demo_world empty_manifest) s" "disk_works (s_ledger s)"
    "s_session_id s = ''s1''" "\<forall>e \<in> set (s_log s). readable e" "length (s_log s) < 2 ^ 64"
    "length (filter (\<lambda>e. ''3.4.1'' \<in> set (type_controls (e_entry_type e))) (s_log s)) = 1"
    by (rule demo_started)
  moreover have "utf8_ok (s_session_id s)" "''3.4.1'' \<notin> set by_kind" by (simp_all add: s(3) by_kind_def)
  ultimately show ?thesis
    using session_evidence [OF demo_world_laws s(1,2) _ s(4,5) refl, of 0] s(1,3) by fastforce
qed

theorem evidence_counts_witness:
  "\<exists>f a pack ev. build_pack (demo_world empty_manifest) f 0 a = Inr pack \<and>
     fmlookup (pk_controls pack) ''3.4.1'' = Some ev \<and> co_id (ev_control ev) = ''3.4.1'' \<and> ev_count ev = 1"
proof -
  let ?a = "\<lparr> cm_ledger = [], cm_out = [], cm_since = None, cm_until = None \<rparr>"
  obtain s where s: "reachable (demo_world empty_manifest) s" "disk_works (s_ledger s)"
    "s_session_id s = ''s1''" "\<forall>e \<in> set (s_log s). readable e" "length (s_log s) < 2 ^ 64"
    "length (filter (\<lambda>e. ''3.4.1'' \<in> set (type_controls (e_entry_type e))) (s_log s)) = 1"
    by (rule demo_started)
  moreover have "utf8_ok (s_session_id s)" "''3.4.1'' \<notin> set by_kind" by (simp_all add: s(3) by_kind_def)
  ultimately obtain pack where p: "build_pack (demo_world empty_manifest) (same_file (b_disk (w_file (s_ledger s)))) 0 ?a = Inr pack"
    "(case fmlookup (pk_controls pack) ''3.4.1'' of None \<Rightarrow> 0 | Some ev \<Rightarrow> ev_count ev) = 1"
    using session_pack [OF demo_world_laws s(1,2) _ s(4,5) refl, of 0] by fastforce
  then obtain ev where "fmlookup (pk_controls pack) ''3.4.1'' = Some ev" "ev_count ev = 1"
    by (auto split: option.splits)
  then show ?thesis using evidence_counts [OF p(1), of "''3.4.1''"] p(1) by (auto simp: Let_def)
qed

end
