(* ===== verification/Civil.thy ===== *)
theory Civil
  imports Prelude "HOL-Library.Signed_Division"
begin

text \<open>
  Timestamps without a date library: \<open>naive_rfc3339_from_unix\<close>, which \<open>crates/cli/src/pull.rs\<close> uses for
  the provenance file and \<open>crates/ui-server/src/handlers/models.rs\<close> repeats for the model list. Its date
  arithmetic is compared with a calendar that steps from day to day.
\<close>

section \<open>The code\<close>

text \<open>Division in Rust truncates (\<open>sdiv\<close>); the values cast to \<open>u64\<close> are not negative.\<close>

definition year_of_era :: "int \<Rightarrow> int" where
  "year_of_era doe = (doe - doe div 1460 + doe div 36524 - doe div 146096) div 365"

definition civil_from_days :: "int \<Rightarrow> int \<times> int \<times> int" where
  "civil_from_days days =
     (let z = days + 719468;
          era = (if 0 \<le> z then z else z - 146096) sdiv 146097;
          doe = z - era * 146097;
          yoe = year_of_era doe;
          y = yoe + era * 400;
          doy = doe - (365 * yoe + yoe div 4 - yoe div 100);
          mp = (5 * doy + 2) div 153;
          d = doy - (153 * mp + 2) div 5 + 1;
          m = (if mp < 10 then mp + 3 else mp - 9);
          y' = (if m \<le> 2 then y + 1 else y) in
      (y', m, d))"

text \<open>\<open>{n:0w}\<close>: the width counts the sign.\<close>

definition pad_int :: "nat \<Rightarrow> int \<Rightarrow> string" where
  "pad_int w n =
     (let digits = show_nat (nat \<bar>n\<bar>); sign = (if n < 0 then ''-'' else '''') in
      sign @ replicate (w - length digits - length sign) (CHR ''0'') @ digits)"

definition naive_rfc3339_from_unix :: "int \<Rightarrow> nat \<Rightarrow> string" where
  "naive_rfc3339_from_unix secs nanos =
     (let days = secs div 86400; time_of_day = secs mod 86400;
          hh = time_of_day div 3600; mm = (time_of_day mod 3600) div 60; ss = time_of_day mod 60;
          (y, m, d) = civil_from_days days in
      pad_int 4 y @ ''-'' @ pad_int 2 m @ ''-'' @ pad_int 2 d @ ''T'' @ pad_int 2 hh @ '':'' @ pad_int 2 mm @ '':'' @
      pad_int 2 ss @ ''.'' @ pad_int 3 (int (nanos div 1000000)) @ ''Z'')"

section \<open>The calendar\<close>

definition leap :: "int \<Rightarrow> bool" where
  "leap y \<longleftrightarrow> y mod 4 = 0 \<and> (y mod 100 \<noteq> 0 \<or> y mod 400 = 0)"

definition month_days :: "int \<Rightarrow> int \<Rightarrow> int" where
  "month_days y m =
     (if m = 2 then if leap y then 29 else 28 else if m = 4 \<or> m = 6 \<or> m = 9 \<or> m = 11 then 30 else 31)"

fun next_day :: "int \<times> int \<times> int \<Rightarrow> int \<times> int \<times> int" where
  "next_day (y, m, d) =
     (if d < month_days y m then (y, m, d + 1) else if m < 12 then (y, m + 1, 1) else (y + 1, 1, 1))"

section \<open>A year, from March\<close>

definition month_day :: "int \<Rightarrow> int \<times> int" where
  "month_day doy =
     (let mp = (5 * doy + 2) div 153 in
      (if mp < 10 then mp + 3 else mp - 9, doy - (153 * mp + 2) div 5 + 1))"

definition date_in :: "int \<Rightarrow> int \<Rightarrow> int \<times> int \<times> int" where
  "date_in y doy = (case month_day doy of (m, d) \<Rightarrow> (if m \<le> 2 then y + 1 else y, m, d))"

definition follows_in_year :: "int \<Rightarrow> bool" where
  "follows_in_year doy = (case (month_day doy, month_day (doy + 1)) of ((m, d), (m', d')) \<Rightarrow>
     if m = 2 then d < 28 \<and> m' = 2 \<and> d' = d + 1
     else if d < month_days 1 m then m' = m \<and> d' = d + 1
     else d' = 1 \<and> (if m = 12 then m' = 1 else m < 12 \<and> m' = m + 1))"

lemma days_of_year: "list_all follows_in_year [0..363]"
  by code_simp

lemma date_in_step:
  assumes "0 \<le> doy" and "doy < 364"
  shows "next_day (date_in y doy) = date_in y (doy + 1)"
proof -
  have "follows_in_year doy" using days_of_year assms by (simp add: list_all_iff)
  then show ?thesis
    by (cases "month_day doy"; cases "month_day (doy + 1)")
      (auto simp: follows_in_year_def date_in_def month_days_def split: if_splits)
qed

lemma february:
  "date_in y 364 = (y + 1, 2, 28)" "date_in y 365 = (y + 1, 2, 29)" "date_in y 0 = (y, 3, 1)"
  by (simp_all add: date_in_def month_day_def)

lemma date_in_end:
  "leap (y + 1) \<Longrightarrow> next_day (date_in y 364) = date_in y 365"
  "leap (y + 1) \<Longrightarrow> next_day (date_in y 365) = date_in (y + 1) 0"
  "\<not> leap (y + 1) \<Longrightarrow> next_day (date_in y 364) = date_in (y + 1) 0"
  by (simp_all add: february month_days_def)

section \<open>The years of an era\<close>

definition year_start :: "int \<Rightarrow> int" where
  "year_start y = (if y = 400 then 146097 else 365 * y + y div 4 - y div 100)"

lemma year_starts:
  "list_all (\<lambda>y. year_of_era (year_start y) = y \<and> year_of_era (year_start (y + 1) - 1) = y \<and>
     year_start (y + 1) = year_start y + 365 + (if leap (y + 1) then 1 else 0) \<and> year_start y < 146097) [0..399]"
  by code_simp

lemma div_step: "0 < k \<Longrightarrow> (x + 1) div k = x div k + (if (x + 1) mod k = 0 then 1 else 0)" for x k :: int
proof -
  assume k: "0 < k"
  define q r where "q = (x + 1) div k" and "r = (x + 1) mod k"
  have "k * q + r = x + 1" by (simp add: q_def r_def)
  then have x: "x = k * q + (r - 1)" by simp
  have r: "0 \<le> r" "r < k" using k by (simp_all add: r_def)
  show ?thesis
  proof (cases "r = 0")
    case True
    have "x div k = q - 1" by (rule int_div_pos_eq [of _ _ _ "k - 1"]) (use x True k in \<open>simp_all add: algebra_simps\<close>)
    then show ?thesis using True by (simp flip: q_def r_def)
  next
    case False
    then have "x div k = q" by (intro int_div_pos_eq [OF x]) (use r in simp_all)
    then show ?thesis using False by (simp flip: q_def r_def)
  qed
qed

lemma year_of_era_step: "year_of_era x \<le> year_of_era (x + 1)"
proof -
  have "(x + 1) mod 36524 = 0" if "(x + 1) mod 146096 = 0"
  proof -
    have "146096 dvd x + 1" using that by (simp only: mod_eq_0_iff_dvd)
    then have "36524 dvd x + 1" by (rule dvd_trans [rotated]) simp
    then show ?thesis by (simp only: mod_eq_0_iff_dvd)
  qed
  then have "x - x div 1460 + x div 36524 - x div 146096 \<le> (x + 1) - (x + 1) div 1460 + (x + 1) div 36524 - (x + 1) div 146096"
    unfolding div_step [of 1460 x, simplified] div_step [of 36524 x, simplified] div_step [of 146096 x, simplified] by auto
  then show ?thesis unfolding year_of_era_def by (intro zdiv_mono1) simp_all
qed

lemma year_of_era_mono: "x \<le> y \<Longrightarrow> year_of_era x \<le> year_of_era y"
  by (induction y rule: int_ge_induct) (auto intro: order_trans year_of_era_step)

text \<open>Every day of an era lies in exactly the year the formula gives.\<close>

lemma year_exists: "0 \<le> doe \<Longrightarrow> doe < year_start (int n) \<Longrightarrow> n \<le> 400 \<Longrightarrow>
   \<exists>y. 0 \<le> y \<and> y < int n \<and> year_start y \<le> doe \<and> doe < year_start (y + 1)"
proof (induction n)
  case 0 then show ?case by (simp add: year_start_def)
next
  case (Suc n)
  show ?case
  proof (cases "doe < year_start (int n)")
    case True
    then obtain y where "0 \<le> y" "y < int n" "year_start y \<le> doe" "doe < year_start (y + 1)" using Suc by auto
    then show ?thesis by (intro exI [of _ y]) simp
  next
    case False
    then show ?thesis using Suc.prems by (intro exI [of _ "int n"]) (simp add: add.commute)
  qed
qed

lemma year_facts:
  assumes "0 \<le> y" and "y < 400"
  shows "year_of_era (year_start y) = y" and "year_of_era (year_start (y + 1) - 1) = y"
    and "year_start (y + 1) = year_start y + 365 + (if leap (y + 1) then 1 else 0)"
    and "year_start y < 146097"
proof -
  have "y \<in> set [0..399]" using assms by simp
  with year_starts have "year_of_era (year_start y) = y \<and> year_of_era (year_start (y + 1) - 1) = y \<and>
     year_start (y + 1) = year_start y + 365 + (if leap (y + 1) then 1 else 0) \<and> year_start y < 146097"
    unfolding list_all_iff by blast
  then show "year_of_era (year_start y) = y" "year_of_era (year_start (y + 1) - 1) = y"
    "year_start (y + 1) = year_start y + 365 + (if leap (y + 1) then 1 else 0)" "year_start y < 146097" by blast+
qed

lemma year_of_era_spec:
  assumes "0 \<le> doe" and "doe < 146097"
  shows "0 \<le> year_of_era doe \<and> year_of_era doe < 400 \<and> year_start (year_of_era doe) \<le> doe \<and>
     doe < year_start (year_of_era doe + 1)"
proof -
  obtain y where y: "0 \<le> y" "y < 400" "year_start y \<le> doe" "doe < year_start (y + 1)"
    using year_exists [of doe 400] assms by (auto simp: year_start_def)
  have "year_of_era doe = y"
    using year_of_era_mono [OF y(3)] year_of_era_mono [of doe "year_start (y + 1) - 1"] year_facts [OF y(1,2)] y(4) by simp
  then show ?thesis using y by simp
qed

lemma year_of_era_unique:
  assumes "0 \<le> y" and "y < 400" and "year_start y \<le> doe" and "doe < year_start (y + 1)"
  shows "year_of_era doe = y"
  using year_of_era_mono [OF assms(3)] year_of_era_mono [of doe "year_start (y + 1) - 1"] year_facts [OF assms(1,2)] assms(4) by simp

section \<open>From day to day\<close>

text \<open>A day as an era and a day of the era.\<close>

definition era_date :: "int \<Rightarrow> int \<Rightarrow> int \<times> int \<times> int" where
  "era_date era doe = date_in (year_of_era doe + era * 400) (doe - year_start (year_of_era doe))"

lemma leap_era: "leap (y + era * 400) \<longleftrightarrow> leap y"
proof -
  have "(y + era * 400) mod k = y mod k" if "k dvd 400" for k
    using that by (metis dvd_mult mod_add_right_eq add_0_right dvd_imp_mod_0 mult.commute)
  then show ?thesis by (simp add: leap_def)
qed

lemma era_date_step:
  assumes "0 \<le> doe" and "doe < 146097"
  shows "next_day (era_date era doe) = (if doe + 1 < 146097 then era_date era (doe + 1) else era_date (era + 1) 0)"
proof -
  define y doy where "y = year_of_era doe" and "doy = doe - year_start y"
  have y: "0 \<le> y" "y < 400" "0 \<le> doy" "doe < year_start (y + 1)"
    using year_of_era_spec [OF assms] by (simp_all add: y_def doy_def)
  note len = year_facts(3) [OF y(1,2)]
  have date: "era_date era doe = date_in (y + era * 400) doy" by (simp add: era_date_def y_def doy_def)
  have lp: "leap (y + era * 400 + 1) \<longleftrightarrow> leap (y + 1)" using leap_era [of "y + 1" era] by (simp add: algebra_simps)
  show ?thesis
  proof (cases "doe + 1 < year_start (y + 1)")
    case True
    then have "year_of_era (doe + 1) = y" using y by (intro year_of_era_unique) (simp_all add: doy_def)
    then have next_date: "era_date era (doe + 1) = date_in (y + era * 400) (doy + 1)" by (simp add: era_date_def doy_def algebra_simps)
    have "year_start (y + 1) \<le> 146097"
      using year_facts(4) [of "y + 1"] y(1,2) by (cases "y = 399") (simp_all add: year_start_def)
    moreover have "next_day (date_in (y + era * 400) doy) = date_in (y + era * 400) (doy + 1)"
    proof (cases "doy < 364")
      case True then show ?thesis using date_in_step y(3) by simp
    next
      case False
      then have "doy = 364" "leap (y + 1)" using True len by (auto simp: doy_def split: if_splits)
      then show ?thesis using date_in_end(1) [of "y + era * 400"] lp by simp
    qed
    ultimately show ?thesis using True date next_date by simp
  next
    case False
    then have doe: "doe + 1 = year_start (y + 1)" using y(4) by simp
    then have "next_day (date_in (y + era * 400) doy) = date_in (y + era * 400 + 1) 0"
      using len date_in_end(2,3) [of "y + era * 400"] lp by (auto simp: doy_def split: if_splits)
    moreover have "(if doe + 1 < 146097 then era_date era (doe + 1) else era_date (era + 1) 0) = date_in (y + era * 400 + 1) 0"
    proof (cases "y = 399")
      case True
      then show ?thesis using doe by (simp add: year_start_def era_date_def year_of_era_def algebra_simps)
    next
      case False
      then have y1: "0 \<le> y + 1" "y + 1 < 400" using y by simp_all
      then show ?thesis using doe year_facts(1,4) [OF y1] by (simp add: era_date_def algebra_simps)
    qed
    ultimately show ?thesis using date by simp
  qed
qed

lemma civil_era:
  assumes "0 \<le> z"
  shows "civil_from_days (z - 719468) = era_date (z div 146097) (z mod 146097)"
proof -
  have era: "(if 0 \<le> z then z else z - 146096) sdiv 146097 = z div 146097"
    using assms by (simp add: signed_divide_int_def sgn_if)
  have doe: "z - z div 146097 * 146097 = z mod 146097" by (simp add: minus_div_mult_eq_mod)
  define y where "y = year_of_era (z mod 146097)"
  have "y < 400" using year_of_era_spec [of "z mod 146097"] by (simp add: y_def)
  then have start: "365 * y + y div 4 - y div 100 = year_start y" by (simp add: year_start_def)
  have z: "z - 719468 + 719468 = z" by simp
  show ?thesis
    unfolding civil_from_days_def Let_def z era doe y_def [symmetric] start era_date_def date_in_def month_day_def prod.case ..
qed

text \<open>C31: The date arithmetic is the calendar. For every day since 1970 the year, month and day the code
  computes are those reached by stepping that many days from the first of January 1970, months and
  leap years counted as the Gregorian calendar does.\<close>

theorem civil_dates:
  "civil_from_days (int n) = (next_day ^^ n) (1970, 1, 1)"
proof (induction n)
  case 0
  show ?case by code_simp
next
  case (Suc n)
  define z where "z = int n + 719468"
  have z: "0 \<le> z" "civil_from_days (int n) = era_date (z div 146097) (z mod 146097)"
    using civil_era [of z] by (simp_all add: z_def)
  have r: "0 \<le> z mod 146097" "z mod 146097 < 146097" by simp_all
  have succ: "(z + 1) mod 146097 = (z mod 146097 + 1) mod 146097" by (simp only: mod_add_left_eq)
  have "next_day (era_date (z div 146097) (z mod 146097)) = era_date ((z + 1) div 146097) ((z + 1) mod 146097)"
  proof (cases "z mod 146097 + 1 < 146097")
    case True
    then have "(z + 1) mod 146097 = z mod 146097 + 1" using r succ by simp
    moreover from this have "(z + 1) div 146097 = z div 146097" using r div_step [of 146097 z] by simp
    ultimately show ?thesis using era_date_step [OF r] True by simp
  next
    case False
    then have "z mod 146097 + 1 = 146097" using r(2) by linarith
    then have "(z + 1) mod 146097 = 0" using succ by simp
    moreover from this have "(z + 1) div 146097 = z div 146097 + 1" using div_step [of 146097 z] by simp
    ultimately show ?thesis using era_date_step [OF r] False by simp
  qed
  moreover have "civil_from_days (int (Suc n)) = era_date ((z + 1) div 146097) ((z + 1) mod 146097)"
    using civil_era [of "z + 1"] z(1) by (simp add: z_def algebra_simps)
  ultimately show ?case using Suc z(2) by simp
qed

end
