(* ===== verification/Pull.thy ===== *)
theory Pull
  imports Evidence Civil
begin

text \<open>
  \<open>aegis pull\<close> (\<open>crates/cli/src/pull.rs\<close>): fetch a model artifact from a registry, verify its signature,
  and put it into the cache. The external programs \<open>oras\<close> and \<open>cosign\<close>, the file system's failures and
  the JSON text of the provenance file (serde_json) are parameters. The state is the files of the cache, and the log of
  the programs that ran with what they answered; the staging directory, which has a fresh random name and
  disappears at the end of the call, is a value of the call.
\<close>

section \<open>References\<close>

datatype pull_error =
    PullMissingTool string
  | PullBadRef string string
  | PullUnpinnedRef string
  | PullOrasFailed "int option" string
  | PullCosignVerifyFailed "int option" string
  | PullSha256Mismatch string string
  | PullManifestFetchFailed string
  | PullMissingChatTemplateAnnotation string string
  | PullInvalidAnnotationValue string string
  | PullIo string

record ParsedRef =
  pr_registry :: string
  pr_repository :: string
  pr_tag :: "string option"
  pr_sha256_hex :: string

definition parse_digest :: "string \<Rightarrow> string \<Rightarrow> pull_error + string" where
  "parse_digest s digest =
     (case strip_prefix ''sha256:'' digest of
        None \<Rightarrow> Inl (PullBadRef s ''digest must use the sha256: prefix'')
      | Some hex \<Rightarrow>
          if length hex \<noteq> 64 \<or> \<not> list_all is_hexdigit hex
          then Inl (PullBadRef s ''sha256 must be 64 lowercase hex chars'') else Inr hex)"

definition split_tag :: "string \<Rightarrow> string \<times> string option" where
  "split_tag repo_and_tag =
     (case rsplit_at (CHR '':'') repo_and_tag of Some (r, t) \<Rightarrow> (r, Some t) | None \<Rightarrow> (repo_and_tag, None))"

definition parse_ref :: "string \<Rightarrow> pull_error + ParsedRef" where
  "parse_ref s =
     (case split_at (CHR ''@'') s of
        None \<Rightarrow> Inl (PullUnpinnedRef s)
      | Some (head, digest) \<Rightarrow>
          andThen (parse_digest s digest) (\<lambda>hex.
          case split_at (CHR ''/'') head of
            None \<Rightarrow> Inl (PullBadRef s ''missing /<repo> after the registry'')
          | Some (registry, repo_and_tag) \<Rightarrow>
              if registry = [] then Inl (PullBadRef s ''registry component is empty'')
              else if repo_and_tag = [] then Inl (PullBadRef s ''repository component is empty'')
              else (case split_tag repo_and_tag of (repository, tag) \<Rightarrow>
                if repository = [] then Inl (PullBadRef s ''repository component is empty'')
                else Inr \<lparr> pr_registry = registry, pr_repository = repository, pr_tag = tag,
                           pr_sha256_hex = map ascii_lower hex \<rparr>)))"

definition canonical :: "ParsedRef \<Rightarrow> string" where
  "canonical p = pr_registry p @ ''/'' @ pr_repository p @
     (case pr_tag p of Some t \<Rightarrow> '':'' @ t | None \<Rightarrow> '''') @ ''@sha256:'' @ pr_sha256_hex p"

section \<open>Provenance\<close>

definition PROVENANCE_FILENAME :: string where
  "PROVENANCE_FILENAME = ''provenance.json''"

definition PROVENANCE_SCHEMA_VERSION :: u32 where
  "PROVENANCE_SCHEMA_VERSION = 1"

datatype CosignMode = CosignKey | CosignKeyless

record CosignVerification =
  cv_verified :: bool
  cv_mode :: CosignMode
  cv_key_path :: "string option"
  cv_keyless_identity_pattern :: "string option"
  cv_keyless_oidc_issuer_pattern :: "string option"

record Provenance =
  pv_schema_version :: u32
  pv_oci_ref :: string
  pv_manifest_digest :: string
  pv_blob_sha256 :: string
  pv_chat_template_sha256 :: "string option"
  pv_cosign :: CosignVerification
  pv_pulled_at :: string

text \<open>The derived codec. The readers take the members of an object: an \<open>Option\<close> may be missing or null,
  unknown members are ignored, and a member of another type fails the whole value. (serde also takes a
  struct written as an array, which nothing here writes.)\<close>

definition option_json :: "string option \<Rightarrow> json" where
  "option_json x = (case x of None \<Rightarrow> JNull | Some v \<Rightarrow> JString v)"

definition string_field :: "json \<Rightarrow> string \<Rightarrow> string option" where
  "string_field v k = Option.bind (jget v k) as_str"

definition bool_field :: "json \<Rightarrow> string \<Rightarrow> bool option" where
  "bool_field v k = (case jget v k of Some (JBool b) \<Rightarrow> Some b | _ \<Rightarrow> None)"

definition u32_field :: "json \<Rightarrow> string \<Rightarrow> u32 option" where
  "u32_field v k = Option.bind (Option.bind (jget v k) as_u64) (\<lambda>n. if unat n < 2 ^ 32 then Some (ucast n) else None)"

definition optional_field :: "(json \<Rightarrow> 'a option) \<Rightarrow> json \<Rightarrow> string \<Rightarrow> 'a option option" where
  "optional_field f v k =
     (case jget v k of None \<Rightarrow> Some None | Some JNull \<Rightarrow> Some None | Some x \<Rightarrow> map_option Some (f x))"

fun cosign_mode_name :: "CosignMode \<Rightarrow> string" where
  "cosign_mode_name CosignKey = ''key''"
| "cosign_mode_name CosignKeyless = ''keyless''"

definition cosign_to_json :: "CosignVerification \<Rightarrow> json" where
  "cosign_to_json c = jobj
     [(''verified'', JBool (cv_verified c)), (''mode'', JString (cosign_mode_name (cv_mode c))),
      (''key_path'', option_json (cv_key_path c)),
      (''keyless_identity_pattern'', option_json (cv_keyless_identity_pattern c)),
      (''keyless_oidc_issuer_pattern'', option_json (cv_keyless_oidc_issuer_pattern c))]"

definition provenance_to_json :: "Provenance \<Rightarrow> json" where
  "provenance_to_json p = jobj
     [(''schema_version'', JU64 (ucast (pv_schema_version p))), (''oci_ref'', JString (pv_oci_ref p)),
      (''manifest_digest'', JString (pv_manifest_digest p)), (''blob_sha256'', JString (pv_blob_sha256 p)),
      (''chat_template_sha256'', option_json (pv_chat_template_sha256 p)),
      (''cosign'', cosign_to_json (pv_cosign p)), (''pulled_at'', JString (pv_pulled_at p))]"

definition cosign_from_json :: "json \<Rightarrow> CosignVerification option" where
  "cosign_from_json v =
     Option.bind (bool_field v ''verified'') (\<lambda>verified.
     Option.bind (string_field v ''mode'') (\<lambda>m.
     Option.bind (find (\<lambda>x. cosign_mode_name x = m) [CosignKey, CosignKeyless]) (\<lambda>mode.
     Option.bind (optional_field as_str v ''key_path'') (\<lambda>key.
     Option.bind (optional_field as_str v ''keyless_identity_pattern'') (\<lambda>identity.
     Option.bind (optional_field as_str v ''keyless_oidc_issuer_pattern'') (\<lambda>issuer.
     Some \<lparr> cv_verified = verified, cv_mode = mode, cv_key_path = key,
            cv_keyless_identity_pattern = identity, cv_keyless_oidc_issuer_pattern = issuer \<rparr>))))))"

definition provenance_from_json :: "json \<Rightarrow> Provenance option" where
  "provenance_from_json v =
     Option.bind (u32_field v ''schema_version'') (\<lambda>version.
     Option.bind (string_field v ''oci_ref'') (\<lambda>oci_ref.
     Option.bind (string_field v ''manifest_digest'') (\<lambda>digest.
     Option.bind (string_field v ''blob_sha256'') (\<lambda>blob.
     Option.bind (optional_field as_str v ''chat_template_sha256'') (\<lambda>ct.
     Option.bind (Option.bind (jget v ''cosign'') cosign_from_json) (\<lambda>cosign.
     Option.bind (string_field v ''pulled_at'') (\<lambda>pulled.
     Some \<lparr> pv_schema_version = version, pv_oci_ref = oci_ref, pv_manifest_digest = digest, pv_blob_sha256 = blob,
            pv_chat_template_sha256 = ct, pv_cosign = cosign, pv_pulled_at = pulled \<rparr>)))))))"

lemma optional_string [simp]: "optional_field as_str (JObject m) k = Some x" if "fmlookup m k = Some (option_json x)" for m
  using that by (cases x) (simp_all add: optional_field_def option_json_def)

lemma u32_json [simp]: "fmlookup m k = Some (JU64 (ucast (n :: u32))) \<Longrightarrow> u32_field (JObject m) k = Some n"
proof -
  assume m: "fmlookup m k = Some (JU64 (ucast n))"
  have b: "unat n < 2 ^ 32" using unsigned_less [of n] by simp
  then have "unat (ucast n :: u64) = unat n" by (simp add: unsigned_ucast_eq take_bit_nat_eq_self)
  with b show ?thesis using m by (simp add: u32_field_def ucast_up_ucast is_up)
qed

text \<open>A provenance file reads back as it was written.\<close>

lemma cosign_json_round_trip: "cosign_from_json (cosign_to_json c) = Some c"
  by (cases "cv_mode c") (simp_all add: cosign_from_json_def cosign_to_json_def jobj_def fmlookup_of_list bool_field_def string_field_def)

lemma provenance_json_round_trip: "provenance_from_json (provenance_to_json p) = Some p"
  by (simp add: provenance_from_json_def provenance_to_json_def jobj_def fmlookup_of_list string_field_def cosign_json_round_trip)

record PulledArtifact =
  pa_reference :: ParsedRef
  pa_blob_path :: string
  pa_sha256_hex :: string
  pa_chat_template_sha256_hex :: "string option"

record PullConfig =
  pc_cache_dir :: string
  pc_cosign_key :: "string option"
  pc_keyless_identity :: "string option"
  pc_keyless_oidc_issuer :: "string option"

section \<open>The environment\<close>

record proc_output =
  po_code :: "int option"
  po_stdout :: bytes
  po_stderr :: bytes

definition proc_success :: "proc_output \<Rightarrow> bool" where
  "proc_success o1 \<longleftrightarrow> po_code o1 = Some 0"

text \<open>The number given to each function is the time of the call. \<open>pl_fails\<close>: the call fails;
  \<open>pl_written\<close>: what a failing write leaves, nothing or a truncated file with so many bytes.\<close>

record pull_lib = libs +
  pl_path_dirs :: "string list option"
  pl_is_file :: "string \<Rightarrow> bool"
  pl_fails :: "nat \<Rightarrow> bool"
  pl_io_error :: "nat \<Rightarrow> string"
  pl_written :: "nat \<Rightarrow> nat option"
  pl_manifest_fetch :: "nat \<Rightarrow> string \<Rightarrow> proc_output"
  pl_oras_pull :: "nat \<Rightarrow> string \<Rightarrow> proc_output \<times> (string \<times> bytes) list"
  pl_cosign :: "nat \<Rightarrow> string list \<Rightarrow> proc_output"
  pl_lossy :: "bytes \<Rightarrow> string"
  pl_code_debug :: "int option \<Rightarrow> string"
  pl_clock :: "nat \<Rightarrow> (u64 \<times> nat) option"
  pl_to_vec_pretty :: "json \<Rightarrow> string + bytes"
  pl_from_slice :: "bytes \<Rightarrow> string + json"
  pl_data_error :: "json \<Rightarrow> string"

datatype pull_event = RanManifestFetch string | RanOrasPull string | RanCosign "string list" bool

record pull_state =
  pu_files :: "string \<Rightarrow> bytes option"
  pu_tick :: nat
  pu_log :: "pull_event list"

type_synonym 'a pull_act = "(pull_state, pull_error, 'a) act"

text \<open>A call of the operating system that may fail, and its effect when it does not.\<close>

definition io_call :: "pull_lib \<Rightarrow> (pull_state \<Rightarrow> 'a) \<Rightarrow> (pull_state \<Rightarrow> pull_state) \<Rightarrow> 'a pull_act" where
  "io_call L val upd = (\<lambda>s.
     if pl_fails L (pu_tick s) then (Inl (PullIo (pl_io_error L (pu_tick s))), s\<lparr> pu_tick := Suc (pu_tick s) \<rparr>)
     else (Inr (val s), (upd s)\<lparr> pu_tick := Suc (pu_tick s) \<rparr>))"

definition path_exists :: "pull_lib \<Rightarrow> string \<Rightarrow> bool pull_act" where
  "path_exists L path = (\<lambda>s.
     (Inr (\<not> pl_fails L (pu_tick s) \<and> pu_files s path \<noteq> None), s\<lparr> pu_tick := Suc (pu_tick s) \<rparr>))"

definition create_dir_all :: "pull_lib \<Rightarrow> string \<Rightarrow> unit pull_act" where
  "create_dir_all L path = io_call L (\<lambda>_. ()) id"

definition read_bytes :: "pull_lib \<Rightarrow> string \<Rightarrow> bytes pull_act" where
  "read_bytes L path =
     bindA (io_call L (\<lambda>s. pu_files s path) id) (\<lambda>r.
     case r of None \<Rightarrow> errA (PullIo ''No such file or directory (os error 2)'') | Some b \<Rightarrow> okA b)"

definition pull_read_to_string :: "pull_lib \<Rightarrow> string \<Rightarrow> string pull_act" where
  "pull_read_to_string L path =
     bindA (read_bytes L path) (\<lambda>b.
     if utf8_ok b then okA b else errA (PullIo ''stream did not contain valid UTF-8''))"

definition pull_write :: "pull_lib \<Rightarrow> string \<Rightarrow> bytes \<Rightarrow> unit pull_act" where
  "pull_write L path b = (\<lambda>s.
     if pl_fails L (pu_tick s) then
       (Inl (PullIo (pl_io_error L (pu_tick s))),
        s\<lparr> pu_tick := Suc (pu_tick s), pu_files := (case pl_written L (pu_tick s) of
             None \<Rightarrow> pu_files s | Some k \<Rightarrow> (pu_files s)(path \<mapsto> take k b)) \<rparr>)
     else (Inr (), s\<lparr> pu_tick := Suc (pu_tick s), pu_files := (pu_files s)(path \<mapsto> b) \<rparr>))"

text \<open>Moving a file of the staging directory into the cache.\<close>

definition rename_into :: "pull_lib \<Rightarrow> bytes \<Rightarrow> string \<Rightarrow> unit pull_act" where
  "rename_into L b path = io_call L (\<lambda>_. ()) (\<lambda>s. s\<lparr> pu_files := (pu_files s)(path \<mapsto> b) \<rparr>)"

section \<open>The external programs\<close>

definition which :: "pull_lib \<Rightarrow> string \<Rightarrow> string option" where
  "which L tool =
     Option.bind (pl_path_dirs L) (\<lambda>dirs. find (pl_is_file L) (map (\<lambda>dir. path_in dir tool) dirs))"

definition require_tool :: "pull_lib \<Rightarrow> string \<Rightarrow> pull_error + unit" where
  "require_tool L tool = guardE (which L tool \<noteq> None) (PullMissingTool tool)"

definition run_oras_manifest_fetch :: "pull_lib \<Rightarrow> ParsedRef \<Rightarrow> json pull_act" where
  "run_oras_manifest_fetch L p =
     bindA (io_call L (\<lambda>s. pl_manifest_fetch L (pu_tick s) (canonical p))
              (\<lambda>s. s\<lparr> pu_log := pu_log s @ [RanManifestFetch (canonical p)] \<rparr>)) (\<lambda>out.
     if \<not> proc_success out then
       errA (PullManifestFetchFailed (''exit '' @ pl_code_debug L (po_code out) @ '': '' @ trim (pl_lossy L (po_stderr out))))
     else case json_from_str L (po_stdout out) of
            Inl e \<Rightarrow> errA (PullManifestFetchFailed (''manifest is not valid JSON: '' @ e))
          | Inr v \<Rightarrow> okA v)"

definition run_oras_pull :: "pull_lib \<Rightarrow> ParsedRef \<Rightarrow> (string \<times> bytes) list pull_act" where
  "run_oras_pull L p =
     bindA (io_call L (\<lambda>s. pl_oras_pull L (pu_tick s) (canonical p))
              (\<lambda>s. s\<lparr> pu_log := pu_log s @ [RanOrasPull (canonical p)] \<rparr>)) (\<lambda>(out, files).
     if \<not> proc_success out then errA (PullOrasFailed (po_code out) (pl_lossy L (po_stderr out)))
     else okA files)"

definition cosign_args :: "ParsedRef \<Rightarrow> PullConfig \<Rightarrow> string list" where
  "cosign_args p cfg = ''verify'' #
     (case pc_cosign_key cfg of
        Some key \<Rightarrow> [''--key'', key]
      | None \<Rightarrow>
          [''--certificate-identity-regexp'', case pc_keyless_identity cfg of Some i \<Rightarrow> i | None \<Rightarrow> ''.*'',
           ''--certificate-oidc-issuer-regexp'', case pc_keyless_oidc_issuer cfg of Some i \<Rightarrow> i | None \<Rightarrow> ''.*'']) @
     [canonical p]"

definition run_cosign_verify :: "pull_lib \<Rightarrow> ParsedRef \<Rightarrow> PullConfig \<Rightarrow> unit pull_act" where
  "run_cosign_verify L p cfg =
     bindA (io_call L (\<lambda>s. pl_cosign L (pu_tick s) (cosign_args p cfg))
              (\<lambda>s. s\<lparr> pu_log := pu_log s @ [RanCosign (cosign_args p cfg)
                 (proc_success (pl_cosign L (pu_tick s) (cosign_args p cfg)))] \<rparr>)) (\<lambda>out.
     if \<not> proc_success out then errA (PullCosignVerifyFailed (po_code out) (pl_lossy L (po_stderr out)))
     else okA ())"

section \<open>The chat-template annotation\<close>

definition MODEL_GGUF_MEDIA_TYPE :: string where
  "MODEL_GGUF_MEDIA_TYPE = ''application/vnd.aegis-node.model.gguf.v1''"

definition MODEL_LITERTLM_MEDIA_TYPE :: string where
  "MODEL_LITERTLM_MEDIA_TYPE = ''application/vnd.aegis-node.model.litertlm.v1''"

definition MODEL_ARTIFACT_TYPES :: "string list" where
  "MODEL_ARTIFACT_TYPES = [MODEL_GGUF_MEDIA_TYPE, MODEL_LITERTLM_MEDIA_TYPE]"

definition CHAT_TEMPLATE_SHA_ANNOTATION :: string where
  "CHAT_TEMPLATE_SHA_ANNOTATION = ''dev.aegis-node.chat-template.sha256''"

definition is_valid_sha256_hex :: "string \<Rightarrow> bool" where
  "is_valid_sha256_hex s \<longleftrightarrow> length s = 64 \<and> list_all (\<lambda>b. is_hexdigit b \<and> \<not> is_upper b) s"

definition artifact_type_of :: "json \<Rightarrow> string" where
  "artifact_type_of manifest =
     (case Option.bind (jget manifest ''artifactType'') as_str of
        Some t \<Rightarrow> t
      | None \<Rightarrow>
          (case Option.bind (Option.bind (jget manifest ''config'') (\<lambda>c. jget c ''mediaType'')) as_str of
             Some t \<Rightarrow> t | None \<Rightarrow> ''''))"

definition extract_chat_template_annotation :: "json \<Rightarrow> pull_error + string option" where
  "extract_chat_template_annotation manifest =
     (case Option.bind (Option.bind (jget manifest ''annotations'') (\<lambda>a. jget a CHAT_TEMPLATE_SHA_ANNOTATION)) as_str of
        Some raw \<Rightarrow>
          if \<not> is_valid_sha256_hex raw then Inl (PullInvalidAnnotationValue CHAT_TEMPLATE_SHA_ANNOTATION raw)
          else Inr (Some raw)
      | None \<Rightarrow>
          if artifact_type_of manifest \<in> set MODEL_ARTIFACT_TYPES
          then Inl (PullMissingChatTemplateAnnotation (artifact_type_of manifest) CHAT_TEMPLATE_SHA_ANNOTATION)
          else Inr None)"

section \<open>The pull\<close>

text \<open>The clock gives the seconds and nanoseconds since 1970, nothing before. The seconds are cast to
  \<open>i64\<close>.\<close>

definition rfc3339_now :: "pull_lib \<Rightarrow> nat \<Rightarrow> string" where
  "rfc3339_now L t =
     (case pl_clock L t of
        Some (secs, nanos) \<Rightarrow> naive_rfc3339_from_unix (sint secs) nanos
      | None \<Rightarrow> naive_rfc3339_from_unix 0 0)"

text \<open>The user's cache directory is the system's answer.\<close>

definition default_cache_dir :: "string option \<Rightarrow> pull_error + string" where
  "default_cache_dir base =
     (case base of
        None \<Rightarrow> Inl (PullIo ''could not resolve user cache dir'')
      | Some b \<Rightarrow> Inr (path_in (path_in b ''aegis'') ''models''))"

definition target_dir :: "string \<Rightarrow> string \<Rightarrow> string" where
  "target_dir cache hex = path_in cache hex"

definition cosign_record :: "PullConfig \<Rightarrow> CosignVerification" where
  "cosign_record cfg =
     (case pc_cosign_key cfg of
        Some key \<Rightarrow> \<lparr> cv_verified = True, cv_mode = CosignKey, cv_key_path = Some key,
          cv_keyless_identity_pattern = None, cv_keyless_oidc_issuer_pattern = None \<rparr>
      | None \<Rightarrow> \<lparr> cv_verified = True, cv_mode = CosignKeyless, cv_key_path = None,
          cv_keyless_identity_pattern = Some (case pc_keyless_identity cfg of Some i \<Rightarrow> i | None \<Rightarrow> ''.*''),
          cv_keyless_oidc_issuer_pattern = Some (case pc_keyless_oidc_issuer cfg of Some i \<Rightarrow> i | None \<Rightarrow> ''.*'') \<rparr>)"

text \<open>The temporary file has a fresh name; only the final rename shows.\<close>

definition write_provenance :: "pull_lib \<Rightarrow> string \<Rightarrow> Provenance \<Rightarrow> unit pull_act" where
  "write_provenance L dir prov =
     bindA (liftA (map_sum (\<lambda>e. PullIo (''serialize provenance: '' @ e)) id (pl_to_vec_pretty L (provenance_to_json prov)))) (\<lambda>json.
     bindA (io_call L (\<lambda>_. ()) id) (\<lambda>_.
     bindA (io_call L (\<lambda>_. ()) id) (\<lambda>_.
     bindA (io_call L (\<lambda>_. ()) id) (\<lambda>_.
     rename_into L json (path_in dir PROVENANCE_FILENAME)))))"

text \<open>A missing file is told apart from a failing read by the kind of the error.\<close>

definition read_provenance :: "pull_lib \<Rightarrow> string \<Rightarrow> Provenance option pull_act" where
  "read_provenance L dir =
     (let path = path_in dir PROVENANCE_FILENAME in
      bindA (io_call L (\<lambda>s. pu_files s path) id) (\<lambda>r.
      case r of
        None \<Rightarrow> okA None
      | Some b \<Rightarrow> (case andThen (pl_from_slice L b) (\<lambda>v. of_option (pl_data_error L v) (provenance_from_json v)) of
            Inl e \<Rightarrow> errA (PullIo (''parsing '' @ path @ '': '' @ e))
          | Inr prov \<Rightarrow>
              if pv_schema_version prov \<noteq> PROVENANCE_SCHEMA_VERSION then
                errA (PullIo (path @ '' schema_version='' @ show_nat (unat (pv_schema_version prov)) @
                  '' unsupported (expected '' @ show_nat (unat PROVENANCE_SCHEMA_VERSION) @ '')''))
              else okA (Some prov))))"

definition pull_chat_template_sidecar :: "pull_lib \<Rightarrow> string \<Rightarrow> string option pull_act" where
  "pull_chat_template_sidecar L dir =
     (let p = path_in dir ''chat_template.sha256.txt'' in
      bindA (path_exists L p) (\<lambda>there.
      if \<not> there then okA None
      else bindA (pull_read_to_string L p) (\<lambda>raw. okA (Some (trim raw)))))"

definition pull_sha256_file :: "pull_lib \<Rightarrow> string \<Rightarrow> string pull_act" where
  "pull_sha256_file L path = bindA (read_bytes L path) (\<lambda>b. okA (hex_encode L (sha256 L b)))"

text \<open>The first of the largest files, in the order the directory lists them.\<close>

fun largest :: "(string \<times> bytes) option \<Rightarrow> (string \<times> bytes) list \<Rightarrow> (string \<times> bytes) option" where
  "largest best [] = best"
| "largest best (f # fs) =
     largest (case best of None \<Rightarrow> Some f | Some b \<Rightarrow> if length (snd b) < length (snd f) then Some f else best) fs"

definition pick_largest_file :: "pull_lib \<Rightarrow> (string \<times> bytes) list \<Rightarrow> (string \<times> bytes) pull_act" where
  "pick_largest_file L files =
     bindA (io_call L (\<lambda>_. largest None files) id) (\<lambda>best.
     case best of None \<Rightarrow> errA (PullIo ''oras pull produced no files in staging dir'') | Some f \<Rightarrow> okA f)"

definition cache_hit :: "pull_lib \<Rightarrow> ParsedRef \<Rightarrow> string \<Rightarrow> PulledArtifact pull_act" where
  "cache_hit L p dir =
     bindA (pull_read_to_string L (path_in dir ''sha256.txt'')) (\<lambda>txt.
     bindA (pull_sha256_file L (path_in dir ''blob.bin'')) (\<lambda>got.
     if got \<noteq> trim txt then errA (PullSha256Mismatch (trim txt) got)
     else bindA (pull_chat_template_sidecar L dir) (\<lambda>ct.
       okA \<lparr> pa_reference = p, pa_blob_path = path_in dir ''blob.bin'', pa_sha256_hex = trim txt,
             pa_chat_template_sha256_hex = ct \<rparr>)))"

definition write_sidecars :: "pull_lib \<Rightarrow> ParsedRef \<Rightarrow> string \<Rightarrow> string \<Rightarrow> string option \<Rightarrow> unit pull_act" where
  "write_sidecars L p dir hash ct =
     bindA (pull_write L (path_in dir ''ref.txt'') (canonical p)) (\<lambda>_.
     bindA (pull_write L (path_in dir ''sha256.txt'') hash) (\<lambda>_.
     case ct of None \<Rightarrow> okA () | Some h \<Rightarrow> pull_write L (path_in dir ''chat_template.sha256.txt'') h))"

text \<open>The part of a pull up to the signature check: the files of the staging directory and the annotation.\<close>

definition fetch_verified :: "pull_lib \<Rightarrow> ParsedRef \<Rightarrow> PullConfig \<Rightarrow> ((string \<times> bytes) list \<times> string option) pull_act" where
  "fetch_verified L p cfg =
     bindA (run_oras_manifest_fetch L p) (\<lambda>manifest.
     bindA (liftA (extract_chat_template_annotation manifest)) (\<lambda>ct.
     bindA (create_dir_all L (pc_cache_dir cfg)) (\<lambda>_.
     bindA (io_call L (\<lambda>_. ()) id) (\<lambda>_.
     bindA (run_oras_pull L p) (\<lambda>staged.
     bindA (run_cosign_verify L p cfg) (\<lambda>_.
     okA (staged, ct)))))))"

definition install :: "pull_lib \<Rightarrow> ParsedRef \<Rightarrow> PullConfig \<Rightarrow> string \<Rightarrow> (string \<times> bytes) list \<Rightarrow> string option
    \<Rightarrow> PulledArtifact pull_act" where
  "install L p cfg dir staged ct =
     bindA (pick_largest_file L staged) (\<lambda>blob.
     bindA (io_call L (\<lambda>_. hex_encode L (sha256 L (snd blob))) id) (\<lambda>hash.
     bindA (create_dir_all L dir) (\<lambda>_.
     bindA (write_sidecars L p dir hash ct) (\<lambda>_.
     bindA (rename_into L (snd blob) (path_in dir ''blob.bin'')) (\<lambda>_.
     bindA (getA (\<lambda>s. rfc3339_now L (pu_tick s))) (\<lambda>now.
     bindA (write_provenance L dir \<lparr> pv_schema_version = PROVENANCE_SCHEMA_VERSION, pv_oci_ref = canonical p,
        pv_manifest_digest = pr_sha256_hex p, pv_blob_sha256 = hash, pv_chat_template_sha256 = ct,
        pv_cosign = cosign_record cfg, pv_pulled_at = now \<rparr>) (\<lambda>_.
     okA \<lparr> pa_reference = p, pa_blob_path = path_in dir ''blob.bin'', pa_sha256_hex = hash,
           pa_chat_template_sha256_hex = ct \<rparr>)))))))"

definition fresh_pull :: "pull_lib \<Rightarrow> ParsedRef \<Rightarrow> PullConfig \<Rightarrow> string \<Rightarrow> PulledArtifact pull_act" where
  "fresh_pull L p cfg dir =
     bindA (fetch_verified L p cfg) (\<lambda>(staged, ct). install L p cfg dir staged ct)"

definition pull :: "pull_lib \<Rightarrow> string \<Rightarrow> PullConfig \<Rightarrow> PulledArtifact pull_act" where
  "pull L reference cfg =
     bindA (liftA (require_tool L ''oras'')) (\<lambda>_.
     bindA (liftA (require_tool L ''cosign'')) (\<lambda>_.
     bindA (liftA (parse_ref reference)) (\<lambda>p.
     let dir = target_dir (pc_cache_dir cfg) (pr_sha256_hex p) in
     bindA (path_exists L (path_in dir ''blob.bin'')) (\<lambda>b.
     bindA (if b then path_exists L (path_in dir ''sha256.txt'') else okA False) (\<lambda>hit.
     if hit then cache_hit L p dir else fresh_pull L p cfg dir)))))"

end
