(* ===== verification/PullSafety.thy ===== *)
theory PullSafety
  imports Pull
begin

text \<open>
  What \<open>aegis pull\<close> guarantees of its cache: a blob is only ever put there after \<open>cosign\<close> accepted the
  reference of its directory, whatever fails on the way; what a cache hit checks, and what it does not.
\<close>

section \<open>References\<close>

lemma ascii_lower_hex: "is_hexdigit c \<Longrightarrow> is_hexdigit (ascii_lower c) \<and> \<not> is_upper (ascii_lower c)"
  by (auto simp: ascii_lower_def is_hexdigit_def is_digit_def is_upper_def of_char_of)

lemma parse_ref_Inr:
  "parse_ref s = Inr p \<longleftrightarrow>
     (\<exists>hex. s = pr_registry p @ ''/'' @ pr_repository p @ (case pr_tag p of Some t \<Rightarrow> '':'' @ t | None \<Rightarrow> '''') @ ''@sha256:'' @ hex \<and>
       length hex = 64 \<and> list_all is_hexdigit hex \<and> pr_sha256_hex p = map ascii_lower hex \<and>
       pr_registry p \<noteq> [] \<and> pr_repository p \<noteq> [] \<and> CHR ''/'' \<notin> set (pr_registry p) \<and>
       CHR ''@'' \<notin> set (pr_registry p) \<union> set (pr_repository p) \<and>
       (case pr_tag p of None \<Rightarrow> CHR '':'' \<notin> set (pr_repository p)
        | Some t \<Rightarrow> CHR '':'' \<notin> set t \<and> CHR ''@'' \<notin> set t))"
  (is "?l \<longleftrightarrow> ?r")
proof
  assume l: ?l
  then obtain head digest where 1: "split_at (CHR ''@'') s = Some (head, digest)"
    unfolding parse_ref_def by (cases "split_at (CHR ''@'') s") auto
  with l obtain hex where 2: "parse_digest s digest = Inr hex"
    unfolding parse_ref_def by (auto simp: andThen_def split: sum.splits)
  obtain registry rest where 31: "split_at (CHR ''/'') head = Some (registry, rest)"
    using l unfolding parse_ref_def by (cases "split_at (CHR ''/'') head") (auto simp: 1 2 andThen_def)
  obtain repository tag where 41: "split_tag rest = (repository, tag)" by fastforce
  have 5: "registry \<noteq> []" "rest \<noteq> []" "repository \<noteq> []"
    and p: "p = \<lparr> pr_registry = registry, pr_repository = repository, pr_tag = tag, pr_sha256_hex = map ascii_lower hex \<rparr>"
    using l by (simp_all add: parse_ref_def 1 2 31 41 andThen_def split: if_splits)
  note 3 = 31 5(1,2) and 4 = 41 5(3)
  from 2 have hex: "digest = ''sha256:'' @ hex" "length hex = 64" "list_all is_hexdigit hex"
    unfolding parse_digest_def by (auto simp: strip_prefix_Some split: option.splits if_splits)
  from 1 3 have s: "s = head @ CHR ''@'' # digest" "CHR ''@'' \<notin> set head"
    "head = registry @ CHR ''/'' # rest" "CHR ''/'' \<notin> set registry" by (simp_all add: split_at_Some)
  from 4(1) consider t where "rest = repository @ CHR '':'' # t" "CHR '':'' \<notin> set t" "tag = Some t"
    | "rest = repository" "CHR '':'' \<notin> set repository" "tag = None"
    unfolding split_tag_def by (auto simp: rsplit_at_Some rsplit_at_None split: option.splits)
  then show ?r using s hex 3 4 p by cases auto
next
  assume ?r
  then obtain hex where h: "s = pr_registry p @ ''/'' @ pr_repository p @ (case pr_tag p of Some t \<Rightarrow> '':'' @ t | None \<Rightarrow> '''') @ ''@sha256:'' @ hex"
       "length hex = 64" "list_all is_hexdigit hex" "pr_sha256_hex p = map ascii_lower hex"
       "pr_registry p \<noteq> []" "pr_repository p \<noteq> []" "CHR ''/'' \<notin> set (pr_registry p)"
       "CHR ''@'' \<notin> set (pr_registry p) \<union> set (pr_repository p)"
       "case pr_tag p of None \<Rightarrow> CHR '':'' \<notin> set (pr_repository p)
        | Some t \<Rightarrow> CHR '':'' \<notin> set t \<and> CHR ''@'' \<notin> set t" by blast
  define rest where "rest = pr_repository p @ (case pr_tag p of Some t \<Rightarrow> '':'' @ t | None \<Rightarrow> '''')"
  have "split_at (CHR ''@'') s = Some (pr_registry p @ CHR ''/'' # rest, ''sha256:'' @ hex)"
    using h(1,8,9) by (auto simp: split_at_Some rest_def split: option.splits)
  moreover have "parse_digest s (''sha256:'' @ hex) = Inr hex"
    using h(2,3) by (simp add: parse_digest_def strip_prefix_def)
  moreover have "split_at (CHR ''/'') (pr_registry p @ CHR ''/'' # rest) = Some (pr_registry p, rest)" using h(7) by simp
  moreover have "rest \<noteq> []" using h(6) by (simp add: rest_def)
  moreover have "split_tag rest = (pr_repository p, pr_tag p)"
  proof (cases "pr_tag p")
    case None
    then have "rsplit_at (CHR '':'') rest = None" using h(9) by (simp add: rest_def rsplit_at_None)
    then show ?thesis using None by (simp add: split_tag_def rest_def)
  next
    case (Some t)
    then have "rsplit_at (CHR '':'') rest = Some (pr_repository p, t)" using h(9) by (simp add: rest_def rsplit_at_Some)
    then show ?thesis using Some by (simp add: split_tag_def)
  qed
  ultimately show ?l using h(4,5,6) by (simp add: parse_ref_def andThen_def)
qed

lemma parsed_hex: "parse_ref s = Inr p \<Longrightarrow> is_valid_sha256_hex (pr_sha256_hex p)"
  unfolding parse_ref_Inr is_valid_sha256_hex_def using ascii_lower_hex by (auto simp: list_all_iff)

text \<open>C30: Reading and printing references agree. A reference that parses prints in canonical form, which
  is the reference itself with its digest in lower case, and which parses to the same reference again;
  and every accepted reference carries a full SHA-256 digest after its only at sign.\<close>

theorem oci_ref_round_trip:
  assumes "parse_ref s = Inr p"
  shows "parse_ref (canonical p) = Inr p \<and> is_valid_sha256_hex (pr_sha256_hex p) \<and>
     (\<exists>head hex. s = head @ ''@sha256:'' @ hex \<and> CHR ''@'' \<notin> set head \<and> canonical p = head @ ''@sha256:'' @ map ascii_lower hex)"
proof -
  obtain hex where h: "s = pr_registry p @ ''/'' @ pr_repository p @ (case pr_tag p of Some t \<Rightarrow> '':'' @ t | None \<Rightarrow> '''') @ ''@sha256:'' @ hex"
       "length hex = 64" "list_all is_hexdigit hex" "pr_sha256_hex p = map ascii_lower hex"
       "pr_registry p \<noteq> []" "pr_repository p \<noteq> []" "CHR ''/'' \<notin> set (pr_registry p)"
       "CHR ''@'' \<notin> set (pr_registry p) \<union> set (pr_repository p)"
       "case pr_tag p of None \<Rightarrow> CHR '':'' \<notin> set (pr_repository p)
        | Some t \<Rightarrow> CHR '':'' \<notin> set t \<and> CHR ''@'' \<notin> set t"
    using assms [unfolded parse_ref_Inr] by blast
  have low: "list_all (\<lambda>c. is_hexdigit c \<and> \<not> is_upper c) (pr_sha256_hex p)"
    using h(3) ascii_lower_hex by (auto simp: h(4) list_all_iff)
  then have same: "map ascii_lower (pr_sha256_hex p) = pr_sha256_hex p"
    by (auto simp: list_all_iff ascii_lower_def intro: map_idI)
  have "parse_ref (canonical p) = Inr p"
    unfolding parse_ref_Inr
    by (rule exI [of _ "pr_sha256_hex p"])
      (use h low same in \<open>auto simp: canonical_def list_all_iff\<close>)
  moreover have "is_valid_sha256_hex (pr_sha256_hex p)" using low h(2,4) by (simp add: is_valid_sha256_hex_def)
  moreover have "\<exists>head hex. s = head @ ''@sha256:'' @ hex \<and> CHR ''@'' \<notin> set head \<and> canonical p = head @ ''@sha256:'' @ map ascii_lower hex"
    by (rule exI [of _ "pr_registry p @ ''/'' @ pr_repository p @ (case pr_tag p of Some t \<Rightarrow> '':'' @ t | None \<Rightarrow> '''')"], rule exI [of _ hex])
      (use h in \<open>auto simp: canonical_def split: option.splits\<close>)
  ultimately show ?thesis by blast
qed

theorem oci_ref_round_trip_witness:
  "\<exists>p. parse_ref (''ghcr.io/a/m:v1@sha256:'' @ replicate 64 CHR ''A'') = Inr p \<and>
     parse_ref (canonical p) = Inr p \<and> pr_sha256_hex p = replicate 64 CHR ''a''"
proof -
  let ?p = "\<lparr> pr_registry = ''ghcr.io'', pr_repository = ''a/m'', pr_tag = Some ''v1'', pr_sha256_hex = replicate 64 CHR ''a'' \<rparr>"
  have "parse_ref (''ghcr.io/a/m:v1@sha256:'' @ replicate 64 CHR ''A'') = Inr ?p" by code_simp
  with oci_ref_round_trip [OF this] show ?thesis by (intro exI [of _ ?p]) simp
qed

section \<open>Which files a call may change\<close>

definition is_blob :: "string \<Rightarrow> bool" where
  "is_blob path \<longleftrightarrow> suffix ''/blob.bin'' path"

text \<open>A step that only moves time on, adds to the log and changes no blob but those of \<open>X\<close>.\<close>

definition pull_step :: "string set \<Rightarrow> pull_state \<Rightarrow> pull_state \<Rightarrow> bool" where
  "pull_step X s s' \<longleftrightarrow> pu_tick s \<le> pu_tick s' \<and> prefix (pu_log s) (pu_log s') \<and>
     (\<forall>path. is_blob path \<and> path \<notin> X \<longrightarrow> pu_files s' path = pu_files s path)"

interpretation pull_order: step_order "pull_step X" for X
  by unfold_locales (auto simp: pull_step_def)

lemma io_call_moves:
  "(\<And>s. pull_step X s (upd s)) \<Longrightarrow> moves (pull_step X) (io_call L v upd)"
  by (rule movesI) (auto simp: io_call_def pull_step_def split: if_splits)

lemma io_id_moves [moves_intros]: "moves (pull_step X) (io_call L v id)"
  by (rule io_call_moves) (simp add: pull_step_def)

lemma dir_moves [moves_intros]: "moves (pull_step X) (create_dir_all L path)"
  unfolding create_dir_all_def by (rule io_id_moves)

lemma exists_moves [moves_intros]: "moves (pull_step X) (path_exists L path)"
  by (rule movesI) (auto simp: path_exists_def pull_step_def)

lemma write_moves: "\<not> is_blob path \<or> path \<in> X \<Longrightarrow> moves (pull_step X) (pull_write L path b)"
  by (rule movesI) (auto simp: pull_write_def pull_step_def split: if_splits option.splits)

lemma rename_moves: "\<not> is_blob path \<or> path \<in> X \<Longrightarrow> moves (pull_step X) (rename_into L b path)"
  unfolding rename_into_def by (rule io_call_moves) (auto simp: pull_step_def)

lemma reads_move [moves_intros]:
  "moves (pull_step X) (read_bytes L path)"
  unfolding read_bytes_def by (intro moves_cases pull_order.basics moves_intros)

lemma text_reads_move [moves_intros]:
  "moves (pull_step X) (pull_read_to_string L path)" "moves (pull_step X) (pull_sha256_file L path)"
  unfolding pull_read_to_string_def pull_sha256_file_def by (intro moves_cases pull_order.basics moves_intros)+

lemma sidecar_moves [moves_intros]: "moves (pull_step X) (pull_chat_template_sidecar L dir)"
  unfolding pull_chat_template_sidecar_def Let_def by (intro moves_cases pull_order.basics moves_intros)

lemma cache_hit_moves [moves_intros]: "moves (pull_step X) (cache_hit L p dir)"
  unfolding cache_hit_def by (intro moves_cases pull_order.basics moves_intros)

lemma tools_move [moves_intros]:
  "moves (pull_step X) (run_oras_manifest_fetch L p)" "moves (pull_step X) (run_oras_pull L p)"
  "moves (pull_step X) (run_cosign_verify L p cfg)"
  unfolding run_oras_manifest_fetch_def run_oras_pull_def run_cosign_verify_def
  by (intro moves_cases pull_order.basics io_call_moves; simp add: pull_step_def)+

lemma fetch_moves [moves_intros]: "moves (pull_step X) (fetch_verified L p cfg)"
  unfolding fetch_verified_def by (intro moves_cases pull_order.basics moves_intros)

lemma path_in_slash: "dir \<noteq> [] \<Longrightarrow> last dir \<noteq> CHR ''/'' \<Longrightarrow> path_in dir leaf = dir @ ''/'' @ leaf"
  by (simp add: path_in_def)

lemma not_blob_leaf:
  assumes "leaf \<in> {''ref.txt'', ''sha256.txt'', ''chat_template.sha256.txt'', ''provenance.json''}"
  shows "\<not> is_blob (path_in dir leaf)"
  using assms by (auto simp: is_blob_def path_in_def suffix_def append_eq_append_conv2 Cons_eq_append_conv append_eq_Cons_conv)

lemma install_moves:
  "moves (pull_step {path_in dir ''blob.bin''}) (install L p cfg dir staged ct)"
  unfolding install_def pick_largest_file_def write_sidecars_def write_provenance_def PROVENANCE_FILENAME_def
  by (intro moves_cases pull_order.basics moves_intros write_moves rename_moves; simp add: not_blob_leaf)

section \<open>The cache only holds verified blobs\<close>

definition blob_path :: "string \<Rightarrow> string \<Rightarrow> string" where
  "blob_path cache hex = path_in (target_dir cache hex) ''blob.bin''"

definition verified :: "string \<Rightarrow> pull_state \<Rightarrow> bool" where
  "verified hex s \<longleftrightarrow> (\<exists>p cfg. RanCosign (cosign_args p cfg) True \<in> set (pu_log s) \<and> pr_sha256_hex p = hex)"

definition cache_verified :: "string \<Rightarrow> pull_state \<Rightarrow> bool" where
  "cache_verified cache s \<longleftrightarrow>
     (\<forall>hex. is_valid_sha256_hex hex \<and> pu_files s (blob_path cache hex) \<noteq> None \<longrightarrow> verified hex s)"

lemma valid_hex_ends: "is_valid_sha256_hex hex \<Longrightarrow> hex \<noteq> [] \<and> last hex \<noteq> CHR ''/''"
  by (cases hex rule: rev_cases) (auto simp: is_valid_sha256_hex_def is_hexdigit_def is_digit_def)

lemma target_dir_ends:
  "is_valid_sha256_hex hex \<Longrightarrow> target_dir cache hex \<noteq> [] \<and> last (target_dir cache hex) \<noteq> CHR ''/''"
  using valid_hex_ends by (auto simp: target_dir_def path_in_def)

lemma blob_path_inj:
  assumes "is_valid_sha256_hex a" and "is_valid_sha256_hex b" and "blob_path cache a = blob_path cache b"
  shows "a = b"
proof -
  have "target_dir cache a = target_dir cache b"
    using assms(3) target_dir_ends [OF assms(1)] target_dir_ends [OF assms(2)] by (simp add: blob_path_def path_in_slash)
  then show ?thesis by (simp add: target_dir_def path_in_def split: if_splits)
qed

lemma is_blob_path: "is_valid_sha256_hex a \<Longrightarrow> is_blob (blob_path cache a)"
  using target_dir_ends [of a cache] by (auto simp: blob_path_def path_in_slash is_blob_def suffix_def)

lemma verified_grows: "prefix (pu_log s) (pu_log s') \<Longrightarrow> verified hex s \<Longrightarrow> verified hex s'"
  using set_mono_prefix by (fastforce simp: verified_def)

lemma cache_verified_quiet:
  "cache_verified cache s \<Longrightarrow> pull_step {} s s' \<Longrightarrow> cache_verified cache s'"
  unfolding cache_verified_def using verified_grows is_blob_path by (auto simp: pull_step_def)

lemma cache_verified_install:
  assumes "cache_verified cache s" and "verified hex s" and "is_valid_sha256_hex hex"
    and "pull_step {blob_path cache hex} s s'"
  shows "cache_verified cache s'"
  unfolding cache_verified_def
proof (intro allI impI, elim conjE)
  fix h assume h: "is_valid_sha256_hex h" "pu_files s' (blob_path cache h) \<noteq> None"
  have log: "prefix (pu_log s) (pu_log s')" using assms(4) by (simp add: pull_step_def)
  show "verified h s'"
  proof (cases "h = hex")
    case True then show ?thesis using assms(2) verified_grows [OF log] by simp
  next
    case False
    then have "blob_path cache h \<noteq> blob_path cache hex" using blob_path_inj h(1) assms(3) by blast
    then have "pu_files s (blob_path cache h) \<noteq> None"
      using h assms(4) is_blob_path by (auto simp: pull_step_def)
    then show ?thesis using assms(1) h(1) verified_grows [OF log] by (auto simp: cache_verified_def)
  qed
qed

lemma io_call_Inr: "io_call L v upd s = (Inr x, s') \<Longrightarrow> v s = x \<and> s' = (upd s)\<lparr> pu_tick := Suc (pu_tick s) \<rparr>"
  by (auto simp: io_call_def split: if_splits)

lemma cosign_Inr:
  assumes "run_cosign_verify L p cfg s = (Inr u, s')"
  shows "RanCosign (cosign_args p cfg) True \<in> set (pu_log s')"
  using assms unfolding run_cosign_verify_def bindA_eq_ok
  by (auto simp: act_simps dest!: io_call_Inr split: if_splits)

lemma fetch_Inr:
  assumes "fetch_verified L p cfg s = (Inr x, s')"
  shows "verified (pr_sha256_hex p) s'"
  using assms unfolding fetch_verified_def bindA_eq_ok verified_def
  by (auto simp: act_simps dest: cosign_Inr)

lemma pull_cases:
  assumes "pull L reference cfg s = (r, s')"
  obtains (early) "pull_step {} s s'" "isl r"
  | (hit) p s1 where "parse_ref reference = Inr p" "pull_step {} s s1" "pu_files s1 = pu_files s"
      "pu_files s (blob_path (pc_cache_dir cfg) (pr_sha256_hex p)) \<noteq> None"
      "cache_hit L p (target_dir (pc_cache_dir cfg) (pr_sha256_hex p)) s1 = (r, s')"
  | (fresh) p s1 where "parse_ref reference = Inr p" "pull_step {} s s1" "pu_files s1 = pu_files s"
      "fresh_pull L p cfg (target_dir (pc_cache_dir cfg) (pr_sha256_hex p)) s1 = (r, s')"
proof (cases "isl (require_tool L ''oras'') \<or> isl (require_tool L ''cosign'') \<or> isl (parse_ref reference)")
  case True
  then have "s' = s \<and> isl r" using assms unfolding pull_def
    by (auto simp: act_simps isl_def bindA_def liftA_def split: sum.splits)
  then show ?thesis using early pull_order.step_refl by simp
next
  case False
  then obtain p where tools: "require_tool L ''oras'' = Inr ()" "require_tool L ''cosign'' = Inr ()"
    and p: "parse_ref reference = Inr p"
    by (cases "require_tool L ''oras''"; cases "require_tool L ''cosign''"; cases "parse_ref reference") auto
  let ?dir = "target_dir (pc_cache_dir cfg) (pr_sha256_hex p)"
  let ?blob = "path_in ?dir ''blob.bin''" and ?t = "\<lambda>s. s\<lparr> pu_tick := Suc (pu_tick s) \<rparr>"
  define b where "b \<longleftrightarrow> \<not> pl_fails L (pu_tick s) \<and> pu_files s ?blob \<noteq> None"
  have t: "pull_step {} s (?t s)" "pull_step {} s (?t (?t s))" by (simp_all add: pull_step_def)
  have 1: "path_exists L ?blob s = (Inr b, ?t s)" by (simp add: path_exists_def b_def)
  obtain hit s1 where 2: "(if b then path_exists L (path_in ?dir ''sha256.txt'') else okA False) (?t s) = (Inr hit, s1)"
    and s1: "s1 \<in> {?t s, ?t (?t s)}" "hit \<Longrightarrow> b" by (cases b) (auto simp: path_exists_def act_simps)
  have run: "(if hit then cache_hit L p ?dir else fresh_pull L p cfg ?dir) s1 = (r, s')"
    using assms unfolding pull_def
    by (simp add: tools p Let_def bindA_liftA_ok bindA_ok [where m = "path_exists L ?blob", OF 1]
      bindA_ok [where m = "if b then path_exists L (path_in ?dir ''sha256.txt'') else okA False", OF 2])
  show ?thesis
  proof (cases hit)
    case True
    then have "pu_files s (blob_path (pc_cache_dir cfg) (pr_sha256_hex p)) \<noteq> None" using s1(2) b_def by (simp add: blob_path_def)
    then show ?thesis using hit [OF p _ _ _] run True s1(1) t by auto
  next
    case False
    then show ?thesis using fresh [OF p] run s1(1) t by auto
  qed
qed

text \<open>Any sequence of pulls into one cache directory, with any references, keys and outcomes.\<close>

inductive pulls :: "pull_lib \<Rightarrow> string \<Rightarrow> pull_state \<Rightarrow> pull_state \<Rightarrow> bool" for L cache s0 where
  start: "pulls L cache s0 s0"
| another: "pulls L cache s0 s \<Longrightarrow> pc_cache_dir cfg = cache \<Longrightarrow> pull L reference cfg s = (r, s') \<Longrightarrow> pulls L cache s0 s'"

lemma fresh_pull_cases:
  assumes "fresh_pull L p cfg dir s = (r, s')"
  obtains (failed) "pull_step {} s s'" "isl r"
  | (fetched) staged ct s1 where "pull_step {} s s1" "verified (pr_sha256_hex p) s1" "install L p cfg dir staged ct s1 = (r, s')"
proof (cases "fetch_verified L p cfg s")
  case (Pair r1 s1)
  note step = movesD [OF fetch_moves Pair]
  show ?thesis
  proof (cases r1)
    case (Inl e)
    then have "s' = s1" "isl r" using assms Pair by (auto simp: fresh_pull_def act_simps)
    then show ?thesis using failed step by simp
  next
    case (Inr x)
    obtain staged ct where x: "x = (staged, ct)" by fastforce
    have "install L p cfg dir staged ct s1 = (r, s')" using assms Pair Inr x by (simp add: fresh_pull_def act_simps)
    then show ?thesis using fetched step fetch_Inr Pair Inr by blast
  qed
qed

lemma pull_keeps_cache:
  assumes "cache_verified (pc_cache_dir cfg) s" and "pull L reference cfg s = (r, s')"
  shows "cache_verified (pc_cache_dir cfg) s'"
  using assms(2)
proof (cases rule: pull_cases)
  case early then show ?thesis using assms(1) cache_verified_quiet by blast
next
  case (hit p s1)
  then have "pull_step {} s1 s'" using movesD [OF cache_hit_moves] by blast
  then show ?thesis using cache_verified_quiet assms(1) hit(2) by blast
next
  case (fresh p s1)
  have hex: "is_valid_sha256_hex (pr_sha256_hex p)" using fresh(1) parsed_hex by blast
  have s1: "cache_verified (pc_cache_dir cfg) s1" using cache_verified_quiet assms(1) fresh(2) by blast
  from fresh(4) show ?thesis
  proof (cases rule: fresh_pull_cases)
    case failed then show ?thesis using s1 cache_verified_quiet by blast
  next
    case (fetched staged ct s2)
    have "pull_step {blob_path (pc_cache_dir cfg) (pr_sha256_hex p)} s2 s'"
      unfolding blob_path_def using movesD [OF install_moves fetched(3)] .
    then show ?thesis using cache_verified_install cache_verified_quiet [OF s1 fetched(1)] fetched(2) hex by blast
  qed
qed

lemma cache_hit_Inr:
  assumes "cache_hit L p dir s = (Inr art, s')" and "is_blob (path_in dir ''blob.bin'')"
  shows "pa_reference art = p \<and> pa_blob_path art = path_in dir ''blob.bin'' \<and>
     (\<exists>b. pu_files s' (path_in dir ''blob.bin'') = Some b \<and> pa_sha256_hex art = hex_encode L (sha256 L b))"
proof -
  from assms(1) obtain raw got ct t u where 1: "pull_sha256_file L (path_in dir ''blob.bin'') t = (Inr got, u)"
    and 2: "pull_chat_template_sidecar L dir u = (Inr ct, s')" and art: "got = trim raw"
      "art = \<lparr> pa_reference = p, pa_blob_path = path_in dir ''blob.bin'', pa_sha256_hex = trim raw, pa_chat_template_sha256_hex = ct \<rparr>"
    unfolding cache_hit_def by (auto simp: act_results act_simps split: if_splits)
  from 1 obtain b where "pu_files u (path_in dir ''blob.bin'') = Some b" "got = hex_encode L (sha256 L b)"
    unfolding pull_sha256_file_def read_bytes_def by (auto simp: act_results act_simps dest!: io_call_Inr split: option.splits)
  moreover have "pull_step {} u s'" using movesD [OF sidecar_moves 2] .
  ultimately show ?thesis using assms(2) art by (simp add: pull_step_def)
qed

lemma provenance_moves: "moves (pull_step {}) (write_provenance L dir prov)"
  unfolding write_provenance_def PROVENANCE_FILENAME_def
  by (intro moves_cases pull_order.basics moves_intros rename_moves; simp add: not_blob_leaf)

lemma install_Inr:
  assumes "install L p cfg dir staged ct s = (Inr art, s')" and "is_blob (path_in dir ''blob.bin'')"
  shows "pa_reference art = p \<and> pa_blob_path art = path_in dir ''blob.bin'' \<and>
     (\<exists>b. pu_files s' (path_in dir ''blob.bin'') = Some b \<and> pa_sha256_hex art = hex_encode L (sha256 L b))"
proof -
  from assms(1) obtain blob hash t u now prov where 1: "rename_into L (snd blob) (path_in dir ''blob.bin'') t = (Inr (), u)"
    and 2: "write_provenance L dir prov u = (Inr (), s')" and hash: "hash = hex_encode L (sha256 L (snd blob))"
    and art: "art = \<lparr> pa_reference = p, pa_blob_path = path_in dir ''blob.bin'', pa_sha256_hex = hash, pa_chat_template_sha256_hex = ct \<rparr>"
    unfolding install_def by (auto simp: act_results act_simps getA_def dest!: io_call_Inr)
  from 1 have "pu_files u (path_in dir ''blob.bin'') = Some (snd blob)"
    unfolding rename_into_def by (auto dest!: io_call_Inr)
  moreover have "pull_step {} u s'" using movesD [OF provenance_moves 2] .
  ultimately show ?thesis using assms(2) art hash by (simp add: pull_step_def)
qed

text \<open>C19: Nothing unsigned comes out of the cache. After any sequence of pulls into one cache directory
  that held no blob, whatever failed on the way, a pull that succeeds returns a reference with the
  digest that was asked for, \<open>cosign\<close> has accepted a reference with that digest, the blob is in the
  directory of that digest, and the reported digest is that of the bytes there.\<close>

theorem pulled_is_verified:
  assumes "pulls L (pc_cache_dir cfg) s0 s" and "\<And>path. is_blob path \<Longrightarrow> pu_files s0 path = None"
    and "pull L reference cfg s = (Inr art, s')"
  shows "parse_ref reference = Inr (pa_reference art) \<and> verified (pr_sha256_hex (pa_reference art)) s' \<and>
     pa_blob_path art = blob_path (pc_cache_dir cfg) (pr_sha256_hex (pa_reference art)) \<and>
     (\<exists>b. pu_files s' (pa_blob_path art) = Some b \<and> pa_sha256_hex art = hex_encode L (sha256 L b))"
proof -
  have "cache_verified cache t" if "pulls L cache s0 t" for cache t
    using that
  proof (induction rule: pulls.induct)
    case start
    then show ?case using assms(2) is_blob_path by (auto simp: cache_verified_def)
  next
    case (another s cfg reference r s')
    then show ?case using pull_keeps_cache by blast
  qed
  then have s: "cache_verified (pc_cache_dir cfg) s" using assms(1) .
  then have s': "cache_verified (pc_cache_dir cfg) s'" using pull_keeps_cache assms(3) by blast
  have known: ?thesis if "parse_ref reference = Inr p" and "pa_reference art = p"
    and "pa_blob_path art = path_in (target_dir (pc_cache_dir cfg) (pr_sha256_hex p)) ''blob.bin''"
    and "pu_files s' (path_in (target_dir (pc_cache_dir cfg) (pr_sha256_hex p)) ''blob.bin'') = Some b"
    and "pa_sha256_hex art = hex_encode L (sha256 L b)" for p b
    using that s' parsed_hex [OF that(1)] by (auto simp: cache_verified_def blob_path_def)
  from assms(3) show ?thesis
  proof (cases rule: pull_cases)
    case early then show ?thesis by simp
  next
    case (hit p s1)
    have "is_blob (path_in (target_dir (pc_cache_dir cfg) (pr_sha256_hex p)) ''blob.bin'')"
      using is_blob_path [OF parsed_hex [OF hit(1)]] by (simp add: blob_path_def)
    from cache_hit_Inr [OF hit(5) this] known hit(1) show ?thesis by blast
  next
    case (fresh p s1)
    have blob: "is_blob (path_in (target_dir (pc_cache_dir cfg) (pr_sha256_hex p)) ''blob.bin'')"
      using is_blob_path [OF parsed_hex [OF fresh(1)]] by (simp add: blob_path_def)
    from fresh(4) show ?thesis
    proof (cases rule: fresh_pull_cases)
      case failed then show ?thesis by simp
    next
      case (fetched staged ct s2)
      from install_Inr [OF fetched(3) blob] known fresh(1) show ?thesis by blast
    qed
  qed
qed

section \<open>What a cache hit does not check\<close>

text \<open>A file system without failures.\<close>

abbreviation no_failures :: "pull_lib \<Rightarrow> bool" where
  "no_failures L \<equiv> \<forall>t. \<not> pl_fails L t"

lemma path_in_inject [simp]: "path_in dir a = path_in dir b \<longleftrightarrow> a = b"
  by (simp add: path_in_def)

lemma io_ok: "no_failures L \<Longrightarrow> io_call L v upd s = (Inr (v s), (upd s)\<lparr> pu_tick := Suc (pu_tick s) \<rparr>)"
  by (simp add: io_call_def)

lemma hex_text:
  assumes "list_all is_hexdigit h"
  shows "utf8_ok h" and "trim h = h"
proof -
  have "list_all is_ascii_char h" "list_all (\<lambda>c. 32 < byte_val c \<and> byte_val c < 128) h"
    using assms by (auto simp: list_all_iff is_hexdigit_def is_digit_def is_ascii_char_def)
  then show "utf8_ok h" "trim h = h" using utf8_ok_ascii trim_printable by blast+
qed

text \<open>Fetching and checking touch no file of the cache.\<close>

interpretation files_order: step_order "\<lambda>s s'. pu_files s' = pu_files s"
  by unfold_locales auto

lemma files_io: "moves (\<lambda>s s'. pu_files s' = pu_files s) (io_call L v upd)" if "\<And>s. pu_files (upd s) = pu_files s"
  using that by (intro movesI) (auto simp: io_call_def split: if_splits)

lemma fetch_files_move: "moves (\<lambda>s s'. pu_files s' = pu_files s) (fetch_verified L p cfg)"
  unfolding fetch_verified_def run_oras_manifest_fetch_def run_oras_pull_def run_cosign_verify_def create_dir_all_def
  by (intro moves_cases files_order.basics files_io; simp)

lemma fetch_keeps_files: "fetch_verified L p cfg s = (r, s') \<Longrightarrow> pu_files s' = pu_files s"
  using movesD [OF fetch_files_move] by blast

lemma annotation_hex: "extract_chat_template_annotation m = Inr (Some h) \<Longrightarrow> list_all is_hexdigit h"
  by (auto simp: extract_chat_template_annotation_def is_valid_sha256_hex_def list_all_iff split: option.splits if_splits)

lemma fetch_annotation:
  "fetch_verified L p cfg s = (Inr (staged, ct), s') \<Longrightarrow> ct = Some h \<Longrightarrow> list_all is_hexdigit h"
  unfolding fetch_verified_def by (auto simp: act_results act_simps dest: annotation_hex)

lemma install_files:
  assumes "no_failures L" and "install L p cfg dir staged ct s = (Inr art, s')"
  obtains b where "art = \<lparr> pa_reference = p, pa_blob_path = path_in dir ''blob.bin'',
      pa_sha256_hex = hex_encode L (sha256 L b), pa_chat_template_sha256_hex = ct \<rparr>"
    and "pu_files s' (path_in dir ''blob.bin'') = Some b"
    and "pu_files s' (path_in dir ''sha256.txt'') = Some (hex_encode L (sha256 L b))"
    and "pu_files s' (path_in dir ''chat_template.sha256.txt'') =
      (case ct of None \<Rightarrow> pu_files s (path_in dir ''chat_template.sha256.txt'') | Some h \<Rightarrow> Some h)"
  using assms(2)
  by (auto simp: install_def pick_largest_file_def write_sidecars_def write_provenance_def rename_into_def
      create_dir_all_def pull_write_def PROVENANCE_FILENAME_def act_results act_simps io_ok [OF assms(1)] assms(1)
      split: option.splits prod.splits intro: that)

lemma hit_runs:
  assumes ok: "no_failures L" and files: "pu_files s (path_in dir ''blob.bin'') = Some b"
      "pu_files s (path_in dir ''sha256.txt'') = Some (hex_encode L (sha256 L b))"
      "pu_files s (path_in dir ''chat_template.sha256.txt'') = ct"
    and hex: "list_all is_hexdigit (hex_encode L (sha256 L b))" "\<And>h. ct = Some h \<Longrightarrow> list_all is_hexdigit h"
  shows "\<exists>s'. cache_hit L p dir s = (Inr \<lparr> pa_reference = p, pa_blob_path = path_in dir ''blob.bin'',
      pa_sha256_hex = hex_encode L (sha256 L b), pa_chat_template_sha256_hex = ct \<rparr>, s') \<and> pu_log s' = pu_log s"
  using files hex_text [OF hex(1)] hex_text [OF hex(2)] ok
  by (cases ct)
    (simp_all add: cache_hit_def pull_read_to_string_def read_bytes_def pull_sha256_file_def pull_chat_template_sidecar_def Let_def
      path_exists_def bindA_def io_ok [OF ok] okA_def)

text \<open>C23: A cache hit is not verified against the operator's configuration. When a pull succeeded into
  an empty directory, a later pull of the same reference into the same cache succeeds with the same
  artifact under every other key, identity and issuer, and runs no program: \<open>cosign\<close> is not asked
  whether the new key signed the model.\<close>

theorem cached_pull_skips_cosign:
  assumes "no_failures L" and "\<forall>b. list_all is_hexdigit (hex_encode L b)"
    and "pull L reference cfg s = (Inr art, s1)" and "\<forall>path. pu_files s path = None"
    and "pc_cache_dir cfg' = pc_cache_dir cfg"
  shows "\<exists>s2. pull L reference cfg' s1 = (Inr art, s2) \<and> pu_log s2 = pu_log s1"
  using assms(3)
proof (cases rule: pull_cases)
  case early then show ?thesis by simp
next
  case (hit p s0) then show ?thesis using assms(4) by simp
next
  case (fresh p s0)
  let ?dir = "target_dir (pc_cache_dir cfg) (pr_sha256_hex p)"
  have tools: "require_tool L ''oras'' = Inr ()" "require_tool L ''cosign'' = Inr ()"
    using assms(3) by (auto simp: pull_def act_results act_simps)
  obtain staged ct s2 where f: "fetch_verified L p cfg s0 = (Inr (staged, ct), s2)"
    and run: "install L p cfg ?dir staged ct s2 = (Inr art, s1)"
    using fresh(4) by (auto simp: fresh_pull_def act_results act_simps)
  have ct: "(case ct of None \<Rightarrow> pu_files s2 (path_in ?dir ''chat_template.sha256.txt'') | Some h \<Rightarrow> Some h) = ct"
    using fetch_keeps_files [OF f] fresh(3) assms(4) by (simp split: option.split)
  obtain b where
    art: "art = \<lparr> pa_reference = p, pa_blob_path = path_in ?dir ''blob.bin'',
      pa_sha256_hex = hex_encode L (sha256 L b), pa_chat_template_sha256_hex = ct \<rparr>"
    and files: "pu_files s1 (path_in ?dir ''blob.bin'') = Some b"
      "pu_files s1 (path_in ?dir ''sha256.txt'') = Some (hex_encode L (sha256 L b))"
      "pu_files s1 (path_in ?dir ''chat_template.sha256.txt'') = ct"
    using install_files [OF assms(1) run, unfolded ct] by blast
  let ?s = "s1\<lparr> pu_tick := Suc (Suc (pu_tick s1)) \<rparr>"
  have "\<exists>s'. cache_hit L p ?dir ?s = (Inr art, s') \<and> pu_log s' = pu_log ?s"
    unfolding art by (rule hit_runs) (use files assms(1,2) fetch_annotation [OF f] in auto)
  then obtain s' where "cache_hit L p ?dir ?s = (Inr art, s')" "pu_log s' = pu_log s1" by auto
  moreover have "pull L reference cfg' s1 = cache_hit L p ?dir ?s"
    using files assms(1) by (simp add: pull_def tools fresh(1) assms(5) path_exists_def bindA_def liftA_def Let_def)
  ultimately show ?thesis by simp
qed

section \<open>Examples\<close>

text \<open>A registry that serves one file and a signature that verifies.\<close>

definition demo_proc :: "bytes \<Rightarrow> proc_output" where
  "demo_proc out = \<lparr> po_code = Some 0, po_stdout = out, po_stderr = [] \<rparr>"

text \<open>The text of the example counts: a value is the length of its text.\<close>

definition demo_text :: "json \<Rightarrow> bytes" where
  "demo_text v = replicate (to_nat v) CHR ''x''"

definition demo_value :: "bytes \<Rightarrow> json" where
  "demo_value b = from_nat (length b)"

lemma demo_value_text [simp]: "demo_value (demo_text v) = v"
  by (simp add: demo_value_def demo_text_def)

definition demo_pull :: pull_lib where
  "demo_pull = libs.extend libs0
     (pull_lib.fields (Some [''/bin'']) (\<lambda>_. True) (\<lambda>_. False) (\<lambda>_. '''') (\<lambda>_. None)
       (\<lambda>_ _. demo_proc (json_to_string libs0 JNull)) (\<lambda>_ _. (demo_proc [], [(''m.gguf'', ''weights'')])) (\<lambda>_ _. demo_proc [])
       id (\<lambda>_. '''') (\<lambda>_. None) (\<lambda>v. Inr (demo_text v)) (\<lambda>b. Inr (demo_value b)) (\<lambda>_. ''''))"

lemma demo_pull_simps [simp]:
  "json_from_str demo_pull = json_from_str libs0" "hex_encode demo_pull = hex_encode0" "sha256 demo_pull = sha0"
  "pl_path_dirs demo_pull = Some [''/bin'']" "pl_is_file demo_pull = (\<lambda>_. True)" "pl_fails demo_pull = (\<lambda>_. False)"
  "pl_manifest_fetch demo_pull = (\<lambda>_ _. demo_proc (json_to_string libs0 JNull))"
  "pl_oras_pull demo_pull = (\<lambda>_ _. (demo_proc [], [(''m.gguf'', ''weights'')]))"
  "pl_cosign demo_pull = (\<lambda>_ _. demo_proc [])" "pl_to_vec_pretty demo_pull = (\<lambda>v. Inr (demo_text v))"
  by (simp_all add: demo_pull_def pull_lib.defs libs.defs libs0_def json_lib.defs)

lemma demo_manifest: "json_from_str json_unary (json_to_string json_unary JNull) = Inr JNull"
  by (simp add: json_unary_def Let_def)

definition demo_ref :: string where
  "demo_ref = ''ghcr.io/a/m@sha256:'' @ replicate 64 CHR ''a''"

definition demo_parsed :: ParsedRef where
  "demo_parsed = \<lparr> pr_registry = ''ghcr.io'', pr_repository = ''a/m'', pr_tag = None, pr_sha256_hex = replicate 64 CHR ''a'' \<rparr>"

lemma demo_parse: "parse_ref demo_ref = Inr demo_parsed"
  by (simp add: demo_ref_def demo_parsed_def) code_simp

definition demo_cfg :: "string option \<Rightarrow> PullConfig" where
  "demo_cfg key = \<lparr> pc_cache_dir = ''/c/aegis/models'', pc_cosign_key = key, pc_keyless_identity = None, pc_keyless_oidc_issuer = None \<rparr>"

definition empty_cache :: pull_state where
  "empty_cache = \<lparr> pu_files = (\<lambda>_. None), pu_tick = 0, pu_log = [] \<rparr>"

lemma demo_manifest_fetch: "\<exists>s'. run_oras_manifest_fetch demo_pull p s = (Inr JNull, s')"
  by (simp add: run_oras_manifest_fetch_def bindA_def io_ok demo_proc_def proc_success_def demo_manifest okA_def)

lemma demo_annotation: "extract_chat_template_annotation JNull = Inr None"
  by (simp add: extract_chat_template_annotation_def artifact_type_of_def MODEL_ARTIFACT_TYPES_def
      MODEL_GGUF_MEDIA_TYPE_def MODEL_LITERTLM_MEDIA_TYPE_def)

lemma demo_fetch: "\<exists>s'. fetch_verified demo_pull p cfg s = (Inr ([(''m.gguf'', ''weights'')], None), s')"
proof -
  obtain s1 where 1: "run_oras_manifest_fetch demo_pull p s = (Inr JNull, s1)" using demo_manifest_fetch by blast
  show ?thesis
    by (simp add: fetch_verified_def bindA_ok [where m = "run_oras_manifest_fetch demo_pull p", OF 1] demo_annotation
        bindA_liftA_ok) (simp add: bindA_def create_dir_all_def io_ok run_oras_pull_def run_cosign_verify_def demo_proc_def
        proc_success_def okA_def)
qed

lemma demo_install: "\<exists>s'. install demo_pull p cfg dir [(''m.gguf'', ''weights'')] None s =
    (Inr \<lparr> pa_reference = p, pa_blob_path = path_in dir ''blob.bin'', pa_sha256_hex = hex_encode0 (sha0 ''weights''),
       pa_chat_template_sha256_hex = None \<rparr>, s')"
  by (simp add: install_def pick_largest_file_def write_sidecars_def pull_write_def rename_into_def write_provenance_def
      create_dir_all_def bindA_def io_ok okA_def getA_def liftA_def)

lemma demo_pulled:
  "\<exists>art s. pull demo_pull demo_ref (demo_cfg None) empty_cache = (Inr art, s) \<and> pa_reference art = demo_parsed \<and>
     (\<forall>path. is_blob path \<and> path \<noteq> blob_path ''/c/aegis/models'' (replicate 64 CHR ''a'') \<longrightarrow> pu_files s path = None)"
proof -
  let ?dir = "target_dir (pc_cache_dir (demo_cfg None)) (pr_sha256_hex demo_parsed)"
  let ?s = "empty_cache\<lparr> pu_tick := Suc 0 \<rparr>"
  obtain s1 where 1: "fetch_verified demo_pull demo_parsed (demo_cfg None) ?s = (Inr ([(''m.gguf'', ''weights'')], None), s1)"
    using demo_fetch by blast
  obtain s2 where 2: "install demo_pull demo_parsed (demo_cfg None) ?dir [(''m.gguf'', ''weights'')] None s1 =
      (Inr \<lparr> pa_reference = demo_parsed, pa_blob_path = path_in ?dir ''blob.bin'',
         pa_sha256_hex = hex_encode0 (sha0 ''weights''), pa_chat_template_sha256_hex = None \<rparr>, s2)"
    using demo_install by blast
  have "pull demo_pull demo_ref (demo_cfg None) empty_cache = fresh_pull demo_pull demo_parsed (demo_cfg None) ?dir ?s"
    by (simp add: pull_def require_tool_def which_def demo_parse bindA_def liftA_def path_exists_def okA_def Let_def guardE_def)
      (simp add: empty_cache_def)
  moreover have "blob_path ''/c/aegis/models'' (replicate 64 CHR ''a'') = path_in ?dir ''blob.bin''"
    by (simp add: blob_path_def demo_cfg_def demo_parsed_def)
  moreover have "pu_files s2 path = None" if "is_blob path" "path \<noteq> path_in ?dir ''blob.bin''" for path
    using that movesD [OF fetch_moves [of "{}"] 1] movesD [OF install_moves 2] by (simp add: pull_step_def empty_cache_def)
  ultimately show ?thesis using 1 2 by (auto simp: fresh_pull_def bindA_def)
qed

theorem pulled_is_verified_witness:
  "\<exists>art s. pull demo_pull demo_ref (demo_cfg None) empty_cache = (Inr art, s) \<and> verified (replicate 64 CHR ''a'') s"
proof -
  obtain art s where run: "pull demo_pull demo_ref (demo_cfg None) empty_cache = (Inr art, s)" "pa_reference art = demo_parsed"
    using demo_pulled by blast
  have "pulls demo_pull (pc_cache_dir (demo_cfg None)) empty_cache empty_cache" by (rule pulls.start)
  from pulled_is_verified [OF this _ run(1)] run show ?thesis
    by (auto simp: empty_cache_def demo_parsed_def)
qed

lemma hex_encode0_hex: "list_all is_hexdigit (hex_encode0 b)"
proof -
  have "is_hexdigit (hex_digit n)" if "n < 16" for n
    using that by (auto simp: hex_digit_def is_hexdigit_def is_digit_def of_char_of)
  then show ?thesis using byte_val_div by (auto simp: hex_encode0_def list_all_iff)
qed

theorem cached_pull_skips_cosign_witness:
  "\<exists>art s1 s2. pull demo_pull demo_ref (demo_cfg None) empty_cache = (Inr art, s1) \<and>
     pull demo_pull demo_ref (demo_cfg (Some ''org.pub'')) s1 = (Inr art, s2) \<and> pu_log s2 = pu_log s1"
proof -
  obtain art s where run: "pull demo_pull demo_ref (demo_cfg None) empty_cache = (Inr art, s)"
    using demo_pulled by blast
  have "pc_cache_dir (demo_cfg (Some ''org.pub'')) = pc_cache_dir (demo_cfg None)" by (simp add: demo_cfg_def)
  from cached_pull_skips_cosign [OF _ _ run _ this] run show ?thesis
    by (auto simp: empty_cache_def hex_encode0_hex)
qed

end
