(* ===== verification/ToolTypes.thy ===== *)
theory ToolTypes
  imports TurnFacts Demo
begin

text \<open>
  The schemas of the tool catalog against the dispatcher of \<open>crates/inference-engine/src/turn.rs\<close>, which
  reads the arguments of a call by hand: what it enforces of the schema the model was shown, the required
  properties with their declared types, and what it does with optional properties that violate it.
\<close>

section \<open>Schemas as types\<close>

definition has_type :: "string \<Rightarrow> json \<Rightarrow> bool" where
  "has_type ty v =
     (case v of
        JNull \<Rightarrow> ty = ''null'' | JBool _ \<Rightarrow> ty = ''boolean''
      | JU64 _ \<Rightarrow> ty = ''integer'' \<or> ty = ''number'' | JI64 _ \<Rightarrow> ty = ''integer'' \<or> ty = ''number''
      | JFloat _ \<Rightarrow> ty = ''number'' | JString _ \<Rightarrow> ty = ''string''
      | JArray _ \<Rightarrow> ty = ''array'' | JObject _ \<Rightarrow> ty = ''object'')"

definition schema_required :: "json \<Rightarrow> string list" where
  "schema_required schema =
     (case Option.bind (jget schema ''required'') as_array of None \<Rightarrow> [] | Some ks \<Rightarrow> List.map_filter as_str ks)"

definition property_type :: "json \<Rightarrow> string \<Rightarrow> string option" where
  "property_type schema k =
     Option.bind (jget schema ''properties'') (\<lambda>p. Option.bind (jget p k) (\<lambda>d. Option.bind (jget d ''type'') as_str))"

text \<open>A property that is present, with the type the schema gives it; all required ones are.\<close>

fun has_property :: "string option \<Rightarrow> json option \<Rightarrow> bool" where
  "has_property ty None = False"
| "has_property None (Some v) = True"
| "has_property (Some ty) (Some v) = has_type ty v"

definition has_required :: "json \<Rightarrow> json \<Rightarrow> bool" where
  "has_required schema args = list_all (\<lambda>k. has_property (property_type schema k) (jget args k)) (schema_required schema)"

lemma map_filter_strings: "List.map_filter as_str (map JString xs) = xs"
  by (induction xs) (simp_all add: List.map_filter_simps)

lemma schema_required_simps [simp]:
  "schema_required (schema_of props required) = required" "schema_required (typed ty) = []"
  by (simp_all add: schema_required_def schema_of_def typed_def jobj_def map_filter_strings)

lemma property_type_schema [simp]:
  "property_type (schema_of props required) k = Option.bind (fmlookup (fmap_of_list (rev props)) k) (\<lambda>d. Option.bind (jget d ''type'') as_str)"
  by (simp add: property_type_def schema_of_def jobj_def)

lemma not_string: "has_type ''string'' v = False \<Longrightarrow> as_str v = None"
  by (cases v) (simp_all add: has_type_def)

lemma not_integer: "has_type ''integer'' v = False \<Longrightarrow> as_u64 v = None"
  by (cases v) (simp_all add: has_type_def)

section \<open>Ill-typed calls\<close>

abbreviation typed_arg :: "json \<Rightarrow> string \<Rightarrow> string \<Rightarrow> bool" where
  "typed_arg args k ty \<equiv> has_property (Some ty) (jget args k)"

lemma untyped_arg:
  "\<not> typed_arg args k ''string'' \<Longrightarrow> Option.bind (jget args k) as_str = None"
  "\<not> typed_arg args k ''integer'' \<Longrightarrow> Option.bind (jget args k) as_u64 = None"
  by (cases "jget args k"; simp add: not_string not_integer)+

lemma string_arg_ill_typed:
  "\<not> typed_arg args k ''string'' \<Longrightarrow> \<exists>m. string_arg L args k = Inl (EngUnroutableToolCall m)"
  by (simp add: string_arg_def of_option_def untyped_arg)

lemma u16_arg_ill_typed:
  "\<not> typed_arg args k ''integer'' \<Longrightarrow> \<exists>m. u16_arg L args k = Inl (EngUnroutableToolCall m)"
  by (simp add: u16_arg_def of_option_def andThen_def untyped_arg)

lemma string_arg_cases:
  obtains x where "string_arg L args k = Inr x" | m where "string_arg L args k = Inl (EngUnroutableToolCall m)"
  by (cases "Option.bind (jget args k) as_str") (simp_all add: string_arg_def of_option_def)

text \<open>What the native tools of the catalog require.\<close>

lemma required_path:
  "has_required (schema_of [(''path'', jobj [(''type'', JString ''string''),
     (''description'', JString ''Absolute path of the file to read.'')])] [''path'']) args \<longleftrightarrow> typed_arg args ''path'' ''string''"
  by (simp add: has_required_def jobj_def fmlookup_of_list)

lemma required_write:
  "has_required (schema_of [(''path'', typed ''string''), (''contents'', typed ''string'')] [''path'', ''contents'']) args \<longleftrightarrow>
     typed_arg args ''path'' ''string'' \<and> typed_arg args ''contents'' ''string''"
  by (simp add: has_required_def typed_def jobj_def fmlookup_of_list)

lemma required_connect:
  "has_required (schema_of [(''host'', typed ''string''), (''port'', typed ''integer''),
      (''protocol'', jobj [(''type'', JString ''string''),
         (''enum'', JArray [JString ''tcp'', JString ''udp''])])] [''host'', ''port'']) args \<longleftrightarrow>
     typed_arg args ''host'' ''string'' \<and> typed_arg args ''port'' ''integer''"
  by (simp add: has_required_def typed_def jobj_def fmlookup_of_list)

lemma required_run:
  "has_required (schema_of [(''program'', typed ''string''),
      (''args'', jobj [(''type'', JString ''array''), (''items'', typed ''string'')])] [''program'']) args \<longleftrightarrow>
     typed_arg args ''program'' ''string''"
  by (simp add: has_required_def typed_def jobj_def fmlookup_of_list)

lemma native_tool_cases:
  assumes "d \<in> set (filesystem_tools m) \<union> set (network_tools m) \<union> set (exec_tools m)"
  shows "td_name d = ''filesystem__read'' \<and> (has_required (td_arguments_schema d) args \<longleftrightarrow> typed_arg args ''path'' ''string'') \<or>
    td_name d = ''filesystem__write'' \<and> (has_required (td_arguments_schema d) args \<longleftrightarrow>
      typed_arg args ''path'' ''string'' \<and> typed_arg args ''contents'' ''string'') \<or>
    td_name d = ''network__connect'' \<and> (has_required (td_arguments_schema d) args \<longleftrightarrow>
      typed_arg args ''host'' ''string'' \<and> typed_arg args ''port'' ''integer'') \<or>
    td_name d = ''exec__run'' \<and> (has_required (td_arguments_schema d) args \<longleftrightarrow> typed_arg args ''program'' ''string'')"
proof -
  have ifs: "x \<in> set (if b then [y] else []) \<longleftrightarrow> b \<and> x = y" for x y :: ToolDecl and b by auto
  from assms consider "d \<in> set (filesystem_tools m)" | "d \<in> set (network_tools m)" | "d \<in> set (exec_tools m)" by blast
  then show ?thesis
  proof cases
    case 1
    then obtain f where "t_filesystem (m_tools m) = Some f"
      by (cases "t_filesystem (m_tools m)") (simp_all add: filesystem_tools_def del: set_append)
    with 1 show ?thesis by (auto simp only: filesystem_tools_def option.case set_append Un_iff ifs required_path required_write ToolDecl.simps)
  next
    case 2
    then show ?thesis by (auto simp only: network_tools_def ifs required_connect ToolDecl.simps)
  next
    case 3
    then show ?thesis by (auto simp only: exec_tools_def ifs required_run ToolDecl.simps)
  qed
qed

lemma native_ill_typed:
  assumes "d \<in> set (filesystem_tools m) \<union> set (network_tools m) \<union> set (exec_tools m)"
    and bad: "\<not> has_required (td_arguments_schema d) args"
  shows "\<exists>ns tool msg. split_mcp_name (td_name d) = Some (ns, tool) \<and>
     dispatch_namespace W ns tool args rsid s = (Inl (EngUnroutableToolCall msg), s)"
proof -
  have split: "split_mcp_name ''filesystem__read'' = Some (''filesystem'', ''read'')"
    "split_mcp_name ''filesystem__write'' = Some (''filesystem'', ''write'')"
    "split_mcp_name ''network__connect'' = Some (''network'', ''connect'')"
    "split_mcp_name ''exec__run'' = Some (''exec'', ''run'')" by code_simp+
  from native_tool_cases [OF assms(1), of args] consider
      "td_name d = ''filesystem__read''" "\<not> typed_arg args ''path'' ''string''"
    | "td_name d = ''filesystem__write''" "\<not> (typed_arg args ''path'' ''string'' \<and> typed_arg args ''contents'' ''string'')"
    | "td_name d = ''network__connect''" "\<not> (typed_arg args ''host'' ''string'' \<and> typed_arg args ''port'' ''integer'')"
    | "td_name d = ''exec__run''" "\<not> typed_arg args ''program'' ''string''" using bad by blast
  then show ?thesis
  proof cases
    case 1
    then show ?thesis using string_arg_ill_typed [OF 1(2), of W]
      by (auto simp: split dispatch_namespace_def dispatch_native_filesystem_def path_arg_def act_simps)
  next
    case 2
    then show ?thesis
      using string_arg_ill_typed [of args "''path''" W] string_arg_ill_typed [of args "''contents''" W]
      by (cases rule: string_arg_cases [of W args "''path''"])
        (auto simp: split dispatch_namespace_def dispatch_native_filesystem_def path_arg_def act_simps)
  next
    case 3
    then show ?thesis
      using string_arg_ill_typed [of args "''host''" W] u16_arg_ill_typed [of args "''port''" W]
      by (cases rule: string_arg_cases [of W args "''host''"])
        (auto simp: split dispatch_namespace_def dispatch_native_network_def act_simps)
  next
    case 4
    then show ?thesis using string_arg_ill_typed [OF 4(2), of W]
      by (auto simp: split dispatch_namespace_def dispatch_native_exec_def path_arg_def act_simps)
  qed
qed

lemma mcp_tools_require_nothing: "d \<in> set (mcp_tools m) \<Longrightarrow> has_required (td_arguments_schema d) args"
  by (auto simp: mcp_tools_def has_required_def)

text \<open>Optional arguments of another type are dropped.\<close>

lemma bad_protocol_dropped:
  assumes "\<not> typed_arg (JObject args) ''protocol'' ''string''"
  shows "dispatch_namespace W ''network'' ''connect'' (JObject args) rsid =
     dispatch_namespace W ''network'' ''connect'' (JObject (fmdrop ''protocol'' args)) rsid"
proof -
  have "Option.bind (jget (JObject args) ''protocol'') as_str = None" using untyped_arg(1) [OF assms] .
  then show ?thesis
    by (simp add: dispatch_namespace_def dispatch_native_network_def string_arg_def u16_arg_def proto_arg_def)
qed

lemma bad_args_dropped:
  assumes "Option.bind (fmlookup args ''args'') as_array = None"
  shows "dispatch_namespace W ''exec'' ''run'' (JObject args) rsid =
     dispatch_namespace W ''exec'' ''run'' (JObject (fmdrop ''args'' args)) rsid"
  using assms by (simp add: dispatch_namespace_def dispatch_native_exec_def path_arg_def string_arg_def exec_args_of_def)

lemma has_string: "has_type ''string'' v \<longleftrightarrow> as_str v \<noteq> None"
  by (cases v) (simp_all add: has_type_def)

lemma map_filter_str: "List.map_filter as_str (filter (has_type ''string'') vs) = List.map_filter as_str vs"
  by (induction vs) (auto simp: has_string List.map_filter_simps split: option.splits)

lemma bad_elements_dropped:
  assumes "fmlookup args ''args'' = Some (JArray vs)"
  shows "dispatch_namespace W ''exec'' ''run'' (JObject args) rsid =
     dispatch_namespace W ''exec'' ''run'' (JObject (fmupd ''args'' (JArray (filter (has_type ''string'') vs)) args)) rsid"
  using assms
  by (simp add: dispatch_namespace_def dispatch_native_exec_def path_arg_def string_arg_def exec_args_of_def map_filter_str)

text \<open>C27: What the dispatcher enforces of the tool catalog. A call to a tool of the catalog in whose
  arguments a property the schema requires is missing, or has another type than the schema gives it, is
  answered as unroutable, and the session, its ledger and the outside world are as they were. Optional
  properties are not enforced: a protocol that is no string counts as absent, so that the connection is
  made over TCP; program arguments that are no array count as absent, and those among them that are no
  strings are left out, so that the program runs with fewer arguments than the call had. (The schemas of
  MCP tools require nothing.)\<close>

theorem required_arguments_enforced:
  assumes "d \<in> set (tool_catalog m)" and "tc_name c = td_name d"
  shows "(\<not> has_required (td_arguments_schema d) (tc_arguments c) \<longrightarrow>
        (\<exists>reason. dispatch_tool_call W c rsid s = (Inr (call_outcome c (CallUnroutable reason)), s))) \<and>
     (\<forall>args. \<not> typed_arg (JObject args) ''protocol'' ''string'' \<longrightarrow>
        dispatch_namespace W ''network'' ''connect'' (JObject args) rsid s =
        dispatch_namespace W ''network'' ''connect'' (JObject (fmdrop ''protocol'' args)) rsid s) \<and>
     (\<forall>args. Option.bind (fmlookup args ''args'') as_array = None \<longrightarrow>
        dispatch_namespace W ''exec'' ''run'' (JObject args) rsid s =
        dispatch_namespace W ''exec'' ''run'' (JObject (fmdrop ''args'' args)) rsid s) \<and>
     (\<forall>args vs. fmlookup args ''args'' = Some (JArray vs) \<longrightarrow>
        dispatch_namespace W ''exec'' ''run'' (JObject args) rsid s =
        dispatch_namespace W ''exec'' ''run'' (JObject (fmupd ''args'' (JArray (filter (has_type ''string'') vs)) args)) rsid s)"
proof -
  have "\<exists>reason. dispatch_tool_call W c rsid s = (Inr (call_outcome c (CallUnroutable reason)), s)"
    if bad: "\<not> has_required (td_arguments_schema d) (tc_arguments c)"
  proof -
    have "d \<in> set (filesystem_tools m) \<union> set (network_tools m) \<union> set (exec_tools m)"
      using assms(1) bad mcp_tools_require_nothing by (auto simp: tool_catalog_def)
    from native_ill_typed [OF this bad, of W rsid s] show ?thesis
      by (auto simp: dispatch_tool_call_def assms(2) act_simps call_result_def)
  qed
  then show ?thesis using bad_protocol_dropped bad_args_dropped bad_elements_dropped by metis
qed

theorem required_arguments_enforced_witness:
  "\<forall>W rsid s. \<exists>reason. dispatch_tool_call W \<lparr> tc_name = ''filesystem__read'', tc_arguments = jobj [(''path'', JU64 7)] \<rparr> rsid s
     = (Inr (call_outcome \<lparr> tc_name = ''filesystem__read'', tc_arguments = jobj [(''path'', JU64 7)] \<rparr> (CallUnroutable reason)), s)"
proof -
  let ?d = "hd (filesystem_tools demo_writer_manifest)"
  have d: "?d \<in> set (tool_catalog demo_writer_manifest)" "td_name ?d = ''filesystem__read''"
    by (simp_all add: tool_catalog_def filesystem_tools_def demo_writer_manifest_def empty_manifest_def)
  have "\<not> has_required (td_arguments_schema ?d) (jobj [(''path'', JU64 7)])"
    by (simp add: filesystem_tools_def demo_writer_manifest_def empty_manifest_def has_required_def jobj_def has_type_def)
  then have "\<exists>reason. dispatch_tool_call W \<lparr> tc_name = ''filesystem__read'', tc_arguments = jobj [(''path'', JU64 7)] \<rparr> rsid s
     = (Inr (call_outcome \<lparr> tc_name = ''filesystem__read'', tc_arguments = jobj [(''path'', JU64 7)] \<rparr> (CallUnroutable reason)), s)"
    for W :: "'a world_scheme" and rsid s
    using required_arguments_enforced [OF d(1), of "\<lparr> tc_name = ''filesystem__read'', tc_arguments = jobj [(''path'', JU64 7)] \<rparr>" W rsid s] d(2)
    by simp
  then show ?thesis by blast
qed

end
