(* ===== verification/CliRun.thy ===== *)
theory CliRun
  imports Attestation Evidence LiteRt
begin

text \<open>
  \<open>aegis run\<close> (\<open>crates/cli/src/run.rs\<close>): boot a session, drive it by a script or a prompt, shut it down
  and verify the ledger it left; and the boot of a session for the UI. What the process finds in its
  environment is the record \<open>cli_env\<close>: the variable that names the approval file, the channel and the
  MCP client it would attach, the backends the binary was built with, the script file and the parser of
  scripts (serde_json on \<open>Script\<close>), and the failures of reading the ledger back. Printing the outcome is left out.
\<close>

datatype BackendKind = BackendLlama | BackendLitertlm

record RunArgs =
  ra_manifest :: string
  ra_model :: string
  ra_config :: "string option"
  ra_chat_template_sidecar :: "string option"
  ra_identity_dir :: "string option"
  ra_workload :: string
  ra_instance :: string
  ra_ledger :: "string option"
  ra_session_id :: "string option"
  ra_script :: "string option"
  ra_prompt :: "string option"
  ra_backend :: BackendKind
  ra_max_turns :: u32
  ra_max_tokens :: u64
  ra_max_seconds :: u64

record RunOutcome =
  ro_session_id :: string
  ro_ledger_path :: string
  ro_root_hash_hex :: string
  ro_entry_count :: u64
  ro_halted :: bool
  ro_halt_reason :: "string option"

datatype Call =
    ScriptRead string "string option"
  | ScriptWrite string bytes "string option"
  | ScriptDelete string "string option"
  | ScriptNetwork string u16 string "string option"
  | ScriptExec string "string list" "string option"

definition default_protocol :: string where
  "default_protocol = ''tcp''"

text \<open>An error with the context that was attached to it; an engine error may be a panic.\<close>

datatype run_error =
    RunUsage string
  | RunEngine string engine_error
  | RunBackend string
  | RunScript string
  | RunVerify VerifyError

record cli_env =
  ce_approval_file :: "string option"
  ce_file_channel :: "string \<Rightarrow> approval_channel"
  ce_mcp_client :: mcp_client
  ce_config_dir :: "string option"
  ce_unix_nanos :: nat
  ce_pid :: u32
  ce_llama :: "(LlamaOptions \<Rightarrow> string \<Rightarrow> string + loaded_model) option"
  ce_litertlm :: "(LiteRtOptions \<Rightarrow> string \<Rightarrow> string + loaded_model) option"
  ce_read :: "string \<Rightarrow> bytes option"
  ce_script :: "bytes \<Rightarrow> string + Call list"
  ce_ledger_fails :: "u64 \<Rightarrow> bool"

section \<open>Names\<close>

text \<open>A \<open>u128\<close> in 32 hexadecimal digits, grouped like a UUID.\<close>

definition hex32 :: "128 word \<Rightarrow> string" where
  "hex32 w = map (\<lambda>i. hex_digit (unat w div 16 ^ i mod 16)) (rev [0..<32])"

definition uuid_v7_like :: "cli_env \<Rightarrow> string" where
  "uuid_v7_like C =
     (let mixed = xor (push_bit 32 (of_nat (ce_unix_nanos C))) (ucast (ce_pid C)); hex = hex32 mixed in
      take 8 hex @ ''-'' @ take 4 (drop 8 hex) @ ''-'' @ take 4 (drop 12 hex) @ ''-'' @ take 4 (drop 16 hex) @
      ''-'' @ drop 20 hex)"

definition default_identity_dir :: "cli_env \<Rightarrow> run_error + string" where
  "default_identity_dir C =
     (case ce_config_dir C of
        None \<Rightarrow> Inl (RunUsage ''could not resolve user config dir'')
      | Some base \<Rightarrow> Inr (path_in (path_in base ''aegis'') ''identity''))"

definition resolve_dir :: "cli_env \<Rightarrow> string option \<Rightarrow> run_error + string" where
  "resolve_dir C dir = (case dir of Some p \<Rightarrow> Inr p | None \<Rightarrow> default_identity_dir C)"

section \<open>Attaching what a session needs\<close>

definition attach_approval :: "cli_env \<Rightarrow> session \<Rightarrow> session" where
  "attach_approval C s =
     (case ce_approval_file C of None \<Rightarrow> s | Some path \<Rightarrow> with_approval_channel s (ce_file_channel C path))"

definition attach_mcp :: "cli_env \<Rightarrow> session \<Rightarrow> session" where
  "attach_mcp C s =
     (if t_mcp (m_tools (p_manifest (s_policy s))) \<noteq> [] then with_mcp_client s (ce_mcp_client C) else s)"

definition boot_attached :: "'w world_scheme \<Rightarrow> cli_env \<Rightarrow> BootConfig \<Rightarrow> (env, run_error, session) act" where
  "boot_attached W C cfg =
     bindA (mapErrA (RunEngine ''boot'') (boot W cfg)) (\<lambda>s. okA (attach_mcp C (attach_approval C s)))"

definition manifest_knobs :: "session \<Rightarrow> DeterminismKnobs" where
  "manifest_knobs s =
     (case Option.bind (m_inference (p_manifest (s_policy s))) inf_determinism of
        Some k \<Rightarrow> k | None \<Rightarrow> knobs_default)"

definition load_llama_backend :: "cli_env \<Rightarrow> string \<Rightarrow> session \<Rightarrow> run_error + loaded_model" where
  "load_llama_backend C path s =
     (case ce_llama C of
        None \<Rightarrow> Inl (RunUsage (''aegis run --backend llama requires the 'llama' Cargo feature; rebuild with '' @
          ''`cargo install --path crates/cli --features llama` (per ADR-014)''))
      | Some load \<Rightarrow> map_sum RunBackend id (load (llama_options_default\<lparr> lo_determinism := manifest_knobs s \<rparr>) path))"

definition load_litertlm_backend :: "cli_env \<Rightarrow> string \<Rightarrow> session \<Rightarrow> run_error + loaded_model" where
  "load_litertlm_backend C path s =
     (case ce_litertlm C of
        None \<Rightarrow> Inl (RunUsage (''aegis run --backend litertlm requires the 'litertlm' Cargo feature; rebuild with '' @
          ''`cargo install --path crates/cli --features litertlm` (per ADR-023)''))
      | Some load \<Rightarrow> map_sum RunBackend id (load (litert_options_default\<lparr> ro_determinism := manifest_knobs s \<rparr>) path))"

definition load_backend :: "cli_env \<Rightarrow> BackendKind \<Rightarrow> string \<Rightarrow> session \<Rightarrow> run_error + loaded_model" where
  "load_backend C kind path s =
     (case kind of
        BackendLlama \<Rightarrow> load_llama_backend C path s | BackendLitertlm \<Rightarrow> load_litertlm_backend C path s)"

text \<open>Load the backend and plug it into the session.\<close>

definition plug_backend :: "cli_env \<Rightarrow> BackendKind \<Rightarrow> string \<Rightarrow> (session, run_error, unit) act" where
  "plug_backend C kind path =
     bindA (getA (load_backend C kind path)) (\<lambda>r.
     bindA (liftA r) (\<lambda>loaded. modA (\<lambda>s. with_loaded_model s loaded)))"

section \<open>A scripted run\<close>

datatype Halt = HaltContinue | HaltStop string | HaltFatal run_error

definition parse_proto :: "'w libs_scheme \<Rightarrow> string \<Rightarrow> run_error + NetworkProto" where
  "parse_proto L s =
     (if s = ''http'' then Inr ProtoHttp else if s = ''https'' then Inr ProtoHttps
      else if s = ''tcp'' then Inr ProtoTcp else if s = ''udp'' then Inr ProtoUdp
      else if s = ''any'' then Inr ProtoAny else Inl (RunScript (''unknown protocol '' @ str_debug L s)))"

fun halt_of :: "engine_error \<Rightarrow> Halt" where
  "halt_of (EngDenied reason) = HaltContinue"
| "halt_of (EngPolicy (PolIdentityRebind m)) =
     HaltStop (''identity rebind violation on '' @ digest_field_name (dm_field m) @ '' digest'')"
| "halt_of (EngRequireApproval reason) =
     HaltStop (''approval required (F0-D not wired in Phase 1a): '' @ reason)"
| "halt_of e = HaltFatal (RunEngine ''mediation failed'' e)"

definition scripted :: "(session, engine_error, 'a) act \<Rightarrow> (session, Halt, unit) act" where
  "scripted m = mapErrA halt_of (bindA m (\<lambda>_. okA ()))"

fun dispatch :: "'w world_scheme \<Rightarrow> Call \<Rightarrow> (session, Halt, unit) act" where
  "dispatch W (ScriptRead path rsid) = scripted (mediate_filesystem_read W path rsid)"
| "dispatch W (ScriptWrite path contents rsid) = scripted (mediate_filesystem_write W path contents rsid)"
| "dispatch W (ScriptDelete path rsid) = scripted (mediate_filesystem_delete W path rsid)"
| "dispatch W (ScriptNetwork host port protocol rsid) =
     (case parse_proto W protocol of
        Inl e \<Rightarrow> errA (HaltFatal e)
      | Inr proto \<Rightarrow> scripted (mediate_network_connect W host port proto rsid))"
| "dispatch W (ScriptExec program args rsid) = scripted (mediate_exec W program args rsid)"

fun script_loop :: "'w world_scheme \<Rightarrow> Call list \<Rightarrow> (session, run_error, bool \<times> string option) act" where
  "script_loop W [] = okA (False, None)"
| "script_loop W (call # calls) =
     bindA (tryA (dispatch W call)) (\<lambda>r.
     case r of
       Inr _ \<Rightarrow> script_loop W calls
     | Inl HaltContinue \<Rightarrow> script_loop W calls
     | Inl (HaltStop reason) \<Rightarrow> okA (True, Some reason)
     | Inl (HaltFatal e) \<Rightarrow> errA e)"

definition load_script :: "cli_env \<Rightarrow> string \<Rightarrow> run_error + Call list" where
  "load_script C path =
     (case ce_read C path of
        None \<Rightarrow> Inl (RunScript (''reading script '' @ path))
      | Some b \<Rightarrow> map_sum (\<lambda>e. RunScript (''parsing script '' @ path @ '' as JSON'')) id (ce_script C b))"

definition run_script :: "'w world_scheme \<Rightarrow> cli_env \<Rightarrow> string \<Rightarrow> (session, run_error, bool \<times> string option) act" where
  "run_script W C path = bindA (liftA (load_script C path)) (script_loop W)"

section \<open>A prompted run\<close>

definition run_limits :: "RunArgs \<Rightarrow> TurnLimits" where
  "run_limits args = \<lparr> tl_max_turns = ra_max_turns args, tl_max_tokens = ra_max_tokens args,
     tl_max_seconds = ra_max_seconds args \<rparr>"

definition prompt_outcome :: "engine_error + SessionRunResult \<Rightarrow> run_error + bool \<times> string option" where
  "prompt_outcome r =
     (case r of
        Inr result \<Rightarrow> Inr (False, None)
      | Inl (EngTurnCapExceeded bound at_turn max_turns tokens max_tokens wallclock max_seconds) \<Rightarrow>
          Inr (True, Some (''turn cap exceeded ('' @ turn_cap_kind_display bound @ '')''))
      | Inl other \<Rightarrow> Inl (RunEngine ''session.run'' other))"

definition run_prompt :: "'w world_scheme \<Rightarrow> cli_env \<Rightarrow> RunArgs \<Rightarrow> string \<Rightarrow> (session, run_error, bool \<times> string option) act" where
  "run_prompt W C args prompt =
     bindA (plug_backend C (ra_backend args) (ra_model args)) (\<lambda>_.
     bindA (tryA (run W prompt (run_limits args))) (\<lambda>r. liftA (prompt_outcome r)))"

section \<open>The whole run\<close>

definition run_session_id :: "cli_env \<Rightarrow> RunArgs \<Rightarrow> string" where
  "run_session_id C args =
     (case ra_session_id args of Some sid \<Rightarrow> sid | None \<Rightarrow> ''session-'' @ uuid_v7_like C)"

definition run_ledger_path :: "cli_env \<Rightarrow> RunArgs \<Rightarrow> string" where
  "run_ledger_path C args =
     (case ra_ledger args of Some p \<Rightarrow> p | None \<Rightarrow> ''ledger-'' @ run_session_id C args @ ''.jsonl'')"

definition run_config :: "cli_env \<Rightarrow> RunArgs \<Rightarrow> string \<Rightarrow> BootConfig" where
  "run_config C args identity_dir =
     \<lparr> bc_session_id = run_session_id C args, bc_manifest_path = ra_manifest args, bc_model_path = ra_model args,
       bc_config_path = ra_config args, bc_chat_template_sidecar = ra_chat_template_sidecar args,
       bc_identity_dir = identity_dir, bc_workload_name = ra_workload args, bc_instance = ra_instance args,
       bc_ledger_path = run_ledger_path C args, bc_ledger_schema = None \<rparr>"

definition drive :: "'w world_scheme \<Rightarrow> cli_env \<Rightarrow> RunArgs \<Rightarrow> (session, run_error, bool \<times> string option) act" where
  "drive W C args =
     (case (ra_prompt args, ra_script args) of
        (Some prompt, _) \<Rightarrow> run_prompt W C args prompt
      | (None, Some script) \<Rightarrow> run_script W C script
      | (None, None) \<Rightarrow> errA (RunEngine [] EngPanic))"

text \<open>The file at the ledger path holds what the session's ledger wrote to it.\<close>

definition drive_and_close :: "'w world_scheme \<Rightarrow> cli_env \<Rightarrow> RunArgs \<Rightarrow> (session, run_error, RunOutcome) act" where
  "drive_and_close W C args =
     bindA (drive W C args) (\<lambda>(halted, halt_reason).
     bindA (mapErrA (RunEngine ''shutdown'') (shutdown W)) (\<lambda>root_hash.
     bindA (getA (\<lambda>s. verify_file W (ce_ledger_fails C) (Some (b_disk (w_file (s_ledger s)))))) (\<lambda>v.
     bindA (liftA (map_sum RunVerify id v)) (\<lambda>summary.
     okA \<lparr> ro_session_id = run_session_id C args, ro_ledger_path = run_ledger_path C args,
           ro_root_hash_hex = hex_encode W root_hash, ro_entry_count = vs_entry_count summary,
           ro_halted = halted, ro_halt_reason = halt_reason \<rparr>))))"

text \<open>The result, and the session as it was when the run returned, if one was booted.\<close>

definition run_execute :: "'w world_scheme \<Rightarrow> cli_env \<Rightarrow> RunArgs \<Rightarrow> env \<Rightarrow> (run_error + RunOutcome) \<times> session option" where
  "run_execute W C args e =
     (if ra_script args = None \<and> ra_prompt args = None then
        (Inl (RunUsage ''aegis run requires either --script <path> or --prompt <text>''), None)
      else case bindA (liftA (resolve_dir C (ra_identity_dir args))) (\<lambda>dir. boot_attached W C (run_config C args dir)) e of
        (Inl err, e') \<Rightarrow> (Inl err, None)
      | (Inr s, e') \<Rightarrow> (case drive_and_close W C args s of (r, s') \<Rightarrow> (r, Some s')))"

section \<open>The boot of a UI session\<close>

definition ui_boot_config :: "cli_env \<Rightarrow> string \<Rightarrow> string \<Rightarrow> string option \<Rightarrow> string option \<Rightarrow> string \<Rightarrow> string
    \<Rightarrow> string option \<Rightarrow> string \<Rightarrow> BootConfig" where
  "ui_boot_config C manifest model config sidecar workload inst ledger dir =
     (let session_id = ''session-ui-'' @ uuid_v7_like C in
      \<lparr> bc_session_id = session_id, bc_manifest_path = manifest, bc_model_path = model, bc_config_path = config,
        bc_chat_template_sidecar = sidecar, bc_identity_dir = dir, bc_workload_name = workload,
        bc_instance = inst,
        bc_ledger_path = (case ledger of Some p \<Rightarrow> p | None \<Rightarrow> ''ledger-ui-'' @ session_id @ ''.jsonl''),
        bc_ledger_schema = None \<rparr>)"

definition boot_session_for_ui :: "'w world_scheme \<Rightarrow> cli_env \<Rightarrow> string \<Rightarrow> string \<Rightarrow> string option \<Rightarrow> string option
    \<Rightarrow> string option \<Rightarrow> string \<Rightarrow> string \<Rightarrow> string option \<Rightarrow> BackendKind \<Rightarrow> (env, run_error, session) act" where
  "boot_session_for_ui W C manifest model config sidecar identity_dir workload inst ledger kind =
     bindA (liftA (resolve_dir C identity_dir)) (\<lambda>dir.
     bindA (boot_attached W C (ui_boot_config C manifest model config sidecar workload inst ledger dir)) (\<lambda>s.
     liftA (case plug_backend C kind model s of (Inl e, _) \<Rightarrow> Inl e | (Inr _, s') \<Rightarrow> Inr s')))"

end
