(* ===== verification/CliRunFacts.thy ===== *)
theory CliRunFacts
  imports CliRun
begin

text \<open>
  What \<open>aegis run\<close> guarantees: the outcome it reports is the ledger it left, the session behaves as every
  other session does, and a script runs exactly up to the first call that halts it.
\<close>

section \<open>The sessions of a run\<close>

lemma attached_reachable: "reachable W s \<Longrightarrow> reachable W (attach_mcp C (attach_approval C s))"
  by (auto simp: attach_mcp_def attach_approval_def intro: reachable.intros split: option.split)

lemma boot_attached_Inr:
  assumes "boot_attached W C cfg e = (Inr s, e')"
  obtains s0 where "boot W cfg e = (Inr s0, e')" "s = attach_mcp C (attach_approval C s0)"
  using assms by (auto simp: boot_attached_def bindA_eq_ok mapErrA_eq_ok okA_def)

lemma boot_attached_reachable: "boot_attached W C cfg e = (Inr s, e') \<Longrightarrow> reachable W s"
  by (erule boot_attached_Inr) (auto intro: attached_reachable at_boot)

lemma plug_reachable: "reachable W s \<Longrightarrow> plug_backend C kind path s = (r, s') \<Longrightarrow> reachable W s'"
  by (cases "load_backend C kind path s")
     (auto simp: plug_backend_def bindA_getA bindA_liftA_ok bindA_liftA_err modA_def intro: reachable.intros)

lemma scripted_state: "scripted m s = (r, s') \<Longrightarrow> \<exists>x. m s = (x, s')"
  by (auto simp: scripted_def mapErrA_def bindA_def okA_def split: prod.splits sum.splits)

lemma dispatch_reachable: "reachable W s \<Longrightarrow> dispatch W call s = (r, s') \<Longrightarrow> reachable W s'"
  by (cases call) (auto simp: errA_def split: sum.splits dest!: scripted_state intro: reachable.intros)

lemma script_reachable: "reachable W s \<Longrightarrow> script_loop W calls s = (r, s') \<Longrightarrow> reachable W s'"
proof (induction calls arbitrary: s)
  case (Cons call calls)
  obtain x s1 where d: "dispatch W call s = (x, s1)" by (cases "dispatch W call s")
  with Cons.prems(1) have "reachable W s1" by (rule dispatch_reachable)
  with Cons.IH [of s1] Cons.prems(2) d show ?case
    by (auto simp: bindA_tryA okA_def errA_def split: sum.splits Halt.splits)
qed (simp add: okA_def)

lemma prompt_reachable: "reachable W s \<Longrightarrow> run_prompt W C args prompt s = (r, s') \<Longrightarrow> reachable W s'"
proof -
  assume s: "reachable W s" and r: "run_prompt W C args prompt s = (r, s')"
  obtain x s1 where p: "plug_backend C (ra_backend args) (ra_model args) s = (x, s1)"
    by (cases "plug_backend C (ra_backend args) (ra_model args) s")
  note s1 = plug_reachable [OF s p]
  show ?thesis
  proof (cases x)
    case Inl
    with r p s1 show ?thesis by (simp add: run_prompt_def bindA_err)
  next
    case Inr
    obtain y s2 where "run W prompt (run_limits args) s1 = (y, s2)" by (cases "run W prompt (run_limits args) s1")
    with r p Inr by_run [OF s1] show ?thesis by (simp add: run_prompt_def bindA_ok bindA_tryA liftA_def)
  qed
qed

lemma drive_reachable: "reachable W s \<Longrightarrow> drive W C args s = (r, s') \<Longrightarrow> reachable W s'"
  by (auto simp: drive_def run_script_def errA_def bindA_def liftA_def split: option.splits sum.splits
      intro: prompt_reachable script_reachable)

text \<open>Through all of it the session and its ledger stay the same ones.\<close>

definition same_run :: "session \<Rightarrow> session \<Rightarrow> bool" where
  "same_run s s' \<longleftrightarrow> s_session_id s' = s_session_id s \<and> prefix (s_log s) (s_log s') \<and>
     disk_works (s_ledger s') = disk_works (s_ledger s)"

interpretation run_order: step_order same_run
  by unfold_locales (auto simp: same_run_def intro: prefix_order.trans)

lemma same_run_config: "config_step s s' \<Longrightarrow> same_run s s'"
  using config_fields(4,10,11) disk_works_step by (simp add: same_run_def)

lemma same_run_attach:
  "same_run s (with_loaded_model s m)" "same_run s (with_mcp_client s c)" "same_run s (with_approval_channel s ch)"
  by (simp_all add: same_run_def attach_defs)

lemma attached_same: "same_run s (attach_mcp C (attach_approval C s))"
  by (simp add: same_run_def attach_mcp_def attach_approval_def attach_defs split: option.split)

lemma same_run_moves: "moves config_step m \<Longrightarrow> moves same_run m"
  by (simp add: moves_def same_run_config)

lemma scripted_moves: "moves config_step m \<Longrightarrow> moves same_run (scripted m)"
  unfolding scripted_def by (intro run_order.map_err run_order.bind run_order.ok same_run_moves)

lemma dispatch_moves: "moves same_run (dispatch W call)"
  by (cases call) (auto intro!: scripted_moves config_frame.mediators run_order.err split: sum.splits)

lemma script_moves: "moves same_run (script_loop W calls)"
proof (induction calls)
  case (Cons call calls)
  then show ?case
    by (auto intro!: run_order.bind run_order.reify run_order.ok run_order.err dispatch_moves split: sum.splits Halt.splits)
qed (simp add: run_order.ok)

lemma plug_moves: "moves same_run (plug_backend C kind path)"
  unfolding plug_backend_def
  by (intro run_order.bind run_order.get run_order.lift movesI) (auto simp: modA_def same_run_attach)

lemma prompt_moves: "moves same_run (run_prompt W C args prompt)"
  unfolding run_prompt_def
  by (intro run_order.bind run_order.lift run_order.reify plug_moves same_run_moves [OF config_frame.run_frame(1)])

lemma drive_moves: "moves same_run (drive W C args)"
  unfolding drive_def run_script_def
  by (simp split: option.split add: run_order.err prompt_moves run_order.bind run_order.lift script_moves)

lemma close_ledger_outcome: "close_ledger w = (r, w') \<Longrightarrow> b_outcome (w_file w') = b_outcome (w_file w)"
  by (auto simp: close_ledger_def bindA_def zoomA_def sync_all_def getA_def flush_def split: prod.splits sum.splits if_splits)

lemma shutdown_disk:
  assumes "shutdown W s = (Inr root, s')"
  shows "disk_works (s_ledger s') = disk_works (s_ledger s)"
proof -
  from assms obtain kvs uri s1 s2 where 1: "append_session W NetworkAttestation kvs s = (Inr (), s1)"
    and 2: "append_session W SessionEnd [(''spiffeId'', uri)] s1 = (Inr (), s2)"
    and 3: "mapErrA EngLedger (on_ledger close_ledger) s2 = (Inr root, s')"
    by (auto simp: shutdown_def appends_attestation bindA_eq_ok bindA_getA)
  have "same_run s s1" "same_run s1 s2"
    using movesD [OF same_run_moves [OF config_frame.append_session_frame] 1]
      movesD [OF same_run_moves [OF config_frame.append_session_frame] 2] .
  moreover obtain w where "close_ledger (s_ledger s2) = (Inr root, w)" "s_ledger s' = w"
    using 3 by (auto simp: mapErrA_def zoomA_eq split: sum.splits prod.splits)
  ultimately show ?thesis using close_ledger_outcome by (fastforce simp: same_run_def disk_works_def)
qed

text \<open>A ledger that was read back without a failure reads the same when no read fails.\<close>

lemma verify_loop_reads: "verify_loop L fails st s = Inr st' \<Longrightarrow> verify_loop L (\<lambda>_. False) st s = Inr st'"
proof (induction L fails st s rule: verify_loop.induct)
  case (1 L fails st s)
  show ?case
    using "1.prems" "1.IH" by (subst verify_loop.simps, subst (asm) verify_loop.simps) (auto split: if_splits sum.splits)
qed

lemma verify_reader_reads: "verify_reader L fails s = Inr v \<Longrightarrow> verify_reader L (\<lambda>_. False) s = Inr v"
  by (cases "verify_loop L fails vinit s") (auto simp: verify_reader_def verify_loop_reads)

lemma map_sum_Inr: "map_sum f id x = Inr v \<longleftrightarrow> x = Inr v"
  by (cases x) simp_all

lemma execute_Inr:
  assumes "run_execute W C args e = (Inr out, Some s')"
  obtains dir s0 s s1 root e' where "boot W (run_config C args dir) e = (Inr s0, e')"
    and "s = attach_mcp C (attach_approval C s0)" and "drive W C args s = (Inr (ro_halted out, ro_halt_reason out), s1)"
    and "shutdown W s1 = (Inr root, s')" and "ro_root_hash_hex out = hex_encode W root"
    and "ro_session_id out = run_session_id C args"
    and "\<exists>sum. verify_reader W (\<lambda>_. False) (b_disk (w_file (s_ledger s'))) = Inr sum \<and> vs_entry_count sum = ro_entry_count out"
proof -
  from assms obtain s e' where b: "bindA (liftA (resolve_dir C (ra_identity_dir args)))
      (\<lambda>dir. boot_attached W C (run_config C args dir)) e = (Inr s, e')"
    and d: "drive_and_close W C args s = (Inr out, s')"
    by (auto simp: run_execute_def split: if_splits prod.splits sum.splits)
  from b obtain dir where "boot_attached W C (run_config C args dir) e = (Inr s, e')"
    by (auto simp: bindA_eq_ok liftA_def)
  then obtain s0 where s: "boot W (run_config C args dir) e = (Inr s0, e')" "s = attach_mcp C (attach_approval C s0)"
    by (rule boot_attached_Inr)
  from d obtain halted reason s1 root v where d: "drive W C args s = (Inr (halted, reason), s1)"
    "shutdown W s1 = (Inr root, s')"
    "verify_file W (ce_ledger_fails C) (Some (b_disk (w_file (s_ledger s')))) = Inr v"
    "out = \<lparr> ro_session_id = run_session_id C args, ro_ledger_path = run_ledger_path C args,
           ro_root_hash_hex = hex_encode W root, ro_entry_count = vs_entry_count v,
           ro_halted = halted, ro_halt_reason = reason \<rparr>"
    by (auto simp: drive_and_close_def bindA_eq_ok mapErrA_eq_ok liftA_apply okA_apply getA_apply map_sum_Inr)
  have "verify_reader W (\<lambda>_. False) (b_disk (w_file (s_ledger s'))) = Inr v"
    using d(3) by (simp add: verify_file_def verify_reader_reads)
  with that [OF s, of s1 root] d show thesis by simp
qed

section \<open>Scripts\<close>

text \<open>The results of the calls of a script that were made, in order.\<close>

inductive made :: "'w world_scheme \<Rightarrow> Call list \<Rightarrow> (Halt + unit) list \<Rightarrow> session \<Rightarrow> session \<Rightarrow> bool" for W :: "'w world_scheme" where
  none: "made W calls [] s s"
| one: "dispatch W call s = (r, s1) \<Longrightarrow> made W calls rs s1 s' \<Longrightarrow> made W (call # calls) (r # rs) s s'"

definition goes_on :: "Halt + unit \<Rightarrow> bool" where
  "goes_on r \<longleftrightarrow> r = Inr () \<or> r = Inl HaltContinue"

lemma script_made:
  "script_loop W calls s = (r, s') \<Longrightarrow> \<exists>rs. made W calls rs s s' \<and>
     (case r of
        Inr (False, reason) \<Rightarrow> length rs = length calls \<and> list_all goes_on rs
      | Inr (True, reason) \<Rightarrow> \<exists>ps m. rs = ps @ [Inl (HaltStop m)] \<and> list_all goes_on ps \<and> reason = Some m
      | Inl e \<Rightarrow> \<exists>ps. rs = ps @ [Inl (HaltFatal e)] \<and> list_all goes_on ps)"
proof (induction calls arbitrary: s)
  case (Cons call calls)
  obtain x s1 where d: "dispatch W call s = (x, s1)" by (cases "dispatch W call s")
  have step: "made W (call # calls) (x # rs) s s'" if "made W calls rs s1 s'" for rs using d that by (rule made.one)
  show ?case
  proof (cases "goes_on x")
    case True
    then have "script_loop W calls s1 = (r, s')"
      using Cons.prems d by (auto simp: bindA_tryA goes_on_def)
    from Cons.IH [OF this] obtain rs where rs: "made W calls rs s1 s'"
      "case r of
        Inr (False, reason) \<Rightarrow> length rs = length calls \<and> list_all goes_on rs
      | Inr (True, reason) \<Rightarrow> \<exists>ps m. rs = ps @ [Inl (HaltStop m)] \<and> list_all goes_on ps \<and> reason = Some m
      | Inl e \<Rightarrow> \<exists>ps. rs = ps @ [Inl (HaltFatal e)] \<and> list_all goes_on ps" by blast
    from step [OF rs(1)] rs(2) True show ?thesis
      by (intro exI [of _ "x # rs"])
         (auto split: sum.splits bool.splits intro: exI [of _ "x # _"] simp flip: append_Cons)
  next
    case False
    then obtain h where x: "x = Inl h" by (cases x) (auto simp: goes_on_def)
    have "s' = s1" "case h of HaltStop m \<Rightarrow> r = Inr (True, Some m) | HaltFatal e \<Rightarrow> r = Inl e | HaltContinue \<Rightarrow> False"
      using Cons.prems False d x by (auto simp: bindA_tryA goes_on_def okA_def errA_def split: Halt.splits)
    moreover have "made W (call # calls) [x] s s1" using d made.none by (rule made.one)
    ultimately show ?thesis by (intro exI [of _ "[x]"]) (cases h, auto simp: x)
  qed
qed (auto simp: okA_def intro: made.none)

section \<open>The report of a run\<close>

lemma run_report:
  assumes "lib_laws W" and "run_execute W C args e = (Inr out, Some s')" and "disk_works (s_ledger s')"
    and "utf8_ok (run_session_id C args)" and "\<forall>x \<in> set (s_log s'). readable x" and "length (s_log s') < 2 ^ 64"
  shows "\<exists>sum. verify_reader W (\<lambda>_. False) (b_disk (w_file (s_ledger s'))) = Inr sum \<and>
     vs_session_id sum = Some (ro_session_id out) \<and> vs_root_hash_hex sum = ro_root_hash_hex out \<and>
     vs_entry_count sum = ro_entry_count out \<and> unat (ro_entry_count out) = length (s_log s') \<and>
     (\<exists>x xs a b. s_log s' = x # xs @ [a, b] \<and> e_entry_type x = SessionStart \<and>
        e_entry_type a = NetworkAttestation \<and> e_entry_type b = SessionEnd)"
proof (rule execute_Inr [OF assms(2)])
  fix dir s0 s s1 root e'
  assume b: "boot W (run_config C args dir) e = (Inr s0, e')" and s: "s = attach_mcp C (attach_approval C s0)"
    and d: "drive W C args s = (Inr (ro_halted out, ro_halt_reason out), s1)" and sh: "shutdown W s1 = (Inr root, s')"
    and h: "ro_root_hash_hex out = hex_encode W root" "ro_session_id out = run_session_id C args"
    and v: "\<exists>sum. verify_reader W (\<lambda>_. False) (b_disk (w_file (s_ledger s'))) = Inr sum \<and> vs_entry_count sum = ro_entry_count out"
  have same: "same_run s0 s1"
    using run_order.step_trans [OF attached_same movesD [OF drive_moves d [unfolded s]]] .
  have r: "reachable W s1" using drive_reachable [OF _ d] attached_reachable at_boot [OF b] s by blast
  note boot = booted_ledger [OF b]
  have sid: "s_session_id s1 = run_session_id C args" using boot same by (simp add: same_run_def run_config_def)
  have "disk_works (s_ledger s1)" using shutdown_disk [OF sh] assms(3) by simp
  from shutdown_root_verifies [OF assms(1) r this sh] sid assms(4,5,6) obtain sum where
    sum: "verify_reader W (\<lambda>_. False) (b_disk (w_file (s_ledger s'))) = Inr sum"
      "vs_session_id sum = Some (s_session_id s1)" "unat (vs_entry_count sum) = length (s_log s1) + 2"
      "vs_root_hash_hex sum = hex_encode W root" by auto
  obtain a z where l: "s_log s' = s_log s1 @ [a, z]" "e_entry_type a = NetworkAttestation" "e_entry_type z = SessionEnd"
    by (rule shutdown_entries [OF sh])
  obtain x xs where x: "s_log s1 = x # xs" "e_entry_type x = SessionStart"
    using boot same by (auto simp: same_run_def prefix_def)
  have "\<exists>x xs a b. s_log s' = x # xs @ [a, b] \<and> e_entry_type x = SessionStart \<and>
        e_entry_type a = NetworkAttestation \<and> e_entry_type b = SessionEnd"
    using l x by (intro exI [of _ x] exI [of _ xs] exI [of _ a] exI [of _ z]) simp
  with sum v h sid l(1) show ?thesis by auto
qed

section \<open>Properties\<close>

text \<open>C5: What \<open>aegis run\<close> reports is the ledger it left. When a run returns an outcome, halted or not,
  the file of its ledger is accepted by the verifier, under the session id of the outcome, with exactly the
  root hash and the number of entries it prints; the ledger starts with the SessionStart and ends with the
  attestation and the SessionEnd, and everything in between is counted.\<close>

theorem run_reports_its_ledger:
  assumes "lib_laws W" and "run_execute W C args e = (Inr out, Some s')" and "disk_works (s_ledger s')"
    and "utf8_ok (run_session_id C args)" and "\<forall>x \<in> set (s_log s'). readable x" and "length (s_log s') < 2 ^ 64"
  shows "\<exists>sum. verify_reader W (\<lambda>_. False) (b_disk (w_file (s_ledger s'))) = Inr sum \<and>
     vs_session_id sum = Some (ro_session_id out) \<and> vs_root_hash_hex sum = ro_root_hash_hex out \<and>
     vs_entry_count sum = ro_entry_count out \<and> unat (ro_entry_count out) = length (s_log s') \<and>
     (\<exists>x xs a b. s_log s' = x # xs @ [a, b] \<and> e_entry_type x = SessionStart \<and>
        e_entry_type a = NetworkAttestation \<and> e_entry_type b = SessionEnd)"
  by (rule run_report [OF assms])

text \<open>A script runs exactly up to the first call that halts it. A run that is not halted has made
  every call, and each succeeded or was denied; a halted one stopped at a call that found the identity
  changed or that needs an approval nobody gave, all calls before it having succeeded or been denied, and
  made none after; any other error ends the run at its call.\<close>

theorem script_runs_to_first_halt:
  assumes "script_loop W calls s = (r, s')"
  shows "\<exists>rs. made W calls rs s s' \<and>
     (case r of
        Inr (False, reason) \<Rightarrow> length rs = length calls \<and> list_all goes_on rs
      | Inr (True, reason) \<Rightarrow> \<exists>ps m. rs = ps @ [Inl (HaltStop m)] \<and> list_all goes_on ps \<and> reason = Some m
      | Inl e \<Rightarrow> \<exists>ps. rs = ps @ [Inl (HaltFatal e)] \<and> list_all goes_on ps)"
  by (rule script_made [OF assms])

section \<open>Witnesses\<close>

definition demo_args :: RunArgs where
  "demo_args = \<lparr> ra_manifest = ''manifest'', ra_model = ''model'', ra_config = None, ra_chat_template_sidecar = None,
     ra_identity_dir = Some ''ca'', ra_workload = ''w'', ra_instance = ''i'', ra_ledger = Some ''ledger'',
     ra_session_id = Some ''s1'', ra_script = Some ''script'', ra_prompt = None, ra_backend = BackendLlama,
     ra_max_turns = 10, ra_max_tokens = 1000, ra_max_seconds = 300 \<rparr>"

definition demo_cli :: "Call list \<Rightarrow> cli_env" where
  "demo_cli calls = \<lparr> ce_approval_file = None, ce_file_channel = (\<lambda>_ _ _. Inl GateIo),
     ce_mcp_client = (\<lambda>_ fs _ _ _. (Inl [], fs)), ce_config_dir = None, ce_unix_nanos = 0, ce_pid = 0,
     ce_llama = None, ce_litertlm = None, ce_read = (\<lambda>_. Some []), ce_script = (\<lambda>_. Inr calls),
     ce_ledger_fails = (\<lambda>_. False) \<rparr>"

lemma boot_default_version:
  "boot W (cfg\<lparr> bc_ledger_schema := None \<rparr>) = boot W (cfg\<lparr> bc_ledger_schema := Some V1 \<rparr>)"
  by (simp add: boot_def open_ledger_def first_entry_def issue_session_svid_def read_template_def new_session_def)

lemma demo_args_config: "run_config (demo_cli calls) demo_args ''ca'' = (demo_config V1)\<lparr> bc_ledger_schema := None \<rparr>"
  by (simp add: run_config_def demo_args_def demo_config_def run_session_id_def run_ledger_path_def)

lemma demo_names:
  "run_session_id (demo_cli calls) demo_args = ''s1''" "run_ledger_path (demo_cli calls) demo_args = ''ledger''"
  "ce_ledger_fails (demo_cli calls) = (\<lambda>_. False)"
  by (simp_all add: run_session_id_def run_ledger_path_def demo_args_def demo_cli_def)

lemma demo_cli_run:
  "\<exists>out s'. run_execute (demo_world empty_manifest) (demo_cli []) demo_args (at 0) = (Inr out, Some s') \<and>
     disk_works (s_ledger s') \<and> (\<forall>x \<in> set (s_log s'). readable x) \<and> length (s_log s') = 3 \<and>
     ro_session_id out = ''s1'' \<and> \<not> ro_halted out"
proof -
  let ?W = "demo_world empty_manifest"
  have "check_reserved (policy_from_manifest empty_manifest) = Inr ()" "m_extends empty_manifest = []"
    by (simp_all add: check_reserved_def policy_from_manifest_def empty_manifest_def)
  from demo_boot [OF this, of V1] obtain s x e' where s: "demo_session empty_manifest V1 s" "s_network_log s = []"
    "s_log s = [x]" "readable x" and b: "boot ?W (demo_config V1) (at 0) = (Inr s, e')" by (elim exE conjE) (rule that)
  have cfg: "boot ?W ((demo_config V1)\<lparr> bc_ledger_schema := None \<rparr>) (at 0) = (Inr s, e')"
    using b by (simp add: boot_default_version) (simp add: demo_config_def)
  have "s_policy s = policy_from_manifest empty_manifest" using s(1) by (simp add: demo_session_def)
  then have a: "attach_mcp (demo_cli []) (attach_approval (demo_cli []) s) = s"
    by (simp add: attach_mcp_def attach_approval_def demo_cli_def policy_from_manifest_def empty_manifest_def)
  have att: "boot_attached ?W (demo_cli []) (run_config (demo_cli []) demo_args ''ca'') (at 0) = (Inr s, e')"
    unfolding boot_attached_def demo_args_config using cfg a by (simp add: bindA_def mapErrA_def okA_def)
  have d: "drive ?W (demo_cli []) demo_args s = (Inr (False, None), s)"
    by (simp add: drive_def demo_args_def run_script_def load_script_def demo_cli_def bindA_liftA_ok okA_def)
  have "live s" using s(1) by (simp add: demo_session_def)
  from shutdown_live [OF this] obtain root s' where sh: "shutdown ?W s = (Inr root, s')" by blast
  note read = demo_shutdown_readable [OF sh s(2)]
  have dw: "disk_works (s_ledger s)" "reachable ?W s" "s_session_id s = ''s1''"
    using s(1) by (simp_all add: demo_session_def live_def)
  have "\<forall>e \<in> set (s_log s'). readable e" "length (s_log s') < 2 ^ 64" "utf8_ok (s_session_id s)"
    using read s(3,4) dw(3) by simp_all
  from shutdown_root_verifies [OF demo_world_laws dw(2,1) sh this(3,1,2)] obtain v where
    v: "verify_reader ?W (\<lambda>_. False) (b_disk (w_file (s_ledger s'))) = Inr v" by blast
  have "drive_and_close ?W (demo_cli []) demo_args s = (Inr \<lparr> ro_session_id = ''s1'', ro_ledger_path = ''ledger'',
       ro_root_hash_hex = hex_encode ?W root, ro_entry_count = vs_entry_count v, ro_halted = False,
       ro_halt_reason = None \<rparr>, s')"
    using v sh by (simp add: drive_and_close_def d bindA_def mapErrA_def getA_def verify_file_def
        liftA_def okA_def demo_names)
  moreover have "bindA (liftA (resolve_dir (demo_cli []) (ra_identity_dir demo_args)))
      (\<lambda>dir. boot_attached ?W (demo_cli []) (run_config (demo_cli []) demo_args dir)) (at 0) = (Inr s, e')"
    using att by (simp add: resolve_dir_def demo_args_def bindA_liftA_ok)
  ultimately have "run_execute ?W (demo_cli []) demo_args (at 0) = (Inr \<lparr> ro_session_id = ''s1'', ro_ledger_path = ''ledger'',
       ro_root_hash_hex = hex_encode ?W root, ro_entry_count = vs_entry_count v, ro_halted = False,
       ro_halt_reason = None \<rparr>, Some s')"
    by (simp add: run_execute_def) (simp add: demo_args_def)
  moreover have "disk_works (s_ledger s')" using shutdown_disk [OF sh] dw(1) by simp
  ultimately show ?thesis using read s(3,4) by auto
qed

theorem run_reports_its_ledger_witness:
  "\<exists>out s' sum. run_execute (demo_world empty_manifest) (demo_cli []) demo_args (at 0) = (Inr out, Some s') \<and>
     verify_reader (demo_world empty_manifest) (\<lambda>_. False) (b_disk (w_file (s_ledger s'))) = Inr sum \<and>
     vs_session_id sum = Some ''s1'' \<and> vs_root_hash_hex sum = ro_root_hash_hex out \<and> unat (ro_entry_count out) = 3"
proof -
  obtain out s' where r: "run_execute (demo_world empty_manifest) (demo_cli []) demo_args (at 0) = (Inr out, Some s')"
    "disk_works (s_ledger s')" "\<forall>x \<in> set (s_log s'). readable x" "length (s_log s') = 3" "ro_session_id out = ''s1''"
    using demo_cli_run by blast
  have "utf8_ok (run_session_id (demo_cli []) demo_args)" "length (s_log s') < 2 ^ 64"
    using r(4) by (simp_all add: run_session_id_def demo_args_def)
  from run_reports_its_ledger [OF demo_world_laws r(1,2) this(1) r(3) this(2)] r show ?thesis by auto
qed

theorem script_runs_to_first_halt_witness:
  "\<forall>s. \<exists>e. made (demo_world empty_manifest) [ScriptNetwork ''h'' 80 ''ftp'' None, ScriptDelete ''x'' None]
     [Inl (HaltFatal e)] s s"
proof
  fix s
  have "script_loop (demo_world empty_manifest) [ScriptNetwork ''h'' 80 ''ftp'' None, ScriptDelete ''x'' None] s
    = (Inl (RunScript (''unknown protocol '' @ CHR 0x22 # ''ftp'' @ [CHR 0x22])), s)"
    by (simp add: parse_proto_def bindA_tryA errA_def)
  from script_runs_to_first_halt [OF this] obtain ps e where
    m: "made (demo_world empty_manifest) [ScriptNetwork ''h'' 80 ''ftp'' None, ScriptDelete ''x'' None]
      (ps @ [Inl (HaltFatal e)]) s s" "list_all goes_on ps" by (simp only: sum.case) blast
  have "ps = []"
  proof (cases ps)
    case (Cons p qs)
    with m show ?thesis by (auto elim: made.cases simp: goes_on_def errA_def parse_proto_def)
  qed
  with m(1) show "\<exists>e. made (demo_world empty_manifest) [ScriptNetwork ''h'' 80 ''ftp'' None, ScriptDelete ''x'' None]
      [Inl (HaltFatal e)] s s" by auto
qed

end
