(* ===== verification/UiChat.thy ===== *)
theory UiChat
  imports Libs
begin

text \<open>
  The chat surface of the UI server: the backend's data (\<open>crates/ui-server/src/chat.rs\<close>) and one
  WebSocket connection (\<open>handlers/sessions.rs\<close>). A backend is its state and the function \<open>run_turn\<close>
  computes on it; the socket's failures, fresh ids and the parser of client frames are parameters. A
  task of its own runs each connection, so its state is sequential; the pauses between frames are not
  observable and left out.
\<close>

section \<open>Characters\<close>

text \<open>\<open>str::chars\<close> of a string, each character as its bytes.\<close>

function utf8_chars :: "string \<Rightarrow> string list" where
  "utf8_chars [] = []"
| "utf8_chars (c # s) = (c # takeWhile cont_byte s) # utf8_chars (dropWhile cont_byte s)"
  by pat_completeness auto
termination
  by (relation "measure length") (auto simp: le_imp_less_Suc length_dropWhile_le)

section \<open>The data of a turn\<close>

datatype TurnToolCallStatus =
    TurnCallSuccess json
  | TurnCallDenied string
  | TurnCallRequiresApproval string
  | TurnCallUnroutable string

fun status_kind :: "TurnToolCallStatus \<Rightarrow> string" where
  "status_kind (TurnCallSuccess v) = ''success''"
| "status_kind (TurnCallDenied r) = ''denied''"
| "status_kind (TurnCallRequiresApproval r) = ''requires_approval''"
| "status_kind (TurnCallUnroutable r) = ''unroutable''"

record TurnToolCall =
  tt_call_id :: string
  tt_name :: string
  tt_args :: json
  tt_status :: TurnToolCallStatus

record TurnResult =
  tr_assistant_text :: "string option"
  tr_tool_calls :: "TurnToolCall list"
  tr_verifiable_anchor :: "string option"

text \<open>What the blocking task that runs the backend yields: its result, or the panic of the task.\<close>

datatype worker_result = WorkerPanicked string | WorkerReturned "string + TurnResult"

type_synonym 'b chat_backend = "string \<Rightarrow> 'b \<Rightarrow> worker_result \<times> 'b"

definition stub_run_turn :: "unit chat_backend" where
  "stub_run_turn prompt b =
     (WorkerReturned (Inr
        \<lparr> tr_assistant_text = Some (''echo: '' @ prompt @ [CHR 0x0A, CHR 0x0A] @ ''(stub backend '' @
            [CHR 0xE2, CHR 0x80, CHR 0x94] @ '' start `aegis ui --manifest <m> --model <m> [--backend '' @
            ''llama|litertlm]` to attach a real Session::run_turn)''),
          tr_tool_calls = [], tr_verifiable_anchor = None \<rparr>), b)"

section \<open>Frames\<close>

definition SCHEMA_VERSION :: string where
  "SCHEMA_VERSION = ''v1''"

datatype ServerFrame =
    FrameTurnStart string
  | FrameAssistantText string string
  | FrameToolCall string string string json
  | FrameToolResult string string string "json option" "string option"
  | FrameTurnEnd string "string option"
  | FrameError string

datatype ClientFrame = UserPrompt string

definition opt_member :: "string \<Rightarrow> 'a option \<Rightarrow> ('a \<Rightarrow> json) \<Rightarrow> (string \<times> json) list" where
  "opt_member k x f = (case x of None \<Rightarrow> [] | Some y \<Rightarrow> [(k, f y)])"

fun frame_fields :: "ServerFrame \<Rightarrow> (string \<times> json) list" where
  "frame_fields (FrameTurnStart t) = [(''type'', JString ''turn_start''), (''turn_id'', JString t)]"
| "frame_fields (FrameAssistantText t x) =
     [(''type'', JString ''assistant_text''), (''turn_id'', JString t), (''text'', JString x)]"
| "frame_fields (FrameToolCall t c n a) =
     [(''type'', JString ''tool_call''), (''turn_id'', JString t), (''tool_call_id'', JString c),
      (''name'', JString n), (''args'', a)]"
| "frame_fields (FrameToolResult t c st v r) =
     [(''type'', JString ''tool_result''), (''turn_id'', JString t), (''tool_call_id'', JString c),
      (''status'', JString st)] @ opt_member ''value'' v id @ opt_member ''reason'' r JString"
| "frame_fields (FrameTurnEnd t a) =
     [(''type'', JString ''turn_end''), (''turn_id'', JString t)] @ opt_member ''verifiable_anchor'' a JString"
| "frame_fields (FrameError m) = [(''type'', JString ''error''), (''message'', JString m)]"

text \<open>The fields are inserted one by one after \<open>schema\<close>; serialising such a value does not fail.\<close>

definition encode :: "'w libs_scheme \<Rightarrow> ServerFrame \<Rightarrow> string + string" where
  "encode L frame =
     (case jobj (frame_fields frame) of
        JObject m \<Rightarrow> Inr (json_to_string L (JObject (fmap_of_list [(''schema'', JString SCHEMA_VERSION)] ++\<^sub>f m)))
      | v \<Rightarrow> Inr (json_to_string L v))"

section \<open>One connection\<close>

datatype WsMessage = WsText string | WsBinary bytes | WsPing bytes | WsPong bytes | WsClose

text \<open>The number given to a function is the count of calls to the environment made so far.\<close>

record ui_lib = libs +
  ul_send_error :: "nat \<Rightarrow> string option"
  ul_uuid_v7 :: "nat \<Rightarrow> string"
  ul_client_frame :: "string \<Rightarrow> string + ClientFrame"

record 'b chat_conn =
  cc_sent :: "string list"
  cc_tick :: nat
  cc_backend :: 'b

type_synonym ('b, 'a) conn_act = "('b chat_conn, string, 'a) act"

definition ws_send :: "'w ui_lib_scheme \<Rightarrow> string \<Rightarrow> ('b, unit) conn_act" where
  "ws_send L s = (\<lambda>c.
     case ul_send_error L (cc_tick c) of
       Some e \<Rightarrow> (Inl e, c\<lparr> cc_tick := Suc (cc_tick c) \<rparr>)
     | None \<Rightarrow> (Inr (), c\<lparr> cc_tick := Suc (cc_tick c), cc_sent := cc_sent c @ [s] \<rparr>))"

definition send_frame :: "'w ui_lib_scheme \<Rightarrow> ServerFrame \<Rightarrow> ('b, unit) conn_act" where
  "send_frame L frame = bindA (liftA (encode L frame)) (ws_send L)"

definition send_error :: "'w ui_lib_scheme \<Rightarrow> string \<Rightarrow> ('b, unit) conn_act" where
  "send_error L message = send_frame L (FrameError message)"

definition CHUNK_SIZE_CHARS :: nat where
  "CHUNK_SIZE_CHARS = 80"

fun stream_from :: "'w ui_lib_scheme \<Rightarrow> string \<Rightarrow> string \<Rightarrow> string list \<Rightarrow> ('b, unit) conn_act" where
  "stream_from L turn_id buf [] =
     (if buf \<noteq> [] then send_frame L (FrameAssistantText turn_id buf) else okA ())"
| "stream_from L turn_id buf (ch # chs) =
     (if CHUNK_SIZE_CHARS \<le> length (utf8_chars (buf @ ch)) then
        bindA (send_frame L (FrameAssistantText turn_id (buf @ ch))) (\<lambda>_. stream_from L turn_id [] chs)
      else stream_from L turn_id (buf @ ch) chs)"

definition stream_chunked :: "'w ui_lib_scheme \<Rightarrow> string \<Rightarrow> string \<Rightarrow> ('b, unit) conn_act" where
  "stream_chunked L turn_id s = stream_from L turn_id [] (utf8_chars s)"

text \<open>The status, the value and the reason of a \<open>tool_result\<close> frame.\<close>

fun status_parts :: "TurnToolCallStatus \<Rightarrow> string \<times> json option \<times> string option" where
  "status_parts (TurnCallSuccess v) = (''success'', Some v, None)"
| "status_parts (TurnCallDenied r) = (''denied'', None, Some r)"
| "status_parts (TurnCallRequiresApproval r) = (''requires_approval'', None, Some r)"
| "status_parts (TurnCallUnroutable r) = (''unroutable'', None, Some r)"

fun send_calls :: "'w ui_lib_scheme \<Rightarrow> string \<Rightarrow> TurnToolCall list \<Rightarrow> ('b, unit) conn_act" where
  "send_calls L turn_id [] = okA ()"
| "send_calls L turn_id (call # calls) =
     bindA (send_frame L (FrameToolCall turn_id (tt_call_id call) (tt_name call) (tt_args call))) (\<lambda>_.
     case status_parts (tt_status call) of (status, v, reason) \<Rightarrow>
     bindA (send_frame L (FrameToolResult turn_id (tt_call_id call) status v reason)) (\<lambda>_.
     send_calls L turn_id calls))"

definition send_outcome :: "'w ui_lib_scheme \<Rightarrow> string \<Rightarrow> TurnResult \<Rightarrow> ('b, unit) conn_act" where
  "send_outcome L turn_id outcome =
     (let texts = (case tr_assistant_text outcome of None \<Rightarrow> [] | Some s \<Rightarrow> if s \<noteq> [] then [s] else []) in
      bindA (case texts of [] \<Rightarrow> okA () | s # _ \<Rightarrow> stream_chunked L turn_id s) (\<lambda>_.
      bindA (send_calls L turn_id (tr_tool_calls outcome)) (\<lambda>_.
      bindA (if texts = [] \<and> tr_tool_calls outcome = []
             then send_frame L (FrameAssistantText turn_id ''(no output from backend)'') else okA ()) (\<lambda>_.
      send_frame L (FrameTurnEnd turn_id (tr_verifiable_anchor outcome))))))"

definition fresh_turn_id :: "'w ui_lib_scheme \<Rightarrow> ('b, string) conn_act" where
  "fresh_turn_id L = (\<lambda>c. (Inr (ul_uuid_v7 L (cc_tick c)), c\<lparr> cc_tick := Suc (cc_tick c) \<rparr>))"

definition call_backend :: "'b chat_backend \<Rightarrow> string \<Rightarrow> ('b, worker_result) conn_act" where
  "call_backend run prompt = (\<lambda>c.
     case run prompt (cc_backend c) of (r, b) \<Rightarrow> (Inr r, c\<lparr> cc_backend := b \<rparr>))"

text \<open>What follows the call of the backend. A panic of the worker is an error of the handler, returned
  before anything more is sent.\<close>

definition send_reply :: "'w ui_lib_scheme \<Rightarrow> string \<Rightarrow> worker_result \<Rightarrow> ('b, unit) conn_act" where
  "send_reply L turn_id worker =
     (case worker of
        WorkerPanicked e \<Rightarrow> errA e
      | WorkerReturned (Inl e) \<Rightarrow>
          bindA (send_error L (''backend error: '' @ e)) (\<lambda>_. send_frame L (FrameTurnEnd turn_id None))
      | WorkerReturned (Inr outcome) \<Rightarrow> send_outcome L turn_id outcome)"

definition ws_run_turn :: "'w ui_lib_scheme \<Rightarrow> 'b chat_backend \<Rightarrow> string \<Rightarrow> ('b, unit) conn_act" where
  "ws_run_turn L run prompt =
     bindA (fresh_turn_id L) (\<lambda>turn_id.
     bindA (send_frame L (FrameTurnStart turn_id)) (\<lambda>_.
     bindA (call_backend run prompt) (send_reply L turn_id)))"

definition handle_text_frame :: "'w ui_lib_scheme \<Rightarrow> 'b chat_backend \<Rightarrow> string \<Rightarrow> ('b, unit) conn_act" where
  "handle_text_frame L run s =
     (case ul_client_frame L s of
        Inl e \<Rightarrow> send_error L (''malformed frame: '' @ e)
      | Inr (UserPrompt prompt) \<Rightarrow> ws_run_turn L run prompt)"

text \<open>\<open>handle_socket\<close> on what the socket delivers: an error of a handler is logged and forgotten, a
  receive error and a close frame end the connection.\<close>

fun handle_socket :: "'w ui_lib_scheme \<Rightarrow> 'b chat_backend \<Rightarrow> (string + WsMessage) list \<Rightarrow> 'b chat_conn \<Rightarrow> 'b chat_conn" where
  "handle_socket L run [] c = c"
| "handle_socket L run (Inl e # msgs) c = c"
| "handle_socket L run (Inr (WsText s) # msgs) c = handle_socket L run msgs (snd (handle_text_frame L run s c))"
| "handle_socket L run (Inr WsClose # msgs) c = c"
| "handle_socket L run (Inr m # msgs) c = handle_socket L run msgs c"

section \<open>Characters and chunks\<close>

definition char_group :: "string \<Rightarrow> bool" where
  "char_group g \<longleftrightarrow> g \<noteq> [] \<and> \<not> cont_byte (hd g) \<and> list_all cont_byte (tl g)"

lemma concat_utf8_chars [simp]: "concat (utf8_chars s) = s"
  by (induction s rule: utf8_chars.induct) auto

lemma dropWhile_starts: "dropWhile P s = [] \<or> \<not> P (hd (dropWhile P s))"
  by (metis hd_dropWhile)

lemma char_groups: "s = [] \<or> \<not> cont_byte (hd s) \<Longrightarrow> list_all char_group (utf8_chars s)"
proof (induction s rule: utf8_chars.induct)
  case (2 c s)
  have "list_all char_group (utf8_chars (dropWhile cont_byte s))" using 2(1) dropWhile_starts by blast
  moreover have "list_all cont_byte (takeWhile cont_byte s)"
    unfolding list_all_iff using set_takeWhileD by metis
  moreover have "\<not> cont_byte c" using 2(2) by simp
  ultimately show ?case by (simp add: char_group_def [of "c # takeWhile cont_byte s"])
qed simp

lemma utf8_ok_starts: "utf8_ok s \<Longrightarrow> s = [] \<or> \<not> cont_byte (hd s)"
proof (cases s)
  case (Cons a r)
  assume ok: "utf8_ok s"
  have "\<not> cont_byte a"
  proof
    assume "cont_byte a"
    then have "128 \<le> byte_val a" "byte_val a < 192" by (simp_all add: cont_byte_def)
    with ok Cons show False by (simp add: Let_def)
  qed
  with Cons show ?thesis by simp
qed simp

lemma span_starts:
  "list_all P xs \<Longrightarrow> ys = [] \<or> \<not> P (hd ys) \<Longrightarrow> takeWhile P (xs @ ys) = xs \<and> dropWhile P (xs @ ys) = ys"
  by (induction xs) (cases ys, auto)+

lemma utf8_chars_groups: "list_all char_group gs \<Longrightarrow> utf8_chars (concat gs) = gs"
proof (induction gs)
  case (Cons g gs)
  then obtain c cs where g: "g = c # cs" "list_all cont_byte cs" by (cases g) (auto simp: char_group_def)
  have "concat gs = [] \<or> \<not> cont_byte (hd (concat gs))"
    using Cons.prems by (cases gs) (auto simp: char_group_def)
  then have "takeWhile cont_byte (cs @ concat gs) = cs \<and> dropWhile cont_byte (cs @ concat gs) = concat gs"
    by (rule span_starts [OF g(2)])
  with g Cons show ?case by simp
qed simp

text \<open>The texts of the chunks of a message, as a function of its characters.\<close>

function chunks_of :: "string list \<Rightarrow> string list" where
  "chunks_of chs = (if chs = [] then [] else concat (take 80 chs) # chunks_of (drop 80 chs))"
  by pat_completeness auto
termination
  by (relation "measure length") auto

declare chunks_of.simps [simp del]

lemma concat_chunks: "concat (chunks_of chs) = concat chs"
proof (induction chs rule: chunks_of.induct)
  case (1 chs)
  show ?case
  proof (cases "chs = []")
    case False
    then have "concat (chunks_of chs) = concat (take 80 chs) @ concat (chunks_of (drop 80 chs))"
      by (simp add: chunks_of.simps [of chs])
    also have "\<dots> = concat (take 80 chs @ drop 80 chs)" using 1 [OF False] by (simp only: concat_append)
    finally show ?thesis by simp
  qed (simp add: chunks_of.simps)
qed

lemma list_all_take_drop: "list_all P xs \<Longrightarrow> list_all P (take n xs) \<and> list_all P (drop n xs)"
  by (auto simp: list_all_iff dest: in_set_takeD in_set_dropD)

lemma chunk_sizes:
  "list_all char_group chs \<Longrightarrow> x \<in> set (chunks_of chs) \<Longrightarrow> x \<noteq> [] \<and> length (utf8_chars x) \<le> 80"
proof (induction chs rule: chunks_of.induct)
  case (1 chs)
  then have ne: "chs \<noteq> []" by (auto simp: chunks_of.simps)
  note td = list_all_take_drop [OF 1(2), of 80]
  from 1(3) ne consider "x = concat (take 80 chs)" | "x \<in> set (chunks_of (drop 80 chs))"
    by (auto simp: chunks_of.simps [of chs])
  then show ?case
  proof cases
    case 1
    have "hd chs \<noteq> []" using ne \<open>list_all char_group chs\<close> by (cases chs) (auto simp: char_group_def)
    then have "x \<noteq> []" using 1 ne by (cases chs) auto
    then show ?thesis using 1 td by (simp add: utf8_chars_groups)
  next
    case 2
    then show ?thesis using "1.IH" [OF ne] td by blast
  qed
qed

lemma chunks_cons: "chs \<noteq> [] \<Longrightarrow> chunks_of chs = concat (take 80 chs) # chunks_of (drop 80 chs)"
  by (subst chunks_of.simps) simp

lemma chunks_Nil [simp]: "chunks_of [] = []"
  by (simp add: chunks_of.simps)

section \<open>What a handler says\<close>

text \<open>The text of a frame on the wire. A connection is healthy when no send fails.\<close>

definition wire :: "'w libs_scheme \<Rightarrow> ServerFrame \<Rightarrow> string" where
  "wire L frame = json_to_string L (JObject
     (fmap_of_list [(''schema'', JString SCHEMA_VERSION)] ++\<^sub>f fmap_of_list (rev (frame_fields frame))))"

lemma encode_wire: "encode L frame = Inr (wire L frame)"
  by (simp add: encode_def wire_def jobj_def)

definition healthy :: "'w ui_lib_scheme \<Rightarrow> bool" where
  "healthy L \<longleftrightarrow> (\<forall>t. ul_send_error L t = None)"

definition says :: "'w ui_lib_scheme \<Rightarrow> ('b, unit) conn_act \<Rightarrow> ServerFrame list \<Rightarrow> bool" where
  "says L m fs \<longleftrightarrow> (\<forall>c. \<exists>c'. m c = (Inr (), c') \<and> cc_sent c' = cc_sent c @ map (wire L) fs \<and>
     cc_backend c' = cc_backend c)"

lemma saysE:
  assumes "says L m fs"
  obtains c' where "m c = (Inr (), c')" "cc_sent c' = cc_sent c @ map (wire L) fs" "cc_backend c' = cc_backend c"
  using assms unfolding says_def by blast

lemma says_ok: "says L (okA ()) []"
  by (simp add: says_def okA_def)

lemma says_send: "healthy L \<Longrightarrow> says L (send_frame L f) [f]"
  by (simp add: says_def send_frame_def encode_wire bindA_liftA_ok ws_send_def healthy_def)

lemma sent_one:
  assumes "healthy L"
  obtains c' where "send_frame L f c = (Inr (), c')" "cc_sent c' = cc_sent c @ [wire L f]" "cc_backend c' = cc_backend c"
  by (rule saysE [OF says_send [OF assms, of f], of c]) (simp add: that)

lemma says_bind: "says L m fs \<Longrightarrow> says L n gs \<Longrightarrow> says L (bindA m (\<lambda>_. n)) (fs @ gs)"
  unfolding says_def by (metis (no_types, lifting) append.assoc bindA_ok map_append)

lemma says_bind_one: "healthy L \<Longrightarrow> says L n gs \<Longrightarrow> says L (bindA (send_frame L f) (\<lambda>_. n)) (f # gs)"
  using says_bind [OF says_send, of L n gs f] by simp

lemma says_stream:
  assumes "healthy L"
  shows "list_all char_group (gs @ chs) \<Longrightarrow> length gs < 80 \<Longrightarrow>
    says L (stream_from L t (concat gs) chs :: ('b, unit) conn_act) (map (FrameAssistantText t) (chunks_of (gs @ chs)))"
proof (induction chs arbitrary: gs)
  case Nil
  show ?case
  proof (cases gs)
    case (Cons g gs')
    then have "concat gs \<noteq> []" using Nil(1) by (auto simp: char_group_def)
    moreover have "chunks_of gs = [concat gs]" using Nil(2) Cons by (simp add: chunks_cons)
    ultimately show ?thesis using says_send [OF assms, of "FrameAssistantText t (concat gs)"] by simp
  qed (simp add: says_ok)
next
  case (Cons ch chs)
  have groups: "list_all char_group (gs @ [ch])" "list_all char_group chs" using Cons.prems(1) by simp_all
  have buf: "concat gs @ ch = concat (gs @ [ch])" by simp
  have n: "length (utf8_chars (concat gs @ ch)) = Suc (length gs)"
    unfolding buf utf8_chars_groups [OF groups(1)] by simp
  show ?case
  proof (cases "Suc (length gs) < 80")
    case True
    with Cons.IH [of "gs @ [ch]"] Cons.prems(1) n show ?thesis by (simp add: CHUNK_SIZE_CHARS_def)
  next
    case False
    then have l: "length (gs @ [ch]) = 80" using Cons.prems(2) by simp
    then have "take 80 ((gs @ [ch]) @ chs) = gs @ [ch]" "drop 80 ((gs @ [ch]) @ chs) = chs"
      by (metis append_eq_conv_conj)+
    then have "chunks_of (gs @ ch # chs) = (concat gs @ ch) # chunks_of chs"
      using chunks_cons [of "(gs @ [ch]) @ chs"] by simp
    moreover have "says L (stream_from L t [] chs :: ('b, unit) conn_act) (map (FrameAssistantText t) (chunks_of chs))"
      using Cons.IH [of "[]"] groups(2) by simp
    ultimately show ?thesis using says_bind_one [OF assms] False n by (simp add: CHUNK_SIZE_CHARS_def)
  qed
qed

definition call_frames :: "string \<Rightarrow> TurnToolCall \<Rightarrow> ServerFrame list" where
  "call_frames t call = (case status_parts (tt_status call) of (status, v, reason) \<Rightarrow>
     [FrameToolCall t (tt_call_id call) (tt_name call) (tt_args call),
      FrameToolResult t (tt_call_id call) status v reason])"

lemma says_calls: "healthy L \<Longrightarrow> says L (send_calls L t calls) (concat (map (call_frames t) calls))"
proof (induction calls)
  case (Cons call calls)
  obtain st v r where p: "status_parts (tt_status call) = (st, v, r)" by (cases "status_parts (tt_status call)") auto
  show ?case using Cons by (simp add: p call_frames_def says_bind_one)
qed (simp add: says_ok)

section \<open>The protocol\<close>

text \<open>The reply to a prompt, as a client may rely on it. The texts of the chunks put together are the
  assistant's text, or a placeholder when the backend produced nothing.\<close>

fun spoken_text :: "TurnResult \<Rightarrow> string" where
  "spoken_text o1 = (case tr_assistant_text o1 of
     Some (c # s) \<Rightarrow> c # s
   | _ \<Rightarrow> if tr_tool_calls o1 = [] then ''(no output from backend)'' else [])"

fun reply :: "string \<Rightarrow> worker_result \<Rightarrow> ServerFrame list \<Rightarrow> bool" where
  "reply t (WorkerPanicked e) fs = (fs = [FrameTurnStart t])"
| "reply t (WorkerReturned (Inl e)) fs =
     (fs = [FrameTurnStart t, FrameError (''backend error: '' @ e), FrameTurnEnd t None])"
| "reply t (WorkerReturned (Inr o1)) fs =
     (\<exists>chunks. fs = FrameTurnStart t # map (FrameAssistantText t) chunks @
          concat (map (call_frames t) (tr_tool_calls o1)) @ [FrameTurnEnd t (tr_verifiable_anchor o1)] \<and>
        concat chunks = spoken_text o1 \<and> (\<forall>x \<in> set chunks. x \<noteq> [] \<and> length (utf8_chars x) \<le> 80))"

text \<open>The prompts of the parser and the texts of the backend are UTF-8, as every Rust string is.\<close>

definition utf8_frames :: "'w ui_lib_scheme \<Rightarrow> bool" where
  "utf8_frames L \<longleftrightarrow> (\<forall>s p. ul_client_frame L s = Inr (UserPrompt p) \<longrightarrow> utf8_ok p)"

definition utf8_backend :: "'b chat_backend \<Rightarrow> bool" where
  "utf8_backend run \<longleftrightarrow> (\<forall>p b o1 s. utf8_ok p \<and> fst (run p b) = WorkerReturned (Inr o1) \<and>
     tr_assistant_text o1 = Some s \<longrightarrow> utf8_ok s)"

lemma says_outcome:
  assumes "healthy L" and "\<And>s. tr_assistant_text o1 = Some s \<Longrightarrow> utf8_ok s"
  obtains chunks where "says L (send_outcome L t o1 :: ('b, unit) conn_act) (map (FrameAssistantText t) chunks @
      concat (map (call_frames t) (tr_tool_calls o1)) @ [FrameTurnEnd t (tr_verifiable_anchor o1)])"
    and "concat chunks = spoken_text o1" and "\<forall>x \<in> set chunks. x \<noteq> [] \<and> length (utf8_chars x) \<le> 80"
proof -
  have calls: "says L (send_calls L t (tr_tool_calls o1) :: ('b, unit) conn_act) (concat (map (call_frames t) (tr_tool_calls o1)))"
    by (rule says_calls [OF assms(1)])
  have fin: "says L (send_frame L (FrameTurnEnd t (tr_verifiable_anchor o1)) :: ('b, unit) conn_act)
      [FrameTurnEnd t (tr_verifiable_anchor o1)]" by (rule says_send [OF assms(1)])
  let ?rest = "concat (map (call_frames t) (tr_tool_calls o1)) @ [FrameTurnEnd t (tr_verifiable_anchor o1)]"
  show ?thesis
  proof (cases "tr_assistant_text o1 = None \<or> tr_assistant_text o1 = Some []")
    case True
    show ?thesis
    proof (cases "tr_tool_calls o1 = []")
      case none: True
      let ?p = "''(no output from backend)''"
      have "says L (send_outcome L t o1 :: ('b, unit) conn_act) (map (FrameAssistantText t) [?p] @ ?rest)"
        using True none says_bind_one [OF assms(1) fin]
        by (auto simp: send_outcome_def Let_def bindA_def okA_def)
      moreover have "concat [?p] = spoken_text o1" using True none by auto
      moreover have "\<forall>x \<in> set [?p]. x \<noteq> [] \<and> length (utf8_chars x) \<le> 80" by (simp add: cont_byte_def)
      ultimately show ?thesis by (rule that)
    next
      case some: False
      have "says L (send_outcome L t o1 :: ('b, unit) conn_act) (map (FrameAssistantText t) [] @ ?rest)"
        using True some says_bind [OF calls fin]
        by (auto simp: send_outcome_def Let_def bindA_def okA_def)
      moreover have "concat [] = spoken_text o1" using True some by auto
      ultimately show ?thesis by (rule that) simp
    qed
  next
    case False
    then obtain c s where s: "tr_assistant_text o1 = Some (c # s)" by (cases "tr_assistant_text o1") (auto simp: neq_Nil_conv)
    have g: "list_all char_group (utf8_chars (c # s))"
      using char_groups [OF utf8_ok_starts [OF assms(2) [OF s]]] .
    have "says L (stream_chunked L t (c # s) :: ('b, unit) conn_act) (map (FrameAssistantText t) (chunks_of (utf8_chars (c # s))))"
      unfolding stream_chunked_def using says_stream [OF assms(1), of "[]" "utf8_chars (c # s)" t] g
      by (simp del: utf8_chars.simps)
    from says_bind [OF this says_bind [OF calls fin]]
    have "says L (send_outcome L t o1 :: ('b, unit) conn_act) (map (FrameAssistantText t) (chunks_of (utf8_chars (c # s))) @ ?rest)"
      by (simp add: send_outcome_def Let_def s bindA_okA cong: if_cong) (simp add: bindA_def okA_def cong: sum.case_cong)
    moreover have "concat (chunks_of (utf8_chars (c # s))) = spoken_text o1"
      by (simp only: concat_chunks concat_utf8_chars) (simp add: s)
    ultimately show ?thesis using chunk_sizes [OF g] by (intro that) blast+
  qed
qed

lemma says_turn:
  fixes run :: "'b chat_backend"
  assumes "healthy L" and "utf8_backend run" and "utf8_ok prompt"
  obtains t r fs c' where "run prompt (cc_backend c) = (r, cc_backend c')" and "reply t r fs"
    and "snd (ws_run_turn L run prompt c) = c'" and "cc_sent c' = cc_sent c @ map (wire L) fs"
    and "fst (ws_run_turn L run prompt c) = Inr () \<longleftrightarrow> (\<forall>e. r \<noteq> WorkerPanicked e)"
proof -
  note give = that
  let ?t = "ul_uuid_v7 L (cc_tick c)"
  let ?c1 = "c\<lparr> cc_tick := Suc (cc_tick c) \<rparr>"
  obtain c2 where 2: "send_frame L (FrameTurnStart ?t) ?c1 = (Inr (), c2)"
    "cc_sent c2 = cc_sent c @ [wire L (FrameTurnStart ?t)]" "cc_backend c2 = cc_backend c"
    using sent_one [OF assms(1), of "FrameTurnStart ?t" ?c1] by auto
  obtain r b where r: "run prompt (cc_backend c) = (r, b)" by (cases "run prompt (cc_backend c)")
  let ?c3 = "c2\<lparr> cc_backend := b \<rparr>"
  let ?rest = "send_reply L ?t r :: ('b, unit) conn_act"
  have run: "ws_run_turn L run prompt c = ?rest ?c3"
    by (simp add: ws_run_turn_def bindA_def fresh_turn_id_def 2(1) call_backend_def 2(3) r)
  have finish: thesis if "says L ?rest fs" "reply ?t r (FrameTurnStart ?t # fs)" "\<forall>e. r \<noteq> WorkerPanicked e" for fs
  proof (rule saysE [OF that(1), of ?c3])
    fix c' assume "?rest ?c3 = (Inr (), c')" "cc_sent c' = cc_sent ?c3 @ map (wire L) fs" "cc_backend c' = cc_backend ?c3"
    with run r 2 that(2,3) show thesis by (intro give [of r c' ?t "FrameTurnStart ?t # fs"]) simp_all
  qed
  show ?thesis
  proof (cases r)
    case (WorkerPanicked e)
    with run r 2 show ?thesis by (intro give [of r ?c3 ?t "[FrameTurnStart ?t]"]) (simp_all add: errA_def send_reply_def)
  next
    case (WorkerReturned x)
    show ?thesis
    proof (cases x)
      case (Inl e)
      show ?thesis
        by (rule finish) (simp_all add: WorkerReturned Inl send_error_def send_reply_def
            says_bind_one [OF assms(1) says_send [OF assms(1)]])
    next
      case (Inr o1)
      have u: "tr_assistant_text o1 = Some s \<Longrightarrow> utf8_ok s" for s
        using assms(2,3) r WorkerReturned Inr unfolding utf8_backend_def by (metis fst_conv)
      show ?thesis
        by (rule says_outcome [where t = ?t, OF assms(1) u]) (assumption, rule finish, auto simp: WorkerReturned Inr send_reply_def)
    qed
  qed
qed

text \<open>The exchange a client sees: one list of frames per text it sent, in order, with the backend's
  state threaded through the prompts.\<close>

inductive exchange :: "'w ui_lib_scheme \<Rightarrow> 'b chat_backend \<Rightarrow> 'b \<Rightarrow> string list \<Rightarrow> ServerFrame list list \<Rightarrow> 'b \<Rightarrow> bool"
  for L :: "'w ui_lib_scheme" and run :: "'b chat_backend" where
  quiet: "exchange L run b [] [] b"
| malformed: "ul_client_frame L s = Inl e \<Longrightarrow> exchange L run b ss turns b' \<Longrightarrow>
    exchange L run b (s # ss) ([FrameError (''malformed frame: '' @ e)] # turns) b'"
| answered: "ul_client_frame L s = Inr (UserPrompt prompt) \<Longrightarrow> run prompt b = (r, b1) \<Longrightarrow> reply t r fs \<Longrightarrow>
    exchange L run b1 ss turns b' \<Longrightarrow> exchange L run b (s # ss) (fs # turns) b'"

inductive_cases exchange_nil [elim!]: "exchange L run b [] turns b'"
inductive_cases exchange_cons [elim!]: "exchange L run b (s # ss) turns b'"

text \<open>The texts a connection handles: those before it is closed or fails.\<close>

fun delivered :: "(string + WsMessage) list \<Rightarrow> string list" where
  "delivered [] = []"
| "delivered (Inl e # msgs) = []"
| "delivered (Inr (WsText s) # msgs) = s # delivered msgs"
| "delivered (Inr WsClose # msgs) = []"
| "delivered (Inr m # msgs) = delivered msgs"

lemma handle_ws_message:
  "handle_socket L run (Inr m # msgs) c = (case m of
     WsText s \<Rightarrow> handle_socket L run msgs (snd (handle_text_frame L run s c)) | WsClose \<Rightarrow> c
   | _ \<Rightarrow> handle_socket L run msgs c)"
  "delivered (Inr m # msgs) = (case m of WsText s \<Rightarrow> s # delivered msgs | WsClose \<Rightarrow> [] | _ \<Rightarrow> delivered msgs)"
  by (cases m; simp)+

lemma socket_exchange:
  assumes "healthy L" and "utf8_backend run" and "utf8_frames L"
  shows "\<exists>turns. cc_sent (handle_socket L run msgs c) = cc_sent c @ map (wire L) (concat turns) \<and>
     exchange L run (cc_backend c) (delivered msgs) turns (cc_backend (handle_socket L run msgs c))"
proof (induction msgs arbitrary: c)
  case (Cons m msgs)
  show ?case
  proof (cases "\<exists>s. m = Inr (WsText s)")
    case False
    then have "(handle_socket L run (m # msgs) c = c \<and> delivered (m # msgs) = []) \<or>
        (handle_socket L run (m # msgs) c = handle_socket L run msgs c \<and> delivered (m # msgs) = delivered msgs)"
      by (cases m) (auto split: WsMessage.split simp: handle_ws_message)
    then show ?thesis
    proof
      assume h: "handle_socket L run (m # msgs) c = c \<and> delivered (m # msgs) = []"
      show ?thesis by (intro exI [of _ "[]"]) (simp add: h exchange.quiet)
    qed (use Cons.IH [of c] in simp)
  next
    case True
    then obtain s where m: "m = Inr (WsText s)" ..
    let ?c1 = "snd (handle_text_frame L run s c)"
    obtain turns where t: "cc_sent (handle_socket L run msgs ?c1) = cc_sent ?c1 @ map (wire L) (concat turns)"
      "exchange L run (cc_backend ?c1) (delivered msgs) turns (cc_backend (handle_socket L run msgs ?c1))"
      using Cons.IH by blast
    show ?thesis
    proof (cases "ul_client_frame L s")
      case (Inl e)
      let ?f = "FrameError (''malformed frame: '' @ e)"
      have "handle_text_frame L run s c = send_frame L ?f c" by (simp add: handle_text_frame_def Inl send_error_def)
      moreover obtain c' where "send_frame L ?f c = (Inr (), c')" "cc_sent c' = cc_sent c @ [wire L ?f]"
        "cc_backend c' = cc_backend c" by (rule sent_one [OF assms(1)])
      ultimately have "cc_sent ?c1 = cc_sent c @ [wire L ?f]" "cc_backend ?c1 = cc_backend c" by simp_all
      with t exchange.malformed [OF Inl] show ?thesis unfolding m by (intro exI [of _ "[?f] # turns"]) simp
    next
      case (Inr f)
      obtain prompt where f: "f = UserPrompt prompt" by (cases f)
      have h: "handle_text_frame L run s c = ws_run_turn L run prompt c" by (simp add: handle_text_frame_def Inr f)
      have "utf8_ok prompt" using assms(3) Inr f by (simp add: utf8_frames_def)
      then show ?thesis
      proof (rule says_turn [OF assms(1,2), of prompt c])
        fix t r fs c'
        assume r: "run prompt (cc_backend c) = (r, cc_backend c')" "reply t r fs" "snd (ws_run_turn L run prompt c) = c'"
          "cc_sent c' = cc_sent c @ map (wire L) fs"
        have "exchange L run (cc_backend c) (s # delivered msgs) (fs # turns) (cc_backend (handle_socket L run msgs ?c1))"
          by (rule exchange.answered [where prompt = prompt and r = r]) (use Inr f r(1,2) t(2) in \<open>simp_all add: h r(3)\<close>)
        with t(1) r(4) show ?thesis unfolding m by (intro exI [of _ "fs # turns"]) (simp add: h r(3))
      qed
    qed
  qed
qed (rule exI [of _ "[]"], simp add: exchange.quiet)

section \<open>Properties\<close>

text \<open>C11: On a connection whose sends succeed, every prompt is answered as long as the backend does not
  panic. The frames sent are one group per text received before the connection closes, in order: an error
  frame for a text that is not a client frame, and for a prompt a whole turn, from its \<open>turn_start\<close> to its
  \<open>turn_end\<close> with the same id. The texts of the turn, in chunks of at most 80 characters, are what the
  backend answered, the tool calls come in pairs, the anchor is the backend's, and an error of the backend
  is reported before the turn ends.\<close>

theorem prompts_are_answered:
  assumes "healthy L" and "utf8_frames L" and "utf8_backend run" and "\<forall>p b e. fst (run p b) \<noteq> WorkerPanicked e"
  shows "\<exists>turns. cc_sent (handle_socket L run msgs c) = cc_sent c @ map (wire L) (concat turns) \<and>
     exchange L run (cc_backend c) (delivered msgs) turns (cc_backend (handle_socket L run msgs c)) \<and>
     list_all2 (\<lambda>s fs. \<forall>p. ul_client_frame L s = Inr (UserPrompt p) \<longrightarrow>
        (\<exists>t mid anchor. fs = FrameTurnStart t # mid @ [FrameTurnEnd t anchor])) (delivered msgs) turns"
proof -
  have whole: "\<exists>t mid anchor. fs = FrameTurnStart t # mid @ [FrameTurnEnd t anchor]"
    if "run p b = (r, b1)" "reply t r fs" for p b r b1 t fs
  proof (cases r)
    case (WorkerReturned y)
    with that(2) show ?thesis
      by (cases y) (auto simp del: spoken_text.simps intro: exI [of _ "_ @ _"] exI [of _ "[_]"] simp flip: append_assoc)
  qed (use that assms(4) in \<open>metis fst_conv\<close>)
  obtain turns where t: "cc_sent (handle_socket L run msgs c) = cc_sent c @ map (wire L) (concat turns)"
    and x: "exchange L run (cc_backend c) (delivered msgs) turns (cc_backend (handle_socket L run msgs c))"
    using socket_exchange [OF assms(1,3,2)] by blast
  from x have "list_all2 (\<lambda>s fs. \<forall>p. ul_client_frame L s = Inr (UserPrompt p) \<longrightarrow>
      (\<exists>t mid anchor. fs = FrameTurnStart t # mid @ [FrameTurnEnd t anchor])) (delivered msgs) turns"
    by (induction rule: exchange.induct) (use whole in auto)
  with t x show ?thesis by blast
qed

text \<open>When the blocking task panics, the turn it ran is started and never ended: the client gets
  \<open>turn_start\<close> and nothing else, no error frame and no \<open>turn_end\<close>, and the connection goes on with the
  next text as if nothing had happened.\<close>

theorem panicked_turn_never_ends:
  assumes "healthy L" and "ul_client_frame L s = Inr (UserPrompt p)"
    and "run p (cc_backend c) = (WorkerPanicked e, b)"
  shows "\<exists>t c1. handle_socket L run (Inr (WsText s) # msgs) c = handle_socket L run msgs c1 \<and>
     cc_sent c1 = cc_sent c @ [wire L (FrameTurnStart t)] \<and> cc_backend c1 = b"
proof -
  let ?t = "ul_uuid_v7 L (cc_tick c)"
  obtain c2 where 2: "send_frame L (FrameTurnStart ?t) (c\<lparr> cc_tick := Suc (cc_tick c) \<rparr>) = (Inr (), c2)"
    "cc_sent c2 = cc_sent c @ [wire L (FrameTurnStart ?t)]" "cc_backend c2 = cc_backend c"
    using sent_one [OF assms(1), of "FrameTurnStart ?t" "c\<lparr> cc_tick := Suc (cc_tick c) \<rparr>"] by auto
  have "handle_text_frame L run s c = (Inl e, c2\<lparr> cc_backend := b \<rparr>)"
    by (simp add: handle_text_frame_def assms(2) ws_run_turn_def bindA_def fresh_turn_id_def 2(1) call_backend_def
        2(3) assms(3) errA_def send_reply_def)
  with 2 show ?thesis by (intro exI [of _ ?t] exI [of _ "c2\<lparr> cc_backend := b \<rparr>"]) simp
qed

section \<open>Witnesses\<close>

definition demo_ui :: ui_lib where
  "demo_ui = libs.extend libs0
     (ui_lib.fields (\<lambda>_. None) show_nat
        (\<lambda>s. if s = [] \<or> \<not> utf8_ok s then Inl ''EOF'' else Inr (UserPrompt s)))"

lemma demo_ui_simps [simp]:
  "ul_send_error demo_ui = (\<lambda>_. None)" "ul_uuid_v7 demo_ui = show_nat"
  "ul_client_frame demo_ui = (\<lambda>s. if s = [] \<or> \<not> utf8_ok s then Inl ''EOF'' else Inr (UserPrompt s))"
  by (simp_all add: demo_ui_def libs.defs ui_lib.defs)

lemma stub_utf8: "utf8_backend stub_run_turn"
  by (auto simp: utf8_backend_def stub_run_turn_def cont_byte_def Let_def intro!: utf8_ok_append)

theorem prompts_are_answered_witness:
  "\<exists>t chunks. cc_sent (handle_socket demo_ui stub_run_turn [Inr (WsText ''hi''), Inr WsClose]
       \<lparr> cc_sent = [], cc_tick = 0, cc_backend = () \<rparr>) =
     map (wire demo_ui) (FrameTurnStart t # map (FrameAssistantText t) chunks @ [FrameTurnEnd t None]) \<and>
     take 8 (concat chunks) = ''echo: hi''"
proof -
  let ?m = "[Inr (WsText ''hi''), Inr WsClose] :: (string + WsMessage) list"
  let ?c = "\<lparr> cc_sent = [], cc_tick = 0, cc_backend = () \<rparr>"
  have "healthy demo_ui" "utf8_frames demo_ui" by (auto simp: healthy_def utf8_frames_def split: if_splits)
  moreover have "\<forall>p b e. fst (stub_run_turn p b) \<noteq> WorkerPanicked e" by (simp add: stub_run_turn_def)
  ultimately obtain turns where sent: "cc_sent (handle_socket demo_ui stub_run_turn ?m ?c) = cc_sent ?c @ map (wire demo_ui) (concat turns)"
    and x: "exchange demo_ui stub_run_turn (cc_backend ?c) (delivered ?m) turns (cc_backend (handle_socket demo_ui stub_run_turn ?m ?c))"
    using prompts_are_answered [OF _ _ stub_utf8, of demo_ui ?m ?c] by blast
  from x have "exchange demo_ui stub_run_turn () [''hi''] turns ()" by simp
  then obtain t r fs where turns: "turns = [fs]" and r: "r = fst (stub_run_turn ''hi'' ())" "reply t r fs"
    by (auto simp: is_ascii_char_def)
  obtain o1 where o1: "r = WorkerReturned (Inr o1)" "tr_tool_calls o1 = []" "tr_verifiable_anchor o1 = None"
    "take 8 (spoken_text o1) = ''echo: hi''" using r(1) by (simp add: stub_run_turn_def)
  with r(2) obtain chunks where "fs = FrameTurnStart t # map (FrameAssistantText t) chunks @ [FrameTurnEnd t None]"
    "concat chunks = spoken_text o1" by (auto simp del: spoken_text.simps)
  with sent turns o1(4) show ?thesis by (intro exI [of _ t] exI [of _ chunks]) (simp del: handle_socket.simps)
qed

theorem panicked_turn_never_ends_witness:
  "\<exists>t. cc_sent (handle_socket demo_ui (\<lambda>_ b. (WorkerPanicked ''lost'', b)) [Inr (WsText ''hi'')]
       \<lparr> cc_sent = [], cc_tick = 0, cc_backend = () \<rparr>) = [wire demo_ui (FrameTurnStart t)]"
proof -
  have "healthy demo_ui" "ul_client_frame demo_ui ''hi'' = Inr (UserPrompt ''hi'')" by (simp_all add: healthy_def)
  from panicked_turn_never_ends [OF this, of "\<lambda>_ b. (WorkerPanicked ''lost'', b)"
      "\<lparr> cc_sent = [], cc_tick = 0, cc_backend = () \<rparr>" "''lost''" "()" "[]"]
  show ?thesis by auto
qed

end
