(* ===== verification/UiBackend.thy ===== *)
theory UiBackend
  imports CliRunFacts UiChat Web
begin

text \<open>
  \<open>aegis ui\<close> (\<open>crates/cli/src/ui.rs\<close>): the backend of the chat surface that runs the turns of a session
  behind a mutex, and the factory that boots a session on another model. What the process finds in its
  environment extends \<open>cli_env\<close>; the rendering of errors is a parameter.
\<close>

section \<open>Arguments\<close>

record UiArgs =
  ua_listen :: socket_addr
  ua_manifest :: "string option"
  ua_model :: "string option"
  ua_backend :: BackendKind
  ua_config :: "string option"
  ua_chat_template_sidecar :: "string option"
  ua_identity_dir :: "string option"
  ua_workload :: string
  ua_instance :: string
  ua_ledger :: "string option"

record ui_env = cli_env +
  ue_cache_dir :: "string option"
  ue_is_file :: "string \<Rightarrow> bool"
  ue_unix_secs :: u64
  ue_current_dir :: "string + string"
  ue_engine_error :: "engine_error \<Rightarrow> string"
  ue_run_error :: "run_error \<Rightarrow> string"
  ue_show_addr :: "socket_addr \<Rightarrow> string"

abbreviation cli_of :: "'u ui_env_scheme \<Rightarrow> cli_env" where
  "cli_of U \<equiv> cli_env.truncate U"

section \<open>The session backend\<close>

record session_backend =
  sb_session :: session
  sb_poisoned :: bool

definition session_backend_new :: "session \<Rightarrow> session_backend" where
  "session_backend_new s = \<lparr> sb_session = s, sb_poisoned = False \<rparr>"

fun convert_status :: "ToolCallResult \<Rightarrow> TurnToolCallStatus" where
  "convert_status (CallSuccess v) = TurnCallSuccess v"
| "convert_status (CallDenied reason) = TurnCallDenied reason"
| "convert_status (CallRequiresApproval reason) = TurnCallRequiresApproval reason"
| "convert_status (CallUnroutable reason) = TurnCallUnroutable reason"

definition turn_tool_call :: "nat \<Rightarrow> ToolCallOutcome \<Rightarrow> TurnToolCall" where
  "turn_tool_call i call =
     \<lparr> tt_call_id = ''call-'' @ show_nat i, tt_name = to_name call, tt_args = to_arguments call,
       tt_status = convert_status (to_result call) \<rparr>"

definition turn_result :: "TurnOutcome \<Rightarrow> TurnResult" where
  "turn_result out =
     \<lparr> tr_assistant_text = tu_assistant_text out,
       tr_tool_calls = map (\<lambda>(i, call). turn_tool_call i call) (enumerate 0 (tu_tool_calls out)),
       tr_verifiable_anchor = Some (tu_reasoning_step_id out) \<rparr>"

text \<open>A panic while the session is locked poisons the mutex, and every later lock fails.\<close>

definition session_run_turn :: "'w world_scheme \<Rightarrow> 'u ui_env_scheme \<Rightarrow> session_backend chat_backend" where
  "session_run_turn W U prompt b =
     (if sb_poisoned b then
        (WorkerReturned (Inl (''session mutex poisoned: '' @ ''poisoned lock: another task failed inside'')), b)
      else case run_turn W prompt (sb_session b) of
        (Inl e, s) \<Rightarrow>
          if e = EngPanic then (WorkerPanicked ''task panicked'', \<lparr> sb_session = s, sb_poisoned = True \<rparr>)
          else (WorkerReturned (Inl (''Session::run_turn: '' @ ue_engine_error U e)), b\<lparr> sb_session := s \<rparr>)
      | (Inr out, s) \<Rightarrow> (WorkerReturned (Inr (turn_result out)), b\<lparr> sb_session := s \<rparr>))"

section \<open>The factory\<close>

record SessionBackendFactory =
  fa_manifest :: string
  fa_config :: "string option"
  fa_chat_template_sidecar :: "string option"
  fa_identity_dir :: "string option"
  fa_workload :: string
  fa_instance :: string
  fa_backend_kind :: BackendKind
  fa_current_digest :: "string option"

text \<open>\<open>Path::join\<close>: an absolute path replaces the one it is joined to.\<close>

definition join_abs :: "string \<Rightarrow> string \<Rightarrow> string" where
  "join_abs base p = (if prefix ''/'' p then p else path_in base p)"

definition fork_model_path :: "string \<Rightarrow> string \<Rightarrow> string" where
  "fork_model_path cache_dir digest =
     join_abs (join_abs (join_abs (join_abs cache_dir ''aegis'') ''models'') digest) ''blob.bin''"

datatype fork_error = ForkPanicked string | ForkFailed string

text \<open>\<open>&s[..n]\<close> panics when the cut is inside a character.\<close>

definition str_slice_to :: "string \<Rightarrow> nat \<Rightarrow> string option" where
  "str_slice_to s n = (if n < length s \<and> cont_byte (s ! n) then None else Some (take n s))"

definition fork_ledger_path :: "'u ui_env_scheme \<Rightarrow> string \<Rightarrow> fork_error + string" where
  "fork_ledger_path U digest =
     (case str_slice_to digest (min (length digest) 8) of
        None \<Rightarrow> Inl (ForkPanicked ''byte index 8 is not a char boundary'')
      | Some digest8 \<Rightarrow>
          (case ue_current_dir U of
             Inl e \<Rightarrow> Inl (ForkFailed (''resolving ledger path for fork: '' @ e))
           | Inr dir \<Rightarrow> Inr (join_abs dir
               (''ledger-ui-fork-'' @ digest8 @ ''-'' @ show_nat (unat (ue_unix_secs U)) @ ''.jsonl''))))"

fun is_panic :: "run_error \<Rightarrow> bool" where
  "is_panic (RunEngine c e) = (e = EngPanic)"
| "is_panic _ = False"

definition fork_boot_result :: "'u ui_env_scheme \<Rightarrow> run_error + session \<Rightarrow> fork_error + session" where
  "fork_boot_result U booted =
     (case booted of
        Inl err \<Rightarrow> if is_panic err then Inl (ForkPanicked (ue_run_error U err))
                   else Inl (ForkFailed (''forking Session: '' @ ue_run_error U err))
      | Inr s \<Rightarrow> Inr s)"

text \<open>The fork returns the new backend, and records its digest.\<close>

definition factory_fork :: "'w world_scheme \<Rightarrow> 'u ui_env_scheme \<Rightarrow> env \<Rightarrow> string
    \<Rightarrow> (SessionBackendFactory, fork_error, session_backend) act" where
  "factory_fork W U e digest =
     bindA (liftA (of_option (ForkFailed ''could not resolve user cache dir for model lookup'') (ue_cache_dir U))) (\<lambda>cache.
     let model_path = fork_model_path cache digest in
     bindA (liftA (guardE (ue_is_file U model_path) (ForkFailed (''model digest '' @ digest @
       '' not in local cache (expected '' @ model_path @ ''); pull it via `aegis pull <ref>` first'')))) (\<lambda>_.
     bindA (liftA (fork_ledger_path U digest)) (\<lambda>ledger_path.
     bindA (getA (\<lambda>f. fst (boot_session_for_ui W (cli_of U) (fa_manifest f) model_path (fa_config f)
        (fa_chat_template_sidecar f) (fa_identity_dir f) (fa_workload f) (fa_instance f) (Some ledger_path)
        (fa_backend_kind f) e))) (\<lambda>booted.
     bindA (liftA (fork_boot_result U booted)) (\<lambda>s.
     bindA (modA (\<lambda>f. f\<lparr> fa_current_digest := Some digest \<rparr>)) (\<lambda>_. okA (session_backend_new s)))))))"

section \<open>Start\<close>

text \<open>The file name of the parent directory.\<close>

definition digest_from_model_path :: "string \<Rightarrow> string option" where
  "digest_from_model_path p =
     (case rev (path_components p) of
        RootDir # _ \<Rightarrow> None
      | _ # Normal d # _ \<Rightarrow> if length d = 64 \<and> list_all is_hexdigit d then Some d else None
      | _ \<Rightarrow> None)"

definition compiled_features :: "'u ui_env_scheme \<Rightarrow> string list" where
  "compiled_features U =
     (if ce_llama U \<noteq> None then [''llama''] else []) @ (if ce_litertlm U \<noteq> None then [''litertlm''] else [])"

datatype ui_backend = UiStub | UiSession session_backend

definition factory_of :: "UiArgs \<Rightarrow> string \<Rightarrow> string \<Rightarrow> SessionBackendFactory" where
  "factory_of args manifest model =
     \<lparr> fa_manifest = manifest, fa_config = ua_config args,
       fa_chat_template_sidecar = ua_chat_template_sidecar args, fa_identity_dir = ua_identity_dir args,
       fa_workload = ua_workload args, fa_instance = ua_instance args, fa_backend_kind = ua_backend args,
       fa_current_digest = digest_from_model_path model \<rparr>"

definition build_chat_backend :: "'w world_scheme \<Rightarrow> 'u ui_env_scheme \<Rightarrow> UiArgs
    \<Rightarrow> (env, run_error, ui_backend \<times> SessionBackendFactory option) act" where
  "build_chat_backend W U args =
     (case (ua_manifest args, ua_model args) of
        (Some manifest, Some model) \<Rightarrow>
          bindA (boot_session_for_ui W (cli_of U) manifest model (ua_config args) (ua_chat_template_sidecar args)
            (ua_identity_dir args) (ua_workload args) (ua_instance args) (ua_ledger args) (ua_backend args)) (\<lambda>s.
          okA (UiSession (session_backend_new s), Some (factory_of args manifest model)))
      | (None, None) \<Rightarrow> okA (UiStub, None)
      | _ \<Rightarrow> errA (RunUsage (''--manifest and --model must be provided together. Omit both for the stub backend, '' @
          ''or pass both for real Session::run_turn integration.'')))"

text \<open>The check before the server starts; the server makes the same check, with the same message, before it binds.\<close>

definition refuse_bind :: "'u ui_env_scheme \<Rightarrow> socket_addr \<Rightarrow> string" where
  "refuse_bind U addr =
     ''refusing to bind '' @ ue_show_addr U addr @ '': ADR-031 requires the Community UI listen on a '' @
     ''loopback address (127.0.0.0/8 or ::1). Operators who want network-reachable '' @
     ''UI deploy the Enterprise UI per ADR-034.''"

definition ui_start :: "'w world_scheme \<Rightarrow> 'u ui_env_scheme \<Rightarrow> UiArgs
    \<Rightarrow> (env, run_error, ui_backend \<times> SessionBackendFactory option) act" where
  "ui_start W U args =
     (if \<not> is_loopback (sa_ip (ua_listen args)) then errA (RunUsage (refuse_bind U (ua_listen args)))
      else build_chat_backend W U args)"

end
