(* ===== verification/UiServer.thy ===== *)
theory UiServer
  imports UiBackend Driver Civil
begin

text \<open>
  The state the UI server keeps between requests and the requests that change it
  (\<open>crates/ui-server/src/lib.rs\<close> and \<open>handlers/sessions.rs\<close>): the registry of chat sessions, the chat
  backend behind its lock, the factory, and the open WebSocket connections, each with the backend it took
  when it was opened. Handlers run concurrently; a backend runs one turn at a time behind its mutex and the
  frames of a turn go to one socket, so that the requests of the model, handled one after another in any
  order, give every history of the backends and of each socket.
\<close>

section \<open>State\<close>

record SessionRecord =
  rc_id :: string
  rc_created_at :: string

record ui_conn =
  uc_session :: string
  uc_backend :: nat
  uc_sent :: "string list"

text \<open>\<open>us_backends\<close> holds every backend the server has had; \<open>us_current\<close> is the one new connections get.
  An \<open>Arc\<close> of a backend is its position. \<open>us_tick\<close> counts the calls to the environment.\<close>

record ui_state =
  us_registry :: "string \<rightharpoonup> SessionRecord"
  us_backends :: "ui_backend list"
  us_current :: nat
  us_factory :: "SessionBackendFactory option"
  us_conns :: "nat \<rightharpoonup> ui_conn"
  us_tick :: nat

text \<open>\<open>router_with_backend\<close>.\<close>

definition fresh_state :: "ui_backend \<Rightarrow> SessionBackendFactory option \<Rightarrow> ui_state" where
  "fresh_state b f = \<lparr> us_registry = Map.empty, us_backends = [b], us_current = 0, us_factory = f,
     us_conns = Map.empty, us_tick = 0 \<rparr>"

definition serve_with_backend :: "'u ui_env_scheme \<Rightarrow> socket_addr \<Rightarrow> ui_backend \<Rightarrow> SessionBackendFactory option
    \<Rightarrow> string + ui_state" where
  "serve_with_backend U addr b f =
     (if \<not> is_loopback (sa_ip addr) then Inl (refuse_bind U addr) else Inr (fresh_state b f))"

definition ui_backend_run :: "'w world_scheme \<Rightarrow> 'u ui_env_scheme \<Rightarrow> ui_backend chat_backend" where
  "ui_backend_run W U prompt b =
     (case b of
        UiStub \<Rightarrow> (fst (stub_run_turn prompt ()), UiStub)
      | UiSession sb \<Rightarrow> (case session_run_turn W U prompt sb of (r, sb') \<Rightarrow> (r, UiSession sb')))"

section \<open>Requests\<close>

record SessionCreated =
  sc_session_id :: string
  sc_created_at :: string
  sc_schema :: string

datatype response =
    RespCreated SessionCreated
  | RespUpgraded
  | RespForked string string
  | RespError nat string

text \<open>\<open>rfc3339_now\<close> of the handlers; the clock gives seconds and nanoseconds since 1970, nothing before.\<close>

definition ui_rfc3339_now :: "(u64 \<times> nat) option \<Rightarrow> string" where
  "ui_rfc3339_now now =
     (case now of Some (secs, nanos) \<Rightarrow> naive_rfc3339_from_unix (sint secs) nanos | None \<Rightarrow> naive_rfc3339_from_unix 0 0)"

definition registry_create :: "'l ui_lib_scheme \<Rightarrow> (u64 \<times> nat) option \<Rightarrow> ui_state \<Rightarrow> SessionRecord \<times> ui_state" where
  "registry_create L now st =
     (let id = ul_uuid_v7 L (us_tick st); rec = \<lparr> rc_id = id, rc_created_at = ui_rfc3339_now now \<rparr> in
      (rec, st\<lparr> us_registry := (us_registry st)(id \<mapsto> rec), us_tick := Suc (us_tick st) \<rparr>))"

definition registry_exists :: "ui_state \<Rightarrow> string \<Rightarrow> bool" where
  "registry_exists st sid \<longleftrightarrow> us_registry st sid \<noteq> None"

definition create_session :: "'l ui_lib_scheme \<Rightarrow> (u64 \<times> nat) option \<Rightarrow> ui_state \<Rightarrow> response \<times> ui_state" where
  "create_session L now st =
     (case registry_create L now st of (rec, st') \<Rightarrow>
        (RespCreated \<lparr> sc_session_id = rc_id rec, sc_created_at = rc_created_at rec, sc_schema = SCHEMA_VERSION \<rparr>, st'))"

text \<open>\<open>stream\<close>: \<open>c\<close> names the new socket.\<close>

definition stream :: "'l ui_lib_scheme \<Rightarrow> string \<Rightarrow> nat \<Rightarrow> ui_state \<Rightarrow> response \<times> ui_state" where
  "stream L sid c st =
     (if \<not> registry_exists st sid then (RespError 404 (''unknown session_id '' @ str_debug L sid), st)
      else (RespUpgraded, st\<lparr> us_conns := (us_conns st)(c \<mapsto>
        \<lparr> uc_session = sid, uc_backend = us_current st, uc_sent = [] \<rparr>) \<rparr>))"

text \<open>What arrives on an open socket.\<close>

definition on_message :: "'w world_scheme \<Rightarrow> 'u ui_env_scheme \<Rightarrow> 'l ui_lib_scheme \<Rightarrow> nat \<Rightarrow> string + WsMessage
    \<Rightarrow> ui_state \<Rightarrow> ui_state" where
  "on_message W U L c m st =
     (case us_conns st c of
        None \<Rightarrow> st
      | Some k \<Rightarrow>
          (let conn = handle_socket L (ui_backend_run W U) [m]
               \<lparr> cc_sent = uc_sent k, cc_tick = us_tick st, cc_backend = us_backends st ! uc_backend k \<rparr>;
               open_after = (case m of Inr WsClose \<Rightarrow> False | Inl e \<Rightarrow> False | _ \<Rightarrow> True) in
           st\<lparr> us_backends := (us_backends st)[uc_backend k := cc_backend conn], us_tick := cc_tick conn,
              us_conns := (us_conns st)(c := if open_after then Some (k\<lparr> uc_sent := cc_sent conn \<rparr>) else None) \<rparr>))"

definition fork_session :: "'w world_scheme \<Rightarrow> 'u ui_env_scheme \<Rightarrow> env \<Rightarrow> string \<Rightarrow> ui_state \<Rightarrow> response \<times> ui_state" where
  "fork_session W U e digest st =
     (case us_factory st of
        None \<Rightarrow> (RespError 503 (''fork unavailable: chat surface is running on the stub backend. Start '' @
          ''`aegis ui --manifest <m> --model <m>` to enable model swapping.''), st)
      | Some f \<Rightarrow> (case factory_fork W U e digest f of
            (Inr b, f') \<Rightarrow> (RespForked digest SCHEMA_VERSION,
              st\<lparr> us_factory := Some f', us_backends := us_backends st @ [UiSession b],
                 us_current := length (us_backends st) \<rparr>)
          | (Inl (ForkFailed msg), f') \<Rightarrow> (RespError 500 (''fork failed: '' @ msg), st\<lparr> us_factory := Some f' \<rparr>)
          | (Inl (ForkPanicked msg), f') \<Rightarrow>
              (RespError 500 (''fork worker panicked: '' @ msg), st\<lparr> us_factory := Some f' \<rparr>)))"

section \<open>Histories\<close>

text \<open>A server after any sequence of requests. Each fork finds the machine in a state \<open>e\<close> of its own.\<close>

inductive serving :: "'w world_scheme \<Rightarrow> 'u ui_env_scheme \<Rightarrow> 'l ui_lib_scheme \<Rightarrow> ui_state \<Rightarrow> bool"
  for W :: "'w world_scheme" and U :: "'u ui_env_scheme" and L :: "'l ui_lib_scheme" where
  started: "ui_start W U args e = (Inr (b, f), e') \<Longrightarrow> serve_with_backend U (ua_listen args) b f = Inr st \<Longrightarrow> serving W U L st"
| created: "serving W U L st \<Longrightarrow> create_session L now st = (r, st') \<Longrightarrow> serving W U L st'"
| connected: "serving W U L st \<Longrightarrow> stream L sid c st = (r, st') \<Longrightarrow> serving W U L st'"
| message: "serving W U L st \<Longrightarrow> serving W U L (on_message W U L c m st)"
| forked: "serving W U L st \<Longrightarrow> fork_session W U e digest st = (r, st') \<Longrightarrow> serving W U L st'"

inductive_simps serving_message: "serving W U L (on_message W U L c m st)"

section \<open>Every session of the server\<close>

definition ui_sessions :: "ui_state \<Rightarrow> session set" where
  "ui_sessions st = {sb_session sb | sb. UiSession sb \<in> set (us_backends st)}"

lemma ui_boot_Inr:
  assumes "boot_session_for_ui W C m model c t d w i l kind e = (Inr s, e')"
  obtains dir s0 e1 u where "boot_attached W C (ui_boot_config C m model c t w i l dir) e = (Inr s0, e1)"
    and "plug_backend C kind model s0 = (Inr u, s)"
proof -
  from assms obtain dir s0 e1 where b: "boot_attached W C (ui_boot_config C m model c t w i l dir) e = (Inr s0, e1)"
    and p: "(case plug_backend C kind model s0 of (Inl e, _) \<Rightarrow> Inl e | (Inr _, s') \<Rightarrow> Inr s') = Inr s"
    unfolding boot_session_for_ui_def bindA_eq_ok liftA_apply prod.inject by blast
  from p obtain u where "plug_backend C kind model s0 = (Inr u, s)" by (auto split: prod.splits sum.splits)
  with b show thesis by (rule that)
qed

lemma ui_boot_reachable:
  assumes "boot_session_for_ui W C m model c t d w i l kind e = (Inr s, e')"
  shows "reachable W s"
  by (rule ui_boot_Inr [OF assms]) (blast intro: plug_reachable boot_attached_reachable)

lemma booted_paths:
  assumes "boot_session_for_ui W C m model c t d w i l kind e = (Inr s, e')"
  shows "s_model_path s = model \<and> s_manifest_path s = m"
proof (rule ui_boot_Inr [OF assms])
  fix dir s0 e1 u assume b: "boot_attached W C (ui_boot_config C m model c t w i l dir) e = (Inr s0, e1)"
    and p: "plug_backend C kind model s0 = (Inr u, s)"
  from b obtain s1 where "boot W (ui_boot_config C m model c t w i l dir) e = (Inr s1, e1)"
    "s0 = attach_mcp C (attach_approval C s1)" by (rule boot_attached_Inr)
  then have "s_model_path s0 = model \<and> s_manifest_path s0 = m"
    by - (erule boot_Inr, simp add: new_session_def attach_mcp_def attach_approval_def attach_defs ui_boot_config_def
        Let_def split: option.split)
  then show ?thesis using p
    by (auto simp: plug_backend_def bindA_eq_ok bindA_getA liftA_apply modA_apply with_loaded_model_def)
qed

lemma fork_boot_Inr: "fork_boot_result U x = Inr s \<longleftrightarrow> x = Inr s"
  by (cases x) (auto simp: fork_boot_result_def)

lemma fork_Inr:
  assumes "factory_fork W U e digest f = (Inr b, f')"
  obtains cache ledger s e' where "ue_cache_dir U = Some cache" and "ue_is_file U (fork_model_path cache digest)"
    and "fork_ledger_path U digest = Inr ledger"
    and "boot_session_for_ui W (cli_of U) (fa_manifest f) (fork_model_path cache digest) (fa_config f)
        (fa_chat_template_sidecar f) (fa_identity_dir f) (fa_workload f) (fa_instance f) (Some ledger)
        (fa_backend_kind f) e = (Inr s, e')"
    and "b = session_backend_new s" and "f' = f\<lparr> fa_current_digest := Some digest \<rparr>"
proof -
  from assms obtain cache ledger s where c: "ue_cache_dir U = Some cache" "ue_is_file U (fork_model_path cache digest)"
    "fork_ledger_path U digest = Inr ledger"
    and b: "fst (boot_session_for_ui W (cli_of U) (fa_manifest f) (fork_model_path cache digest) (fa_config f)
        (fa_chat_template_sidecar f) (fa_identity_dir f) (fa_workload f) (fa_instance f) (Some ledger)
        (fa_backend_kind f) e) = Inr s"
    and r: "b = session_backend_new s" "f' = f\<lparr> fa_current_digest := Some digest \<rparr>"
    by (auto simp: factory_fork_def Let_def bindA_eq_ok bindA_getA liftA_apply modA_apply okA_apply
        fork_boot_Inr bindA_modA)
  from b c r show thesis using that by (metis prod.collapse)
qed

lemma turn_reachable:
  assumes "reachable W (sb_session b)" and "session_run_turn W U prompt b = (r, b')"
  shows "reachable W (sb_session b')"
  using assms by_turn [OF assms(1)]
  by (auto simp: session_run_turn_def split: if_splits prod.splits sum.splits)

text \<open>Sending frames, whether it succeeds or not, leaves the backend alone; a message runs at most one
  turn on it.\<close>

definition same_backend :: "'b chat_conn \<Rightarrow> 'b chat_conn \<Rightarrow> bool" where
  "same_backend c c' \<longleftrightarrow> cc_backend c' = cc_backend c"

interpretation conn_order: step_order same_backend
  by unfold_locales (simp_all add: same_backend_def)

lemma send_moves: "moves same_backend (send_frame L f)"
  unfolding send_frame_def ws_send_def
  by (intro conn_order.bind conn_order.lift movesI) (auto simp: same_backend_def split: option.splits)

lemma stream_moves: "moves same_backend (stream_from L t buf chs)"
  by (induction chs arbitrary: buf) (auto intro!: conn_order.bind conn_order.ok send_moves)

lemma calls_moves: "moves same_backend (send_calls L t calls)"
  by (induction calls) (auto intro!: conn_order.bind conn_order.ok send_moves split: prod.splits)

lemma outcome_moves_backend: "moves same_backend (send_outcome L t o1)"
  unfolding send_outcome_def Let_def stream_chunked_def
  by (auto intro!: conn_order.bind conn_order.ok send_moves stream_moves calls_moves split: list.split)

lemma reply_moves: "moves same_backend (send_reply L t worker)"
  unfolding send_reply_def
  by (auto intro!: conn_order.bind conn_order.err send_moves outcome_moves_backend simp: send_error_def
      split: worker_result.split sum.split)

lemma turn_backend:
  "cc_backend (snd (ws_run_turn L bk p c)) = cc_backend c \<or>
     (\<exists>r. bk p (cc_backend c) = (r, cc_backend (snd (ws_run_turn L bk p c))))"
proof -
  let ?c1 = "c\<lparr> cc_tick := Suc (cc_tick c) \<rparr>"
  let ?t = "ul_uuid_v7 L (cc_tick c)"
  obtain x c2 where s: "send_frame L (FrameTurnStart ?t) ?c1 = (x, c2)" by (cases "send_frame L (FrameTurnStart ?t) ?c1")
  then have b: "cc_backend c2 = cc_backend c" using movesD [OF send_moves s] by (simp add: same_backend_def)
  obtain r b1 where r: "bk p (cc_backend c) = (r, b1)" by (cases "bk p (cc_backend c)")
  show ?thesis
  proof (cases x)
    case (Inl e)
    then show ?thesis using s b by (simp add: ws_run_turn_def bindA_def fresh_turn_id_def)
  next
    case (Inr u)
    obtain y c4 where y: "send_reply L ?t r (c2\<lparr> cc_backend := b1 \<rparr>) = (y, c4)"
      by (cases "send_reply L ?t r (c2\<lparr> cc_backend := b1 \<rparr>)")
    have "ws_run_turn L bk p c = (y, c4)"
      using y by (simp add: ws_run_turn_def bindA_def fresh_turn_id_def s Inr call_backend_def b r)
    moreover have "cc_backend c4 = b1" using movesD [OF reply_moves y] by (simp add: same_backend_def)
    ultimately show ?thesis using r by simp
  qed
qed

lemma send_error_backend: "cc_backend (snd (send_error L x c)) = cc_backend c"
  unfolding send_error_def
  by (rule send_moves [unfolded moves_def same_backend_def, rule_format])

lemma message_backend:
  "cc_backend (handle_socket L bk [m] c) = cc_backend c \<or>
     (\<exists>p r. bk p (cc_backend c) = (r, cc_backend (handle_socket L bk [m] c)))"
proof (cases "\<exists>s. m = Inr (WsText s)")
  case False
  then show ?thesis by (cases m) (auto simp: handle_ws_message split: WsMessage.split)
next
  case True
  then obtain s where m: "m = Inr (WsText s)" ..
  with turn_backend [of L bk _ c] show ?thesis
    by (auto simp: m handle_text_frame_def send_error_backend split: sum.split ClientFrame.split)
qed

section \<open>Every session is a session like any other\<close>

lemma backend_run_reachable:
  assumes "\<And>sb. b = UiSession sb \<Longrightarrow> reachable W (sb_session sb)" and "ui_backend_run W U p b = (r, UiSession sb)"
  shows "reachable W (sb_session sb)"
  using assms turn_reachable by (auto simp: ui_backend_run_def split: ui_backend.splits prod.splits)

lemma serving_reachable:
  "serving W U L st \<Longrightarrow> (\<forall>sb. UiSession sb \<in> set (us_backends st) \<longrightarrow> reachable W (sb_session sb)) \<and>
     us_current st < length (us_backends st) \<and> (\<forall>c k. us_conns st c = Some k \<longrightarrow> uc_backend k < length (us_backends st))"
proof (induction rule: serving.induct)
  case (started args e b f e' st)
  then show ?case
    by (auto simp: ui_start_def serve_with_backend_def fresh_state_def build_chat_backend_def errA_def okA_def
        bindA_eq_ok session_backend_new_def split: if_splits option.splits dest: ui_boot_reachable)
next
  case (created st now r st')
  then show ?case by (auto simp: create_session_def registry_create_def Let_def)
next
  case (connected st sid c r st')
  then show ?case by (auto simp: stream_def split: if_splits)
next
  case (message st c m)
  show ?case
  proof (cases "us_conns st c")
    case (Some k)
    let ?conn = "handle_socket L (ui_backend_run W U) [m]
        \<lparr> cc_sent = uc_sent k, cc_tick = us_tick st, cc_backend = us_backends st ! uc_backend k \<rparr>"
    have k: "uc_backend k < length (us_backends st)" using message Some by blast
    have "reachable W (sb_session sb)" if "UiSession sb = cc_backend ?conn" for sb
    proof -
      have old: "us_backends st ! uc_backend k = UiSession sb' \<Longrightarrow> reachable W (sb_session sb')" for sb'
        using message.IH k by (metis nth_mem)
      from message_backend [of L "ui_backend_run W U" m "\<lparr> cc_sent = uc_sent k, cc_tick = us_tick st,
          cc_backend = us_backends st ! uc_backend k \<rparr>"]
      show ?thesis
      proof
        assume "\<exists>p r. ui_backend_run W U p (cc_backend \<lparr> cc_sent = uc_sent k, cc_tick = us_tick st,
          cc_backend = us_backends st ! uc_backend k \<rparr>) = (r, cc_backend ?conn)"
        with that obtain p r where "ui_backend_run W U p (us_backends st ! uc_backend k) = (r, UiSession sb)" by auto
        then show ?thesis by (rule backend_run_reachable [rotated]) (rule old)
      qed (use that in \<open>auto intro: old\<close>)
    qed
    then have "\<forall>sb. UiSession sb \<in> set ((us_backends st)[uc_backend k := cc_backend ?conn]) \<longrightarrow> reachable W (sb_session sb)"
      using message.IH k by (auto dest!: set_update_subset_insert [THEN subsetD])
    with message.IH k Some show ?thesis by (auto simp: on_message_def Let_def split: if_splits)
  qed (use message.IH in \<open>simp add: on_message_def\<close>)
next
  case (forked st e digest r st')
  then show ?case
    by (auto simp: fork_session_def session_backend_new_def split: option.splits prod.splits sum.splits fork_error.splits
        elim!: fork_Inr dest: ui_boot_reachable) (fastforce dest: ui_boot_reachable)+
qed

section \<open>Turns and their anchors\<close>

lemma reasoning_step_entry:
  assumes "record_reasoning_step W input reasoning considered selected s = (Inr step, s')"
  shows "\<exists>x. s_log s' = s_log s @ [x] \<and> e_entry_type x = ReasoningStep \<and>
     fmlookup (e_payload x) ''reasoningStepId'' = Some (JString step) \<and>
     fmlookup (e_payload x) ''input'' = Some (JString input)"
proof -
  from assms obtain ts r w where
    "emit_reasoning_step W (s_agent_identity_hash s) \<lparr> rs_step_id = step, rs_input = input, rs_reasoning = reasoning,
       rs_tools_considered = considered, rs_tool_selected = selected, rs_timestamp = ts \<rparr> (s_ledger s) = (Inr r, w)"
    and l: "s_ledger s' = w"
    by (auto simp: record_reasoning_step_def bindA_tick utc_now_def bindA_getA bindA_eq_ok mapErrA_eq_ok zoomA_eq okA_apply)
  from append_entry_ok(2) [OF emit_reasoning_step_Inr(2) [OF this(1)]] l show ?thesis
    by (auto simp: writer_entry_def reasoning_step_fields_def fmlookup_of_list opt_field_def split: option.splits)
qed

text \<open>C22: The anchor a chat turn sends with its \<open>turn_end\<close> names an entry of the session's ledger. A
  turn that answers has appended to the ledger a ReasoningStep entry whose \<open>reasoningStepId\<close> is the
  anchor and whose \<open>input\<close> is the prompt, and nothing that stood in the ledger has changed.\<close>

theorem anchor_names_reasoning_step:
  assumes "session_run_turn W U prompt b = (WorkerReturned (Inr o1), b')"
  shows "\<exists>anchor x new. tr_verifiable_anchor o1 = Some anchor \<and>
     s_log (sb_session b') = s_log (sb_session b) @ new \<and> x \<in> set new \<and> e_entry_type x = ReasoningStep \<and>
     fmlookup (e_payload x) ''reasoningStepId'' = Some (JString anchor) \<and>
     fmlookup (e_payload x) ''input'' = Some (JString prompt)"
proof -
  let ?s = "sb_session b" and ?s' = "sb_session b'"
  from assms obtain out where t: "run_turn W prompt ?s = (Inr out, ?s')" and o: "o1 = turn_result out"
    by (auto simp: session_run_turn_def split: if_splits prod.splits sum.splits)
  let ?tools = "tool_catalog (p_manifest (s_policy ?s))"
  from t obtain resp s1 step s2 outs where
    1: "infer \<lparr> iq_messages = [\<lparr> cm_role = RoleUser, cm_content = prompt \<rparr>], iq_tools = ?tools \<rparr> ?s = (Inr resp, s1)"
    and 2: "record_reasoning_step W prompt (ir_reasoning resp) (map td_name ?tools)
      (case ir_tool_calls resp of [] \<Rightarrow> None | c # _ \<Rightarrow> Some (tc_name c)) s1 = (Inr step, s2)"
    and 3: "dispatch_calls W step None 0 (ir_tool_calls resp) s2 = (Inr outs, ?s')" "tu_reasoning_step_id out = step"
    by (auto simp: run_turn_def run_one_turn_def bindA_eq_ok bindA_getA okA_apply cong: if_cong)
  have "prefix (s_log ?s) (s_log s1)" by (rule config_fields(11) [OF movesD [OF config_frame.infer_frame 1]])
  moreover from reasoning_step_entry [OF 2] obtain x where x: "s_log s2 = s_log s1 @ [x]" "e_entry_type x = ReasoningStep"
    "fmlookup (e_payload x) ''reasoningStepId'' = Some (JString step)" "fmlookup (e_payload x) ''input'' = Some (JString prompt)"
    by blast
  moreover have "prefix (s_log s2) (s_log ?s')"
    by (rule config_fields(11) [OF movesD [OF config_frame.dispatch_calls_frame 3(1)]])
  ultimately obtain new where "s_log ?s' = s_log ?s @ new" "x \<in> set new" by (auto simp: prefix_def)
  with x o 3(2) show ?thesis by (auto simp: turn_result_def)
qed

section \<open>Properties\<close>

text \<open>C4: Mediation does not depend on the way in. Whatever clients do with the UI server, over any number
  of sockets, with models swapped in between and with sends, turns and forks that fail, every session it
  ever had is like a session driven directly: each call that left the process was authorised by the policy
  of its boot. And if its ledger's disk works and the entries can be read back (representable timestamps, at
  most 127 nested arrays and objects in a payload, a session id in UTF-8, fewer than \<open>2 ^ 64\<close> entries), the
  verifier accepts the ledger, under its id and root hash, with every entry counted.\<close>

theorem ui_keeps_mediation:
  assumes "lib_laws W" and "serving W U L st" and "UiSession b \<in> set (us_backends st)" and "s = sb_session b"
  shows "(\<forall>(f, log) \<in> set (s_effects s). authorised W (s_policy s) (s_session_start s) (f, log)) \<and>
     (disk_works (s_ledger s) \<and> utf8_ok (s_session_id s) \<and> (\<forall>x \<in> set (s_log s). readable x) \<and> length (s_log s) < 2 ^ 64 \<longrightarrow>
       (\<exists>sum. verify_reader W (\<lambda>_. False) (b_disk (w_file (s_ledger s))) = Inr sum \<and>
          vs_session_id sum = Some (s_session_id s) \<and> vs_root_hash_hex sum = hex_encode W (current_head (s_ledger s)) \<and>
          unat (vs_entry_count sum) = length (s_log s)))"
proof (intro conjI impI)
  have r: "reachable W s" using serving_reachable [OF assms(2)] assms(3,4) by blast
  then show "\<forall>(f, log) \<in> set (s_effects s). authorised W (s_policy s) (s_session_start s) (f, log)"
    using reachable_sound [OF r] by (simp add: sound_def)
  assume ok: "disk_works (s_ledger s) \<and> utf8_ok (s_session_id s) \<and> (\<forall>x \<in> set (s_log s). readable x) \<and> length (s_log s) < 2 ^ 64"
  have w: "writer_ok W (s_ledger s)" using reachable_ledger_intact [OF r] ok by (simp add: ledger_intact_def)
  then have "entry_count (s_ledger s) = of_nat (length (s_log s))" by (simp add: entry_count_def writer_ok_def)
  then have "unat (entry_count (s_ledger s)) = length (s_log s)" using ok by (simp add: unat_of_nat)
  with reachable_ledger_verifies [OF assms(1) r] ok
  show "\<exists>sum. verify_reader W (\<lambda>_. False) (b_disk (w_file (s_ledger s))) = Inr sum \<and>
      vs_session_id sum = Some (s_session_id s) \<and> vs_root_hash_hex sum = hex_encode W (current_head (s_ledger s)) \<and>
      unat (vs_entry_count sum) = length (s_log s)"
    by auto
qed

lemma fork_outcome:
  assumes "fork_session W U e digest st = (r, st')"
  shows "case r of
       RespForked d schema \<Rightarrow> d = digest \<and> (\<exists>f cache s. us_factory st = Some f \<and> ue_cache_dir U = Some cache \<and>
          ue_is_file U (fork_model_path cache digest) \<and> reachable W s \<and>
          s_model_path s = fork_model_path cache digest \<and> s_manifest_path s = fa_manifest f \<and>
          st' = st\<lparr> us_factory := Some (f\<lparr> fa_current_digest := Some digest \<rparr>),
                   us_backends := us_backends st @ [UiSession (session_backend_new s)],
                   us_current := length (us_backends st) \<rparr>)
     | RespError code msg \<Rightarrow> code \<in> {500, 503} \<and> st' = st
     | _ \<Rightarrow> False"
proof (cases "us_factory st")
  case None
  with assms show ?thesis by (auto simp: fork_session_def)
next
  case (Some f)
  obtain x f' where x: "factory_fork W U e digest f = (x, f')" by (cases "factory_fork W U e digest f")
  show ?thesis
  proof (cases x)
    case (Inl err)
    have "f' = f" using x Inl
      by (auto simp: factory_fork_def Let_def bindA_eq_err bindA_getA liftA_apply modA_apply okA_apply bindA_modA)
    then have "st\<lparr> us_factory := Some f' \<rparr> = st" using Some by (cases st) simp
    with assms Some x Inl show ?thesis by (cases err) (auto simp: fork_session_def)
  next
    case (Inr b)
    from x [unfolded Inr] show ?thesis
    proof (rule fork_Inr)
      fix cache ledger s e' assume c: "ue_cache_dir U = Some cache" "ue_is_file U (fork_model_path cache digest)"
        and b: "boot_session_for_ui W (cli_of U) (fa_manifest f) (fork_model_path cache digest) (fa_config f)
          (fa_chat_template_sidecar f) (fa_identity_dir f) (fa_workload f) (fa_instance f) (Some ledger)
          (fa_backend_kind f) e = (Inr s, e')"
        and r: "b = session_backend_new s" "f' = f\<lparr> fa_current_digest := Some digest \<rparr>"
      have "s_model_path s = fork_model_path cache digest \<and> s_manifest_path s = fa_manifest f"
        using booted_paths [OF b] .
      with c r ui_boot_reachable [OF b] assms Some x Inr show ?thesis by (auto simp: fork_session_def)
    qed
  qed
qed

text \<open>C21: A fork is all or nothing. When it answers, the requested digest is the one recorded, and the new
  connections get a fresh backend, whose session has booted under the manifest of the start with the model
  file the digest names under the cache; the backends the server had, and the sockets with the backend each
  of them took when it was opened, stay as they were. When it fails, with 503 or 500, the state of the server
  is what it was.\<close>

theorem fork_is_atomic:
  assumes "fork_session W U e digest st = (r, st')"
  shows "case r of
       RespForked d schema \<Rightarrow> d = digest \<and> (\<exists>f cache s. us_factory st = Some f \<and> ue_cache_dir U = Some cache \<and>
          ue_is_file U (fork_model_path cache digest) \<and> reachable W s \<and>
          s_model_path s = fork_model_path cache digest \<and> s_manifest_path s = fa_manifest f \<and>
          st' = st\<lparr> us_factory := Some (f\<lparr> fa_current_digest := Some digest \<rparr>),
                   us_backends := us_backends st @ [UiSession (session_backend_new s)],
                   us_current := length (us_backends st) \<rparr>)
     | RespError code msg \<Rightarrow> code \<in> {500, 503} \<and> st' = st
     | _ \<Rightarrow> False"
  by (rule fork_outcome [OF assms])

text \<open>The digest of a fork request is a path: one made of hexadecimal digits names a directory of the cache,
  an absolute one leads out of it.\<close>

lemma fork_path_cases:
  "d \<noteq> [] \<Longrightarrow> list_all is_hexdigit d \<Longrightarrow>
     fork_model_path cache d = path_in (path_in (path_in (path_in cache ''aegis'') ''models'') d) ''blob.bin''"
  "fork_model_path cache (CHR ''/'' # d) = path_in (CHR ''/'' # d) ''blob.bin''"
proof -
  show "fork_model_path cache (CHR ''/'' # d) = path_in (CHR ''/'' # d) ''blob.bin''"
    by (simp add: fork_model_path_def join_abs_def)
  assume "d \<noteq> []" "list_all is_hexdigit d"
  then obtain c r where d: "d = c # r" "c \<noteq> CHR ''/''"
  proof (cases d)
    case (Cons c r)
    moreover from this \<open>list_all is_hexdigit d\<close> have "is_hexdigit c" by simp
    then have "c \<noteq> CHR ''/''" by (auto simp: is_hexdigit_def is_digit_def)
    ultimately show thesis by (rule that)
  qed simp
  then have "join_abs base d = path_in base d" for base by (simp add: join_abs_def)
  then show "fork_model_path cache d = path_in (path_in (path_in (path_in cache ''aegis'') ''models'') d) ''blob.bin''"
    by (simp add: fork_model_path_def join_abs_def)
qed

section \<open>Witnesses\<close>

definition demo_ui_env :: ui_env where
  "demo_ui_env = cli_env.extend ((demo_cli [])\<lparr> ce_llama := Some (\<lambda>_ _. Inr (\<lambda>_ _. Inr demo_answer)) \<rparr>)
     (ui_env.fields (Some ''/c'') (\<lambda>_. True) 0 (Inr ''/w'') (\<lambda>_. []) (\<lambda>_. []) (\<lambda>_. []))"

definition demo_ui_args :: UiArgs where
  "demo_ui_args = \<lparr> ua_listen = \<lparr> sa_ip = IpV4 0x7F000001, sa_port = 7777 \<rparr>, ua_manifest = Some ''manifest'', ua_model = Some ''model'',
     ua_backend = BackendLlama, ua_config = None, ua_chat_template_sidecar = None, ua_identity_dir = Some ''ca'',
     ua_workload = ''w'', ua_instance = ''i'', ua_ledger = None \<rparr>"

definition demo_factory :: SessionBackendFactory where
  "demo_factory = factory_of demo_ui_args ''manifest'' ''model''"

lemma demo_cli_of: "cli_of demo_ui_env = (demo_cli [])\<lparr> ce_llama := Some (\<lambda>_ _. Inr (\<lambda>_ _. Inr demo_answer)) \<rparr>"
  by (simp add: demo_ui_env_def cli_env.defs demo_cli_def)

lemma demo_ui_env_simps [simp]:
  "ue_cache_dir demo_ui_env = Some ''/c''" "ue_is_file demo_ui_env = (\<lambda>_. True)" "ue_current_dir demo_ui_env = Inr ''/w''"
  by (simp_all add: demo_ui_env_def cli_env.defs ui_env.defs)

lemma uuid_ascii: "list_all is_ascii_char (uuid_v7_like C)"
proof -
  have d: "is_ascii_char (hex_digit n)" if "n < 16" for n
    using that by (simp add: hex_digit_def is_ascii_char_def)
  then have "list_all is_ascii_char (hex32 w)" for w by (simp add: hex32_def list_all_iff)
  then have "list_all is_ascii_char (take n (drop k (hex32 w)))" "list_all is_ascii_char (drop k (hex32 w))"
    "list_all is_ascii_char (take n (hex32 w))" for n k w
    by (meson list_all_take_drop)+
  then show ?thesis by (simp add: uuid_v7_like_def Let_def is_ascii_char_def)
qed

lemma demo_ui_boot:
  assumes "has_demo_files fs" and "fs model = Some ''weights''"
  obtains s x e' where "boot_session_for_ui (demo_world empty_manifest) (cli_of demo_ui_env) ''manifest'' model None None
      (Some ''ca'') ''w'' ''i'' l BackendLlama (at_fs fs 0) = (Inr s, e')"
    and "live s" "s_log s = [x]" "readable x" "utf8_ok (s_session_id s)" "s_effects s = []"
    and "s_loaded_model s = Some (\<lambda>_ _. Inr demo_answer)" "s_model_path s = model"
proof -
  let ?W = "demo_world empty_manifest" and ?C = "cli_of demo_ui_env"
  let ?cfg = "ui_boot_config ?C ''manifest'' model None None ''w'' ''i'' l ''ca''"
  have m: "check_reserved (policy_from_manifest empty_manifest) = Inr ()" "m_extends empty_manifest = []"
    by (simp_all add: check_reserved_def policy_from_manifest_def empty_manifest_def)
  show thesis
  proof (rule demo_boot_any [OF m assms(1), of ?cfg])
    fix s x e' assume b: "boot ?W ?cfg (at_fs fs 0) = (Inr s, e')" and s: "live s" "s_session_id s = bc_session_id ?cfg"
      "s_policy s = policy_from_manifest empty_manifest" "s_log s = [x]" "readable x" "s_effects s = []"
      "s_model_path s = bc_model_path ?cfg"
    have "attach_mcp ?C (attach_approval ?C s) = s"
      using s(3) by (simp add: attach_mcp_def attach_approval_def demo_cli_of demo_cli_def policy_from_manifest_def empty_manifest_def)
    then have "boot_attached ?W ?C ?cfg (at_fs fs 0) = (Inr s, e')"
      using b by (simp add: boot_attached_def bindA_def mapErrA_def okA_def)
    moreover have "plug_backend ?C BackendLlama model s = (Inr (), with_loaded_model s (\<lambda>_ _. Inr demo_answer))"
      by (simp add: plug_backend_def bindA_getA load_backend_def load_llama_backend_def demo_cli_of bindA_liftA_ok modA_def)
    ultimately have "boot_session_for_ui ?W ?C ''manifest'' model None None (Some ''ca'') ''w'' ''i'' l BackendLlama (at_fs fs 0)
        = (Inr (with_loaded_model s (\<lambda>_ _. Inr demo_answer)), e')"
      by (simp add: boot_session_for_ui_def resolve_dir_def bindA_liftA_ok bindA_ok liftA_def)
    moreover have "utf8_ok (s_session_id s)"
      using s(2) utf8_ok_ascii [OF uuid_ascii] by (simp add: ui_boot_config_def Let_def)
    ultimately show thesis
      using s by (intro that [of "with_loaded_model s (\<lambda>_ _. Inr demo_answer)" e' x])
        (simp_all add: with_loaded_model_def live_def ui_boot_config_def Let_def)
  qed (use assms(2) in \<open>simp_all add: ui_boot_config_def Let_def\<close>)
qed

theorem ui_keeps_mediation_witness:
  "\<exists>st b. serving (demo_world empty_manifest) demo_ui_env demo_ui st \<and> us_backends st = [UiSession b] \<and>
     (\<exists>sum. verify_reader (demo_world empty_manifest) (\<lambda>_. False) (b_disk (w_file (s_ledger (sb_session b)))) = Inr sum \<and>
        unat (vs_entry_count sum) = 1)"
proof -
  let ?W = "demo_world empty_manifest"
  obtain s x e' where b: "boot_session_for_ui ?W (cli_of demo_ui_env) ''manifest'' ''model'' None None
      (Some ''ca'') ''w'' ''i'' None BackendLlama (at 0) = (Inr s, e')"
    and s: "live s" "s_log s = [x]" "readable x" "utf8_ok (s_session_id s)"
    by (rule demo_ui_boot [OF demo_fs_has])
  let ?st = "fresh_state (UiSession (session_backend_new s)) (Some demo_factory)"
  have "ui_start ?W demo_ui_env demo_ui_args (at 0) = (Inr (UiSession (session_backend_new s), Some demo_factory), e')"
    using b by (simp add: ui_start_def build_chat_backend_def demo_ui_args_def demo_factory_def bindA_ok okA_def)
  moreover have "serve_with_backend demo_ui_env (ua_listen demo_ui_args) (UiSession (session_backend_new s)) (Some demo_factory) = Inr ?st"
    by (simp add: serve_with_backend_def demo_ui_args_def)
  ultimately have "serving ?W demo_ui_env demo_ui ?st" by (rule serving.started)
  moreover have "UiSession (session_backend_new s) \<in> set (us_backends ?st)" "s = sb_session (session_backend_new s)"
    by (simp_all add: fresh_state_def session_backend_new_def)
  moreover have "disk_works (s_ledger s)" "\<forall>x \<in> set (s_log s). readable x" "length (s_log s) < 2 ^ 64"
    using s by (simp_all add: live_def)
  ultimately show ?thesis
    using ui_keeps_mediation [OF demo_world_laws, of empty_manifest demo_ui_env demo_ui ?st "session_backend_new s" s] s(2,4)
    by (intro exI [of _ ?st] exI [of _ "session_backend_new s"]) (auto simp: fresh_state_def)
qed

text \<open>The fork of the example asks for an absolute path, and gets a model from outside the cache \<open>/c\<close>.\<close>

theorem fork_is_atomic_witness:
  "\<exists>fs st' s. fork_session (demo_world empty_manifest) demo_ui_env (at_fs fs 0) ''/x'' (fresh_state UiStub (Some demo_factory))
       = (RespForked ''/x'' ''v1'', st') \<and>
     us_backends st' = [UiStub, UiSession (session_backend_new s)] \<and> s_model_path s = ''/x/blob.bin''"
proof -
  let ?W = "demo_world empty_manifest" and ?fs = "demo_fs(''/x/blob.bin'' \<mapsto> ''weights'')"
  let ?st = "fresh_state UiStub (Some demo_factory)"
  have fs: "has_demo_files ?fs" "?fs ''/x/blob.bin'' = Some ''weights''"
    by (simp_all add: has_demo_files_def demo_fs_def)
  obtain ledger where l: "fork_ledger_path demo_ui_env ''/x'' = Inr ledger"
    by (simp add: fork_ledger_path_def str_slice_to_def)
  obtain s x e' where b: "boot_session_for_ui ?W (cli_of demo_ui_env) ''manifest'' ''/x/blob.bin'' None None
      (Some ''ca'') ''w'' ''i'' (Some ledger) BackendLlama (at_fs ?fs 0) = (Inr s, e')"
    by (rule demo_ui_boot [OF fs])
  have "fork_model_path ''/c'' ''/x'' = ''/x/blob.bin''" by (simp add: fork_model_path_def join_abs_def path_in_def)
  with b l have "factory_fork ?W demo_ui_env (at_fs ?fs 0) ''/x'' demo_factory
      = (Inr (session_backend_new s), demo_factory\<lparr> fa_current_digest := Some ''/x'' \<rparr>)"
    by (simp add: factory_fork_def bindA_liftA_ok Let_def bindA_getA fork_boot_result_def bindA_modA okA_def)
       (simp add: demo_factory_def factory_of_def demo_ui_args_def fork_boot_result_def bindA_liftA_ok bindA_modA okA_def)
  then have r: "fork_session ?W demo_ui_env (at_fs ?fs 0) ''/x'' ?st = (RespForked ''/x'' ''v1'',
      ?st\<lparr> us_factory := Some (demo_factory\<lparr> fa_current_digest := Some ''/x'' \<rparr>),
        us_backends := us_backends ?st @ [UiSession (session_backend_new s)], us_current := length (us_backends ?st) \<rparr>)"
    by (simp add: fork_session_def fresh_state_def SCHEMA_VERSION_def)
  show ?thesis
    using fork_is_atomic [OF r] r \<open>fork_model_path ''/c'' ''/x'' = ''/x/blob.bin''\<close>
    by (intro exI [of _ ?fs] exI) (auto simp: fresh_state_def session_backend_new_def)
qed

theorem anchor_names_reasoning_step_witness:
  "\<exists>b (b' :: session_backend) anchor x. reachable (demo_world empty_manifest) (sb_session b) \<and> x \<in> set (s_log (sb_session b')) \<and>
     fst (session_run_turn (demo_world empty_manifest) demo_ui_env ''hi'' b) = WorkerReturned (Inr
       \<lparr> tr_assistant_text = Some ''ok'', tr_tool_calls = [], tr_verifiable_anchor = Some anchor \<rparr>) \<and>
     fmlookup (e_payload x) ''reasoningStepId'' = Some (JString anchor)"
proof -
  let ?W = "demo_world empty_manifest"
  obtain s x e' where b: "boot_session_for_ui ?W (cli_of demo_ui_env) ''manifest'' ''model'' None None
      (Some ''ca'') ''w'' ''i'' None BackendLlama (at 0) = (Inr s, e')"
    and s: "live s" "s_loaded_model s = Some (\<lambda>_ _. Inr demo_answer)"
    by (rule demo_ui_boot [OF demo_fs_has])
  define tools where "tools = tool_catalog (p_manifest (s_policy s))"
  have i: "infer \<lparr> iq_messages = ms, iq_tools = tools \<rparr> s = (Inr demo_answer, ticked s)" for ms
    using s(2) by (simp add: infer_def bindA_getA bindA_tick okA_def)
  have "live (ticked s)" using s(1) by simp
  with appends_live [OF appends_reasoning_step] obtain step s1 where
    r: "record_reasoning_step ?W ''hi'' ''because'' (map td_name tools) None (ticked s) = (Inr step, s1)"
    by (metis list.distinct(1))
  let ?o = "\<lparr> tr_assistant_text = Some ''ok'', tr_tool_calls = [], tr_verifiable_anchor = Some step \<rparr>"
  have "run_one_turn ?W ms ''hi'' None s =
      (Inr (\<lparr> tu_assistant_text = Some ''ok'', tu_tool_calls = [], tu_reasoning_step_id = step \<rparr>, Some 3), s1)" for ms
    using i [of ms] r
    by (simp add: run_one_turn_def bindA_getA tools_def [symmetric] bindA_ok demo_answer_def okA_def)
  then have t: "session_run_turn ?W demo_ui_env ''hi'' (session_backend_new s) =
      (WorkerReturned (Inr ?o), (session_backend_new s)\<lparr> sb_session := s1 \<rparr>)"
    by (simp add: session_run_turn_def session_backend_new_def run_turn_def bindA_ok okA_def turn_result_def)
  let ?b = "session_backend_new s" and ?b' = "(session_backend_new s)\<lparr> sb_session := s1 \<rparr>"
  obtain y where y: "y \<in> set (s_log s1)" "fmlookup (e_payload y) ''reasoningStepId'' = Some (JString step)"
    using anchor_names_reasoning_step [OF t] by (simp add: session_backend_new_def del: set_map) (metis UnCI set_append)
  have "reachable ?W (sb_session ?b)" using ui_boot_reachable [OF b] by (simp add: session_backend_new_def)
  moreover have "y \<in> set (s_log (sb_session ?b'))" using y(1) by simp
  moreover have "fst (session_run_turn ?W demo_ui_env ''hi'' ?b) = WorkerReturned (Inr ?o)" by (simp only: t fst_conv)
  ultimately have "reachable ?W (sb_session ?b) \<and> y \<in> set (s_log (sb_session ?b')) \<and>
      fst (session_run_turn ?W demo_ui_env ''hi'' ?b) = WorkerReturned (Inr ?o) \<and>
      fmlookup (e_payload y) ''reasoningStepId'' = Some (JString step)"
    using y(2) by (intro conjI)
  then show ?thesis by - (rule exI [of _ ?b], rule exI [of _ ?b'], rule exI [of _ step], rule exI [of _ y])
qed

end
