(* ===== verification/UiModels.thy ===== *)
theory UiModels
  imports PullSafety UiServer
begin

text \<open>
  The list of the cached models, \<open>GET /api/v1/models\<close> (\<open>crates/ui-server/src/handlers/models.rs\<close>), and how
  it fits what \<open>aegis pull\<close> wrote and what a fork of the chat surface loads. The directories of the cache
  and the parser of JSON text (serde_json) are parameters; warnings are not modelled.
\<close>

section \<open>Data\<close>

record CosignFile =
  cf_verified :: bool
  cf_mode :: string
  cf_keyless_identity_pattern :: "string option"
  cf_keyless_oidc_issuer_pattern :: "string option"
  cf_key_path :: "string option"

record ProvenanceFile =
  pf_schema_version :: u32
  pf_oci_ref :: string
  pf_cosign :: "CosignFile option"
  pf_pulled_at :: "string option"

record ModelCosign =
  mc_verified :: bool
  mc_mode :: string
  mc_keyless_identity_pattern :: "string option"
  mc_keyless_oidc_issuer_pattern :: "string option"
  mc_key_path :: "string option"

record Model =
  mo_digest :: string
  mo_oci_ref :: "string option"
  mo_cosign :: "ModelCosign option"
  mo_size_bytes :: u64
  mo_last_used :: "string option"
  mo_pulled_at :: "string option"
  mo_has_chat_template :: bool

record ModelsResponse =
  ms_cache_dir :: string
  ms_models :: "Model list"

definition UI_PROVENANCE_SCHEMA_VERSION :: u32 where
  "UI_PROVENANCE_SCHEMA_VERSION = 1"

datatype read_failure = NotFound | ReadFailed string

text \<open>What a directory holds: files with their length, directories with what reading them gives, and
  entries whose metadata cannot be read. Links are not followed, so that the tree is finite.\<close>

datatype dir_entry = EntFile u64 | EntDir "read_failure + dir_entry list" | EntFailed read_failure

text \<open>\<open>me_read_dir\<close> gives the names in the cache directory and \<open>me_tree\<close> what is below one; entries that
  cannot be read at all are already dropped (\<open>flatten\<close>). \<open>me_modified\<close> is the time of the last change, in
  seconds and nanoseconds since 1970 or before that, if the system knows it.\<close>

record models_env =
  me_cache_base :: "string option"
  me_read_dir :: "string \<Rightarrow> read_failure + string list"
  me_is_dir :: "string \<Rightarrow> bool"
  me_is_file :: "string \<Rightarrow> bool"
  me_tree :: "string \<Rightarrow> read_failure + dir_entry list"
  me_modified :: "string \<Rightarrow> (u64 \<times> nat) option option"
  me_read :: "string \<Rightarrow> read_failure + bytes"
  me_from_slice :: "bytes \<Rightarrow> string + json"

section \<open>The size of a directory\<close>

text \<open>One directory read: the stack, its top first, and the total.\<close>

fun scan_entries :: "dir_entry list \<Rightarrow> (read_failure + dir_entry list) list \<Rightarrow> u64
    \<Rightarrow> read_failure + (read_failure + dir_entry list) list \<times> u64" where
  "scan_entries [] stack n = Inr (stack, n)"
| "scan_entries (EntFailed e # es) stack n = Inl e"
| "scan_entries (EntDir d # es) stack n = scan_entries es (d # stack) n"
| "scan_entries (EntFile k # es) stack n = scan_entries es stack (saturating_add64 n k)"

fun tree_size :: "read_failure + dir_entry list \<Rightarrow> nat" where
  "tree_size (Inl e) = 1"
| "tree_size (Inr es) = Suc (sum_list (map size es))"

lemma scan_entries_smaller:
  "scan_entries es stack n = Inr (stack', n') \<Longrightarrow>
     sum_list (map tree_size stack') \<le> sum_list (map size es) + sum_list (map tree_size stack)"
proof (induction es stack n rule: scan_entries.induct)
  case (3 d es stack n)
  have "tree_size d \<le> size (EntDir d)"
    by (cases d) (simp_all add: size_list_conv_sum_list)
  with 3 show ?case by simp
qed auto

function dir_size_loop :: "(read_failure + dir_entry list) list \<Rightarrow> u64 \<Rightarrow> read_failure + u64" where
  "dir_size_loop [] n = Inr n"
| "dir_size_loop (Inl e # stack) n = Inl e"
| "dir_size_loop (Inr es # stack) n =
     (case scan_entries es stack n of Inl e \<Rightarrow> Inl e | Inr (stack', n') \<Rightarrow> dir_size_loop stack' n')"
  by pat_completeness auto
termination
proof (relation "measure (\<lambda>(stack, n). sum_list (map tree_size stack))")
  fix es :: "dir_entry list" and stack and n :: u64 and y x stack' and n' :: u64
  assume "scan_entries es stack n = Inr y" and "(stack', n') = y"
  then show "((stack', n'), Inr es # stack, n) \<in> measure (\<lambda>(stack, n). sum_list (map tree_size stack))"
    using scan_entries_smaller [of es stack n stack' n'] by (cases y) simp
qed simp

definition dir_size_bytes :: "models_env \<Rightarrow> string \<Rightarrow> read_failure + u64" where
  "dir_size_bytes E dir = dir_size_loop [me_tree E dir] 0"

section \<open>The list\<close>

definition format_rfc3339 :: "(u64 \<times> nat) option \<Rightarrow> string option" where
  "format_rfc3339 t = map_option (\<lambda>(secs, nanos). naive_rfc3339_from_unix (sint secs) nanos) t"

definition resolve_cache_dir :: "models_env \<Rightarrow> string option" where
  "resolve_cache_dir E = map_option (\<lambda>d. path_in (path_in d ''aegis'') ''models'') (me_cache_base E)"

text \<open>The derived readers of the two structs, over the member readers of the codec in \<open>Pull\<close>. The names of
  the members are those of this file, not of the writer.\<close>

definition cosign_file_from_json :: "json \<Rightarrow> CosignFile option" where
  "cosign_file_from_json v =
     Option.bind (bool_field v ''verified'') (\<lambda>verified.
     Option.bind (string_field v ''mode'') (\<lambda>mode.
     Option.bind (optional_field as_str v ''keyless_identity_pattern'') (\<lambda>identity.
     Option.bind (optional_field as_str v ''keyless_oidc_issuer_pattern'') (\<lambda>issuer.
     Option.bind (optional_field as_str v ''key_path'') (\<lambda>key.
     Some \<lparr> cf_verified = verified, cf_mode = mode, cf_keyless_identity_pattern = identity,
            cf_keyless_oidc_issuer_pattern = issuer, cf_key_path = key \<rparr>)))))"

definition provenance_file_from_json :: "json \<Rightarrow> ProvenanceFile option" where
  "provenance_file_from_json v =
     Option.bind (u32_field v ''schema_version'') (\<lambda>version.
     Option.bind (string_field v ''oci_ref'') (\<lambda>oci_ref.
     Option.bind (optional_field cosign_file_from_json v ''cosign'') (\<lambda>cosign.
     Option.bind (optional_field as_str v ''pulled_at'') (\<lambda>pulled.
     Some \<lparr> pf_schema_version = version, pf_oci_ref = oci_ref, pf_cosign = cosign, pf_pulled_at = pulled \<rparr>))))"

definition read_provenance_file :: "models_env \<Rightarrow> string \<Rightarrow> ProvenanceFile option" where
  "read_provenance_file E dir =
     (case me_read E (path_in dir ''provenance.json'') of
        Inl _ \<Rightarrow> None
      | Inr b \<Rightarrow> (case me_from_slice E b of
            Inl _ \<Rightarrow> None
          | Inr v \<Rightarrow> Option.bind (provenance_file_from_json v) (\<lambda>p.
              if pf_schema_version p \<noteq> UI_PROVENANCE_SCHEMA_VERSION then None else Some p)))"

definition read_ref_txt :: "models_env \<Rightarrow> string \<Rightarrow> string option" where
  "read_ref_txt E dir =
     (case me_read E (path_in dir ''ref.txt'') of
        Inl _ \<Rightarrow> None
      | Inr b \<Rightarrow> if utf8_ok b \<and> trim b \<noteq> [] then Some (trim b) else None)"

definition into_model_cosign :: "CosignFile \<Rightarrow> ModelCosign" where
  "into_model_cosign c =
     \<lparr> mc_verified = cf_verified c, mc_mode = cf_mode c, mc_keyless_identity_pattern = cf_keyless_identity_pattern c,
       mc_keyless_oidc_issuer_pattern = cf_keyless_oidc_issuer_pattern c, mc_key_path = cf_key_path c \<rparr>"

definition model_at :: "models_env \<Rightarrow> string \<Rightarrow> string \<Rightarrow> Model" where
  "model_at E cache digest =
     (let path = path_in cache digest; prov = read_provenance_file E path in
      \<lparr> mo_digest = ''sha256:'' @ digest,
        mo_oci_ref = (case prov of Some p \<Rightarrow> Some (pf_oci_ref p) | None \<Rightarrow> read_ref_txt E path),
        mo_cosign = Option.bind prov (\<lambda>p. map_option into_model_cosign (pf_cosign p)),
        mo_size_bytes = (case dir_size_bytes E path of Inr n \<Rightarrow> n | Inl _ \<Rightarrow> 0),
        mo_last_used = Option.bind (me_modified E path) format_rfc3339,
        mo_pulled_at = Option.bind prov pf_pulled_at,
        mo_has_chat_template = me_is_file E (path_in path ''chat_template.sha256.txt'') \<rparr>)"

text \<open>A name of hexadecimal digits is UTF-8.\<close>

definition is_cache_digest :: "string \<Rightarrow> bool" where
  "is_cache_digest name \<longleftrightarrow> length name = 64 \<and> list_all is_hexdigit name"

definition enumerate_cache :: "models_env \<Rightarrow> string \<Rightarrow> string + Model list" where
  "enumerate_cache E cache =
     (case me_read_dir E cache of
        Inl NotFound \<Rightarrow> Inr []
      | Inl (ReadFailed e) \<Rightarrow> Inl e
      | Inr names \<Rightarrow> Inr (map (model_at E cache)
          (filter (\<lambda>name. me_is_dir E (path_in cache name) \<and> is_cache_digest name) names)))"

definition list_models :: "models_env \<Rightarrow> ModelsResponse" where
  "list_models E =
     (case resolve_cache_dir E of
        None \<Rightarrow> \<lparr> ms_cache_dir = ''(unresolvable)'', ms_models = [] \<rparr>
      | Some cache \<Rightarrow>
          \<lparr> ms_cache_dir = cache,
            ms_models = sort_key mo_digest (case enumerate_cache E cache of Inr v \<Rightarrow> v | Inl _ \<Rightarrow> []) \<rparr>)"

section \<open>Sizes\<close>

fun bytes_of :: "dir_entry \<Rightarrow> nat" where
  "bytes_of (EntFile n) = unat n"
| "bytes_of (EntDir (Inr es)) = sum_list (map bytes_of es)"
| "bytes_of (EntDir (Inl e)) = 0"
| "bytes_of (EntFailed e) = 0"

fun tree_bytes :: "read_failure + dir_entry list \<Rightarrow> nat" where
  "tree_bytes (Inl e) = 0"
| "tree_bytes (Inr es) = sum_list (map bytes_of es)"

fun readable_entry :: "dir_entry \<Rightarrow> bool" where
  "readable_entry (EntFile n) = True"
| "readable_entry (EntDir (Inr es)) = list_all readable_entry es"
| "readable_entry (EntDir (Inl e)) = False"
| "readable_entry (EntFailed e) = False"

abbreviation readable_tree :: "read_failure + dir_entry list \<Rightarrow> bool" where
  "readable_tree d \<equiv> readable_entry (EntDir d)"

lemma scan_entries_bytes:
  "scan_entries es stack n = Inr (stack', n') \<Longrightarrow>
     min (unat n' + sum_list (map tree_bytes stack')) (2 ^ 64 - 1) =
     min (unat n + sum_list (map bytes_of es) + sum_list (map tree_bytes stack)) (2 ^ 64 - 1)"
proof (induction es stack n rule: scan_entries.induct)
  case (3 d es stack n)
  have "tree_bytes d = bytes_of (EntDir d)" by (cases d) simp_all
  with 3 show ?case by (simp add: add.assoc add.left_commute)
next
  case (4 k es stack n)
  then show ?case by (auto simp: unat_saturating_add64 min_def split: if_splits)
qed simp_all

lemma dir_size_loop_bytes:
  "dir_size_loop stack n = Inr r \<Longrightarrow> unat r = min (unat n + sum_list (map tree_bytes stack)) (2 ^ 64 - 1)"
proof (induction stack n rule: dir_size_loop.induct)
  case (1 n)
  have "unat n < 2 ^ 64" using unsigned_less [of n] by simp
  with 1 show ?case by simp
next
  case (3 es stack n)
  then obtain stack' n' where s: "scan_entries es stack n = Inr (stack', n')" and "dir_size_loop stack' n' = Inr r"
    by (auto split: sum.splits)
  with 3(1) [OF s] scan_entries_bytes [OF s] show ?case by (simp add: add.assoc)
qed simp

lemma scan_entries_readable:
  "list_all readable_entry es \<Longrightarrow> list_all readable_tree stack \<Longrightarrow>
     \<exists>stack' n'. scan_entries es stack n = Inr (stack', n') \<and> list_all readable_tree stack'"
  by (induction es stack n rule: scan_entries.induct) auto

lemma dir_size_loop_readable: "list_all readable_tree stack \<Longrightarrow> \<exists>r. dir_size_loop stack n = Inr r"
proof (induction stack n rule: dir_size_loop.induct)
  case (3 es stack n)
  then obtain stack' n' where "scan_entries es stack n = Inr (stack', n')" "list_all readable_tree stack'"
    using scan_entries_readable [of es stack n] by auto
  with 3(1) show ?case by simp
qed auto

text \<open>The size of a model is the sum of its files, capped at the largest \<open>u64\<close>; when something below the
  directory cannot be read, the list shows 0.\<close>

lemma model_size:
  "readable_tree (me_tree E (path_in cache digest)) \<Longrightarrow>
     unat (mo_size_bytes (model_at E cache digest)) = min (tree_bytes (me_tree E (path_in cache digest))) (2 ^ 64 - 1)"
  using dir_size_loop_readable [of "[me_tree E (path_in cache digest)]" 0]
    dir_size_loop_bytes [of "[me_tree E (path_in cache digest)]" 0]
  by (auto simp: model_at_def Let_def dir_size_bytes_def)

section \<open>What a pull leaves for the list\<close>

text \<open>The format is the contract of the two crates: what the list's types read from the JSON the pull writes.\<close>

lemma cosign_file_reads:
  "cosign_file_from_json (cosign_to_json c) = Some \<lparr> cf_verified = cv_verified c, cf_mode = cosign_mode_name (cv_mode c),
     cf_keyless_identity_pattern = cv_keyless_identity_pattern c,
     cf_keyless_oidc_issuer_pattern = cv_keyless_oidc_issuer_pattern c, cf_key_path = cv_key_path c \<rparr>"
  by (simp add: cosign_file_from_json_def cosign_to_json_def jobj_def fmlookup_of_list bool_field_def string_field_def)

lemma cosign_is_object: "\<exists>m. cosign_to_json c = JObject m"
  by (simp add: cosign_to_json_def jobj_def)

lemma provenance_file_reads:
  "provenance_file_from_json (provenance_to_json p) = Some \<lparr> pf_schema_version = pv_schema_version p, pf_oci_ref = pv_oci_ref p,
     pf_cosign = cosign_file_from_json (cosign_to_json (pv_cosign p)), pf_pulled_at = Some (pv_pulled_at p) \<rparr>"
proof -
  obtain m where m: "cosign_to_json (pv_cosign p) = JObject m" using cosign_is_object by blast
  obtain f where f: "cosign_file_from_json (JObject m) = Some f" using cosign_file_reads [of "pv_cosign p"] m by simp
  show ?thesis
    by (simp add: provenance_file_from_json_def provenance_to_json_def jobj_def fmlookup_of_list string_field_def m f
        optional_field_def)
qed

text \<open>The server sees the files of the cache, and a directory for each blob.\<close>

definition sees :: "models_env \<Rightarrow> pull_state \<Rightarrow> string \<Rightarrow> bool" where
  "sees E s cache \<longleftrightarrow>
     (\<forall>path. me_read E path = (case pu_files s path of Some b \<Rightarrow> Inr b | None \<Rightarrow> Inl NotFound)) \<and>
     (\<exists>names. me_read_dir E cache = Inr names \<and>
        (\<forall>hex. is_valid_sha256_hex hex \<and> pu_files s (blob_path cache hex) \<noteq> None \<longrightarrow>
           hex \<in> set names \<and> me_is_dir E (path_in cache hex)))"

lemma install_provenance:
  assumes "install L p cfg dir staged ct s = (Inr art, s')"
  obtains hash t b where "pl_to_vec_pretty L (provenance_to_json \<lparr> pv_schema_version = PROVENANCE_SCHEMA_VERSION,
      pv_oci_ref = canonical p, pv_manifest_digest = pr_sha256_hex p, pv_blob_sha256 = hash, pv_chat_template_sha256 = ct,
      pv_cosign = cosign_record cfg, pv_pulled_at = rfc3339_now L t \<rparr>) = Inr b"
    and "pu_files s' (path_in dir ''provenance.json'') = Some b" and "pu_tick s \<le> t" and "t < pu_tick s'"
proof -
  let ?prov = "\<lambda>hash t. \<lparr> pv_schema_version = PROVENANCE_SCHEMA_VERSION, pv_oci_ref = canonical p,
      pv_manifest_digest = pr_sha256_hex p, pv_blob_sha256 = hash, pv_chat_template_sha256 = ct,
      pv_cosign = cosign_record cfg, pv_pulled_at = rfc3339_now L t \<rparr>"
  from assms obtain blob hash s1 s2 s3 s4 u where 1: "pick_largest_file L staged s = (Inr blob, s1)"
    and 2: "io_call L (\<lambda>_. hex_encode L (sha256 L (snd blob))) id s1 = (Inr hash, s2)"
    and 3: "create_dir_all L dir s2 = (Inr (), s3)" and 4: "write_sidecars L p dir hash ct s3 = (Inr (), s4)"
    and 5: "rename_into L (snd blob) (path_in dir ''blob.bin'') s4 = (Inr (), u)"
    and w: "write_provenance L dir (?prov hash (pu_tick u)) u = (Inr (), s')"
    unfolding install_def by (auto simp: bindA_eq_ok getA_def okA_def)
  have "moves (pull_step UNIV) (pick_largest_file L staged)" "moves (pull_step UNIV) (write_sidecars L p dir hash ct)"
    unfolding pick_largest_file_def write_sidecars_def
    by (intro moves_cases pull_order.basics moves_intros write_moves; simp)+
  with 1 4 movesD [OF io_id_moves [of UNIV] 2] movesD [OF dir_moves [of UNIV] 3] movesD [OF rename_moves [of _ UNIV] 5]
  have "pu_tick s \<le> pu_tick u" by (auto simp: pull_step_def dest!: movesD)
  moreover from w obtain b where "pl_to_vec_pretty L (provenance_to_json (?prov hash (pu_tick u))) = Inr b"
    "pu_files s' (path_in dir ''provenance.json'') = Some b" "pu_tick u < pu_tick s'"
    unfolding write_provenance_def PROVENANCE_FILENAME_def rename_into_def
    by (auto simp: act_results act_simps map_sum_Inr dest!: io_call_Inr)
  ultimately show thesis using that by blast
qed

text \<open>A pull that found no blob for its digest has installed one.\<close>

lemma fresh_pulled:
  assumes "pull L reference cfg s = (Inr art, s')"
    and "pu_files s (blob_path (pc_cache_dir cfg) (pr_sha256_hex (pa_reference art))) = None"
  obtains p staged ct s1 b where "parse_ref reference = Inr p" "pa_reference art = p"
    and "install L p cfg (target_dir (pc_cache_dir cfg) (pr_sha256_hex p)) staged ct s1 = (Inr art, s')"
    and "pa_blob_path art = blob_path (pc_cache_dir cfg) (pr_sha256_hex p)"
    and "pu_files s' (blob_path (pc_cache_dir cfg) (pr_sha256_hex p)) = Some b"
    and "pa_sha256_hex art = hex_encode L (sha256 L b)" and "pu_tick s \<le> pu_tick s1"
  using assms(1)
proof (cases rule: pull_cases)
  case (hit p s1)
  have "is_blob (path_in (target_dir (pc_cache_dir cfg) (pr_sha256_hex p)) ''blob.bin'')"
    using is_blob_path [OF parsed_hex [OF hit(1)]] by (simp add: blob_path_def)
  from cache_hit_Inr [OF hit(5) this] hit(4) assms(2) show ?thesis by simp
next
  case (fresh p s1)
  have blob: "is_blob (path_in (target_dir (pc_cache_dir cfg) (pr_sha256_hex p)) ''blob.bin'')"
    using is_blob_path [OF parsed_hex [OF fresh(1)]] by (simp add: blob_path_def)
  from fresh(4) show ?thesis
  proof (cases rule: fresh_pull_cases)
    case (fetched staged ct s2)
    have "pu_tick s \<le> pu_tick s2" using fresh(2) fetched(1) by (simp add: pull_step_def)
    with install_Inr [OF fetched(3) blob] fresh(1) fetched(3) that show ?thesis by (auto simp: blob_path_def)
  qed simp
qed simp

lemma valid_is_cache_digest: "is_valid_sha256_hex hex \<Longrightarrow> is_cache_digest hex"
  by (auto simp: is_valid_sha256_hex_def is_cache_digest_def list_all_iff)

lemma listed:
  assumes "resolve_cache_dir E = Some cache" and "me_read_dir E cache = Inr names" and "hex \<in> set names"
    and "me_is_dir E (path_in cache hex)" and "is_cache_digest hex"
  shows "model_at E cache hex \<in> set (ms_models (list_models E))"
  using assms by (simp add: list_models_def enumerate_cache_def)

lemma fork_finds_blob:
  assumes "is_valid_sha256_hex hex" and "resolve_cache_dir E = Some cache" and "me_cache_base E = Some base"
  shows "fork_model_path base hex = blob_path cache hex" and "fork_model_path base (''sha256:'' @ hex) \<noteq> blob_path cache hex"
proof -
  have hex: "hex \<noteq> []" "list_all is_hexdigit hex" "last hex \<noteq> CHR ''/''"
    using assms(1) valid_hex_ends by (auto simp: is_valid_sha256_hex_def list_all_iff)
  have cache: "cache = path_in (path_in base ''aegis'') ''models''" using assms(2,3) by (simp add: resolve_cache_dir_def)
  show "fork_model_path base hex = blob_path cache hex"
    using fork_path_cases(1) [OF hex(1,2)] by (simp add: blob_path_def target_dir_def cache)
  have "fork_model_path base (''sha256:'' @ hex) = path_in (path_in cache (''sha256:'' @ hex)) ''blob.bin''"
    by (simp add: fork_model_path_def join_abs_def cache)
  then show "fork_model_path base (''sha256:'' @ hex) \<noteq> blob_path cache hex"
    using hex(3) target_dir_ends [OF assms(1), of cache]
    by (auto simp: blob_path_def target_dir_def path_in_def split: if_splits)
qed

text \<open>A fork that answers made a backend on the file its digest names.\<close>

lemma fork_loads:
  assumes "fork_session W U e digest st = (RespForked d schema, st')" and "ue_cache_dir U = Some base"
  shows "\<exists>b. last (us_backends st') = UiSession b \<and> s_model_path (sb_session b) = fork_model_path base digest"
  using fork_outcome [OF assms(1)] assms(2) by (auto simp: session_backend_new_def)

text \<open>The signature check of a pull, as the list shows it.\<close>

definition shown_cosign :: "PullConfig \<Rightarrow> ModelCosign" where
  "shown_cosign cfg =
     (case pc_cosign_key cfg of
        Some key \<Rightarrow> \<lparr> mc_verified = True, mc_mode = ''key'', mc_keyless_identity_pattern = None,
          mc_keyless_oidc_issuer_pattern = None, mc_key_path = Some key \<rparr>
      | None \<Rightarrow> \<lparr> mc_verified = True, mc_mode = ''keyless'',
          mc_keyless_identity_pattern = Some (case pc_keyless_identity cfg of None \<Rightarrow> ''.*'' | Some x \<Rightarrow> x),
          mc_keyless_oidc_issuer_pattern = Some (case pc_keyless_oidc_issuer cfg of None \<Rightarrow> ''.*'' | Some x \<Rightarrow> x),
          mc_key_path = None \<rparr>)"

lemma cosign_shown:
  "map_option into_model_cosign (cosign_file_from_json (cosign_to_json (cosign_record cfg))) = Some (shown_cosign cfg)"
  by (simp add: cosign_file_reads cosign_record_def into_model_cosign_def shown_cosign_def split: option.split)

text \<open>What the list shows of a model whose provenance file an install wrote.\<close>

lemma installed_shown:
  assumes "install L p cfg (target_dir cache (pr_sha256_hex p)) staged ct s = (Inr art, s')" and "sees E s' cache"
    and "\<forall>prov b. pl_to_vec_pretty L (provenance_to_json prov) = Inr b \<longrightarrow> me_from_slice E b = Inr (provenance_to_json prov)"
  obtains t where "mo_digest (model_at E cache (pr_sha256_hex p)) = ''sha256:'' @ pr_sha256_hex p"
    and "mo_oci_ref (model_at E cache (pr_sha256_hex p)) = Some (canonical p)"
    and "mo_cosign (model_at E cache (pr_sha256_hex p)) = Some (shown_cosign cfg)"
    and "mo_pulled_at (model_at E cache (pr_sha256_hex p)) = Some (rfc3339_now L t)" and "pu_tick s \<le> t" and "t < pu_tick s'"
proof -
  obtain hash t b where v: "pl_to_vec_pretty L (provenance_to_json \<lparr> pv_schema_version = PROVENANCE_SCHEMA_VERSION,
      pv_oci_ref = canonical p, pv_manifest_digest = pr_sha256_hex p, pv_blob_sha256 = hash, pv_chat_template_sha256 = ct,
      pv_cosign = cosign_record cfg, pv_pulled_at = rfc3339_now L t \<rparr>) = Inr b"
    and f: "pu_files s' (path_in (target_dir cache (pr_sha256_hex p)) ''provenance.json'') = Some b"
    and t: "pu_tick s \<le> t" "t < pu_tick s'"
    using install_provenance [OF assms(1)] .
  have "read_provenance_file E (path_in cache (pr_sha256_hex p)) = Some \<lparr> pf_schema_version = UI_PROVENANCE_SCHEMA_VERSION,
      pf_oci_ref = canonical p, pf_cosign = cosign_file_from_json (cosign_to_json (cosign_record cfg)),
      pf_pulled_at = Some (rfc3339_now L t) \<rparr>"
    using assms(2,3) f v
    by (simp add: read_provenance_file_def sees_def target_dir_def provenance_file_reads
        PROVENANCE_SCHEMA_VERSION_def UI_PROVENANCE_SCHEMA_VERSION_def)
  then show ?thesis using that t by (simp add: model_at_def Let_def cosign_shown)
qed

section \<open>Property\<close>

text \<open>C20: What is pulled is listed with its provenance, and is what a fork loads. After a pull that
  installed a model, the list names its digest with the reference in canonical form, with the time of the
  clock during the pull, and with the signature check that was made, under the key or the identity patterns
  of the operator; the list is in the order of the digests. The bytes in the cache have the digest the pull
  reported, and every fork to the bare digest that answers made a session on that file; a fork to the
  digest as the list prints it, with its prefix, looks elsewhere. The members of the provenance file are
  those each side names; of the JSON library it is only used that it reads back the text it has printed.\<close>

theorem pulled_model_is_listed:
  assumes "pull L reference cfg s = (Inr art, s')"
    and "pu_files s (blob_path (pc_cache_dir cfg) (pr_sha256_hex (pa_reference art))) = None"
    and "sees E s' (pc_cache_dir cfg)" and "resolve_cache_dir E = Some (pc_cache_dir cfg)" and "me_cache_base E = Some base"
    and "\<forall>prov b. pl_to_vec_pretty L (provenance_to_json prov) = Inr b \<longrightarrow> me_from_slice E b = Inr (provenance_to_json prov)"
  shows "(\<exists>m \<in> set (ms_models (list_models E)).
     mo_digest m = ''sha256:'' @ pr_sha256_hex (pa_reference art) \<and> mo_oci_ref m = Some (canonical (pa_reference art)) \<and>
     mo_cosign m = Some (shown_cosign cfg) \<and>
     (\<exists>t. pu_tick s \<le> t \<and> t < pu_tick s' \<and> mo_pulled_at m = Some (rfc3339_now L t)) \<and>
     fork_model_path base (mo_digest m) \<noteq> pa_blob_path art) \<and>
     sorted (map mo_digest (ms_models (list_models E))) \<and>
     (\<exists>b. pu_files s' (pa_blob_path art) = Some b \<and> pa_sha256_hex art = hex_encode L (sha256 L b)) \<and>
     (\<forall>(W :: 'w world_scheme) U e st d schema st'. ue_cache_dir U = Some base \<and>
        fork_session W U e (pr_sha256_hex (pa_reference art)) st = (RespForked d schema, st') \<longrightarrow>
        (\<exists>b. last (us_backends st') = UiSession b \<and> s_model_path (sb_session b) = pa_blob_path art))"
proof (rule fresh_pulled [OF assms(1,2)])
  let ?cache = "pc_cache_dir cfg"
  fix p staged ct s1 b0
  assume p: "parse_ref reference = Inr p" "pa_reference art = p"
    and i: "install L p cfg (target_dir ?cache (pr_sha256_hex p)) staged ct s1 = (Inr art, s')"
    and blob: "pa_blob_path art = blob_path ?cache (pr_sha256_hex p)" "pu_files s' (blob_path ?cache (pr_sha256_hex p)) = Some b0"
      "pa_sha256_hex art = hex_encode L (sha256 L b0)" and early: "pu_tick s \<le> pu_tick s1"
  note hex = parsed_hex [OF p(1)]
  let ?m = "model_at E ?cache (pr_sha256_hex p)"
  obtain t where m: "mo_digest ?m = ''sha256:'' @ pr_sha256_hex p" "mo_oci_ref ?m = Some (canonical p)"
    "mo_cosign ?m = Some (shown_cosign cfg)" "mo_pulled_at ?m = Some (rfc3339_now L t)" "pu_tick s1 \<le> t" "t < pu_tick s'"
    using installed_shown [OF i assms(3,6)] .
  have "?m \<in> set (ms_models (list_models E))"
    using assms(3,4) blob(2) hex valid_is_cache_digest [OF hex] listed by (auto simp: sees_def)
  moreover have "fork_model_path base (mo_digest ?m) \<noteq> pa_blob_path art"
    using fork_finds_blob(2) [OF hex assms(4,5)] m(1) blob(1) by simp
  moreover have "pu_tick s \<le> t" using early m(5) by simp
  ultimately have 1: "\<exists>m \<in> set (ms_models (list_models E)). mo_digest m = ''sha256:'' @ pr_sha256_hex p \<and>
      mo_oci_ref m = Some (canonical p) \<and> mo_cosign m = Some (shown_cosign cfg) \<and>
      (\<exists>t. pu_tick s \<le> t \<and> t < pu_tick s' \<and> mo_pulled_at m = Some (rfc3339_now L t)) \<and>
      fork_model_path base (mo_digest m) \<noteq> pa_blob_path art"
    using m by (intro bexI [of _ ?m]) blast+
  have 2: "sorted (map mo_digest (ms_models (list_models E)))" by (simp add: list_models_def split: option.split)
  have 3: "\<exists>b. last (us_backends st') = UiSession b \<and> s_model_path (sb_session b) = pa_blob_path art"
    if "ue_cache_dir U = Some base \<and> fork_session W U e (pr_sha256_hex p) st = (RespForked d schema, st')"
    for W :: "'w world_scheme" and U e st d schema st'
    using that fork_loads [of W U e "pr_sha256_hex p" st d schema st' base] fork_finds_blob(1) [OF hex assms(4,5)] blob(1) by simp
  have 4: "\<exists>b. pu_files s' (pa_blob_path art) = Some b \<and> pa_sha256_hex art = hex_encode L (sha256 L b)"
    using blob by simp
  show ?thesis unfolding p(2) by (intro conjI allI impI; (rule 1 2 4)?) (rule 3)
qed

section \<open>Witness\<close>

definition demo_models_env :: "pull_state \<Rightarrow> models_env" where
  "demo_models_env s = \<lparr> me_cache_base = Some ''/c'', me_read_dir = (\<lambda>_. Inr [replicate 64 CHR ''a'']), me_is_dir = (\<lambda>_. True),
     me_is_file = (\<lambda>_. False), me_tree = (\<lambda>_. Inr []), me_modified = (\<lambda>_. None),
     me_read = (\<lambda>path. case pu_files s path of Some b \<Rightarrow> Inr b | None \<Rightarrow> Inl NotFound), me_from_slice = (\<lambda>b. Inr (demo_value b)) \<rparr>"

theorem pulled_model_is_listed_witness:
  "\<exists>art s. pull demo_pull demo_ref (demo_cfg None) empty_cache = (Inr art, s) \<and>
     (\<exists>m \<in> set (ms_models (list_models (demo_models_env s))). mo_digest m = ''sha256:'' @ replicate 64 CHR ''a'' \<and>
        mo_oci_ref m = Some demo_ref \<and> mo_cosign m = Some \<lparr> mc_verified = True, mc_mode = ''keyless'',
          mc_keyless_identity_pattern = Some ''.*'', mc_keyless_oidc_issuer_pattern = Some ''.*'', mc_key_path = None \<rparr>)"
proof -
  obtain art s where run: "pull demo_pull demo_ref (demo_cfg None) empty_cache = (Inr art, s)" "pa_reference art = demo_parsed"
    and other: "\<forall>path. is_blob path \<and> path \<noteq> blob_path ''/c/aegis/models'' (replicate 64 CHR ''a'') \<longrightarrow> pu_files s path = None"
    using demo_pulled by blast
  let ?E = "demo_models_env s"
  have a: "is_valid_sha256_hex (replicate 64 CHR ''a'')"
    by (simp add: is_valid_sha256_hex_def is_hexdigit_def is_digit_def is_upper_def list_all_iff)
  have "sees ?E s (pc_cache_dir (demo_cfg None))"
    unfolding sees_def using other is_blob_path blob_path_inj [OF _ a, of _ "''/c/aegis/models''"]
    by (fastforce simp: demo_models_env_def demo_cfg_def)
  moreover have "resolve_cache_dir ?E = Some (pc_cache_dir (demo_cfg None))"
    by (simp add: resolve_cache_dir_def demo_models_env_def demo_cfg_def path_in_def)
  moreover have "me_cache_base ?E = Some ''/c''" by (simp add: demo_models_env_def)
  moreover have "\<forall>prov b. pl_to_vec_pretty demo_pull (provenance_to_json prov) = Inr b \<longrightarrow>
      me_from_slice ?E b = Inr (provenance_to_json prov)"
    by (auto simp: demo_models_env_def)
  moreover have "pu_files empty_cache (blob_path (pc_cache_dir (demo_cfg None)) (pr_sha256_hex (pa_reference art))) = None"
    by (simp add: empty_cache_def)
  ultimately have "\<exists>m \<in> set (ms_models (list_models ?E)). mo_digest m = ''sha256:'' @ pr_sha256_hex (pa_reference art) \<and>
      mo_oci_ref m = Some (canonical (pa_reference art)) \<and> mo_cosign m = Some (shown_cosign (demo_cfg None))"
    using pulled_model_is_listed [OF run(1)] by blast
  with run show ?thesis
    by (auto simp: demo_parsed_def demo_ref_def canonical_def shown_cosign_def demo_cfg_def)
qed

end
