(* ===== verification/UiRest.thy ===== *)
theory UiRest
  imports Pull Web "HOL-Library.Product_Lexorder"
begin

text \<open>
  The stateless requests of the UI server: saving a draft manifest (\<open>handlers/manifests.rs\<close>), running the
  validator on one (\<open>handlers/validate.rs\<close>), health and version (\<open>handlers/health.rs\<close>), and the embedded
  files (\<open>handlers/assets.rs\<close>). The validator is an external program; its answers, the environment of the
  process and the parser of one finding are parameters, as are the embedded files and their MIME types.
\<close>

section \<open>Saving a draft\<close>

definition DRAFT_FILENAME :: string where
  "DRAFT_FILENAME = ''draft.yaml''"

definition MAX_BODY_BYTES :: nat where
  "MAX_BODY_BYTES = 1024 * 1024"

record SaveResponse =
  sr_saved :: bool
  sr_path :: string
  sr_bytes :: nat

datatype save_answer = SaveError nat string | Saved SaveResponse

text \<open>\<open>sv_written\<close>: what a failing write leaves, nothing or a truncated file.\<close>

record save_env =
  sv_config_dir :: "string option"
  sv_mkdir_error :: "string \<Rightarrow> string option"
  sv_write_error :: "string \<Rightarrow> string option"
  sv_written :: "nat option"

definition draft_path :: "save_env \<Rightarrow> string option" where
  "draft_path E =
     map_option (\<lambda>base. path_in (path_in (path_in base ''aegis'') ''manifests'') DRAFT_FILENAME) (sv_config_dir E)"

text \<open>The directory of the draft.\<close>

definition draft_dir :: "save_env \<Rightarrow> string" where
  "draft_dir E = (case sv_config_dir E of Some base \<Rightarrow> path_in (path_in base ''aegis'') ''manifests'' | None \<Rightarrow> [])"

definition save_manifest :: "save_env \<Rightarrow> string \<Rightarrow> (string \<rightharpoonup> bytes) \<Rightarrow> save_answer \<times> (string \<rightharpoonup> bytes)" where
  "save_manifest E body files =
     (if MAX_BODY_BYTES < length body then
        (SaveError 413 (''manifest body exceeds '' @ show_nat MAX_BODY_BYTES @ '' byte cap (got '' @ show_nat (length body) @ '' bytes)''), files)
      else case draft_path E of
        None \<Rightarrow> (SaveError 500 ''could not resolve user config dir'', files)
      | Some path \<Rightarrow> (case sv_mkdir_error E (draft_dir E) of
            Some e \<Rightarrow> (SaveError 500 (''create_dir_all '' @ draft_dir E @ '': '' @ e), files)
          | None \<Rightarrow> (case sv_write_error E path of
                Some e \<Rightarrow> (SaveError 500 (''write '' @ path @ '': '' @ e),
                  (case sv_written E of None \<Rightarrow> files | Some k \<Rightarrow> files(path \<mapsto> take k body)))
              | None \<Rightarrow> (Saved \<lparr> sr_saved = True, sr_path = path, sr_bytes = length body \<rparr>, files(path \<mapsto> body)))))"

section \<open>Validating a manifest\<close>

definition ENV_VALIDATE_BIN :: string where
  "ENV_VALIDATE_BIN = ''AEGIS_VALIDATE_BIN''"

definition DEV_BIN_PATH :: string where
  "DEV_BIN_PATH = ''bin/aegis-validate''"

definition PATH_BIN_NAME :: string where
  "PATH_BIN_NAME = ''aegis-validate''"

record Finding =
  fi_rule_id :: string
  fi_severity :: string
  fi_field :: string
  fi_message :: string
  fi_rationale :: "string option"
  fi_line :: u32
  fi_col :: u32

record ValidateResponse =
  vr_ok :: bool
  vr_findings :: "Finding list"
  vr_binary :: string

datatype validate_answer = ValidateError nat string | Validated ValidateResponse

record validate_env =
  va_env :: "string \<Rightarrow> string option"
  va_current_dir :: "string option"
  va_is_file :: "string \<Rightarrow> bool"
  va_path_dirs :: "string list option"
  va_tempfile :: "string \<Rightarrow> string + string"
  va_output :: "string \<Rightarrow> string list \<Rightarrow> string + proc_output"
  va_lossy :: "bytes \<Rightarrow> string"
  va_finding :: "string \<Rightarrow> string + Finding"

definition which_validator :: "validate_env \<Rightarrow> string \<Rightarrow> string option" where
  "which_validator E tool =
     Option.bind (va_path_dirs E) (\<lambda>dirs. find (va_is_file E) (map (\<lambda>dir. path_in dir tool) dirs))"

definition if_file :: "validate_env \<Rightarrow> string option \<Rightarrow> string option" where
  "if_file E p = (case p of Some path \<Rightarrow> if va_is_file E path then Some path else None | None \<Rightarrow> None)"

definition resolve_validate_binary :: "validate_env \<Rightarrow> string option" where
  "resolve_validate_binary E =
     (case if_file E (va_env E ENV_VALIDATE_BIN) of
        Some p \<Rightarrow> Some p
      | None \<Rightarrow> (case if_file E (map_option (\<lambda>cwd. path_in cwd DEV_BIN_PATH) (va_current_dir E)) of
            Some p \<Rightarrow> Some p
          | None \<Rightarrow> which_validator E PATH_BIN_NAME))"

text \<open>The loop over the lines, numbered from \<open>n\<close>.\<close>

fun parse_lines :: "validate_env \<Rightarrow> nat \<Rightarrow> string list \<Rightarrow> Finding list \<Rightarrow> string + Finding list" where
  "parse_lines E n [] out = Inr out"
| "parse_lines E n (line # lines) out =
     (if trim line = [] then parse_lines E (Suc n) lines out
      else case va_finding E (trim line) of
        Inr f \<Rightarrow> parse_lines E (Suc n) lines (out @ [f])
      | Inl e \<Rightarrow> Inl (''line '' @ show_nat (n + 1) @ '': '' @ e @ '' '' @ [CHR 0xE2, CHR 0x80, CHR 0x94] @
          '' raw: '' @ trim line))"

definition parse_findings :: "validate_env \<Rightarrow> string \<Rightarrow> string + Finding list" where
  "parse_findings E stdout = parse_lines E 0 (str_lines stdout) []"

definition severity_rank :: "string \<Rightarrow> nat" where
  "severity_rank s = (if s = ''error'' then 0 else if s = ''warn'' then 1 else if s = ''info'' then 2 else 3)"

definition finding_key :: "Finding \<Rightarrow> nat \<times> string \<times> string" where
  "finding_key f = (severity_rank (fi_severity f), fi_rule_id f, fi_field f)"

definition sort_findings :: "Finding list \<Rightarrow> Finding list" where
  "sort_findings v = sort_key finding_key v"

definition validate_manifest :: "validate_env \<Rightarrow> string \<Rightarrow> validate_answer" where
  "validate_manifest E body =
     (if body = [] then ValidateError 400 ''empty body''
      else case resolve_validate_binary E of
        None \<Rightarrow> ValidateError 503 (''validator not found. Install via `make build-go-validate` '' @
          ''(writes ./bin/aegis-validate), put `aegis-validate` on PATH, '' @
          ''or set the '' @ ENV_VALIDATE_BIN @ '' env var to an absolute binary path.'')
      | Some bin \<Rightarrow> (case va_tempfile E body of
            Inl e \<Rightarrow> ValidateError 500 (''staging tempfile: '' @ e)
          | Inr temp \<Rightarrow> (case va_output E bin [''validate'', ''--format'', ''json'', temp] of
                Inl e \<Rightarrow> ValidateError 500 (''invoking '' @ bin @ '': '' @ e)
              | Inr out \<Rightarrow>
                  (let findings = sort_findings
                         (case parse_findings E (va_lossy E (po_stdout out)) of Inr v \<Rightarrow> v | Inl e \<Rightarrow> []);
                       exit_code = (case po_code out of Some c \<Rightarrow> c | None \<Rightarrow> - 1) in
                   if exit_code = 2 then
                     ValidateError 500 (''validator usage error (exit 2): '' @ trim (va_lossy E (po_stderr out)))
                   else Validated \<lparr> vr_ok = (exit_code = 0), vr_findings = findings, vr_binary = bin \<rparr>))))"

section \<open>Health, version and files\<close>

record Config =
  co_version :: string
  co_features :: "string list"
  co_listen :: socket_addr

definition healthz :: json where
  "healthz = JObject (fmap_of_list [(''ok'', JBool True)])"

definition version :: "Config \<Rightarrow> Config" where
  "version config = config"

text \<open>The embedded files, the MIME type guessed from a path, and an error of building the answer.\<close>

record assets_env =
  as_get :: "string \<Rightarrow> bytes option"
  as_mime :: "string \<Rightarrow> string"
  as_build_error :: "string \<Rightarrow> string option"

datatype asset_answer = AssetFile string bytes | AssetError nat string

definition embedded_response :: "assets_env \<Rightarrow> string \<Rightarrow> bytes \<Rightarrow> asset_answer" where
  "embedded_response A path data =
     (case as_build_error A (as_mime A path) of
        None \<Rightarrow> AssetFile (as_mime A path) data
      | Some e \<Rightarrow> AssetError 500 (''response build failed: '' @ e))"

definition serve_embedded :: "assets_env \<Rightarrow> string \<Rightarrow> asset_answer" where
  "serve_embedded A uri_path =
     (let raw = dropWhile (\<lambda>c. c = CHR ''/'') uri_path; candidate = (if raw = [] then ''index.html'' else raw) in
      case as_get A candidate of
        Some data \<Rightarrow> embedded_response A candidate data
      | None \<Rightarrow> (case as_get A ''index.html'' of
            Some data \<Rightarrow> embedded_response A ''index.html'' data
          | None \<Rightarrow> AssetError 404 ''ui/dist/ is empty''))"

section \<open>What the answers mean\<close>

text \<open>A saved draft is the body, nothing else changed; a body that is too long changes nothing; any other
  failure leaves all files but the draft alone.\<close>

lemma draft_saved_or_error:
  assumes "save_manifest E body files = (r, files')"
  shows "case r of
       Saved s \<Rightarrow> sr_saved s \<and> sr_bytes s = length body \<and> length body \<le> 2 ^ 20 \<and> draft_path E = Some (sr_path s) \<and>
         files' = files(sr_path s \<mapsto> body)
     | SaveError code msg \<Rightarrow> (code = 413 \<longleftrightarrow> 2 ^ 20 < length body) \<and> (code = 413 \<longrightarrow> files' = files) \<and>
         (\<forall>path. draft_path E \<noteq> Some path \<longrightarrow> files' path = files path)"
  using assms by (auto simp: save_manifest_def MAX_BODY_BYTES_def split: if_splits option.splits)

definition finding_lines :: "string \<Rightarrow> string list" where
  "finding_lines stdout = filter (\<lambda>l. l \<noteq> []) (map trim (str_lines stdout))"

lemma parse_lines_result:
  "(case parse_lines E n lines out of Inr v \<Rightarrow> v | Inl e \<Rightarrow> []) =
     (if list_all (\<lambda>l. \<not> isl (va_finding E l)) (filter (\<lambda>l. l \<noteq> []) (map trim lines))
      then out @ map (\<lambda>l. projr (va_finding E l)) (filter (\<lambda>l. l \<noteq> []) (map trim lines)) else [])"
proof (induction E n lines out rule: parse_lines.induct)
  case (2 E n line lines out)
  then show ?case by (cases "trim line = []"; cases "va_finding E (trim line)") simp_all
qed simp

text \<open>An answer of the validator is its findings in the order of severity, rule and field, those with equal
  keys in the order it printed them; one line that does not parse hides all the others. The answer is ok
  exactly when the validator ended with 0.\<close>

lemma validator_answer:
  assumes "validate_manifest E body = Validated r"
  obtains temp out where "resolve_validate_binary E = Some (vr_binary r)" "va_tempfile E body = Inr temp"
    and "va_output E (vr_binary r) [''validate'', ''--format'', ''json'', temp] = Inr out"
    and "vr_ok r \<longleftrightarrow> po_code out = Some 0" "po_code out \<noteq> Some 2"
    and "vr_findings r = sort_key finding_key
      (if list_all (\<lambda>l. \<not> isl (va_finding E l)) (finding_lines (va_lossy E (po_stdout out)))
       then map (\<lambda>l. projr (va_finding E l)) (finding_lines (va_lossy E (po_stdout out))) else [])"
proof -
  from assms obtain bin temp out where 1: "resolve_validate_binary E = Some bin" "va_tempfile E body = Inr temp"
    "va_output E bin [''validate'', ''--format'', ''json'', temp] = Inr out"
    by (auto simp: validate_manifest_def split: if_splits option.splits sum.splits)
  let ?ls = "finding_lines (va_lossy E (po_stdout out))"
  have p: "(case parse_findings E (va_lossy E (po_stdout out)) of Inr v \<Rightarrow> v | Inl e \<Rightarrow> []) =
      (if list_all (\<lambda>l. \<not> isl (va_finding E l)) ?ls then map (\<lambda>l. projr (va_finding E l)) ?ls else [])"
    using parse_lines_result [of E 0 "str_lines (va_lossy E (po_stdout out))" "[]"]
    by (simp only: parse_findings_def finding_lines_def append_Nil)
  from assms 1 show ?thesis
    by (auto simp: validate_manifest_def Let_def sort_findings_def p intro!: that [of temp out] split: if_splits option.splits)
qed

end
