(* ===== verification/Cli.thy ===== *)
theory Cli
  imports CliRunFacts PullSafety
begin

text \<open>
  The other commands of the binary, \<open>crates/cli/src/lib.rs\<close>: setting up and using the local certificate
  authority, verifying a ledger, and what \<open>aegis run\<close> and \<open>aegis pull\<close> print. A command ends by returning,
  by an error, or by an exit with a status; each with the lines it printed. The derived JSON and debug
  renderings and the rendering of a time are the record \<open>cli_fmt\<close>.
\<close>

section \<open>Commands\<close>

datatype OutputFormat = FormatText | FormatJson

record VerifyArgs =
  vf_path :: string
  vf_format :: OutputFormat

record InitArgs =
  in_trust_domain :: string
  in_config_dir :: "string option"

record IssueArgs =
  is_workload_name :: string
  is_instance :: string
  is_model_digest :: string
  is_manifest_digest :: string
  is_config_digest :: string
  is_config_dir :: "string option"

record PullArgs =
  pl_reference :: string
  pl_cache_dir :: "string option"
  pl_cosign_key :: "string option"
  pl_keyless_identity :: "string option"
  pl_keyless_oidc_issuer :: "string option"

datatype cli_error =
    CliUsage string
  | CliIdentity string identity_error
  | CliRunning run_error
  | CliPulling string pull_error
  | CliLedger string
  | CliJson string

text \<open>Lines of the standard output and of the standard error.\<close>

datatype printed = Out string | Err string

datatype cli_end = CliOk "printed list" | CliExit nat "printed list" | CliError cli_error

record cli_fmt =
  cf_time :: "time \<Rightarrow> string"
  cf_break_debug :: "VerifyBreak \<Rightarrow> string"
  cf_summary_json :: "VerifySummary \<Rightarrow> string + string"
  cf_break_json :: "VerifyBreak \<Rightarrow> string + string"

section \<open>Identity\<close>

definition resolve_identity_dir :: "string option \<Rightarrow> string option \<Rightarrow> cli_error + string" where
  "resolve_identity_dir base override_dir =
     (case override_dir of
        Some p \<Rightarrow> Inr p
      | None \<Rightarrow> (case base of
            None \<Rightarrow> Inl (CliUsage ''could not resolve user config dir'')
          | Some b \<Rightarrow> Inr (path_in (path_in b ''aegis'') ''identity'')))"

definition parse_digest_arg :: "'a libs_scheme \<Rightarrow> string \<Rightarrow> string \<Rightarrow> cli_error + bytes" where
  "parse_digest_arg L name hex_str =
     map_sum (CliIdentity (''--'' @ name @ '' must be a 64-char hex SHA-256'')) id (digest_from_hex L hex_str)"

definition cmd_init :: "'a libs_scheme \<Rightarrow> x509_lib \<Rightarrow> time \<Rightarrow> nat \<Rightarrow> string option \<Rightarrow> InitArgs
    \<Rightarrow> (ca_store, cli_error, printed list) act" where
  "cmd_init L X now k base args =
     bindA (liftA (resolve_identity_dir base (in_config_dir args))) (\<lambda>dir.
     bindA (mapErrA (CliIdentity (''initializing local CA at '' @ dir @ '' for trust domain '' @
         str_debug L (in_trust_domain args))) (ca_init X now k dir (in_trust_domain args))) (\<lambda>_.
     okA [Out (''initialized Aegis-Node local CA at '' @ dir @ '' (trust_domain='' @ in_trust_domain args @ '')'')]))"

definition cmd_issue :: "'a libs_scheme \<Rightarrow> x509_lib \<Rightarrow> time \<Rightarrow> nat \<Rightarrow> string option \<Rightarrow> IssueArgs
    \<Rightarrow> (ca_store, cli_error, printed list) act" where
  "cmd_issue L X now k base args =
     bindA (liftA (resolve_identity_dir base (is_config_dir args))) (\<lambda>dir.
     bindA (mapErrA (CliIdentity (''loading local CA from '' @ dir)) (ca_load X dir)) (\<lambda>ca.
     bindA (liftA (parse_digest_arg L ''model-digest'' (is_model_digest args))) (\<lambda>model.
     bindA (liftA (parse_digest_arg L ''manifest-digest'' (is_manifest_digest args))) (\<lambda>manifest.
     bindA (liftA (parse_digest_arg L ''config-digest'' (is_config_digest args))) (\<lambda>config.
     bindA (liftA (map_sum (CliIdentity (''issuing SVID for '' @ is_workload_name args @ ''/'' @ is_instance args)) id
       (issue_svid X now k ca (is_workload_name args) (is_instance args)
          \<lparr> dt_model = model, dt_manifest = manifest, dt_config = config \<rparr>))) (\<lambda>svid.
     okA [Out (''# spiffe_id: '' @ spiffe_uri (sv_spiffe_id svid)),
          Out (''# model_digest: '' @ digest_hex L (dt_model (sv_digests svid))),
          Out (''# manifest_digest: '' @ digest_hex L (dt_manifest (sv_digests svid))),
          Out (''# config_digest: '' @ digest_hex L (dt_config (sv_digests svid))),
          Out (sv_cert_pem svid), Out (sv_key_pem svid)]))))))"

section \<open>Verify\<close>

definition verified_line :: "cli_fmt \<Rightarrow> VerifySummary \<Rightarrow> string" where
  "verified_line F summary =
     ''ledger ok: session='' @ (case vs_session_id summary of Some s \<Rightarrow> s | None \<Rightarrow> ''(empty)'') @
     '' entries='' @ show_nat (unat (vs_entry_count summary)) @ '' root='' @ vs_root_hash_hex summary @ '' time='' @
     (case (vs_first_timestamp summary, vs_last_timestamp summary) of
        (Some a, Some b) \<Rightarrow> cf_time F a @ ''..'' @ cf_time F b
      | _ \<Rightarrow> ''(no entries)'')"

definition cmd_verify :: "'a libs_scheme \<Rightarrow> cli_fmt \<Rightarrow> (u64 \<Rightarrow> bool) \<Rightarrow> (string \<Rightarrow> bytes option) \<Rightarrow> VerifyArgs \<Rightarrow> cli_end" where
  "cmd_verify L F fails files args =
     (case verify_file L fails (files (vf_path args)) of
        Inr summary \<Rightarrow> (case vf_format args of
            FormatText \<Rightarrow> CliOk [Out (verified_line F summary)]
          | FormatJson \<Rightarrow> (case cf_summary_json F summary of Inr s \<Rightarrow> CliOk [Out s] | Inl e \<Rightarrow> CliError (CliJson e)))
      | Inl (VBreak brk) \<Rightarrow> (case vf_format args of
            FormatText \<Rightarrow> CliExit 1 [Err (''ledger break: '' @ cf_break_debug F brk)]
          | FormatJson \<Rightarrow> (case cf_break_json F brk of Inr s \<Rightarrow> CliExit 1 [Out s] | Inl e \<Rightarrow> CliError (CliJson e)))
      | Inl VIo \<Rightarrow> CliError (CliLedger (''opening ledger file '' @ vf_path args)))"

section \<open>Run and pull\<close>

definition outcome_lines :: "RunOutcome \<Rightarrow> printed list" where
  "outcome_lines out =
     [Out (''ledger_root: '' @ ro_root_hash_hex out), Out (''ledger_path: '' @ ro_ledger_path out),
      Out (''entries: '' @ show_nat (unat (ro_entry_count out)))]"

definition cmd_run :: "'w world_scheme \<Rightarrow> cli_env \<Rightarrow> RunArgs \<Rightarrow> env \<Rightarrow> cli_end \<times> session option" where
  "cmd_run W C args e =
     (case run_execute W C args e of
        (Inl err, s) \<Rightarrow> (CliError (CliRunning err), s)
      | (Inr out, s) \<Rightarrow> (if ro_halted out then CliExit 1 (outcome_lines out) else CliOk (outcome_lines out), s))"

definition cmd_pull :: "pull_lib \<Rightarrow> string option \<Rightarrow> PullArgs \<Rightarrow> (pull_state, cli_error, printed list) act" where
  "cmd_pull L base args =
     bindA (liftA (case pl_cache_dir args of
         Some d \<Rightarrow> Inr d
       | None \<Rightarrow> map_sum (CliPulling ''resolving default cache dir'') id (default_cache_dir base))) (\<lambda>cache.
     bindA (mapErrA (CliPulling (''pulling and verifying '' @ pl_reference args))
       (pull L (pl_reference args) \<lparr> pc_cache_dir = cache, pc_cosign_key = pl_cosign_key args,
          pc_keyless_identity = pl_keyless_identity args, pc_keyless_oidc_issuer = pl_keyless_oidc_issuer args \<rparr>)) (\<lambda>pulled.
     okA ([Out ''# verified'', Out (''reference: '' @ canonical (pa_reference pulled)), Out (''sha256: '' @ pa_sha256_hex pulled),
           Out (''blob_path: '' @ pa_blob_path pulled)] @
          (case pa_chat_template_sha256_hex pulled of
             Some t \<Rightarrow> [Out (''chat_template_sha256: '' @ t)] | None \<Rightarrow> []))))"

section \<open>A ledger that was run can be verified\<close>

text \<open>After a run that returned an outcome, \<open>aegis verify\<close> on the file it left succeeds and prints the
  root and the number of entries the run has printed.\<close>

lemma run_then_verify:
  assumes "lib_laws W" and "run_execute W C args e = (Inr out, Some s')" and "disk_works (s_ledger s')"
    and "utf8_ok (run_session_id C args)" and "\<forall>x \<in> set (s_log s'). readable x" and "length (s_log s') < 2 ^ 64"
    and "vf_format v = FormatText" and "files (vf_path v) = Some (b_disk (w_file (s_ledger s')))"
  shows "\<exists>time. cmd_verify W F (\<lambda>_. False) files v = CliOk [Out (''ledger ok: session='' @ ro_session_id out @ '' entries='' @
     show_nat (unat (ro_entry_count out)) @ '' root='' @ ro_root_hash_hex out @ '' time='' @ time)]"
  using run_report [OF assms(1-6)] assms(7,8) by (auto simp: cmd_verify_def verify_file_def verified_line_def)

section \<open>An identity that was initialised can be issued\<close>

lemma digest_arg_ok: "parse_digest_arg L name h = Inr d \<longleftrightarrow> hex_decode L h = Some d \<and> length d = 32"
  by (auto simp: parse_digest_arg_def map_sum_Inr digest_from_hex_def digest_from_bytes_def split: option.splits if_splits)

text \<open>C37: What \<open>identity init\<close> sets up, \<open>identity issue\<close> uses. When the two commands succeed one after the
  other on the same directory, the certificate that was printed names the trust domain of the first and
  the workload and instance of the second, and it passes the digest check for exactly the three digests
  given on the command line; a second \<open>init\<close> is refused and changes nothing.\<close>

theorem init_then_issue:
  assumes "x509_laws X" and "cmd_init L X now k base ia s = (Inr o1, s1)" and "cmd_issue L X now' k' base ja s1 = (Inr o2, s2)"
    and "is_config_dir ja = in_config_dir ia"
  shows "\<exists>pem digests. Out pem \<in> set o2 \<and>
     extract_spiffe_id_from_pem X pem = Inr \<lparr> sp_trust_domain = in_trust_domain ia, sp_workload_name = is_workload_name ja,
       sp_instance = is_instance ja \<rparr> \<and>
     hex_decode L (is_model_digest ja) = Some (dt_model digests) \<and> hex_decode L (is_manifest_digest ja) = Some (dt_manifest digests) \<and>
     hex_decode L (is_config_digest ja) = Some (dt_config digests) \<and>
     (\<forall>live. verify_digest_binding X pem live = Inr None \<longleftrightarrow> live = digests) \<and>
     cs_files s2 = cs_files s1 \<and> (\<exists>e. cmd_init L X now k base ia s2 = (Inl e, s2))"
proof -
  from assms(2) obtain dir ca where d: "resolve_identity_dir base (in_config_dir ia) = Inr dir"
    and i: "ca_init X now k dir (in_trust_domain ia) s = (Inr ca, s1)"
    by (auto simp: cmd_init_def act_results act_simps)
  note init = ca_init_ok [OF i]
  from assms(3,4) d obtain ca2 s3 model manifest config svid where l: "ca_load X dir s1 = (Inr ca2, s3)" "s2 = s3"
    and a: "hex_decode L (is_model_digest ja) = Some model" "hex_decode L (is_manifest_digest ja) = Some manifest"
      "hex_decode L (is_config_digest ja) = Some config" "length model = 32" "length manifest = 32" "length config = 32"
    and v: "issue_svid X now' k' ca2 (is_workload_name ja) (is_instance ja)
        \<lparr> dt_model = model, dt_manifest = manifest, dt_config = config \<rparr> = Inr svid"
    and o2: "Out (sv_cert_pem svid) \<in> set o2"
    by (auto simp: cmd_issue_def act_results act_simps digest_arg_ok map_sum_Inr)
  let ?d = "\<lparr> dt_model = model, dt_manifest = manifest, dt_config = config \<rparr>"
  have ca2: "ca_trust_domain ca2 = in_trust_domain ia" "cs_files s2 = cs_files s1"
    using ca_init_load [OF i] l init(1) by auto
  have "triple_ok ?d" using a by (simp add: triple_ok_def digest_ok_def)
  moreover have "template_ok None" by (simp add: template_ok_def)
  ultimately have att: "extract_spiffe_id_from_pem X (sv_cert_pem svid) = Inr \<lparr> sp_trust_domain = in_trust_domain ia,
      sp_workload_name = is_workload_name ja, sp_instance = is_instance ja \<rparr>"
    "\<forall>live. verify_digest_binding X (sv_cert_pem svid) live = Inr None \<longleftrightarrow> live = ?d"
    using issued_attests [OF assms(1) _ _ v [unfolded issue_svid_def]] ca2(1) by auto
  have "cs_files s2 (join_path dir CA_CERT_FILE) \<noteq> None" using init(3) ca2(2) by simp
  then have "ca_init X now k dir (in_trust_domain ia) s2 = (Inl (IdCaAlreadyInitialized dir), s2)"
    by (auto simp: ca_init_def act_simps)
  then have "\<exists>e. cmd_init L X now k base ia s2 = (Inl e, s2)"
    by (simp add: cmd_init_def bindA_liftA_ok d mapErrA_def bindA_def liftA_def)
  with att a o2 ca2(2) show ?thesis by (intro exI [of _ "sv_cert_pem svid"] exI [of _ ?d]) simp
qed

theorem init_then_issue_witness:
  "\<exists>o1 o2 s1 s2. cmd_init libs0 x509_demo 0 0 None \<lparr> in_trust_domain = ''td'', in_config_dir = Some ''d'' \<rparr>
       \<lparr> cs_files = Map.empty, cs_calls = 0, cs_outcome = (\<lambda>_. FileOk) \<rparr> = (Inr o1, s1) \<and>
     cmd_issue libs0 x509_demo 0 0 None \<lparr> is_workload_name = ''w'', is_instance = ''i'',
       is_model_digest = hex_encode0 (replicate 32 CHR ''a''), is_manifest_digest = hex_encode0 (replicate 32 CHR ''b''),
       is_config_digest = hex_encode0 (replicate 32 CHR ''c''), is_config_dir = Some ''d'' \<rparr> s1 = (Inr o2, s2) \<and>
     (\<exists>pem. Out pem \<in> set o2 \<and> extract_spiffe_id_from_pem x509_demo pem =
        Inr \<lparr> sp_trust_domain = ''td'', sp_workload_name = ''w'', sp_instance = ''i'' \<rparr>)"
proof -
  let ?s = "\<lparr> cs_files = Map.empty, cs_calls = 0, cs_outcome = (\<lambda>_. FileOk) \<rparr>"
  let ?ia = "\<lparr> in_trust_domain = ''td'', in_config_dir = Some ''d'' \<rparr>"
  let ?ja = "\<lparr> is_workload_name = ''w'', is_instance = ''i'',
       is_model_digest = hex_encode0 (replicate 32 CHR ''a''), is_manifest_digest = hex_encode0 (replicate 32 CHR ''b''),
       is_config_digest = hex_encode0 (replicate 32 CHR ''c''), is_config_dir = Some ''d'' \<rparr>"
  have td: "validate_trust_domain_for_ca ''td'' = Inr ()"
    by (simp add: validate_trust_domain_for_ca_def spiffe_new_Inr spiffe_valid_def
        trust_domain_char_def segment_char_def is_lower_def)
  have zero: "show_nat 0 = ''0''" and trimmed: "trim ''td'' = ''td''" by code_simp+
  let ?ca = "\<lparr> ca_dir = ''d'', ca_trust_domain = ''td'', ca_cert = ''cert td'', ca_key = ''key 0'' \<rparr>"
  obtain s' where i: "ca_init x509_demo 0 0 ''d'' ''td'' ?s = (Inr ?ca, s')" and ok: "cs_outcome s' = (\<lambda>_. FileOk)"
    using td zero by (simp add: ca_init_def act_simps file_op_def write_file_def x509_demo_def of_lib_def bindA_def okA_def)
  have 1: "cmd_init libs0 x509_demo 0 0 None ?ia ?s = (Inr [Out (''initialized Aegis-Node local CA at d (trust_domain=td)'')], s')"
    using i by (simp add: cmd_init_def resolve_identity_dir_def bindA_def mapErrA_def liftA_def okA_def)
  obtain s2 where l: "ca_load x509_demo ''d'' s' = (Inr ?ca, s2)"
    using ok ca_init_ok(3) [OF i] td trimmed
    by (simp add: ca_load_def read_to_string_def act_simps file_op_def bindA_def okA_def x509_demo_def of_lib_def cont_byte_def)
  have args: "parse_digest_arg libs0 name (hex_encode0 (replicate 32 c)) = Inr (replicate 32 c)" for name c
    by (simp add: digest_arg_ok hex_decode0_encode0)
  obtain svid where "issue_svid x509_demo 0 0 ?ca ''w'' ''i''
      \<lparr> dt_model = replicate 32 CHR ''a'', dt_manifest = replicate 32 CHR ''b'', dt_config = replicate 32 CHR ''c'' \<rparr> = Inr svid"
    by (simp add: issue_svid_def issue_svid_with_chat_template_def demo_spiffe x509_demo_def sign_svid_def leaf_params_def
        opt_list_def of_lib_def hours_def SVID_VALIDITY_HOURS_def)
  then have "\<exists>o2. cmd_issue libs0 x509_demo 0 0 None ?ja s' = (Inr o2, s2)"
    using l by (simp add: cmd_issue_def resolve_identity_dir_def bindA_def mapErrA_def liftA_def okA_def args)
  then obtain o2 where 2: "cmd_issue libs0 x509_demo 0 0 None ?ja s' = (Inr o2, s2)" by blast
  from init_then_issue [OF x509_demo_laws 1 2] 1 2 show ?thesis by auto
qed

end
