(* ===== verification/IdentityFfi.thy ===== *)
theory IdentityFfi
  imports Ca
begin

text \<open>
  The C bindings of the identity crate, \<open>crates/identity/src/ffi.rs\<close>. The memory handed across the border
  is a heap of strings and a heap of authorities, by address; 0 is \<open>NULL\<close>. Using an address that holds
  nothing is undefined behaviour and an error of the model. A string argument is \<open>None\<close> when it is
  \<open>NULL\<close> and otherwise its bytes up to the terminator; a digest argument is its 32 bytes. Each allocation
  has an address of its own, so that a dangling pointer is never valid again by chance. The last error is that of one
  thread; the renderings of errors are parameters.
\<close>

section \<open>Memory\<close>

record AegisSvid =
  av_cert_pem :: nat
  av_key_pem :: nat
  av_spiffe_id :: nat

text \<open>Undefined behaviour, or a panic that reaches the border and aborts the process.\<close>

datatype ffi_stop = DanglingPointer | Aborted

record ffi_lib =
  fl_error :: "identity_error \<Rightarrow> string"
  fl_utf8_error :: "bytes \<Rightarrow> string"
  fl_nul_error :: "string \<Rightarrow> string"

record ffi_state =
  fh_strings :: "nat \<rightharpoonup> string"
  fh_cas :: "nat \<rightharpoonup> LocalCa"
  fh_next :: nat
  fh_last_error :: "string option"
  fh_store :: ca_store

type_synonym 'a ffi_act = "(ffi_state, ffi_stop, 'a) act"

definition AEGIS_OK :: int where "AEGIS_OK = 0"
definition AEGIS_ERR_NULL :: int where "AEGIS_ERR_NULL = - 1"
definition AEGIS_ERR_INVALID_UTF8 :: int where "AEGIS_ERR_INVALID_UTF8 = - 2"
definition AEGIS_ERR_LOAD :: int where "AEGIS_ERR_LOAD = - 3"
definition AEGIS_ERR_ISSUE :: int where "AEGIS_ERR_ISSUE = - 4"
definition AEGIS_ERR_INTERNAL :: int where "AEGIS_ERR_INTERNAL = - 5"

text \<open>\<open>CString::new\<close> refuses a string that holds a NUL.\<close>

definition cstring_new :: "string \<Rightarrow> string option" where
  "cstring_new s = (if CHR 0x00 \<in> set s then None else Some s)"

definition set_last_error :: "string \<Rightarrow> unit ffi_act" where
  "set_last_error msg = modA (\<lambda>h. h\<lparr> fh_last_error := Some (case cstring_new msg of
     Some s \<Rightarrow> s | None \<Rightarrow> ''aegis_identity: error message contained NULs'') \<rparr>)"

definition aegis_identity_last_error :: "ffi_state \<Rightarrow> string option" where
  "aegis_identity_last_error h = fh_last_error h"

text \<open>\<open>CString::into_raw\<close> and the drop of \<open>CString::from_raw\<close>; \<open>Box::into_raw\<close> and the drop of \<open>Box::from_raw\<close>.\<close>

definition string_into_raw :: "string \<Rightarrow> nat ffi_act" where
  "string_into_raw s = (\<lambda>h. (Inr (fh_next h),
     h\<lparr> fh_strings := (fh_strings h)(fh_next h \<mapsto> s), fh_next := Suc (fh_next h) \<rparr>))"

definition drop_string :: "nat \<Rightarrow> unit ffi_act" where
  "drop_string p = (\<lambda>h. case fh_strings h p of
     None \<Rightarrow> (Inl DanglingPointer, h) | Some _ \<Rightarrow> (Inr (), h\<lparr> fh_strings := (fh_strings h)(p := None) \<rparr>))"

definition ca_into_raw :: "LocalCa \<Rightarrow> nat ffi_act" where
  "ca_into_raw ca = (\<lambda>h. (Inr (fh_next h),
     h\<lparr> fh_cas := (fh_cas h)(fh_next h \<mapsto> ca), fh_next := Suc (fh_next h) \<rparr>))"

definition deref_ca :: "nat \<Rightarrow> LocalCa ffi_act" where
  "deref_ca p = (\<lambda>h. case fh_cas h p of None \<Rightarrow> (Inl DanglingPointer, h) | Some ca \<Rightarrow> (Inr ca, h))"

section \<open>The functions\<close>

definition c_str :: "ffi_lib \<Rightarrow> string \<Rightarrow> bytes option \<Rightarrow> string option ffi_act" where
  "c_str F label p =
     (case p of
        None \<Rightarrow> bindA (set_last_error (label @ '' is NULL'')) (\<lambda>_. okA None)
      | Some b \<Rightarrow> if utf8_ok b then okA (Some b)
                  else bindA (set_last_error (label @ '' not valid UTF-8: '' @ fl_utf8_error F b)) (\<lambda>_. okA None))"

text \<open>What follows \<open>init\<close> or \<open>load\<close>: a handle, or \<open>NULL\<close> and the error.\<close>

definition ca_handle :: "ffi_lib \<Rightarrow> string \<Rightarrow> (ca_store, identity_error, LocalCa) act \<Rightarrow> nat ffi_act" where
  "ca_handle F prefix_text m = (\<lambda>h.
     case m (fh_store h) of
       (Inr ca, st) \<Rightarrow> ca_into_raw ca (h\<lparr> fh_store := st \<rparr>)
     | (Inl e, st) \<Rightarrow> bindA (set_last_error (prefix_text @ fl_error F e)) (\<lambda>_. okA 0) (h\<lparr> fh_store := st \<rparr>))"

definition aegis_identity_ca_init :: "ffi_lib \<Rightarrow> x509_lib \<Rightarrow> time \<Rightarrow> nat \<Rightarrow> bytes option \<Rightarrow> bytes option \<Rightarrow> nat ffi_act" where
  "aegis_identity_ca_init F X now k dir trust_domain =
     bindA (c_str F ''dir'' dir) (\<lambda>d. case d of None \<Rightarrow> okA 0 | Some d \<Rightarrow>
     bindA (c_str F ''trust_domain'' trust_domain) (\<lambda>td. case td of None \<Rightarrow> okA 0 | Some td \<Rightarrow>
     ca_handle F ''init CA: '' (ca_init X now k d td)))"

definition aegis_identity_ca_load :: "ffi_lib \<Rightarrow> x509_lib \<Rightarrow> bytes option \<Rightarrow> nat ffi_act" where
  "aegis_identity_ca_load F X dir =
     bindA (c_str F ''dir'' dir) (\<lambda>d. case d of None \<Rightarrow> okA 0 | Some d \<Rightarrow>
     ca_handle F ''load CA: '' (ca_load X d))"

definition aegis_identity_ca_free :: "nat \<Rightarrow> unit ffi_act" where
  "aegis_identity_ca_free p =
     (if p \<noteq> 0 then bindA (deref_ca p) (\<lambda>_. modA (\<lambda>h. h\<lparr> fh_cas := (fh_cas h)(p := None) \<rparr>)) else okA ())"

definition fail_with :: "string \<Rightarrow> int \<Rightarrow> (int \<times> AegisSvid option) ffi_act" where
  "fail_with msg code = bindA (set_last_error msg) (\<lambda>_. okA (code, None))"

text \<open>The three strings of an SVID; each failure frees those before it.\<close>

definition hand_out :: "ffi_lib \<Rightarrow> X509Svid \<Rightarrow> (int \<times> AegisSvid option) ffi_act" where
  "hand_out F svid =
     (case cstring_new (sv_cert_pem svid) of
        None \<Rightarrow> fail_with (''cert PEM contained NULs: '' @ fl_nul_error F (sv_cert_pem svid)) AEGIS_ERR_INTERNAL
      | Some c \<Rightarrow> bindA (string_into_raw c) (\<lambda>cert.
      case cstring_new (sv_key_pem svid) of
        None \<Rightarrow> bindA (drop_string cert) (\<lambda>_.
          fail_with (''key PEM contained NULs: '' @ fl_nul_error F (sv_key_pem svid)) AEGIS_ERR_INTERNAL)
      | Some k \<Rightarrow> bindA (string_into_raw k) (\<lambda>key.
      case cstring_new (spiffe_uri (sv_spiffe_id svid)) of
        None \<Rightarrow> bindA (drop_string cert) (\<lambda>_. bindA (drop_string key) (\<lambda>_.
          fail_with (''spiffe id contained NULs: '' @ fl_nul_error F (spiffe_uri (sv_spiffe_id svid))) AEGIS_ERR_INTERNAL))
      | Some i \<Rightarrow> bindA (string_into_raw i) (\<lambda>sid.
          okA (AEGIS_OK, Some \<lparr> av_cert_pem = cert, av_key_pem = key, av_spiffe_id = sid \<rparr>)))))"

text \<open>The code and, on success, what is written to \<open>out_svid\<close>; \<open>out_null\<close>: that pointer is \<open>NULL\<close>.\<close>

definition aegis_identity_issue_svid :: "ffi_lib \<Rightarrow> x509_lib \<Rightarrow> time \<Rightarrow> nat \<Rightarrow> nat \<Rightarrow> bytes option \<Rightarrow> bytes option
    \<Rightarrow> bytes option \<Rightarrow> bytes option \<Rightarrow> bytes option \<Rightarrow> bool \<Rightarrow> (int \<times> AegisSvid option) ffi_act" where
  "aegis_identity_issue_svid F X now k ca workload inst model manifest config out_null =
     (case (model, manifest, config) of
        (Some m, Some f, Some c) \<Rightarrow>
          if ca = 0 \<or> workload = None \<or> inst = None \<or> out_null then fail_with ''null argument'' AEGIS_ERR_NULL
          else
            bindA (c_str F ''workload'' workload) (\<lambda>w. case w of None \<Rightarrow> okA (AEGIS_ERR_INVALID_UTF8, None) | Some w \<Rightarrow>
            bindA (c_str F ''instance'' inst) (\<lambda>i. case i of None \<Rightarrow> okA (AEGIS_ERR_INVALID_UTF8, None) | Some i \<Rightarrow>
            bindA (deref_ca ca) (\<lambda>authority.
            case issue_svid X now k authority w i \<lparr> dt_model = m, dt_manifest = f, dt_config = c \<rparr> of
              Inl IdPanic \<Rightarrow> errA Aborted
            | Inl e \<Rightarrow> fail_with (''issue: '' @ fl_error F e) AEGIS_ERR_ISSUE
            | Inr svid \<Rightarrow> hand_out F svid)))
      | _ \<Rightarrow> fail_with ''null argument'' AEGIS_ERR_NULL)"

definition clear_field :: "nat \<Rightarrow> nat ffi_act" where
  "clear_field p = (if p \<noteq> 0 then bindA (drop_string p) (\<lambda>_. okA 0) else okA 0)"

text \<open>The struct as it is left.\<close>

definition aegis_identity_svid_clear :: "AegisSvid option \<Rightarrow> AegisSvid option ffi_act" where
  "aegis_identity_svid_clear svid =
     (case svid of
        None \<Rightarrow> okA None
      | Some s \<Rightarrow>
          bindA (clear_field (av_cert_pem s)) (\<lambda>c. bindA (clear_field (av_key_pem s)) (\<lambda>k.
          bindA (clear_field (av_spiffe_id s)) (\<lambda>i.
          okA (Some \<lparr> av_cert_pem = c, av_key_pem = k, av_spiffe_id = i \<rparr>)))))"

section \<open>Who owns what\<close>

definition owned :: "AegisSvid \<Rightarrow> nat list" where
  "owned v = filter (\<lambda>p. p \<noteq> 0) [av_cert_pem v, av_key_pem v, av_spiffe_id v]"

definition held :: "AegisSvid list \<Rightarrow> nat list" where
  "held svids = concat (map owned svids)"

lemma held_simps [simp]:
  "held [] = []" "held (v # vs) = owned v @ held vs" "held (us @ vs) = held us @ held vs"
  by (simp_all add: held_def)

text \<open>The heap holds the authorities and the strings of the client, each string once, and nothing else.\<close>

definition ffi_ok :: "ffi_state \<Rightarrow> nat list \<Rightarrow> AegisSvid list \<Rightarrow> bool" where
  "ffi_ok h cas svids \<longleftrightarrow> dom (fh_cas h) = set cas \<and> dom (fh_strings h) = set (held svids) \<and> distinct (held svids) \<and>
     0 < fh_next h \<and> (\<forall>p \<in> dom (fh_cas h) \<union> dom (fh_strings h). 0 < p \<and> p < fh_next h)"

definition same_heap :: "ffi_state \<Rightarrow> ffi_state \<Rightarrow> bool" where
  "same_heap h h' \<longleftrightarrow> fh_strings h' = fh_strings h \<and> fh_cas h' = fh_cas h \<and> fh_next h \<le> fh_next h'"

lemma same_heap_ok: "same_heap h h' \<Longrightarrow> ffi_ok h cas svids \<Longrightarrow> ffi_ok h' cas svids"
  by (auto simp: same_heap_def ffi_ok_def dest: bspec intro: less_le_trans [where y = "fh_next h"])

lemma same_heap_trans: "same_heap h h1 \<Longrightarrow> same_heap h1 h' \<Longrightarrow> same_heap h h'"
  by (simp add: same_heap_def)

lemma same_heap_updates [simp]:
  "same_heap h (h\<lparr> fh_last_error := x \<rparr>)" "same_heap h h" "same_heap h (h\<lparr> fh_store := st \<rparr>)"
  "same_heap h (h\<lparr> fh_store := st, fh_last_error := x \<rparr>)"
  by (simp_all add: same_heap_def)

lemma c_str_runs: "\<exists>r h'. c_str F label p h = (Inr r, h') \<and> same_heap h h'"
  by (cases p) (simp_all add: c_str_def set_last_error_def bindA_def modA_apply okA_def)

lemma fail_with_runs: "\<exists>h'. fail_with msg code h = (Inr (code, None), h') \<and> same_heap h h'"
  by (simp add: fail_with_def set_last_error_def bindA_def modA_apply okA_def)

lemma ca_handle_runs:
  "\<exists>p h'. ca_handle F t m h = (Inr p, h') \<and>
     (p = 0 \<and> same_heap h h' \<or>
      p = fh_next h \<and> (\<exists>ca. fh_cas h' = (fh_cas h)(p \<mapsto> ca)) \<and> fh_strings h' = fh_strings h \<and> fh_next h' = Suc p)"
proof (cases "m (fh_store h)")
  case (Pair r st)
  then show ?thesis
    by (cases r) (auto simp: ca_handle_def ca_into_raw_def set_last_error_def bindA_def modA_apply okA_def)
qed

lemma new_ca_ok:
  "ffi_ok h cas svids \<Longrightarrow> fh_cas h' = (fh_cas h)(fh_next h \<mapsto> ca) \<Longrightarrow> fh_strings h' = fh_strings h \<Longrightarrow>
     fh_next h' = Suc (fh_next h) \<Longrightarrow> ffi_ok h' (fh_next h # cas) svids"
  unfolding ffi_ok_def by (simp add: less_Suc_eq)

text \<open>Both ways to a handle: a new one, or \<open>NULL\<close> and nothing changed.\<close>

lemma opened_ok:
  assumes "ffi_ok h cas svids"
  shows "\<exists>p h'. aegis_identity_ca_init F X now k dir td h = (Inr p, h') \<and> ffi_ok h' (if p = 0 then cas else p # cas) svids"
    and "\<exists>p h'. aegis_identity_ca_load F X dir h = (Inr p, h') \<and> ffi_ok h' (if p = 0 then cas else p # cas) svids"
proof -
  have handle: "\<exists>p h'. ca_handle F t m g = (Inr p, h') \<and> ffi_ok h' (if p = 0 then cas else p # cas) svids"
    if g: "ffi_ok g cas svids" for t m g
  proof -
    obtain p h' where run: "ca_handle F t m g = (Inr p, h')" and
      r: "p = 0 \<and> same_heap g h' \<or> p = fh_next g \<and> (\<exists>ca. fh_cas h' = (fh_cas g)(p \<mapsto> ca)) \<and>
        fh_strings h' = fh_strings g \<and> fh_next h' = Suc p"
      using ca_handle_runs [of F t m g] by (elim exE conjE)
    have "0 < fh_next g" using g by (simp add: ffi_ok_def)
    then have "ffi_ok h' (if p = 0 then cas else p # cas) svids"
      using r same_heap_ok [OF _ g] new_ca_ok [OF g] by auto
    with run show ?thesis by blast
  qed
  obtain d h1 where 1: "c_str F ''dir'' dir h = (Inr d, h1)" "same_heap h h1" using c_str_runs by blast
  obtain t h2 where 2: "c_str F ''trust_domain'' td h1 = (Inr t, h2)" "same_heap h1 h2" using c_str_runs by blast
  have ok: "ffi_ok h1 cas svids" "ffi_ok h2 cas svids" using same_heap_ok assms 1 2 by blast+
  show "\<exists>p h'. aegis_identity_ca_load F X dir h = (Inr p, h') \<and> ffi_ok h' (if p = 0 then cas else p # cas) svids"
    using 1 ok(1) handle [OF ok(1)] by (cases d) (simp_all add: aegis_identity_ca_load_def bindA_def okA_def)
  show "\<exists>p h'. aegis_identity_ca_init F X now k dir td h = (Inr p, h') \<and> ffi_ok h' (if p = 0 then cas else p # cas) svids"
    using 1 2 ok handle [OF ok(2)] by (cases d; cases t) (simp_all add: aegis_identity_ca_init_def bindA_def okA_def)
qed

lemma free_ok:
  assumes "ffi_ok h cas svids" and "p \<in> set cas \<or> p = 0"
  shows "\<exists>h'. aegis_identity_ca_free p h = (Inr (), h') \<and> ffi_ok h' (removeAll p cas) svids"
proof (cases "p = 0")
  case True
  then have "0 \<notin> set cas" using assms(1) by (auto simp: ffi_ok_def)
  then show ?thesis using True assms(1) by (simp add: aegis_identity_ca_free_def okA_def)
next
  case False
  then have "p \<in> dom (fh_cas h)" using assms by (simp add: ffi_ok_def)
  then obtain ca where "fh_cas h p = Some ca" by blast
  moreover have "ffi_ok (h\<lparr> fh_cas := (fh_cas h)(p := None) \<rparr>) (removeAll p cas) svids"
    using assms(1) by (auto simp: ffi_ok_def)
  ultimately show ?thesis using False by (simp add: aegis_identity_ca_free_def deref_ca_def bindA_def modA_apply)
qed

lemma hand_out_ok:
  assumes "ffi_ok h cas svids"
  shows "\<exists>code out h'. hand_out F svid h = (Inr (code, out), h') \<and> ffi_ok h' cas (opt_list out @ svids) \<and>
     (code = AEGIS_OK \<longleftrightarrow> out \<noteq> None) \<and> (out = None \<longrightarrow> fh_strings h' = fh_strings h)"
proof -
  let ?n = "fh_next h" and ?c = "cstring_new (sv_cert_pem svid)" and ?k = "cstring_new (sv_key_pem svid)"
    and ?i = "cstring_new (spiffe_uri (sv_spiffe_id svid))"
  have free: "fh_strings h m = None" if "?n \<le> m" for m
    using assms that by (meson Un_iff domIff ffi_ok_def leD)
  have failed: ?thesis if "hand_out F svid h = fail_with msg AEGIS_ERR_INTERNAL h1" "same_heap h h1" for msg h1
  proof -
    obtain h2 where "fail_with msg AEGIS_ERR_INTERNAL h1 = (Inr (AEGIS_ERR_INTERNAL, None), h2)" "same_heap h1 h2"
      using fail_with_runs by blast
    with that same_heap_trans same_heap_ok [OF _ assms] show ?thesis
      by (fastforce simp: AEGIS_ERR_INTERNAL_def AEGIS_OK_def opt_list_def same_heap_def)
  qed
  consider (cert) "?c = None" | (key) c where "?c = Some c" "?k = None" | (id) c k where "?c = Some c" "?k = Some k" "?i = None"
    | (all) c k i where "?c = Some c" "?k = Some k" "?i = Some i" by fastforce
  then show ?thesis
  proof cases
    case cert then show ?thesis by (intro failed [of _ h]) (simp_all add: hand_out_def)
  next
    case key
    show ?thesis
      by (rule failed [of "''key PEM contained NULs: '' @ fl_nul_error F (sv_key_pem svid)"
            "h\<lparr> fh_strings := (fh_strings h)(?n := None), fh_next := Suc ?n \<rparr>"])
        (simp_all add: hand_out_def same_heap_def key bindA_def string_into_raw_def drop_string_def free fun_upd_idem)
  next
    case id
    show ?thesis
      by (rule failed [of "''spiffe id contained NULs: '' @ fl_nul_error F (spiffe_uri (sv_spiffe_id svid))"
            "h\<lparr> fh_strings := (fh_strings h)(Suc ?n := None, ?n := None), fh_next := Suc (Suc ?n) \<rparr>"])
        (simp_all add: hand_out_def same_heap_def id bindA_def string_into_raw_def drop_string_def free fun_upd_idem fun_upd_twist)
  next
    case (all c k i)
    let ?v = "\<lparr> av_cert_pem = ?n, av_key_pem = Suc ?n, av_spiffe_id = Suc (Suc ?n) \<rparr>"
    let ?h = "h\<lparr> fh_strings := (fh_strings h)(?n \<mapsto> c, Suc ?n \<mapsto> k, Suc (Suc ?n) \<mapsto> i), fh_next := Suc (Suc (Suc ?n)) \<rparr>"
    have "hand_out F svid h = (Inr (AEGIS_OK, Some ?v), ?h)"
      by (simp add: hand_out_def all bindA_def string_into_raw_def okA_def)
    moreover have "ffi_ok ?h cas (?v # svids)"
    proof -
      have below: "x < ?n" if "x \<in> set (held svids)" for x using assms that by (simp add: ffi_ok_def)
      have n: "0 < ?n" using assms by (simp add: ffi_ok_def)
      then have "owned ?v = [?n, Suc ?n, Suc (Suc ?n)]" by (simp add: owned_def)
      moreover have "?n \<notin> set (held svids)" "Suc ?n \<notin> set (held svids)" "Suc (Suc ?n) \<notin> set (held svids)"
        using below by (meson less_irrefl not_less_eq less_SucI)+
      moreover have "dom (fh_strings ?h) = {?n, Suc ?n, Suc (Suc ?n)} \<union> dom (fh_strings h)" by auto
      ultimately show ?thesis using assms below n unfolding ffi_ok_def by (simp add: less_Suc_eq)
    qed
    ultimately show ?thesis by (intro exI) (auto simp: opt_list_def)
  qed
qed

lemma issue_runs:
  assumes "ffi_ok h cas svids" and "ca \<in> set cas \<or> ca = 0"
  shows "\<exists>r h'. aegis_identity_issue_svid F X now k ca wl inst m f c out_null h = (r, h') \<and>
     (case r of
        Inl stop \<Rightarrow> stop = Aborted
      | Inr (code, out) \<Rightarrow> ffi_ok h' cas (opt_list out @ svids) \<and> (code = AEGIS_OK \<longleftrightarrow> out \<noteq> None) \<and>
          (out = None \<longrightarrow> fh_strings h' = fh_strings h))"
proof -
  let ?run = "aegis_identity_issue_svid F X now k ca wl inst m f c out_null h"
  let ?good = "\<lambda>(r, h'). case r of Inl stop \<Rightarrow> stop = Aborted
      | Inr (code, out) \<Rightarrow> ffi_ok h' cas (opt_list out @ svids) \<and> (code = AEGIS_OK \<longleftrightarrow> out \<noteq> None) \<and>
          (out = None \<longrightarrow> fh_strings h' = fh_strings h)"
  have failed: "?good (fail_with msg code g)" if "same_heap h g" "code \<noteq> AEGIS_OK" for msg code g
    using fail_with_runs [of msg code g] same_heap_trans [OF that(1)] same_heap_ok [OF _ assms(1)] that(2)
    by (fastforce simp: opt_list_def same_heap_def)
  have stopped: "?good (Inr (code, None), g)" if "same_heap h g" "code \<noteq> AEGIS_OK" for code g
    using same_heap_ok [OF that(1) assms(1)] that by (simp add: opt_list_def same_heap_def)
  have codes: "AEGIS_ERR_NULL \<noteq> AEGIS_OK" "AEGIS_ERR_INVALID_UTF8 \<noteq> AEGIS_OK" "AEGIS_ERR_ISSUE \<noteq> AEGIS_OK"
    by (simp_all add: AEGIS_ERR_NULL_def AEGIS_ERR_INVALID_UTF8_def AEGIS_ERR_ISSUE_def AEGIS_OK_def)
  have "?good ?run"
  proof (cases "m = None \<or> f = None \<or> c = None \<or> ca = 0 \<or> wl = None \<or> inst = None \<or> out_null")
    case True
    then have "?run = fail_with ''null argument'' AEGIS_ERR_NULL h"
      by (auto simp: aegis_identity_issue_svid_def split: option.splits)
    then show ?thesis using failed [OF _ codes(1)] by simp
  next
    case False
    then obtain m1 f1 c1 where d: "m = Some m1" "f = Some f1" "c = Some c1" by auto
    obtain w h1 where 1: "c_str F ''workload'' wl h = (Inr w, h1)" "same_heap h h1" using c_str_runs by blast
    obtain i h2 where 2: "c_str F ''instance'' inst h1 = (Inr i, h2)" "same_heap h1 h2" using c_str_runs by blast
    note 3 = same_heap_trans [OF 1(2) 2(2)]
    have "ca \<in> dom (fh_cas h)" using False assms by (simp add: ffi_ok_def)
    then obtain auth where auth: "fh_cas h2 ca = Some auth" using 3 by (auto simp: same_heap_def)
    have run: "?run = (case w of None \<Rightarrow> (Inr (AEGIS_ERR_INVALID_UTF8, None), h1) | Some w \<Rightarrow>
        (case i of None \<Rightarrow> (Inr (AEGIS_ERR_INVALID_UTF8, None), h2) | Some i \<Rightarrow>
        (case issue_svid X now k auth w i \<lparr> dt_model = m1, dt_manifest = f1, dt_config = c1 \<rparr> of
           Inl IdPanic \<Rightarrow> (Inl Aborted, h2)
         | Inl e \<Rightarrow> fail_with (''issue: '' @ fl_error F e) AEGIS_ERR_ISSUE h2
         | Inr svid \<Rightarrow> hand_out F svid h2)))"
      using False d 1(1) 2(1) auth
      by (cases w; cases i)
        (auto simp: aegis_identity_issue_svid_def bindA_def okA_def errA_def deref_ca_def split: sum.splits identity_error.splits)
    show ?thesis
    proof (cases w)
      case None then show ?thesis using run stopped [OF 1(2) codes(2)] by simp
    next
      case w: (Some w')
      show ?thesis
      proof (cases i)
        case None then show ?thesis using run w stopped [OF 3 codes(2)] by simp
      next
        case i: (Some i')
        let ?issued = "issue_svid X now k auth w' i' \<lparr> dt_model = m1, dt_manifest = f1, dt_config = c1 \<rparr>"
        show ?thesis
        proof (cases ?issued)
          case (Inl e)
          have "?good (case e of IdPanic \<Rightarrow> (Inl Aborted, h2) | _ \<Rightarrow> fail_with (''issue: '' @ fl_error F e) AEGIS_ERR_ISSUE h2)"
            using failed [OF 3 codes(3)] by (cases e) simp_all
          then show ?thesis using run w i Inl by (cases e) simp_all
        next
          case (Inr svid)
          obtain code out h' where "hand_out F svid h2 = (Inr (code, out), h')" "ffi_ok h' cas (opt_list out @ svids)"
            "code = AEGIS_OK \<longleftrightarrow> out \<noteq> None" "out = None \<longrightarrow> fh_strings h' = fh_strings h2"
            using hand_out_ok [OF same_heap_ok [OF 3 assms(1)]] by metis
          then show ?thesis using run w i Inr 3 by (simp add: same_heap_def)
        qed
      qed
    qed
  qed
  then show ?thesis by (cases ?run) simp
qed

definition emptied :: AegisSvid where
  "emptied = \<lparr> av_cert_pem = 0, av_key_pem = 0, av_spiffe_id = 0 \<rparr>"

lemma owned_emptied [simp]: "owned emptied = []"
  by (simp add: owned_def emptied_def)

lemma clear_emptied: "aegis_identity_svid_clear (Some emptied) h = (Inr (Some emptied), h)"
  by (simp add: aegis_identity_svid_clear_def clear_field_def emptied_def bindA_def okA_def)

lemma clear_field_runs:
  assumes "fh_strings h 0 = None" and "p = 0 \<or> fh_strings h p \<noteq> None"
  shows "clear_field p h = (Inr 0, h\<lparr> fh_strings := (fh_strings h)(p := None) \<rparr>)"
  using assms by (cases h) (auto simp: clear_field_def okA_def bindA_def drop_string_def fun_upd_idem split: option.splits)

lemma minus_owned:
  fixes D :: "nat set"
  assumes "D = A \<union> S \<union> B" and "S = T - {0}" and "0 \<notin> D" and "S \<inter> (A \<union> B) = {}"
  shows "D - T = A \<union> B"
proof
  show "D - T \<subseteq> A \<union> B" using assms by blast
  have "x \<notin> T" if "x \<in> A \<union> B" for x using that assms by (metis DiffI IntI Un_iff empty_iff singletonD)
  then show "A \<union> B \<subseteq> D - T" using assms(1) by blast
qed

lemma clear_ok:
  assumes "ffi_ok h cas (us @ v # vs)"
  shows "\<exists>h'. aegis_identity_svid_clear (Some v) h = (Inr (Some emptied), h') \<and> ffi_ok h' cas (us @ emptied # vs)"
proof -
  let ?c = "av_cert_pem v" and ?k = "av_key_pem v" and ?i = "av_spiffe_id v"
  let ?h = "h\<lparr> fh_strings := ((fh_strings h)(?c := None))(?k := None, ?i := None) \<rparr>"
  have dom: "dom (fh_strings h) = set (held us) \<union> set (owned v) \<union> set (held vs)"
    and dist: "distinct (held us @ owned v @ held vs)" and pos: "\<forall>p \<in> dom (fh_strings h). 0 < p"
    using assms by (auto simp: ffi_ok_def)
  have zero: "fh_strings h 0 = None" using pos by (metis domIff less_irrefl)
  have own: "p = 0 \<or> fh_strings h p \<noteq> None" if "p \<in> {?c, ?k, ?i}" for p
  proof -
    have "p = 0 \<or> p \<in> set (owned v)" using that by (auto simp: owned_def)
    then show ?thesis using dom by (auto simp: domIff)
  qed
  have diff: "?k = 0 \<or> ?k \<noteq> ?c" "?i = 0 \<or> ?i \<noteq> ?c \<and> ?i \<noteq> ?k" using dist by (auto simp: owned_def split: if_splits)
  let ?h1 = "h\<lparr> fh_strings := (fh_strings h)(?c := None) \<rparr>"
  let ?h2 = "?h1\<lparr> fh_strings := (fh_strings ?h1)(?k := None) \<rparr>"
  have 1: "clear_field ?c h = (Inr 0, ?h1)" using clear_field_runs [OF zero own] by simp
  have 2: "clear_field ?k ?h1 = (Inr 0, ?h2)" using zero own [of ?k] diff(1) by (intro clear_field_runs) auto
  have 3: "clear_field ?i ?h2 = (Inr 0, ?h2\<lparr> fh_strings := (fh_strings ?h2)(?i := None) \<rparr>)"
    using zero own [of ?i] diff(2) by (intro clear_field_runs) auto
  have "aegis_identity_svid_clear (Some v) h = (Inr (Some emptied), ?h)"
    unfolding aegis_identity_svid_clear_def option.case
    by (simp only: bindA_def 1 2 3 prod.case sum.case) (simp add: okA_def emptied_def)
  moreover have "dom (fh_strings ?h) = set (held us) \<union> set (held vs)"
  proof -
    have own_set: "set (owned v) = {?c, ?k, ?i} - {0}" by (auto simp: owned_def)
    have f: "fh_strings ?h = (fh_strings h)(?c := None, ?k := None, ?i := None)" by simp
    have "dom (fh_strings ?h) = dom (fh_strings h) - {?c, ?k, ?i}" unfolding f by (auto simp: dom_def split: if_splits)
    moreover have "0 \<notin> dom (fh_strings h)" using zero by (simp add: domIff)
    moreover have "set (owned v) \<inter> (set (held us) \<union> set (held vs)) = {}" using dist by auto
    ultimately show ?thesis using minus_owned [OF dom own_set] by simp
  qed
  moreover have "distinct (held us @ held vs)" using dist by auto
  ultimately show ?thesis using assms dom by (intro exI [of _ ?h]) (auto simp: ffi_ok_def)
qed

section \<open>Clients\<close>

text \<open>A client that keeps to the header: it frees a handle it has, issues with one, clears a struct it got
  or has cleared before, and passes \<open>NULL\<close> wherever it likes.\<close>

inductive ffi_client :: "ffi_lib \<Rightarrow> x509_lib \<Rightarrow> ffi_state \<Rightarrow> nat list \<Rightarrow> AegisSvid list \<Rightarrow> bool" for F X where
  start: "fh_strings h = Map.empty \<Longrightarrow> fh_cas h = Map.empty \<Longrightarrow> 0 < fh_next h \<Longrightarrow> ffi_client F X h [] []"
| init: "ffi_client F X h cas svids \<Longrightarrow> aegis_identity_ca_init F X now k dir td h = (Inr p, h') \<Longrightarrow>
    ffi_client F X h' (if p = 0 then cas else p # cas) svids"
| load: "ffi_client F X h cas svids \<Longrightarrow> aegis_identity_ca_load F X dir h = (Inr p, h') \<Longrightarrow>
    ffi_client F X h' (if p = 0 then cas else p # cas) svids"
| free: "ffi_client F X h cas svids \<Longrightarrow> p \<in> set cas \<or> p = 0 \<Longrightarrow> aegis_identity_ca_free p h = (Inr (), h') \<Longrightarrow>
    ffi_client F X h' (removeAll p cas) svids"
| issue: "ffi_client F X h cas svids \<Longrightarrow> ca \<in> set cas \<or> ca = 0 \<Longrightarrow>
    aegis_identity_issue_svid F X now k ca wl inst m f c out_null h = (Inr (code, out), h') \<Longrightarrow>
    ffi_client F X h' cas (opt_list out @ svids)"
| clear: "ffi_client F X h cas (us @ v # vs) \<Longrightarrow> aegis_identity_svid_clear (Some v) h = (Inr (Some v'), h') \<Longrightarrow>
    ffi_client F X h' cas (us @ v' # vs)"

lemma ffi_client_ok: "ffi_client F X h cas svids \<Longrightarrow> ffi_ok h cas svids"
proof (induction rule: ffi_client.induct)
  case (start h)
  then show ?case by (simp add: ffi_ok_def)
next
  case (init h cas svids now k dir td p h')
  then show ?case using opened_ok(1) [of h cas svids F X now k dir td] by auto
next
  case (load h cas svids dir p h')
  then show ?case using opened_ok(2) [of h cas svids F X dir] by auto
next
  case (free h cas svids p h')
  then show ?case using free_ok [of h cas svids p] by auto
next
  case (issue h cas svids ca now k wl inst m f c out_null code out h')
  then show ?case using issue_runs [of h cas svids ca F X now k wl inst m f c out_null] by auto
next
  case (clear h cas us v vs v' h')
  then show ?case using clear_ok [of h cas us v vs] by auto
qed

section \<open>Property\<close>

text \<open>C38: The bindings are memory safe and leak nothing for a client that keeps to the header. At every
  moment the memory handed out is exactly the handles and the strings the client holds; freeing a handle
  or \<open>NULL\<close>, issuing with one and clearing a struct never touch memory that was freed, whatever the
  arguments; an issue that fails, at any of its steps, leaves no string behind; and a struct can be
  cleared twice.\<close>

theorem ffi_memory_safe:
  assumes "ffi_client F X h cas svids"
  shows "dom (fh_cas h) = set cas \<and> dom (fh_strings h) = set (held svids) \<and> distinct (held svids) \<and>
     (\<forall>p. p \<in> set cas \<or> p = 0 \<longrightarrow> fst (aegis_identity_ca_free p h) = Inr ()) \<and>
     (\<forall>ca now k wl inst m f c out_null. ca \<in> set cas \<or> ca = 0 \<longrightarrow>
        (case aegis_identity_issue_svid F X now k ca wl inst m f c out_null h of
           (Inl stop, h') \<Rightarrow> stop = Aborted
         | (Inr (code, None), h') \<Rightarrow> code \<noteq> AEGIS_OK \<and> fh_strings h' = fh_strings h
         | (Inr (code, Some v), h') \<Rightarrow> code = AEGIS_OK \<and> dom (fh_strings h') = set (held (v # svids)))) \<and>
     (\<forall>v \<in> set svids. \<exists>h'. aegis_identity_svid_clear (Some v) h = (Inr (Some emptied), h') \<and>
        aegis_identity_svid_clear (Some emptied) h' = (Inr (Some emptied), h'))"
proof -
  note ok = ffi_client_ok [OF assms]
  have 1: "dom (fh_cas h) = set cas" "dom (fh_strings h) = set (held svids)" "distinct (held svids)"
    using ok by (simp_all add: ffi_ok_def)
  have 2: "fst (aegis_identity_ca_free p h) = Inr ()" if "p \<in> set cas \<or> p = 0" for p using free_ok [OF ok that] by auto
  have 3: "case aegis_identity_issue_svid F X now k ca wl inst m f c out_null h of
       (Inl stop, h') \<Rightarrow> stop = Aborted
     | (Inr (code, None), h') \<Rightarrow> code \<noteq> AEGIS_OK \<and> fh_strings h' = fh_strings h
     | (Inr (code, Some v), h') \<Rightarrow> code = AEGIS_OK \<and> dom (fh_strings h') = set (held (v # svids))"
    if own: "ca \<in> set cas \<or> ca = 0" for ca now k wl inst m f c out_null
  proof -
    obtain r h' where r: "aegis_identity_issue_svid F X now k ca wl inst m f c out_null h = (r, h')"
      "case r of Inl stop \<Rightarrow> stop = Aborted
       | Inr (code, out) \<Rightarrow> ffi_ok h' cas (opt_list out @ svids) \<and> (code = AEGIS_OK \<longleftrightarrow> out \<noteq> None) \<and>
           (out = None \<longrightarrow> fh_strings h' = fh_strings h)"
      using issue_runs [OF ok own, of F X now k wl inst m f c out_null] by (elim exE conjE)
    show ?thesis
    proof (cases r)
      case (Inr co)
      then show ?thesis using r by (cases co; cases "snd co") (simp_all add: opt_list_def ffi_ok_def)
    qed (use r in simp)
  qed
  have 4: "\<exists>h'. aegis_identity_svid_clear (Some v) h = (Inr (Some emptied), h') \<and>
      aegis_identity_svid_clear (Some emptied) h' = (Inr (Some emptied), h')" if v: "v \<in> set svids" for v
  proof -
    obtain us vs where "svids = us @ v # vs" using split_list [OF v] by blast
    then show ?thesis using clear_ok [of h cas us v vs] ok clear_emptied by blast
  qed
  show ?thesis using 1 2 3 4 by (intro conjI allI impI ballI)
qed

definition demo_ffi :: ffi_state where
  "demo_ffi = \<lparr> fh_strings = Map.empty, fh_cas = Map.empty, fh_next = 1, fh_last_error = None,
     fh_store = \<lparr> cs_files = Map.empty, cs_calls = 0, cs_outcome = (\<lambda>_. FileOk) \<rparr> \<rparr>"

definition demo_ffi_lib :: ffi_lib where
  "demo_ffi_lib = \<lparr> fl_error = (\<lambda>_. []), fl_utf8_error = (\<lambda>_. []), fl_nul_error = (\<lambda>_. []) \<rparr>"

theorem ffi_memory_safe_witness:
  "\<exists>h v. ffi_client demo_ffi_lib x509_demo h [1] [v] \<and> dom (fh_strings h) = {2, 3, 4} \<and> distinct (held [v]) \<and>
     fst (aegis_identity_ca_free 1 h) = Inr ()"
proof -
  let ?F = demo_ffi_lib and ?s = "fh_store demo_ffi"
  let ?v = "\<lparr> av_cert_pem = 2, av_key_pem = 3, av_spiffe_id = 4 \<rparr>"
  have td: "validate_trust_domain_for_ca ''td'' = Inr ()"
    by (simp add: validate_trust_domain_for_ca_def spiffe_new_Inr spiffe_valid_def
        trust_domain_char_def segment_char_def is_lower_def)
  have zero: "show_nat 0 = ''0''" by code_simp
  obtain ca st where i: "ca_init x509_demo 0 0 ''d'' ''td'' ?s = (Inr ca, st)"
    using td by (simp add: demo_ffi_def ca_init_def act_simps file_op_def write_file_def x509_demo_def of_lib_def bindA_def okA_def)
  let ?h = "demo_ffi\<lparr> fh_store := st, fh_cas := [1 \<mapsto> ca], fh_next := 2 \<rparr>"
  have "aegis_identity_ca_init ?F x509_demo 0 0 (Some ''d'') (Some ''td'') demo_ffi = (Inr 1, ?h)"
    using i by (simp add: aegis_identity_ca_init_def c_str_def cont_byte_def bindA_def okA_def ca_handle_def ca_into_raw_def)
      (simp add: demo_ffi_def)
  moreover have "ffi_client ?F x509_demo demo_ffi [] []" by (rule ffi_client.start) (simp_all add: demo_ffi_def)
  ultimately have 1: "ffi_client ?F x509_demo ?h [1] []" using ffi_client.init by fastforce
  obtain svid where v: "issue_svid x509_demo 0 0 ca ''w'' ''i'' \<lparr> dt_model = [], dt_manifest = [], dt_config = [] \<rparr> = Inr svid"
    and n: "CHR 0x00 \<notin> set (sv_cert_pem svid)" "CHR 0x00 \<notin> set (sv_key_pem svid)" "CHR 0x00 \<notin> set (spiffe_uri (sv_spiffe_id svid))"
    using ca_init_ok(1) [OF i]
    by (simp add: issue_svid_def issue_svid_with_chat_template_def demo_spiffe x509_demo_def sign_svid_def leaf_params_def
        opt_list_def of_lib_def hours_def SVID_VALIDITY_HOURS_def zero spiffe_uri_def SCHEME_def AGENT_SEGMENT_def)
  have "aegis_identity_issue_svid ?F x509_demo 0 0 1 (Some ''w'') (Some ''i'') (Some []) (Some []) (Some []) False ?h =
      (Inr (AEGIS_OK, Some ?v), ?h\<lparr> fh_strings := [2 \<mapsto> sv_cert_pem svid, 3 \<mapsto> sv_key_pem svid,
         4 \<mapsto> spiffe_uri (sv_spiffe_id svid)], fh_next := 5 \<rparr>)"
    using v n by (simp add: aegis_identity_issue_svid_def c_str_def cont_byte_def bindA_def okA_def deref_ca_def hand_out_def
        cstring_new_def string_into_raw_def) (simp add: demo_ffi_def)
  from ffi_client.issue [OF 1 _ this] have 2: "ffi_client ?F x509_demo (?h\<lparr> fh_strings := [2 \<mapsto> sv_cert_pem svid,
      3 \<mapsto> sv_key_pem svid, 4 \<mapsto> spiffe_uri (sv_spiffe_id svid)], fh_next := 5 \<rparr>) [1] [?v]"
    by (simp add: opt_list_def)
  let ?h2 = "?h\<lparr> fh_strings := [2 \<mapsto> sv_cert_pem svid, 3 \<mapsto> sv_key_pem svid, 4 \<mapsto> spiffe_uri (sv_spiffe_id svid)], fh_next := 5 \<rparr>"
  have "dom (fh_strings ?h2) = {2, 3, 4}" by auto
  moreover have "distinct (held [?v])" "fst (aegis_identity_ca_free 1 ?h2) = Inr ()" using ffi_memory_safe [OF 2] by auto
  ultimately show ?thesis using 2 by blast
qed

end
