(* ===== verification/Spec2Isabelle.thy ===== *)
theory Spec2Isabelle
  imports Verify Ca Policy Aggregate Grants Adversarial Driver Attestation Gates Mtls Web McpStdio
    LiteRtSafety Evidence PullSafety ToolTypes UiModels UiRest Cli IdentityFfi
begin

text \<open>
  Verification development for aegis-node, a runtime that lets a language model act only through
  mediated, policy-checked and recorded calls.

  The program. A \<open>session\<close> boots under a permission manifest: it computes the digests of the
  model, the manifest and the configuration, has the local certificate authority issue an identity that binds
  them, and opens a ledger, an append-only file whose lines are chained by SHA-256. A turn sends the
  messages to an inference backend, and dispatches the tool calls of the answer to the mediator. Each
  mediated call first compares the live digests with those of the boot, then asks the policy engine, the
  operator where the policy wants an approval, and the quota of its class; only then it acts, and it writes
  what happened to the ledger. The end of a session appends a signed summary of the connections and closes
  the chain. Around this core are the ledger verifier, the evidence command, the pull of signed models, the
  approval channels, the MCP client, the two inference backends, \<open>aegis run\<close>, and the UI server, whose chat
  surface runs the turns of a session and can be forked to another model.

  How code becomes definitions. A Rust function that takes \<open>&mut self\<close> and returns a \<open>Result\<close> is an
  action (Prelude): a function from the state to an error or a value, and the new state; errors and panics
  are values. Structs are records, enums are datatypes, integers are words of their width where they can
  overflow, strings and byte buffers are lists of bytes, a \<open>HashMap\<close> is a finite map whose iteration order,
  where the code depends on it, is a parameter. What is not in the repository is a parameter: the records
  \<open>libs\<close> (serde_json, sha2, hex, chrono, hmac) and \<open>world\<close> (files, clock, processes, sockets, randomness),
  and one record per external program or library of a component. Functions of the environment take the
  number of the call, so that they may answer the same question differently each time. The laws used of
  them are \<open>json_laws\<close>, \<open>lib_laws\<close> and the hypotheses named in the theorems; \<open>libs0\<close>, \<open>json_unary\<close> and
  \<open>demo_world\<close> satisfy them, and the witnesses are evaluated there.

  Theories and sources (under \<open>src/crates\<close>).

  \<^item> Prelude, Json, Libs, World: actions and their rules (\<open>act_simps\<close>, \<open>act_results\<close>, \<open>moves_intros\<close>, the
    locale \<open>step_order\<close> of relations that actions move along), JSON values, libraries, environment and
    the data of \<open>inference-engine/src/backend.rs\<close>.
  \<^item> Ledger, Verify: \<open>ledger-writer/src/lib.rs\<close>, \<open>error.rs\<close>, \<open>verify.rs\<close>. The locale \<open>append_log\<close> is the
    contract of a log that only grows; the writer interprets it.
  \<^item> Identity, Ca, IdentityFfi: \<open>identity/src/spiffe.rs\<close>, \<open>svid.rs\<close>, \<open>ca.rs\<close>, \<open>binding.rs\<close>, and the C
    bindings \<open>ffi.rs\<close> over a heap of the strings and handles they hand out.
  \<^item> Manifest, Policy, Aggregate, Emit: \<open>policy/src\<close> and \<open>access-log/src\<close>. The locale \<open>quota_counter\<close> is
    the contract of the quota gate.
  \<^item> Grants, Channels, Mtls, Web: \<open>approval-gate/src\<close>: the grant table (locale \<open>keyed_store\<close>), the file,
    terminal, mTLS and web channels. The mTLS accept loop refines \<open>first_verdict\<close>; the web channel is a
    step relation of two threads that share a map.
  \<^item> Adversarial, Session, Mediator, Turn, Attestation: \<open>inference-engine/src\<close>: the pre-filter, boot and
    the entries of a session, the six mediated calls, the turn loop, the shutdown. SessionFacts, Mediation,
    TurnFacts, SessionLedger, Approvals, Outcomes, Refusals, Quotas, Driver and ToolTypes hold what is
    proved of them; Demo is the environment of the witnesses.
  \<^item> Gates, McpStdio: \<open>filesystem-gate\<close>, \<open>network-gate\<close>, \<open>mcp-client\<close>.
  \<^item> Llama, LiteRt, LiteRtSafety: \<open>llama-backend/src\<close> and \<open>litertlm-backend/src\<close>, with the parsers of
    model output and the handles of the native library.
  \<^item> Evidence, Civil, Pull, PullSafety: \<open>cli/src/evidence.rs\<close>, the timestamps without a date library,
    \<open>cli/src/pull.rs\<close>.
  \<^item> CliRun, CliRunFacts, UiBackend, Cli: \<open>cli/src/run.rs\<close>, \<open>cli/src/ui.rs\<close> and the other commands of
    \<open>cli/src/lib.rs\<close>.
  \<^item> UiChat, UiServer, UiModels, UiRest: \<open>ui-server/src\<close>: frames and turns of a socket, the state of the
    server with its forks, the model list, drafts, the validator, health and embedded files.

  What is proved.

  \<^item> Of sessions: every state reachable by mediated calls and runs satisfies complete mediation; calls other
    than network connections stay within quotas; a drifted artifact stops every call; a success is performed once and recorded, a refusal
    has no effect and is recorded; approvals are routed, cached and written as the code means to; runs end
    within their limits; the ledger of any session whose disk works and whose entries can be read back
    (at most 127 nested levels in a payload) verifies. These rest on frames proved once for all
    operations (the locales \<open>entry_frame\<close>, \<open>turn_frame\<close> and \<open>state_frame\<close>), each interpreted on the
    relation at hand.
  \<^item> Of the ledger: writer and verifier agree on entries that can be read back (round trip), the verifier decides the order of entries, and
    the root hash determines the file up to a collision; the evidence command counts what a direct
    definition counts.
  \<^item> Of the surroundings: what \<open>pull\<close> installs was accepted by \<open>cosign\<close>, is listed with its record, through
    the JSON members that writer and reader each declare, and is what a fork loads; native handles are deleted exactly once, and the memory handed to C is exactly what
    its client holds; web grants need the token, mTLS grants the first authorised verdict; a reply of an MCP
    server belongs to its request.
  \<^item> Of the ways in: an authority set up by \<open>identity init\<close> issues what \<open>identity issue\<close> asks for,
    \<open>aegis run\<close> reports the ledger it left, and every session the UI server ever had, over
    any sockets, turns and forks, is mediated like one driven directly; each prompt on a working connection
    is answered by a whole turn unless the backend panics.
  \<^item> Where the code falls short of its documentation this is stated as it is: network quotas are never
    counted, deeply nested payloads break verification, a cached model is not checked against a new key,
    the LiteRT-LM backend does not see tool results, a panicked turn is never ended, a tool call with a
    malformed \<open>pre_validate\<close> argument ends its run (\<open>malformed_argument_halts\<close>), and optional tool
    arguments of a wrong type are dropped.

  Termination and bounds. The turn loop recurses on the turns left below \<open>max_turns\<close>, the verifier and
  the parsers on what is left of their input, the walk of a cache directory on the size of its tree. The
  polling of the file channel and the wait for an MCP reply may not return and are \<open>partial_function\<close>s into
  an option; the file channel is proved to return when the clock passes its deadline. The mTLS accept loop recurses on the
  time that is left to its deadline.

  Simplifications. The file of the ledger is kept apart from the files the agent may touch. Requests to
  the UI server are handled one after another, in any order: backends run behind a mutex and a socket
  belongs to one task, so that no interleaving inside a turn is visible. Directories are created but not
  otherwise tracked. Time is a number; sleeping only passes it. Log and console output is left out.

  Not modelled. The generated declarations and build scripts of \<open>litertlm-sys\<close>: linking around native
  code. The argument parser of the binary (clap). The tokio and axum plumbing, the TLS configuration, the
  replay fixture and the test servers.
\<close>

end
